(* ===== verification/Prelude.thy ===== *)
theory Prelude
  imports
    Main
    "HOL-Library.Word"
    "HOL-Library.AList"
    "HOL-Library.Char_ord"
    "HOL-Library.List_Lexorder"
    "HOL-Library.Product_Lexorder"
begin

text \<open>
  What every component of the dispatch server shares: the machine integers, \<open>std::min\<close> and
  \<open>std::max\<close>, the hash maps (\<open>std::unordered_map\<close>), and the reachable states of a
  component together with the rule that an inductive invariant holds in all of them.

  \<^item> \<open>uint64_t\<close> and \<open>size_t\<close> are both \<open>64 word\<close>: arithmetic wraps, \<open><\<close> is unsigned.
  \<^item> \<open>std::string\<close> is \<open>string\<close>, a list of bytes; \<open><\<close> on it is the lexicographic order
    of the bytes (\<open>Char_ord\<close>, \<open>List_Lexorder\<close>), which is what \<open>std::string::operator<\<close> is.
  \<^item> \<open>std::unordered_map\<close> is an association list whose order is the container's (unspecified)
    iteration order; \<open>um_wf\<close> says that the keys are distinct. Theorems about iteration are
    stated so that they do not depend on that order.
\<close>

named_theorems umap_simps \<open>lookup in an updated hash map\<close>
named_theorems time_simps \<open>unsigned millisecond arithmetic\<close>

type_synonym u64 = "64 word"
type_synonym size_t = "64 word"

subsection \<open>std::min and std::max\<close>

text \<open>
  Both are written out as the standard defines them, because on \<open>double\<close> (where \<open><\<close> is
  not total) the argument order decides what happens to a NaN.
\<close>

definition cpp_min :: "'a::ord \<Rightarrow> 'a \<Rightarrow> 'a" where
  "cpp_min a b = (if b < a then b else a)"

definition cpp_max :: "'a::ord \<Rightarrow> 'a \<Rightarrow> 'a" where
  "cpp_max a b = (if a < b then b else a)"

lemma cpp_min_linorder [simp]: "cpp_min a b = min (a :: 'a::linorder) b"
  by (auto simp: cpp_min_def min_def)

lemma cpp_max_linorder [simp]: "cpp_max a b = max (a :: 'a::linorder) b"
  by (auto simp: cpp_max_def max_def)

subsection \<open>Unsigned time differences\<close>

lemma u64_diff [time_simps]: "b \<le> a \<Longrightarrow> unat (a - b :: u64) = unat a - unat b"
  by (simp add: unat_sub)

lemma u64_less_iff [time_simps]: "(a :: u64) < b \<longleftrightarrow> unat a < unat b"
  by (simp add: word_less_nat_alt)

lemma u64_le_iff [time_simps]: "(a :: u64) \<le> b \<longleftrightarrow> unat a \<le> unat b"
  by (simp add: word_le_nat_alt)

lemma u64_max_unat: "unat (max a b :: u64) = max (unat a) (unat b)"
  by (simp add: max_def word_le_nat_alt)

lemma u64_suc_less: "(a :: u64) < b \<Longrightarrow> unat (a + 1) = Suc (unat a)"
  by unat_arith

lemma u64_pred: "(a :: u64) \<noteq> 0 \<Longrightarrow> unat (a - 1) = unat a - 1"
  by (simp add: unat_minus_one)

subsection \<open>Hash maps\<close>

type_synonym ('k, 'v) umap = "('k \<times> 'v) list"

abbreviation um_find :: "('k, 'v) umap \<Rightarrow> 'k \<Rightarrow> 'v option" where
  "um_find \<equiv> map_of"

abbreviation um_put :: "'k \<Rightarrow> 'v \<Rightarrow> ('k, 'v) umap \<Rightarrow> ('k, 'v) umap" where
  "um_put k v m \<equiv> AList.update k v m"

abbreviation um_erase :: "'k \<Rightarrow> ('k, 'v) umap \<Rightarrow> ('k, 'v) umap" where
  "um_erase k m \<equiv> AList.delete k m"

definition um_erase_if :: "('k \<times> 'v \<Rightarrow> bool) \<Rightarrow> ('k, 'v) umap \<Rightarrow> ('k, 'v) umap" where
  "um_erase_if P m = filter (\<lambda>kv. \<not> P kv) m"

definition um_try_emplace :: "'k \<Rightarrow> 'v \<Rightarrow> ('k, 'v) umap \<Rightarrow> ('k, 'v) umap" where
  "um_try_emplace k v m = (case map_of m k of None \<Rightarrow> AList.update k v m | Some _ \<Rightarrow> m)"

text \<open>\<open>m[k]\<close> on a non-const map reads the value and inserts a default one when there is none.\<close>

definition um_at :: "'v \<Rightarrow> 'k \<Rightarrow> ('k, 'v) umap \<Rightarrow> 'v" where
  "um_at d k m = (case map_of m k of None \<Rightarrow> d | Some v \<Rightarrow> v)"

definition um_wf :: "('k, 'v) umap \<Rightarrow> bool" where
  "um_wf m \<longleftrightarrow> distinct (map fst m)"

lemma um_wf_Nil [simp, intro]: "um_wf []"
  by (simp add: um_wf_def)

lemma um_wf_put [simp, intro]: "um_wf m \<Longrightarrow> um_wf (um_put k v m)"
  by (simp add: um_wf_def distinct_update)

lemma um_wf_erase [simp, intro]: "um_wf m \<Longrightarrow> um_wf (um_erase k m)"
  by (simp add: um_wf_def distinct_delete)

lemma um_wf_erase_if [simp, intro]: "um_wf m \<Longrightarrow> um_wf (um_erase_if P m)"
  by (induction m) (auto simp: um_wf_def um_erase_if_def)

lemma um_wf_try_emplace [simp, intro]: "um_wf m \<Longrightarrow> um_wf (um_try_emplace k v m)"
  by (simp add: um_try_emplace_def split: option.split)

lemma um_find_put [umap_simps]: "um_find (um_put k v m) k' = (if k' = k then Some v else um_find m k')"
  by (simp add: update_conv')

lemma um_find_erase [umap_simps]: "um_find (um_erase k m) k' = (if k' = k then None else um_find m k')"
  by (simp add: delete_conv')

lemma um_find_try_emplace [umap_simps]:
  "um_find (um_try_emplace k v m) k' =
     (if k' = k \<and> um_find m k = None then Some v else um_find m k')"
  by (auto simp: um_try_emplace_def update_conv' split: option.split)

lemma um_find_erase_if:
  "um_wf m \<Longrightarrow> um_find (um_erase_if P m) k =
     (case um_find m k of None \<Rightarrow> None | Some v \<Rightarrow> if P (k, v) then None else Some v)"
proof (induction m)
  case (Cons kv m)
  then show ?case
    by (cases kv) (auto simp: um_wf_def um_erase_if_def map_of_eq_None_iff
        split: option.splits dest: map_of_SomeD)
qed (simp add: um_erase_if_def)

lemma um_mem_iff: "um_wf m \<Longrightarrow> (k, v) \<in> set m \<longleftrightarrow> um_find m k = Some v"
  by (simp add: um_wf_def)

lemma um_list_ex: "um_wf m \<Longrightarrow> list_ex P m \<longleftrightarrow> (\<exists>k v. um_find m k = Some v \<and> P (k, v))"
  by (force simp: list_ex_iff um_mem_iff [symmetric])

lemma um_find_mem: "um_find m k = Some v \<Longrightarrow> (k, v) \<in> set m"
  by (rule map_of_SomeD)

lemma um_at_put [umap_simps]: "um_at d k' (um_put k v m) = (if k' = k then v else um_at d k' m)"
  by (simp add: um_at_def update_conv')

lemma um_find_map_snd:
  "um_find (map (\<lambda>(k, v). (k, f v)) m) k = map_option f (um_find m k)"
  by (induction m) auto

lemma um_wf_map_snd [simp]: "um_wf (map (\<lambda>(k, v). (k, f v)) m) = um_wf m"
  by (simp add: um_wf_def comp_def case_prod_unfold)

lemma set_um_put: "set (um_put k v m) \<subseteq> insert (k, v) (set m)"
  by (induction m) auto

subsection \<open>The interface of a keyed store\<close>

text \<open>
  What the components rely on when they use a hash map: the laws of lookup after insert and
  erase. The lemmas of the locale are what the components' proofs use; the interpretation
  below discharges the laws for the association lists above.
\<close>

locale keyed_store =
  fixes lookup :: "'m \<Rightarrow> 'k \<Rightarrow> 'v option"
    and insert_kv :: "'k \<Rightarrow> 'v \<Rightarrow> 'm \<Rightarrow> 'm"
    and erase_k :: "'k \<Rightarrow> 'm \<Rightarrow> 'm"
    and invar :: "'m \<Rightarrow> bool"
  assumes lookup_insert: "lookup (insert_kv k v m) k' = (if k' = k then Some v else lookup m k')"
    and lookup_erase: "lookup (erase_k k m) k' = (if k' = k then None else lookup m k')"
    and invar_insert: "invar m \<Longrightarrow> invar (insert_kv k v m)"
    and invar_erase: "invar m \<Longrightarrow> invar (erase_k k m)"
begin

lemma erase_after_insert:
  "lookup m k = None \<Longrightarrow> lookup (erase_k k (insert_kv k v m)) = lookup m"
  by (auto simp: fun_eq_iff lookup_insert lookup_erase)

lemma insert_frame: "k' \<noteq> k \<Longrightarrow> lookup (insert_kv k v m) k' = lookup m k'"
  by (simp add: lookup_insert)

lemma dom_insert: "dom (lookup (insert_kv k v m)) = insert k (dom (lookup m))"
  by (auto simp: lookup_insert dom_def)

lemma dom_erase: "dom (lookup (erase_k k m)) = dom (lookup m) - {k}"
  by (auto simp: lookup_erase dom_def)

lemma all_insert:
  "(\<And>k' v'. lookup m k' = Some v' \<Longrightarrow> P k' v') \<Longrightarrow> P k v \<Longrightarrow>
   lookup (insert_kv k v m) k'' = Some v'' \<Longrightarrow> P k'' v''"
  by (auto simp: lookup_insert split: if_splits)

end

interpretation umap: keyed_store "map_of" "AList.update" "AList.delete" um_wf
  by unfold_locales (auto simp: umap_simps)

subsection \<open>Reachable states and inductive invariants\<close>

text \<open>
  A component is used from many threads, but every public operation holds the component's
  mutex, so an execution is a sequence of whole operations. \<open>reachable init step\<close> are the
  states such sequences lead to.
\<close>

inductive reachable :: "('s \<Rightarrow> bool) \<Rightarrow> ('s \<Rightarrow> 's \<Rightarrow> bool) \<Rightarrow> 's \<Rightarrow> bool"
  for init :: "'s \<Rightarrow> bool" and step :: "'s \<Rightarrow> 's \<Rightarrow> bool" where
  reach_init: "init s \<Longrightarrow> reachable init step s"
| reach_step: "reachable init step s \<Longrightarrow> step s t \<Longrightarrow> reachable init step t"

locale inductive_invariant =
  fixes init :: "'s \<Rightarrow> bool"
    and step :: "'s \<Rightarrow> 's \<Rightarrow> bool"
    and inv :: "'s \<Rightarrow> bool"
  assumes inv_init: "init s \<Longrightarrow> inv s"
    and inv_step: "inv s \<Longrightarrow> step s t \<Longrightarrow> inv t"
begin

lemma inv_reachable: "reachable init step s \<Longrightarrow> inv s"
  by (induction rule: reachable.induct) (auto intro: inv_init inv_step)

lemma inv_star: "step\<^sup>*\<^sup>* s t \<Longrightarrow> inv s \<Longrightarrow> inv t"
  by (induction rule: rtranclp.induct) (auto intro: inv_step)

end

subsection \<open>Lists\<close>

lemma foldl_invariant:
  "P s \<Longrightarrow> (\<And>s x. P s \<Longrightarrow> x \<in> set xs \<Longrightarrow> P (f s x)) \<Longrightarrow> P (foldl f s xs)"
  by (induction xs arbitrary: s) auto

lemma fold_invariant_mem:
  "P s \<Longrightarrow> (\<And>s x. P s \<Longrightarrow> x \<in> set xs \<Longrightarrow> P (f x s)) \<Longrightarrow> P (fold f xs s)"
  by (induction xs arbitrary: s) auto

subsection \<open>Sorting by a comparator\<close>

text \<open>
  \<open>std::sort\<close> with a comparator, as an insertion sort. Elements that the comparator does not
  separate come out in the order of the input here and in an unspecified order in C++
  (\<open>std::stable_sort\<close> keeps the input order as well).
\<close>

fun insert_by :: "('a \<Rightarrow> 'a \<Rightarrow> bool) \<Rightarrow> 'a \<Rightarrow> 'a list \<Rightarrow> 'a list" where
  "insert_by lt x [] = [x]"
| "insert_by lt x (y # ys) = (if lt y x then y # insert_by lt x ys else x # y # ys)"

definition sort_by :: "('a \<Rightarrow> 'a \<Rightarrow> bool) \<Rightarrow> 'a list \<Rightarrow> 'a list" where
  "sort_by lt xs = foldr (insert_by lt) xs []"

text \<open>\<open>std::unique\<close> with a predicate: every element is compared with the last one kept.\<close>

fun unique_by :: "('a \<Rightarrow> 'a \<Rightarrow> bool) \<Rightarrow> 'a list \<Rightarrow> 'a list" where
  "unique_by eq (x # y # ys) = (if eq x y then unique_by eq (x # ys) else x # unique_by eq (y # ys))"
| "unique_by eq xs = xs"

lemma set_insert_by [simp]: "set (insert_by lt x ys) = insert x (set ys)"
  by (induction ys) auto

lemma length_insert_by [simp]: "length (insert_by lt x ys) = Suc (length ys)"
  by (induction ys) auto

lemma set_sort_by [simp]: "set (sort_by lt xs) = set xs"
  by (induction xs) (simp_all add: sort_by_def)

lemma length_sort_by [simp]: "length (sort_by lt xs) = length xs"
  by (induction xs) (simp_all add: sort_by_def)

lemma sorted_insert_by:
  assumes "\<And>a b c. lt a b \<Longrightarrow> lt b c \<Longrightarrow> lt a c" "\<And>a b. lt a b \<Longrightarrow> \<not> lt b a"
    and "\<And>a b c. \<not> lt b a \<Longrightarrow> \<not> lt c b \<Longrightarrow> \<not> lt c a"
    and "sorted_wrt (\<lambda>a b. \<not> lt b a) ys"
  shows "sorted_wrt (\<lambda>a b. \<not> lt b a) (insert_by lt x ys)"
  using assms(4)
proof (induction ys)
  case (Cons y ys)
  show ?case
  proof (cases "lt y x")
    case True
    then show ?thesis using Cons assms(2) by auto
  next
    case False
    then show ?thesis using Cons assms(3) by auto
  qed
qed simp

lemma sorted_sort_by:
  assumes "\<And>a b c. lt a b \<Longrightarrow> lt b c \<Longrightarrow> lt a c" "\<And>a b. lt a b \<Longrightarrow> \<not> lt b a"
    and "\<And>a b c. \<not> lt b a \<Longrightarrow> \<not> lt c b \<Longrightarrow> \<not> lt c a"
  shows "sorted_wrt (\<lambda>a b. \<not> lt b a) (sort_by lt xs)"
proof (induction xs)
  case (Cons x xs)
  have "sorted_wrt (\<lambda>a b. \<not> lt b a) (insert_by lt x (sort_by lt xs))"
    by (rule sorted_insert_by [OF assms(1) assms(2) assms(3) Cons.IH])
  then show ?case by (simp only: sort_by_def foldr.simps comp_apply)
qed (simp add: sort_by_def)

subsection \<open>Scanning for a best element\<close>

text \<open>
  The loops of the form \<open>if (!selected || better(item, *selected)) selected = &item;\<close>. All the
  result needs is that \<open>better\<close> is a strict order; it need not be total, which matters because
  the scores that are compared are doubles.
\<close>

definition scan_best :: "('a \<Rightarrow> 'a \<Rightarrow> bool) \<Rightarrow> 'a list \<Rightarrow> 'a option" where
  "scan_best better xs = foldl (\<lambda>sel x. case sel of None \<Rightarrow> Some x
     | Some s \<Rightarrow> if better x s then Some x else Some s) None xs"

lemma scan_best_snoc: "scan_best better (xs @ [x]) =
  (case scan_best better xs of None \<Rightarrow> Some x | Some s \<Rightarrow> if better x s then Some x else Some s)"
  by (simp add: scan_best_def)

lemma scan_best_Nil [simp]: "scan_best better [] = None"
  by (simp add: scan_best_def)

lemma scan_best_single [simp]: "scan_best better [x] = Some x"
  by (simp add: scan_best_def)

lemma scan_best_None [simp]: "scan_best better xs = None \<longleftrightarrow> xs = []"
  by (induction xs rule: rev_induct) (auto simp: scan_best_snoc split: option.splits)

lemma scan_best_mem: "scan_best better xs = Some s \<Longrightarrow> s \<in> set xs"
  by (induction xs arbitrary: s rule: rev_induct)
    (auto simp: scan_best_snoc split: option.splits if_splits)

locale scan_order =
  fixes better :: "'a \<Rightarrow> 'a \<Rightarrow> bool"
  assumes better_irrefl: "\<not> better x x"
    and better_trans: "better x y \<Longrightarrow> better y z \<Longrightarrow> better x z"
begin

lemma scan_best_max: "scan_best better xs = Some s \<Longrightarrow> x \<in> set xs \<Longrightarrow> \<not> better x s"
proof (induction xs arbitrary: s x rule: rev_induct)
  case (snoc y ys)
  show ?case
  proof (cases "scan_best better ys")
    case None
    then show ?thesis using snoc.prems by (auto simp: scan_best_snoc better_irrefl)
  next
    case (Some r)
    then have "s = (if better y r then y else r)" using snoc.prems(1) by (simp add: scan_best_snoc split: if_splits)
    then show ?thesis
      using snoc.IH [OF Some, of x] snoc.prems(2) better_irrefl better_trans [of x y r]
      by (cases "x = y") (auto split: if_splits)
  qed
qed simp

end

end
