(* ===== verification/Double.thy ===== *)
theory Double
  imports Prelude "HOL-Library.Log_Nat"
begin

text \<open>
  The C++ type \<open>double\<close> as IEEE 754 binary64 with rounding to nearest, ties to even. A finite
  value is the rational number it denotes; every operation computes exactly and rounds the
  exact result with \<open>rnd\<close>, so the model has the code's overflow to infinity, its NaNs and its
  rounding errors, and is still executable. Not represented: the sign of a zero (the code
  never divides by a zero it has not excluded, and \<open>==\<close>, \<open><\<close> and \<open>std::isfinite\<close> do not see
  it) and NaN payloads. \<open>std::hypot\<close> is taken to be correctly rounded.

  \<^item> \<open>rnd\<close>, with the laws (monotone, odd, exact on small integers) collected in the locale
    \<open>rounding_mode\<close>; everything later proofs need about rounding comes from that interface.
  \<^item> arithmetic, comparison, \<open>std::abs\<close>, \<open>std::floor\<close>, \<open>std::ceil\<close>, \<open>std::isfinite\<close>,
    \<open>std::hypot\<close> and the conversions from and to \<open>uint64_t\<close>.
\<close>

named_theorems double_simps \<open>evaluation of double arithmetic on finite values\<close>

subsection \<open>Rounding of rationals\<close>

definition ilog2 :: "rat \<Rightarrow> int" where
  "ilog2 x = (let pq = quotient_of x; k = bitlen (fst pq) - bitlen (snd pq)
     in if 2 powi k \<le> x then k else k - 1)"

definition round_even :: "rat \<Rightarrow> int" where
  "round_even x = (let f = \<lfloor>x\<rfloor>; d = x - of_int f in
     if d < 1 / 2 then f else if 1 / 2 < d then f + 1 else if even f then f else f + 1)"

definition ulp_exponent :: "rat \<Rightarrow> int" where
  "ulp_exponent x = max (ilog2 \<bar>x\<bar> - 52) (- 1074)"

definition rnd :: "rat \<Rightarrow> rat" where
  "rnd x = (if x = 0 then 0
     else of_int (round_even (x / 2 powi ulp_exponent x)) * 2 powi ulp_exponent x)"

lemma ilog2_bounds:
  assumes "0 < x"
  shows "2 powi ilog2 x \<le> x \<and> x < 2 powi (ilog2 x + 1)"
proof -
  obtain p q where pq: "quotient_of x = (p, q)" by fastforce
  have q: "0 < q" using quotient_of_denom_pos pq by blast
  have x: "x = of_int p / of_int q" using quotient_of_div pq by blast
  have p: "0 < p" using assms q unfolding x by (simp add: zero_less_divide_iff)
  let ?k = "bitlen p - bitlen q"
  have bp: "2 ^ nat (bitlen p - 1) \<le> p \<and> p < 2 ^ nat (bitlen p)" using bitlen_bounds p by blast
  have bq: "2 ^ nat (bitlen q - 1) \<le> q \<and> q < 2 ^ nat (bitlen q)" using bitlen_bounds q by blast
  have lp: "0 < bitlen p" using p bitlen_eq_zero_iff [of p] bitlen_nonneg [of p] by linarith
  have lq: "0 < bitlen q" using q bitlen_eq_zero_iff [of q] bitlen_nonneg [of q] by linarith
  have pow: "(2 :: rat) powi k = of_int (2 ^ nat k)" if "0 \<le> k" for k
    using that by (simp add: power_int_def)
  have P1: "2 powi (bitlen p - 1) \<le> (of_int p :: rat)" and P2: "(of_int p :: rat) < 2 powi bitlen p"
    using bp lp by (simp_all only: pow of_int_le_iff of_int_less_iff)
  have Q1: "2 powi (bitlen q - 1) \<le> (of_int q :: rat)" and Q2: "(of_int q :: rat) < 2 powi bitlen q"
    using bq lq by (simp_all only: pow of_int_le_iff of_int_less_iff)
  have up: "x < 2 powi (?k + 1)"
  proof -
    have "x < 2 powi bitlen p / 2 powi (bitlen q - 1)"
      unfolding x using P2 Q1 p q by (intro frac_less) auto
    also have "\<dots> = 2 powi (bitlen p - (bitlen q - 1))" by (subst power_int_diff) auto
    also have "\<dots> = 2 powi (?k + 1)" by (simp add: algebra_simps)
    finally show ?thesis .
  qed
  have lo: "2 powi (?k - 1) \<le> x"
  proof -
    have "2 powi (?k - 1) = 2 powi (bitlen p - 1) / (2 powi bitlen q :: rat)"
      by (simp add: power_int_diff[symmetric] algebra_simps)
    also have "\<dots> \<le> x" unfolding x using P1 Q2 p q by (intro frac_le) auto
    finally show ?thesis .
  qed
  show ?thesis using up lo by (auto simp: ilog2_def pq Let_def)
qed

lemma round_even_bounds: "x - 1 / 2 \<le> of_int (round_even x) \<and> of_int (round_even x) \<le> x + 1 / 2"
proof -
  have "of_int \<lfloor>x\<rfloor> \<le> x \<and> x < of_int \<lfloor>x\<rfloor> + 1" by (rule floor_correct [unfolded of_int_add of_int_1])
  then show ?thesis unfolding round_even_def Let_def
    by (cases "x - of_int \<lfloor>x\<rfloor> < 1 / 2"; cases "1 / 2 < x - of_int \<lfloor>x\<rfloor>"; cases "even \<lfloor>x\<rfloor>")
      (simp_all only: if_True if_False of_int_add of_int_1, linarith+)
qed

lemma round_even_of_int [simp]: "round_even (of_int n) = n"
  by (simp add: round_even_def)

lemma round_even_mono:
  assumes "x \<le> y"
  shows "round_even x \<le> round_even y"
proof (cases "\<lfloor>x\<rfloor> = \<lfloor>y\<rfloor>")
  case True
  with assms show ?thesis by (auto simp: round_even_def Let_def)
next
  case False
  with assms have "\<lfloor>x\<rfloor> + 1 \<le> \<lfloor>y\<rfloor>" using floor_mono by fastforce
  then show ?thesis by (auto simp: round_even_def Let_def)
qed

lemma round_even_uminus: "round_even (- x) = - round_even x"
proof (cases "x = of_int \<lfloor>x\<rfloor>")
  case True
  then show ?thesis by (metis of_int_minus round_even_of_int)
next
  case False
  then have "\<lfloor>- x\<rfloor> = - \<lfloor>x\<rfloor> - 1" 
    using floor_correct [of x] of_int_floor_le [of x] by (intro floor_unique) (simp, linarith)+
  then show ?thesis by (auto simp: round_even_def Let_def)
qed

lemma ilog2_mono: "0 < x \<Longrightarrow> x \<le> y \<Longrightarrow> ilog2 x \<le> ilog2 y"
proof (rule ccontr)
  assume "0 < x" "x \<le> y" "\<not> ilog2 x \<le> ilog2 y"
  then have "(2 :: rat) powi (ilog2 y + 1) \<le> 2 powi ilog2 x" by (intro power_int_increasing) auto
  then show False
    using ilog2_bounds [of x] ilog2_bounds [of y] \<open>0 < x\<close> \<open>x \<le> y\<close> by linarith
qed

lemma rnd_0 [simp]: "rnd 0 = 0"
  by (simp add: rnd_def)

lemma rnd_uminus: "rnd (- x) = - rnd x"
  by (simp add: rnd_def ulp_exponent_def round_even_uminus)

lemma int_scale: "0 \<le> k \<Longrightarrow> (2 :: rat) powi k = of_int (2 ^ nat k)"
  by (simp add: power_int_def)

lemma round_even_le_pow: "x \<le> 2 powi k \<Longrightarrow> 0 \<le> k \<Longrightarrow> of_int (round_even x) \<le> (2 :: rat) powi k"
  by (metis int_scale of_int_le_iff round_even_mono round_even_of_int)

lemma round_even_ge_pow: "2 powi k \<le> x \<Longrightarrow> 0 \<le> k \<Longrightarrow> (2 :: rat) powi k \<le> of_int (round_even x)"
  by (metis int_scale of_int_le_iff round_even_mono round_even_of_int)

lemma powi_shift: "(2 :: rat) powi a / 2 powi b = 2 powi (a - b)"
  by (simp add: power_int_diff)

lemma powi_mult: "(2 :: rat) powi a * 2 powi b = 2 powi (a + b)"
  by (simp add: power_int_add)

lemma rnd_mono_pos:
  assumes "0 < x" "x \<le> y"
  shows "rnd x \<le> rnd y"
proof (cases "ulp_exponent x = ulp_exponent y")
  case True
  have "x / 2 powi ulp_exponent y \<le> y / 2 powi ulp_exponent y"
    using assms by (intro divide_right_mono) auto
  then have "round_even (x / 2 powi ulp_exponent y) \<le> round_even (y / 2 powi ulp_exponent y)"
    by (rule round_even_mono)
  then show ?thesis using assms True by (simp add: rnd_def mult_right_mono)
next
  case False
  let ?ex = "ulp_exponent x" and ?ey = "ulp_exponent y"
  have E: "ilog2 x \<le> ilog2 y" using ilog2_mono assms by simp
  with False assms have ey: "?ey = ilog2 y - 52" and ex: "?ex < ?ey" and less: "ilog2 x < ilog2 y"
    by (auto simp: ulp_exponent_def max_def split: if_splits)
  have "2 powi (ilog2 y - ?ey) \<le> y / 2 powi ?ey"
    unfolding powi_shift [symmetric] using ilog2_bounds [of y] assms by (intro divide_right_mono) auto
  then have "2 powi (ilog2 y - ?ey) \<le> (of_int (round_even (y / 2 powi ?ey)) :: rat)"
    using ey by (intro round_even_ge_pow) auto
  then have "2 powi (ilog2 y - ?ey) * 2 powi ?ey \<le> rnd y"
    using assms by (simp add: rnd_def mult_right_mono)
  then have ly: "2 powi ilog2 y \<le> rnd y" by (simp add: powi_mult)
  have "x \<le> 2 powi (ilog2 x + 1)" using ilog2_bounds [of x] assms by simp
  also have "\<dots> \<le> 2 powi ilog2 y" using less by (intro power_int_increasing) auto
  finally have "x / 2 powi ?ex \<le> 2 powi ilog2 y / 2 powi ?ex" by (simp add: divide_right_mono)
  also have "\<dots> = 2 powi (ilog2 y - ?ex)" by (rule powi_shift)
  finally have "of_int (round_even (x / 2 powi ?ex)) \<le> (2 :: rat) powi (ilog2 y - ?ex)"
    using ex ey by (intro round_even_le_pow) auto
  then have "rnd x \<le> 2 powi (ilog2 y - ?ex) * 2 powi ?ex"
    using assms by (simp add: rnd_def mult_right_mono)
  also have "\<dots> = 2 powi ilog2 y" by (simp add: powi_mult)
  finally show ?thesis using ly by simp
qed

lemma rnd_nonneg [simp]: "0 \<le> x \<Longrightarrow> 0 \<le> rnd x"
proof -
  assume "0 \<le> x"
  then have "round_even 0 \<le> round_even (x / 2 powi ulp_exponent x)" by (intro round_even_mono) simp
  then show ?thesis using round_even_of_int [of 0] by (simp add: rnd_def)
qed

lemma rnd_mono: "x \<le> y \<Longrightarrow> rnd x \<le> rnd y"
proof -
  assume le: "x \<le> y"
  consider "0 < x" | "x \<le> 0" "0 \<le> y" | "y < 0" by linarith
  then show ?thesis
  proof cases
    case 1
    then show ?thesis using le by (rule rnd_mono_pos)
  next
    case 2
    then have "0 \<le> rnd (- x)" "0 \<le> rnd y" by (intro rnd_nonneg; simp)+
    then show ?thesis by (simp add: rnd_uminus)
  next
    case 3
    then have "rnd (- y) \<le> rnd (- x)" using le by (intro rnd_mono_pos) auto
    then show ?thesis by (simp add: rnd_uminus)
  qed
qed

text \<open>The values of a double: \<open>m * 2^k\<close> with a 53 bit significand and the exponents of binary64.\<close>

definition representable :: "rat \<Rightarrow> bool" where
  "representable x \<longleftrightarrow> (\<exists>m k. x = of_int m * 2 powi k \<and> \<bar>m\<bar> \<le> 2 ^ 53 \<and> - 1074 \<le> k)"

lemma representable_uminus: "representable (- x) = representable x"
  by (metis (no_types, opaque_lifting) abs_minus_cancel add.inverse_inverse mult_minus_left
      of_int_minus representable_def)

lemma significand_top:
  assumes "0 < x" "x = of_int m * 2 powi k" "m \<le> 2 ^ 53" "k < ilog2 x - 52"
  shows "m = 2 ^ 53 \<and> ilog2 x = k + 53"
proof -
  let ?n = "nat (ilog2 x - k)"
  have "2 powi ilog2 x \<le> of_int m * (2 :: rat) powi k" using ilog2_bounds [of x] assms by simp
  then have "2 powi ilog2 x / 2 powi k \<le> (of_int m :: rat)" by (simp add: pos_divide_le_eq)
  then have "of_int (2 ^ ?n) \<le> (of_int m :: rat)"
    using assms(4) by (simp only: powi_shift int_scale)
  then have n: "2 ^ ?n \<le> m" by (simp only: of_int_le_iff)
  with assms(3) have "(2 :: int) ^ ?n \<le> 2 ^ 53" by linarith
  then have "?n \<le> 53" by (rule power_le_imp_le_exp [rotated]) simp
  with assms(4) have "?n = 53" by linarith
  with n assms(3,4) show ?thesis by auto
qed

lemma rnd_exact_pos:
  assumes "x = of_int m * 2 powi k" "\<bar>m\<bar> \<le> 2 ^ 53" "- 1074 \<le> k" "0 < x"
  shows "rnd x = x"
proof -
  let ?e = "ulp_exponent x"
  have "\<exists>n. x / 2 powi ?e = of_int n"
  proof (cases "?e \<le> k")
    case True
    then have "x / 2 powi ?e = of_int m * 2 powi (k - ?e)" using assms(1) by (simp add: power_int_diff)
    also have "\<dots> = of_int (m * 2 ^ nat (k - ?e))" using True by (simp add: power_int_def)
    finally show ?thesis by blast
  next
    case False
    then have e: "?e = ilog2 x - 52" using assms by (auto simp: ulp_exponent_def max_def split: if_splits)
    then have top: "m = 2 ^ 53 \<and> ilog2 x = k + 53"
      using assms False by (intro significand_top) auto
    with e have "?e = k + 1" by simp
    then have "x / 2 powi ?e = of_int m * (2 powi k / 2 powi (k + 1))"
      using assms(1) by simp
    also have "\<dots> = of_int (2 ^ 53) * (2 powi k / 2 powi (k + 1))" using top by simp
    also have "\<dots> = of_int (2 ^ 53) * (1 / 2)" by (simp only: powi_shift) simp
    also have "\<dots> = of_int (2 ^ 52)" by simp
    finally show ?thesis by blast
  qed
  then obtain n where n: "x / 2 powi ?e = of_int n" by blast
  then have "x = of_int n * 2 powi ?e" by (simp add: divide_eq_eq)
  then show ?thesis using assms(4) n by (simp add: rnd_def)
qed

lemma rnd_exact: "representable x \<Longrightarrow> rnd x = x"
proof -
  assume rep: "representable x"
  have pos: "0 < y \<Longrightarrow> representable y \<Longrightarrow> rnd y = y" for y
    by (auto simp: representable_def intro: rnd_exact_pos)
  consider "0 < x" | "x = 0" | "0 < - x" by linarith
  then show ?thesis
    by cases (use rep pos [of x] pos [of "- x"] in \<open>auto simp: representable_uminus rnd_uminus\<close>)
qed

lemma representable_int: "\<bar>n\<bar> \<le> 2 ^ 53 \<Longrightarrow> representable (of_int n)"
  unfolding representable_def by (rule exI [of _ n], rule exI [of _ 0]) simp

lemma representable_rnd: "representable (rnd x)"
proof (cases "x = 0")
  case True
  then show ?thesis using representable_int [of 0] by simp
next
  case False
  let ?e = "ulp_exponent x" and ?n = "round_even (x / 2 powi ulp_exponent x)"
  have "\<bar>x\<bar> \<le> 2 powi (ilog2 \<bar>x\<bar> + 1)" using ilog2_bounds [of "\<bar>x\<bar>"] False by simp
  also have "\<dots> \<le> 2 powi (53 + ?e)" by (intro power_int_increasing) (auto simp: ulp_exponent_def)
  finally have "\<bar>x\<bar> / 2 powi ?e \<le> 2 powi 53" by (simp add: pos_divide_le_eq power_int_add)
  moreover have "x / 2 powi ?e \<le> \<bar>x\<bar> / 2 powi ?e" "- x / 2 powi ?e \<le> \<bar>x\<bar> / 2 powi ?e"
    by (intro divide_right_mono; simp)+
  ultimately have "x / 2 powi ?e \<le> 2 powi 53" "- x / 2 powi ?e \<le> 2 powi 53" by linarith+
  then have "of_int (round_even (x / 2 powi ?e)) \<le> (2 :: rat) powi 53"
    "of_int (round_even (- x / 2 powi ?e)) \<le> (2 :: rat) powi 53"
    by (intro round_even_le_pow; simp)+
  then have "of_int ?n \<le> (of_int (2 ^ 53) :: rat)" "of_int (- ?n) \<le> (of_int (2 ^ 53) :: rat)"
    using round_even_uminus [of "x / 2 powi ?e"] by simp_all
  then have "\<bar>?n\<bar> \<le> 2 ^ 53" unfolding of_int_le_iff by linarith
  moreover have "- 1074 \<le> ?e" by (simp add: ulp_exponent_def)
  ultimately show ?thesis using False by (auto simp: rnd_def representable_def)
qed

lemma rnd_int: "\<bar>n\<bar> \<le> 2 ^ 53 \<Longrightarrow> rnd (of_int n) = of_int n"
  by (intro rnd_exact representable_int)

subsection \<open>What the rest of the development needs to know about rounding\<close>

locale rounding_mode =
  fixes r :: "rat \<Rightarrow> rat"
  assumes r_mono: "x \<le> y \<Longrightarrow> r x \<le> r y"
    and r_uminus: "r (- x) = - r x"
    and r_small_int: "\<bar>n\<bar> \<le> 2 ^ 53 \<Longrightarrow> r (of_int n) = of_int n"
begin

lemma r_zero: "r 0 = 0"
  using r_small_int [of 0] by simp

lemma r_one: "r 1 = 1"
  using r_small_int [of 1] by simp

lemma r_nonneg: "0 \<le> x \<Longrightarrow> 0 \<le> r x"
  using r_mono [of 0 x] by (simp add: r_zero)

lemma r_nonpos: "x \<le> 0 \<Longrightarrow> r x \<le> 0"
  using r_mono [of x 0] by (simp add: r_zero)

lemma r_between:
  "of_int a \<le> x \<Longrightarrow> x \<le> of_int b \<Longrightarrow> \<bar>a\<bar> \<le> 2 ^ 53 \<Longrightarrow> \<bar>b\<bar> \<le> 2 ^ 53 \<Longrightarrow>
   of_int a \<le> r x \<and> r x \<le> of_int b"
  by (metis r_mono r_small_int)

end

interpretation rne: rounding_mode rnd
  by unfold_locales (auto intro: rnd_mono rnd_int simp: rnd_uminus)

subsection \<open>Values and arithmetic\<close>

datatype double = Fin rat | PInf | NInf | NaN

text \<open>
  The rounded value overflows when it is \<open>2^1024\<close> or more; the test is on the exponent so that
  it stays cheap to evaluate.
\<close>

definition mk_double :: "rat \<Rightarrow> double" where
  "mk_double x = (let y = rnd x in
     if y \<noteq> 0 \<and> 1024 \<le> ilog2 \<bar>y\<bar> then (if 0 < y then PInf else NInf) else Fin y)"

text \<open>A literal of the source: the nearest double of the decimal number written there.\<close>

abbreviation lit :: "rat \<Rightarrow> double" where
  "lit \<equiv> mk_double"

definition inf_of_sign :: "rat \<Rightarrow> double" where
  "inf_of_sign x = (if x = 0 then NaN else if 0 < x then PInf else NInf)"

instantiation double :: "{zero, one, plus, uminus, minus, times, inverse, abs, ord}"
begin

definition zero_double :: double where
  "zero_double = Fin 0"

definition one_double :: double where
  "one_double = Fin 1"

fun plus_double :: "double \<Rightarrow> double \<Rightarrow> double" where
  "plus_double (Fin a) (Fin b) = mk_double (a + b)"
| "plus_double NaN _ = NaN"
| "plus_double _ NaN = NaN"
| "plus_double PInf NInf = NaN"
| "plus_double NInf PInf = NaN"
| "plus_double PInf _ = PInf"
| "plus_double _ PInf = PInf"
| "plus_double NInf _ = NInf"
| "plus_double _ NInf = NInf"

fun uminus_double :: "double \<Rightarrow> double" where
  "uminus_double (Fin a) = Fin (- a)"
| "uminus_double PInf = NInf"
| "uminus_double NInf = PInf"
| "uminus_double NaN = NaN"

definition minus_double :: "double \<Rightarrow> double \<Rightarrow> double" where
  "minus_double a b = a + (- b)"

fun times_double :: "double \<Rightarrow> double \<Rightarrow> double" where
  "times_double (Fin a) (Fin b) = mk_double (a * b)"
| "times_double NaN _ = NaN"
| "times_double _ NaN = NaN"
| "times_double PInf PInf = PInf"
| "times_double PInf NInf = NInf"
| "times_double NInf PInf = NInf"
| "times_double NInf NInf = PInf"
| "times_double PInf (Fin b) = inf_of_sign b"
| "times_double (Fin a) PInf = inf_of_sign a"
| "times_double NInf (Fin b) = inf_of_sign (- b)"
| "times_double (Fin a) NInf = inf_of_sign (- a)"

fun divide_double :: "double \<Rightarrow> double \<Rightarrow> double" where
  "divide_double (Fin a) (Fin b) = (if b = 0 then inf_of_sign a else mk_double (a / b))"
| "divide_double NaN _ = NaN"
| "divide_double _ NaN = NaN"
| "divide_double (Fin a) _ = Fin 0"
| "divide_double PInf (Fin b) = (if 0 \<le> b then PInf else NInf)"
| "divide_double NInf (Fin b) = (if 0 \<le> b then NInf else PInf)"
| "divide_double _ _ = NaN"

definition inverse_double :: "double \<Rightarrow> double" where
  "inverse_double a = divide 1 a"

fun abs_double :: "double \<Rightarrow> double" where
  "abs_double (Fin a) = Fin \<bar>a\<bar>"
| "abs_double NaN = NaN"
| "abs_double _ = PInf"

fun less_double :: "double \<Rightarrow> double \<Rightarrow> bool" where
  "less_double NaN _ = False"
| "less_double _ NaN = False"
| "less_double (Fin a) (Fin b) = (a < b)"
| "less_double PInf _ = False"
| "less_double _ NInf = False"
| "less_double _ _ = True"

fun less_eq_double :: "double \<Rightarrow> double \<Rightarrow> bool" where
  "less_eq_double NaN _ = False"
| "less_eq_double _ NaN = False"
| "less_eq_double (Fin a) (Fin b) = (a \<le> b)"
| "less_eq_double NInf _ = True"
| "less_eq_double _ PInf = True"
| "less_eq_double _ _ = False"

instance ..

end

text \<open>C++ \<open>a == b\<close>: false as soon as one side is a NaN.\<close>

definition deq :: "double \<Rightarrow> double \<Rightarrow> bool" where
  "deq a b \<longleftrightarrow> a \<le> b \<and> b \<le> a"

fun isfinite :: "double \<Rightarrow> bool" where
  "isfinite (Fin _) = True"
| "isfinite _ = False"

fun std_floor :: "double \<Rightarrow> double" where
  "std_floor (Fin a) = Fin (of_int \<lfloor>a\<rfloor>)"
| "std_floor d = d"

fun std_ceil :: "double \<Rightarrow> double" where
  "std_ceil (Fin a) = Fin (of_int \<lceil>a\<rceil>)"
| "std_ceil d = d"

definition double_of_int :: "int \<Rightarrow> double" where
  "double_of_int n = mk_double (of_int n)"

definition double_of_nat :: "nat \<Rightarrow> double" where
  "double_of_nat n = double_of_int (int n)"

definition double_of_u64 :: "u64 \<Rightarrow> double" where
  "double_of_u64 w = double_of_int (uint w)"

definition trunc :: "rat \<Rightarrow> int" where
  "trunc a = (if 0 \<le> a then \<lfloor>a\<rfloor> else \<lceil>a\<rceil>)"

text \<open>
  \<open>static_cast<uint64_t>(d)\<close> drops the fraction; when the result does not fit (or \<open>d\<close> is not
  finite) the behaviour is undefined, which is \<open>None\<close> here.
\<close>

fun u64_of_double :: "double \<Rightarrow> u64 option" where
  "u64_of_double (Fin a) =
     (if 0 \<le> trunc a \<and> trunc a < 2 ^ 64 then Some (word_of_int (trunc a)) else None)"
| "u64_of_double _ = None"

fun nat_of_double :: "double \<Rightarrow> nat option" where
  "nat_of_double (Fin a) =
     (if 0 \<le> trunc a \<and> trunc a < 2 ^ 64 then Some (nat (trunc a)) else None)"
| "nat_of_double _ = None"

subsection \<open>std::hypot\<close>

function isqrt :: "int \<Rightarrow> int" where
  "isqrt n = (if n \<le> 0 then 0
     else let r = 2 * isqrt (n div 4) in if (r + 1) * (r + 1) \<le> n then r + 1 else r)"
  by pat_completeness auto
termination
  by (relation "measure nat") auto

declare isqrt.simps [simp del]

definition sqrt_round :: "rat \<Rightarrow> rat" where
  "sqrt_round s = (if s = 0 then 0 else
     let e = max (ilog2 s div 2 - 52) (- 1074); y = s / 2 powi (2 * e);
         n = isqrt \<lfloor>y\<rfloor>; h = (of_int n + 1 / 2) * (of_int n + 1 / 2)
     in of_int (if y < h then n else if h < y then n + 1 else if even n then n else n + 1) * 2 powi e)"

fun std_hypot :: "double \<Rightarrow> double \<Rightarrow> double" where
  "std_hypot (Fin a) (Fin b) = mk_double (sqrt_round (a * a + b * b))"
| "std_hypot PInf _ = PInf"
| "std_hypot NInf _ = PInf"
| "std_hypot _ PInf = PInf"
| "std_hypot _ NInf = PInf"
| "std_hypot _ _ = NaN"

subsection \<open>Lemmas\<close>

lemma double_less_trans: "(a :: double) < b \<Longrightarrow> b < c \<Longrightarrow> a < c"
  by (cases a; cases b; cases c) auto

lemma double_less_irrefl [simp]: "\<not> (a :: double) < a"
  by (cases a) auto

lemma double_less_asym: "(a :: double) < b \<Longrightarrow> \<not> b < a"
  by (cases a; cases b) auto

lemma double_less_le: "(a :: double) < b \<longleftrightarrow> a \<le> b \<and> \<not> b \<le> a"
  by (cases a; cases b) auto

lemma double_le_refl: "a \<noteq> NaN \<Longrightarrow> (a :: double) \<le> a"
  by (cases a) auto

lemma double_le_trans: "(a :: double) \<le> b \<Longrightarrow> b \<le> c \<Longrightarrow> a \<le> c"
  by (cases a; cases b; cases c) auto

lemma double_not_less: "a \<noteq> NaN \<Longrightarrow> b \<noteq> NaN \<Longrightarrow> \<not> a < b \<longleftrightarrow> (b :: double) \<le> a"
  by (cases a; cases b) auto

lemma deq_iff: "deq a b \<longleftrightarrow> a = b \<and> a \<noteq> NaN"
  by (cases a; cases b) (auto simp: deq_def)

lemma isfinite_iff: "isfinite d \<longleftrightarrow> (\<exists>a. d = Fin a)"
  by (cases d) auto

lemma mk_double_finite: "mk_double x = Fin y \<Longrightarrow> y = rnd x"
  by (auto simp: mk_double_def Let_def split: if_splits)

lemma mk_double_not_NaN [simp]: "mk_double x \<noteq> NaN"
  by (simp add: mk_double_def Let_def)

lemma double_zero_simps [simp]:
  "0 \<le> Fin x \<longleftrightarrow> 0 \<le> x" "0 < Fin x \<longleftrightarrow> 0 < x" "Fin x \<le> 0 \<longleftrightarrow> x \<le> 0" "Fin x < 0 \<longleftrightarrow> x < 0"
  "0 \<le> PInf" "0 < PInf" "\<not> 0 \<le> NInf" "\<not> 0 < NInf" "\<not> 0 \<le> NaN" "\<not> 0 < NaN" "0 \<noteq> NaN" "1 \<noteq> NaN"
  by (simp_all add: zero_double_def one_double_def)

lemma mk_double_nonneg: "0 \<le> x \<Longrightarrow> 0 \<le> mk_double x"
  using rne.r_nonneg [of x] by (auto simp: mk_double_def Let_def less_le)

lemma ilog2_less: "0 < x \<Longrightarrow> x < 2 powi k \<Longrightarrow> ilog2 x < k"
  by (metis ilog2_bounds leD le_less_trans not_less power_int_increasing one_le_numeral)

lemma mk_double_below: "\<bar>rnd x\<bar> \<le> 2 ^ 64 \<Longrightarrow> mk_double x = Fin (rnd x)"
proof -
  assume "\<bar>rnd x\<bar> \<le> 2 ^ 64"
  moreover have "(2 :: rat) ^ 64 < 2 powi 65" by (simp add: power_int_def)
  ultimately have "rnd x \<noteq> 0 \<Longrightarrow> ilog2 \<bar>rnd x\<bar> < 65" by (intro ilog2_less) auto
  then show ?thesis by (auto simp: mk_double_def Let_def)
qed

lemma mk_double_mono: "x \<le> y \<Longrightarrow> mk_double x \<le> mk_double y"
proof -
  assume "x \<le> y"
  then have le: "rnd x \<le> rnd y" by (rule rne.r_mono)
  have "0 < rnd x \<Longrightarrow> ilog2 \<bar>rnd x\<bar> \<le> ilog2 \<bar>rnd y\<bar>" using le by (intro ilog2_mono) auto
  moreover have "rnd y < 0 \<Longrightarrow> ilog2 \<bar>rnd y\<bar> \<le> ilog2 \<bar>rnd x\<bar>" using le by (intro ilog2_mono) auto
  ultimately show ?thesis using le by (auto simp: mk_double_def Let_def)
qed

lemma mk_double_small_int: "\<bar>n\<bar> \<le> 2 ^ 53 \<Longrightarrow> mk_double (of_int n) = Fin (of_int n)"
proof -
  assume n: "\<bar>n\<bar> \<le> 2 ^ 53"
  then have "of_int \<bar>n\<bar> \<le> (of_int (2 ^ 53) :: rat)" by (simp only: of_int_le_iff)
  then have "\<bar>rnd (of_int n)\<bar> \<le> 2 ^ 64" using n by (simp add: rnd_int)
  then show ?thesis using n by (simp add: mk_double_below rnd_int)
qed

lemma mk_double_0 [simp]: "mk_double 0 = 0"
  using mk_double_small_int [of 0] by (simp add: zero_double_def)

lemma mk_double_1 [simp]: "mk_double 1 = 1"
  using mk_double_small_int [of 1] by (simp add: one_double_def)

lemma double_of_nat_small: "n \<le> 2 ^ 53 \<Longrightarrow> double_of_nat n = Fin (of_nat n)"
  using mk_double_small_int [of "int n"] by (simp add: double_of_nat_def double_of_int_def)

lemma double_add_nonneg: "0 \<le> a \<Longrightarrow> 0 \<le> b \<Longrightarrow> 0 \<le> a + (b :: double)"
  by (cases a; cases b) (auto intro: mk_double_nonneg)

lemma double_div_nonneg: "0 \<le> a \<Longrightarrow> 0 < b \<Longrightarrow> b \<noteq> PInf \<Longrightarrow> 0 \<le> a / (b :: double)"
  by (cases a; cases b) (auto intro!: mk_double_nonneg divide_nonneg_pos)

lemma double_of_int_finite:
  assumes "0 \<le> n" "n < 2 ^ 64"
  shows "\<exists>q. double_of_int n = Fin q \<and> 0 \<le> q"
proof -
  have "(of_int n :: rat) \<le> of_int (2 ^ 64)" using assms by (simp only: of_int_le_iff)
  then have "rnd (of_int n) \<le> rnd (of_int (2 ^ 64))" by (rule rne.r_mono)
  moreover have "rnd (of_int (2 ^ 64)) = 2 ^ 64"
  proof -
    have "representable (of_int (2 ^ 64))" unfolding representable_def
      by (rule exI [of _ 1], rule exI [of _ 64]) (simp add: power_int_def)
    then show ?thesis by (simp add: rnd_exact)
  qed
  moreover have "0 \<le> rnd (of_int n)" using assms by simp
  ultimately show ?thesis by (simp add: double_of_int_def mk_double_below)
qed

lemma double_of_int_pos: "0 < n \<Longrightarrow> 0 < double_of_int n"
proof -
  assume "0 < n"
  then have "rnd 1 \<le> rnd (of_int n)" by (intro rne.r_mono) simp
  then have "1 \<le> rnd (of_int n)" by (simp add: rne.r_one)
  then show ?thesis by (auto simp: double_of_int_def mk_double_def Let_def)
qed

lemma double_of_u64_finite: "\<exists>q. double_of_u64 w = Fin q \<and> 0 \<le> q"
  using double_of_int_finite [of "uint w"] unsigned_less [of w, where 'a = int]
  by (simp add: double_of_u64_def)

lemma double_of_u64_nonneg [simp]: "0 \<le> double_of_u64 w"
  using double_of_u64_finite [of w] by auto

lemma double_of_u64_pos: "w \<noteq> 0 \<Longrightarrow> 0 < double_of_u64 w"
  unfolding double_of_u64_def by (intro double_of_int_pos) (simp add: word_neq_0_conv word_less_def)

lemma double_of_u64_not_PInf [simp]: "double_of_u64 w \<noteq> PInf" "double_of_u64 w \<noteq> NaN"
  using double_of_u64_finite [of w] by auto

subsection \<open>Evaluation of exact values\<close>

text \<open>
  On numbers with few significant bits nothing is rounded. These rules let the simplifier
  evaluate arithmetic on such values (numerals over a power of two) without computing \<open>rnd\<close>.
\<close>

primrec pow2_num :: "num \<Rightarrow> bool" where
  "pow2_num num.One = True"
| "pow2_num (num.Bit0 n) = pow2_num n"
| "pow2_num (num.Bit1 n) = False"

lemma pow2_num_power: "pow2_num n \<Longrightarrow> \<exists>k. (numeral n :: nat) = 2 ^ k"
proof (induction n)
  case One
  then show ?case by (intro exI [of _ 0]) simp
next
  case (Bit0 n)
  then obtain k where "(numeral n :: nat) = 2 ^ k" by auto
  then have "(numeral (num.Bit0 n) :: nat) = 2 ^ Suc k" by (simp add: numeral_Bit0)
  then show ?case by blast
qed simp

lemma mk_double_representable:
  assumes "representable x" "\<bar>x\<bar> \<le> 2 ^ 64"
  shows "mk_double x = Fin x"
  using assms mk_double_below [of x] by (simp add: rnd_exact)

lemma representable_frac:
  assumes "\<bar>m\<bar> \<le> 2 ^ 53" "pow2_num b" "(numeral b :: nat) \<le> 2 ^ 64"
  shows "representable (of_int m / numeral b)"
proof -
  obtain k where k: "(numeral b :: nat) = 2 ^ k" using pow2_num_power assms(2) by blast
  with assms(3) have "(2 :: nat) ^ k \<le> 2 ^ 64" by simp
  then have "k \<le> 64" by (rule power_le_imp_le_exp [rotated]) simp
  have "(numeral b :: rat) = of_nat (numeral b)" by simp
  also have "\<dots> = 2 powi int k" unfolding k by simp
  finally have e: "(numeral b :: rat) = 2 powi int k" .
  have "of_int m / numeral b = of_int m * (2 :: rat) powi (- int k)"
    by (simp only: e power_int_minus divide_inverse)
  then show ?thesis unfolding representable_def using assms(1) \<open>k \<le> 64\<close>
    by (intro exI [of _ m] exI [of _ "- int k"]) simp
qed

lemma mk_double_frac:
  assumes "\<bar>m\<bar> \<le> 2 ^ 53" "pow2_num b" "(numeral b :: nat) \<le> 2 ^ 64"
  shows "mk_double (of_int m / numeral b) = Fin (of_int m / numeral b)"
proof (rule mk_double_representable [OF representable_frac [OF assms]])
  have "(1 :: rat) \<le> numeral b" by simp
  then have "\<bar>of_int m\<bar> / numeral b \<le> \<bar>of_int m :: rat\<bar>"
    using mult_left_mono [of 1 "numeral b" "\<bar>of_int m :: rat\<bar>"] by (simp add: pos_divide_le_eq)
  then have le: "\<bar>of_int m / numeral b :: rat\<bar> \<le> of_int \<bar>m\<bar>" by simp
  have "\<bar>m\<bar> \<le> 2 ^ 64" using assms(1) by simp
  then have "of_int \<bar>m\<bar> \<le> (of_int (2 ^ 64) :: rat)" by (simp only: of_int_le_iff)
  also have "\<dots> = 2 ^ 64" by (simp only: of_int_power of_int_numeral)
  finally show "\<bar>of_int m / numeral b :: rat\<bar> \<le> 2 ^ 64" using le by (rule order_trans [rotated])
qed

lemma mk_double_uminus: "mk_double (- x) = - mk_double x"
  by (auto simp: mk_double_def Let_def rnd_uminus)

lemma mk_double_numeral [double_simps]:
  "(numeral a :: int) \<le> 9007199254740992 \<Longrightarrow> mk_double (numeral a) = Fin (numeral a)"
  using mk_double_small_int [of "numeral a"] by simp

lemma mk_double_neg_numeral [double_simps]:
  "(numeral a :: int) \<le> 9007199254740992 \<Longrightarrow> mk_double (- numeral a) = Fin (- numeral a)"
  by (simp add: mk_double_uminus mk_double_numeral)

lemma mk_double_numeral_frac [double_simps]:
  assumes "(numeral a :: int) \<le> 9007199254740992" "pow2_num b"
    "(numeral b :: nat) \<le> 18446744073709551616"
  shows "mk_double (numeral a / numeral b) = Fin (numeral a / numeral b)"
    and "mk_double (- (numeral a / numeral b)) = Fin (- (numeral a / numeral b))"
  using mk_double_frac [of "numeral a" b] assms by (simp_all add: mk_double_uminus)

lemma mk_double_unit_frac [double_simps]:
  assumes "pow2_num b" "(numeral b :: nat) \<le> 18446744073709551616"
  shows "mk_double (1 / numeral b) = Fin (1 / numeral b)"
    and "mk_double (- (1 / numeral b)) = Fin (- (1 / numeral b))"
  using mk_double_frac [of 1 b] assms by (simp_all add: mk_double_uminus)

lemma mk_double_exact [double_simps]:
  "mk_double 0 = Fin 0" "mk_double 1 = Fin 1" "mk_double (- 1) = Fin (- 1)" "(0 :: double) = Fin 0"
  "(1 :: double) = Fin 1"
  by (simp_all only: mk_double_0 mk_double_1 mk_double_uminus zero_double_def one_double_def
      uminus_double.simps)

lemmas double_eval [double_simps] = double_of_u64_def double_of_nat_def double_of_int_def
  minus_double_def

end
