(* ===== verification/Text.thy ===== *)
theory Text
  imports Prelude Double
begin

text \<open>
  The parts of the C++ standard library that turn numbers into text, as the server uses them to
  build identifiers: \<open>std::to_string\<close> of unsigned integers and \<open>operator<<\<close> of a \<open>double\<close> on a
  stream with the default format (\<open>%g\<close>) or \<open>std::fixed\<close> (\<open>%f\<close>) and a precision. The decimal
  rounding is that of a correctly rounding C library: exact value, ties to even.
\<close>

definition digit_char :: "nat \<Rightarrow> char" where
  "digit_char d = char_of (48 + d)"

fun nat_digits :: "nat \<Rightarrow> string" where
  "nat_digits n = (if n < 10 then [digit_char n] else nat_digits (n div 10) @ [digit_char (n mod 10)])"

declare nat_digits.simps [simp del]

definition string_of_u64 :: "u64 \<Rightarrow> string" where
  "string_of_u64 w = nat_digits (unat w)"

definition pad_zeros :: "nat \<Rightarrow> string \<Rightarrow> string" where
  "pad_zeros k s = replicate (k - length s) CHR ''0'' @ s"

definition strip_zeros :: "string \<Rightarrow> string" where
  "strip_zeros s = rev (dropWhile (\<lambda>c. c = CHR ''0'') (rev s))"

definition with_fraction :: "string \<Rightarrow> string \<Rightarrow> string" where
  "with_fraction i f = (if f = [] then i else i @ ''.'' @ f)"

fun fmt_fixed :: "nat \<Rightarrow> double \<Rightarrow> string" where
  "fmt_fixed p (Fin q) =
     (let n = nat (round_even (\<bar>q\<bar> * 10 ^ p))
      in (if q < 0 then ''-'' else []) @ with_fraction (nat_digits (n div 10 ^ p))
           (if p = 0 then [] else pad_zeros p (nat_digits (n mod 10 ^ p))))"
| "fmt_fixed p PInf = ''inf''"
| "fmt_fixed p NInf = ''-inf''"
| "fmt_fixed p NaN = ''nan''"

text \<open>
  The decimal exponent of a positive number below one; the smallest positive double is above
  \<open>10 ^ -324\<close>, so 330 steps are enough.
\<close>

fun small_exponent :: "nat \<Rightarrow> rat \<Rightarrow> nat" where
  "small_exponent 0 q = 0"
| "small_exponent (Suc k) q = (if 1 \<le> q then 0 else Suc (small_exponent k (q * 10)))"

definition decimal_exponent :: "rat \<Rightarrow> int" where
  "decimal_exponent q = (if 1 \<le> q then int (length (nat_digits (nat \<lfloor>q\<rfloor>))) - 1
     else - int (small_exponent 330 q))"

definition fmt_exponent :: "int \<Rightarrow> string" where
  "fmt_exponent x = (if x < 0 then ''e-'' else ''e+'') @ pad_zeros 2 (nat_digits (nat \<bar>x\<bar>))"

text \<open>\<open>digits\<close> are the \<open>p\<close> significant digits of the rounded value, \<open>x\<close> its exponent.\<close>

definition fmt_significant :: "nat \<Rightarrow> string \<Rightarrow> int \<Rightarrow> string" where
  "fmt_significant p digits x =
     (if - 4 \<le> x \<and> x < int p
      then if 0 \<le> x
        then with_fraction (take (nat x + 1) digits) (strip_zeros (drop (nat x + 1) digits))
        else with_fraction ''0'' (strip_zeros (replicate (nat (- x) - 1) CHR ''0'' @ digits))
      else with_fraction (take 1 digits) (strip_zeros (drop 1 digits)) @ fmt_exponent x)"

fun fmt_general :: "nat \<Rightarrow> double \<Rightarrow> string" where
  "fmt_general p (Fin q) = (if q = 0 then ''0'' else
     let e = decimal_exponent \<bar>q\<bar>;
         n = nat (round_even (\<bar>q\<bar> * 10 powi (int p - 1 - e)));
         (n', x) = (if n = 10 ^ p then (n div 10, e + 1) else (n, e))
     in (if q < 0 then ''-'' else []) @ fmt_significant p (nat_digits n') x)"
| "fmt_general p PInf = ''inf''"
| "fmt_general p NInf = ''-inf''"
| "fmt_general p NaN = ''nan''"

subsection \<open>Digits\<close>

definition digit_value :: "char \<Rightarrow> nat" where
  "digit_value c = of_char c - 48"

definition is_digit :: "char \<Rightarrow> bool" where
  "is_digit c \<longleftrightarrow> 48 \<le> (of_char c :: nat) \<and> (of_char c :: nat) \<le> 57"

definition digits_value :: "string \<Rightarrow> nat" where
  "digits_value s = foldl (\<lambda>n c. 10 * n + digit_value c) 0 s"

lemma digit_char_value [simp]: "d < 10 \<Longrightarrow> digit_value (digit_char d) = d"
  by (simp add: digit_value_def digit_char_def of_char_of)

lemma is_digit_char [simp]: "d < 10 \<Longrightarrow> is_digit (digit_char d)"
  by (simp add: is_digit_def digit_char_def of_char_of)

lemma nat_digits_nonempty [simp]: "nat_digits n \<noteq> []"
  by (subst nat_digits.simps) simp

lemma nat_digits_is_digit: "c \<in> set (nat_digits n) \<Longrightarrow> is_digit c"
  by (induction n rule: nat_digits.induct) (subst (asm) (2) nat_digits.simps, auto split: if_splits)

lemma digits_value_snoc: "digits_value (s @ [c]) = 10 * digits_value s + digit_value c"
  by (simp add: digits_value_def)

lemma digits_value_nat_digits: "digits_value (nat_digits n) = n"
proof (induction n rule: nat_digits.induct)
  case (1 n)
  show ?case
  proof (cases "n < 10")
    case True
    then show ?thesis by (simp add: nat_digits.simps [of n] digits_value_def)
  next
    case False
    then show ?thesis using 1 by (simp add: nat_digits.simps [of n] digits_value_snoc)
  qed
qed

lemma nat_digits_inj: "nat_digits m = nat_digits n \<longleftrightarrow> m = n"
  by (metis digits_value_nat_digits)

lemma string_of_u64_inj: "string_of_u64 a = string_of_u64 b \<longleftrightarrow> a = b"
  by (simp add: string_of_u64_def nat_digits_inj word_unat_eq_iff)

end
