(* ===== verification/UnionFind.thy ===== *)
theory UnionFind
  imports Prelude
begin

text \<open>
  The disjoint-set forest that \<open>LineRouteAnalyzer::analyze\<close> and \<open>filterShortSharedComponents\<close>
  (server/src/LineRouteAnalyzer.cpp) each build over indices: a parent vector, the recursive
  lambda \<open>root\<close> with path compression, and the double loop that joins related pairs. \<open>None\<close> would
  be an index out of range or a recursion that does not return; \<open>components_correct\<close> shows that
  neither happens and that two indices end in the same tree exactly when they are connected.
\<close>

partial_function (option) uf_root :: "nat list \<Rightarrow> nat \<Rightarrow> (nat \<times> nat list) option" where
  "uf_root parent v =
     (if length parent \<le> v then None
      else if parent ! v = v then Some (v, parent)
      else Option.bind (uf_root parent (parent ! v)) (\<lambda>(r, parent'). Some (r, parent'[v := r])))"

declare uf_root.simps [code]

definition uf_join :: "nat list \<Rightarrow> nat \<Rightarrow> nat \<Rightarrow> nat list option" where
  "uf_join parent i j = (case uf_root parent i of
     None \<Rightarrow> None
   | Some (ri, p1) \<Rightarrow> (case uf_root p1 j of
       None \<Rightarrow> None
     | Some (rj, p2) \<Rightarrow> Some (if ri \<noteq> rj then p2[rj := ri] else p2)))"

text \<open>The pairs \<open>i < j\<close> in the order of the two nested loops.\<close>

definition index_pairs :: "nat \<Rightarrow> (nat \<times> nat) list" where
  "index_pairs n = concat (map (\<lambda>i. map (Pair i) [Suc i..<n]) [0..<n])"

fun uf_join_pairs :: "(nat \<Rightarrow> nat \<Rightarrow> bool) \<Rightarrow> nat list \<Rightarrow> (nat \<times> nat) list \<Rightarrow> nat list option" where
  "uf_join_pairs near parent [] = Some parent"
| "uf_join_pairs near parent ((i, j) # ps) =
     (if \<not> near i j then uf_join_pairs near parent ps
      else case uf_join parent i j of None \<Rightarrow> None | Some p \<Rightarrow> uf_join_pairs near p ps)"

definition uf_build :: "nat \<Rightarrow> (nat \<Rightarrow> nat \<Rightarrow> bool) \<Rightarrow> nat list option" where
  "uf_build n near = uf_join_pairs near [0..<n] (index_pairs n)"

text \<open>The roots of \<open>0..<n\<close>, one call after the other on the shared vector.\<close>

fun uf_roots :: "nat list \<Rightarrow> nat list \<Rightarrow> (nat list \<times> nat list) option" where
  "uf_roots parent [] = Some ([], parent)"
| "uf_roots parent (v # vs) = (case uf_root parent v of
     None \<Rightarrow> None
   | Some (r, p) \<Rightarrow> (case uf_roots p vs of None \<Rightarrow> None | Some (rs, q) \<Rightarrow> Some (r # rs, q)))"

definition uf_component_roots ::
    "nat \<Rightarrow> (nat \<Rightarrow> nat \<Rightarrow> bool) \<Rightarrow> (nat list \<times> nat list) option" where
  "uf_component_roots n near = (case uf_build n near of
     None \<Rightarrow> None | Some p \<Rightarrow> uf_roots p [0..<n])"

subsection \<open>The forest\<close>

text \<open>The rank decreases along every edge towards the parent, so every path ends in a root.\<close>

definition uf_ranked :: "nat list \<Rightarrow> (nat \<Rightarrow> nat) \<Rightarrow> bool" where
  "uf_ranked p rk \<longleftrightarrow> (\<forall>v < length p. p ! v < length p \<and> (p ! v \<noteq> v \<longrightarrow> rk (p ! v) < rk v))"

definition uf_ok :: "nat list \<Rightarrow> bool" where
  "uf_ok p \<longleftrightarrow> (\<exists>rk. uf_ranked p rk)"

inductive uf_rep :: "nat list \<Rightarrow> nat \<Rightarrow> nat \<Rightarrow> bool" for p where
  uf_rep_root: "v < length p \<Longrightarrow> p ! v = v \<Longrightarrow> uf_rep p v v"
| uf_rep_step: "v < length p \<Longrightarrow> p ! v \<noteq> v \<Longrightarrow> uf_rep p (p ! v) r \<Longrightarrow> uf_rep p v r"

inductive_cases uf_rep_cases: "uf_rep p v r"

inductive_simps uf_rep_at: "uf_rep p v r"

lemma uf_rep_range: "uf_rep p v r \<Longrightarrow> v < length p \<and> r < length p \<and> p ! r = r"
  by (induction rule: uf_rep.induct) auto

lemma uf_rep_at_root: "uf_rep p v s \<Longrightarrow> p ! v = v \<Longrightarrow> s = v"
  by (erule uf_rep_cases) simp_all

lemma uf_rep_next: "uf_rep p v s \<Longrightarrow> p ! v \<noteq> v \<Longrightarrow> uf_rep p (p ! v) s"
  by (erule uf_rep_cases) simp_all

lemma uf_rep_unique: "uf_rep p v r \<Longrightarrow> uf_rep p v s \<Longrightarrow> r = s"
proof (induction arbitrary: s rule: uf_rep.induct)
  case (uf_rep_root v)
  from uf_rep_at_root [OF uf_rep_root(3,2)] show ?case by simp
next
  case (uf_rep_step v r)
  show ?case by (rule uf_rep_step(4) [OF uf_rep_next [OF uf_rep_step(5,2)]])
qed

lemma uf_rep_exists:
  assumes "uf_ok p" "v < length p"
  shows "\<exists>r. uf_rep p v r"
proof -
  obtain rk where rk: "uf_ranked p rk" using assms(1) by (auto simp: uf_ok_def)
  from assms(2) show ?thesis
  proof (induction "rk v" arbitrary: v rule: less_induct)
    case less
    show ?case
    proof (cases "p ! v = v")
      case False
      then obtain r where "uf_rep p (p ! v) r"
        using less rk unfolding uf_ranked_def by blast
      then show ?thesis using less.prems False by (blast intro: uf_rep_step)
    qed (use less.prems in \<open>blast intro: uf_rep_root\<close>)
  qed
qed

text \<open>Pointing a node at its root changes no representative.\<close>

lemma uf_rep_compress:
  assumes r: "uf_rep p v r" and x: "uf_rep p x s"
  shows "uf_rep (p[v := r]) x s"
  using x
proof (induction rule: uf_rep.induct)
  case (uf_rep_root x)
  show ?case
  proof (cases "x = v")
    case True
    then have "r = v" using uf_rep_unique [OF r] uf_rep.uf_rep_root [OF uf_rep_root] by blast
    then show ?thesis using uf_rep_root True by (auto intro: uf_rep.uf_rep_root)
  qed (use uf_rep_root in \<open>auto intro: uf_rep.uf_rep_root\<close>)
next
  case (uf_rep_step x s)
  have vr: "v < length p" "r < length p" "p ! r = r" using uf_rep_range [OF r] by auto
  show ?case
  proof (cases "x = v")
    case True
    then have "s = r" using uf_rep_unique [OF r] uf_rep.uf_rep_step [OF uf_rep_step(1-3)] by blast
    have "r \<noteq> v" using uf_rep_step(2) vr(3) True by metis
    then have "uf_rep (p[v := r]) r r" using vr by (intro uf_rep.uf_rep_root) auto
    then have "uf_rep (p[v := r]) v r"
      using uf_rep.uf_rep_step [of v "p[v := r]" r] \<open>r \<noteq> v\<close> vr by simp
    then show ?thesis using True \<open>s = r\<close> by simp
  next
    case False
    then show ?thesis using uf_rep.uf_rep_step [of x "p[v := r]" s] uf_rep_step by simp
  qed
qed

lemma uf_rep_rank: "uf_ranked p rk \<Longrightarrow> uf_rep p v r \<Longrightarrow> v \<noteq> r \<Longrightarrow> rk r < rk v"
proof (rotate_tac 1, induction rule: uf_rep.induct)
  case (uf_rep_step v r)
  then have "rk (p ! v) < rk v" by (simp add: uf_ranked_def)
  then show ?case using uf_rep_step by (cases "p ! v = r") auto
qed simp

lemma uf_ok_compress:
  assumes "uf_ok p" "uf_rep p v r"
  shows "uf_ok (p[v := r])"
proof -
  obtain rk where rk: "uf_ranked p rk" using assms(1) by (auto simp: uf_ok_def)
  have "uf_ranked (p[v := r]) rk"
    using rk uf_rep_rank [OF rk assms(2)] uf_rep_range [OF assms(2)]
    by (auto simp: uf_ranked_def nth_list_update)
  then show ?thesis by (auto simp: uf_ok_def)
qed

lemma uf_rep_same_iff:
  assumes "uf_ok p" "uf_ok q" "length p = length q" "\<And>x s. uf_rep p x s \<Longrightarrow> uf_rep q x s"
  shows "uf_rep q = uf_rep p"
proof (intro ext iffI)
  fix x s assume q: "uf_rep q x s"
  then have "x < length p" using uf_rep_range assms(3) by simp
  then obtain t where "uf_rep p x t" using uf_rep_exists [OF assms(1)] by blast
  then show "uf_rep p x s" using assms(4) uf_rep_unique [OF q] by blast
qed (rule assms(4))

text \<open>The recursion returns, and returns the representative.\<close>

lemma uf_root_correct:
  assumes "uf_rep p v r" "uf_ok p"
  shows "\<exists>q. uf_root p v = Some (r, q) \<and> uf_ok q \<and> length q = length p \<and> uf_rep q = uf_rep p"
  using assms
proof (induction rule: uf_rep.induct)
  case (uf_rep_root v)
  then show ?case by (subst uf_root.simps) auto
next
  case (uf_rep_step v r)
  then obtain q where q: "uf_root p (p ! v) = Some (r, q)" "uf_ok q" "length q = length p"
    "uf_rep q = uf_rep p" by blast
  have "uf_root p v = Some (r, q[v := r])"
    using uf_rep_step(1,2) q by (subst uf_root.simps) simp
  moreover have rep: "uf_rep q v r" using q(4) uf_rep_step(1-3) by (simp add: uf_rep.uf_rep_step)
  moreover have ok: "uf_ok (q[v := r])" using uf_ok_compress [OF q(2) rep] .
  moreover have "uf_rep (q[v := r]) = uf_rep q"
    using uf_rep_same_iff [OF q(2) ok] uf_rep_compress [OF rep] by simp
  ultimately show ?case using q by auto
qed

lemma uf_root_total:
  assumes "uf_ok p" "v < length p"
  obtains r q where "uf_root p v = Some (r, q)" "uf_rep p v r" "uf_ok q" "length q = length p"
    "uf_rep q = uf_rep p"
  using uf_rep_exists [OF assms] uf_root_correct assms(1) by metis

subsection \<open>Joining\<close>

text \<open>Linking one root below another one.\<close>

lemma uf_link:
  assumes ok: "uf_ok p" and ri: "uf_rep p ri ri" and rj: "uf_rep p rj rj" and neq: "ri \<noteq> rj"
  shows "uf_ok (p[rj := ri])"
    and "uf_rep p x s \<Longrightarrow> uf_rep (p[rj := ri]) x (if s = rj then ri else s)"
proof -
  note bi = uf_rep_range [OF ri] and bj = uf_rep_range [OF rj]
  obtain rk where rk: "uf_ranked p rk" using ok by (auto simp: uf_ok_def)
  define rk' where "rk' x = (if uf_rep p x rj then rk x + rk ri + 1 else rk x)" for x
  have step: "uf_rep p (p ! x) rj \<longleftrightarrow> uf_rep p x rj" if "x < length p" for x
    using that uf_rep_next [of p x rj] uf_rep.uf_rep_step [of x p rj] by (cases "p ! x = x") auto
  have notj: "\<not> uf_rep p ri rj" using uf_rep_unique [OF ri] neq by blast
  have "uf_ranked (p[rj := ri]) rk'"
    unfolding uf_ranked_def
  proof (intro allI impI conjI)
    fix x assume x: "x < length (p[rj := ri])"
    show "p[rj := ri] ! x < length (p[rj := ri])"
      using x rk bi unfolding uf_ranked_def by (cases "x = rj") simp_all
    assume ne: "p[rj := ri] ! x \<noteq> x"
    show "rk' (p[rj := ri] ! x) < rk' x"
    proof (cases "x = rj")
      case True
      then show ?thesis using bj rj notj by (simp add: rk'_def)
    next
      case False
      then have "rk (p ! x) < rk x" using rk x ne by (simp add: uf_ranked_def)
      then show ?thesis using False step x by (simp add: rk'_def)
    qed
  qed
  then show "uf_ok (p[rj := ri])" by (auto simp: uf_ok_def)
  have top: "uf_rep (p[rj := ri]) ri ri" using bi neq by (intro uf_rep_root) auto
  show "uf_rep p x s \<Longrightarrow> uf_rep (p[rj := ri]) x (if s = rj then ri else s)"
  proof (induction rule: uf_rep.induct)
    case (uf_rep_root v)
    then show ?case using top neq by (auto intro: uf_rep.intros)
  next
    case (uf_rep_step v r)
    then have "v \<noteq> rj" using bj by auto
    then show ?case using uf_rep.uf_rep_step [of v "p[rj := ri]"] uf_rep_step by simp
  qed
qed

definition uf_same :: "nat list \<Rightarrow> nat \<Rightarrow> nat \<Rightarrow> bool" where
  "uf_same p x y \<longleftrightarrow> (\<exists>r. uf_rep p x r \<and> uf_rep p y r)"

lemma uf_same_sym: "uf_same p x y \<Longrightarrow> uf_same p y x"
  by (auto simp: uf_same_def)

lemma uf_same_trans: "uf_same p x y \<Longrightarrow> uf_same p y z \<Longrightarrow> uf_same p x z"
  unfolding uf_same_def by (metis uf_rep_unique)

lemma uf_same_reps: "uf_rep p x a \<Longrightarrow> uf_rep p y b \<Longrightarrow> uf_same p x y \<longleftrightarrow> a = b"
  unfolding uf_same_def using uf_rep_unique by blast

lemma uf_join_correct:
  assumes "uf_ok p" "i < length p" "j < length p"
  shows "\<exists>q. uf_join p i j = Some q \<and> uf_ok q \<and> length q = length p \<and>
    (\<forall>x y. uf_same q x y \<longleftrightarrow> uf_same p x y \<or> uf_same p x i \<and> uf_same p j y \<or> uf_same p x j \<and> uf_same p i y)"
proof -
  obtain ri p1 where ri: "uf_root p i = Some (ri, p1)" "uf_rep p i ri" "uf_ok p1"
    "length p1 = length p" "uf_rep p1 = uf_rep p" using uf_root_total [OF assms(1,2)] by metis
  have "j < length p1" using assms(3) ri(4) by simp
  then obtain rj p2 where rj: "uf_root p1 j = Some (rj, p2)" "uf_rep p1 j rj" "uf_ok p2"
    "length p2 = length p1" "uf_rep p2 = uf_rep p1" using uf_root_total [OF ri(3)] by metis
  have rep: "uf_rep p2 = uf_rep p" using rj(5) ri(5) by simp
  have rj': "uf_rep p j rj" using rj(2) ri(5) by simp
  have roots: "uf_rep p ri ri" "uf_rep p rj rj"
    using uf_rep_range [OF ri(2)] uf_rep_range [OF rj(2) [unfolded ri(5)]]
    by (auto intro: uf_rep_root)
  show ?thesis
  proof (cases "ri = rj")
    case True
    then have "uf_same p i j" using ri(2) rj(2) ri(5) by (auto simp: uf_same_def)
    have "uf_same p2 x y \<longleftrightarrow> uf_same p x y \<or> uf_same p x i \<and> uf_same p j y \<or> uf_same p x j \<and> uf_same p i y"
      for x y using \<open>uf_same p i j\<close> uf_same_sym uf_same_trans unfolding uf_same_def [of p2] rep uf_same_def [of p, symmetric]
      by blast
    then show ?thesis using ri rj True by (auto simp: uf_join_def)
  next
    case False
    let ?q = "p2[rj := ri]"
    have link: "uf_ok ?q" "\<And>x s. uf_rep p x s \<Longrightarrow> uf_rep ?q x (if s = rj then ri else s)"
      using uf_link [OF rj(3), unfolded rep, OF roots False] by auto
    have "uf_same ?q x y \<longleftrightarrow> uf_same p x y \<or> uf_same p x i \<and> uf_same p j y \<or> uf_same p x j \<and> uf_same p i y"
      for x y
    proof (cases "x < length p \<and> y < length p")
      case True
      then obtain sx sy where s: "uf_rep p x sx" "uf_rep p y sy"
        using uf_rep_exists [OF assms(1)] by blast
      have "uf_same ?q x y \<longleftrightarrow> (if sx = rj then ri else sx) = (if sy = rj then ri else sy)"
        using uf_same_reps [OF link(2) [OF s(1)] link(2) [OF s(2)]] .
      moreover note uf_same_reps [OF s] uf_same_reps [OF s(1) ri(2)] uf_same_reps [OF s(1) rj']
        uf_same_reps [OF rj' s(2)] uf_same_reps [OF ri(2) s(2)]
      ultimately show ?thesis by auto
    next
      case False
      then show ?thesis unfolding uf_same_def using uf_rep_range [of p] uf_rep_range [of ?q] ri(4) rj(4)
        by (metis length_list_update)
    qed
    then show ?thesis using ri rj False link(1) by (auto simp: uf_join_def)
  qed
qed

subsection \<open>Connected components\<close>

text \<open>Two indices below \<open>n\<close> are connected when a path of \<open>near\<close> pairs leads from one to the other.\<close>

definition near_edge :: "(nat \<Rightarrow> nat \<Rightarrow> bool) \<Rightarrow> (nat \<times> nat) set \<Rightarrow> nat \<Rightarrow> nat \<Rightarrow> bool" where
  "near_edge near ps x y \<longleftrightarrow> (x, y) \<in> ps \<and> near x y \<or> (y, x) \<in> ps \<and> near y x"

definition connected :: "nat \<Rightarrow> (nat \<Rightarrow> nat \<Rightarrow> bool) \<Rightarrow> nat \<Rightarrow> nat \<Rightarrow> bool" where
  "connected n near x y \<longleftrightarrow>
     (near_edge near {(i, j). i < j \<and> j < n})\<^sup>*\<^sup>* x y \<and> x < n \<and> y < n"

lemma set_index_pairs: "set (index_pairs n) = {(i, j). i < j \<and> j < n}"
  by (force simp: index_pairs_def)

lemma uf_same_refl: "uf_ok p \<Longrightarrow> x < length p \<Longrightarrow> uf_same p x x"
  using uf_rep_exists by (auto simp: uf_same_def)

lemma uf_same_range: "uf_same p x y \<Longrightarrow> x < length p \<and> y < length p"
  using uf_rep_range by (auto simp: uf_same_def)

text \<open>
  The loop joins nothing but \<open>near\<close> pairs, and all of them: \<open>E\<close> is any equivalence that contains
  the pairs joined so far.
\<close>

lemma uf_join_pairs_sound:
  assumes "uf_ok p" "length p = n" "\<forall>(i, j) \<in> set ps. i < n \<and> j < n"
    and "\<And>x y. uf_same p x y \<Longrightarrow> E\<^sup>*\<^sup>* x y" "symp E"
    and "\<And>i j. (i, j) \<in> set ps \<Longrightarrow> near i j \<Longrightarrow> E i j"
  shows "\<exists>q. uf_join_pairs near p ps = Some q \<and> uf_ok q \<and> length q = n \<and>
    (\<forall>x y. uf_same p x y \<longrightarrow> uf_same q x y) \<and>
    (\<forall>(i, j) \<in> set ps. near i j \<longrightarrow> uf_same q i j) \<and> (\<forall>x y. uf_same q x y \<longrightarrow> E\<^sup>*\<^sup>* x y)"
  using assms
proof (induction ps arbitrary: p)
  case (Cons ij ps)
  obtain i j where ij: "ij = (i, j)" by fastforce
  show ?case
  proof (cases "near i j")
    case False
    have "\<exists>q. uf_join_pairs near p ps = Some q \<and> uf_ok q \<and> length q = n \<and>
        (\<forall>x y. uf_same p x y \<longrightarrow> uf_same q x y) \<and>
        (\<forall>(i, j) \<in> set ps. near i j \<longrightarrow> uf_same q i j) \<and> (\<forall>x y. uf_same q x y \<longrightarrow> E\<^sup>*\<^sup>* x y)"
      using Cons.prems by (intro Cons.IH) auto
    then show ?thesis using False by (auto simp: ij)
  next
    case True
    have len: "i < length p" "j < length p" using Cons.prems(2,3) by (auto simp: ij)
    obtain p1 where p1: "uf_join p i j = Some p1" "uf_ok p1" "length p1 = n"
      and same: "\<And>x y. uf_same p1 x y \<longleftrightarrow> uf_same p x y \<or> uf_same p x i \<and> uf_same p j y \<or>
        uf_same p x j \<and> uf_same p i y"
      using uf_join_correct [OF Cons.prems(1) len] Cons.prems(2) by metis
    have E: "E i j" using Cons.prems(6) [of i j] True by (simp add: ij)
    then have E': "E j i" using Cons.prems(5) by (auto dest: sympD)
    have "E\<^sup>*\<^sup>* x y" if "uf_same p1 x y" for x y
      using that Cons.prems(4) E E' unfolding same by (meson rtranclp.rtrancl_into_rtrancl rtranclp_trans)
    then have "\<exists>q. uf_join_pairs near p1 ps = Some q \<and> uf_ok q \<and> length q = n \<and>
        (\<forall>x y. uf_same p1 x y \<longrightarrow> uf_same q x y) \<and>
        (\<forall>(i, j) \<in> set ps. near i j \<longrightarrow> uf_same q i j) \<and> (\<forall>x y. uf_same q x y \<longrightarrow> E\<^sup>*\<^sup>* x y)"
      using Cons.prems p1 by (intro Cons.IH) auto
    then obtain q where q: "uf_join_pairs near p1 ps = Some q" "uf_ok q" "length q = n"
      "\<forall>x y. uf_same p1 x y \<longrightarrow> uf_same q x y" "\<forall>(i, j) \<in> set ps. near i j \<longrightarrow> uf_same q i j"
      "\<forall>x y. uf_same q x y \<longrightarrow> E\<^sup>*\<^sup>* x y" by blast
    have "uf_same p1 i j"
      unfolding same using uf_same_refl [OF Cons.prems(1)] len by blast
    then have "uf_same q i j" using q(4) by blast
    then show ?thesis using q p1(1) True same by (auto simp: ij)
  qed
qed auto

lemma uf_start: "uf_ok [0..<n]" "uf_same [0..<n] x y \<Longrightarrow> x = y"
proof -
  have rep: "uf_rep [0..<n] v r \<Longrightarrow> r = v" for v r
    by (induction rule: uf_rep.induct) auto
  have "uf_ranked [0..<n] (\<lambda>_. 0)" by (simp add: uf_ranked_def)
  then show "uf_ok [0..<n]" by (auto simp: uf_ok_def)
  show "uf_same [0..<n] x y \<Longrightarrow> x = y" using rep by (auto simp: uf_same_def)
qed

lemma uf_build_correct:
  "\<exists>p. uf_build n near = Some p \<and> uf_ok p \<and> length p = n \<and>
     (\<forall>x y. uf_same p x y \<longleftrightarrow> connected n near x y)"
proof -
  let ?E = "near_edge near {(i, j). i < j \<and> j < n}"
  have sym: "symp ?E" by (auto intro: sympI simp: near_edge_def)
  have "\<exists>q. uf_join_pairs near [0..<n] (index_pairs n) = Some q \<and> uf_ok q \<and> length q = n \<and>
    (\<forall>x y. uf_same [0..<n] x y \<longrightarrow> uf_same q x y) \<and>
    (\<forall>(i, j) \<in> set (index_pairs n). near i j \<longrightarrow> uf_same q i j) \<and> (\<forall>x y. uf_same q x y \<longrightarrow> ?E\<^sup>*\<^sup>* x y)"
  proof (rule uf_join_pairs_sound [OF uf_start(1) _ _ _ sym])
    show "uf_same [0..<n] x y \<Longrightarrow> ?E\<^sup>*\<^sup>* x y" for x y using uf_start(2) by blast
  qed (auto simp: set_index_pairs near_edge_def)
  then obtain p where p: "uf_build n near = Some p" "uf_ok p" "length p = n"
    and edge: "\<forall>(i, j) \<in> set (index_pairs n). near i j \<longrightarrow> uf_same p i j"
    and sound: "\<And>x y. uf_same p x y \<Longrightarrow> ?E\<^sup>*\<^sup>* x y" unfolding uf_build_def by blast
  have "uf_same p x y" if "?E\<^sup>*\<^sup>* x y" "x < n" for x y
    using that
  proof (induction rule: rtranclp_induct)
    case base
    then show ?case using uf_same_refl p(2,3) by simp
  next
    case (step y z)
    then have "uf_same p y z"
      using edge uf_same_sym by (fastforce simp: near_edge_def set_index_pairs)
    then show ?case using step uf_same_trans by blast
  qed
  then have "uf_same p x y \<longleftrightarrow> connected n near x y" for x y
    using sound uf_same_range [of p x y] p(3) by (auto simp: connected_def)
  with p show ?thesis by blast
qed

lemma uf_roots_correct:
  assumes "uf_ok p" "\<forall>v \<in> set vs. v < length p"
  shows "\<exists>rs q. uf_roots p vs = Some (rs, q) \<and> list_all2 (uf_rep p) vs rs \<and> uf_ok q \<and>
    length q = length p \<and> uf_rep q = uf_rep p"
  using assms
proof (induction vs arbitrary: p)
  case (Cons v vs)
  obtain r q where r: "uf_root p v = Some (r, q)" "uf_rep p v r" "uf_ok q" "length q = length p"
    "uf_rep q = uf_rep p" using uf_root_total [of p v] Cons.prems by auto
  then obtain rs q' where "uf_roots q vs = Some (rs, q')" "list_all2 (uf_rep q) vs rs" "uf_ok q'"
    "length q' = length q" "uf_rep q' = uf_rep q"
    using Cons.IH [of q] Cons.prems by auto
  then show ?case using r by auto
qed simp

text \<open>
  The computed roots exist, characterise the connected components, and are the same again in a
  second pass over the vector.
\<close>

lemma uf_component_roots_correct:
  "\<exists>rs q. uf_component_roots n near = Some (rs, q) \<and> length rs = n \<and> (\<forall>x < n. rs ! x < n) \<and>
     (\<forall>x < n. \<forall>y < n. rs ! x = rs ! y \<longleftrightarrow> connected n near x y) \<and>
     (\<exists>q'. uf_roots q [0..<n] = Some (rs, q'))"
proof -
  obtain p where p: "uf_build n near = Some p" "uf_ok p" "length p = n"
    "\<And>x y. uf_same p x y \<longleftrightarrow> connected n near x y" using uf_build_correct by blast
  obtain rs q where rs: "uf_roots p [0..<n] = Some (rs, q)" "list_all2 (uf_rep p) [0..<n] rs"
    "uf_ok q" "length q = n" "uf_rep q = uf_rep p"
    using uf_roots_correct [OF p(2), of "[0..<n]"] p(3) by auto
  then have len: "length rs = n" by (simp add: list_all2_lengthD [symmetric])
  have rep: "uf_rep p x (rs ! x)" if "x < n" for x
    using list_all2_nthD [OF rs(2), of x] that by simp
  have "rs ! x = rs ! y \<longleftrightarrow> connected n near x y" if "x < n" "y < n" for x y
    using rep [OF that(1)] rep [OF that(2)] unfolding p(4) [symmetric] by (simp add: uf_same_reps)
  moreover have "rs ! x < n" if "x < n" for x using uf_rep_range [OF rep [OF that]] p(3) by simp
  moreover have "\<exists>q'. uf_roots q [0..<n] = Some (rs, q')"
  proof -
    obtain rs' q' where rs': "uf_roots q [0..<n] = Some (rs', q')" "list_all2 (uf_rep p) [0..<n] rs'"
      using uf_roots_correct [OF rs(3), of "[0..<n]"] rs(4,5) by auto
    have "rs' = rs"
    proof (rule nth_equalityI)
      show "length rs' = length rs" using rs'(2) len by (simp add: list_all2_lengthD [symmetric])
      fix x assume "x < length rs'"
      then have "x < n" using rs'(2) by (simp add: list_all2_lengthD [symmetric])
      then show "rs' ! x = rs ! x"
        using rep uf_rep_unique list_all2_nthD [OF rs'(2), of x] by simp
    qed
    with rs'(1) show ?thesis by blast
  qed
  ultimately show ?thesis using p(1) rs(1) len by (simp add: uf_component_roots_def)
qed

end
