(* ===== verification/Reservation.thy ===== *)
theory Reservation
  imports Prelude
begin

text \<open>
  \<open>IntersectionReservationManager\<close> (server/include/IntersectionReservationManager.h and
  server/src/IntersectionReservationManager.cpp): the atomic booking of the movements through
  line intersections. First the data and one definition per method, then the well-formedness
  invariant \<open>rm_inv\<close> with mutual exclusion of conflicting movements, what each operation does
  to the set of bookings (\<open>rm_holds\<close>), and the interface \<open>reservation_service\<close> under which
  the dispatch manager uses this component.

  A method that returns \<open>false\<close> and writes \<open>*reason\<close> is a sum: \<open>Inl reason\<close>, or \<open>Inr\<close> of what
  it produces. All methods hold \<open>mutex_\<close>, so each is one atomic step.
\<close>

subsection \<open>Data\<close>

record line_intersection_movement =
  mv_movement_id :: string
  mv_intersection_id :: string
  mv_line_id :: string
  mv_incoming_route_segment_id :: string
  mv_outgoing_route_segment_id :: string
  mv_conflict_movement_ids :: "string list"
  mv_clearance_time_ms :: u64

record intersection_reservation =
  rs_intersection_id :: string
  rs_movement_id :: string
  rs_train_id :: string
  rs_reserved_at_simulation_ms :: u64

record intersection_runtime =
  ir_active_by_movement :: "(string, intersection_reservation) umap"
  ir_last_clear_by_movement :: "(string, u64) umap"

record reservation_manager =
  rm_default_clearance_ms :: u64
  rm_movements :: "(string, line_intersection_movement) umap"
  rm_intersections :: "(string, intersection_runtime) umap"

definition empty_runtime :: intersection_runtime where
  "empty_runtime = \<lparr>ir_active_by_movement = [], ir_last_clear_by_movement = []\<rparr>"

definition new_reservation_manager :: "u64 \<Rightarrow> reservation_manager" where
  "new_reservation_manager c =
     \<lparr>rm_default_clearance_ms = c, rm_movements = [], rm_intersections = []\<rparr>"

subsection \<open>Operations\<close>

definition registerMovement ::
    "reservation_manager \<Rightarrow> line_intersection_movement \<Rightarrow> bool \<times> reservation_manager" where
  "registerMovement m mv =
     (if mv_movement_id mv = [] \<or> mv_intersection_id mv = [] \<or> mv_line_id mv = [] \<or>
         mv_incoming_route_segment_id mv = [] \<or> mv_outgoing_route_segment_id mv = []
      then (False, m)
      else (True, m\<lparr>rm_movements := um_put (mv_movement_id mv) mv (rm_movements m),
             rm_intersections :=
               um_try_emplace (mv_intersection_id mv) empty_runtime (rm_intersections m)\<rparr>))"

definition clearanceFor :: "reservation_manager \<Rightarrow> line_intersection_movement \<Rightarrow> u64" where
  "clearanceFor m mv =
     (if mv_clearance_time_ms mv = 0 then rm_default_clearance_ms m else mv_clearance_time_ms mv)"

definition movementsConflict ::
    "line_intersection_movement \<Rightarrow> line_intersection_movement \<Rightarrow> bool" where
  "movementsConflict l r \<longleftrightarrow>
     mv_movement_id l = mv_movement_id r \<or>
     mv_movement_id r \<in> set (mv_conflict_movement_ids l) \<or>
     mv_movement_id l \<in> set (mv_conflict_movement_ids r)"

text \<open>The three loops of \<open>canReserveLocked\<close>, in the order of the code.\<close>

fun collect_requested ::
    "(string, line_intersection_movement) umap \<Rightarrow> string list \<Rightarrow> string list \<Rightarrow>
     string + line_intersection_movement list" where
  "collect_requested ms unique_ids [] = Inr []"
| "collect_requested ms unique_ids (i # ids) =
     (if i \<in> set unique_ids then collect_requested ms unique_ids ids
      else case um_find ms i of
        None \<Rightarrow> Inl (''unknown_line_intersection_movement:'' @ i)
      | Some mv \<Rightarrow> (case collect_requested ms (i # unique_ids) ids of
            Inl reason \<Rightarrow> Inl reason
          | Inr requested \<Rightarrow> Inr (mv # requested)))"

fun requested_conflict :: "line_intersection_movement list \<Rightarrow> bool" where
  "requested_conflict [] = False"
| "requested_conflict (r # rs) =
     (list_ex (\<lambda>s. mv_intersection_id r = mv_intersection_id s \<and> movementsConflict r s) rs \<or>
      requested_conflict rs)"

definition active_conflict ::
    "reservation_manager \<Rightarrow> line_intersection_movement \<Rightarrow> intersection_runtime \<Rightarrow> bool" where
  "active_conflict m mv rt =
     list_ex (\<lambda>(k, _). case um_find (rm_movements m) k of
         None \<Rightarrow> False | Some a \<Rightarrow> movementsConflict mv a) (ir_active_by_movement rt)"

definition clearance_conflict ::
    "reservation_manager \<Rightarrow> u64 \<Rightarrow> line_intersection_movement \<Rightarrow> intersection_runtime \<Rightarrow> bool" where
  "clearance_conflict m now mv rt =
     list_ex (\<lambda>(k, t). case um_find (rm_movements m) k of
         None \<Rightarrow> False
       | Some c \<Rightarrow> movementsConflict mv c \<and>
           (now < t \<or> now - t < max (clearanceFor m mv) (clearanceFor m c)))
       (ir_last_clear_by_movement rt)"

fun check_requested ::
    "reservation_manager \<Rightarrow> u64 \<Rightarrow> line_intersection_movement list \<Rightarrow> string + unit" where
  "check_requested m now [] = Inr ()"
| "check_requested m now (mv # mvs) =
     (case um_find (rm_intersections m) (mv_intersection_id mv) of
        None \<Rightarrow> check_requested m now mvs
      | Some rt \<Rightarrow>
          if active_conflict m mv rt
          then Inl (''line_intersection_occupied:'' @ mv_intersection_id mv)
          else if clearance_conflict m now mv rt
          then Inl (''line_intersection_clearance_not_met:'' @ mv_intersection_id mv)
          else check_requested m now mvs)"

definition canReserveLocked ::
    "reservation_manager \<Rightarrow> string list \<Rightarrow> u64 \<Rightarrow> string + unit" where
  "canReserveLocked m movement_ids now =
     (case collect_requested (rm_movements m) [] movement_ids of
        Inl reason \<Rightarrow> Inl reason
      | Inr requested \<Rightarrow>
          if requested_conflict requested then Inl ''requested_intersection_movements_conflict''
          else check_requested m now requested)"

definition canReserve :: "reservation_manager \<Rightarrow> string list \<Rightarrow> u64 \<Rightarrow> string + unit" where
  "canReserve m movement_ids now = canReserveLocked m movement_ids now"

text \<open>The writing loop; \<open>None\<close> would be the exception of \<open>movements_.at\<close>.\<close>

fun write_reservations ::
    "reservation_manager \<Rightarrow> string \<Rightarrow> u64 \<Rightarrow> string list \<Rightarrow> string list \<Rightarrow>
     reservation_manager option" where
  "write_reservations m train now unique_ids [] = Some m"
| "write_reservations m train now unique_ids (i # ids) =
     (if i \<in> set unique_ids then write_reservations m train now unique_ids ids
      else case um_find (rm_movements m) i of
        None \<Rightarrow> None
      | Some mv \<Rightarrow>
          (let res = \<lparr>rs_intersection_id = mv_intersection_id mv, rs_movement_id = i,
                      rs_train_id = train, rs_reserved_at_simulation_ms = now\<rparr>;
               rt = um_at empty_runtime (mv_intersection_id mv) (rm_intersections m);
               rt' = rt\<lparr>ir_active_by_movement := um_put i res (ir_active_by_movement rt)\<rparr>
           in write_reservations
                (m\<lparr>rm_intersections := um_put (mv_intersection_id mv) rt' (rm_intersections m)\<rparr>)
                train now (i # unique_ids) ids))"

definition tryReserveAtomically ::
    "reservation_manager \<Rightarrow> string \<Rightarrow> string list \<Rightarrow> u64 \<Rightarrow> string + reservation_manager" where
  "tryReserveAtomically m train_id movement_ids now =
     (if train_id = [] then Inl ''empty_train_id''
      else case canReserveLocked m movement_ids now of
        Inl reason \<Rightarrow> Inl reason
      | Inr _ \<Rightarrow> (case write_reservations m train_id now [] movement_ids of
            None \<Rightarrow> Inl ''std::out_of_range''
          | Some m' \<Rightarrow> Inr m'))"

definition clear_active ::
    "string \<Rightarrow> u64 \<Rightarrow> intersection_runtime \<Rightarrow> bool \<times> intersection_runtime" where
  "clear_active train now rt =
     (list_ex (\<lambda>(_, r). rs_train_id r = train) (ir_active_by_movement rt),
      rt\<lparr>ir_active_by_movement :=
           um_erase_if (\<lambda>(_, r). rs_train_id r = train) (ir_active_by_movement rt),
         ir_last_clear_by_movement :=
           fold (\<lambda>(k, r) lc. if rs_train_id r = train then um_put k now lc else lc)
             (ir_active_by_movement rt) (ir_last_clear_by_movement rt)\<rparr>)"

definition markCleared ::
    "reservation_manager \<Rightarrow> string \<Rightarrow> string \<Rightarrow> u64 \<Rightarrow> bool \<times> reservation_manager" where
  "markCleared m intersection_id train_id now =
     (case um_find (rm_intersections m) intersection_id of
        None \<Rightarrow> (False, m)
      | Some rt \<Rightarrow>
          (let (cleared, rt') = clear_active train_id now rt
           in (cleared, m\<lparr>rm_intersections := um_put intersection_id rt' (rm_intersections m)\<rparr>)))"

definition cancelTrain :: "reservation_manager \<Rightarrow> string \<Rightarrow> reservation_manager" where
  "cancelTrain m train_id =
     m\<lparr>rm_intersections := map (\<lambda>(i, rt). (i, rt\<lparr>ir_active_by_movement :=
          um_erase_if (\<lambda>(_, r). rs_train_id r = train_id) (ir_active_by_movement rt)\<rparr>))
        (rm_intersections m)\<rparr>"

definition activeReservations :: "reservation_manager \<Rightarrow> intersection_reservation list" where
  "activeReservations m =
     concat (map (\<lambda>(_, rt). map snd (ir_active_by_movement rt)) (rm_intersections m))"

subsection \<open>The bookings of a manager, and when they are well formed\<close>

definition rm_active ::
    "reservation_manager \<Rightarrow> string \<Rightarrow> string \<Rightarrow> intersection_reservation option" where
  "rm_active m i k = (case um_find (rm_intersections m) i of
     None \<Rightarrow> None | Some rt \<Rightarrow> um_find (ir_active_by_movement rt) k)"

definition rm_cleared_at :: "reservation_manager \<Rightarrow> string \<Rightarrow> string \<Rightarrow> u64 option" where
  "rm_cleared_at m i k = (case um_find (rm_intersections m) i of
     None \<Rightarrow> None | Some rt \<Rightarrow> um_find (ir_last_clear_by_movement rt) k)"

definition rm_holds :: "reservation_manager \<Rightarrow> string \<Rightarrow> string \<Rightarrow> bool" where
  "rm_holds m train k \<longleftrightarrow> (\<exists>i r. rm_active m i k = Some r \<and> rs_train_id r = train)"

definition runtime_wf :: "intersection_runtime \<Rightarrow> bool" where
  "runtime_wf rt \<longleftrightarrow> um_wf (ir_active_by_movement rt) \<and> um_wf (ir_last_clear_by_movement rt)"

definition rm_wf :: "reservation_manager \<Rightarrow> bool" where
  "rm_wf m \<longleftrightarrow> um_wf (rm_movements m) \<and> um_wf (rm_intersections m) \<and>
     (\<forall>i rt. um_find (rm_intersections m) i = Some rt \<longrightarrow> runtime_wf rt) \<and>
     (\<forall>k mv. um_find (rm_movements m) k = Some mv \<longrightarrow> mv_movement_id mv = k)"

definition rm_booked :: "reservation_manager \<Rightarrow> bool" where
  "rm_booked m \<longleftrightarrow> (\<forall>i k r. rm_active m i k = Some r \<longrightarrow>
     rs_movement_id r = k \<and> rs_intersection_id r = i \<and> rs_train_id r \<noteq> [] \<and>
     (\<exists>mv. um_find (rm_movements m) k = Some mv \<and> mv_intersection_id mv = i))"

definition rm_exclusive :: "reservation_manager \<Rightarrow> bool" where
  "rm_exclusive m \<longleftrightarrow> (\<forall>i k1 k2 r1 r2 a b.
     rm_active m i k1 = Some r1 \<longrightarrow> rm_active m i k2 = Some r2 \<longrightarrow> k1 \<noteq> k2 \<longrightarrow>
     um_find (rm_movements m) k1 = Some a \<longrightarrow> um_find (rm_movements m) k2 = Some b \<longrightarrow>
     \<not> movementsConflict a b)"

definition rm_inv :: "reservation_manager \<Rightarrow> bool" where
  "rm_inv m \<longleftrightarrow> rm_wf m \<and> rm_booked m \<and> rm_exclusive m"

lemmas rm_inv_defs = rm_inv_def rm_wf_def rm_booked_def rm_exclusive_def

lemma runtime_wf_empty [simp]: "runtime_wf empty_runtime"
  by (simp add: runtime_wf_def empty_runtime_def)

lemma empty_runtime_sel [simp]:
  "ir_active_by_movement empty_runtime = []" "ir_last_clear_by_movement empty_runtime = []"
  by (simp_all add: empty_runtime_def)

lemma movementsConflict_sym: "movementsConflict a b = movementsConflict b a"
  by (auto simp: movementsConflict_def)

lemma rm_inv_new: "rm_inv (new_reservation_manager c)"
  by (simp add: rm_inv_defs new_reservation_manager_def rm_active_def)

subsection \<open>canReserve computes its specification\<close>

definition movement_free :: "reservation_manager \<Rightarrow> u64 \<Rightarrow> line_intersection_movement \<Rightarrow> bool" where
  "movement_free m now mv \<longleftrightarrow>
     (\<forall>k r a. rm_active m (mv_intersection_id mv) k = Some r \<longrightarrow>
        um_find (rm_movements m) k = Some a \<longrightarrow> \<not> movementsConflict mv a) \<and>
     (\<forall>k t c. rm_cleared_at m (mv_intersection_id mv) k = Some t \<longrightarrow>
        um_find (rm_movements m) k = Some c \<longrightarrow> movementsConflict mv c \<longrightarrow>
        t \<le> now \<and> max (clearanceFor m mv) (clearanceFor m c) \<le> now - t)"

definition reservable :: "reservation_manager \<Rightarrow> u64 \<Rightarrow> string list \<Rightarrow> bool" where
  "reservable m now ids \<longleftrightarrow>
     (\<forall>i \<in> set ids. \<exists>mv. um_find (rm_movements m) i = Some mv \<and> movement_free m now mv) \<and>
     (\<forall>i \<in> set ids. \<forall>j \<in> set ids. \<forall>a b. i \<noteq> j \<longrightarrow>
        um_find (rm_movements m) i = Some a \<longrightarrow> um_find (rm_movements m) j = Some b \<longrightarrow>
        mv_intersection_id a = mv_intersection_id b \<longrightarrow> \<not> movementsConflict a b)"

lemma collect_requested_Inr:
  "collect_requested ms seen ids = Inr req \<Longrightarrow>
   (\<forall>i \<in> set ids - set seen. um_find ms i \<noteq> None) \<and>
   set req = {mv. \<exists>i \<in> set ids - set seen. um_find ms i = Some mv}"
proof (induction ids arbitrary: seen req)
  case (Cons i ids)
  show ?case
  proof (cases "i \<in> set seen")
    case True
    with Cons show ?thesis by auto
  next
    case False
    with Cons.prems obtain mv req' where mv: "um_find ms i = Some mv"
      and req': "collect_requested ms (i # seen) ids = Inr req'" "req = mv # req'"
      by (auto split: option.splits sum.splits)
    then show ?thesis using Cons.IH [OF req'(1)] False by auto
  qed
qed auto

lemma collect_requested_total:
  "\<forall>i \<in> set ids - set seen. um_find ms i \<noteq> None \<Longrightarrow> \<exists>req. collect_requested ms seen ids = Inr req"
proof (induction ids arbitrary: seen)
  case (Cons i ids)
  show ?case
  proof (cases "i \<in> set seen")
    case False
    with Cons.prems obtain mv where mv: "um_find ms i = Some mv" by auto
    have "\<exists>req. collect_requested ms (i # seen) ids = Inr req" using Cons.prems by (intro Cons.IH) auto
    then show ?thesis using False mv by auto
  qed (use Cons in auto)
qed auto

lemma collect_requested_distinct:
  "collect_requested ms seen ids = Inr req \<Longrightarrow>
   (\<And>k mv. um_find ms k = Some mv \<Longrightarrow> mv_movement_id mv = k) \<Longrightarrow> distinct req"
proof (induction ids arbitrary: seen req)
  case (Cons i ids)
  show ?case
  proof (cases "i \<in> set seen")
    case True
    with Cons show ?thesis by auto
  next
    case False
    with Cons.prems(1) obtain mv req' where mv: "um_find ms i = Some mv"
      and req': "collect_requested ms (i # seen) ids = Inr req'" "req = mv # req'"
      by (auto split: option.splits sum.splits)
    have "mv \<notin> set req'"
    proof
      assume "mv \<in> set req'"
      then obtain j where "j \<noteq> i" "um_find ms j = Some mv"
        using collect_requested_Inr [OF req'(1)] by auto
      then show False using Cons.prems(2) mv by metis
    qed
    then show ?thesis using Cons.IH [OF req'(1)] Cons.prems(2) req'(2) by simp
  qed
qed auto

lemma requested_conflict_iff:
  "distinct rs \<Longrightarrow> requested_conflict rs \<longleftrightarrow>
     (\<exists>a \<in> set rs. \<exists>b \<in> set rs. a \<noteq> b \<and> mv_intersection_id a = mv_intersection_id b \<and>
        movementsConflict a b)"
proof (induction rs)
  case (Cons r rs)
  have "requested_conflict (r # rs) \<longleftrightarrow>
    (\<exists>s \<in> set rs. mv_intersection_id r = mv_intersection_id s \<and> movementsConflict r s) \<or>
    requested_conflict rs"
    by (simp add: list_ex_iff)
  then show ?case
    using Cons by (auto simp: movementsConflict_sym)
qed auto

lemma check_requested_iff:
  assumes "rm_wf m"
  shows "check_requested m now mvs = Inr () \<longleftrightarrow> (\<forall>mv \<in> set mvs. movement_free m now mv)"
proof (induction mvs)
  case (Cons mv mvs)
  have "movement_free m now mv \<longleftrightarrow>
    (case um_find (rm_intersections m) (mv_intersection_id mv) of None \<Rightarrow> True
     | Some rt \<Rightarrow> \<not> active_conflict m mv rt \<and> \<not> clearance_conflict m now mv rt)"
  proof (cases "um_find (rm_intersections m) (mv_intersection_id mv)")
    case None
    then show ?thesis by (simp add: movement_free_def rm_active_def rm_cleared_at_def)
  next
    case (Some rt)
    then have wf: "um_wf (ir_active_by_movement rt)" "um_wf (ir_last_clear_by_movement rt)"
      using assms by (auto simp: rm_wf_def runtime_wf_def)
    have "(\<not> active_conflict m mv rt) \<longleftrightarrow> (\<forall>k r a. um_find (ir_active_by_movement rt) k = Some r \<longrightarrow>
        um_find (rm_movements m) k = Some a \<longrightarrow> \<not> movementsConflict mv a)"
      by (fastforce simp: active_conflict_def um_list_ex [OF wf(1)] split: option.splits)
    moreover have "(\<not> clearance_conflict m now mv rt) \<longleftrightarrow>
      (\<forall>k t c. um_find (ir_last_clear_by_movement rt) k = Some t \<longrightarrow>
        um_find (rm_movements m) k = Some c \<longrightarrow> movementsConflict mv c \<longrightarrow>
        t \<le> now \<and> max (clearanceFor m mv) (clearanceFor m c) \<le> now - t)"
      by (auto simp: clearance_conflict_def um_list_ex [OF wf(2)] not_less
          simp del: max_less_iff_conj max.bounded_iff split: option.splits)
    ultimately show ?thesis using Some by (simp add: movement_free_def rm_active_def rm_cleared_at_def)
  qed
  then show ?case using Cons.IH by (auto split: option.splits)
qed simp

lemma canReserve_iff_reservable:
  assumes wf: "rm_wf m"
  shows "canReserve m ids now = Inr () \<longleftrightarrow> reservable m now ids"
proof (cases "collect_requested (rm_movements m) [] ids")
  case (Inl e)
  then have "\<not> (\<forall>i \<in> set ids - set []. um_find (rm_movements m) i \<noteq> None)"
    using collect_requested_total [of ids "[]" "rm_movements m"] by (metis sum.distinct(1))
  then obtain i where "i \<in> set ids" "um_find (rm_movements m) i = None" by auto
  then have "\<not> reservable m now ids" by (force simp: reservable_def)
  then show ?thesis using Inl by (simp add: canReserve_def canReserveLocked_def)
next
  case (Inr req)
  have key: "um_find (rm_movements m) k = Some mv \<Longrightarrow> mv_movement_id mv = k" for k mv
    using wf by (simp add: rm_wf_def)
  from collect_requested_Inr [OF Inr]
  have found: "\<forall>i \<in> set ids. um_find (rm_movements m) i \<noteq> None"
    and req: "set req = {mv. \<exists>i \<in> set ids. um_find (rm_movements m) i = Some mv}" by auto
  have "requested_conflict req \<longleftrightarrow> (\<exists>a \<in> set req. \<exists>b \<in> set req. a \<noteq> b \<and>
      mv_intersection_id a = mv_intersection_id b \<and> movementsConflict a b)"
    using collect_requested_distinct [OF Inr key] by (rule requested_conflict_iff)
  then have "(\<not> requested_conflict req) \<longleftrightarrow> (\<forall>i \<in> set ids. \<forall>j \<in> set ids. \<forall>a b. i \<noteq> j \<longrightarrow>
        um_find (rm_movements m) i = Some a \<longrightarrow> um_find (rm_movements m) j = Some b \<longrightarrow>
        mv_intersection_id a = mv_intersection_id b \<longrightarrow> \<not> movementsConflict a b)"
    unfolding req using key by auto (metis option.inject)+
  moreover have "check_requested m now req = Inr () \<longleftrightarrow>
      (\<forall>i \<in> set ids. \<exists>mv. um_find (rm_movements m) i = Some mv \<and> movement_free m now mv)"
    unfolding check_requested_iff [OF wf] req using found by auto
  ultimately show ?thesis
    using Inr by (auto simp: canReserve_def canReserveLocked_def reservable_def)
qed

subsection \<open>What the operations do to the bookings\<close>

lemma rm_active_put:
  "rm_active (m\<lparr>rm_intersections := um_put i rt (rm_intersections m)\<rparr>) i' k =
     (if i' = i then um_find (ir_active_by_movement rt) k else rm_active m i' k)"
  by (simp add: rm_active_def umap_simps)

lemma rm_cleared_put:
  "rm_cleared_at (m\<lparr>rm_intersections := um_put i rt (rm_intersections m)\<rparr>) i' k =
     (if i' = i then um_find (ir_last_clear_by_movement rt) k else rm_cleared_at m i' k)"
  by (simp add: rm_cleared_at_def umap_simps)

lemma rm_active_at:
  "um_find (ir_active_by_movement (um_at empty_runtime i (rm_intersections m))) k = rm_active m i k"
  by (simp add: rm_active_def um_at_def split: option.split)

lemma rm_cleared_at_at:
  "um_find (ir_last_clear_by_movement (um_at empty_runtime i (rm_intersections m))) k =
   rm_cleared_at m i k"
  by (simp add: rm_cleared_at_def um_at_def split: option.split)

lemma rm_wf_put:
  "rm_wf m \<Longrightarrow> runtime_wf rt \<Longrightarrow> rm_wf (m\<lparr>rm_intersections := um_put i rt (rm_intersections m)\<rparr>)"
  by (auto simp: rm_wf_def umap_simps split: if_splits)

lemma rm_wf_runtime: "rm_wf m \<Longrightarrow> um_find (rm_intersections m) i = Some rt \<Longrightarrow> runtime_wf rt"
  by (simp add: rm_wf_def)

lemma rm_wf_at: "rm_wf m \<Longrightarrow> runtime_wf (um_at empty_runtime i (rm_intersections m))"
  by (auto simp: um_at_def rm_wf_def split: option.splits)

lemma write_reservations_effect:
  assumes "write_reservations m train now seen ids = Some m'"
  shows "rm_movements m' = rm_movements m \<and> rm_default_clearance_ms m' = rm_default_clearance_ms m \<and>
    (\<forall>i k. rm_cleared_at m' i k = rm_cleared_at m i k) \<and>
    (\<forall>i k. rm_active m' i k =
      (if k \<in> set ids - set seen \<and>
          map_option mv_intersection_id (um_find (rm_movements m) k) = Some i
       then Some \<lparr>rs_intersection_id = i, rs_movement_id = k, rs_train_id = train,
                  rs_reserved_at_simulation_ms = now\<rparr>
       else rm_active m i k)) \<and>
    (rm_wf m \<longrightarrow> rm_wf m')"
  using assms
proof (induction ids arbitrary: m seen)
  case (Cons j ids)
  show ?case
  proof (cases "j \<in> set seen")
    case True
    then have "set (j # ids) - set seen = set ids - set seen" by auto
    with Cons True show ?thesis by auto
  next
    case False
    then obtain mv where mv: "um_find (rm_movements m) j = Some mv"
      using Cons.prems by (auto split: option.splits)
    let ?rt = "um_at empty_runtime (mv_intersection_id mv) (rm_intersections m)"
    let ?res = "\<lparr>rs_intersection_id = mv_intersection_id mv, rs_movement_id = j,
      rs_train_id = train, rs_reserved_at_simulation_ms = now\<rparr>"
    let ?rt' = "?rt\<lparr>ir_active_by_movement := um_put j ?res (ir_active_by_movement ?rt)\<rparr>"
    let ?m1 = "m\<lparr>rm_intersections := um_put (mv_intersection_id mv) ?rt' (rm_intersections m)\<rparr>"
    have step: "write_reservations ?m1 train now (j # seen) ids = Some m'"
      using Cons.prems False mv by (simp add: Let_def)
    have act: "rm_active ?m1 i k = (if i = mv_intersection_id mv \<and> k = j then Some ?res
        else rm_active m i k)" for i k
      by (simp add: rm_active_put umap_simps rm_active_at)
    have clr: "rm_cleared_at ?m1 i k = rm_cleared_at m i k" for i k
      by (simp add: rm_cleared_put rm_cleared_at_at)
    have wf: "rm_wf m \<Longrightarrow> rm_wf ?m1"
      using rm_wf_at [of m "mv_intersection_id mv"] by (intro rm_wf_put) (auto simp: runtime_wf_def)
    show ?thesis using Cons.IH [OF step] mv False wf by (auto simp: act clr)
  qed
qed auto

lemma write_reservations_total:
  "\<forall>i \<in> set ids. um_find (rm_movements m) i \<noteq> None \<Longrightarrow>
   \<exists>m'. write_reservations m train now seen ids = Some m'"
  by (induction ids arbitrary: m seen) (auto simp: Let_def)

text \<open>\<open>movements_.at\<close> never throws: the check that precedes the loop has found every movement.\<close>

lemma tryReserve_Inr_iff:
  assumes "rm_wf m"
  shows "(\<exists>m'. tryReserveAtomically m train ids now = Inr m') \<longleftrightarrow>
     train \<noteq> [] \<and> canReserve m ids now = Inr ()"
proof (cases "canReserve m ids now = Inr ()")
  case True
  then have "\<forall>i \<in> set ids. um_find (rm_movements m) i \<noteq> None"
    unfolding canReserve_iff_reservable [OF assms] reservable_def by auto
  then obtain m' where "write_reservations m train now [] ids = Some m'"
    using write_reservations_total by blast
  with True show ?thesis by (auto simp: tryReserveAtomically_def canReserve_def)
qed (auto simp: tryReserveAtomically_def canReserve_def split: sum.splits)

lemma tryReserve_effect:
  assumes "rm_wf m" "tryReserveAtomically m train ids now = Inr m'"
  shows "train \<noteq> [] \<and> reservable m now ids \<and> rm_wf m' \<and> rm_movements m' = rm_movements m \<and>
    rm_default_clearance_ms m' = rm_default_clearance_ms m \<and>
    (\<forall>i k. rm_cleared_at m' i k = rm_cleared_at m i k) \<and>
    (\<forall>i k. rm_active m' i k =
      (if k \<in> set ids \<and> map_option mv_intersection_id (um_find (rm_movements m) k) = Some i
       then Some \<lparr>rs_intersection_id = i, rs_movement_id = k, rs_train_id = train,
                  rs_reserved_at_simulation_ms = now\<rparr>
       else rm_active m i k))"
proof -
  have "write_reservations m train now [] ids = Some m'" "train \<noteq> []"
    "canReserve m ids now = Inr ()"
    using assms(2)
    by (auto simp: tryReserveAtomically_def canReserve_def split: if_splits sum.splits option.splits)
  then show ?thesis
    using write_reservations_effect [of m train now "[]" ids m'] assms(1)
      canReserve_iff_reservable [OF assms(1)] by auto
qed

lemma cancelTrain_active:
  assumes "rm_wf m"
  shows "rm_active (cancelTrain m train) i k =
    (case rm_active m i k of None \<Rightarrow> None | Some r \<Rightarrow> if rs_train_id r = train then None else Some r)"
proof -
  have "um_find (rm_intersections (cancelTrain m train)) i =
    map_option (\<lambda>rt. rt\<lparr>ir_active_by_movement :=
      um_erase_if (\<lambda>(_, r). rs_train_id r = train) (ir_active_by_movement rt)\<rparr>)
      (um_find (rm_intersections m) i)"
    by (simp add: cancelTrain_def um_find_map_snd)
  then show ?thesis
    using assms by (auto simp: rm_active_def rm_wf_def runtime_wf_def um_find_erase_if split: option.splits)
qed

lemma cancelTrain_frame:
  "rm_movements (cancelTrain m train) = rm_movements m \<and>
   rm_default_clearance_ms (cancelTrain m train) = rm_default_clearance_ms m \<and>
   rm_cleared_at (cancelTrain m train) i k = rm_cleared_at m i k"
  by (auto simp: cancelTrain_def rm_cleared_at_def um_find_map_snd split: option.splits)

lemma cancelTrain_wf: "rm_wf m \<Longrightarrow> rm_wf (cancelTrain m train)"
  by (auto simp: cancelTrain_def rm_wf_def runtime_wf_def um_find_map_snd)

lemma clear_fold:
  "um_find (fold (\<lambda>(k, r) lc. if rs_train_id r = train then um_put k now lc else lc) act lc) k =
   (if \<exists>r. (k, r) \<in> set act \<and> rs_train_id r = train then Some now else um_find lc k)"
  by (induction act arbitrary: lc) (auto simp: umap_simps)

lemma clear_fold_wf:
  "um_wf lc \<Longrightarrow>
   um_wf (fold (\<lambda>(k, r) lc. if rs_train_id r = train then um_put k now lc else lc) act lc)"
  by (induction act arbitrary: lc) auto

lemma markCleared_effect:
  assumes "rm_wf m" "markCleared m j train now = (ok, m')"
  shows "rm_wf m' \<and> rm_movements m' = rm_movements m \<and>
    rm_default_clearance_ms m' = rm_default_clearance_ms m \<and>
    ok = (\<exists>k r. rm_active m j k = Some r \<and> rs_train_id r = train) \<and>
    (\<forall>i k. rm_active m' i k = (case rm_active m i k of None \<Rightarrow> None
       | Some r \<Rightarrow> if i = j \<and> rs_train_id r = train then None else Some r)) \<and>
    (\<forall>i k. rm_cleared_at m' i k =
       (if i = j \<and> (\<exists>r. rm_active m i k = Some r \<and> rs_train_id r = train)
        then Some now else rm_cleared_at m i k))"
proof (cases "um_find (rm_intersections m) j")
  case None
  with assms show ?thesis by (auto simp: markCleared_def rm_active_def split: option.splits)
next
  case (Some rt)
  have wf: "um_wf (ir_active_by_movement rt)" "um_wf (ir_last_clear_by_movement rt)"
    using rm_wf_runtime [OF assms(1) Some] by (auto simp: runtime_wf_def)
  have act: "rm_active m j k = um_find (ir_active_by_movement rt) k" for k
    by (simp add: rm_active_def Some)
  have clr: "rm_cleared_at m j k = um_find (ir_last_clear_by_movement rt) k" for k
    by (simp add: rm_cleared_at_def Some)
  let ?rt = "snd (clear_active train now rt)"
  have m': "m' = m\<lparr>rm_intersections := um_put j ?rt (rm_intersections m)\<rparr>"
    and ok: "ok = fst (clear_active train now rt)"
    using assms(2) Some by (auto simp: markCleared_def split: prod.splits)
  have a': "um_find (ir_active_by_movement ?rt) k = (case rm_active m j k of None \<Rightarrow> None
      | Some r \<Rightarrow> if rs_train_id r = train then None else Some r)" for k
    using wf by (simp add: clear_active_def um_find_erase_if act split: option.splits)
  have c': "um_find (ir_last_clear_by_movement ?rt) k =
      (if \<exists>r. rm_active m j k = Some r \<and> rs_train_id r = train then Some now
       else rm_cleared_at m j k)" for k
    using wf by (auto simp: clear_active_def clear_fold um_mem_iff act clr)
  have "runtime_wf ?rt"
    using wf by (simp add: runtime_wf_def clear_active_def clear_fold_wf)
  moreover have "ok = (\<exists>k r. rm_active m j k = Some r \<and> rs_train_id r = train)"
    using wf by (simp add: ok clear_active_def um_list_ex act)
  moreover have "rm_active m' i k = (case rm_active m i k of None \<Rightarrow> None
       | Some r \<Rightarrow> if i = j \<and> rs_train_id r = train then None else Some r)" for i k
    unfolding m' rm_active_put by (simp add: a' split: option.split)
  moreover have "rm_cleared_at m' i k = (if i = j \<and>
      (\<exists>r. rm_active m i k = Some r \<and> rs_train_id r = train) then Some now else rm_cleared_at m i k)" for i k
    unfolding m' rm_cleared_put c' by auto
  moreover have "rm_wf m'" unfolding m' using calculation(1) by (rule rm_wf_put [OF assms(1)])
  ultimately show ?thesis by (simp add: m')
qed

lemma try_emplace_runtime:
  "rm_active (m\<lparr>rm_movements := ms, rm_intersections := um_try_emplace i empty_runtime (rm_intersections m)\<rparr>) i' k =
     rm_active m i' k"
  "rm_cleared_at (m\<lparr>rm_movements := ms, rm_intersections := um_try_emplace i empty_runtime (rm_intersections m)\<rparr>) i' k =
     rm_cleared_at m i' k"
  by (simp_all add: rm_active_def rm_cleared_at_def umap_simps split: option.split)

lemma registerMovement_wf: "rm_wf m \<Longrightarrow> rm_wf (snd (registerMovement m mv))"
  by (simp add: registerMovement_def rm_wf_def umap_simps)

lemma registerMovement_effect:
  assumes "rm_wf m" "registerMovement m mv = (ok, m')"
  shows "rm_wf m' \<and> rm_default_clearance_ms m' = rm_default_clearance_ms m \<and>
    rm_active m' i k = rm_active m i k \<and> rm_cleared_at m' i k = rm_cleared_at m i k \<and>
    um_find (rm_movements m') k =
      (if ok \<and> k = mv_movement_id mv then Some mv else um_find (rm_movements m) k)"
  using assms(2) registerMovement_wf [OF assms(1), of mv]
  by (auto simp: registerMovement_def try_emplace_runtime umap_simps split: if_splits)

subsection \<open>Every operation keeps the invariant\<close>

lemma rm_bookedD:
  "rm_booked m \<Longrightarrow> rm_active m i k = Some r \<Longrightarrow>
   rs_movement_id r = k \<and> rs_intersection_id r = i \<and> rs_train_id r \<noteq> [] \<and>
   (\<exists>mv. um_find (rm_movements m) k = Some mv \<and> mv_intersection_id mv = i)"
  unfolding rm_booked_def by blast

lemma rm_booked_movement:
  "rm_booked m \<Longrightarrow> rm_active m i k = Some r \<Longrightarrow> um_find (rm_movements m) k = Some mv \<Longrightarrow>
   mv_intersection_id mv = i"
  using rm_bookedD by fastforce

lemma rm_exclusiveD:
  "rm_exclusive m \<Longrightarrow> rm_active m i k1 = Some r1 \<Longrightarrow> rm_active m i k2 = Some r2 \<Longrightarrow> k1 \<noteq> k2 \<Longrightarrow>
   um_find (rm_movements m) k1 = Some a \<Longrightarrow> um_find (rm_movements m) k2 = Some b \<Longrightarrow>
   \<not> movementsConflict a b"
  unfolding rm_exclusive_def by blast

lemma rm_inv_registerMovement:
  assumes "rm_inv m" "\<And>i. rm_active m i (mv_movement_id mv) = None"
  shows "rm_inv (snd (registerMovement m mv))"
proof -
  obtain ok m' where r: "registerMovement m mv = (ok, m')" by fastforce
  note eff = registerMovement_effect [OF _ r]
  have "rm_wf m" using assms(1) by (simp add: rm_inv_def)
  note eff = eff [OF this]
  have other: "rm_active m' i k = Some res \<Longrightarrow>
      um_find (rm_movements m') k = um_find (rm_movements m) k \<and> rm_active m i k = Some res" for i k res
    using eff [of i k] assms(2) [of i] by auto
  have booked: "rm_booked m" and excl: "rm_exclusive m" using assms(1) by (simp_all add: rm_inv_def)
  have "rm_booked m'" unfolding rm_booked_def
  proof (intro allI impI)
    fix i k res assume h: "rm_active m' i k = Some res"
    show "rs_movement_id res = k \<and> rs_intersection_id res = i \<and> rs_train_id res \<noteq> [] \<and>
      (\<exists>mv. um_find (rm_movements m') k = Some mv \<and> mv_intersection_id mv = i)"
      using rm_bookedD [OF booked, of i k res] other [OF h] by simp
  qed
  moreover have "rm_exclusive m'" unfolding rm_exclusive_def
  proof (intro allI impI)
    fix i k1 k2 r1 r2 a b
    assume h: "rm_active m' i k1 = Some r1" "rm_active m' i k2 = Some r2" "k1 \<noteq> k2"
      "um_find (rm_movements m') k1 = Some a" "um_find (rm_movements m') k2 = Some b"
    show "\<not> movementsConflict a b"
      using rm_exclusiveD [OF excl] other [OF h(1)] other [OF h(2)] h by metis
  qed
  ultimately show ?thesis using eff by (simp add: r rm_inv_def)
qed

lemma rm_inv_tryReserve:
  assumes inv: "rm_inv m" and res: "tryReserveAtomically m train ids now = Inr m'"
  shows "rm_inv m'"
proof -
  have wf: "rm_wf m" and booked: "rm_booked m" and excl: "rm_exclusive m"
    using inv by (simp_all add: rm_inv_def)
  note eff = tryReserve_effect [OF wf res]
  have mov: "rm_movements m' = rm_movements m" using eff by blast
  have act: "rm_active m' i k = Some r \<Longrightarrow>
      (k \<in> set ids \<and> (\<exists>a. um_find (rm_movements m) k = Some a \<and> mv_intersection_id a = i \<and>
         r = \<lparr>rs_intersection_id = i, rs_movement_id = k, rs_train_id = train,
              rs_reserved_at_simulation_ms = now\<rparr>)) \<or> rm_active m i k = Some r" for i k r
    using eff by (auto split: if_splits)
  have "rm_booked m'"
    unfolding rm_booked_def mov
  proof (intro allI impI)
    fix i k r assume "rm_active m' i k = Some r"
    from act [OF this] show "rs_movement_id r = k \<and> rs_intersection_id r = i \<and> rs_train_id r \<noteq> [] \<and>
      (\<exists>mv. um_find (rm_movements m) k = Some mv \<and> mv_intersection_id mv = i)"
      using rm_bookedD [OF booked] eff by (elim disjE) auto
  qed
  moreover have "rm_exclusive m'"
    unfolding rm_exclusive_def mov
  proof (intro allI impI)
    fix i k1 k2 r1 r2 a b
    assume h: "rm_active m' i k1 = Some r1" "rm_active m' i k2 = Some r2" "k1 \<noteq> k2"
      and a: "um_find (rm_movements m) k1 = Some a" and b: "um_find (rm_movements m) k2 = Some b"
    have free: "k \<in> set ids \<Longrightarrow> um_find (rm_movements m) k = Some c \<Longrightarrow> movement_free m now c" for k c
      using eff by (auto simp: reservable_def)
    have old: "rm_active m i k = Some r \<Longrightarrow> um_find (rm_movements m) k = Some c \<Longrightarrow>
        mv_intersection_id c = i" for k r c
      using booked by (rule rm_booked_movement)
    have new: "\<exists>c. um_find (rm_movements m) k = Some c \<and> mv_intersection_id c = i \<and> k \<in> set ids"
      if "rm_active m' i k = Some r" "rm_active m i k \<noteq> Some r" for k r
      using act [OF that(1)] that(2) by auto
    consider "rm_active m i k1 = Some r1" "rm_active m i k2 = Some r2"
      | "rm_active m i k1 \<noteq> Some r1" "rm_active m i k2 \<noteq> Some r2"
      | "rm_active m i k1 \<noteq> Some r1" "rm_active m i k2 = Some r2"
      | "rm_active m i k1 = Some r1" "rm_active m i k2 \<noteq> Some r2" by blast
    then show "\<not> movementsConflict a b"
    proof cases
      case 1
      then show ?thesis using rm_exclusiveD [OF excl] h(3) a b by blast
    next
      case 2
      then have "k1 \<in> set ids" "k2 \<in> set ids" "mv_intersection_id a = mv_intersection_id b"
        using new [OF h(1)] new [OF h(2)] a b by auto
      then show ?thesis using eff h(3) a b unfolding reservable_def by blast
    next
      case 3
      then have "k1 \<in> set ids" "mv_intersection_id a = i" using new [OF h(1)] a by auto
      then show ?thesis using free [OF _ a] b 3 unfolding movement_free_def by blast
    next
      case 4
      then have "k2 \<in> set ids" "mv_intersection_id b = i" using new [OF h(2)] b by auto
      then show ?thesis using free [OF _ b] a 4 unfolding movement_free_def movementsConflict_sym [of a]
        by blast
    qed
  qed
  ultimately show ?thesis using eff by (simp add: rm_inv_def)
qed

text \<open>Dropping bookings keeps the invariant.\<close>

lemma rm_inv_fewer:
  assumes "rm_inv m" "rm_wf m'" "rm_movements m' = rm_movements m"
    and "\<And>i k r. rm_active m' i k = Some r \<Longrightarrow> rm_active m i k = Some r"
  shows "rm_inv m'"
proof -
  have booked: "rm_booked m" and excl: "rm_exclusive m" using assms(1) by (simp_all add: rm_inv_def)
  have "rm_booked m'" unfolding rm_booked_def assms(3) using rm_bookedD [OF booked] assms(4) by blast
  moreover have "rm_exclusive m'" unfolding rm_exclusive_def assms(3)
    using rm_exclusiveD [OF excl] assms(4) by blast
  ultimately show ?thesis using assms(2) by (simp add: rm_inv_def)
qed

lemma rm_inv_cancelTrain: "rm_inv m \<Longrightarrow> rm_inv (cancelTrain m train)"
  by (rule rm_inv_fewer [of m])
    (auto simp: cancelTrain_frame cancelTrain_wf cancelTrain_active rm_inv_def
      split: option.splits if_splits)

lemma rm_inv_markCleared: "rm_inv m \<Longrightarrow> rm_inv (snd (markCleared m j train now))"
proof -
  assume inv: "rm_inv m"
  obtain ok m' where r: "markCleared m j train now = (ok, m')" by fastforce
  have "rm_wf m" using inv by (simp add: rm_inv_def)
  note eff = markCleared_effect [OF this r]
  have act: "rm_active m' i k = (case rm_active m i k of None \<Rightarrow> None
      | Some res \<Rightarrow> if i = j \<and> rs_train_id res = train then None else Some res)" for i k
    using eff by blast
  have wf: "rm_wf m'" and mov: "rm_movements m' = rm_movements m" using eff by blast+
  show ?thesis unfolding r snd_conv
    by (rule rm_inv_fewer [OF inv wf mov]) (simp add: act split: option.splits if_splits)
qed

text \<open>
  The steps of the manager as the dispatcher uses it. A movement is (re)defined only while it
  is not booked: \<open>rebuildDispatchManagerLocked\<close> registers the movements on a fresh manager.
\<close>

inductive rm_step :: "reservation_manager \<Rightarrow> reservation_manager \<Rightarrow> bool" where
  rm_register: "(\<And>i. rm_active m i (mv_movement_id mv) = None) \<Longrightarrow>
     rm_step m (snd (registerMovement m mv))"
| rm_reserve: "tryReserveAtomically m train ids now = Inr m' \<Longrightarrow> rm_step m m'"
| rm_clear: "rm_step m (snd (markCleared m j train now))"
| rm_cancel: "rm_step m (cancelTrain m train)"

definition rm_start :: "reservation_manager \<Rightarrow> bool" where
  "rm_start m \<longleftrightarrow> (\<exists>c. m = new_reservation_manager c)"

interpretation rm: inductive_invariant rm_start rm_step rm_inv
proof
  fix m t assume "rm_inv m" "rm_step m t"
  then show "rm_inv t"
    by (cases rule: rm_step.cases [consumes 1, OF \<open>rm_step m t\<close>])
      (auto intro: rm_inv_registerMovement rm_inv_tryReserve rm_inv_markCleared rm_inv_cancelTrain)
qed (auto simp: rm_start_def rm_inv_new)

subsection \<open>The interface the dispatch manager relies on\<close>

locale reservation_service =
  fixes can_reserve :: "'r \<Rightarrow> string list \<Rightarrow> u64 \<Rightarrow> bool"
    and try_reserve :: "'r \<Rightarrow> string \<Rightarrow> string list \<Rightarrow> u64 \<Rightarrow> string + 'r"
    and cancel :: "'r \<Rightarrow> string \<Rightarrow> 'r"
    and clear :: "'r \<Rightarrow> string \<Rightarrow> string \<Rightarrow> u64 \<Rightarrow> bool \<times> 'r"
    and holds :: "'r \<Rightarrow> string \<Rightarrow> string \<Rightarrow> bool"
    and invar :: "'r \<Rightarrow> bool"
  assumes reserve_ok: "invar r \<Longrightarrow>
      (\<exists>r'. try_reserve r t ids now = Inr r') \<longleftrightarrow> t \<noteq> [] \<and> can_reserve r ids now"
    and reserve_holds: "invar r \<Longrightarrow> try_reserve r t ids now = Inr r' \<Longrightarrow>
      holds r' t' k \<longleftrightarrow> holds r t' k \<or> t' = t \<and> k \<in> set ids"
    and reserve_fresh: "invar r \<Longrightarrow> try_reserve r t ids now = Inr r' \<Longrightarrow> k \<in> set ids \<Longrightarrow>
      \<not> holds r t' k"
    and cancel_holds: "invar r \<Longrightarrow> holds (cancel r t) t' k \<longleftrightarrow> holds r t' k \<and> t' \<noteq> t"
    and clear_holds: "invar r \<Longrightarrow> holds (snd (clear r j t now)) t' k \<Longrightarrow> holds r t' k"
    and clear_other: "invar r \<Longrightarrow> t' \<noteq> t \<Longrightarrow> holds (snd (clear r j t now)) t' k = holds r t' k"
    and holder_unique: "invar r \<Longrightarrow> holds r t k \<Longrightarrow> holds r t' k \<Longrightarrow> t = t'"
    and invar_reserve: "invar r \<Longrightarrow> try_reserve r t ids now = Inr r' \<Longrightarrow> invar r'"
    and invar_cancel: "invar r \<Longrightarrow> invar (cancel r t)"
    and invar_clear: "invar r \<Longrightarrow> invar (snd (clear r j t now))"
begin

lemma reserve_all: "invar r \<Longrightarrow> try_reserve r t ids now = Inr r' \<Longrightarrow> k \<in> set ids \<Longrightarrow> holds r' t k"
  by (simp add: reserve_holds)

lemma reserve_frame:
  "invar r \<Longrightarrow> try_reserve r t ids now = Inr r' \<Longrightarrow> t' \<noteq> t \<Longrightarrow> holds r' t' k = holds r t' k"
  by (simp add: reserve_holds)

text \<open>A booking that is withdrawn leaves the bookings as they were.\<close>

lemma reserve_cancel:
  assumes "invar r" "try_reserve r t ids now = Inr r'" "\<And>k. \<not> holds r t k"
  shows "holds (cancel r' t) = holds r"
  using assms cancel_holds [OF invar_reserve [OF assms(1,2)]] reserve_holds [OF assms(1,2)]
  by (auto simp: fun_eq_iff)

text \<open>As long as a train holds a movement, nobody can book it.\<close>

lemma held_blocks: "invar r \<Longrightarrow> holds r t' k \<Longrightarrow> k \<in> set ids \<Longrightarrow> \<exists>e. try_reserve r t ids now = Inl e"
  using reserve_fresh by (metis sum.exhaust)

end

lemma rm_holds_booked:
  "rm_inv m \<Longrightarrow> rm_active m i k = Some r \<Longrightarrow> rm_active m j k = Some r' \<Longrightarrow> i = j"
proof -
  assume "rm_inv m" and a: "rm_active m i k = Some r" "rm_active m j k = Some r'"
  then have booked: "rm_booked m" by (simp add: rm_inv_def)
  show "i = j" using rm_bookedD [OF booked a(1)] rm_bookedD [OF booked a(2)] by auto
qed

lemma reserve_holds_iff:
  assumes "rm_inv m" "tryReserveAtomically m train ids now = Inr m'"
  shows "rm_holds m' t k \<longleftrightarrow> rm_holds m t k \<or> t = train \<and> k \<in> set ids"
    and "k \<in> set ids \<Longrightarrow> \<not> rm_holds m t k"
proof -
  have "rm_wf m" using assms(1) by (simp add: rm_inv_def)
  note eff = tryReserve_effect [OF this assms(2)]
  have fresh: "rm_active m i j = None" if "j \<in> set ids" for i j
  proof (rule ccontr)
    assume "rm_active m i j \<noteq> None"
    then obtain r where r: "rm_active m i j = Some r" by auto
    then obtain mv where mv: "um_find (rm_movements m) j = Some mv" "mv_intersection_id mv = i"
      using rm_bookedD [of m i j r] assms(1) by (auto simp: rm_inv_def)
    then have "movement_free m now mv" using eff that by (auto simp: reservable_def)
    then show False using r mv by (auto simp: movement_free_def movementsConflict_def)
  qed
  then show "k \<in> set ids \<Longrightarrow> \<not> rm_holds m t k" by (auto simp: rm_holds_def)
  have found: "k \<in> set ids \<Longrightarrow> \<exists>mv. um_find (rm_movements m) k = Some mv"
    using eff by (auto simp: reservable_def)
  show "rm_holds m' t k \<longleftrightarrow> rm_holds m t k \<or> t = train \<and> k \<in> set ids"
    using eff found fresh by (auto simp: rm_holds_def split: if_splits)
qed

interpretation rms: reservation_service "\<lambda>m ids now. canReserve m ids now = Inr ()"
  tryReserveAtomically cancelTrain markCleared rm_holds rm_inv
proof
  fix m t t' k j now assume inv: "rm_inv m"
  then have wf: "rm_wf m" by (simp add: rm_inv_def)
  obtain ok m' where r: "markCleared m j t now = (ok, m')" by fastforce
  note eff = markCleared_effect [OF wf r]
  show "rm_holds (snd (markCleared m j t now)) t' k \<Longrightarrow> rm_holds m t' k"
    using eff by (auto simp: r rm_holds_def split: option.splits if_splits)
  show "t' \<noteq> t \<Longrightarrow> rm_holds (snd (markCleared m j t now)) t' k = rm_holds m t' k"
    using eff by (auto simp: r rm_holds_def split: option.splits if_splits) (metis option.inject)+
  show "rm_holds (cancelTrain m t) t' k \<longleftrightarrow> rm_holds m t' k \<and> t' \<noteq> t"
    by (auto simp: rm_holds_def cancelTrain_active [OF wf] split: option.splits if_splits)
  show "rm_holds m t k \<Longrightarrow> rm_holds m t' k \<Longrightarrow> t = t'"
    using rm_holds_booked [OF inv] by (fastforce simp: rm_holds_def)
  show "(\<exists>r'. tryReserveAtomically m t ids now = Inr r') = (t \<noteq> [] \<and> canReserve m ids now = Inr ())" for ids
    by (rule tryReserve_Inr_iff [OF wf])
qed (auto simp: reserve_holds_iff intro: rm_inv_tryReserve rm_inv_cancelTrain rm_inv_markCleared)

subsection \<open>Properties\<close>

text \<open>A small manager for the witnesses: two crossing movements and one that crosses neither.\<close>

definition demo_movement :: "string \<Rightarrow> string list \<Rightarrow> line_intersection_movement" where
  "demo_movement k cs = \<lparr>mv_movement_id = k, mv_intersection_id = ''X'', mv_line_id = ''L'',
     mv_incoming_route_segment_id = ''in'', mv_outgoing_route_segment_id = ''out'',
     mv_conflict_movement_ids = cs, mv_clearance_time_ms = 0\<rparr>"

definition demo_manager :: reservation_manager where
  "demo_manager = fold (\<lambda>mv m. snd (registerMovement m mv))
     [demo_movement ''a'' [''b''], demo_movement ''b'' [], demo_movement ''c'' []]
     (new_reservation_manager 2000)"

definition demo_booked :: reservation_manager where
  "demo_booked = projr (tryReserveAtomically demo_manager ''T1'' [''a'', ''c''] 10000)"

lemma reachable_register:
  "reachable rm_start rm_step m \<Longrightarrow> (\<And>i. rm_active m i (mv_movement_id mv) = None) \<Longrightarrow>
   reachable rm_start rm_step (snd (registerMovement m mv))"
  by (blast intro: reach_step rm_register)

lemma no_active_registered:
  "(\<And>i k. rm_active m i k = None) \<Longrightarrow> rm_active (snd (registerMovement m mv)) i k = None"
  by (auto simp: registerMovement_def rm_active_def umap_simps split: option.splits)

lemma demo_manager_reachable: "reachable rm_start rm_step demo_manager"
proof -
  have "rm_active (new_reservation_manager c) i k = None" for c i k
    by (simp add: rm_active_def new_reservation_manager_def)
  moreover have "reachable rm_start rm_step (new_reservation_manager 2000)"
    by (rule reach_init) (auto simp: rm_start_def)
  ultimately show ?thesis
    unfolding demo_manager_def fold_simps
    by (intro reachable_register no_active_registered) simp_all
qed

lemma demo_booked_step: "tryReserveAtomically demo_manager ''T1'' [''a'', ''c''] 10000 = Inr demo_booked"
  unfolding demo_booked_def by code_simp

lemma demo_booked_reachable: "reachable rm_start rm_step demo_booked"
  using reach_step [OF demo_manager_reachable rm_reserve [OF demo_booked_step]] .

text \<open>C5: in every reachable state of the reservation manager, two different movements that are
  booked at the same intersection do not conflict: trains on conflicting movements are never
  admitted together, however bookings, cancellations and departures interleave.\<close>

theorem reserved_movements_never_conflict:
  assumes "reachable rm_start rm_step m"
    and "rm_active m i k1 = Some r1" and "rm_active m i k2 = Some r2" and "k1 \<noteq> k2"
    and "um_find (rm_movements m) k1 = Some a" and "um_find (rm_movements m) k2 = Some b"
  shows "\<not> movementsConflict a b"
proof -
  have "rm_exclusive m" using rm.inv_reachable [OF assms(1)] by (simp add: rm_inv_def)
  then show ?thesis using assms(2-) by (rule rm_exclusiveD)
qed

lemma reserved_movements_never_conflict_witness:
  "\<not> movementsConflict (demo_movement ''a'' [''b'']) (demo_movement ''c'' [])"
proof (rule reserved_movements_never_conflict [OF demo_booked_reachable, of "''X''" "''a''" _ "''c''"])
  show "rm_active demo_booked ''X'' ''a'' = Some (the (rm_active demo_booked ''X'' ''a''))" by code_simp
  show "rm_active demo_booked ''X'' ''c'' = Some (the (rm_active demo_booked ''X'' ''c''))" by code_simp
qed (simp, code_simp+)

text \<open>C21: the three loops of \<open>canReserve\<close> decide exactly the declarative condition: every requested
  movement is known, free of conflicting bookings and past the clearance time of conflicting
  departures at its intersection, and no two requested movements conflict with each other.\<close>

theorem canReserve_decides_reservable:
  assumes "reachable rm_start rm_step m"
  shows "canReserve m ids now = Inr () \<longleftrightarrow> reservable m now ids"
  using rm.inv_reachable [OF assms] by (intro canReserve_iff_reservable) (simp add: rm_inv_def)

lemma canReserve_decides_reservable_witness:
  "reservable demo_manager 10000 [''a'', ''c''] \<and> \<not> reservable demo_booked 10000 [''b'']"
proof -
  have "canReserve demo_manager [''a'', ''c''] 10000 = Inr ()" by code_simp
  moreover have "canReserve demo_booked [''b''] 10000 \<noteq> Inr ()" by code_simp
  ultimately show ?thesis
    using canReserve_decides_reservable [OF demo_manager_reachable]
      canReserve_decides_reservable [OF demo_booked_reachable] by blast
qed

text \<open>Booking is all or nothing. A call succeeds exactly when the train has a name and the whole
  request is reservable; it then holds every requested movement, none of which anyone held
  before, and the holdings of all other trains and all clearance times are as they were. (A
  failing call returns a reason and no new state.)\<close>

theorem tryReserve_all_or_nothing:
  assumes "reachable rm_start rm_step m"
  shows "case tryReserveAtomically m train ids now of
      Inl reason \<Rightarrow> train = [] \<or> \<not> reservable m now ids
    | Inr m' \<Rightarrow> train \<noteq> [] \<and> reservable m now ids \<and>
        (\<forall>k \<in> set ids. rm_holds m' train k \<and> (\<forall>t. \<not> rm_holds m t k)) \<and>
        (\<forall>t k. t \<noteq> train \<longrightarrow> rm_holds m' t k = rm_holds m t k) \<and>
        (\<forall>i k. rm_cleared_at m' i k = rm_cleared_at m i k)"
proof -
  have inv: "rm_inv m" and wf: "rm_wf m"
    using rm.inv_reachable [OF assms] by (simp_all add: rm_inv_def)
  show ?thesis
  proof (cases "tryReserveAtomically m train ids now")
    case (Inl e)
    then show ?thesis
      using rms.reserve_ok [OF inv, of train ids now] canReserve_iff_reservable [OF wf] by auto
  next
    case (Inr m')
    then show ?thesis
      using tryReserve_effect [OF wf Inr] rms.reserve_all [OF inv Inr] rms.reserve_fresh [OF inv Inr]
        rms.reserve_frame [OF inv Inr] by simp
  qed
qed

lemma tryReserve_all_or_nothing_witness:
  "rm_holds demo_booked ''T1'' ''a'' \<and> rm_holds demo_booked ''T1'' ''c''"
  using tryReserve_all_or_nothing [OF demo_manager_reachable,
      where train = "''T1''" and ids = "[''a'', ''c'']" and now = 10000]
  by (simp add: demo_booked_step)

text \<open>C22: the clearance interval is kept. After a train's tail has left intersection \<open>j\<close> at time \<open>t\<close>
  on movement \<open>k\<close>, a request that contains a movement conflicting with \<open>k\<close> at \<open>j\<close> is granted
  at \<open>now\<close> only if \<open>now\<close> is not before \<open>t\<close> and at least both movements' clearance times after it.\<close>

theorem clearance_time_is_kept:
  assumes "reachable rm_start rm_step m"
    and "rm_active m j k = Some r" and "rs_train_id r = train"
    and "um_find (rm_movements m) k = Some c"
    and "um_find (rm_movements m) i = Some mv" and "i \<in> set ids"
    and "mv_intersection_id mv = j" and "movementsConflict mv c"
    and "canReserve (snd (markCleared m j train t)) ids now = Inr ()"
  shows "t \<le> now \<and> clearanceFor m mv \<le> now - t \<and> clearanceFor m c \<le> now - t"
proof -
  let ?m = "snd (markCleared m j train t)"
  obtain ok where r: "markCleared m j train t = (ok, ?m)" by (metis surj_pair snd_conv)
  have inv: "rm_inv m" using rm.inv_reachable [OF assms(1)] .
  then have wf: "rm_wf m" by (simp add: rm_inv_def)
  note eff = markCleared_effect [OF wf r]
  have mov: "rm_movements ?m = rm_movements m" and wf': "rm_wf ?m"
    and dflt: "rm_default_clearance_ms ?m = rm_default_clearance_ms m" using eff by blast+
  have "rm_cleared_at ?m i' k' = (if i' = j \<and> (\<exists>r. rm_active m i' k' = Some r \<and> rs_train_id r = train)
      then Some t else rm_cleared_at m i' k')" for i' k' using eff by blast
  then have clr: "rm_cleared_at ?m j k = Some t" using assms(2,3) by simp
  have "reservable ?m now ids" using assms(9) canReserve_iff_reservable [OF wf'] by blast
  then have "\<exists>mv'. um_find (rm_movements m) i = Some mv' \<and> movement_free ?m now mv'"
    using assms(6) unfolding reservable_def mov by blast
  then have "movement_free ?m now mv" using assms(5) by simp
  then have "t \<le> now \<and> max (clearanceFor ?m mv) (clearanceFor ?m c) \<le> now - t"
    using clr assms(4,7,8) unfolding movement_free_def mov by blast
  moreover have "clearanceFor ?m x = clearanceFor m x" for x by (simp only: clearanceFor_def dflt)
  ultimately show ?thesis by simp
qed

lemma clearance_time_is_kept_witness:
  "(10000 :: u64) \<le> 12000 \<and> clearanceFor demo_booked (demo_movement ''b'' []) \<le> 12000 - 10000 \<and>
   clearanceFor demo_booked (demo_movement ''a'' [''b'']) \<le> 12000 - 10000"
proof (rule clearance_time_is_kept [OF demo_booked_reachable, of "''X''" "''a''" _ "''T1''" _ "''b''" _ "[''b'']"])
  show "rm_active demo_booked ''X'' ''a'' = Some (the (rm_active demo_booked ''X'' ''a''))" by code_simp
qed (code_simp | simp add: demo_movement_def movementsConflict_def)+

text \<open>Withdrawing an unused booking leaves no trace: reserving and then cancelling a train that
  held nothing gives back the same holdings and the same clearance times.\<close>

theorem reserve_then_cancel:
  assumes "reachable rm_start rm_step m"
    and "tryReserveAtomically m train ids now = Inr m'" and "\<And>k. \<not> rm_holds m train k"
  shows "rm_holds (cancelTrain m' train) = rm_holds m \<and>
    (\<forall>i k. rm_cleared_at (cancelTrain m' train) i k = rm_cleared_at m i k)"
proof -
  have inv: "rm_inv m" and wf: "rm_wf m"
    using rm.inv_reachable [OF assms(1)] by (simp_all add: rm_inv_def)
  show ?thesis
    using rms.reserve_cancel [OF inv assms(2,3)] tryReserve_effect [OF wf assms(2)]
    by (simp add: cancelTrain_frame)
qed

lemma reserve_then_cancel_witness:
  "rm_holds (cancelTrain demo_booked ''T1'') = rm_holds demo_manager"
proof -
  have "\<not> rm_holds demo_manager ''T1'' k" for k
  proof -
    have "rm_active demo_manager i k = None" for i
      by (auto simp: demo_manager_def demo_movement_def registerMovement_def rm_active_def
          new_reservation_manager_def um_try_emplace_def empty_runtime_def)
    then show ?thesis by (simp add: rm_holds_def)
  qed
  then show ?thesis using reserve_then_cancel [OF demo_manager_reachable demo_booked_step] by blast
qed

end
