(* ===== verification/Policy.thy ===== *)
theory Policy
  imports Prelude Double
begin

text \<open>
  \<open>DispatchPolicy.h\<close> (the data of a dispatch decision) and \<open>DynamicPriorityPolicy\<close>
  (server/include/DynamicPriorityPolicy.h, server/src/DynamicPriorityPolicy.cpp): which of the
  waiting trains may enter a shared corridor next. The hard constraints come first; among the
  feasible candidates the one that waited longest beyond the limit is chosen, otherwise the one
  with the highest score, with fixed rules for ties. \<open>decide\<close> is a pure function of its context.
  The contract it offers the dispatch manager is the locale \<open>dispatch_policy\<close>.
\<close>

subsection \<open>Data of DispatchPolicy.h\<close>

datatype corridor_direction = FORWARD | REVERSE

datatype dispatch_action = NO_ACTION | HOLD_ALL | RELEASE

text \<open>The order of the enumerators, as \<open><\<close> on a C++ enumeration.\<close>

instantiation corridor_direction :: linorder
begin

definition less_eq_corridor_direction :: "corridor_direction \<Rightarrow> corridor_direction \<Rightarrow> bool" where
  "less_eq_corridor_direction a b \<longleftrightarrow> a = FORWARD \<or> b = REVERSE"

definition less_corridor_direction :: "corridor_direction \<Rightarrow> corridor_direction \<Rightarrow> bool" where
  "less_corridor_direction a b \<longleftrightarrow> a = FORWARD \<and> b = REVERSE"

instance
proof
  fix x y z :: corridor_direction
  show "(x < y) = (x \<le> y \<and> \<not> y \<le> x)" "x \<le> x" "x \<le> y \<or> y \<le> x"
    "x \<le> y \<Longrightarrow> y \<le> z \<Longrightarrow> x \<le> z" "x \<le> y \<Longrightarrow> y \<le> x \<Longrightarrow> x = y"
    unfolding less_eq_corridor_direction_def less_corridor_direction_def
    by (cases x; cases y; cases z; simp)+
qed

end

record dispatch_candidate =
  dc_train_id :: string
  dc_line_id :: string
  dc_corridor_direction :: corridor_direction
  dc_corridor_resource_id :: string
  dc_required_intersection_movement_ids :: "string list"
  dc_route_index :: size_t
  dc_route_position :: double
  dc_arrived_at_simulation_ms :: u64
  dc_received_at_wall_ms :: u64
  dc_predicted_arrival_simulation_ms :: u64
  dc_rolling_plan_rank :: size_t
  dc_global_plan_priority :: double

record line_dispatch_state =
  ld_target_headway_ms :: u64
  ld_last_release_simulation_ms :: u64
  ld_last_credit_update_simulation_ms :: u64
  ld_fairness_credit :: double

definition default_line_dispatch_state :: line_dispatch_state where
  "default_line_dispatch_state = \<lparr>ld_target_headway_ms = 15000, ld_last_release_simulation_ms = 0,
     ld_last_credit_update_simulation_ms = 0, ld_fairness_credit = 0\<rparr>"

record shared_corridor_state =
  co_corridor_resource_id :: string
  co_corridor_id :: string
  co_direction :: corridor_direction
  co_received_at_wall_ms :: u64
  co_last_entry_simulation_ms :: u64
  co_minimum_headway_ms :: u64
  co_occupancy :: size_t
  co_capacity :: size_t
  co_downstream_available :: bool
  co_command_pending :: bool
  co_candidates :: "dispatch_candidate list"

record dispatch_context =
  cx_corridor :: shared_corridor_state
  cx_lines :: "(string, line_dispatch_state) umap"
  cx_last_released_line_id :: string
  cx_consecutive_release_count :: size_t
  cx_simulation_now_ms :: u64
  cx_wall_now_ms :: u64

record dispatch_score_breakdown =
  sb_headway_urgency :: double
  sb_waiting_time :: double
  sb_fairness_credit :: double
  sb_consecutive_penalty :: double
  sb_global_plan_priority :: double

definition default_score_breakdown :: dispatch_score_breakdown where
  "default_score_breakdown = \<lparr>sb_headway_urgency = 0, sb_waiting_time = 0, sb_fairness_credit = 0,
     sb_consecutive_penalty = 0, sb_global_plan_priority = 0\<rparr>"

record dispatch_decision =
  dd_action :: dispatch_action
  dd_command_id :: string
  dd_corridor_resource_id :: string
  dd_corridor_id :: string
  dd_direction :: corridor_direction
  dd_train_id :: string
  dd_line_id :: string
  dd_topology_revision :: u64
  dd_issued_at_simulation_ms :: u64
  dd_entry_route_index :: size_t
  dd_exit_route_index :: size_t
  dd_entry_route_position :: double
  dd_exit_route_position :: double
  dd_has_route_bounds :: bool
  dd_reserved_intersection_movement_ids :: "string list"
  dd_reason :: string
  dd_score :: double
  dd_breakdown :: dispatch_score_breakdown

definition default_decision :: dispatch_decision where
  "default_decision = \<lparr>dd_action = NO_ACTION, dd_command_id = [], dd_corridor_resource_id = [],
     dd_corridor_id = [], dd_direction = FORWARD, dd_train_id = [], dd_line_id = [],
     dd_topology_revision = 0, dd_issued_at_simulation_ms = 0, dd_entry_route_index = 0,
     dd_exit_route_index = 0, dd_entry_route_position = 0, dd_exit_route_position = 0,
     dd_has_route_bounds = False, dd_reserved_intersection_movement_ids = [], dd_reason = [],
     dd_score = 0, dd_breakdown = default_score_breakdown\<rparr>"

subsection \<open>The policy's configuration\<close>

record dynamic_priority_config =
  pc_default_corridor_minimum_headway_ms :: u64
  pc_maximum_wait_ms :: u64
  pc_telemetry_stale_wall_ms :: u64
  pc_max_consecutive_release :: size_t
  pc_headway_urgency_weight :: double
  pc_waiting_time_weight :: double
  pc_fairness_credit_weight :: double
  pc_global_plan_weight :: double
  pc_consecutive_penalty_weight :: double

definition default_priority_config :: dynamic_priority_config where
  "default_priority_config = \<lparr>pc_default_corridor_minimum_headway_ms = 5000,
     pc_maximum_wait_ms = 20000, pc_telemetry_stale_wall_ms = 1500, pc_max_consecutive_release = 2,
     pc_headway_urgency_weight = lit (1 / 2), pc_waiting_time_weight = lit (3 / 10),
     pc_fairness_credit_weight = lit (1 / 5), pc_global_plan_weight = lit (1 / 4),
     pc_consecutive_penalty_weight = lit (1 / 4)\<rparr>"

text \<open>The constructor; \<open>Inl\<close> is the text of the \<open>std::invalid_argument\<close> it throws.\<close>

definition new_dynamic_priority_policy ::
    "dynamic_priority_config \<Rightarrow> string + dynamic_priority_config" where
  "new_dynamic_priority_policy c =
     (if pc_default_corridor_minimum_headway_ms c = 0 \<or> pc_maximum_wait_ms c = 0
      then Inl ''dispatch time limits must be greater than zero''
      else if \<not> isfinite (pc_headway_urgency_weight c) \<or> \<not> isfinite (pc_waiting_time_weight c) \<or>
        \<not> isfinite (pc_fairness_credit_weight c) \<or> \<not> isfinite (pc_global_plan_weight c) \<or>
        \<not> isfinite (pc_consecutive_penalty_weight c)
      then Inl ''dispatch weights must be finite''
      else Inr c)"

subsection \<open>decide\<close>

definition elapsedSince :: "u64 \<Rightarrow> u64 \<Rightarrow> u64" where
  "elapsedSince now then_ms = (if then_ms \<le> now then now - then_ms else 0)"

definition wallStateStale :: "u64 \<Rightarrow> u64 \<Rightarrow> u64 \<Rightarrow> bool" where
  "wallStateStale received now stale \<longleftrightarrow>
     received = 0 \<or> now < received \<or> stale < elapsedSince now received"

definition makeDecision ::
    "dispatch_action \<Rightarrow> shared_corridor_state \<Rightarrow> string \<Rightarrow> dispatch_decision" where
  "makeDecision action corridor reason = default_decision\<lparr>dd_action := action,
     dd_corridor_resource_id := co_corridor_resource_id corridor,
     dd_corridor_id := co_corridor_id corridor, dd_direction := co_direction corridor,
     dd_reason := reason\<rparr>"

record scored_candidate =
  sc_candidate :: dispatch_candidate
  sc_breakdown :: dispatch_score_breakdown
  sc_score :: double
  sc_waiting_ms :: u64
  sc_maximum_wait_exceeded :: bool
  sc_consecutive_limit_reached :: bool

definition minimumHeadway :: "dynamic_priority_config \<Rightarrow> shared_corridor_state \<Rightarrow> u64" where
  "minimumHeadway c corridor = (if co_minimum_headway_ms corridor = 0
     then pc_default_corridor_minimum_headway_ms c else co_minimum_headway_ms corridor)"

text \<open>The body of the scoring loop for a candidate that is not skipped.\<close>

definition scoreCandidate ::
    "dynamic_priority_config \<Rightarrow> dispatch_context \<Rightarrow> dispatch_candidate \<Rightarrow> line_dispatch_state \<Rightarrow>
     scored_candidate" where
  "scoreCandidate c ctx cand line =
     (let waiting = elapsedSince (cx_simulation_now_ms ctx) (dc_arrived_at_simulation_ms cand);
          since_release = (if ld_last_release_simulation_ms line = 0 then ld_target_headway_ms line
            else elapsedSince (cx_simulation_now_ms ctx) (ld_last_release_simulation_ms line));
          b = \<lparr>sb_headway_urgency =
                 double_of_u64 since_release / double_of_u64 (ld_target_headway_ms line),
               sb_waiting_time = double_of_u64 waiting / double_of_u64 (pc_maximum_wait_ms c),
               sb_fairness_credit = ld_fairness_credit line,
               sb_consecutive_penalty =
                 (if dc_line_id cand = cx_last_released_line_id ctx
                  then double_of_u64 (cx_consecutive_release_count ctx) else 0),
               sb_global_plan_priority = dc_global_plan_priority cand\<rparr>
      in \<lparr>sc_candidate = cand, sc_breakdown = b,
          sc_score = pc_headway_urgency_weight c * sb_headway_urgency b +
            pc_waiting_time_weight c * sb_waiting_time b +
            pc_fairness_credit_weight c * sb_fairness_credit b +
            pc_global_plan_weight c * sb_global_plan_priority b -
            pc_consecutive_penalty_weight c * sb_consecutive_penalty b,
          sc_waiting_ms = waiting,
          sc_maximum_wait_exceeded = (pc_maximum_wait_ms c \<le> waiting),
          sc_consecutive_limit_reached = (0 < pc_max_consecutive_release c \<and>
            dc_line_id cand = cx_last_released_line_id ctx \<and>
            pc_max_consecutive_release c \<le> cx_consecutive_release_count ctx)\<rparr>)"

text \<open>The two \<open>continue\<close>s of the scoring loop.\<close>

definition candidateSkipped ::
    "dynamic_priority_config \<Rightarrow> dispatch_context \<Rightarrow> dispatch_candidate \<Rightarrow> bool" where
  "candidateSkipped c ctx cand \<longleftrightarrow>
     dc_train_id cand = [] \<or> dc_line_id cand = [] \<or>
     dc_corridor_resource_id cand \<noteq> co_corridor_resource_id (cx_corridor ctx) \<or>
     dc_corridor_direction cand \<noteq> co_direction (cx_corridor ctx) \<or>
     dc_arrived_at_simulation_ms cand = 0 \<or>
     cx_simulation_now_ms ctx < dc_arrived_at_simulation_ms cand \<or>
     wallStateStale (dc_received_at_wall_ms cand) (cx_wall_now_ms ctx)
       (pc_telemetry_stale_wall_ms c) \<or>
     \<not> isfinite (dc_global_plan_priority cand)"

fun scoreCandidates ::
    "dynamic_priority_config \<Rightarrow> dispatch_context \<Rightarrow> dispatch_candidate list \<Rightarrow>
     scored_candidate list" where
  "scoreCandidates c ctx [] = []"
| "scoreCandidates c ctx (cand # cands) =
     (if candidateSkipped c ctx cand then scoreCandidates c ctx cands
      else case um_find (cx_lines ctx) (dc_line_id cand) of
        None \<Rightarrow> scoreCandidates c ctx cands
      | Some line \<Rightarrow> if ld_target_headway_ms line = 0 then scoreCandidates c ctx cands
          else scoreCandidate c ctx cand line # scoreCandidates c ctx cands)"

definition hasAlternativeLine :: "dispatch_context \<Rightarrow> scored_candidate list \<Rightarrow> bool" where
  "hasAlternativeLine ctx scored \<longleftrightarrow>
     list_ex (\<lambda>item. dc_line_id (sc_candidate item) \<noteq> cx_last_released_line_id ctx) scored"

definition eligible :: "bool \<Rightarrow> scored_candidate \<Rightarrow> bool" where
  "eligible has_alternative item \<longleftrightarrow> sc_maximum_wait_exceeded item \<or>
     \<not> (sc_consecutive_limit_reached item \<and> has_alternative)"

definition betterWait :: "scored_candidate \<Rightarrow> scored_candidate \<Rightarrow> bool" where
  "betterWait item sel \<longleftrightarrow> sc_waiting_ms sel < sc_waiting_ms item \<or>
     sc_waiting_ms item = sc_waiting_ms sel \<and> sc_score sel < sc_score item"

definition betterScore :: "scored_candidate \<Rightarrow> scored_candidate \<Rightarrow> bool" where
  "betterScore item sel \<longleftrightarrow> sc_score sel < sc_score item \<or>
     deq (sc_score item) (sc_score sel) \<and> sc_waiting_ms sel < sc_waiting_ms item \<or>
     deq (sc_score item) (sc_score sel) \<and> sc_waiting_ms item = sc_waiting_ms sel \<and>
       dc_train_id (sc_candidate item) < dc_train_id (sc_candidate sel)"

definition selectCandidate :: "bool \<Rightarrow> scored_candidate list \<Rightarrow> scored_candidate option" where
  "selectCandidate has_alternative scored =
     (case scan_best betterWait
         (filter (\<lambda>i. eligible has_alternative i \<and> sc_maximum_wait_exceeded i) scored) of
        Some s \<Rightarrow> Some s
      | None \<Rightarrow> scan_best betterScore (filter (eligible has_alternative) scored))"

definition decide :: "dynamic_priority_config \<Rightarrow> dispatch_context \<Rightarrow> dispatch_decision" where
  "decide c ctx = (let corridor = cx_corridor ctx in
     if wallStateStale (co_received_at_wall_ms corridor) (cx_wall_now_ms ctx)
          (pc_telemetry_stale_wall_ms c)
     then makeDecision HOLD_ALL corridor ''corridor_state_stale''
     else if co_command_pending corridor then makeDecision NO_ACTION corridor ''command_pending''
     else if \<not> co_downstream_available corridor
     then makeDecision HOLD_ALL corridor ''downstream_unavailable''
     else if co_capacity corridor = 0 \<or> co_capacity corridor \<le> co_occupancy corridor
     then makeDecision HOLD_ALL corridor ''corridor_at_capacity''
     else if co_last_entry_simulation_ms corridor \<noteq> 0 \<and>
       elapsedSince (cx_simulation_now_ms ctx) (co_last_entry_simulation_ms corridor)
         < minimumHeadway c corridor
     then makeDecision HOLD_ALL corridor ''minimum_headway_not_met''
     else let scored = scoreCandidates c ctx (co_candidates corridor) in
       if scored = [] then makeDecision NO_ACTION corridor ''no_feasible_candidate''
       else case selectCandidate (hasAlternativeLine ctx scored) scored of
         None \<Rightarrow> makeDecision NO_ACTION corridor ''no_eligible_candidate''
       | Some s \<Rightarrow> (makeDecision RELEASE corridor
             (if sc_maximum_wait_exceeded s then ''maximum_wait_exceeded''
              else ''highest_dynamic_priority''))
           \<lparr>dd_train_id := dc_train_id (sc_candidate s), dd_line_id := dc_line_id (sc_candidate s),
            dd_reserved_intersection_movement_ids :=
              dc_required_intersection_movement_ids (sc_candidate s),
            dd_score := sc_score s, dd_breakdown := sc_breakdown s\<rparr>)"


subsection \<open>The hard constraints and the feasible candidates\<close>

text \<open>What the first five tests of \<open>decide\<close> let through.\<close>

definition hard_constraints :: "dynamic_priority_config \<Rightarrow> dispatch_context \<Rightarrow> bool" where
  "hard_constraints c ctx \<longleftrightarrow> (let co = cx_corridor ctx in
     co_received_at_wall_ms co \<noteq> 0 \<and> co_received_at_wall_ms co \<le> cx_wall_now_ms ctx \<and>
     cx_wall_now_ms ctx - co_received_at_wall_ms co \<le> pc_telemetry_stale_wall_ms c \<and>
     \<not> co_command_pending co \<and> co_downstream_available co \<and>
     co_occupancy co < co_capacity co \<and>
     (co_last_entry_simulation_ms co = 0 \<or>
      minimumHeadway c co \<le> elapsedSince (cx_simulation_now_ms ctx) (co_last_entry_simulation_ms co)))"

definition feasible :: "dynamic_priority_config \<Rightarrow> dispatch_context \<Rightarrow> dispatch_candidate \<Rightarrow> bool" where
  "feasible c ctx cand \<longleftrightarrow> cand \<in> set (co_candidates (cx_corridor ctx)) \<and>
     \<not> candidateSkipped c ctx cand \<and>
     (\<exists>line. um_find (cx_lines ctx) (dc_line_id cand) = Some line \<and> ld_target_headway_ms line \<noteq> 0)"

definition waited :: "dispatch_context \<Rightarrow> dispatch_candidate \<Rightarrow> u64" where
  "waited ctx cand = cx_simulation_now_ms ctx - dc_arrived_at_simulation_ms cand"

text \<open>The candidate's line has used up its consecutive releases.\<close>

definition at_limit :: "dynamic_priority_config \<Rightarrow> dispatch_context \<Rightarrow> dispatch_candidate \<Rightarrow> bool" where
  "at_limit c ctx cand \<longleftrightarrow> 0 < pc_max_consecutive_release c \<and>
     dc_line_id cand = cx_last_released_line_id ctx \<and>
     pc_max_consecutive_release c \<le> cx_consecutive_release_count ctx"

lemma fresh_iff: "\<not> wallStateStale r now stale \<longleftrightarrow> r \<noteq> 0 \<and> r \<le> now \<and> now - r \<le> stale"
  by (auto simp: wallStateStale_def elapsedSince_def not_less)

lemma scoreCandidates_map_filter:
  "scoreCandidates c ctx cands =
     List.map_filter (\<lambda>cand. if candidateSkipped c ctx cand then None
       else case um_find (cx_lines ctx) (dc_line_id cand) of None \<Rightarrow> None
         | Some line \<Rightarrow> if ld_target_headway_ms line = 0 then None
             else Some (scoreCandidate c ctx cand line)) cands"
  by (induction cands) (auto simp: map_filter_simps split: option.splits)

lemma set_scoreCandidates:
  "set (scoreCandidates c ctx (co_candidates (cx_corridor ctx))) =
     {scoreCandidate c ctx cand line | cand line. feasible c ctx cand \<and>
        um_find (cx_lines ctx) (dc_line_id cand) = Some line}"
  by (force simp: scoreCandidates_map_filter List.map_filter_def feasible_def
      split: option.splits if_splits)

lemma scoreCandidate_sel [simp]:
  "sc_candidate (scoreCandidate c ctx cand line) = cand"
  "sc_consecutive_limit_reached (scoreCandidate c ctx cand line) = at_limit c ctx cand"
  by (simp_all add: scoreCandidate_def Let_def at_limit_def)

lemma feasible_arrived: "feasible c ctx cand \<Longrightarrow> dc_arrived_at_simulation_ms cand \<le> cx_simulation_now_ms ctx"
  by (auto simp: feasible_def candidateSkipped_def)

lemma scoreCandidate_wait:
  "feasible c ctx cand \<Longrightarrow> sc_waiting_ms (scoreCandidate c ctx cand line) = waited ctx cand"
  "feasible c ctx cand \<Longrightarrow>
   sc_maximum_wait_exceeded (scoreCandidate c ctx cand line) = (pc_maximum_wait_ms c \<le> waited ctx cand)"
  using feasible_arrived [of c ctx cand]
  by (simp_all add: scoreCandidate_def Let_def elapsedSince_def waited_def)

subsection \<open>The selection\<close>

interpretation wait_order: scan_order betterWait
  by unfold_locales (auto simp: betterWait_def dest: double_less_trans)

interpretation score_order: scan_order betterScore
proof
  fix x y z assume "betterScore x y" "betterScore y z"
  then show "betterScore x z" unfolding betterScore_def deq_iff
    by (auto dest: double_less_trans less_trans)
qed (simp add: betterScore_def)

lemma selectCandidate_None: "selectCandidate alt scored = None \<longleftrightarrow> (\<forall>s \<in> set scored. \<not> eligible alt s)"
  by (auto simp: selectCandidate_def filter_empty_conv split: option.splits dest!: scan_best_mem)

lemma selectCandidate_mem:
  "selectCandidate alt scored = Some s \<Longrightarrow> s \<in> set scored \<and> eligible alt s"
  by (auto simp: selectCandidate_def split: option.splits dest!: scan_best_mem)

text \<open>Anti-starvation: an item beyond the maximum wait is only beaten by one that waited longer.\<close>

lemma selectCandidate_wait:
  assumes "selectCandidate alt scored = Some s" "x \<in> set scored" "sc_maximum_wait_exceeded x"
  shows "sc_maximum_wait_exceeded s \<and> \<not> betterWait x s"
proof -
  let ?late = "filter (\<lambda>i. eligible alt i \<and> sc_maximum_wait_exceeded i) scored"
  have x: "x \<in> set ?late" using assms by (simp add: eligible_def)
  then have "scan_best betterWait ?late \<noteq> None" by (metis scan_best_None empty_iff list.set(1))
  then have s: "scan_best betterWait ?late = Some s"
    using assms(1) by (auto simp: selectCandidate_def split: option.splits)
  then show ?thesis using scan_best_mem [OF s] wait_order.scan_best_max [OF s x] by simp
qed

lemma selectCandidate_score:
  assumes "selectCandidate alt scored = Some s" "\<not> sc_maximum_wait_exceeded s"
    and "x \<in> set scored" "eligible alt x"
  shows "\<not> betterScore x s"
proof -
  let ?late = "filter (\<lambda>i. eligible alt i \<and> sc_maximum_wait_exceeded i) scored"
  have "scan_best betterWait ?late = None"
    using assms(1,2) scan_best_mem [of betterWait ?late s]
    by (auto simp: selectCandidate_def split: option.splits)
  then have "scan_best betterScore (filter (eligible alt) scored) = Some s"
    using assms(1) by (simp add: selectCandidate_def)
  then show ?thesis using score_order.scan_best_max assms(3,4) by fastforce
qed

subsection \<open>What a RELEASE means\<close>

lemma makeDecision_sel [simp]:
  "dd_action (makeDecision a co r) = a"
  "dd_corridor_resource_id (makeDecision a co r) = co_corridor_resource_id co"
  "dd_corridor_id (makeDecision a co r) = co_corridor_id co"
  "dd_direction (makeDecision a co r) = co_direction co"
  "dd_reason (makeDecision a co r) = r"
  by (simp_all add: makeDecision_def)

text \<open>\<open>decide\<close> with its early returns folded into the hard constraints.\<close>

definition chosen :: "dynamic_priority_config \<Rightarrow> dispatch_context \<Rightarrow> scored_candidate option" where
  "chosen c ctx = (let scored = scoreCandidates c ctx (co_candidates (cx_corridor ctx))
     in selectCandidate (hasAlternativeLine ctx scored) scored)"

lemma decide_cases:
  "dd_action (decide c ctx) = RELEASE \<longleftrightarrow> hard_constraints c ctx \<and> chosen c ctx \<noteq> None"
  "dd_action (decide c ctx) = RELEASE \<Longrightarrow> chosen c ctx = Some s \<Longrightarrow>
     dd_train_id (decide c ctx) = dc_train_id (sc_candidate s) \<and>
     dd_line_id (decide c ctx) = dc_line_id (sc_candidate s) \<and>
     dd_reserved_intersection_movement_ids (decide c ctx) =
       dc_required_intersection_movement_ids (sc_candidate s) \<and>
     dd_score (decide c ctx) = sc_score s \<and> dd_breakdown (decide c ctx) = sc_breakdown s"
proof -
  let ?co = "cx_corridor ctx"
  have cap: "(co_capacity ?co = 0 \<or> co_capacity ?co \<le> co_occupancy ?co) \<longleftrightarrow>
      \<not> co_occupancy ?co < co_capacity ?co"
    by (auto simp: not_less)
  have hard: "hard_constraints c ctx \<longleftrightarrow>
    \<not> wallStateStale (co_received_at_wall_ms ?co) (cx_wall_now_ms ctx) (pc_telemetry_stale_wall_ms c) \<and>
    \<not> co_command_pending ?co \<and> co_downstream_available ?co \<and> co_occupancy ?co < co_capacity ?co \<and>
    \<not> (co_last_entry_simulation_ms ?co \<noteq> 0 \<and>
       elapsedSince (cx_simulation_now_ms ctx) (co_last_entry_simulation_ms ?co) < minimumHeadway c ?co)"
    by (auto simp: hard_constraints_def Let_def fresh_iff not_less)
  have none: "scoreCandidates c ctx (co_candidates ?co) = [] \<Longrightarrow> chosen c ctx = None"
    by (simp add: chosen_def selectCandidate_def)
  show "dd_action (decide c ctx) = RELEASE \<longleftrightarrow> hard_constraints c ctx \<and> chosen c ctx \<noteq> None"
    using none unfolding hard decide_def cap chosen_def Let_def
    by (simp split: option.split)
  then show "dd_action (decide c ctx) = RELEASE \<Longrightarrow> chosen c ctx = Some s \<Longrightarrow>
     dd_train_id (decide c ctx) = dc_train_id (sc_candidate s) \<and>
     dd_line_id (decide c ctx) = dc_line_id (sc_candidate s) \<and>
     dd_reserved_intersection_movement_ids (decide c ctx) =
       dc_required_intersection_movement_ids (sc_candidate s) \<and>
     dd_score (decide c ctx) = sc_score s \<and> dd_breakdown (decide c ctx) = sc_breakdown s"
    using none unfolding hard decide_def cap chosen_def Let_def by auto
qed

lemma decide_resource [simp]:
  "dd_corridor_resource_id (decide c ctx) = co_corridor_resource_id (cx_corridor ctx)"
  "dd_corridor_id (decide c ctx) = co_corridor_id (cx_corridor ctx)"
  "dd_direction (decide c ctx) = co_direction (cx_corridor ctx)"
  by (simp_all add: decide_def Let_def split: option.split)

subsection \<open>The contract of IDispatchPolicy\<close>

text \<open>
  What the dispatch manager relies on: a release names a waiting candidate of the corridor it
  was asked about and is only given to a corridor that is not waiting for an acknowledgement and
  has room.
\<close>

locale dispatch_policy =
  fixes policy_decide :: "dispatch_context \<Rightarrow> dispatch_decision"
  assumes policy_resource:
      "dd_corridor_resource_id (policy_decide ctx) = co_corridor_resource_id (cx_corridor ctx)"
    and policy_not_pending: "dd_action (policy_decide ctx) = RELEASE \<Longrightarrow>
      \<not> co_command_pending (cx_corridor ctx)"
    and policy_room: "dd_action (policy_decide ctx) = RELEASE \<Longrightarrow>
      co_occupancy (cx_corridor ctx) < co_capacity (cx_corridor ctx)"
    and policy_candidate: "dd_action (policy_decide ctx) = RELEASE \<Longrightarrow>
      \<exists>cand \<in> set (co_candidates (cx_corridor ctx)). dc_train_id cand = dd_train_id (policy_decide ctx) \<and>
        dc_line_id cand = dd_line_id (policy_decide ctx) \<and> dc_train_id cand \<noteq> [] \<and>
        dc_required_intersection_movement_ids cand =
          dd_reserved_intersection_movement_ids (policy_decide ctx)"
begin

lemma no_candidates_no_release:
  "co_candidates (cx_corridor ctx) = [] \<Longrightarrow> dd_action (policy_decide ctx) \<noteq> RELEASE"
  using policy_candidate by fastforce

lemma release_named: "dd_action (policy_decide ctx) = RELEASE \<Longrightarrow> dd_train_id (policy_decide ctx) \<noteq> []"
  using policy_candidate by fastforce

lemma all_candidates_release:
  "dd_action (policy_decide ctx) = RELEASE \<Longrightarrow>
   (\<And>cand. cand \<in> set (co_candidates (cx_corridor ctx)) \<Longrightarrow>
      P (dc_required_intersection_movement_ids cand)) \<Longrightarrow>
   P (dd_reserved_intersection_movement_ids (policy_decide ctx))"
  using policy_candidate by metis

end

lemma chosen_mem:
  assumes "chosen c ctx = Some s"
  shows "\<exists>cand line. feasible c ctx cand \<and> um_find (cx_lines ctx) (dc_line_id cand) = Some line \<and>
    s = scoreCandidate c ctx cand line"
  using selectCandidate_mem [OF assms [unfolded chosen_def Let_def]] set_scoreCandidates by blast

lemma feasible_line: "feasible c ctx cand \<Longrightarrow> \<exists>line. um_find (cx_lines ctx) (dc_line_id cand) = Some line"
  by (auto simp: feasible_def)

lemma bex_scoreCandidates:
  "(\<exists>s \<in> set (scoreCandidates c ctx (co_candidates (cx_corridor ctx))). P s) \<longleftrightarrow>
     (\<exists>cand line. feasible c ctx cand \<and> um_find (cx_lines ctx) (dc_line_id cand) = Some line \<and>
        P (scoreCandidate c ctx cand line))"
  unfolding set_scoreCandidates by blast

lemma hasAlternative_iff:
  "hasAlternativeLine ctx (scoreCandidates c ctx (co_candidates (cx_corridor ctx))) \<longleftrightarrow>
     (\<exists>a. feasible c ctx a \<and> dc_line_id a \<noteq> cx_last_released_line_id ctx)"
  unfolding hasAlternativeLine_def list_ex_iff bex_scoreCandidates using feasible_line by auto

lemma chosen_some: "chosen c ctx \<noteq> None \<longleftrightarrow>
  (let scored = scoreCandidates c ctx (co_candidates (cx_corridor ctx))
   in \<exists>s \<in> set scored. eligible (hasAlternativeLine ctx scored) s)"
  by (auto simp: chosen_def selectCandidate_None Let_def)

lemma eligible_iff:
  "feasible c ctx cand \<Longrightarrow> eligible (hasAlternativeLine ctx
       (scoreCandidates c ctx (co_candidates (cx_corridor ctx)))) (scoreCandidate c ctx cand line) \<longleftrightarrow>
     pc_maximum_wait_ms c \<le> waited ctx cand \<or>
     \<not> (at_limit c ctx cand \<and> (\<exists>a. feasible c ctx a \<and> dc_line_id a \<noteq> cx_last_released_line_id ctx))"
  unfolding eligible_def hasAlternative_iff by (simp add: scoreCandidate_wait)

interpretation dp: dispatch_policy "decide c" for c
proof
  fix ctx
  assume "dd_action (decide c ctx) = RELEASE"
  then obtain s where s: "chosen c ctx = Some s" and hard: "hard_constraints c ctx"
    and fields: "dd_train_id (decide c ctx) = dc_train_id (sc_candidate s)"
      "dd_line_id (decide c ctx) = dc_line_id (sc_candidate s)"
      "dd_reserved_intersection_movement_ids (decide c ctx) =
         dc_required_intersection_movement_ids (sc_candidate s)"
    using decide_cases [of c ctx] by auto
  from hard show "\<not> co_command_pending (cx_corridor ctx)"
    "co_occupancy (cx_corridor ctx) < co_capacity (cx_corridor ctx)"
    by (simp_all add: hard_constraints_def Let_def)
  show "\<exists>cand \<in> set (co_candidates (cx_corridor ctx)). dc_train_id cand = dd_train_id (decide c ctx) \<and>
        dc_line_id cand = dd_line_id (decide c ctx) \<and> dc_train_id cand \<noteq> [] \<and>
        dc_required_intersection_movement_ids cand = dd_reserved_intersection_movement_ids (decide c ctx)"
    using chosen_mem [OF s] fields by (auto simp: feasible_def candidateSkipped_def)
qed simp

lemmas policy_eval = decide_def candidateSkipped_def wallStateStale_def elapsedSince_def
  scoreCandidate_def Let_def hasAlternativeLine_def selectCandidate_def scan_best_def
  minimumHeadway_def eligible_def betterScore_def betterWait_def makeDecision_def default_decision_def
  feasible_def waited_def at_limit_def double_simps

subsection \<open>Properties\<close>

text \<open>
  A corridor with three waiting trains, for the witnesses; the weights and times are sums of few
  powers of two, so that the scores are cheap to evaluate in the kernel.
\<close>

definition demo_config :: dynamic_priority_config where
  "demo_config = \<lparr>pc_default_corridor_minimum_headway_ms = 5000, pc_maximum_wait_ms = 16384,
     pc_telemetry_stale_wall_ms = 1500, pc_max_consecutive_release = 2,
     pc_headway_urgency_weight = Fin (1 / 2), pc_waiting_time_weight = Fin (1 / 4),
     pc_fairness_credit_weight = Fin (1 / 4), pc_global_plan_weight = Fin (1 / 4),
     pc_consecutive_penalty_weight = Fin (1 / 4)\<rparr>"

definition demo_candidate :: "string \<Rightarrow> string \<Rightarrow> u64 \<Rightarrow> dispatch_candidate" where
  "demo_candidate train line arrived = \<lparr>dc_train_id = train, dc_line_id = line,
     dc_corridor_direction = FORWARD, dc_corridor_resource_id = ''c:F'',
     dc_required_intersection_movement_ids = [], dc_route_index = 0, dc_route_position = 0,
     dc_arrived_at_simulation_ms = arrived, dc_received_at_wall_ms = 500,
     dc_predicted_arrival_simulation_ms = arrived, dc_rolling_plan_rank = 0,
     dc_global_plan_priority = 0\<rparr>"

definition demo_corridor :: "dispatch_candidate list \<Rightarrow> shared_corridor_state" where
  "demo_corridor cands = \<lparr>co_corridor_resource_id = ''c:F'', co_corridor_id = ''c'',
     co_direction = FORWARD, co_received_at_wall_ms = 500, co_last_entry_simulation_ms = 0,
     co_minimum_headway_ms = 5000, co_occupancy = 0, co_capacity = 8,
     co_downstream_available = True, co_command_pending = False, co_candidates = cands\<rparr>"

definition demo_context :: "u64 \<Rightarrow> dispatch_context" where
  "demo_context now = \<lparr>cx_corridor = demo_corridor
       [demo_candidate ''T1'' ''A'' 1808, demo_candidate ''T2'' ''B'' 5904,
        demo_candidate ''T3'' ''B'' 7952],
     cx_lines = [(''A'', default_line_dispatch_state), (''B'', default_line_dispatch_state)],
     cx_last_released_line_id = ''B'', cx_consecutive_release_count = 2,
     cx_simulation_now_ms = now, cx_wall_now_ms = 1000\<rparr>"

lemmas demo_policy_defs = demo_config_def demo_context_def demo_corridor_def demo_candidate_def
  default_line_dispatch_state_def

text \<open>C23: a train is released exactly when every hard constraint holds (fresh corridor state, no
  unacknowledged command, downstream free, room, minimum headway) and some feasible candidate
  has either waited beyond the limit or is not held back by the consecutive-release rule.\<close>

theorem decide_releases_iff:
  "dd_action (decide c ctx) = RELEASE \<longleftrightarrow> hard_constraints c ctx \<and>
     (\<exists>cand. feasible c ctx cand \<and> (pc_maximum_wait_ms c \<le> waited ctx cand \<or>
        \<not> (at_limit c ctx cand \<and> (\<exists>a. feasible c ctx a \<and> dc_line_id a \<noteq> cx_last_released_line_id ctx))))"
proof -
  have "chosen c ctx \<noteq> None \<longleftrightarrow> (\<exists>cand. feasible c ctx cand \<and>
      (pc_maximum_wait_ms c \<le> waited ctx cand \<or> \<not> (at_limit c ctx cand \<and>
         (\<exists>a. feasible c ctx a \<and> dc_line_id a \<noteq> cx_last_released_line_id ctx))))"
    unfolding chosen_some Let_def bex_scoreCandidates using eligible_iff feasible_line by blast
  then show ?thesis unfolding decide_cases(1) by blast
qed

lemma decide_releases_iff_witness:
  "hard_constraints demo_config (demo_context 30000) \<and>
   (\<exists>cand. feasible demo_config (demo_context 30000) cand)"
proof -
  have "dd_action (decide demo_config (demo_context 30000)) = RELEASE"
    by (simp add: policy_eval demo_policy_defs)
  then show ?thesis using decide_releases_iff [of demo_config "demo_context 30000"] by blast
qed

text \<open>C12: anti-starvation. If some feasible candidate has waited at least the maximum wait when a
  train is released, then the released train is a feasible candidate that has itself waited
  beyond the limit and at least as long as every other feasible candidate.\<close>

theorem decide_no_starvation:
  assumes "dd_action (decide c ctx) = RELEASE"
    and "feasible c ctx late" and "pc_maximum_wait_ms c \<le> waited ctx late"
  shows "\<exists>cand. feasible c ctx cand \<and> dd_train_id (decide c ctx) = dc_train_id cand \<and>
    dd_line_id (decide c ctx) = dc_line_id cand \<and> pc_maximum_wait_ms c \<le> waited ctx cand \<and>
    (\<forall>x. feasible c ctx x \<longrightarrow> waited ctx x \<le> waited ctx cand)"
proof -
  obtain s where s: "chosen c ctx = Some s" using decide_cases(1) assms(1) by blast
  obtain cand line where cand: "feasible c ctx cand" "s = scoreCandidate c ctx cand line"
    using chosen_mem [OF s] by blast
  note sel = s [unfolded chosen_def Let_def]
  have beyond: "pc_maximum_wait_ms c \<le> waited ctx cand \<and> waited ctx x \<le> waited ctx cand"
    if x: "feasible c ctx x" "pc_maximum_wait_ms c \<le> waited ctx x" for x
  proof -
    obtain l where l: "um_find (cx_lines ctx) (dc_line_id x) = Some l"
      using x(1) by (auto simp: feasible_def)
    then have "scoreCandidate c ctx x l \<in> set (scoreCandidates c ctx (co_candidates (cx_corridor ctx)))"
      using x(1) unfolding set_scoreCandidates by blast
    from selectCandidate_wait [OF sel this] show ?thesis
      using x cand by (simp add: scoreCandidate_wait betterWait_def not_less)
  qed
  have "waited ctx x \<le> waited ctx cand" if "feasible c ctx x" for x
    using beyond [OF that] beyond [OF assms(2,3)] by (meson le_cases order_trans)
  then show ?thesis
    using beyond [OF assms(2,3)] cand decide_cases(2) [OF assms(1) s] by auto
qed

lemma decide_no_starvation_witness:
  "\<exists>cand. feasible demo_config (demo_context 30000) cand \<and>
     dd_train_id (decide demo_config (demo_context 30000)) = dc_train_id cand \<and>
     16384 \<le> waited (demo_context 30000) cand"
proof -
  have "dd_action (decide demo_config (demo_context 30000)) = RELEASE"
    by (simp add: policy_eval demo_policy_defs)
  moreover have "feasible demo_config (demo_context 30000) (demo_candidate ''T2'' ''B'' 5904)"
    and "pc_maximum_wait_ms demo_config \<le> waited (demo_context 30000) (demo_candidate ''T2'' ''B'' 5904)"
    by (simp_all add: policy_eval demo_policy_defs)
  ultimately show ?thesis
    using decide_no_starvation [of demo_config "demo_context 30000"] by (fastforce simp: demo_config_def)
qed

text \<open>When nobody has waited too long the dynamic priority decides. No feasible candidate that
  the consecutive-release rule admits has a greater score than the released one; at equal score
  none has waited longer, and at equal score and wait none has a smaller train id. Scores are
  IEEE doubles, so this includes NaN.\<close>

theorem decide_highest_priority:
  assumes "dd_action (decide c ctx) = RELEASE"
    and "\<And>x. feasible c ctx x \<Longrightarrow> waited ctx x < pc_maximum_wait_ms c"
  shows "\<exists>cand line. feasible c ctx cand \<and> um_find (cx_lines ctx) (dc_line_id cand) = Some line \<and>
    dd_train_id (decide c ctx) = dc_train_id cand \<and>
    dd_score (decide c ctx) = sc_score (scoreCandidate c ctx cand line) \<and>
    (\<forall>x l. feasible c ctx x \<longrightarrow> um_find (cx_lines ctx) (dc_line_id x) = Some l \<longrightarrow>
       \<not> (at_limit c ctx x \<and> (\<exists>a. feasible c ctx a \<and> dc_line_id a \<noteq> cx_last_released_line_id ctx)) \<longrightarrow>
       \<not> dd_score (decide c ctx) < sc_score (scoreCandidate c ctx x l) \<and>
       (deq (sc_score (scoreCandidate c ctx x l)) (dd_score (decide c ctx)) \<longrightarrow>
          waited ctx x \<le> waited ctx cand \<and>
          (waited ctx x = waited ctx cand \<longrightarrow> dc_train_id cand \<le> dc_train_id x)))"
proof -
  obtain s where s: "chosen c ctx = Some s" using decide_cases(1) assms(1) by blast
  obtain cand line where cand: "feasible c ctx cand" "s = scoreCandidate c ctx cand line"
    "um_find (cx_lines ctx) (dc_line_id cand) = Some line"
    using chosen_mem [OF s] by blast
  note sel = s [unfolded chosen_def Let_def]
  have score: "dd_score (decide c ctx) = sc_score s" using decide_cases(2) [OF assms(1) s] by simp
  have notlate: "\<not> sc_maximum_wait_exceeded s"
    using assms(2) [OF cand(1)] cand by (simp add: scoreCandidate_wait not_le)
  have best: "\<not> betterScore (scoreCandidate c ctx x l) s"
    if "feasible c ctx x" "um_find (cx_lines ctx) (dc_line_id x) = Some l"
      "\<not> (at_limit c ctx x \<and> (\<exists>a. feasible c ctx a \<and> dc_line_id a \<noteq> cx_last_released_line_id ctx))"
    for x l
  proof (rule selectCandidate_score [OF sel notlate])
    show "scoreCandidate c ctx x l \<in> set (scoreCandidates c ctx (co_candidates (cx_corridor ctx)))"
      using that(1,2) unfolding set_scoreCandidates by blast
  qed (use eligible_iff [OF that(1)] that(3) in blast)
  have wait: "sc_waiting_ms s = waited ctx cand" using cand by (simp add: scoreCandidate_wait)
  have "\<not> sc_score s < sc_score (scoreCandidate c ctx x l) \<and>
      (deq (sc_score (scoreCandidate c ctx x l)) (sc_score s) \<longrightarrow> waited ctx x \<le> waited ctx cand \<and>
        (waited ctx x = waited ctx cand \<longrightarrow> dc_train_id cand \<le> dc_train_id x))"
    if "feasible c ctx x" "um_find (cx_lines ctx) (dc_line_id x) = Some l"
      "\<not> (at_limit c ctx x \<and> (\<exists>a. feasible c ctx a \<and> dc_line_id a \<noteq> cx_last_released_line_id ctx))"
    for x l
    using best [OF that] that(1) cand(2) wait
    by (auto simp: betterScore_def scoreCandidate_wait not_less)
  then show ?thesis using cand decide_cases(2) [OF assms(1) s] unfolding score by auto
qed

lemma decide_highest_priority_witness:
  "\<exists>cand line. feasible demo_config (demo_context 10000) cand \<and>
     dd_train_id (decide demo_config (demo_context 10000)) = dc_train_id cand \<and>
     dd_score (decide demo_config (demo_context 10000)) =
       sc_score (scoreCandidate demo_config (demo_context 10000) cand line)"
proof -
  have "dd_action (decide demo_config (demo_context 10000)) = RELEASE"
    by (simp add: policy_eval demo_policy_defs)
  moreover have "waited (demo_context 10000) x < pc_maximum_wait_ms demo_config"
    if "feasible demo_config (demo_context 10000) x" for x
    using that by (auto simp: feasible_def waited_def demo_policy_defs)
  ultimately show ?thesis using decide_highest_priority [of demo_config "demo_context 10000"] by blast
qed

text \<open>The consecutive-release limit. A line that has used up its consecutive releases is released
  again only for a train beyond the maximum wait or when no other line has a feasible candidate.\<close>

theorem decide_respects_consecutive_limit:
  assumes "dd_action (decide c ctx) = RELEASE"
    and "dd_line_id (decide c ctx) = cx_last_released_line_id ctx"
    and "0 < pc_max_consecutive_release c"
    and "pc_max_consecutive_release c \<le> cx_consecutive_release_count ctx"
  shows "(\<forall>a. feasible c ctx a \<longrightarrow> dc_line_id a = cx_last_released_line_id ctx) \<or>
    (\<exists>cand. feasible c ctx cand \<and> dd_train_id (decide c ctx) = dc_train_id cand \<and>
       pc_maximum_wait_ms c \<le> waited ctx cand)"
proof -
  obtain s where s: "chosen c ctx = Some s" using decide_cases(1) assms(1) by blast
  obtain cand line where cand: "feasible c ctx cand" "s = scoreCandidate c ctx cand line"
    using chosen_mem [OF s] by blast
  have "at_limit c ctx cand"
    using assms(2-4) cand decide_cases(2) [OF assms(1) s] by (simp add: at_limit_def)
  then show ?thesis
    using selectCandidate_mem [OF s [unfolded chosen_def Let_def]] cand
      decide_cases(2) [OF assms(1) s] by (auto simp: eligible_iff)
qed

lemma decide_respects_consecutive_limit_witness:
  "\<exists>cand. feasible demo_config (demo_context 30000\<lparr>cx_last_released_line_id := ''A''\<rparr>) cand \<and>
     16384 \<le> waited (demo_context 30000\<lparr>cx_last_released_line_id := ''A''\<rparr>) cand"
proof -
  let ?ctx = "demo_context 30000\<lparr>cx_last_released_line_id := ''A''\<rparr>"
  have "dd_action (decide demo_config ?ctx) = RELEASE"
    and "dd_line_id (decide demo_config ?ctx) = cx_last_released_line_id ?ctx"
    and "0 < pc_max_consecutive_release demo_config"
    and "pc_max_consecutive_release demo_config \<le> cx_consecutive_release_count ?ctx"
    by (simp_all add: policy_eval demo_policy_defs)
  moreover have "feasible demo_config ?ctx (demo_candidate ''T2'' ''B'' 5904)"
    "dc_line_id (demo_candidate ''T2'' ''B'' 5904) \<noteq> cx_last_released_line_id ?ctx"
    by (simp_all add: policy_eval demo_policy_defs)
  ultimately show ?thesis
    using decide_respects_consecutive_limit [of demo_config ?ctx] by (fastforce simp: demo_config_def)
qed

end
