(* ===== verification/Manager.thy ===== *)
theory Manager
  imports Policy Reservation
begin

text \<open>
  \<open>DispatchManager\<close> (server/include/DispatchManager.h, server/src/DispatchManager.cpp): the runtime
  state of the shared corridors and the life cycle of a release. \<open>planNext\<close> filters the waiting
  candidates by the intersection bookings, asks the policy, books the movements of the chosen
  train and leaves the resource waiting for an acknowledgement; \<open>confirmEntry\<close> and
  \<open>cancelPending\<close> end that wait. One definition per method; then the invariant \<open>dm_inv\<close> of the
  reachable states (capacity, consistency of the pending commands, interlock of the two
  directions of one track, range of the fairness credits) and the effect of each operation.

  The two directions of a track are two resources with the same \<open>corridor_id\<close>.
\<close>

subsection \<open>State\<close>

record dispatch_manager_config =
  mc_priority :: dynamic_priority_config
  mc_default_intersection_clearance_ms :: u64
  mc_default_corridor_capacity :: size_t

record dispatch_manager =
  dm_policy :: dynamic_priority_config
  dm_reservations :: reservation_manager
  dm_default_corridor_capacity :: size_t
  dm_corridors :: "(string, shared_corridor_state) umap"
  dm_line_states :: "(string, (string, line_dispatch_state) umap) umap"
  dm_last_released_line :: "(string, string) umap"
  dm_consecutive_release_count :: "(string, size_t) umap"
  dm_pending_decisions :: "(string, dispatch_decision) umap"

text \<open>The constructor; \<open>Inl\<close> is the text of the \<open>std::invalid_argument\<close> it throws.\<close>

definition new_dispatch_manager :: "dispatch_manager_config \<Rightarrow> string + dispatch_manager" where
  "new_dispatch_manager c = (case new_dynamic_priority_policy (mc_priority c) of
     Inl e \<Rightarrow> Inl e
   | Inr policy \<Rightarrow>
       if mc_default_intersection_clearance_ms c = 0 \<or> mc_default_corridor_capacity c = 0
       then Inl ''dispatch resource defaults must be greater than zero''
       else Inr \<lparr>dm_policy = policy,
              dm_reservations = new_reservation_manager (mc_default_intersection_clearance_ms c),
              dm_default_corridor_capacity = mc_default_corridor_capacity c,
              dm_corridors = [], dm_line_states = [], dm_last_released_line = [],
              dm_consecutive_release_count = [], dm_pending_decisions = []\<rparr>)"

subsection \<open>Registration and refresh\<close>

definition registerIntersectionMovement ::
    "dispatch_manager \<Rightarrow> line_intersection_movement \<Rightarrow> bool \<times> dispatch_manager" where
  "registerIntersectionMovement m mv =
     (let (ok, r) = registerMovement (dm_reservations m) mv in (ok, m\<lparr>dm_reservations := r\<rparr>))"

definition upsertCorridor :: "dispatch_manager \<Rightarrow> shared_corridor_state \<Rightarrow> dispatch_manager" where
  "upsertCorridor m co =
     (if co_corridor_resource_id co = [] then m
      else let u1 = (case um_find (dm_corridors m) (co_corridor_resource_id co) of
              None \<Rightarrow> co
            | Some e \<Rightarrow> co\<lparr>co_command_pending := co_command_pending e,
                co_last_entry_simulation_ms :=
                  max (co_last_entry_simulation_ms co) (co_last_entry_simulation_ms e)\<rparr>);
            u2 = (if co_minimum_headway_ms u1 = 0
              then u1\<lparr>co_minimum_headway_ms := pc_default_corridor_minimum_headway_ms (dm_policy m)\<rparr>
              else u1);
            u3 = (if co_capacity u2 = 0 then u2\<lparr>co_capacity := dm_default_corridor_capacity m\<rparr>
              else u2)
        in m\<lparr>dm_corridors := um_put (co_corridor_resource_id co) u3 (dm_corridors m)\<rparr>)"

definition upsertLineState ::
    "dispatch_manager \<Rightarrow> string \<Rightarrow> string \<Rightarrow> line_dispatch_state \<Rightarrow> dispatch_manager" where
  "upsertLineState m rid line_id st =
     (if rid = [] \<or> line_id = [] \<or> ld_target_headway_ms st = 0 then m
      else m\<lparr>dm_line_states :=
             um_put rid (um_put line_id st (um_at [] rid (dm_line_states m))) (dm_line_states m)\<rparr>)"

definition replaceCandidates ::
    "dispatch_manager \<Rightarrow> string \<Rightarrow> dispatch_candidate list \<Rightarrow> u64 \<Rightarrow> bool \<times> dispatch_manager" where
  "replaceCandidates m rid cands received =
     (case um_find (dm_corridors m) rid of
        None \<Rightarrow> (False, m)
      | Some co \<Rightarrow> (True, m\<lparr>dm_corridors := um_put rid
          (co\<lparr>co_candidates := cands, co_received_at_wall_ms := received\<rparr>) (dm_corridors m)\<rparr>))"

definition updateLineCredit :: "u64 \<Rightarrow> line_dispatch_state \<Rightarrow> line_dispatch_state" where
  "updateLineCredit now line =
     (if ld_last_credit_update_simulation_ms line = 0 \<or> now < ld_last_credit_update_simulation_ms line
      then line\<lparr>ld_last_credit_update_simulation_ms := now\<rparr>
      else let elapsed = now - ld_last_credit_update_simulation_ms line
        in line\<lparr>ld_fairness_credit := cpp_min (Fin 3) (ld_fairness_credit line +
                  double_of_u64 elapsed / double_of_u64 (ld_target_headway_ms line)),
                ld_last_credit_update_simulation_ms := now\<rparr>)"

definition updateFairnessCreditsLocked ::
    "dispatch_manager \<Rightarrow> string \<Rightarrow> u64 \<Rightarrow> dispatch_manager" where
  "updateFairnessCreditsLocked m rid now =
     (case um_find (dm_line_states m) rid of
        None \<Rightarrow> m
      | Some lines \<Rightarrow> m\<lparr>dm_line_states := um_put rid
          (map (\<lambda>(l, st). (l, updateLineCredit now st)) lines) (dm_line_states m)\<rparr>)"

subsection \<open>planNext\<close>

definition corridor_busy :: "shared_corridor_state \<Rightarrow> bool" where
  "corridor_busy co \<longleftrightarrow> 0 < co_occupancy co \<or> co_command_pending co"

text \<open>The loop over the other resources of the same track.\<close>

definition find_opposing ::
    "dispatch_manager \<Rightarrow> string \<Rightarrow> shared_corridor_state \<Rightarrow> (string \<times> shared_corridor_state) option" where
  "find_opposing m rid co = List.find (\<lambda>(k, c). \<not> (k = rid \<or> co_corridor_id c \<noteq> co_corridor_id co) \<and>
     corridor_busy c) (dm_corridors m)"

text \<open>The \<open>remove_if\<close> over the candidates; \<open>reason\<close> is the captured \<open>intersection_reason\<close>.\<close>

fun intersectionFilter ::
    "reservation_manager \<Rightarrow> u64 \<Rightarrow> string \<Rightarrow> dispatch_candidate list \<Rightarrow>
     string \<times> dispatch_candidate list" where
  "intersectionFilter r now reason [] = (reason, [])"
| "intersectionFilter r now reason (c # cs) =
     (case canReserve r (dc_required_intersection_movement_ids c) now of
        Inr _ \<Rightarrow> (let (reason', kept) = intersectionFilter r now reason cs in (reason', c # kept))
      | Inl e \<Rightarrow> intersectionFilter r now e cs)"

definition planContext ::
    "dispatch_manager \<Rightarrow> string \<Rightarrow> shared_corridor_state \<Rightarrow> u64 \<Rightarrow> u64 \<Rightarrow> dispatch_context" where
  "planContext m rid co now wall = \<lparr>cx_corridor = co, cx_lines = um_at [] rid (dm_line_states m),
     cx_last_released_line_id = um_at [] rid (dm_last_released_line m),
     cx_consecutive_release_count = um_at 0 rid (dm_consecutive_release_count m),
     cx_simulation_now_ms = now, cx_wall_now_ms = wall\<rparr>"

text \<open>The three \<open>operator[]\<close> reads create an empty entry when there is none.\<close>

definition planPrepare :: "dispatch_manager \<Rightarrow> string \<Rightarrow> u64 \<Rightarrow> dispatch_manager" where
  "planPrepare m rid now = (let m1 = updateFairnessCreditsLocked m rid now in
     m1\<lparr>dm_line_states := um_try_emplace rid [] (dm_line_states m1),
        dm_last_released_line := um_try_emplace rid [] (dm_last_released_line m1),
        dm_consecutive_release_count := um_try_emplace rid 0 (dm_consecutive_release_count m1)\<rparr>)"

definition planNext ::
    "dispatch_manager \<Rightarrow> string \<Rightarrow> u64 \<Rightarrow> u64 \<Rightarrow> dispatch_decision \<times> dispatch_manager" where
  "planNext m0 rid now wall = (case um_find (dm_corridors m0) rid of
     None \<Rightarrow> (default_decision\<lparr>dd_reason := ''unknown_shared_corridor_resource''\<rparr>, m0)
   | Some co \<Rightarrow>
     let m = planPrepare m0 rid now; ctx = planContext m rid co now wall in
     case find_opposing m rid co of
       Some (_, opp) \<Rightarrow> (default_decision\<lparr>
           dd_action := (if co_candidates co = [] then NO_ACTION else HOLD_ALL),
           dd_corridor_resource_id := rid, dd_corridor_id := co_corridor_id co,
           dd_direction := co_direction co,
           dd_reason := (if 0 < co_occupancy opp then ''opposing_direction_occupied''
             else ''opposing_direction_pending'')\<rparr>, m)
     | None \<Rightarrow>
       let (reason, kept) = intersectionFilter (dm_reservations m) now [] (co_candidates co) in
       if co_candidates co \<noteq> [] \<and> kept = [] then
         (default_decision\<lparr>dd_action := HOLD_ALL,
            dd_corridor_resource_id := co_corridor_resource_id co,
            dd_corridor_id := co_corridor_id co, dd_direction := co_direction co,
            dd_reason := (if reason = [] then ''line_intersection_conflict'' else reason)\<rparr>, m)
       else
         let d = decide (dm_policy m) (ctx\<lparr>cx_corridor := co\<lparr>co_candidates := kept\<rparr>\<rparr>) in
         if dd_action d \<noteq> RELEASE then (d, m)
         else case tryReserveAtomically (dm_reservations m) (dd_train_id d)
                     (dd_reserved_intersection_movement_ids d) now of
           Inl e \<Rightarrow> (d\<lparr>dd_action := HOLD_ALL,
               dd_reason := (if e = [] then ''line_intersection_reservation_failed'' else e),
               dd_train_id := [], dd_line_id := [],
               dd_reserved_intersection_movement_ids := []\<rparr>, m)
         | Inr r \<Rightarrow> (d, m\<lparr>dm_reservations := r,
               dm_corridors := um_put rid (co\<lparr>co_command_pending := True\<rparr>) (dm_corridors m),
               dm_pending_decisions := um_put rid d (dm_pending_decisions m)\<rparr>))"

subsection \<open>The end of a command\<close>

definition confirmedCorridor ::
    "shared_corridor_state \<Rightarrow> string \<Rightarrow> u64 \<Rightarrow> shared_corridor_state" where
  "confirmedCorridor co train now = co\<lparr>co_command_pending := False,
     co_last_entry_simulation_ms := now,
     co_occupancy := (if co_occupancy co < co_capacity co then co_occupancy co + 1
       else co_occupancy co),
     co_candidates := filter (\<lambda>c. dc_train_id c \<noteq> train) (co_candidates co)\<rparr>"

definition confirmedLine :: "line_dispatch_state \<Rightarrow> u64 \<Rightarrow> line_dispatch_state" where
  "confirmedLine line now = line\<lparr>ld_last_release_simulation_ms := now,
     ld_last_credit_update_simulation_ms := now,
     ld_fairness_credit := cpp_max 0 (ld_fairness_credit line - 1)\<rparr>"

definition confirmEntry ::
    "dispatch_manager \<Rightarrow> string \<Rightarrow> string \<Rightarrow> u64 \<Rightarrow> bool \<times> dispatch_manager" where
  "confirmEntry m rid train now =
     (case (um_find (dm_pending_decisions m) rid, um_find (dm_corridors m) rid) of
        (Some d, Some co) \<Rightarrow>
          if dd_train_id d \<noteq> train then (False, m)
          else
            let lines = um_at [] rid (dm_line_states m);
                line = confirmedLine (um_at default_line_dispatch_state (dd_line_id d) lines) now;
                last = um_at [] rid (dm_last_released_line m);
                count = um_at 0 rid (dm_consecutive_release_count m)
            in (True, m\<lparr>dm_corridors := um_put rid (confirmedCorridor co train now) (dm_corridors m),
                 dm_line_states := um_put rid (um_put (dd_line_id d) line lines) (dm_line_states m),
                 dm_last_released_line := um_put rid (dd_line_id d) (dm_last_released_line m),
                 dm_consecutive_release_count :=
                   um_put rid (if last = dd_line_id d then count + 1 else 1)
                     (dm_consecutive_release_count m),
                 dm_pending_decisions := um_erase rid (dm_pending_decisions m)\<rparr>)
      | _ \<Rightarrow> (False, m))"

definition clearPendingFlag :: "dispatch_manager \<Rightarrow> string \<Rightarrow> dispatch_manager" where
  "clearPendingFlag m rid = (case um_find (dm_corridors m) rid of
     None \<Rightarrow> m
   | Some co \<Rightarrow> m\<lparr>dm_corridors := um_put rid (co\<lparr>co_command_pending := False\<rparr>) (dm_corridors m)\<rparr>)"

definition cancelPending :: "dispatch_manager \<Rightarrow> string \<Rightarrow> bool \<times> dispatch_manager" where
  "cancelPending m rid = (case um_find (dm_pending_decisions m) rid of
     None \<Rightarrow> (False, m)
   | Some d \<Rightarrow>
       let m1 = m\<lparr>dm_reservations := cancelTrain (dm_reservations m) (dd_train_id d)\<rparr>;
           m2 = clearPendingFlag m1 rid
       in (True, m2\<lparr>dm_pending_decisions := um_erase rid (dm_pending_decisions m2)\<rparr>))"

subsection \<open>Recovery after a restart, exits and queries\<close>

definition opposing_is_busy :: "dispatch_manager \<Rightarrow> string \<Rightarrow> shared_corridor_state \<Rightarrow> bool" where
  "opposing_is_busy m rid co \<longleftrightarrow> list_ex (\<lambda>(k, c). k \<noteq> rid \<and> co_corridor_id c = co_corridor_id co \<and>
     corridor_busy c) (dm_corridors m)"

definition restorePending :: "dispatch_manager \<Rightarrow> dispatch_decision \<Rightarrow> string + dispatch_manager" where
  "restorePending m d = (case um_find (dm_corridors m) (dd_corridor_resource_id d) of
     None \<Rightarrow> Inl ''unknown_or_busy_corridor''
   | Some co \<Rightarrow>
       if co_command_pending co then Inl ''unknown_or_busy_corridor''
       else if opposing_is_busy m (dd_corridor_resource_id d) co then Inl ''opposing_direction_busy''
       else case tryReserveAtomically (dm_reservations m) (dd_train_id d)
                   (dd_reserved_intersection_movement_ids d) (dd_issued_at_simulation_ms d) of
         Inl e \<Rightarrow> Inl e
       | Inr r \<Rightarrow> Inr (m\<lparr>dm_reservations := r,
             dm_corridors := um_put (dd_corridor_resource_id d) (co\<lparr>co_command_pending := True\<rparr>)
               (dm_corridors m),
             dm_pending_decisions :=
               um_put (dd_corridor_resource_id d) d (dm_pending_decisions m)\<rparr>))"

definition restoreActive :: "dispatch_manager \<Rightarrow> dispatch_decision \<Rightarrow> string + dispatch_manager" where
  "restoreActive m d = (case um_find (dm_corridors m) (dd_corridor_resource_id d) of
     None \<Rightarrow> Inl ''unknown_corridor''
   | Some co \<Rightarrow>
       if opposing_is_busy m (dd_corridor_resource_id d) co then Inl ''opposing_direction_busy''
       else case tryReserveAtomically (dm_reservations m) (dd_train_id d)
                   (dd_reserved_intersection_movement_ids d) (dd_issued_at_simulation_ms d) of
         Inl e \<Rightarrow> Inl e
       | Inr r \<Rightarrow> Inr (m\<lparr>dm_reservations := r,
             dm_corridors := um_put (dd_corridor_resource_id d)
               (co\<lparr>co_occupancy := (if co_occupancy co < co_capacity co then co_occupancy co + 1
                     else co_occupancy co),
                   co_last_entry_simulation_ms := max (co_last_entry_simulation_ms co)
                     (dd_issued_at_simulation_ms d)\<rparr>) (dm_corridors m)\<rparr>))"

definition markCorridorExited :: "dispatch_manager \<Rightarrow> string \<Rightarrow> bool \<times> dispatch_manager" where
  "markCorridorExited m rid = (case um_find (dm_corridors m) rid of
     None \<Rightarrow> (False, m)
   | Some co \<Rightarrow>
       if co_occupancy co = 0 then (False, m)
       else (True, m\<lparr>dm_corridors := um_put rid (co\<lparr>co_occupancy := co_occupancy co - 1\<rparr>)
              (dm_corridors m)\<rparr>))"

definition markIntersectionCleared ::
    "dispatch_manager \<Rightarrow> string \<Rightarrow> string \<Rightarrow> u64 \<Rightarrow> bool \<times> dispatch_manager" where
  "markIntersectionCleared m i train now =
     (let (ok, r) = markCleared (dm_reservations m) i train now in (ok, m\<lparr>dm_reservations := r\<rparr>))"

definition corridorState :: "dispatch_manager \<Rightarrow> string \<Rightarrow> shared_corridor_state option" where
  "corridorState m rid = um_find (dm_corridors m) rid"

definition activeIntersectionReservations :: "dispatch_manager \<Rightarrow> intersection_reservation list" where
  "activeIntersectionReservations m = activeReservations (dm_reservations m)"

subsection \<open>The invariant\<close>

text \<open>
  The parts of the invariant are predicates on the lookup functions of the maps, so that each
  update of a map is a function update in the proofs.
\<close>

type_synonym corridor_map = "string \<Rightarrow> shared_corridor_state option"

definition corridors_ok :: "corridor_map \<Rightarrow> bool" where
  "corridors_ok C \<longleftrightarrow> (\<forall>r co. C r = Some co \<longrightarrow>
     r \<noteq> [] \<and> co_corridor_resource_id co = r \<and> co_occupancy co \<le> co_capacity co)"

definition pending_ok :: "corridor_map \<Rightarrow> (string \<Rightarrow> dispatch_decision option) \<Rightarrow> bool" where
  "pending_ok C P \<longleftrightarrow> (\<forall>r. P r \<noteq> None \<longleftrightarrow> (\<exists>co. C r = Some co \<and> co_command_pending co))"

definition no_opposing :: "corridor_map \<Rightarrow> string \<Rightarrow> string \<Rightarrow> bool" where
  "no_opposing C r cid \<longleftrightarrow>
     (\<forall>k c. C k = Some c \<longrightarrow> k \<noteq> r \<longrightarrow> co_corridor_id c = cid \<longrightarrow> \<not> corridor_busy c)"

definition interlock :: "corridor_map \<Rightarrow> bool" where
  "interlock C \<longleftrightarrow>
     (\<forall>r co. C r = Some co \<longrightarrow> corridor_busy co \<longrightarrow> no_opposing C r (co_corridor_id co))"

text \<open>
  The manager accepts any credit in \<open>upsertLineState\<close>; its own operations keep a credit in \<open>[0, 3]\<close>
  once all of them are. So the invariant has a flag: with \<open>b\<close> it includes the bounds (what the service
  keeps, whose line states start with credit 0), without it only the target headway.
\<close>

definition credit_ok :: "bool \<Rightarrow> line_dispatch_state \<Rightarrow> bool" where
  "credit_ok b st \<longleftrightarrow>
     ld_target_headway_ms st \<noteq> 0 \<and> (b \<longrightarrow> 0 \<le> ld_fairness_credit st \<and> ld_fairness_credit st \<le> Fin 3)"

definition credits_ok :: "bool \<Rightarrow> (string \<Rightarrow> (string, line_dispatch_state) umap option) \<Rightarrow> bool" where
  "credits_ok b L \<longleftrightarrow> (\<forall>r lines l st. L r = Some lines \<longrightarrow> um_find lines l = Some st \<longrightarrow> credit_ok b st)"

definition dm_inv :: "bool \<Rightarrow> dispatch_manager \<Rightarrow> bool" where
  "dm_inv b m \<longleftrightarrow> rm_inv (dm_reservations m) \<and> um_wf (dm_corridors m) \<and>
     dm_default_corridor_capacity m \<noteq> 0 \<and>
     pc_default_corridor_minimum_headway_ms (dm_policy m) \<noteq> 0 \<and> corridors_ok (um_find (dm_corridors m)) \<and>
     pending_ok (um_find (dm_corridors m)) (um_find (dm_pending_decisions m)) \<and>
     interlock (um_find (dm_corridors m)) \<and> credits_ok b (um_find (dm_line_states m))"

lemma dm_invD:
  assumes "dm_inv b m"
  shows dm_inv_rm: "rm_inv (dm_reservations m)"
    and dm_inv_wf: "um_wf (dm_corridors m)"
    and dm_inv_cap: "dm_default_corridor_capacity m \<noteq> 0"
    and dm_inv_policy: "pc_default_corridor_minimum_headway_ms (dm_policy m) \<noteq> 0"
    and dm_inv_corridors: "corridors_ok (um_find (dm_corridors m))"
    and dm_inv_pending: "pending_ok (um_find (dm_corridors m)) (um_find (dm_pending_decisions m))"
    and dm_inv_interlock: "interlock (um_find (dm_corridors m))"
    and dm_inv_credits: "credits_ok b (um_find (dm_line_states m))"
  using assms by (simp_all add: dm_inv_def)

lemma corridors_ok_upd:
  "corridors_ok C \<Longrightarrow> r \<noteq> [] \<Longrightarrow> co_corridor_resource_id co = r \<Longrightarrow> co_occupancy co \<le> co_capacity co \<Longrightarrow>
   corridors_ok (C(r \<mapsto> co))"
  by (simp add: corridors_ok_def)

lemma corridors_okD:
  "corridors_ok C \<Longrightarrow> C r = Some co \<Longrightarrow>
   r \<noteq> [] \<and> co_corridor_resource_id co = r \<and> co_occupancy co \<le> co_capacity co"
  by (simp add: corridors_ok_def)

lemma interlock_upd:
  assumes "interlock C" "corridor_busy co \<Longrightarrow> no_opposing C r (co_corridor_id co)"
    "\<And>old. C r = Some old \<Longrightarrow> co_corridor_id old = co_corridor_id co"
  shows "interlock (C(r \<mapsto> co))"
  unfolding interlock_def no_opposing_def
proof (intro allI impI)
  fix s c k d
  assume h: "(C(r \<mapsto> co)) s = Some c" "corridor_busy c" "(C(r \<mapsto> co)) k = Some d" "k \<noteq> s"
    "co_corridor_id d = co_corridor_id c"
  show "\<not> corridor_busy d"
  proof (cases "s = r")
    case True
    then show ?thesis using h assms(2) by (auto simp: no_opposing_def)
  next
    case False
    with h(1,2) have s: "no_opposing C s (co_corridor_id c)" using assms(1) by (auto simp: interlock_def)
    show ?thesis
    proof (cases "k = r")
      case True
      then show ?thesis using h False assms(2) by (auto simp: no_opposing_def)
    next
      case False
      then show ?thesis using s h by (simp add: no_opposing_def)
    qed
  qed
qed

text \<open>Changing a corridor without making it busier.\<close>

lemma interlock_upd_same:
  assumes "interlock C" "C r = Some old" "co_corridor_id co = co_corridor_id old"
    "corridor_busy co \<Longrightarrow> corridor_busy old"
  shows "interlock (C(r \<mapsto> co))"
  using assms by (intro interlock_upd) (auto simp: interlock_def)

lemma interlockD: "interlock C \<Longrightarrow> C r = Some co \<Longrightarrow> corridor_busy co \<Longrightarrow> no_opposing C r (co_corridor_id co)"
  by (simp add: interlock_def)

lemma pending_ok_set:
  "pending_ok C P \<Longrightarrow> co_command_pending co \<Longrightarrow> pending_ok (C(r \<mapsto> co)) (P(r \<mapsto> d))"
  by (simp add: pending_ok_def)

lemma pending_ok_reset:
  "pending_ok C P \<Longrightarrow> \<not> co_command_pending co \<Longrightarrow> pending_ok (C(r \<mapsto> co)) (P(r := None))"
  by (simp add: pending_ok_def)

lemma pending_ok_same:
  "pending_ok C P \<Longrightarrow> C r = Some old \<Longrightarrow> co_command_pending co = co_command_pending old \<Longrightarrow>
   pending_ok (C(r \<mapsto> co)) P"
  by (auto simp: pending_ok_def)

lemma pending_ok_None: "pending_ok C P \<Longrightarrow> C r = None \<Longrightarrow> P r = None"
  unfolding pending_ok_def by (metis option.distinct(1))

lemma find_opposing_None:
  assumes "um_wf (dm_corridors m)"
  shows "find_opposing m rid co = None \<longleftrightarrow> no_opposing (um_find (dm_corridors m)) rid (co_corridor_id co)"
  using um_mem_iff [OF assms] by (fastforce simp: find_opposing_def find_None_iff no_opposing_def)

lemma opposing_is_busy_iff:
  assumes "um_wf (dm_corridors m)"
  shows "\<not> opposing_is_busy m rid co \<longleftrightarrow> no_opposing (um_find (dm_corridors m)) rid (co_corridor_id co)"
  by (auto simp: opposing_is_busy_def um_list_ex [OF assms] no_opposing_def)

subsection \<open>Fairness credits\<close>

lemma updateLineCredit_ok: "credit_ok b st \<Longrightarrow> credit_ok b (updateLineCredit now st)"
proof -
  assume ok: "credit_ok b st"
  then obtain q where q: "double_of_u64 (ld_target_headway_ms st) = Fin q" "0 < q"
    using double_of_u64_finite [of "ld_target_headway_ms st"]
      double_of_u64_pos [of "ld_target_headway_ms st"] by (auto simp: credit_ok_def)
  let ?x = "ld_fairness_credit st + double_of_u64 (now - ld_last_credit_update_simulation_ms st) /
    double_of_u64 (ld_target_headway_ms st)"
  have "0 \<le> cpp_min (Fin 3) ?x \<and> cpp_min (Fin 3) ?x \<le> Fin 3" if b
  proof -
    have "0 \<le> ?x" using ok q that by (intro double_add_nonneg double_div_nonneg) (auto simp: credit_ok_def)
    then show ?thesis by (cases ?x) (auto simp: cpp_min_def)
  qed
  then show ?thesis using ok by (simp add: updateLineCredit_def credit_ok_def Let_def)
qed

lemma default_line_ok: "credit_ok b default_line_dispatch_state"
  by (simp add: credit_ok_def default_line_dispatch_state_def zero_double_def)

lemma confirmedLine_ok: "credit_ok b st \<Longrightarrow> credit_ok b (confirmedLine st now)"
proof -
  assume ok: "credit_ok b st"
  have "0 \<le> cpp_max 0 (ld_fairness_credit st - 1) \<and> cpp_max 0 (ld_fairness_credit st - 1) \<le> Fin 3" if b: b
  proof -
    obtain c where c: "ld_fairness_credit st = Fin c" "0 \<le> c" "c \<le> 3"
      using ok b by (cases "ld_fairness_credit st") (auto simp: credit_ok_def)
    have "ld_fairness_credit st - 1 = mk_double (c - 1)"
      by (simp add: c minus_double_def one_double_def)
    moreover have "mk_double (c - 1) \<le> mk_double 3" using c by (intro mk_double_mono) simp
    ultimately have "ld_fairness_credit st - 1 \<le> Fin 3" using mk_double_numeral [of "num.Bit1 num.One"] by simp
    then show ?thesis by (cases "ld_fairness_credit st - 1") (auto simp: cpp_max_def zero_double_def)
  qed
  then show ?thesis using ok by (simp add: confirmedLine_def credit_ok_def)
qed

lemma credits_ok_upd:
  "credits_ok b L \<Longrightarrow> (\<And>l st. um_find lines l = Some st \<Longrightarrow> credit_ok b st) \<Longrightarrow> credits_ok b (L(r \<mapsto> lines))"
  by (auto simp: credits_ok_def)

lemma credits_ok_at:
  "credits_ok b (um_find L) \<Longrightarrow> um_find (um_at [] r L) l = Some st \<Longrightarrow> credit_ok b st"
  by (auto simp: credits_ok_def um_at_def split: option.splits)

lemma credits_ok_planPrepare:
  assumes "credits_ok b (um_find (dm_line_states m))"
  shows "credits_ok b (um_find (dm_line_states (planPrepare m rid now)))"
proof -
  have "credits_ok b (um_find (dm_line_states (updateFairnessCreditsLocked m rid now)))"
  proof (cases "um_find (dm_line_states m) rid")
    case (Some lines)
    then have "um_find lines l = Some st \<Longrightarrow> credit_ok b st" for l st
      using assms by (auto simp: credits_ok_def)
    then have "credits_ok b ((um_find (dm_line_states m))
        (rid \<mapsto> map (\<lambda>(l, st). (l, updateLineCredit now st)) lines))"
      by (intro credits_ok_upd assms) (auto simp: um_find_map_snd intro: updateLineCredit_ok)
    then show ?thesis by (simp add: updateFairnessCreditsLocked_def Some update_conv')
  qed (simp add: updateFairnessCreditsLocked_def assms)
  then show ?thesis using credits_ok_upd [of _ _ "[]"]
    by (simp add: planPrepare_def Let_def um_try_emplace_def update_conv' split: option.split)
qed

lemma planPrepare_sel [simp]:
  "dm_policy (planPrepare m rid now) = dm_policy m"
  "dm_reservations (planPrepare m rid now) = dm_reservations m"
  "dm_default_corridor_capacity (planPrepare m rid now) = dm_default_corridor_capacity m"
  "dm_corridors (planPrepare m rid now) = dm_corridors m"
  "dm_pending_decisions (planPrepare m rid now) = dm_pending_decisions m"
  by (simp_all add: planPrepare_def updateFairnessCreditsLocked_def Let_def split: option.split)

lemma dm_inv_planPrepare: "dm_inv b m \<Longrightarrow> dm_inv b (planPrepare m rid now)"
  by (simp add: dm_inv_def credits_ok_planPrepare)

subsection \<open>planNext\<close>

lemma intersectionFilter_kept:
  "snd (intersectionFilter r now e cs) =
     filter (\<lambda>c. canReserve r (dc_required_intersection_movement_ids c) now = Inr ()) cs"
proof (induction cs arbitrary: e)
  case (Cons c cs)
  show ?case
  proof (cases "canReserve r (dc_required_intersection_movement_ids c) now")
    case (Inl e')
    then show ?thesis using Cons by simp
  next
    case (Inr u)
    then show ?thesis using Cons [of e] by (simp add: case_prod_unfold Let_def)
  qed
qed simp

text \<open>What \<open>planNext\<close> asks the policy.\<close>

definition asked_context ::
    "dispatch_manager \<Rightarrow> string \<Rightarrow> shared_corridor_state \<Rightarrow> u64 \<Rightarrow> u64 \<Rightarrow> dispatch_context" where
  "asked_context m0 rid co now wall = (planContext (planPrepare m0 rid now) rid co now wall)
     \<lparr>cx_corridor := co\<lparr>co_candidates := filter (\<lambda>c. canReserve (dm_reservations m0)
        (dc_required_intersection_movement_ids c) now = Inr ()) (co_candidates co)\<rparr>\<rparr>"

lemma asked_context_sel [simp]:
  "cx_corridor (asked_context m rid co now wall) = co\<lparr>co_candidates := filter (\<lambda>c.
     canReserve (dm_reservations m) (dc_required_intersection_movement_ids c) now = Inr ())
       (co_candidates co)\<rparr>"
  "cx_simulation_now_ms (asked_context m rid co now wall) = now"
  "cx_wall_now_ms (asked_context m rid co now wall) = wall"
  by (simp_all add: asked_context_def planContext_def)

text \<open>
  A decision of the policy to release is always booked: every candidate that passes the filter
  could be booked at the same time in the same state, so the code's second check never fails.
\<close>

lemma policy_release_bookable:
  assumes "rm_inv (dm_reservations m)"
    and "dd_action (decide c (asked_context m rid co now wall)) = RELEASE"
  shows "\<exists>r. tryReserveAtomically (dm_reservations m)
      (dd_train_id (decide c (asked_context m rid co now wall)))
      (dd_reserved_intersection_movement_ids (decide c (asked_context m rid co now wall))) now = Inr r"
proof -
  let ?d = "decide c (asked_context m rid co now wall)"
  have "canReserve (dm_reservations m) (dd_reserved_intersection_movement_ids ?d) now = Inr ()"
    using assms(2) by (rule dp.all_candidates_release) simp
  then show ?thesis using rms.reserve_ok [OF assms(1)] dp.release_named [OF assms(2)] by blast
qed

lemma planNext_unknown:
  "um_find (dm_corridors m) rid = None \<Longrightarrow>
   planNext m rid now wall = (default_decision\<lparr>dd_reason := ''unknown_shared_corridor_resource''\<rparr>, m)"
  by (simp add: planNext_def)

lemma planNext_known:
  assumes "um_find (dm_corridors m) rid = Some co" "rm_inv (dm_reservations m)"
  shows "(dd_action (fst (planNext m rid now wall)) \<noteq> RELEASE \<and>
      snd (planNext m rid now wall) = planPrepare m rid now \<and>
      (find_opposing m rid co = None \<longrightarrow>
         dd_action (decide (dm_policy m) (asked_context m rid co now wall)) \<noteq> RELEASE)) \<or>
    (dd_action (fst (planNext m rid now wall)) = RELEASE \<and> find_opposing m rid co = None \<and>
     fst (planNext m rid now wall) = decide (dm_policy m) (asked_context m rid co now wall) \<and>
     (\<exists>r. tryReserveAtomically (dm_reservations m) (dd_train_id (fst (planNext m rid now wall)))
          (dd_reserved_intersection_movement_ids (fst (planNext m rid now wall))) now = Inr r \<and>
        snd (planNext m rid now wall) = (planPrepare m rid now)\<lparr>dm_reservations := r,
          dm_corridors := um_put rid (co\<lparr>co_command_pending := True\<rparr>) (dm_corridors m),
          dm_pending_decisions :=
            um_put rid (fst (planNext m rid now wall)) (dm_pending_decisions m)\<rparr>))"
proof (cases "find_opposing m rid co")
  case (Some kc)
  then have "find_opposing (planPrepare m rid now) rid co = Some kc" by (simp add: find_opposing_def)
  then show ?thesis using assms(1) Some
    by (cases kc) (simp add: planNext_def Let_def default_decision_def)
next
  case None
  define kept where "kept = filter (\<lambda>c. canReserve (dm_reservations m)
      (dc_required_intersection_movement_ids c) now = Inr ()) (co_candidates co)"
  let ?d = "decide (dm_policy m) (asked_context m rid co now wall)"
  have ctx: "(planContext (planPrepare m rid now) rid co now wall)
      \<lparr>cx_corridor := co\<lparr>co_candidates := kept\<rparr>\<rparr> = asked_context m rid co now wall"
    by (simp add: asked_context_def kept_def)
  obtain e where filt: "intersectionFilter (dm_reservations m) now [] (co_candidates co) = (e, kept)"
    using intersectionFilter_kept unfolding kept_def by (metis prod.collapse)
  have opp: "find_opposing (planPrepare m rid now) rid co = None"
    using None by (simp add: find_opposing_def)
  show ?thesis
  proof (cases "co_candidates co \<noteq> [] \<and> kept = []")
    case True
    have "dd_action ?d \<noteq> RELEASE"
      using True by (intro dp.no_candidates_no_release) (simp add: kept_def)
    with True show ?thesis using assms(1) opp filt None
      by (simp add: planNext_def Let_def default_decision_def)
  next
    case False
    then have F: "(co_candidates co \<noteq> [] \<and> kept = []) = False" by simp
    have body: "planNext m rid now wall = (if dd_action ?d \<noteq> RELEASE then (?d, planPrepare m rid now)
        else case tryReserveAtomically (dm_reservations m) (dd_train_id ?d)
              (dd_reserved_intersection_movement_ids ?d) now of
           Inl e \<Rightarrow> (?d\<lparr>dd_action := HOLD_ALL,
               dd_reason := (if e = [] then ''line_intersection_reservation_failed'' else e),
               dd_train_id := [], dd_line_id := [],
               dd_reserved_intersection_movement_ids := []\<rparr>, planPrepare m rid now)
         | Inr r \<Rightarrow> (?d, (planPrepare m rid now)\<lparr>dm_reservations := r,
               dm_corridors := um_put rid (co\<lparr>co_command_pending := True\<rparr>) (dm_corridors m),
               dm_pending_decisions := um_put rid ?d (dm_pending_decisions m)\<rparr>))"
      unfolding planNext_def assms(1) Let_def option.case opp planPrepare_sel filt prod.case F if_False ctx
      by (rule refl)
    show ?thesis
    proof (cases "dd_action ?d = RELEASE")
      case True
      then obtain r where "tryReserveAtomically (dm_reservations m) (dd_train_id ?d)
          (dd_reserved_intersection_movement_ids ?d) now = Inr r"
        using policy_release_bookable [OF assms(2)] by blast
      then show ?thesis unfolding body using True None by simp
    qed (simp add: body)
  qed
qed

lemma planNext_release:
  assumes "rm_inv (dm_reservations m)" "planNext m rid now wall = (d, m')" "dd_action d = RELEASE"
  obtains co r where "um_find (dm_corridors m) rid = Some co" "find_opposing m rid co = None"
    "d = decide (dm_policy m) (asked_context m rid co now wall)"
    "tryReserveAtomically (dm_reservations m) (dd_train_id d)
       (dd_reserved_intersection_movement_ids d) now = Inr r"
    "m' = (planPrepare m rid now)\<lparr>dm_reservations := r,
       dm_corridors := um_put rid (co\<lparr>co_command_pending := True\<rparr>) (dm_corridors m),
       dm_pending_decisions := um_put rid d (dm_pending_decisions m)\<rparr>"
proof (cases "um_find (dm_corridors m) rid")
  case None
  then show ?thesis using assms planNext_unknown [of m rid now wall] by (auto simp: default_decision_def)
next
  case (Some co)
  from planNext_known [OF Some assms(1), of now wall] assms(2,3) that [OF Some] show ?thesis by auto
qed

lemma planNext_keep:
  assumes "rm_inv (dm_reservations m)" "planNext m rid now wall = (d, m')" "dd_action d \<noteq> RELEASE"
  shows "m' = m \<or> m' = planPrepare m rid now"
proof (cases "um_find (dm_corridors m) rid")
  case None
  then show ?thesis using assms planNext_unknown [of m rid now wall] by simp
next
  case (Some co)
  from planNext_known [OF Some assms(1), of now wall] assms(2,3) show ?thesis by auto
qed

lemma dm_inv_planNext:
  assumes "dm_inv b m"
  shows "dm_inv b (snd (planNext m rid now wall))"
proof -
  obtain d m' where p: "planNext m rid now wall = (d, m')" by fastforce
  show ?thesis
  proof (cases "dd_action d = RELEASE")
    case False
    then show ?thesis using planNext_keep [OF dm_inv_rm [OF assms] p] dm_inv_planPrepare [OF assms] assms p
      by auto
  next
    case True
    from planNext_release [OF dm_inv_rm [OF assms] p True]
    obtain co r where co: "um_find (dm_corridors m) rid = Some co" "find_opposing m rid co = None"
      and res: "tryReserveAtomically (dm_reservations m) (dd_train_id d)
        (dd_reserved_intersection_movement_ids d) now = Inr r"
      and m': "m' = (planPrepare m rid now)\<lparr>dm_reservations := r,
         dm_corridors := um_put rid (co\<lparr>co_command_pending := True\<rparr>) (dm_corridors m),
         dm_pending_decisions := um_put rid d (dm_pending_decisions m)\<rparr>" by blast
    let ?co = "co\<lparr>co_command_pending := True\<rparr>" and ?C = "um_find (dm_corridors m)"
    have quiet: "no_opposing ?C rid (co_corridor_id co)"
      using co(2) find_opposing_None [OF dm_inv_wf [OF assms]] by blast
    have "interlock (?C(rid \<mapsto> ?co))"
      using quiet co(1) by (intro interlock_upd dm_inv_interlock [OF assms]) auto
    moreover have "corridors_ok (?C(rid \<mapsto> ?co))"
      using corridors_okD [OF dm_inv_corridors [OF assms] co(1)]
      by (intro corridors_ok_upd dm_inv_corridors [OF assms]) auto
    moreover have "pending_ok (?C(rid \<mapsto> ?co)) ((um_find (dm_pending_decisions m))(rid \<mapsto> d))"
      by (intro pending_ok_set dm_inv_pending [OF assms]) simp
    ultimately show ?thesis
      using rms.invar_reserve [OF dm_inv_rm [OF assms] res] dm_invD [OF assms]
      by (simp add: p m' dm_inv_def update_conv' credits_ok_planPrepare)
  qed
qed

subsection \<open>The other operations keep the invariant\<close>

lemma dm_inv_confirmEntry:
  assumes "dm_inv b m"
  shows "dm_inv b (snd (confirmEntry m rid train now))"
proof (cases "um_find (dm_pending_decisions m) rid")
  case None
  then show ?thesis using assms by (simp add: confirmEntry_def)
next
  case (Some d)
  note pend = Some
  let ?C = "um_find (dm_corridors m)"
  from pend obtain co where co: "?C rid = Some co" "co_command_pending co"
    using dm_inv_pending [OF assms] by (auto simp: pending_ok_def)
  show ?thesis
  proof (cases "dd_train_id d = train")
    case False
    then show ?thesis using assms pend co by (simp add: confirmEntry_def)
  next
    case True
    let ?co = "confirmedCorridor co train now"
    have "interlock (?C(rid \<mapsto> ?co))"
      using co by (intro interlock_upd_same [OF dm_inv_interlock [OF assms], of rid co])
        (auto simp: confirmedCorridor_def corridor_busy_def)
    moreover have "corridors_ok (?C(rid \<mapsto> ?co))"
      using corridors_okD [OF dm_inv_corridors [OF assms] co(1)]
      by (intro corridors_ok_upd dm_inv_corridors [OF assms])
        (auto simp: confirmedCorridor_def inc_le)
    moreover have "pending_ok (?C(rid \<mapsto> ?co)) ((um_find (dm_pending_decisions m))(rid := None))"
      by (intro pending_ok_reset dm_inv_pending [OF assms]) (simp add: confirmedCorridor_def)
    moreover have "credits_ok b ((um_find (dm_line_states m))(rid \<mapsto> um_put (dd_line_id d)
        (confirmedLine (um_at default_line_dispatch_state (dd_line_id d)
          (um_at [] rid (dm_line_states m))) now) (um_at [] rid (dm_line_states m))))"
    proof (rule credits_ok_upd [OF dm_inv_credits [OF assms]])
      fix l st
      have at: "credit_ok b (um_at default_line_dispatch_state k (um_at [] rid (dm_line_states m)))" for k
        using credits_ok_at [OF dm_inv_credits [OF assms]] default_line_ok
        by (auto simp: um_at_def [of default_line_dispatch_state] split: option.split)
      assume "um_find (um_put (dd_line_id d) (confirmedLine (um_at default_line_dispatch_state
          (dd_line_id d) (um_at [] rid (dm_line_states m))) now) (um_at [] rid (dm_line_states m))) l = Some st"
      then show "credit_ok b st"
        using credits_ok_at [OF dm_inv_credits [OF assms]] confirmedLine_ok [OF at]
        by (auto simp: umap_simps split: if_splits)
    qed
    ultimately show ?thesis
      using dm_invD [OF assms] pend co True
      by (simp add: confirmEntry_def Let_def dm_inv_def update_conv' delete_conv')
  qed
qed

lemma dm_inv_cancelPending:
  assumes "dm_inv b m"
  shows "dm_inv b (snd (cancelPending m rid))"
proof (cases "um_find (dm_pending_decisions m) rid")
  case None
  then show ?thesis using assms by (simp add: cancelPending_def)
next
  case (Some d)
  let ?C = "um_find (dm_corridors m)"
  from Some obtain co where co: "?C rid = Some co" "co_command_pending co"
    using dm_inv_pending [OF assms] by (auto simp: pending_ok_def)
  let ?co = "co\<lparr>co_command_pending := False\<rparr>"
  have "interlock (?C(rid \<mapsto> ?co))"
    using co by (intro interlock_upd_same [OF dm_inv_interlock [OF assms], of rid co])
      (auto simp: corridor_busy_def)
  moreover have "corridors_ok (?C(rid \<mapsto> ?co))"
    using corridors_okD [OF dm_inv_corridors [OF assms] co(1)]
    by (intro corridors_ok_upd dm_inv_corridors [OF assms]) auto
  moreover have "pending_ok (?C(rid \<mapsto> ?co)) ((um_find (dm_pending_decisions m))(rid := None))"
    by (intro pending_ok_reset dm_inv_pending [OF assms]) simp
  ultimately show ?thesis
    using dm_invD [OF assms] Some co rms.invar_cancel
    by (simp add: cancelPending_def clearPendingFlag_def Let_def dm_inv_def update_conv' delete_conv')
qed

lemma dm_inv_restorePending:
  assumes "dm_inv b m" "restorePending m d = Inr m'"
  shows "dm_inv b m'"
proof -
  let ?C = "um_find (dm_corridors m)" and ?r = "dd_corridor_resource_id d"
  from assms(2) obtain co r where co: "?C ?r = Some co" "\<not> opposing_is_busy m ?r co"
    and res: "tryReserveAtomically (dm_reservations m) (dd_train_id d)
      (dd_reserved_intersection_movement_ids d) (dd_issued_at_simulation_ms d) = Inr r"
    and m': "m' = m\<lparr>dm_reservations := r,
      dm_corridors := um_put ?r (co\<lparr>co_command_pending := True\<rparr>) (dm_corridors m),
      dm_pending_decisions := um_put ?r d (dm_pending_decisions m)\<rparr>"
    by (auto simp: restorePending_def split: option.splits if_splits sum.splits)
  let ?co = "co\<lparr>co_command_pending := True\<rparr>"
  have "interlock (?C(?r \<mapsto> ?co))"
    using co opposing_is_busy_iff [OF dm_inv_wf [OF assms(1)]]
    by (intro interlock_upd dm_inv_interlock [OF assms(1)]) auto
  moreover have "corridors_ok (?C(?r \<mapsto> ?co))"
    using corridors_okD [OF dm_inv_corridors [OF assms(1)] co(1)]
    by (intro corridors_ok_upd dm_inv_corridors [OF assms(1)]) auto
  moreover have "pending_ok (?C(?r \<mapsto> ?co)) ((um_find (dm_pending_decisions m))(?r \<mapsto> d))"
    by (intro pending_ok_set dm_inv_pending [OF assms(1)]) simp
  ultimately show ?thesis
    using rms.invar_reserve [OF dm_inv_rm [OF assms(1)] res] dm_invD [OF assms(1)]
    by (simp add: m' dm_inv_def update_conv')
qed

lemma dm_inv_restoreActive:
  assumes "dm_inv b m" "restoreActive m d = Inr m'"
  shows "dm_inv b m'"
proof -
  let ?C = "um_find (dm_corridors m)" and ?r = "dd_corridor_resource_id d"
  let ?upd = "\<lambda>co. co\<lparr>co_occupancy := (if co_occupancy co < co_capacity co then co_occupancy co + 1
      else co_occupancy co), co_last_entry_simulation_ms :=
        max (co_last_entry_simulation_ms co) (dd_issued_at_simulation_ms d)\<rparr>"
  from assms(2) obtain co r where co: "?C ?r = Some co" "\<not> opposing_is_busy m ?r co"
    and res: "tryReserveAtomically (dm_reservations m) (dd_train_id d)
      (dd_reserved_intersection_movement_ids d) (dd_issued_at_simulation_ms d) = Inr r"
    and m': "m' = m\<lparr>dm_reservations := r, dm_corridors := um_put ?r (?upd co) (dm_corridors m)\<rparr>"
    by (auto simp: restoreActive_def split: option.splits if_splits sum.splits)
  have "interlock (?C(?r \<mapsto> ?upd co))"
    using co opposing_is_busy_iff [OF dm_inv_wf [OF assms(1)]]
    by (intro interlock_upd dm_inv_interlock [OF assms(1)]) auto
  moreover have "corridors_ok (?C(?r \<mapsto> ?upd co))"
    using corridors_okD [OF dm_inv_corridors [OF assms(1)] co(1)]
    by (intro corridors_ok_upd dm_inv_corridors [OF assms(1)]) (auto simp: inc_le)
  moreover have "pending_ok (?C(?r \<mapsto> ?upd co)) (um_find (dm_pending_decisions m))"
    using co by (intro pending_ok_same [OF dm_inv_pending [OF assms(1)]]) auto
  ultimately show ?thesis
    using rms.invar_reserve [OF dm_inv_rm [OF assms(1)] res] dm_invD [OF assms(1)]
    by (simp add: m' dm_inv_def update_conv')
qed

text \<open>A change of one corridor that touches neither its identity nor its pending flag and makes it no busier.\<close>

lemma dm_inv_put_corridor:
  assumes "dm_inv b m" "um_find (dm_corridors m) r = Some old"
    and "co_corridor_resource_id co = co_corridor_resource_id old" "co_corridor_id co = co_corridor_id old"
    and "co_command_pending co = co_command_pending old" "co_occupancy co \<le> co_capacity co"
    and "co_occupancy co \<le> co_occupancy old"
  shows "dm_inv b (m\<lparr>dm_corridors := um_put r co (dm_corridors m)\<rparr>)"
proof -
  have "corridor_busy co \<Longrightarrow> corridor_busy old"
    using assms(5,7) by (auto simp: corridor_busy_def)
  then show ?thesis
    using assms corridors_okD [OF dm_inv_corridors [OF assms(1)] assms(2)] dm_invD [OF assms(1)]
      interlock_upd_same [OF dm_inv_interlock [OF assms(1)] assms(2), of co]
      pending_ok_same [OF dm_inv_pending [OF assms(1)] assms(2), of co]
      corridors_ok_upd [OF dm_inv_corridors [OF assms(1)], of r co]
    by (simp add: dm_inv_def update_conv')
qed

lemma dm_inv_markCorridorExited: "dm_inv b m \<Longrightarrow> dm_inv b (snd (markCorridorExited m rid))"
proof (cases "um_find (dm_corridors m) rid")
  case (Some co)
  assume inv: "dm_inv b m"
  show ?thesis
  proof (cases "co_occupancy co = 0")
    case False
    then have "co_occupancy co - 1 \<le> co_occupancy co" by (simp add: u64_le_iff u64_pred)
    then have "dm_inv b (m\<lparr>dm_corridors := um_put rid (co\<lparr>co_occupancy := co_occupancy co - 1\<rparr>)
        (dm_corridors m)\<rparr>)"
      using corridors_okD [OF dm_inv_corridors [OF inv] Some]
      by (intro dm_inv_put_corridor [OF inv Some]) auto
    then show ?thesis using Some False by (simp add: markCorridorExited_def)
  qed (simp add: markCorridorExited_def Some inv)
qed (simp add: markCorridorExited_def)

lemma dm_inv_replaceCandidates: "dm_inv b m \<Longrightarrow> dm_inv b (snd (replaceCandidates m rid cands received))"
proof (cases "um_find (dm_corridors m) rid")
  case (Some co)
  assume inv: "dm_inv b m"
  have "dm_inv b (m\<lparr>dm_corridors := um_put rid (co\<lparr>co_candidates := cands,
      co_received_at_wall_ms := received\<rparr>) (dm_corridors m)\<rparr>)"
    using corridors_okD [OF dm_inv_corridors [OF inv] Some]
    by (intro dm_inv_put_corridor [OF inv Some]) auto
  then show ?thesis by (simp add: replaceCandidates_def Some)
qed (simp add: replaceCandidates_def)

lemma dm_inv_markIntersectionCleared:
  "dm_inv b m \<Longrightarrow> dm_inv b (snd (markIntersectionCleared m i train now))"
  using rms.invar_clear [OF dm_inv_rm, of b m i train now]
  by (simp add: markIntersectionCleared_def dm_inv_def case_prod_unfold Let_def)

lemma dm_inv_registerIntersectionMovement:
  "dm_inv b m \<Longrightarrow> (\<And>i. rm_active (dm_reservations m) i (mv_movement_id mv) = None) \<Longrightarrow>
   dm_inv b (snd (registerIntersectionMovement m mv))"
  using rm_inv_registerMovement [OF dm_inv_rm, of b m mv]
  by (simp add: registerIntersectionMovement_def dm_inv_def case_prod_unfold Let_def)

lemma dm_inv_upsertLineState:
  assumes "dm_inv b m" "ld_target_headway_ms st \<noteq> 0 \<Longrightarrow> credit_ok b st"
  shows "dm_inv b (upsertLineState m rid l st)"
proof (cases "ld_target_headway_ms st = 0")
  case True
  then show ?thesis using assms(1) by (simp add: upsertLineState_def)
next
  case False
  have "credits_ok b ((um_find (dm_line_states m))(rid \<mapsto> um_put l st (um_at [] rid (dm_line_states m))))"
    using credits_ok_at [OF dm_inv_credits [OF assms(1)]] assms(2)
    by (intro credits_ok_upd dm_inv_credits [OF assms(1)]) (auto simp: umap_simps False split: if_splits)
  then show ?thesis using assms(1) by (simp add: upsertLineState_def dm_inv_def update_conv')
qed

text \<open>
  How the service refreshes a corridor: it introduces it empty and not pending, or keeps its
  track and its occupancy.
\<close>

definition upsert_ok :: "dispatch_manager \<Rightarrow> shared_corridor_state \<Rightarrow> bool" where
  "upsert_ok m co \<longleftrightarrow> (case um_find (dm_corridors m) (co_corridor_resource_id co) of
     None \<Rightarrow> co_occupancy co = 0 \<and> \<not> co_command_pending co
   | Some e \<Rightarrow> co_occupancy co = co_occupancy e \<and> co_corridor_id co = co_corridor_id e \<and>
       (co_capacity co \<noteq> 0 \<longrightarrow> co_occupancy e \<le> co_capacity co) \<and>
       (co_capacity co = 0 \<longrightarrow> co_occupancy e \<le> dm_default_corridor_capacity m))"

lemma dm_inv_upsertCorridor:
  assumes "dm_inv b m" "upsert_ok m co"
  shows "dm_inv b (upsertCorridor m co)"
proof (cases "co_corridor_resource_id co = []")
  case False
  note named = False
  let ?r = "co_corridor_resource_id co" and ?C = "um_find (dm_corridors m)"
  define new where "new = (let u1 = (case um_find (dm_corridors m) (co_corridor_resource_id co) of
              None \<Rightarrow> co
            | Some e \<Rightarrow> co\<lparr>co_command_pending := co_command_pending e,
                co_last_entry_simulation_ms :=
                  max (co_last_entry_simulation_ms co) (co_last_entry_simulation_ms e)\<rparr>);
            u2 = (if co_minimum_headway_ms u1 = 0
              then u1\<lparr>co_minimum_headway_ms := pc_default_corridor_minimum_headway_ms (dm_policy m)\<rparr>
              else u1)
        in if co_capacity u2 = 0 then u2\<lparr>co_capacity := dm_default_corridor_capacity m\<rparr> else u2)"
  have up: "upsertCorridor m co = m\<lparr>dm_corridors := um_put ?r new (dm_corridors m)\<rparr>"
    using named by (simp add: upsertCorridor_def new_def Let_def)
  have sel: "co_corridor_resource_id new = ?r" "co_corridor_id new = co_corridor_id co"
    "co_occupancy new = co_occupancy co"
    "co_command_pending new = (case ?C ?r of None \<Rightarrow> co_command_pending co | Some e \<Rightarrow> co_command_pending e)"
    "co_capacity new = (if co_capacity co = 0 then dm_default_corridor_capacity m else co_capacity co)"
    by (simp_all add: new_def Let_def split: option.split)
  show ?thesis
  proof (cases "?C ?r")
    case (Some e)
    then show ?thesis unfolding up using assms(2) sel corridors_okD [OF dm_inv_corridors [OF assms(1)] Some]
      by (intro dm_inv_put_corridor [OF assms(1) Some]) (auto simp: upsert_ok_def)
  next
    case None
    have idle: "co_occupancy new = 0" "\<not> co_command_pending new"
      using assms(2) None sel by (simp_all add: upsert_ok_def)
    then have "interlock (?C(?r \<mapsto> new))"
      using None by (intro interlock_upd dm_inv_interlock [OF assms(1)]) (auto simp: corridor_busy_def)
    moreover have "corridors_ok (?C(?r \<mapsto> new))"
      using idle sel named by (intro corridors_ok_upd dm_inv_corridors [OF assms(1)]) auto
    moreover have "pending_ok (?C(?r \<mapsto> new)) (um_find (dm_pending_decisions m))"
      using pending_ok_reset [OF dm_inv_pending [OF assms(1)] idle(2), of ?r]
        pending_ok_None [OF dm_inv_pending [OF assms(1)] None] by (simp add: fun_upd_idem)
    ultimately show ?thesis unfolding up using dm_invD [OF assms(1)]
      by (simp add: dm_inv_def update_conv')
  qed
qed (simp add: upsertCorridor_def assms)

subsection \<open>Executions\<close>

inductive dm_step :: "dispatch_manager \<Rightarrow> dispatch_manager \<Rightarrow> bool" where
  dm_register: "(\<And>i. rm_active (dm_reservations m) i (mv_movement_id mv) = None) \<Longrightarrow>
     dm_step m (snd (registerIntersectionMovement m mv))"
| dm_upsert: "upsert_ok m co \<Longrightarrow> dm_step m (upsertCorridor m co)"
| dm_line: "dm_step m (upsertLineState m rid l st)"
| dm_replace: "dm_step m (snd (replaceCandidates m rid cands received))"
| dm_plan: "dm_step m (snd (planNext m rid now wall))"
| dm_confirm: "dm_step m (snd (confirmEntry m rid train now))"
| dm_cancel: "dm_step m (snd (cancelPending m rid))"
| dm_restore_pending: "restorePending m d = Inr m' \<Longrightarrow> dm_step m m'"
| dm_restore_active: "restoreActive m d = Inr m' \<Longrightarrow> dm_step m m'"
| dm_exit: "dm_step m (snd (markCorridorExited m rid))"
| dm_clear: "dm_step m (snd (markIntersectionCleared m i train now))"

definition dm_start :: "dispatch_manager \<Rightarrow> bool" where
  "dm_start m \<longleftrightarrow> (\<exists>c. new_dispatch_manager c = Inr m)"

lemma dm_inv_start: "dm_start m \<Longrightarrow> dm_inv b m"
proof -
  assume "dm_start m"
  then obtain c where c: "new_dispatch_manager c = Inr m" by (auto simp: dm_start_def)
  show ?thesis
  proof (cases "new_dynamic_priority_policy (mc_priority c)")
    case (Inr p)
    with c show ?thesis
      by (auto simp: new_dispatch_manager_def new_dynamic_priority_policy_def dm_inv_def rm_inv_new corridors_ok_def
          pending_ok_def interlock_def credits_ok_def split: if_splits)
  qed (use c in \<open>simp add: new_dispatch_manager_def\<close>)
qed

interpretation dm: inductive_invariant dm_start dm_step "dm_inv False"
proof
  fix m m' assume "dm_inv False m" "dm_step m m'"
  moreover have "ld_target_headway_ms st \<noteq> 0 \<Longrightarrow> credit_ok False st" for st by (simp add: credit_ok_def)
  ultimately show "dm_inv False m'"
    by (elim dm_step.cases) (blast intro: dm_inv_registerIntersectionMovement dm_inv_upsertCorridor
        dm_inv_upsertLineState dm_inv_replaceCandidates dm_inv_planNext dm_inv_confirmEntry
        dm_inv_cancelPending dm_inv_restorePending dm_inv_restoreActive dm_inv_markCorridorExited
        dm_inv_markIntersectionCleared)+
qed (rule dm_inv_start)

subsection \<open>Properties\<close>

lemma corridorState_put:
  "corridorState (m\<lparr>dm_corridors := um_put r co C\<rparr>) k = (if k = r then Some co else um_find C k)"
  by (simp add: corridorState_def umap_simps)

text \<open>A manager with both directions of one track and two waiting trains, for the witnesses.\<close>

definition demo_dm_config :: dispatch_manager_config where
  "demo_dm_config = \<lparr>mc_priority = demo_config, mc_default_intersection_clearance_ms = 2000,
     mc_default_corridor_capacity = 8\<rparr>"

definition demo_dm :: dispatch_manager where
  "demo_dm = (let m0 = projr (new_dispatch_manager demo_dm_config);
       m1 = upsertCorridor m0 (demo_corridor []);
       m2 = upsertCorridor m1 ((demo_corridor [])\<lparr>co_corridor_resource_id := ''c:R'', co_direction := REVERSE\<rparr>);
       m3 = upsertLineState m2 ''c:F'' ''A'' default_line_dispatch_state;
       m4 = upsertLineState m3 ''c:F'' ''B'' default_line_dispatch_state
     in snd (replaceCandidates m4 ''c:F''
          [demo_candidate ''T1'' ''A'' 1808, demo_candidate ''T2'' ''B'' 5904] 500))"

definition demo_released :: dispatch_manager where
  "demo_released = snd (planNext demo_dm ''c:F'' 10000 1000)"

lemma demo_dm_reachable: "reachable dm_start dm_step demo_dm"
proof -
  have start: "reachable dm_start dm_step (projr (new_dispatch_manager demo_dm_config))"
    unfolding dm_start_def by (intro reach_init exI [of _ demo_dm_config])
      (simp add: new_dispatch_manager_def demo_dm_config_def demo_config_def new_dynamic_priority_policy_def)
  show ?thesis unfolding demo_dm_def Let_def
    by (intro reach_step [OF reach_step [OF reach_step [OF reach_step [OF reach_step [OF start
            dm_upsert] dm_upsert] dm_line] dm_line] dm_replace])
      (simp_all add: upsert_ok_def demo_corridor_def new_dispatch_manager_def demo_dm_config_def
        demo_config_def new_dynamic_priority_policy_def upsertCorridor_def)
qed

lemmas demo_dm_defs = demo_dm_def new_dispatch_manager_def demo_dm_config_def
  new_dynamic_priority_policy_def upsertCorridor_def upsertLineState_def replaceCandidates_def
  demo_policy_defs

definition demo_waiting :: shared_corridor_state where
  "demo_waiting = demo_corridor [demo_candidate ''T1'' ''A'' 1808, demo_candidate ''T2'' ''B'' 5904]"

lemma demo_dm_sel:
  "um_find (dm_corridors demo_dm) ''c:F'' = Some demo_waiting"
  "find_opposing demo_dm ''c:F'' demo_waiting = None"
  "dm_policy demo_dm = demo_config"
  "dm_reservations demo_dm = new_reservation_manager 2000"
  "dm_line_states demo_dm = [(''c:F'', [(''A'', default_line_dispatch_state), (''B'', default_line_dispatch_state)])]"
  "dm_last_released_line demo_dm = []" "dm_consecutive_release_count demo_dm = []"
  "dm_pending_decisions demo_dm = []"
  by (simp_all add: demo_dm_defs demo_waiting_def find_opposing_def corridor_busy_def um_at_def)

lemma demo_asked: "asked_context demo_dm ''c:F'' demo_waiting 10000 1000 = \<lparr>cx_corridor = demo_waiting,
   cx_lines = [(''A'', default_line_dispatch_state\<lparr>ld_last_credit_update_simulation_ms := 10000\<rparr>),
     (''B'', default_line_dispatch_state\<lparr>ld_last_credit_update_simulation_ms := 10000\<rparr>)],
   cx_last_released_line_id = [], cx_consecutive_release_count = 0,
   cx_simulation_now_ms = 10000, cx_wall_now_ms = 1000\<rparr>"
  by (simp add: asked_context_def planContext_def planPrepare_def Let_def updateFairnessCreditsLocked_def
      demo_dm_sel updateLineCredit_def um_try_emplace_def um_at_def canReserve_def canReserveLocked_def
      demo_waiting_def demo_corridor_def demo_candidate_def default_line_dispatch_state_def)

lemma demo_decision:
  "dd_action (decide demo_config (asked_context demo_dm ''c:F'' demo_waiting 10000 1000)) = RELEASE \<and>
   dd_train_id (decide demo_config (asked_context demo_dm ''c:F'' demo_waiting 10000 1000)) = ''T1'' \<and>
   dd_reserved_intersection_movement_ids
     (decide demo_config (asked_context demo_dm ''c:F'' demo_waiting 10000 1000)) = []"
  unfolding demo_asked by (simp add: policy_eval demo_policy_defs demo_waiting_def)

lemma demo_release:
  "dd_action (fst (planNext demo_dm ''c:F'' 10000 1000)) = RELEASE \<and>
   dd_train_id (fst (planNext demo_dm ''c:F'' 10000 1000)) = ''T1'' \<and>
   dd_reserved_intersection_movement_ids (fst (planNext demo_dm ''c:F'' 10000 1000)) = []"
  using planNext_known [OF demo_dm_sel(1), of 10000 1000] rm_inv_new demo_decision
  by (auto simp: demo_dm_sel)

definition demo_decided :: dispatch_decision where
  "demo_decided = fst (planNext demo_dm ''c:F'' 10000 1000)"

lemma demo_plan: "planNext demo_dm ''c:F'' 10000 1000 = (demo_decided, demo_released)"
  by (simp add: demo_decided_def demo_released_def)

lemma demo_decided_sel: "dd_action demo_decided = RELEASE" "dd_train_id demo_decided = ''T1''"
  "dd_reserved_intersection_movement_ids demo_decided = []"
  using demo_release by (simp_all add: demo_decided_def)

lemma demo_released_reachable: "reachable dm_start dm_step demo_released"
  unfolding demo_released_def by (rule reach_step [OF demo_dm_reachable dm_plan])

text \<open>
  What a release changes: nothing but the pending flag of its own resource, the pending
  decision and the bookings of the released train.
\<close>

lemma planNext_release_frame:
  assumes "dm_inv b m" "planNext m rid now wall = (d, m')" "dd_action d = RELEASE"
    and "corridorState m rid = Some co"
  shows "corridorState m' k = (if k = rid then Some (co\<lparr>co_command_pending := True\<rparr>) else corridorState m k)"
    and "um_find (dm_pending_decisions m') k = (if k = rid then Some d else um_find (dm_pending_decisions m) k)"
    and "tryReserveAtomically (dm_reservations m) (dd_train_id d)
       (dd_reserved_intersection_movement_ids d) now = Inr (dm_reservations m')"
    and "dd_train_id d \<noteq> []"
    and "\<not> co_command_pending co" and "co_occupancy co < co_capacity co"
proof -
  from planNext_release [OF dm_inv_rm [OF assms(1)] assms(2,3)]
  obtain r where d: "d = decide (dm_policy m) (asked_context m rid co now wall)" and res: "tryReserveAtomically (dm_reservations m) (dd_train_id d)
       (dd_reserved_intersection_movement_ids d) now = Inr r"
    and m': "m' = (planPrepare m rid now)\<lparr>dm_reservations := r,
       dm_corridors := um_put rid (co\<lparr>co_command_pending := True\<rparr>) (dm_corridors m),
       dm_pending_decisions := um_put rid d (dm_pending_decisions m)\<rparr>"
    using assms(4) unfolding corridorState_def by (metis option.inject)
  show "corridorState m' k = (if k = rid then Some (co\<lparr>co_command_pending := True\<rparr>) else corridorState m k)"
    "um_find (dm_pending_decisions m') k = (if k = rid then Some d else um_find (dm_pending_decisions m) k)"
    by (simp_all add: m' corridorState_def umap_simps)
  show "tryReserveAtomically (dm_reservations m) (dd_train_id d)
       (dd_reserved_intersection_movement_ids d) now = Inr (dm_reservations m')"
    using res by (simp add: m')
  then show "dd_train_id d \<noteq> []"
    using rms.reserve_ok [OF dm_inv_rm [OF assms(1)]] by blast
  show "\<not> co_command_pending co" "co_occupancy co < co_capacity co"
    using dp.policy_not_pending dp.policy_room assms(3) unfolding d by fastforce+
qed

lemma pending_iff:
  "dm_inv b m \<Longrightarrow> corridorState m r = Some co \<Longrightarrow>
   co_command_pending co \<longleftrightarrow> um_find (dm_pending_decisions m) r \<noteq> None"
  using dm_inv_pending [of _ m] unfolding pending_ok_def corridorState_def by (metis option.inject)

text \<open>C6: interlock of the two directions. In every reachable state of the dispatch manager, two
  different resources of the same track are never both busy (occupied or holding an
  unacknowledged release): trains are never let onto one track from both ends.\<close>

theorem directions_interlocked:
  assumes "reachable dm_start dm_step m"
    and "corridorState m r1 = Some c1" and "corridorState m r2 = Some c2" and "r1 \<noteq> r2"
    and "co_corridor_id c1 = co_corridor_id c2"
  shows "\<not> (corridor_busy c1 \<and> corridor_busy c2)"
  using dm_inv_interlock [OF dm.inv_reachable [OF assms(1)]] assms(2-)
  unfolding interlock_def no_opposing_def corridorState_def by metis

lemma directions_interlocked_witness:
  "\<not> (corridor_busy (the (corridorState demo_released ''c:F'')) \<and>
      corridor_busy (the (corridorState demo_dm ''c:R'')))"
proof -
  have "corridorState demo_dm ''c:F'' = Some demo_waiting" by (simp add: corridorState_def demo_dm_sel)
  note frame = planNext_release_frame(1) [OF dm.inv_reachable [OF demo_dm_reachable] demo_plan
    demo_decided_sel(1) this]
  have rev: "corridorState demo_dm ''c:R'' =
      Some ((demo_corridor [])\<lparr>co_corridor_resource_id := ''c:R'', co_direction := REVERSE\<rparr>)"
    by (simp add: corridorState_def demo_dm_defs)
  show ?thesis
    by (rule directions_interlocked [OF demo_released_reachable, of "''c:F''" _ "''c:R''"])
      (simp_all add: frame rev demo_waiting_def demo_corridor_def)
qed

text \<open>C24: capacity and bookkeeping. In every reachable state the occupancy of a resource is at most its
  capacity, it is marked pending exactly when a decision is stored for it, and every stored
  decision belongs to a known resource.\<close>

theorem capacity_and_pending_consistent:
  assumes "reachable dm_start dm_step m"
  shows "(\<forall>r co. corridorState m r = Some co \<longrightarrow> co_occupancy co \<le> co_capacity co \<and>
      (co_command_pending co \<longleftrightarrow> um_find (dm_pending_decisions m) r \<noteq> None)) \<and>
    (\<forall>r. um_find (dm_pending_decisions m) r \<noteq> None \<longrightarrow> corridorState m r \<noteq> None)"
proof -
  have inv: "dm_inv False m" using dm.inv_reachable [OF assms] .
  have "um_find (dm_pending_decisions m) r \<noteq> None \<Longrightarrow> um_find (dm_corridors m) r \<noteq> None" for r
    using dm_inv_pending [OF inv] unfolding pending_ok_def by (metis option.distinct(1))
  then show ?thesis
    using corridors_okD [OF dm_inv_corridors [OF inv]] pending_iff [OF inv]
    unfolding corridorState_def by blast
qed

lemma capacity_and_pending_consistent_witness:
  "um_find (dm_pending_decisions demo_released) ''c:F'' \<noteq> None \<and>
   co_occupancy (the (corridorState demo_released ''c:F'')) \<le>
     co_capacity (the (corridorState demo_released ''c:F''))"
proof -
  have "corridorState demo_dm ''c:F'' = Some demo_waiting" by (simp add: corridorState_def demo_dm_sel)
  note frame = planNext_release_frame(1) [OF dm.inv_reachable [OF demo_dm_reachable] demo_plan
    demo_decided_sel(1) this]
  then have st: "corridorState demo_released ''c:F'' = Some (demo_waiting\<lparr>co_command_pending := True\<rparr>)"
    by simp
  show ?thesis
    using conjunct1 [OF capacity_and_pending_consistent [OF demo_released_reachable], rule_format, OF st] st
    by simp
qed

text \<open>C11: what a release guarantees. If \<open>planNext\<close> releases a train in a reachable state, then no other
  resource of the track was busy, the resource was fresh, not pending, below its capacity and its
  minimum headway after the last entry was over; the train was one of its waiting candidates, all
  of its intersection movements were free and are now booked for it (and nothing else is), and
  no other resource changed.\<close>

theorem planNext_release_is_safe:
  assumes "reachable dm_start dm_step m"
    and "planNext m rid now wall = (d, m')" and "dd_action d = RELEASE"
  shows "\<exists>co. corridorState m rid = Some co \<and>
    no_opposing (corridorState m) rid (co_corridor_id co) \<and>
    \<not> co_command_pending co \<and> co_occupancy co < co_capacity co \<and> co_downstream_available co \<and>
    co_received_at_wall_ms co \<le> wall \<and>
    wall - co_received_at_wall_ms co \<le> pc_telemetry_stale_wall_ms (dm_policy m) \<and>
    (co_last_entry_simulation_ms co = 0 \<or> co_last_entry_simulation_ms co \<le> now \<and>
       minimumHeadway (dm_policy m) co \<le> now - co_last_entry_simulation_ms co) \<and>
    (\<exists>cand \<in> set (co_candidates co). dc_train_id cand = dd_train_id d \<and>
       dc_required_intersection_movement_ids cand = dd_reserved_intersection_movement_ids d) \<and>
    reservable (dm_reservations m) now (dd_reserved_intersection_movement_ids d) \<and>
    (\<forall>t k. rm_holds (dm_reservations m') t k \<longleftrightarrow> rm_holds (dm_reservations m) t k \<or>
       t = dd_train_id d \<and> k \<in> set (dd_reserved_intersection_movement_ids d)) \<and>
    (\<forall>k. corridorState m' k = (if k = rid then Some (co\<lparr>co_command_pending := True\<rparr>)
       else corridorState m k)) \<and>
    um_find (dm_pending_decisions m') rid = Some d"
proof -
  have inv: "dm_inv False m" using dm.inv_reachable [OF assms(1)] .
  have rmi: "rm_inv (dm_reservations m)" and wf: "rm_wf (dm_reservations m)"
    using dm_inv_rm [OF inv] by (simp_all add: rm_inv_def)
  from planNext_release [OF rmi assms(2,3)]
  obtain co where co: "corridorState m rid = Some co" "find_opposing m rid co = None"
    and d: "d = decide (dm_policy m) (asked_context m rid co now wall)"
    unfolding corridorState_def by blast
  have rel: "dd_action (decide (dm_policy m) (asked_context m rid co now wall)) = RELEASE"
    using assms(3) d by simp
  have hard: "hard_constraints (dm_policy m) (asked_context m rid co now wall)"
    using rel decide_cases(1) by blast
  have hw: "minimumHeadway (dm_policy m) (co\<lparr>co_candidates := x\<rparr>) = minimumHeadway (dm_policy m) co" for x
    by (simp add: minimumHeadway_def)
  have pos: "minimumHeadway (dm_policy m) co \<noteq> 0"
    using dm_inv_policy [OF inv] by (simp add: minimumHeadway_def)
  have "co_last_entry_simulation_ms co = 0 \<or> co_last_entry_simulation_ms co \<le> now \<and>
       minimumHeadway (dm_policy m) co \<le> now - co_last_entry_simulation_ms co"
    using hard pos by (auto simp: hard_constraints_def Let_def hw elapsedSince_def split: if_splits)
  moreover have "no_opposing (corridorState m) rid (co_corridor_id co)"
    using find_opposing_None [OF dm_inv_wf [OF inv]] co(2)
    by (simp add: corridorState_def [abs_def])
  moreover have "\<exists>cand \<in> set (co_candidates co). dc_train_id cand = dd_train_id d \<and>
       dc_required_intersection_movement_ids cand = dd_reserved_intersection_movement_ids d"
    using dp.policy_candidate [OF rel] unfolding d by fastforce
  moreover note planNext_release_frame(1,2) [OF inv assms(2,3) co(1)]
  moreover from planNext_release_frame(3) [OF inv assms(2,3) co(1)] have "reservable (dm_reservations m) now (dd_reserved_intersection_movement_ids d)"
    using tryReserve_effect [OF wf] by blast
  ultimately show ?thesis
    using hard co(1) rms.reserve_holds [OF rmi planNext_release_frame(3) [OF inv assms(2,3) co(1)]]
    by (simp add: hard_constraints_def Let_def)
qed

lemma planNext_release_is_safe_witness:
  "\<exists>co. corridorState demo_dm ''c:F'' = Some co \<and> \<not> co_command_pending co \<and>
     corridorState demo_released ''c:F'' = Some (co\<lparr>co_command_pending := True\<rparr>)"
  using planNext_release_is_safe [OF demo_dm_reachable demo_plan demo_decided_sel(1)] by metis

text \<open>C25: life cycle of an accepted release. After a release, an acknowledgement by another train is
  refused without effect; the released train's own acknowledgement at time \<open>t\<close> succeeds, adds
  exactly one train to the resource, stores \<open>t\<close> as its last entry, ends the pending state, removes
  the train from the candidates and leaves the bookings and every other resource unchanged.\<close>

theorem plan_then_confirm:
  assumes "reachable dm_start dm_step m"
    and "planNext m rid now wall = (d, m')" and "dd_action d = RELEASE"
    and "corridorState m rid = Some co"
  shows "(train \<noteq> dd_train_id d \<longrightarrow> confirmEntry m' rid train t = (False, m')) \<and>
    (\<exists>m'' co''. confirmEntry m' rid (dd_train_id d) t = (True, m'') \<and>
       corridorState m'' rid = Some co'' \<and> co_occupancy co'' = co_occupancy co + 1 \<and>
       unat (co_occupancy co'') = unat (co_occupancy co) + 1 \<and>
       co_last_entry_simulation_ms co'' = t \<and> \<not> co_command_pending co'' \<and>
       (\<forall>c \<in> set (co_candidates co''). dc_train_id c \<noteq> dd_train_id d) \<and>
       um_find (dm_pending_decisions m'') rid = None \<and>
       (\<forall>k. k \<noteq> rid \<longrightarrow> corridorState m'' k = corridorState m k) \<and>
       dm_reservations m'' = dm_reservations m' \<and>
       um_find (dm_last_released_line m'') rid = Some (dd_line_id d))"
proof -
  have inv: "dm_inv False m" using dm.inv_reachable [OF assms(1)] .
  note frame = planNext_release_frame [OF inv assms(2,3,4)]
  let ?co = "co\<lparr>co_command_pending := True\<rparr>"
  have pend: "um_find (dm_pending_decisions m') rid = Some d"
    and cor: "um_find (dm_corridors m') rid = Some ?co"
    using frame(1,2) [of rid] by (simp_all add: corridorState_def)
  note room = frame(6)
  have occ: "co_occupancy (confirmedCorridor ?co tr t) = co_occupancy co + 1" for tr
    using room by (simp add: confirmedCorridor_def)
  have other: "corridorState m'' k = corridorState m k"
    if "dm_corridors m'' = um_put rid x (dm_corridors m')" "k \<noteq> rid" for m'' x k
    using that frame(1) [of k] by (simp add: corridorState_def umap_simps)
  obtain m'' where m'': "confirmEntry m' rid (dd_train_id d) t = (True, m'')"
    "dm_corridors m'' = um_put rid (confirmedCorridor ?co (dd_train_id d) t) (dm_corridors m')"
    "dm_pending_decisions m'' = um_erase rid (dm_pending_decisions m')"
    "dm_reservations m'' = dm_reservations m'"
    "dm_last_released_line m'' = um_put rid (dd_line_id d) (dm_last_released_line m')"
    by (simp add: confirmEntry_def pend cor Let_def)
  have "corridorState m'' rid = Some (confirmedCorridor ?co (dd_train_id d) t)"
    by (simp add: corridorState_def m'' umap_simps)
  moreover have "train \<noteq> dd_train_id d \<longrightarrow> confirmEntry m' rid train t = (False, m')"
    by (simp add: confirmEntry_def pend cor)
  ultimately show ?thesis
    using m'' occ other [OF m''(2)] u64_suc_less [OF room]
    by (auto simp: confirmedCorridor_def umap_simps intro!: exI [of _ m''])
qed

lemma plan_then_confirm_witness:
  "\<exists>m'' co''. confirmEntry demo_released ''c:F'' ''T1'' 12000 = (True, m'') \<and>
     corridorState m'' ''c:F'' = Some co'' \<and> co_occupancy co'' = 1"
proof -
  have "corridorState demo_dm ''c:F'' = Some demo_waiting" by (simp add: corridorState_def demo_dm_sel)
  moreover have "co_occupancy demo_waiting = 0" by (simp add: demo_waiting_def demo_corridor_def)
  ultimately show ?thesis
    using plan_then_confirm [OF demo_dm_reachable demo_plan demo_decided_sel(1), of demo_waiting "''T1''" 12000]
    by (auto simp: demo_decided_sel)
qed

text \<open>A refused release leaves no trace. If the released train held no movement before, cancelling
  its pending release restores every corridor, every pending decision, all bookings and all
  clearance times.\<close>

theorem plan_then_cancel:
  assumes "reachable dm_start dm_step m"
    and "planNext m rid now wall = (d, m')" and "dd_action d = RELEASE"
    and "\<And>k. \<not> rm_holds (dm_reservations m) (dd_train_id d) k"
  shows "\<exists>m''. cancelPending m' rid = (True, m'') \<and>
    (\<forall>k. corridorState m'' k = corridorState m k) \<and>
    (\<forall>k. um_find (dm_pending_decisions m'') k = um_find (dm_pending_decisions m) k) \<and>
    rm_holds (dm_reservations m'') = rm_holds (dm_reservations m) \<and>
    (\<forall>i k. rm_cleared_at (dm_reservations m'') i k = rm_cleared_at (dm_reservations m) i k)"
proof -
  have inv: "dm_inv False m" using dm.inv_reachable [OF assms(1)] .
  have wf: "rm_wf (dm_reservations m)" using dm_inv_rm [OF inv] by (simp add: rm_inv_def)
  obtain co where cor0: "corridorState m rid = Some co"
    using planNext_release [OF dm_inv_rm [OF inv] assms(2,3)] unfolding corridorState_def by blast
  note frame = planNext_release_frame [OF inv assms(2,3) cor0]
  note co = cor0 frame(5)
  have pend: "um_find (dm_pending_decisions m') rid = Some d"
    and cor: "um_find (dm_corridors m') rid = Some (co\<lparr>co_command_pending := True\<rparr>)"
    using frame(1,2) [of rid] by (simp_all add: corridorState_def)
  have none: "um_find (dm_pending_decisions m) rid = None"
    using pending_iff [OF inv co(1)] co(2) by blast
  define m'' where "m'' = snd (cancelPending m' rid)"
  have m'': "cancelPending m' rid = (True, m'')"
    "dm_corridors m'' = um_put rid (co\<lparr>co_command_pending := True, co_command_pending := False\<rparr>) (dm_corridors m')"
    "dm_pending_decisions m'' = um_erase rid (dm_pending_decisions m')"
    "dm_reservations m'' = cancelTrain (dm_reservations m') (dd_train_id d)"
    unfolding m''_def by (simp_all add: cancelPending_def clearPendingFlag_def pend cor Let_def)
  have "corridorState m'' k = corridorState m k" for k
    using co frame(1) [of k] by (simp add: corridorState_def m'' umap_simps)
  moreover have "um_find (dm_pending_decisions m'') k = um_find (dm_pending_decisions m) k" for k
    using frame(2) [of k] none by (simp add: m'' umap_simps)
  moreover have "rm_holds (dm_reservations m'') = rm_holds (dm_reservations m)"
    unfolding m'' by (rule rms.reserve_cancel [OF dm_inv_rm [OF inv] frame(3) assms(4)])
  moreover have "rm_cleared_at (dm_reservations m'') i k = rm_cleared_at (dm_reservations m) i k" for i k
    unfolding m'' using tryReserve_effect [OF wf frame(3)] by (simp add: cancelTrain_frame)
  ultimately show ?thesis using m''(1) by blast
qed

lemma plan_then_cancel_witness:
  "\<exists>m''. cancelPending demo_released ''c:F'' = (True, m'') \<and>
     (\<forall>k. corridorState m'' k = corridorState demo_dm k)"
proof -
  have "\<not> rm_holds (dm_reservations demo_dm) (dd_train_id demo_decided) k" for k
    by (simp add: demo_dm_sel rm_holds_def rm_active_def new_reservation_manager_def)
  then show ?thesis
    using plan_then_cancel [OF demo_dm_reachable demo_plan demo_decided_sel(1)] by blast
qed

end
