(* ===== verification/Monitor.thy ===== *)
theory Monitor
  imports Prelude Double
begin

text \<open>
  \<open>TrainMonitor\<close> (server/include/TrainMonitor.h, server/src/TrainMonitor.cpp): the latest
  telemetry and the dispatch phase of every train. Telemetry is validated and never goes back in
  time; the phase belongs to the server and telemetry does not touch it. The state is the hash
  map \<open>trains_\<close>.
\<close>

subsection \<open>Data\<close>

datatype route_travel_direction = TRAVEL_FORWARD | TRAVEL_REVERSE

datatype train_dispatch_phase =
  MONITORED | APPROACHING | WAITING_PERMISSION | RELEASE_PENDING | INSIDE_RESOURCE

record train_telemetry =
  tt_train_id :: string
  tt_line_id :: string
  tt_x :: double
  tt_y :: double
  tt_z :: double
  tt_speed :: double
  tt_route_index :: size_t
  tt_route_position :: double
  tt_travel_direction :: route_travel_direction
  tt_simulation_time_ms :: u64
  tt_received_at_wall_ms :: u64

record monitored_train =
  mt_telemetry :: train_telemetry
  mt_phase :: train_dispatch_phase
  mt_controlled_resource_id :: string

record train_batch_update_result =
  br_accepted :: size_t
  br_ignored_out_of_order :: size_t
  br_invalid :: size_t
  br_issued_commands :: size_t
  br_persistence_ok :: bool
  br_persistence_error :: string

definition empty_batch_result :: train_batch_update_result where
  "empty_batch_result = \<lparr>br_accepted = 0, br_ignored_out_of_order = 0, br_invalid = 0,
     br_issued_commands = 0, br_persistence_ok = True, br_persistence_error = []\<rparr>"

type_synonym train_monitor = "(string, monitored_train) umap"

subsection \<open>Operations\<close>

definition validTelemetry :: "train_telemetry \<Rightarrow> bool" where
  "validTelemetry t \<longleftrightarrow> tt_train_id t \<noteq> [] \<and> tt_line_id t \<noteq> [] \<and> tt_received_at_wall_ms t \<noteq> 0 \<and>
     isfinite (tt_x t) \<and> isfinite (tt_y t) \<and> isfinite (tt_z t) \<and> isfinite (tt_speed t) \<and>
     isfinite (tt_route_position t) \<and> 0 \<le> tt_route_position t"

text \<open>One iteration of the batch loop.\<close>

definition upsertOne ::
    "train_batch_update_result \<times> train_monitor \<Rightarrow> train_telemetry \<Rightarrow>
     train_batch_update_result \<times> train_monitor" where
  "upsertOne st t = (case st of (res, trains) \<Rightarrow>
     if \<not> validTelemetry t then (res\<lparr>br_invalid := br_invalid res + 1\<rparr>, trains)
     else case um_find trains (tt_train_id t) of
       None \<Rightarrow> (res\<lparr>br_accepted := br_accepted res + 1\<rparr>, um_put (tt_train_id t)
         \<lparr>mt_telemetry = t, mt_phase = MONITORED, mt_controlled_resource_id = []\<rparr> trains)
     | Some e \<Rightarrow>
         if tt_received_at_wall_ms t < tt_received_at_wall_ms (mt_telemetry e)
         then (res\<lparr>br_ignored_out_of_order := br_ignored_out_of_order res + 1\<rparr>, trains)
         else (res\<lparr>br_accepted := br_accepted res + 1\<rparr>,
               um_put (tt_train_id t) (e\<lparr>mt_telemetry := t\<rparr>) trains))"

definition upsertBatch ::
    "train_monitor \<Rightarrow> train_telemetry list \<Rightarrow> train_batch_update_result \<times> train_monitor" where
  "upsertBatch trains batch = foldl upsertOne (empty_batch_result, trains) batch"

definition monitor_get :: "train_monitor \<Rightarrow> string \<Rightarrow> monitored_train option" where
  "monitor_get trains train_id = um_find trains train_id"

definition monitor_snapshot :: "train_monitor \<Rightarrow> monitored_train list" where
  "monitor_snapshot trains = sort_key (\<lambda>m. tt_train_id (mt_telemetry m)) (map snd trains)"

definition setPhase ::
    "train_monitor \<Rightarrow> string \<Rightarrow> train_dispatch_phase \<Rightarrow> string \<Rightarrow> bool \<times> train_monitor" where
  "setPhase trains train_id phase rid = (case um_find trains train_id of
     None \<Rightarrow> (False, trains)
   | Some e \<Rightarrow>
       let e1 = e\<lparr>mt_phase := phase\<rparr>;
           e2 = (if rid \<noteq> [] \<or> (phase \<noteq> RELEASE_PENDING \<and> phase \<noteq> INSIDE_RESOURCE)
                 then e1\<lparr>mt_controlled_resource_id := rid\<rparr> else e1)
       in (True, um_put train_id e2 trains))"

definition telemetryStale :: "u64 \<Rightarrow> u64 \<Rightarrow> monitored_train \<Rightarrow> bool" where
  "telemetryStale now stale_after m = (let received = tt_received_at_wall_ms (mt_telemetry m)
     in received = 0 \<or> now < received \<or> stale_after < now - received)"

definition removeStale :: "train_monitor \<Rightarrow> u64 \<Rightarrow> u64 \<Rightarrow> string list \<times> train_monitor" where
  "removeStale trains now stale_after =
     (map fst (filter (\<lambda>(_, m). telemetryStale now stale_after m) trains),
      um_erase_if (\<lambda>(_, m). telemetryStale now stale_after m) trains)"

definition monitor_clear :: "train_monitor \<Rightarrow> train_monitor" where
  "monitor_clear trains = []"

definition monitor_size :: "train_monitor \<Rightarrow> nat" where
  "monitor_size trains = length trains"

subsection \<open>Invariant\<close>

definition mon_inv :: "train_monitor \<Rightarrow> bool" where
  "mon_inv ts \<longleftrightarrow> um_wf ts \<and>
     (\<forall>k m. um_find ts k = Some m \<longrightarrow> tt_train_id (mt_telemetry m) = k \<and> validTelemetry (mt_telemetry m))"

lemma mon_invD:
  "mon_inv ts \<Longrightarrow> um_find ts k = Some m \<Longrightarrow> tt_train_id (mt_telemetry m) = k \<and> validTelemetry (mt_telemetry m)"
  by (simp add: mon_inv_def)

lemma mon_inv_wf: "mon_inv ts \<Longrightarrow> um_wf ts"
  by (simp add: mon_inv_def)

lemma mon_inv_put:
  "mon_inv ts \<Longrightarrow> tt_train_id (mt_telemetry m) = k \<Longrightarrow> validTelemetry (mt_telemetry m) \<Longrightarrow>
   mon_inv (um_put k m ts)"
  by (simp add: mon_inv_def umap_simps)

lemma mon_inv_upsertOne: "mon_inv (snd st) \<Longrightarrow> mon_inv (snd (upsertOne st t))"
  by (cases st) (auto simp: upsertOne_def intro!: mon_inv_put split: option.split)

lemma mon_inv_upsertBatch: "mon_inv ts \<Longrightarrow> mon_inv (snd (upsertBatch ts batch))"
  unfolding upsertBatch_def
  by (rule foldl_invariant [where P = "\<lambda>st. mon_inv (snd st)"]) (simp_all add: mon_inv_upsertOne)

lemma mon_inv_setPhase: "mon_inv ts \<Longrightarrow> mon_inv (snd (setPhase ts k p r))"
  by (auto simp: setPhase_def Let_def intro!: mon_inv_put dest: mon_invD split: option.split)

lemma um_find_removeStale:
  "um_wf ts \<Longrightarrow> um_find (snd (removeStale ts now st)) k =
     (case um_find ts k of None \<Rightarrow> None | Some m \<Rightarrow> if telemetryStale now st m then None else Some m)"
  by (simp add: removeStale_def um_find_erase_if split: option.split)

lemma mon_inv_removeStale: "mon_inv ts \<Longrightarrow> mon_inv (snd (removeStale ts now st))"
proof -
  assume inv: "mon_inv ts"
  have "um_find ts k = Some m" if "um_find (snd (removeStale ts now st)) k = Some m" for k m
    using that by (simp add: um_find_removeStale [OF mon_inv_wf [OF inv]] split: option.splits if_splits)
  moreover have "um_wf (snd (removeStale ts now st))"
    using mon_inv_wf [OF inv] by (simp add: removeStale_def)
  ultimately show ?thesis using mon_invD [OF inv] unfolding mon_inv_def by blast
qed

inductive mon_step :: "train_monitor \<Rightarrow> train_monitor \<Rightarrow> bool" where
  mon_batch: "mon_step ts (snd (upsertBatch ts batch))"
| mon_phase: "mon_step ts (snd (setPhase ts k p r))"
| mon_stale: "mon_step ts (snd (removeStale ts now st))"
| mon_clear: "mon_step ts (monitor_clear ts)"

definition mon_start :: "train_monitor \<Rightarrow> bool" where
  "mon_start ts \<longleftrightarrow> ts = []"

interpretation mon: inductive_invariant mon_start mon_step mon_inv
proof
  fix ts ts' assume "mon_inv ts" "mon_step ts ts'"
  from this(2,1) show "mon_inv ts'"
    by cases (auto intro: mon_inv_upsertBatch mon_inv_setPhase mon_inv_removeStale
        simp: monitor_clear_def mon_inv_def [of "[]"])
qed (simp add: mon_start_def mon_inv_def)

subsection \<open>Effect of a batch\<close>

lemma upsertOne_count:
  assumes "upsertOne (res, ts) t = (res', ts')"
  shows "br_accepted res' + br_ignored_out_of_order res' + br_invalid res' =
    br_accepted res + br_ignored_out_of_order res + br_invalid res + 1"
  using assms by (auto simp: upsertOne_def split: if_splits option.splits)

lemma upsertBatch_count_gen:
  "foldl upsertOne (res, ts) batch = (res', ts') \<Longrightarrow>
   br_accepted res' + br_ignored_out_of_order res' + br_invalid res' =
     br_accepted res + br_ignored_out_of_order res + br_invalid res + of_nat (length batch)"
proof (induction batch arbitrary: res ts)
  case (Cons t batch)
  obtain r s where one: "upsertOne (res, ts) t = (r, s)" by fastforce
  show ?case using Cons.IH [of r s] Cons.prems upsertOne_count [OF one] by (simp add: one algebra_simps)
qed simp

text \<open>The order in which a monitored train's record may change through telemetry.\<close>

definition telemetry_newer :: "monitored_train option \<Rightarrow> monitored_train option \<Rightarrow> bool" where
  "telemetry_newer old new \<longleftrightarrow> (case old of
     None \<Rightarrow> (\<forall>m. new = Some m \<longrightarrow> mt_phase m = MONITORED \<and> mt_controlled_resource_id m = [])
   | Some e \<Rightarrow> (\<exists>m. new = Some m \<and> mt_phase m = mt_phase e \<and>
        mt_controlled_resource_id m = mt_controlled_resource_id e \<and>
        tt_received_at_wall_ms (mt_telemetry e) \<le> tt_received_at_wall_ms (mt_telemetry m)))"

lemma telemetry_newer_trans:
  "telemetry_newer a b \<Longrightarrow> telemetry_newer b c \<Longrightarrow> telemetry_newer a c"
  by (cases a; cases b; cases c) (auto simp: telemetry_newer_def)

lemma telemetry_newer_same: "telemetry_newer (Some e) (Some e)" "telemetry_newer None None"
  by (simp_all add: telemetry_newer_def)

lemma upsertOne_newer: "telemetry_newer (um_find ts k) (um_find (snd (upsertOne (res, ts) t)) k)"
  by (auto simp: upsertOne_def telemetry_newer_def umap_simps not_less split: option.splits)

lemma upsertOne_untouched:
  "tt_train_id t \<noteq> k \<Longrightarrow> um_find (snd (upsertOne (res, ts) t)) k = um_find ts k"
  by (auto simp: upsertOne_def umap_simps split: option.splits)

lemma upsertBatch_newer: "telemetry_newer (um_find ts k) (um_find (snd (foldl upsertOne (res, ts) batch)) k)"
proof (induction batch arbitrary: res ts)
  case Nil
  show ?case by (cases "um_find ts k") (simp_all add: telemetry_newer_same)
next
  case (Cons t batch)
  show ?case
    using telemetry_newer_trans [OF upsertOne_newer [of ts k res t]] Cons.IH
    by (metis foldl_Cons prod.collapse)
qed

lemma upsertBatch_untouched:
  "(\<forall>t \<in> set batch. tt_train_id t \<noteq> k) \<Longrightarrow>
   um_find (snd (foldl upsertOne (res, ts) batch)) k = um_find ts k"
proof (induction batch arbitrary: res ts)
  case (Cons t batch)
  then show ?case using upsertOne_untouched [of t k res ts] Cons.IH
    by (metis foldl_Cons list.set_intros prod.collapse)
qed simp

text \<open>The telemetry stored after a batch is an entry of the batch or what was there before.\<close>

lemma upsertOne_source:
  "um_find (snd (upsertOne (res, ts) t)) k = Some m \<Longrightarrow>
   mt_telemetry m = t \<or> (\<exists>e. um_find ts k = Some e \<and> mt_telemetry m = mt_telemetry e)"
  by (auto simp: upsertOne_def umap_simps split: option.splits if_splits)

lemma upsertBatch_source:
  "um_find (snd (foldl upsertOne (res, ts) batch)) k = Some m \<Longrightarrow>
   mt_telemetry m \<in> set batch \<or> (\<exists>e. um_find ts k = Some e \<and> mt_telemetry m = mt_telemetry e)"
proof (induction batch arbitrary: res ts)
  case (Cons t batch)
  obtain r s where one: "upsertOne (res, ts) t = (r, s)" by fastforce
  have "um_find (snd (foldl upsertOne (r, s) batch)) k = Some m" using Cons.prems by (simp add: one)
  then show ?case using Cons.IH [of r s] upsertOne_source [of res ts t k] by (auto simp: one)
qed auto

text \<open>Every valid entry of a batch is dominated by what is stored.\<close>

lemma upsertOne_covers:
  "validTelemetry t \<Longrightarrow> \<exists>m. um_find (snd (upsertOne (res, ts) t)) (tt_train_id t) = Some m \<and>
     tt_received_at_wall_ms t \<le> tt_received_at_wall_ms (mt_telemetry m)"
  by (auto simp: upsertOne_def umap_simps split: option.splits)

lemma upsertBatch_covers:
  "t \<in> set batch \<Longrightarrow> validTelemetry t \<Longrightarrow>
   \<exists>m. um_find (snd (foldl upsertOne (res, ts) batch)) (tt_train_id t) = Some m \<and>
     tt_received_at_wall_ms t \<le> tt_received_at_wall_ms (mt_telemetry m)"
proof (induction batch arbitrary: res ts)
  case (Cons u batch)
  obtain r s where one: "upsertOne (res, ts) u = (r, s)" by fastforce
  show ?case
  proof (cases "t \<in> set batch")
    case True
    then show ?thesis using Cons by (metis foldl_Cons prod.collapse)
  next
    case False
    with Cons.prems have "u = t" by simp
    then obtain m where "um_find s (tt_train_id t) = Some m"
      "tt_received_at_wall_ms t \<le> tt_received_at_wall_ms (mt_telemetry m)"
      using upsertOne_covers [OF Cons.prems(2), of res ts] one by auto
    then show ?thesis
      using upsertBatch_newer [of s "tt_train_id t" r batch] one by (auto simp: telemetry_newer_def)
  qed
qed simp

lemma monitor_snapshot_set: "set (monitor_snapshot ts) = snd ` set ts"
  by (simp add: monitor_snapshot_def)

lemma upsertBatch_as_foldl: "snd (upsertBatch ts batch) = snd (foldl upsertOne (empty_batch_result, ts) batch)"
  by (simp add: upsertBatch_def)

subsection \<open>Properties\<close>

definition demo_telemetry :: "string \<Rightarrow> u64 \<Rightarrow> train_telemetry" where
  "demo_telemetry train received = \<lparr>tt_train_id = train, tt_line_id = ''L'', tt_x = 0, tt_y = 0, tt_z = 0,
     tt_speed = 0, tt_route_index = 0, tt_route_position = 0, tt_travel_direction = TRAVEL_FORWARD,
     tt_simulation_time_ms = 0, tt_received_at_wall_ms = received\<rparr>"

definition demo_monitor :: train_monitor where
  "demo_monitor = snd (upsertBatch [] [demo_telemetry ''T2'' 100, demo_telemetry ''T1'' 900])"

lemma demo_monitor_reachable: "reachable mon_start mon_step demo_monitor"
  unfolding demo_monitor_def 
  by (rule reach_step [of _ _ "[]"]) (auto intro: reach_init mon_batch simp: mon_start_def)

lemma demo_monitor_eq: "demo_monitor =
  [(''T2'', \<lparr>mt_telemetry = demo_telemetry ''T2'' 100, mt_phase = MONITORED, mt_controlled_resource_id = []\<rparr>),
   (''T1'', \<lparr>mt_telemetry = demo_telemetry ''T1'' 900, mt_phase = MONITORED, mt_controlled_resource_id = []\<rparr>)]"
  by (simp add: demo_monitor_def upsertBatch_def upsertOne_def validTelemetry_def demo_telemetry_def
      zero_double_def)

text \<open>Every entry of a batch is accounted for exactly once: the three counters of the result add up
  to the size of the batch (modulo the width of \<open>size_t\<close>), whatever the batch contains.\<close>

theorem upsertBatch_counts:
  "br_accepted (fst (upsertBatch ts batch)) + br_ignored_out_of_order (fst (upsertBatch ts batch)) +
   br_invalid (fst (upsertBatch ts batch)) = of_nat (length batch)"
proof -
  obtain res ts' where b: "foldl upsertOne (empty_batch_result, ts) batch = (res, ts')" by fastforce
  show ?thesis using upsertBatch_count_gen [OF b]
    by (simp add: upsertBatch_def b) (simp add: empty_batch_result_def)
qed

text \<open>What a batch does to one train. Its stored reception time never decreases; the phase and the
  controlled resource of a train already known are not touched; a new train starts as merely
  monitored; stored telemetry is an entry of the batch or the old one; a train the batch does not
  mention is unchanged; and no valid entry of the batch is newer than what is stored in the end.\<close>

theorem upsertBatch_effect:
  fixes ts batch defines "ts' \<equiv> snd (upsertBatch ts batch)"
  shows "telemetry_newer (monitor_get ts k) (monitor_get ts' k) \<and>
    (\<forall>m. monitor_get ts' k = Some m \<longrightarrow> mt_telemetry m \<in> set batch \<or>
       (\<exists>e. monitor_get ts k = Some e \<and> mt_telemetry m = mt_telemetry e)) \<and>
    (k \<notin> tt_train_id ` set batch \<longrightarrow> monitor_get ts' k = monitor_get ts k) \<and>
    (\<forall>t \<in> set batch. validTelemetry t \<longrightarrow> (\<exists>m. monitor_get ts' (tt_train_id t) = Some m \<and>
       tt_received_at_wall_ms t \<le> tt_received_at_wall_ms (mt_telemetry m)))"
proof -
  have "k \<notin> tt_train_id ` set batch \<Longrightarrow> \<forall>t \<in> set batch. tt_train_id t \<noteq> k" by auto
  then show ?thesis
    unfolding ts'_def upsertBatch_as_foldl monitor_get_def
    using upsertBatch_newer upsertBatch_source upsertBatch_untouched upsertBatch_covers by blast
qed

lemma upsertBatch_effect_witness:
  "\<exists>m. monitor_get demo_monitor ''T2'' = Some m \<and> 100 \<le> tt_received_at_wall_ms (mt_telemetry m)"
proof -
  have "validTelemetry (demo_telemetry ''T2'' 100)"
    by (simp add: validTelemetry_def demo_telemetry_def zero_double_def)
  then show ?thesis
    using upsertBatch_effect [where ts = "[]" and k = "''T2''" and
        batch = "[demo_telemetry ''T2'' 100, demo_telemetry ''T1'' 900]"]
    unfolding demo_monitor_def by (simp add: demo_telemetry_def)
qed

text \<open>The snapshot of a reachable monitor lists exactly the monitored trains, each once, in strictly
  increasing order of their ids, and all of their telemetry is valid.\<close>

theorem snapshot_sorted_and_complete:
  assumes "reachable mon_start mon_step ts"
  shows "sorted_wrt (<) (map (\<lambda>m. tt_train_id (mt_telemetry m)) (monitor_snapshot ts)) \<and>
    (\<forall>m. m \<in> set (monitor_snapshot ts) \<longleftrightarrow> monitor_get ts (tt_train_id (mt_telemetry m)) = Some m) \<and>
    (\<forall>m \<in> set (monitor_snapshot ts). validTelemetry (mt_telemetry m)) \<and>
    length (monitor_snapshot ts) = monitor_size ts"
proof -
  have inv: "mon_inv ts" using mon.inv_reachable [OF assms] .
  note wf = mon_inv_wf [OF inv]
  let ?id = "\<lambda>m. tt_train_id (mt_telemetry m)"
  have key: "?id m = k" if "(k, m) \<in> set ts" for k m
    using that um_mem_iff [OF wf] mon_invD [OF inv] by blast
  have mem: "m \<in> set (monitor_snapshot ts) \<longleftrightarrow> monitor_get ts (?id m) = Some m" for m
  proof
    assume "m \<in> set (monitor_snapshot ts)"
    then obtain k where "(k, m) \<in> set ts" unfolding monitor_snapshot_set by force
    then show "monitor_get ts (?id m) = Some m"
      using um_mem_iff [OF wf] key unfolding monitor_get_def by blast
  next
    assume "monitor_get ts (?id m) = Some m"
    then show "m \<in> set (monitor_snapshot ts)"
      unfolding monitor_snapshot_set monitor_get_def by (metis image_eqI snd_conv um_find_mem)
  qed
  have ids: "map (\<lambda>x. ?id (snd x)) ts = map fst ts" using key by (intro map_cong refl) auto
  have "distinct (map ?id (map snd ts))" using wf unfolding um_wf_def map_map comp_def ids .
  then have "distinct (map ?id (monitor_snapshot ts))"
    unfolding monitor_snapshot_def distinct_map [of ?id] distinct_sort set_sort .
  moreover have "sorted (map ?id (monitor_snapshot ts))" by (simp add: monitor_snapshot_def)
  ultimately have "sorted_wrt (<) (map ?id (monitor_snapshot ts))" by (simp add: strict_sorted_iff)
  moreover have "\<forall>m \<in> set (monitor_snapshot ts). validTelemetry (mt_telemetry m)"
    using mem mon_invD [OF inv] unfolding monitor_get_def by blast
  moreover have "length (monitor_snapshot ts) = monitor_size ts"
    by (simp add: monitor_snapshot_def monitor_size_def)
  ultimately show ?thesis using mem by blast
qed

lemma snapshot_sorted_and_complete_witness:
  "length (monitor_snapshot demo_monitor) = monitor_size demo_monitor \<and> monitor_size demo_monitor = 2"
  using snapshot_sorted_and_complete [OF demo_monitor_reachable]
  by (simp add: monitor_size_def demo_monitor_eq)

text \<open>Expiry is exact. \<open>removeStale\<close> reports exactly the trains whose telemetry is older than the
  limit (or from the future), removes exactly those, and leaves every other train as it was.\<close>

theorem removeStale_exact:
  assumes "reachable mon_start mon_step ts" and "removeStale ts now limit = (removed, ts')"
  shows "(k \<in> set removed \<longleftrightarrow> (\<exists>m. monitor_get ts k = Some m \<and>
       (now < tt_received_at_wall_ms (mt_telemetry m) \<or>
        limit < now - tt_received_at_wall_ms (mt_telemetry m)))) \<and> distinct removed \<and>
    monitor_get ts' k = (if k \<in> set removed then None else monitor_get ts k)"
proof -
  have inv: "mon_inv ts" using mon.inv_reachable [OF assms(1)] .
  note wf = mon_inv_wf [OF inv]
  have r: "removed = map fst (filter (\<lambda>(_, m). telemetryStale now limit m) ts)"
    and ts': "ts' = snd (removeStale ts now limit)"
    using assms(2) by (simp_all add: removeStale_def)
  have "k \<in> set removed \<longleftrightarrow> (\<exists>m. um_find ts k = Some m \<and> telemetryStale now limit m)"
    using um_mem_iff [OF wf] unfolding r by force
  moreover have "telemetryStale now limit m \<longleftrightarrow> now < tt_received_at_wall_ms (mt_telemetry m) \<or>
      limit < now - tt_received_at_wall_ms (mt_telemetry m)" if "um_find ts k = Some m" for m
    using mon_invD [OF inv that] by (simp add: telemetryStale_def validTelemetry_def Let_def)
  moreover have "distinct removed"
    using wf unfolding r um_wf_def by (simp add: distinct_map_filter)
  ultimately show ?thesis
    unfolding ts' monitor_get_def um_find_removeStale [OF wf]
    by (auto split: option.splits)
qed

lemma removeStale_exact_witness:
  "''T2'' \<in> set (fst (removeStale demo_monitor 1000 500)) \<and>
   ''T1'' \<notin> set (fst (removeStale demo_monitor 1000 500))"
proof -
  obtain removed ts' where r: "removeStale demo_monitor 1000 500 = (removed, ts')" by fastforce
  have "monitor_get demo_monitor ''T2'' = Some \<lparr>mt_telemetry = demo_telemetry ''T2'' 100,
      mt_phase = MONITORED, mt_controlled_resource_id = []\<rparr>"
    "monitor_get demo_monitor ''T1'' = Some \<lparr>mt_telemetry = demo_telemetry ''T1'' 900,
      mt_phase = MONITORED, mt_controlled_resource_id = []\<rparr>"
    by (simp_all add: monitor_get_def demo_monitor_eq)
  then show ?thesis
    using removeStale_exact [OF demo_monitor_reachable r, of "''T2''"]
      removeStale_exact [OF demo_monitor_reachable r, of "''T1''"] r
    by (simp add: demo_telemetry_def)
qed

end
