(* ===== verification/Geometry.thy ===== *)
theory Geometry
  imports Reservation Double Text
begin

text \<open>
  The data of \<open>LineRouteAnalyzer.h\<close> and the geometric helpers at the head of
  server/src/LineRouteAnalyzer.cpp: points on a route, the overlap of two route segments, their
  intersection, and the uniform grid that proposes which segments to compare.

  \<^item> Indices into vectors are natural numbers; a conversion \<open>static_cast<size_t>\<close> of a double that
    does not fit is undefined behaviour and makes the result \<open>None\<close>.
  \<^item> \<open>std::acos\<close> is an argument (\<open>acos\<close>): its accuracy is left to the platform's C library. The
    code only compares the angle with a threshold.
\<close>

subsection \<open>Data\<close>

record line_route_point =
  pt_point_id :: string
  pt_x :: double
  pt_y :: double
  pt_z :: double
  pt_track_segment_id :: string

record line_route =
  lr_line_id :: string
  lr_line_name :: string
  lr_transport_type :: string
  lr_geometry_source :: string
  lr_is_loop :: bool
  lr_points :: "line_route_point list"
  lr_target_headway_ms :: u64

datatype route_direction_relation = SAME | OPPOSITE

record shared_corridor_member =
  sm_line_id :: string
  sm_start_position :: double
  sm_end_position :: double
  sm_occurrence_id :: string
  sm_start_segment :: nat
  sm_end_segment :: nat
  sm_direction_relation :: route_direction_relation

record shared_corridor_definition =
  sd_corridor_id :: string
  sd_start_x :: double
  sd_start_y :: double
  sd_start_z :: double
  sd_end_x :: double
  sd_end_y :: double
  sd_end_z :: double
  sd_length :: double
  sd_geometry :: "line_route_point list"
  sd_members :: "shared_corridor_member list"

record line_intersection_definition =
  li_intersection_id :: string
  li_x :: double
  li_y :: double
  li_z :: double
  li_line_a_id :: string
  li_line_b_id :: string
  li_line_a_segment :: nat
  li_line_b_segment :: nat
  li_line_a_movement_id :: string
  li_line_b_movement_id :: string

record line_topology_analysis =
  la_shared_corridors :: "shared_corridor_definition list"
  la_intersections :: "line_intersection_definition list"
  la_movements :: "line_intersection_movement list"

record line_route_analyzer_config =
  ac_point_merge_tolerance :: double
  ac_shared_track_tolerance :: double
  ac_vertical_separation_tolerance :: double
  ac_shared_corridor_min_length :: double
  ac_intersection_min_angle_degrees :: double

definition default_point :: line_route_point where
  "default_point = \<lparr>pt_point_id = [], pt_x = 0, pt_y = 0, pt_z = 0, pt_track_segment_id = []\<rparr>"

definition default_member :: shared_corridor_member where
  "default_member = \<lparr>sm_line_id = [], sm_start_position = 0, sm_end_position = 0,
     sm_occurrence_id = [], sm_start_segment = 0, sm_end_segment = 0, sm_direction_relation = SAME\<rparr>"

definition default_corridor_definition :: shared_corridor_definition where
  "default_corridor_definition = \<lparr>sd_corridor_id = [], sd_start_x = 0, sd_start_y = 0,
     sd_start_z = 0, sd_end_x = 0, sd_end_y = 0, sd_end_z = 0, sd_length = 0, sd_geometry = [],
     sd_members = []\<rparr>"

definition default_analyzer_config :: line_route_analyzer_config where
  "default_analyzer_config = \<lparr>ac_point_merge_tolerance = Fin 5,
     ac_shared_track_tolerance = Fin (5 / 4), ac_vertical_separation_tolerance = Fin 3,
     ac_shared_corridor_min_length = Fin 60, ac_intersection_min_angle_degrees = Fin 15\<rparr>"

definition empty_analysis :: line_topology_analysis where
  "empty_analysis = \<lparr>la_shared_corridors = [], la_intersections = [], la_movements = []\<rparr>"

subsection \<open>Points on a route\<close>

definition distance2d :: "line_route_point \<Rightarrow> line_route_point \<Rightarrow> double" where
  "distance2d l r = std_hypot (pt_x l - pt_x r) (pt_z l - pt_z r)"

definition interpolate :: "line_route_point \<Rightarrow> line_route_point \<Rightarrow> double \<Rightarrow> line_route_point" where
  "interpolate s e t = default_point\<lparr>pt_x := pt_x s + (pt_x e - pt_x s) * t,
     pt_y := pt_y s + (pt_y e - pt_y s) * t, pt_z := pt_z s + (pt_z e - pt_z s) * t\<rparr>"

definition segmentLength :: "line_route \<Rightarrow> nat \<Rightarrow> double" where
  "segmentLength route i = distance2d (lr_points route ! i) (lr_points route ! (i + 1))"

definition clamp01 :: "double \<Rightarrow> double" where
  "clamp01 v = cpp_max 0 (cpp_min 1 v)"

definition last_segment :: "line_route \<Rightarrow> nat" where
  "last_segment route = length (lr_points route) - 2"

definition routePointAt :: "line_route \<Rightarrow> double \<Rightarrow> line_route_point option" where
  "routePointAt route position0 =
     (let maximum = double_of_nat (length (lr_points route) - 1);
          position = cpp_max 0 (cpp_min maximum position0)
      in case nat_of_double (std_floor position) of
        None \<Rightarrow> None
      | Some f \<Rightarrow>
          (let segment = min (last_segment route) f
           in Some (interpolate (lr_points route ! segment) (lr_points route ! (segment + 1))
                (position - double_of_nat segment))))"

definition routeGeometry :: "line_route \<Rightarrow> double \<Rightarrow> double \<Rightarrow> line_route_point list option" where
  "routeGeometry route start0 end0 =
     (let (start, end_pos) = (if end0 < start0 then (end0, start0) else (start0, end0))
      in case (routePointAt route start, nat_of_double (std_floor start), routePointAt route end_pos) of
        (Some p, Some f, Some q) \<Rightarrow>
          Some (p # map (\<lambda>i. lr_points route ! i)
              (takeWhile (\<lambda>i. double_of_nat i < end_pos) [f + 1..<length (lr_points route)]) @ [q])
      | _ \<Rightarrow> None)"

definition occurrence_text :: "nat \<Rightarrow> string \<Rightarrow> double \<Rightarrow> double \<Rightarrow> string" where
  "occurrence_text precision line_id s e =
     line_id @ ''@'' @ fmt_general precision s @ ''-'' @ fmt_general precision e"

definition setMemberBounds ::
    "shared_corridor_member \<Rightarrow> line_route \<Rightarrow> double \<Rightarrow> double \<Rightarrow> shared_corridor_member option" where
  "setMemberBounds member route start0 end0 =
     (let s = cpp_min start0 end0; e = cpp_max start0 end0
      in case (nat_of_double (std_floor s),
               nat_of_double (std_floor (cpp_max s (e - lit (1 / 10 ^ 9))))) of
        (Some fs, Some fe) \<Rightarrow> Some (member\<lparr>sm_start_position := s, sm_end_position := e,
            sm_start_segment := min (last_segment route) fs,
            sm_end_segment := min (last_segment route) fe,
            sm_occurrence_id := occurrence_text 6 (sm_line_id member) s e\<rparr>)
      | _ \<Rightarrow> None)"

definition geometryLength :: "line_route_point list \<Rightarrow> double" where
  "geometryLength geometry =
     foldl (\<lambda>len i. len + distance2d (geometry ! (i - 1)) (geometry ! i)) 0 [1..<length geometry]"

text \<open>
  \<open>Some None\<close>: the function returned \<open>false\<close>; \<open>Some (Some (position, distance))\<close>: it found the
  closest point of the range.
\<close>

definition project_step ::
    "line_route \<Rightarrow> double \<Rightarrow> double \<Rightarrow> line_route_point \<Rightarrow> nat \<Rightarrow> nat \<Rightarrow> double \<times> double \<Rightarrow> nat \<Rightarrow>
     double \<times> double" where
  "project_step route low high point firstseg lastseg best i =
     (let a = lr_points route ! i; b = lr_points route ! (i + 1);
          dx = pt_x b - pt_x a; dz = pt_z b - pt_z a;
          denominator = dx * dx + dz * dz;
          t0 = (if denominator \<le> lit (1 / 10 ^ 12) then 0
            else ((pt_x point - pt_x a) * dx + (pt_z point - pt_z a) * dz) / denominator);
          segment_low = (if i = firstseg then low - double_of_nat firstseg else 0);
          segment_high = (if i = lastseg then high - double_of_nat lastseg else 1);
          t = cpp_max segment_low (cpp_min segment_high t0);
          projected = interpolate a b t;
          metric = std_hypot (distance2d projected point) (pt_y projected - pt_y point)
      in if metric < fst best then (metric, double_of_nat i + t) else best)"

definition projectToRange ::
    "line_route \<Rightarrow> double \<Rightarrow> double \<Rightarrow> line_route_point \<Rightarrow> (double \<times> double) option option" where
  "projectToRange route low high point =
     (case (nat_of_double (std_floor low),
            nat_of_double (std_floor (cpp_max low (high - lit (1 / 10 ^ 9))))) of
        (Some firstseg, Some l0) \<Rightarrow>
          (let lastseg = min (last_segment route) l0;
               (best, best_position) =
                 foldl (project_step route low high point firstseg lastseg) (PInf, low) [firstseg..<Suc lastseg]
           in if \<not> isfinite best then Some None else Some (Some (best_position, best)))
      | _ \<Rightarrow> None)"

subsection \<open>Two segments\<close>

definition segmentBoundsNear ::
    "line_route_point \<Rightarrow> line_route_point \<Rightarrow> line_route_point \<Rightarrow> line_route_point \<Rightarrow> double \<Rightarrow> bool" where
  "segmentBoundsNear a0 a1 b0 b1 tolerance \<longleftrightarrow>
     (let a_min_x = cpp_min (pt_x a0) (pt_x a1); a_max_x = cpp_max (pt_x a0) (pt_x a1);
          a_min_z = cpp_min (pt_z a0) (pt_z a1); a_max_z = cpp_max (pt_z a0) (pt_z a1);
          b_min_x = cpp_min (pt_x b0) (pt_x b1); b_max_x = cpp_max (pt_x b0) (pt_x b1);
          b_min_z = cpp_min (pt_z b0) (pt_z b1); b_max_z = cpp_max (pt_z b0) (pt_z b1)
      in a_min_x \<le> b_max_x + tolerance \<and> b_min_x \<le> a_max_x + tolerance \<and>
         a_min_z \<le> b_max_z + tolerance \<and> b_min_z \<le> a_max_z + tolerance)"

definition segmentAcuteAngleDegrees ::
    "(double \<Rightarrow> double) \<Rightarrow> line_route_point \<Rightarrow> line_route_point \<Rightarrow> line_route_point \<Rightarrow>
     line_route_point \<Rightarrow> double" where
  "segmentAcuteAngleDegrees acos a0 a1 b0 b1 =
     (let ax = pt_x a1 - pt_x a0; az = pt_z a1 - pt_z a0;
          bx = pt_x b1 - pt_x b0; bz = pt_z b1 - pt_z b0;
          length_product = std_hypot ax az * std_hypot bx bz
      in if length_product \<le> lit (1 / 10 ^ 9) then Fin 90
         else acos (clamp01 (\<bar>ax * bx + az * bz\<bar> / length_product)) *
              lit (572957795130823208768 / 10 ^ 19))"

record segment_overlap =
  so_orientation :: int
  so_a_start_t :: double
  so_a_end_t :: double
  so_b_start_t :: double
  so_b_end_t :: double
  so_start :: line_route_point
  so_end :: line_route_point

definition shares_track ::
    "line_route_point \<Rightarrow> line_route_point \<Rightarrow> line_route_point \<Rightarrow> line_route_point \<Rightarrow> bool" where
  "shares_track a0 a1 b0 b1 \<longleftrightarrow>
     (pt_track_segment_id a0 \<noteq> [] \<and> (pt_track_segment_id a0 = pt_track_segment_id b0 \<or>
        pt_track_segment_id a0 = pt_track_segment_id b1)) \<or>
     (pt_track_segment_id a1 \<noteq> [] \<and> (pt_track_segment_id a1 = pt_track_segment_id b0 \<or>
        pt_track_segment_id a1 = pt_track_segment_id b1))"

definition segmentOverlap ::
    "(double \<Rightarrow> double) \<Rightarrow> line_route_point \<Rightarrow> line_route_point \<Rightarrow> line_route_point \<Rightarrow>
     line_route_point \<Rightarrow> double \<Rightarrow> double \<Rightarrow> double \<Rightarrow> segment_overlap option" where
  "segmentOverlap acos a0 a1 b0 b1 horizontal_tolerance vertical_tolerance parallel_angle =
     (let a_has_track = (pt_track_segment_id a0 \<noteq> [] \<or> pt_track_segment_id a1 \<noteq> []);
          b_has_track = (pt_track_segment_id b0 \<noteq> [] \<or> pt_track_segment_id b1 \<noteq> []);
          ax = pt_x a1 - pt_x a0; az = pt_z a1 - pt_z a0;
          bx = pt_x b1 - pt_x b0; bz = pt_z b1 - pt_z b0;
          length_a = std_hypot ax az; length_b = std_hypot bx bz;
          ux = ax / length_a; uz = az / length_a;
          b0_projection = (pt_x b0 - pt_x a0) * ux + (pt_z b0 - pt_z a0) * uz;
          b1_projection = (pt_x b1 - pt_x a0) * ux + (pt_z b1 - pt_z a0) * uz;
          overlap_start = cpp_max 0 (cpp_min b0_projection b1_projection);
          overlap_end = cpp_min length_a (cpp_max b0_projection b1_projection);
          on_b = (\<lambda>p. clamp01 (((pt_x p - pt_x b0) * bx + (pt_z p - pt_z b0) * bz) /
            (length_b * length_b)));
          point_a = (\<lambda>d. interpolate a0 a1 (clamp01 (d / length_a)));
          point_b = (\<lambda>d. interpolate b0 b1 (on_b (point_a d)));
          matched = (\<lambda>d. distance2d (point_a d) (point_b d) \<le> horizontal_tolerance \<and>
            \<bar>pt_y (point_a d) - pt_y (point_b d)\<bar> \<le> vertical_tolerance);
          a_start = point_a overlap_start; a_end = point_a overlap_end;
          b_start = point_b overlap_start; b_end = point_b overlap_end
      in if a_has_track \<and> b_has_track \<and> \<not> shares_track a0 a1 b0 b1 then None
         else if \<not> segmentBoundsNear a0 a1 b0 b1 horizontal_tolerance then None
         else if length_a \<le> lit (1 / 10 ^ 9) \<or> length_b \<le> lit (1 / 10 ^ 9) \<or>
           parallel_angle < segmentAcuteAngleDegrees acos a0 a1 b0 b1 then None
         else if overlap_end - overlap_start \<le> lit (1 / 10 ^ 6) then None
         else if \<not> matched overlap_start \<or> \<not> matched overlap_end then None
         else Some \<lparr>so_orientation = (if 0 \<le> ax * bx + az * bz then 1 else - 1),
           so_a_start_t = overlap_start / length_a, so_a_end_t = overlap_end / length_a,
           so_b_start_t = on_b a_start, so_b_end_t = on_b a_end,
           so_start = interpolate a_start b_start (Fin (1 / 2)),
           so_end = interpolate a_end b_end (Fin (1 / 2))\<rparr>)"

text \<open>\<open>Some (t, u, x, z)\<close> when the segments meet.\<close>

definition segmentIntersection ::
    "line_route_point \<Rightarrow> line_route_point \<Rightarrow> line_route_point \<Rightarrow> line_route_point \<Rightarrow>
     (double \<times> double \<times> double \<times> double) option" where
  "segmentIntersection a0 a1 b0 b1 =
     (let rx = pt_x a1 - pt_x a0; rz = pt_z a1 - pt_z a0;
          sx = pt_x b1 - pt_x b0; sz = pt_z b1 - pt_z b0;
          denominator = rx * sz - rz * sx
      in if \<bar>denominator\<bar> < lit (1 / 10 ^ 9) then None
         else
           let qpx = pt_x b0 - pt_x a0; qpz = pt_z b0 - pt_z a0;
               t = (qpx * sz - qpz * sx) / denominator;
               u = (qpx * rz - qpz * rx) / denominator;
               epsilon = lit (1 / 10 ^ 8)
           in if t < - epsilon \<or> 1 + epsilon < t \<or> u < - epsilon \<or> 1 + epsilon < u then None
              else
                let t' = clamp01 t; u' = clamp01 u
                in Some (t', u', pt_x a0 + t' * rx, pt_z a0 + t' * rz))"

definition coordinatesNear ::
    "double \<Rightarrow> double \<Rightarrow> double \<Rightarrow> double \<Rightarrow> double \<Rightarrow> double \<Rightarrow> double \<Rightarrow> double \<Rightarrow> bool" where
  "coordinatesNear ax ay az bx b_y bz horizontal_tolerance vertical_tolerance \<longleftrightarrow>
     std_hypot (ax - bx) (az - bz) \<le> horizontal_tolerance \<and> \<bar>ay - b_y\<bar> \<le> vertical_tolerance"

subsection \<open>Keys and the candidate grid\<close>

definition segmentPairKey :: "nat \<Rightarrow> nat \<Rightarrow> u64" where
  "segmentPairKey a b = or (push_bit 32 (ucast (of_nat a :: 32 word))) (ucast (of_nat b :: 32 word))"

definition gridKey :: "int \<Rightarrow> int \<Rightarrow> u64" where
  "gridKey x z = or (push_bit 32 (ucast (word_of_int x :: 32 word))) (ucast (word_of_int z :: 32 word))"

definition i64_of_double :: "double \<Rightarrow> int option" where
  "i64_of_double d = (case d of
     Fin a \<Rightarrow> if - (2 ^ 63) \<le> trunc a \<and> trunc a < 2 ^ 63 then Some (trunc a) else None
   | _ \<Rightarrow> None)"

definition cell_of :: "double \<Rightarrow> double \<Rightarrow> int option" where
  "cell_of cell_size v = i64_of_double (std_floor (v / cell_size))"

text \<open>The cells a box covers, as the pairs of the two nested loops.\<close>

definition cell_range :: "double \<Rightarrow> double \<Rightarrow> double \<Rightarrow> double \<Rightarrow> double \<Rightarrow> u64 list option" where
  "cell_range cell_size min_x max_x min_z max_z =
     (case (cell_of cell_size min_x, cell_of cell_size max_x,
            cell_of cell_size min_z, cell_of cell_size max_z) of
        (Some x0, Some x1, Some z0, Some z1) \<Rightarrow>
          Some (concat (map (\<lambda>x. map (\<lambda>z. gridKey x z) [z0..z1]) [x0..x1]))
      | _ \<Rightarrow> None)"

definition segment_cells :: "double \<Rightarrow> line_route_point list \<Rightarrow> double \<Rightarrow> nat \<Rightarrow> u64 list option" where
  "segment_cells cell_size pts margin i =
     (let p = pts ! i; q = pts ! (i + 1)
      in cell_range cell_size (cpp_min (pt_x p) (pt_x q) - margin) (cpp_max (pt_x p) (pt_x q) + margin)
           (cpp_min (pt_z p) (pt_z q) - margin) (cpp_max (pt_z p) (pt_z q) + margin))"

definition segment_cells_exact :: "double \<Rightarrow> line_route_point list \<Rightarrow> nat \<Rightarrow> u64 list option" where
  "segment_cells_exact cell_size pts i =
     (let p = pts ! i; q = pts ! (i + 1)
      in cell_range cell_size (cpp_min (pt_x p) (pt_x q)) (cpp_max (pt_x p) (pt_x q))
           (cpp_min (pt_z p) (pt_z q)) (cpp_max (pt_z p) (pt_z q)))"

type_synonym segment_grid = "(u64, nat list) umap"

definition grid_add :: "nat \<Rightarrow> segment_grid \<Rightarrow> u64 \<Rightarrow> segment_grid" where
  "grid_add bj grid k = um_put k (um_at [] k grid @ [bj]) grid"

fun build_grid :: "double \<Rightarrow> line_route_point list \<Rightarrow> segment_grid \<Rightarrow> nat list \<Rightarrow> segment_grid option" where
  "build_grid cell_size pts grid [] = Some grid"
| "build_grid cell_size pts grid (bj # bjs) = (case segment_cells_exact cell_size pts bj of
     None \<Rightarrow> None
   | Some ks \<Rightarrow> build_grid cell_size pts (foldl (grid_add bj) grid ks) bjs)"

fun query_grid ::
    "double \<Rightarrow> line_route_point list \<Rightarrow> double \<Rightarrow> segment_grid \<Rightarrow> nat list \<Rightarrow> nat list list option" where
  "query_grid cell_size pts tolerance grid [] = Some []"
| "query_grid cell_size pts tolerance grid (ai # ais) = (case segment_cells cell_size pts tolerance ai of
     None \<Rightarrow> None
   | Some ks \<Rightarrow> (case query_grid cell_size pts tolerance grid ais of
       None \<Rightarrow> None
     | Some rest \<Rightarrow>
         Some (remdups_adj (sort (concat (map (\<lambda>k. um_at [] k grid) ks))) # rest)))"

definition spatialCandidates :: "line_route \<Rightarrow> line_route \<Rightarrow> double \<Rightarrow> nat list list option" where
  "spatialCandidates a b tolerance =
     (let cell_size = cpp_max (Fin 32) (tolerance * Fin 4)
      in case build_grid cell_size (lr_points b) [] [0..<length (lr_points b) - 1] of
        None \<Rightarrow> None
      | Some grid \<Rightarrow>
          query_grid cell_size (lr_points a) tolerance grid [0..<length (lr_points a) - 1])"

definition routeSegmentId :: "string \<Rightarrow> nat \<Rightarrow> string \<Rightarrow> string" where
  "routeSegmentId line_id index side =
     ''LINE:'' @ line_id @ '':SEG:'' @ nat_digits index @ '':'' @ side"

definition flipped :: "route_direction_relation \<Rightarrow> route_direction_relation" where
  "flipped r = (if r = SAME then OPPOSITE else SAME)"

subsection \<open>The grid proposes every pair of segments that can meet\<close>

text \<open>
  A value that a \<open>double\<close> can really take: the model's finite values are all the rationals, of
  which only those that rounding leaves alone are machine numbers.
\<close>

definition machine_double :: "double \<Rightarrow> bool" where
  "machine_double d \<longleftrightarrow> (\<forall>q. d = Fin q \<longrightarrow> mk_double q = Fin q)"

definition machine_point :: "line_route_point \<Rightarrow> bool" where
  "machine_point p \<longleftrightarrow> machine_double (pt_x p) \<and> machine_double (pt_y p) \<and> machine_double (pt_z p)"

lemma machine_double_plus_0: "machine_double d \<Longrightarrow> d + 0 = d"
  by (cases d) (auto simp: machine_double_def zero_double_def)

lemma machine_double_min_max:
  "machine_double a \<Longrightarrow> machine_double b \<Longrightarrow> machine_double (cpp_min a b) \<and> machine_double (cpp_max a b)"
  by (simp add: cpp_min_def cpp_max_def)

lemma machine_double_shift:
  assumes "machine_double (Fin p)" "0 \<le> t"
  shows "Fin p - t \<le> Fin p \<or> Fin p - t = NaN" "Fin p \<le> Fin p + t \<or> Fin p + t = NaN"
proof -
  have p: "mk_double p = Fin p" using assms(1) by (simp add: machine_double_def)
  show "Fin p - t \<le> Fin p \<or> Fin p - t = NaN"
    using assms(2) p mk_double_mono [of "p + - q" p for q] by (cases t) (auto simp: minus_double_def)
  show "Fin p \<le> Fin p + t \<or> Fin p + t = NaN"
    using assms(2) p mk_double_mono [of p "p + q" for q] by (cases t) auto
qed

lemma cell_of_finite:
  assumes "cell_of c v = Some n" "c = PInf \<or> (\<exists>k. c = Fin k \<and> 0 < k)"
  obtains q where "v = Fin q"
  using assms by (cases v; cases c) (auto simp: cell_of_def i64_of_double_def split: if_splits)

lemma trunc_of_int [simp]: "trunc (of_int n) = n"
  by (simp add: trunc_def)

lemma cell_of_mono:
  assumes "cell_of c v = Some m" "cell_of c w = Some n" "v \<le> w"
    and c: "c = PInf \<or> (\<exists>k. c = Fin k \<and> 0 < k)"
  shows "m \<le> n"
proof -
  obtain p where p: "v = Fin p" using cell_of_finite [OF assms(1) c] by metis
  obtain q where q: "w = Fin q" using cell_of_finite [OF assms(2) c] by metis
  have "v / c \<le> w / c"
    using c assms(3) by (auto simp: p q intro!: mk_double_mono divide_right_mono)
  then show ?thesis using assms(1,2)
    by (cases "v / c"; cases "w / c")
      (auto simp: cell_of_def i64_of_double_def floor_mono split: if_splits)
qed

lemma cell_range_mem:
  assumes "cell_range c lx hx lz hz = Some ks"
    and "cell_of c lx = Some x0" "cell_of c hx = Some x1" "cell_of c lz = Some z0" "cell_of c hz = Some z1"
    and "x0 \<le> x" "x \<le> x1" "z0 \<le> z" "z \<le> z1"
  shows "gridKey x z \<in> set ks"
proof -
  have "x \<in> {x0..x1}" "gridKey x z \<in> gridKey x ` {z0..z1}" using assms(6-9) by auto
  then have mem: "gridKey x z \<in> (\<Union>y \<in> {x0..x1}. gridKey y ` {z0..z1})" by blast
  have ks: "ks = concat (map (\<lambda>x. map (gridKey x) [z0..z1]) [x0..x1])"
    using assms(1-5) by (simp add: cell_range_def)
  have "set ks = (\<Union>y \<in> {x0..x1}. gridKey y ` {z0..z1})"
    unfolding ks by (simp only: set_concat set_map set_upto image_image)
  then show ?thesis using mem by simp
qed

lemma cell_range_some:
  assumes "cell_range c lx hx lz hz = Some ks"
  obtains x0 x1 z0 z1 where "cell_of c lx = Some x0" "cell_of c hx = Some x1"
    "cell_of c lz = Some z0" "cell_of c hz = Some z1"
  using assms by (auto simp: cell_range_def split: option.splits)

text \<open>Two covered ranges whose boxes overlap share a cell.\<close>

lemma overlapping_ranges:
  assumes "cell_range c lx hx lz hz = Some ks" "cell_range c lx' hx' lz' hz' = Some ks'"
    and c: "c = PInf \<or> (\<exists>k. c = Fin k \<and> 0 < k)"
    and "lx \<le> hx" "lz \<le> hz" "lx' \<le> hx'" "lz' \<le> hz'" "lx \<le> hx'" "lx' \<le> hx" "lz \<le> hz'" "lz' \<le> hz"
  shows "\<exists>k. k \<in> set ks \<and> k \<in> set ks'"
proof -
  obtain x0 x1 z0 z1 where a: "cell_of c lx = Some x0" "cell_of c hx = Some x1"
    "cell_of c lz = Some z0" "cell_of c hz = Some z1" using cell_range_some [OF assms(1)] .
  obtain y0 y1 w0 w1 where b: "cell_of c lx' = Some y0" "cell_of c hx' = Some y1"
    "cell_of c lz' = Some w0" "cell_of c hz' = Some w1" using cell_range_some [OF assms(2)] .
  have "x0 \<le> x1" "z0 \<le> z1" "y0 \<le> y1" "w0 \<le> w1" "x0 \<le> y1" "y0 \<le> x1" "z0 \<le> w1" "w0 \<le> z1"
    using assms(4-) a b cell_of_mono [OF _ _ _ c] by blast+
  then have "gridKey (max x0 y0) (max z0 w0) \<in> set ks" "gridKey (max x0 y0) (max z0 w0) \<in> set ks'"
    by (auto intro!: cell_range_mem [OF assms(1) a] cell_range_mem [OF assms(2) b])
  then show ?thesis by blast
qed

lemma um_at_grid_add: "um_at [] k (grid_add bj grid k') = um_at [] k grid @ (if k = k' then [bj] else [])"
  by (simp add: grid_add_def um_at_put)

lemma set_grid_adds:
  "set (um_at [] k (foldl (grid_add bj) grid ks)) = set (um_at [] k grid) \<union> (if k \<in> set ks then {bj} else {})"
  by (induction ks arbitrary: grid) (auto simp: um_at_grid_add)

lemma build_grid_cells:
  "build_grid c pts grid bjs = Some g \<Longrightarrow>
   set (um_at [] k g) = set (um_at [] k grid) \<union>
     {bj \<in> set bjs. \<exists>ks. segment_cells_exact c pts bj = Some ks \<and> k \<in> set ks} \<and>
   (\<forall>bj \<in> set bjs. segment_cells_exact c pts bj \<noteq> None)"
proof (induction bjs arbitrary: grid)
  case (Cons bj bjs)
  then obtain ks where ks: "segment_cells_exact c pts bj = Some ks"
    "build_grid c pts (foldl (grid_add bj) grid ks) bjs = Some g" by (auto split: option.splits)
  from Cons.IH [OF ks(2)] ks(1) show ?case by (auto simp: set_grid_adds split: if_splits)
qed simp

lemma distinct_remdups_adj_sort: "sorted xs \<Longrightarrow> distinct (remdups_adj xs)"
  by (induction xs rule: remdups_adj.induct) (auto simp: order_antisym)

lemma query_grid_cells:
  "query_grid c pts tol g ais = Some rs \<Longrightarrow>
   list_all2 (\<lambda>ai r. sorted r \<and> distinct r \<and> (\<exists>ks. segment_cells c pts tol ai = Some ks \<and>
     set r = (\<Union>k \<in> set ks. set (um_at [] k g)))) ais rs"
proof (induction ais arbitrary: rs)
  case (Cons ai ais)
  then obtain ks r' where ks: "segment_cells c pts tol ai = Some ks" "query_grid c pts tol g ais = Some r'"
    "rs = remdups_adj (sort (concat (map (\<lambda>k. um_at [] k g) ks))) # r'" by (auto split: option.splits)
  have "distinct (remdups_adj (sort (concat (map (\<lambda>k. um_at [] k g) ks))))"
    by (rule distinct_remdups_adj_sort) simp
  then show ?case using Cons.IH [OF ks(2)] ks(1) by (auto simp: ks(3) sorted_remdups_adj)
qed simp

lemma spatialCandidates_range:
  assumes "spatialCandidates a b tolerance = Some candidates" "ai < length candidates"
    "bj \<in> set (candidates ! ai)"
  shows "ai + 1 < length (lr_points a) \<and> bj + 1 < length (lr_points b)"
proof -
  let ?c = "cpp_max (Fin 32) (tolerance * Fin 4)"
  obtain g where g: "build_grid ?c (lr_points b) [] [0..<length (lr_points b) - 1] = Some g"
    and q: "query_grid ?c (lr_points a) tolerance g [0..<length (lr_points a) - 1] = Some candidates"
    using assms(1) by (auto simp: spatialCandidates_def Let_def split: option.splits)
  note rows = query_grid_cells [OF q]
  have ai: "ai < length (lr_points a) - 1" using list_all2_lengthD [OF rows] assms(2) by simp
  obtain ks where "set (candidates ! ai) = (\<Union>k \<in> set ks. set (um_at [] k g))"
    using list_all2_nthD [OF rows, of ai] ai by auto
  then obtain k where "bj \<in> set (um_at [] k g)" using assms(3) by blast
  then have "bj \<in> set [0..<length (lr_points b) - 1]" using build_grid_cells [OF g, of k] by (auto simp: um_at_def)
  with ai show ?thesis by auto
qed

lemma cell_size_positive:
  "cpp_max (Fin 32) (t * Fin 4) = PInf \<or> (\<exists>k. cpp_max (Fin 32) (t * Fin 4) = Fin k \<and> 0 < k)"
  by (cases "t * Fin 4") (auto simp: cpp_max_def)

lemma finite_double_minus: "a - b = Fin q \<Longrightarrow> \<exists>x y. a = Fin x \<and> b = Fin y"
  by (cases a; cases b) (auto simp: minus_double_def)

lemma finite_double_plus: "a + b = Fin q \<Longrightarrow> \<exists>x y. a = Fin x \<and> b = (Fin y :: double)"
  by (cases a; cases b) auto

lemma min_le_max_finite: "cpp_min p q = Fin x \<Longrightarrow> cpp_max p q = Fin y \<Longrightarrow> x \<le> y"
  by (cases p; cases q) (auto simp: cpp_min_def cpp_max_def split: if_splits)

text \<open>One coordinate of two boxes that touch, the first one widened by the tolerance.\<close>

lemma widened_interval:
  assumes "machine_double p" "machine_double q" "machine_double r" "machine_double s" "0 \<le> t"
    and "cpp_min p q - t = Fin l" "cpp_max p q + t = Fin h" "cpp_min r s = Fin l'" "cpp_max r s = Fin h'"
    and "cpp_min p q \<le> cpp_max r s + 0" "cpp_min r s \<le> cpp_max p q + 0"
  shows "Fin l \<le> Fin h \<and> Fin l' \<le> Fin h' \<and> Fin l \<le> Fin h' \<and> Fin l' \<le> Fin h"
proof -
  obtain x where x: "cpp_min p q = Fin x" using finite_double_minus [OF assms(6)] by blast
  obtain y where y: "cpp_max p q = Fin y" using finite_double_plus [OF assms(7)] by blast
  have m: "machine_double (Fin x)" "machine_double (Fin y)" "machine_double (Fin h')"
    using machine_double_min_max [OF assms(1,2)] machine_double_min_max [OF assms(3,4)] x y assms(9) by auto
  have "l \<le> x" using machine_double_shift(1) [OF m(1) assms(5)] assms(6) x by auto
  moreover have "y \<le> h" using machine_double_shift(2) [OF m(2) assms(5)] assms(7) y by auto
  moreover have "x \<le> y" using min_le_max_finite [OF x y] .
  moreover have "l' \<le> h'" using min_le_max_finite [OF assms(8,9)] .
  moreover have "x \<le> h'" "l' \<le> y"
    using assms(8-11) x y machine_double_plus_0 [OF m(3)] machine_double_plus_0 [OF m(2)] by auto
  ultimately show ?thesis by auto
qed

lemma candidate_cells_meet:
  assumes "segment_cells c pa t ai = Some ks" "segment_cells_exact c pb bj = Some ks'"
    and c: "c = PInf \<or> (\<exists>k. c = Fin k \<and> 0 < k)" and t: "0 \<le> t"
    and m: "machine_point (pa ! ai)" "machine_point (pa ! (ai + 1))"
      "machine_point (pb ! bj)" "machine_point (pb ! (bj + 1))"
    and near: "segmentBoundsNear (pa ! ai) (pa ! (ai + 1)) (pb ! bj) (pb ! (bj + 1)) 0"
  shows "\<exists>k. k \<in> set ks \<and> k \<in> set ks'"
proof -
  let ?f = "\<lambda>g h i pts. h (g (pts ! i)) (g (pts ! (i + 1)) :: double)"
  obtain x0 x1 z0 z1 where a: "cell_of c (?f pt_x cpp_min ai pa - t) = Some x0"
    "cell_of c (?f pt_x cpp_max ai pa + t) = Some x1" "cell_of c (?f pt_z cpp_min ai pa - t) = Some z0"
    "cell_of c (?f pt_z cpp_max ai pa + t) = Some z1"
    using assms(1) cell_range_some unfolding segment_cells_def Let_def by metis
  obtain y0 y1 w0 w1 where b: "cell_of c (?f pt_x cpp_min bj pb) = Some y0"
    "cell_of c (?f pt_x cpp_max bj pb) = Some y1" "cell_of c (?f pt_z cpp_min bj pb) = Some w0"
    "cell_of c (?f pt_z cpp_max bj pb) = Some w1"
    using assms(2) cell_range_some unfolding segment_cells_exact_def Let_def by metis
  note fin = cell_of_finite [OF _ c]
  obtain l1 h1 l2 h2 where A: "?f pt_x cpp_min ai pa - t = Fin l1" "?f pt_x cpp_max ai pa + t = Fin h1"
    "?f pt_z cpp_min ai pa - t = Fin l2" "?f pt_z cpp_max ai pa + t = Fin h2"
    using fin [OF a(1)] fin [OF a(2)] fin [OF a(3)] fin [OF a(4)] by metis
  obtain l3 h3 l4 h4 where B: "?f pt_x cpp_min bj pb = Fin l3" "?f pt_x cpp_max bj pb = Fin h3"
    "?f pt_z cpp_min bj pb = Fin l4" "?f pt_z cpp_max bj pb = Fin h4"
    using fin [OF b(1)] fin [OF b(2)] fin [OF b(3)] fin [OF b(4)] by metis
  have X: "Fin l1 \<le> Fin h1 \<and> Fin l3 \<le> Fin h3 \<and> Fin l1 \<le> Fin h3 \<and> Fin l3 \<le> Fin h1"
    using m near by (intro widened_interval [OF _ _ _ _ t A(1,2) B(1,2)])
      (simp_all add: machine_point_def segmentBoundsNear_def Let_def)
  have Z: "Fin l2 \<le> Fin h2 \<and> Fin l4 \<le> Fin h4 \<and> Fin l2 \<le> Fin h4 \<and> Fin l4 \<le> Fin h2"
    using m near by (intro widened_interval [OF _ _ _ _ t A(3,4) B(3,4)])
      (simp_all add: machine_point_def segmentBoundsNear_def Let_def)
  have "cell_range c (Fin l1) (Fin h1) (Fin l2) (Fin h2) = Some ks"
    using assms(1) unfolding segment_cells_def Let_def A .
  moreover have "cell_range c (Fin l3) (Fin h3) (Fin l4) (Fin h4) = Some ks'"
    using assms(2) unfolding segment_cells_exact_def Let_def B .
  ultimately show ?thesis using X Z by (intro overlapping_ranges [OF _ _ c]) blast+
qed

lemma floor_rat_frac:
  "\<lfloor>numeral a / numeral b :: rat\<rfloor> = numeral a div numeral b" "\<lfloor>1 / numeral b :: rat\<rfloor> = 1 div numeral b"
  using floor_divide_of_int_eq [where 'a = rat, of "numeral a" "numeral b"]
    floor_divide_of_int_eq [where 'a = rat, of 1 "numeral b"] by simp_all

text \<open>Two short segments that cross.\<close>

definition demo_point :: "rat \<Rightarrow> rat \<Rightarrow> line_route_point" where
  "demo_point x z = default_point\<lparr>pt_x := Fin x, pt_z := Fin z\<rparr>"

definition demo_route :: "string \<Rightarrow> line_route_point list \<Rightarrow> line_route" where
  "demo_route l ps = \<lparr>lr_line_id = l, lr_line_name = [], lr_transport_type = [],
     lr_geometry_source = [], lr_is_loop = False, lr_points = ps, lr_target_headway_ms = 15000\<rparr>"

definition demo_east :: line_route where
  "demo_east = demo_route ''A'' [demo_point 8 16, demo_point 24 16]"

definition demo_north :: line_route where
  "demo_north = demo_route ''B'' [demo_point 16 8, demo_point 16 24]"

lemma demo_candidates: "spatialCandidates demo_east demo_north (Fin 4) = Some [[0]]"
  by (simp add: spatialCandidates_def demo_east_def demo_north_def demo_route_def demo_point_def
      segment_cells_exact_def segment_cells_def cell_range_def cell_of_def i64_of_double_def cpp_max_def cpp_min_def
      trunc_def gridKey_def grid_add_def um_at_def default_point_def double_simps floor_rat_frac)

text \<open>The grid that replaces the comparison of all pairs of segments hides no crossing. For machine
  coordinates and a tolerance that is not negative, every segment of \<open>b\<close> whose bounding box
  meets that of segment \<open>ai\<close> of \<open>a\<close> is among the candidates for \<open>ai\<close>; candidates are segments of
  \<open>b\<close>, each proposed once and in increasing order.\<close>

theorem spatialCandidates_hide_nothing:
  assumes "spatialCandidates a b tolerance = Some candidates" "0 \<le> tolerance"
    and "\<forall>p \<in> set (lr_points a) \<union> set (lr_points b). machine_point p"
    and "ai + 1 < length (lr_points a)"
  shows "sorted (candidates ! ai) \<and> distinct (candidates ! ai) \<and>
    (\<forall>bj \<in> set (candidates ! ai). bj + 1 < length (lr_points b)) \<and>
    (\<forall>bj. bj + 1 < length (lr_points b) \<and>
       segmentBoundsNear (lr_points a ! ai) (lr_points a ! (ai + 1)) (lr_points b ! bj) (lr_points b ! (bj + 1)) 0
       \<longrightarrow> bj \<in> set (candidates ! ai))"
proof -
  let ?c = "cpp_max (Fin 32) (tolerance * Fin 4)"
  obtain g where g: "build_grid ?c (lr_points b) [] [0..<length (lr_points b) - 1] = Some g"
    and q: "query_grid ?c (lr_points a) tolerance g [0..<length (lr_points a) - 1] = Some candidates"
    using assms(1) by (auto simp: spatialCandidates_def Let_def split: option.splits)
  note grid = build_grid_cells [OF g]
  obtain ks where ks: "segment_cells ?c (lr_points a) tolerance ai = Some ks"
    and mem: "set (candidates ! ai) = (\<Union>k \<in> set ks. set (um_at [] k g))"
    and srt: "sorted (candidates ! ai)" "distinct (candidates ! ai)"
    using list_all2_nthD [OF query_grid_cells [OF q], of ai] assms(4) by (auto simp: less_diff_conv)
  have "ai < length candidates" using list_all2_lengthD [OF query_grid_cells [OF q]] assms(4) by simp
  then have bnd: "bj + 1 < length (lr_points b)" if "bj \<in> set (candidates ! ai)" for bj
    using spatialCandidates_range [OF assms(1)] that by blast
  have "bj \<in> set (candidates ! ai)"
    if bj: "bj + 1 < length (lr_points b)" and near: "segmentBoundsNear (lr_points a ! ai) (lr_points a ! (ai + 1)) (lr_points b ! bj) (lr_points b ! (bj + 1)) 0" for bj
  proof -
    obtain ks' where ks': "segment_cells_exact ?c (lr_points b) bj = Some ks'"
      using grid bj by fastforce
    have "\<exists>k. k \<in> set ks \<and> k \<in> set ks'"
      using assms(3,4) bj nth_mem [of _ "lr_points a"] nth_mem [of _ "lr_points b"]
      by (intro candidate_cells_meet [OF ks ks' cell_size_positive assms(2) _ _ _ _ near]) auto
    then show ?thesis unfolding mem using grid bj ks' by auto
  qed
  then show ?thesis using srt bnd by blast
qed

lemma spatialCandidates_hide_nothing_witness:
  "\<exists>candidates. spatialCandidates demo_east demo_north (Fin 4) = Some candidates \<and> 0 \<in> set (candidates ! 0)"
proof -
  have "\<forall>p \<in> set (lr_points demo_east) \<union> set (lr_points demo_north). machine_point p"
    by (simp add: demo_east_def demo_north_def demo_route_def demo_point_def machine_point_def
        machine_double_def default_point_def double_simps)
  moreover have "segmentBoundsNear (lr_points demo_east ! 0) (lr_points demo_east ! (0 + 1))
      (lr_points demo_north ! 0) (lr_points demo_north ! (0 + 1)) 0"
    by (simp add: demo_east_def demo_north_def demo_route_def demo_point_def segmentBoundsNear_def
        cpp_min_def cpp_max_def default_point_def double_simps)
  ultimately show ?thesis
    using spatialCandidates_hide_nothing [OF demo_candidates, of 0] demo_candidates
    by (simp add: demo_east_def demo_north_def demo_route_def)
qed
end
