(* ===== verification/Corridors.thy ===== *)
theory Corridors
  imports Geometry UnionFind
begin

text \<open>
  Shared corridors (the second part of server/src/LineRouteAnalyzer.cpp): merging the overlap of a
  pair of lines into the corridors found so far, cutting overlapping corridors into atoms,
  joining corridors that continue each other, and dropping the connected groups of corridors that
  are too short. \<open>None\<close> is undefined behaviour of a conversion in \<open>Geometry\<close>.
\<close>

subsection \<open>Ends of corridors\<close>

definition same_ends ::
    "double \<Rightarrow> double \<Rightarrow> shared_corridor_definition \<Rightarrow> shared_corridor_definition \<Rightarrow> bool" where
  "same_ends h v e c \<longleftrightarrow>
     coordinatesNear (sd_start_x e) (sd_start_y e) (sd_start_z e)
       (sd_start_x c) (sd_start_y c) (sd_start_z c) h v \<and>
     coordinatesNear (sd_end_x e) (sd_end_y e) (sd_end_z e) (sd_end_x c) (sd_end_y c) (sd_end_z c) h v"

definition reversed_ends ::
    "double \<Rightarrow> double \<Rightarrow> shared_corridor_definition \<Rightarrow> shared_corridor_definition \<Rightarrow> bool" where
  "reversed_ends h v e c \<longleftrightarrow>
     coordinatesNear (sd_start_x e) (sd_start_y e) (sd_start_z e)
       (sd_end_x c) (sd_end_y c) (sd_end_z c) h v \<and>
     coordinatesNear (sd_end_x e) (sd_end_y e) (sd_end_z e)
       (sd_start_x c) (sd_start_y c) (sd_start_z c) h v"

definition continues ::
    "double \<Rightarrow> double \<Rightarrow> shared_corridor_definition \<Rightarrow> shared_corridor_definition \<Rightarrow> bool" where
  "continues h v l r \<longleftrightarrow> coordinatesNear (sd_end_x l) (sd_end_y l) (sd_end_z l)
     (sd_start_x r) (sd_start_y r) (sd_start_z r) h v"

definition continued_by ::
    "double \<Rightarrow> double \<Rightarrow> shared_corridor_definition \<Rightarrow> shared_corridor_definition \<Rightarrow> bool" where
  "continued_by h v l r \<longleftrightarrow> coordinatesNear (sd_start_x l) (sd_start_y l) (sd_start_z l)
     (sd_end_x r) (sd_end_y r) (sd_end_z r) h v"

definition with_ends ::
    "line_route_point \<Rightarrow> line_route_point \<Rightarrow> shared_corridor_definition \<Rightarrow>
     shared_corridor_definition" where
  "with_ends s e c = c\<lparr>sd_start_x := pt_x s, sd_start_y := pt_y s, sd_start_z := pt_z s,
     sd_end_x := pt_x e, sd_end_y := pt_y e, sd_end_z := pt_z e\<rparr>"

subsection \<open>Merging the overlaps of pairs of lines\<close>

definition same_occurrence :: "shared_corridor_member \<Rightarrow> shared_corridor_member \<Rightarrow> bool" where
  "same_occurrence v m \<longleftrightarrow> sm_line_id v = sm_line_id m \<and> sm_occurrence_id v = sm_occurrence_id m"

definition addCorridorMember ::
    "shared_corridor_definition \<Rightarrow> shared_corridor_member \<Rightarrow> shared_corridor_definition" where
  "addCorridorMember corridor member =
     (if list_ex (\<lambda>v. same_occurrence v member) (sd_members corridor) then corridor
      else corridor\<lparr>sd_members := sd_members corridor @ [member]\<rparr>)"

definition flip_member :: "shared_corridor_member \<Rightarrow> shared_corridor_member" where
  "flip_member m = m\<lparr>sm_direction_relation := flipped (sm_direction_relation m)\<rparr>"

definition compatible ::
    "shared_corridor_definition \<Rightarrow> shared_corridor_member \<Rightarrow> shared_corridor_member \<Rightarrow> bool \<Rightarrow> bool" where
  "compatible existing a_member b_member reversed =
     (let common = concat (map (\<lambda>incoming. map (\<lambda>m. (incoming, m))
            (filter (\<lambda>m. same_occurrence incoming m) (sd_members existing))) [a_member, b_member])
      in common \<noteq> [] \<and> list_all (\<lambda>(incoming, m).
           (if reversed then flipped (sm_direction_relation incoming) else sm_direction_relation incoming)
           = sm_direction_relation m) common)"

text \<open>The first existing corridor that the candidate belongs to takes it in; else it is appended.\<close>

fun merge_scan ::
    "double \<Rightarrow> double \<Rightarrow> shared_corridor_definition \<Rightarrow> shared_corridor_member \<Rightarrow>
     shared_corridor_member \<Rightarrow> shared_corridor_definition list \<Rightarrow> shared_corridor_definition list" where
  "merge_scan h v candidate a_member b_member [] =
     [candidate\<lparr>sd_members := sd_members candidate @ [a_member, b_member]\<rparr>]"
| "merge_scan h v candidate a_member b_member (existing # rest) =
     (let merge_same = (same_ends h v existing candidate \<and> compatible existing a_member b_member False);
          merge_reverse = (reversed_ends h v existing candidate \<and>
            compatible existing a_member b_member True);
          a' = (if merge_same then a_member else flip_member a_member);
          b' = (if merge_same then b_member else flip_member b_member);
          merged = addCorridorMember (addCorridorMember existing a') b'
      in if merge_same \<or> merge_reverse
         then merged\<lparr>sd_length := cpp_max (sd_length merged) (sd_length candidate)\<rparr> # rest
         else existing # merge_scan h v candidate a_member b_member rest)"

definition mergeCorridor ::
    "line_topology_analysis \<Rightarrow> shared_corridor_definition \<Rightarrow> shared_corridor_member \<Rightarrow>
     shared_corridor_member \<Rightarrow> double \<Rightarrow> double \<Rightarrow> line_topology_analysis" where
  "mergeCorridor result candidate a_member b_member h v =
     result\<lparr>la_shared_corridors := merge_scan h v candidate a_member b_member (la_shared_corridors result)\<rparr>"

subsection \<open>Joining corridors that continue each other\<close>

definition member_gap :: "shared_corridor_member \<Rightarrow> shared_corridor_member \<Rightarrow> double" where
  "member_gap member v = cpp_min \<bar>sm_end_position member - sm_start_position v\<bar>
     \<bar>sm_end_position v - sm_start_position member\<bar>"

definition best_match ::
    "shared_corridor_member list \<Rightarrow> bool list \<Rightarrow> shared_corridor_member \<Rightarrow> nat option \<times> double" where
  "best_match rhs used member = foldl (\<lambda>(best, best_gap) j.
     let v = rhs ! j in
     if used ! j \<or> sm_line_id v \<noteq> sm_line_id member \<or>
        sm_direction_relation v \<noteq> sm_direction_relation member then (best, best_gap)
     else if member_gap member v < best_gap then (Some j, member_gap member v)
     else (best, best_gap)) (None, PInf) [0..<length rhs]"

fun match_scan ::
    "shared_corridor_member list \<Rightarrow> bool list \<Rightarrow> shared_corridor_member list \<Rightarrow> nat list option" where
  "match_scan rhs used [] = Some []"
| "match_scan rhs used (member # ms) = (case best_match rhs used member of
     (None, _) \<Rightarrow> None
   | (Some best, best_gap) \<Rightarrow>
       if lit (1 / 10 ^ 5) < best_gap then None
       else map_option (Cons best) (match_scan rhs (used[best := True]) ms))"

definition matchCorridorMembers ::
    "shared_corridor_definition \<Rightarrow> shared_corridor_definition \<Rightarrow> nat list option" where
  "matchCorridorMembers lhs rhs =
     (if length (sd_members lhs) \<noteq> length (sd_members rhs) then None
      else match_scan (sd_members rhs) (replicate (length (sd_members rhs)) False) (sd_members lhs))"

definition absorb_member ::
    "shared_corridor_member \<Rightarrow> shared_corridor_member \<Rightarrow> shared_corridor_member" where
  "absorb_member member found =
     (let s = cpp_min (sm_start_position member) (sm_start_position found);
          e = cpp_max (sm_end_position member) (sm_end_position found)
      in member\<lparr>sm_start_position := s, sm_end_position := e,
           sm_start_segment := min (sm_start_segment member) (sm_start_segment found),
           sm_end_segment := max (sm_end_segment member) (sm_end_segment found),
           sm_occurrence_id := occurrence_text 12 (sm_line_id member) s e\<rparr>)"

definition points_meet :: "line_route_point \<Rightarrow> line_route_point \<Rightarrow> bool" where
  "points_meet p q \<longleftrightarrow> coordinatesNear (pt_x p) (pt_y p) (pt_z p) (pt_x q) (pt_y q) (pt_z q)
     (lit (1 / 10 ^ 6)) (lit (1 / 10 ^ 6))"

definition absorbCorridor ::
    "shared_corridor_definition \<Rightarrow> shared_corridor_definition \<Rightarrow> bool \<Rightarrow> nat list \<Rightarrow>
     shared_corridor_definition" where
  "absorbCorridor target source append_source matches =
     (let g = sd_geometry target; gs = sd_geometry source;
          target1 = (if append_source
            then target\<lparr>sd_end_x := sd_end_x source, sd_end_y := sd_end_y source,
              sd_end_z := sd_end_z source,
              sd_geometry := (if gs = [] then g
                else g @ drop (if g \<noteq> [] \<and> points_meet (last g) (hd gs) then 1 else 0) gs)\<rparr>
            else target\<lparr>sd_start_x := sd_start_x source, sd_start_y := sd_start_y source,
              sd_start_z := sd_start_z source,
              sd_geometry := (if gs \<noteq> [] \<and> g \<noteq> [] \<and> points_meet (last gs) (hd g)
                then butlast gs else gs) @ g\<rparr>)
      in target1\<lparr>sd_length := sd_length target + sd_length source,
           sd_members := map2 (\<lambda>member j. absorb_member member (sd_members source ! j))
             (sd_members target) matches\<rparr>)"

text \<open>One pair of the double loop: \<open>Some\<close> of the joined corridor when the two are joined.\<close>

definition try_join ::
    "double \<Rightarrow> double \<Rightarrow> shared_corridor_definition \<Rightarrow> shared_corridor_definition \<Rightarrow>
     shared_corridor_definition option" where
  "try_join h v lhs rhs =
     (let append_rhs = continues h v lhs rhs; prepend = continued_by h v lhs rhs
      in if \<not> append_rhs \<and> \<not> prepend then None
         else map_option (absorbCorridor lhs rhs append_rhs) (matchCorridorMembers lhs rhs))"

text \<open>The first pair \<open>i < j\<close> that is joined: \<open>j\<close> disappears into \<open>i\<close>.\<close>

fun join_with ::
    "double \<Rightarrow> double \<Rightarrow> shared_corridor_definition \<Rightarrow> shared_corridor_definition list \<Rightarrow>
     shared_corridor_definition list option" where
  "join_with h v lhs [] = None"
| "join_with h v lhs (rhs # rest) = (case try_join h v lhs rhs of
     Some lhs' \<Rightarrow> Some (lhs' # rest)
   | None \<Rightarrow> (case join_with h v lhs rest of
       None \<Rightarrow> None | Some (lhs' # rest') \<Rightarrow> Some (lhs' # rhs # rest') | Some [] \<Rightarrow> None))"

fun join_once ::
    "double \<Rightarrow> double \<Rightarrow> shared_corridor_definition list \<Rightarrow> shared_corridor_definition list option" where
  "join_once h v [] = None"
| "join_once h v (lhs # rest) = (case join_with h v lhs rest of
     Some cs \<Rightarrow> Some cs
   | None \<Rightarrow> map_option (Cons lhs) (join_once h v rest))"

lemma join_with_length: "join_with h v lhs cs = Some cs' \<Longrightarrow> length cs' = length cs \<and> cs' \<noteq> []"
  by (induction cs arbitrary: cs') (auto split: option.splits list.splits)

lemma join_once_length: "join_once h v cs = Some cs' \<Longrightarrow> Suc (length cs') = length cs"
  by (induction cs arbitrary: cs') (auto dest: join_with_length split: option.splits)

text \<open>The loop \<open>while (changed)\<close>. Every round that changes something removes one corridor.\<close>

function join_loop ::
    "double \<Rightarrow> double \<Rightarrow> shared_corridor_definition list \<Rightarrow> shared_corridor_definition list" where
  "join_loop h v cs = (case join_once h v cs of None \<Rightarrow> cs | Some cs' \<Rightarrow> join_loop h v cs')"
  by pat_completeness auto
termination
  by (relation "measure (\<lambda>(h, v, cs). length cs)") (auto dest: join_once_length)

declare join_loop.simps [simp del]

definition member_less :: "shared_corridor_member \<Rightarrow> shared_corridor_member \<Rightarrow> bool" where
  "member_less l r \<longleftrightarrow> sm_line_id l < sm_line_id r \<or> \<not> sm_line_id r < sm_line_id l \<and>
     (sm_occurrence_id l < sm_occurrence_id r \<or> \<not> sm_occurrence_id r < sm_occurrence_id l \<and>
      (sm_start_position l < sm_start_position r \<or> \<not> sm_start_position r < sm_start_position l \<and>
       sm_end_position l < sm_end_position r))"

definition corridor_id_text :: "shared_corridor_member list \<Rightarrow> string" where
  "corridor_id_text ms = ''CORRIDOR'' @ concat (map (\<lambda>m. '':'' @ sm_line_id m @ '':'' @
     sm_occurrence_id m @ '':'' @ fmt_fixed 6 (sm_start_position m) @ ''-'' @
     fmt_fixed 6 (sm_end_position m)) ms)"

definition finish_corridor :: "shared_corridor_definition \<Rightarrow> shared_corridor_definition" where
  "finish_corridor c = (let ms = sort_by member_less (sd_members c)
     in c\<lparr>sd_members := ms, sd_corridor_id := corridor_id_text ms\<rparr>)"

definition consolidateAdjacentCorridors ::
    "line_topology_analysis \<Rightarrow> double \<Rightarrow> double \<Rightarrow> line_topology_analysis" where
  "consolidateAdjacentCorridors result h v =
     result\<lparr>la_shared_corridors := map finish_corridor (join_loop h v (la_shared_corridors result))\<rparr>"

subsection \<open>Cutting overlapping corridors into atoms\<close>

definition routes_by_id :: "line_route list \<Rightarrow> (string, line_route) umap" where
  "routes_by_id routes = foldl (\<lambda>m r. um_put (lr_line_id r) r m) [] routes"

definition end_points :: "shared_corridor_definition \<Rightarrow> line_route_point list" where
  "end_points c =
     [default_point\<lparr>pt_x := sd_start_x c, pt_y := sd_start_y c, pt_z := sd_start_z c\<rparr>,
      default_point\<lparr>pt_x := sd_end_x c, pt_y := sd_end_y c, pt_z := sd_end_z c\<rparr>]"

definition cut_epsilon :: double where
  "cut_epsilon = lit (1 / 10 ^ 7)"

fun cut_positions ::
    "line_route \<Rightarrow> shared_corridor_member \<Rightarrow> double \<Rightarrow> line_route_point list \<Rightarrow> double list option" where
  "cut_positions anchor am h [] = Some []"
| "cut_positions anchor am h (p # ps) =
     (case projectToRange anchor (sm_start_position am) (sm_end_position am) p of
        None \<Rightarrow> None
      | Some hit \<Rightarrow> (case cut_positions anchor am h ps of
          None \<Rightarrow> None
        | Some cuts \<Rightarrow> Some (case hit of
            None \<Rightarrow> cuts
          | Some (projected, gap) \<Rightarrow>
              if gap \<le> h \<and> sm_start_position am + cut_epsilon < projected \<and>
                 projected < sm_end_position am - cut_epsilon then projected # cuts else cuts)))"

definition corridor_cuts ::
    "shared_corridor_definition list \<Rightarrow> line_route \<Rightarrow> shared_corridor_member \<Rightarrow> double \<Rightarrow>
     double list option" where
  "corridor_cuts original anchor am h =
     (case cut_positions anchor am h (concat (map end_points original)) of
        None \<Rightarrow> None
      | Some ps \<Rightarrow> Some (unique_by (\<lambda>a b. \<bar>a - b\<bar> \<le> cut_epsilon)
          (sort_by (<) (sm_start_position am # sm_end_position am # ps))))"

text \<open>
  A member of the piece between two cuts. \<open>Some None\<close>: the member's route does not come close to
  the piece and is left out.
\<close>

definition clip_member ::
    "(string, line_route) umap \<Rightarrow> double \<Rightarrow> line_route_point \<Rightarrow> line_route_point \<Rightarrow>
     shared_corridor_member \<Rightarrow> shared_corridor_member option option" where
  "clip_member by_id h s e member = (case um_find by_id (sm_line_id member) of
     None \<Rightarrow> Some None
   | Some route \<Rightarrow>
       (case projectToRange route (sm_start_position member) (sm_end_position member) s of
          None \<Rightarrow> None
        | Some None \<Rightarrow> Some None
        | Some (Some (p0, gap0)) \<Rightarrow>
            (case projectToRange route (sm_start_position member) (sm_end_position member) e of
               None \<Rightarrow> None
             | Some None \<Rightarrow> Some None
             | Some (Some (p1, gap1)) \<Rightarrow>
                 if h < gap0 \<or> h < gap1 then Some None
                 else map_option (\<lambda>m. Some (m\<lparr>sm_direction_relation :=
                          (if p0 \<le> p1 then SAME else OPPOSITE)\<rparr>))
                   (setMemberBounds (default_member\<lparr>sm_line_id := sm_line_id member\<rparr>) route p0 p1))))"

fun clip_members ::
    "(string, line_route) umap \<Rightarrow> double \<Rightarrow> line_route_point \<Rightarrow> line_route_point \<Rightarrow>
     shared_corridor_definition \<Rightarrow> shared_corridor_member list \<Rightarrow>
     shared_corridor_definition option" where
  "clip_members by_id h s e piece [] = Some piece"
| "clip_members by_id h s e piece (member # ms) = (case clip_member by_id h s e member of
     None \<Rightarrow> None
   | Some None \<Rightarrow> clip_members by_id h s e piece ms
   | Some (Some clipped) \<Rightarrow> clip_members by_id h s e (addCorridorMember piece clipped) ms)"

definition cut_piece ::
    "(string, line_route) umap \<Rightarrow> double \<Rightarrow> line_route \<Rightarrow> shared_corridor_definition \<Rightarrow>
     double \<Rightarrow> double \<Rightarrow> shared_corridor_definition list option" where
  "cut_piece by_id h anchor corridor c0 c1 =
     (if c1 - c0 \<le> cut_epsilon then Some []
      else case routeGeometry anchor c0 c1 of
        None \<Rightarrow> None
      | Some g \<Rightarrow>
          if geometryLength g \<le> lit (1 / 10 ^ 6) then Some []
          else case clip_members by_id h (hd g) (last g)
              (with_ends (hd g) (last g) (default_corridor_definition\<lparr>sd_geometry := g,
                sd_length := geometryLength g\<rparr>)) (sd_members corridor) of
            None \<Rightarrow> None
          | Some piece \<Rightarrow> Some (if 2 \<le> length (sd_members piece) then [piece] else []))"

definition corridor_pieces ::
    "(string, line_route) umap \<Rightarrow> double \<Rightarrow> shared_corridor_definition list \<Rightarrow>
     shared_corridor_definition \<Rightarrow> shared_corridor_definition list option" where
  "corridor_pieces by_id h original corridor = (case sd_members corridor of
     [] \<Rightarrow> Some []
   | am # _ \<Rightarrow> (case um_find by_id (sm_line_id am) of
       None \<Rightarrow> Some []
     | Some anchor \<Rightarrow> (case corridor_cuts original anchor am h of
         None \<Rightarrow> None
       | Some cuts \<Rightarrow> map_option concat
           (those (map2 (cut_piece by_id h anchor corridor) cuts (tl cuts))))))"

text \<open>The first corridor with the same ends (in either order) takes the members of a piece.\<close>

fun merge_piece ::
    "double \<Rightarrow> double \<Rightarrow> shared_corridor_definition list \<Rightarrow> shared_corridor_definition \<Rightarrow>
     shared_corridor_definition list" where
  "merge_piece h v [] piece = [piece]"
| "merge_piece h v (existing # rest) piece =
     (if same_ends h v existing piece \<or> reversed_ends h v existing piece
      then let members = (if same_ends h v existing piece then sd_members piece
                 else map flip_member (sd_members piece));
               merged = foldl addCorridorMember existing members
           in merged\<lparr>sd_length := cpp_max (sd_length merged) (sd_length piece)\<rparr> # rest
      else existing # merge_piece h v rest piece)"

definition atomizeOverlappingCorridors ::
    "line_topology_analysis \<Rightarrow> line_route list \<Rightarrow> double \<Rightarrow> double \<Rightarrow> line_topology_analysis option" where
  "atomizeOverlappingCorridors result routes h v =
     (let original = la_shared_corridors result
      in case those (map (corridor_pieces (routes_by_id routes) h original) original) of
        None \<Rightarrow> None
      | Some pieces \<Rightarrow>
          Some (result\<lparr>la_shared_corridors := foldl (merge_piece h v) [] (concat pieces)\<rparr>))"

subsection \<open>Dropping short groups\<close>

definition corridors_near ::
    "double \<Rightarrow> double \<Rightarrow> shared_corridor_definition \<Rightarrow> shared_corridor_definition \<Rightarrow> bool" where
  "corridors_near h v a b \<longleftrightarrow>
     coordinatesNear (sd_start_x a) (sd_start_y a) (sd_start_z a)
       (sd_start_x b) (sd_start_y b) (sd_start_z b) h v \<or>
     coordinatesNear (sd_start_x a) (sd_start_y a) (sd_start_z a)
       (sd_end_x b) (sd_end_y b) (sd_end_z b) h v \<or>
     coordinatesNear (sd_end_x a) (sd_end_y a) (sd_end_z a)
       (sd_start_x b) (sd_start_y b) (sd_start_z b) h v \<or>
     coordinatesNear (sd_end_x a) (sd_end_y a) (sd_end_z a) (sd_end_x b) (sd_end_y b) (sd_end_z b) h v"

text \<open>\<open>lengths[root(i)] += corridor.length\<close> for every corridor, in order.\<close>

definition component_lengths ::
    "nat list \<Rightarrow> shared_corridor_definition list \<Rightarrow> (nat, double) umap" where
  "component_lengths roots cs =
     foldl (\<lambda>m (r, c). um_put r (um_at 0 r m + sd_length c) m) [] (zip roots cs)"

definition filterShortSharedComponents ::
    "line_topology_analysis \<Rightarrow> double \<Rightarrow> double \<Rightarrow> double \<Rightarrow> line_topology_analysis option" where
  "filterShortSharedComponents result minimum_length h v =
     (let cs = la_shared_corridors result
      in case uf_component_roots (length cs) (\<lambda>i j. corridors_near h v (cs ! i) (cs ! j)) of
        None \<Rightarrow> None
      | Some (roots, parent) \<Rightarrow>
          (let lengths = component_lengths roots cs
           in case uf_roots parent [0..<length cs] of
             None \<Rightarrow> None
           | Some (roots', _) \<Rightarrow>
               Some (result\<lparr>la_shared_corridors :=
                 map snd (filter (\<lambda>(r, c). minimum_length \<le> um_at 0 r lengths + cut_epsilon)
                   (zip roots' cs))\<rparr>)))"

subsection \<open>Joining keeps what every line shares\<close>

definition member_covers :: "shared_corridor_member \<Rightarrow> shared_corridor_member \<Rightarrow> bool" where
  "member_covers m' m \<longleftrightarrow> sm_line_id m' = sm_line_id m \<and>
     sm_direction_relation m' = sm_direction_relation m \<and>
     sm_start_position m' \<le> sm_start_position m \<and> sm_end_position m \<le> sm_end_position m'"

definition member_numbers :: "shared_corridor_member \<Rightarrow> bool" where
  "member_numbers m \<longleftrightarrow> sm_start_position m \<noteq> NaN \<and> sm_end_position m \<noteq> NaN"

definition corridor_numbers :: "shared_corridor_definition \<Rightarrow> bool" where
  "corridor_numbers c \<longleftrightarrow> (\<forall>m \<in> set (sd_members c). member_numbers m)"

definition corridors_cover ::
    "shared_corridor_definition list \<Rightarrow> shared_corridor_definition list \<Rightarrow> bool" where
  "corridors_cover cs' cs \<longleftrightarrow> (\<forall>c \<in> set cs. \<forall>m \<in> set (sd_members c).
     \<exists>c' \<in> set cs'. \<exists>m' \<in> set (sd_members c'). member_covers m' m)"

lemma member_covers_refl: "member_numbers m \<Longrightarrow> member_covers m m"
  by (simp add: member_covers_def member_numbers_def double_le_refl)

lemma member_covers_trans: "member_covers a b \<Longrightarrow> member_covers b c \<Longrightarrow> member_covers a c"
  by (auto simp: member_covers_def intro: double_le_trans)

lemma double_min_le:
  assumes "a \<noteq> NaN" "b \<noteq> (NaN :: double)"
  shows "cpp_min a b \<le> a \<and> cpp_min a b \<le> b \<and> cpp_min a b \<noteq> NaN"
  using assms double_not_less [of b a] by (auto simp: cpp_min_def double_le_refl double_less_le)

lemma double_max_ge:
  assumes "a \<noteq> NaN" "b \<noteq> (NaN :: double)"
  shows "a \<le> cpp_max a b \<and> b \<le> cpp_max a b \<and> cpp_max a b \<noteq> NaN"
  using assms double_not_less [of a b] by (auto simp: cpp_max_def double_le_refl double_less_le)

lemma absorb_member_covers:
  assumes "member_numbers m" "member_numbers f" "sm_line_id f = sm_line_id m"
    "sm_direction_relation f = sm_direction_relation m"
  shows "member_covers (absorb_member m f) m" "member_covers (absorb_member m f) f"
    "member_numbers (absorb_member m f)"
  using assms double_min_le [of "sm_start_position m" "sm_start_position f"]
    double_max_ge [of "sm_end_position m" "sm_end_position f"]
  by (auto simp: member_covers_def member_numbers_def absorb_member_def Let_def)

lemma best_match_some:
  assumes "best_match rhs used m = (Some j, gap)"
  shows "j < length rhs \<and> \<not> used ! j \<and> sm_line_id (rhs ! j) = sm_line_id m \<and>
    sm_direction_relation (rhs ! j) = sm_direction_relation m"
proof -
  let ?ok = "\<lambda>j. j < length rhs \<and> \<not> used ! j \<and> sm_line_id (rhs ! j) = sm_line_id m \<and>
    sm_direction_relation (rhs ! j) = sm_direction_relation m"
  have "case best_match rhs used m of (None, _) \<Rightarrow> True | (Some j, _) \<Rightarrow> ?ok j"
    unfolding best_match_def
    by (rule foldl_invariant) (auto simp: Let_def split: option.splits if_splits)
  then show ?thesis using assms by simp
qed

lemma match_scan_some:
  "match_scan rhs used ms = Some js \<Longrightarrow> length used = length rhs \<Longrightarrow>
   distinct js \<and> (\<forall>j \<in> set js. j < length rhs \<and> \<not> used ! j) \<and>
   list_all2 (\<lambda>m j. sm_line_id (rhs ! j) = sm_line_id m \<and>
     sm_direction_relation (rhs ! j) = sm_direction_relation m) ms js"
proof (induction ms arbitrary: used js)
  case (Cons m ms)
  obtain j gap ks where j: "best_match rhs used m = (Some j, gap)" "js = j # ks"
    and ks: "match_scan rhs (used[j := True]) ms = Some ks"
    using Cons.prems(1) by (auto split: prod.splits option.splits if_splits)
  note best = best_match_some [OF j(1)]
  note IH = Cons.IH [OF ks, simplified, OF Cons.prems(2)]
  have "k \<noteq> j \<and> k < length rhs \<and> \<not> used ! k" if "k \<in> set ks" for k
    using IH that best Cons.prems(2) by (metis nth_list_update_eq nth_list_update_neq)
  then show ?case using IH best j(2) by auto
qed simp

lemma matchCorridorMembers_some:
  assumes "matchCorridorMembers lhs rhs = Some js"
  shows "set js = {..<length (sd_members rhs)}"
    and "list_all2 (\<lambda>m j. sm_line_id (sd_members rhs ! j) = sm_line_id m \<and>
      sm_direction_relation (sd_members rhs ! j) = sm_direction_relation m) (sd_members lhs) js"
proof -
  have len: "length (sd_members lhs) = length (sd_members rhs)"
    and scan: "match_scan (sd_members rhs) (replicate (length (sd_members rhs)) False) (sd_members lhs) = Some js"
    using assms by (auto simp: matchCorridorMembers_def split: if_splits)
  note ok = match_scan_some [OF scan, simplified]
  then have "length js = length (sd_members rhs)" using len by (auto dest: list_all2_lengthD)
  moreover have "set js \<subseteq> {..<length (sd_members rhs)}" using ok by auto
  ultimately show "set js = {..<length (sd_members rhs)}"
    using ok by (intro card_subset_eq) (auto simp: distinct_card)
  show "list_all2 (\<lambda>m j. sm_line_id (sd_members rhs ! j) = sm_line_id m \<and>
      sm_direction_relation (sd_members rhs ! j) = sm_direction_relation m) (sd_members lhs) js"
    using ok by simp
qed

lemma absorbCorridor_members:
  "sd_members (absorbCorridor t s b js) =
     map2 (\<lambda>m j. absorb_member m (sd_members s ! j)) (sd_members t) js"
  by (simp add: absorbCorridor_def Let_def)

lemma try_join_covers:
  assumes "try_join h v lhs rhs = Some c" "corridor_numbers lhs" "corridor_numbers rhs"
  shows "corridors_cover [c] [lhs, rhs]" "corridor_numbers c"
proof -
  obtain js b where js: "matchCorridorMembers lhs rhs = Some js" and c: "c = absorbCorridor lhs rhs b js"
    using assms(1) by (auto simp: try_join_def Let_def split: if_splits)
  note match = matchCorridorMembers_some [OF js]
  let ?ms = "sd_members lhs" and ?rs = "sd_members rhs"
  let ?abs = "\<lambda>i. absorb_member (?ms ! i) (?rs ! (js ! i))"
  have len: "length js = length ?ms" using match(2) by (simp add: list_all2_lengthD)
  have mem: "set (sd_members c) = ?abs ` {..<length ?ms}"
    unfolding c absorbCorridor_members using len by (force simp: set_zip image_def)
  have pair: "member_covers (?abs i) (?ms ! i) \<and> member_covers (?abs i) (?rs ! (js ! i)) \<and>
      member_numbers (?abs i)" if "i < length ?ms" for i
  proof -
    have "js ! i < length ?rs" using match(1) that len nth_mem [of i js] by auto
    then show ?thesis
      using absorb_member_covers [of "?ms ! i" "?rs ! (js ! i)"] assms(2,3)
        list_all2_nthD [OF match(2) that] that by (simp add: corridor_numbers_def)
  qed
  show "corridor_numbers c" unfolding corridor_numbers_def mem using pair by blast
  have "\<exists>m' \<in> set (sd_members c). member_covers m' m" if "m \<in> set ?ms" for m
    using that pair unfolding mem by (auto simp: in_set_conv_nth)
  moreover have "\<exists>m' \<in> set (sd_members c). member_covers m' m" if "m \<in> set ?rs" for m
  proof -
    obtain j where "j < length ?rs" "m = ?rs ! j" using \<open>m \<in> set ?rs\<close> by (auto simp: in_set_conv_nth)
    moreover from this obtain i where "i < length ?ms" "js ! i = j"
      using match(1) len by (metis in_set_conv_nth lessThan_iff)
    ultimately show ?thesis using pair unfolding mem by blast
  qed
  ultimately show "corridors_cover [c] [lhs, rhs]" by (auto simp: corridors_cover_def)
qed

lemma corridors_cover_refl: "\<forall>c \<in> set cs. corridor_numbers c \<Longrightarrow> corridors_cover cs cs"
  unfolding corridors_cover_def corridor_numbers_def using member_covers_refl by blast

lemma corridors_cover_trans: "corridors_cover a b \<Longrightarrow> corridors_cover b c \<Longrightarrow> corridors_cover a c"
  unfolding corridors_cover_def by (meson member_covers_trans)

lemma corridors_cover_mono:
  "corridors_cover cs' cs \<Longrightarrow> set cs' \<subseteq> set ds' \<Longrightarrow> corridors_cover ds' ds \<Longrightarrow>
   set es \<subseteq> set cs \<union> set ds \<Longrightarrow> corridors_cover ds' es"
  unfolding corridors_cover_def by blast

text \<open>What one join does to the list, by position-free facts: the two corridors and the new one.\<close>

lemma join_with_some:
  "join_with h v lhs cs = Some cs' \<Longrightarrow> \<exists>rhs c. rhs \<in> set cs \<and> try_join h v lhs rhs = Some c \<and>
     c \<in> set cs' \<and> set cs \<subseteq> insert rhs (set cs') \<and> set cs' \<subseteq> insert c (set cs)"
proof (induction cs arbitrary: cs')
  case (Cons r rest)
  show ?case
  proof (cases "try_join h v lhs r")
    case (Some c)
    then show ?thesis using Cons.prems by (intro exI [of _ r] exI [of _ c]) auto
  next
    case None
    then obtain l ds where ds: "join_with h v lhs rest = Some (l # ds)" "cs' = l # r # ds"
      using Cons.prems by (auto split: option.splits list.splits)
    from Cons.IH [OF ds(1)] obtain rhs c where "rhs \<in> set rest" "try_join h v lhs rhs = Some c"
      "c \<in> set (l # ds)" "set rest \<subseteq> insert rhs (set (l # ds))" "set (l # ds) \<subseteq> insert c (set rest)"
      by blast
    then show ?thesis using ds(2) by (intro exI [of _ rhs] exI [of _ c]) auto
  qed
qed simp

lemma join_once_some:
  "join_once h v cs = Some cs' \<Longrightarrow> \<exists>lhs rhs c. lhs \<in> set cs \<and> rhs \<in> set cs \<and>
     try_join h v lhs rhs = Some c \<and> c \<in> set cs' \<and> set cs \<subseteq> insert lhs (insert rhs (set cs')) \<and>
     set cs' \<subseteq> insert c (set cs)"
proof (induction cs arbitrary: cs')
  case (Cons l rest)
  show ?case
  proof (cases "join_with h v l rest")
    case (Some ds)
    then have cs': "cs' = ds" using Cons.prems by simp
    from join_with_some [OF Some] obtain rhs c where "rhs \<in> set rest" "try_join h v l rhs = Some c"
      "c \<in> set ds" "set rest \<subseteq> insert rhs (set ds)" "set ds \<subseteq> insert c (set rest)" by blast
    then show ?thesis unfolding cs' by (intro exI [of _ l] exI [of _ rhs] exI [of _ c]) auto
  next
    case None
    then obtain ds where ds: "join_once h v rest = Some ds" "cs' = l # ds" using Cons.prems by auto
    from Cons.IH [OF ds(1)] obtain lhs rhs c where "lhs \<in> set rest" "rhs \<in> set rest"
      "try_join h v lhs rhs = Some c" "c \<in> set ds" "set rest \<subseteq> insert lhs (insert rhs (set ds))"
      "set ds \<subseteq> insert c (set rest)" by blast
    then show ?thesis unfolding ds(2)
      by (intro exI [of _ lhs] exI [of _ rhs] exI [of _ c]) auto
  qed
qed simp

lemma join_once_covers:
  assumes "join_once h v cs = Some cs'" "\<forall>c \<in> set cs. corridor_numbers c"
  shows "corridors_cover cs' cs \<and> (\<forall>c \<in> set cs'. corridor_numbers c)"
proof -
  obtain lhs rhs c where *: "lhs \<in> set cs" "rhs \<in> set cs" "try_join h v lhs rhs = Some c" "c \<in> set cs'"
    "set cs \<subseteq> insert lhs (insert rhs (set cs'))" "set cs' \<subseteq> insert c (set cs)"
    using join_once_some [OF assms(1)] by blast
  note tj = try_join_covers [OF *(3)]
  have cov: "corridors_cover [c] [lhs, rhs]" and num: "corridor_numbers c" using tj * assms(2) by blast+
  have nums: "\<forall>c \<in> set cs'. corridor_numbers c" using *(6) num assms(2) by blast
  have "corridors_cover cs' cs"
    by (rule corridors_cover_mono [OF cov _ corridors_cover_refl [OF nums]]) (use * in auto)
  with nums show ?thesis by blast
qed

lemma join_loop_covers:
  "\<forall>c \<in> set cs. corridor_numbers c \<Longrightarrow>
   corridors_cover (join_loop h v cs) cs \<and> (\<forall>c \<in> set (join_loop h v cs). corridor_numbers c)"
proof (induction h v cs rule: join_loop.induct)
  case (1 h v cs)
  show ?case
  proof (cases "join_once h v cs")
    case None
    then show ?thesis using 1 corridors_cover_refl by (simp add: join_loop.simps [of h v cs])
  next
    case (Some cs')
    note once = join_once_covers [OF Some "1.prems"]
    from "1.IH" [OF Some] once have "corridors_cover (join_loop h v cs') cs'"
      "\<forall>c \<in> set (join_loop h v cs'). corridor_numbers c" by blast+
    then show ?thesis using once Some corridors_cover_trans by (auto simp: join_loop.simps [of h v cs])
  qed
qed

lemma finish_corridor_members [simp]: "set (sd_members (finish_corridor c)) = set (sd_members c)"
  by (simp add: finish_corridor_def Let_def)

lemma join_loop_length: "length (join_loop h v cs) \<le> length cs"
proof (induction h v cs rule: join_loop.induct)
  case (1 h v cs)
  then show ?case
    by (cases "join_once h v cs") (auto simp: join_loop.simps [of h v cs] dest: join_once_length)
qed

lemma join_with_None: "join_with h v l cs = None \<longleftrightarrow> (\<forall>r \<in> set cs. try_join h v l r = None)"
  by (induction cs) (auto split: option.splits list.splits dest: join_with_length)

lemma join_once_None: "join_once h v cs = None \<longleftrightarrow> sorted_wrt (\<lambda>l r. try_join h v l r = None) cs"
  by (induction cs) (simp_all add: join_with_None [symmetric] split: option.split)

lemma join_once_join_loop: "join_once h v (join_loop h v cs) = None"
proof (induction h v cs rule: join_loop.induct)
  case (1 h v cs)
  then show ?case by (cases "join_once h v cs") (auto simp: join_loop.simps [of h v cs])
qed

subsection \<open>The groups of connected corridors\<close>

definition group_near :: "double \<Rightarrow> double \<Rightarrow> shared_corridor_definition list \<Rightarrow> nat \<Rightarrow> nat \<Rightarrow> bool" where
  "group_near h v cs i j \<longleftrightarrow> connected (length cs) (\<lambda>i j. corridors_near h v (cs ! i) (cs ! j)) i j"

text \<open>The length of the group of corridor \<open>i\<close>: its members' lengths added up in order.\<close>

definition is_group_length ::
    "double \<Rightarrow> double \<Rightarrow> shared_corridor_definition list \<Rightarrow> nat \<Rightarrow> double \<Rightarrow> bool" where
  "is_group_length h v cs i d \<longleftrightarrow> (\<exists>js. sorted_wrt (<) js \<and>
     set js = {j. j < length cs \<and> group_near h v cs i j} \<and>
     d = foldl (+) 0 (map (\<lambda>j. sd_length (cs ! j)) js))"

lemma component_lengths_snoc:
  "length rs = length cs \<Longrightarrow> component_lengths (rs @ [r]) (cs @ [c]) =
     um_put r (um_at 0 r (component_lengths rs cs) + sd_length c) (component_lengths rs cs)"
  by (simp add: component_lengths_def)

lemma um_at_component_lengths:
  "length rs = length cs \<Longrightarrow> um_at 0 r (component_lengths rs cs) =
     foldl (+) 0 (map (\<lambda>j. sd_length (cs ! j)) (filter (\<lambda>j. rs ! j = r) [0..<length cs]))"
proof (induction cs arbitrary: rs rule: rev_induct)
  case Nil
  then show ?case by (simp add: component_lengths_def um_at_def)
next
  case (snoc c cs)
  then obtain rs' x where rs: "rs = rs' @ [x]" "length rs' = length cs"
    by (metis length_append_singleton length_Suc_conv_rev)
  have "map (\<lambda>j. sd_length ((cs @ [c]) ! j)) (filter (\<lambda>j. rs ! j = r) [0..<length cs]) =
      map (\<lambda>j. sd_length (cs ! j)) (filter (\<lambda>j. rs' ! j = r) [0..<length cs])"
    unfolding rs(1) by (intro map_cong filter_cong) (auto simp: nth_append rs(2))
  moreover have "rs ! length cs = x" by (simp add: rs nth_append)
  ultimately show ?case
    using snoc.IH [OF rs(2)] by (cases "r = x") (auto simp: rs component_lengths_snoc um_at_put nth_append)
qed

lemma filter_zip_indices:
  assumes "length rs = length cs"
  shows "map snd (filter (\<lambda>(r, c). P r) (zip rs cs)) = map ((!) cs) (filter (\<lambda>i. P (rs ! i)) [0..<length cs])"
proof -
  have "zip rs cs = map (\<lambda>i. (rs ! i, cs ! i)) [0..<length cs]"
    using assms by (intro nth_equalityI) auto
  then show ?thesis by (simp add: filter_map comp_def)
qed

lemma group_length_root:
  assumes "\<forall>x < length cs. \<forall>y < length cs. rs ! x = rs ! y \<longleftrightarrow> group_near h v cs x y"
    and "length rs = length cs" and "i < length cs"
  shows "is_group_length h v cs i (um_at 0 (rs ! i) (component_lengths rs cs))"
  unfolding is_group_length_def um_at_component_lengths [OF assms(2)]
proof (intro exI [of _ "filter (\<lambda>j. rs ! j = rs ! i) [0..<length cs]"] conjI refl)
  show "sorted_wrt (<) (filter (\<lambda>j. rs ! j = rs ! i) [0..<length cs])"
    by (rule sorted_wrt_filter) simp
  show "set (filter (\<lambda>j. rs ! j = rs ! i) [0..<length cs]) = {j. j < length cs \<and> group_near h v cs i j}"
  proof -
    have "rs ! j = rs ! i \<longleftrightarrow> group_near h v cs i j" if "j < length cs" for j
      using assms(1,3) that by metis
    then show ?thesis by auto
  qed
qed

subsection \<open>Properties\<close>

text \<open>Two lines that share two adjacent stretches of track.\<close>

definition demo_stretch :: "rat \<Rightarrow> rat \<Rightarrow> shared_corridor_definition" where
  "demo_stretch a b = default_corridor_definition\<lparr>sd_start_x := Fin a, sd_end_x := Fin b,
     sd_length := Fin (b - a),
     sd_members := map (\<lambda>l. default_member\<lparr>sm_line_id := l, sm_start_position := Fin (a / 8),
       sm_end_position := Fin (b / 8)\<rparr>) [''A'', ''B'']\<rparr>"

definition demo_topology :: line_topology_analysis where
  "demo_topology = empty_analysis\<lparr>la_shared_corridors := [demo_stretch 0 32, demo_stretch 32 64]\<rparr>"

text \<open>C26: short shared tracks are dropped group by group. The filter always returns; what it keeps, in
  the old order, are exactly the corridors whose connected group (corridors linked by a chain of
  nearby ends) is together at least as long as the minimum, up to the code's tolerance. The
  groups are those of the specification, although the code computes them with a union-find
  forest and path compression.\<close>

theorem filterShort_keeps_long_groups:
  "\<exists>len. filterShortSharedComponents result minimum_length h v =
      Some (result\<lparr>la_shared_corridors := map ((!) (la_shared_corridors result))
        (filter (\<lambda>i. minimum_length \<le> len i + cut_epsilon) [0..<length (la_shared_corridors result)])\<rparr>) \<and>
    (\<forall>i. i < length (la_shared_corridors result) \<longrightarrow>
       is_group_length h v (la_shared_corridors result) i (len i))"
proof -
  let ?cs = "la_shared_corridors result"
  obtain rs q q' where roots: "uf_component_roots (length ?cs)
      (\<lambda>i j. corridors_near h v (?cs ! i) (?cs ! j)) = Some (rs, q)"
    and len: "length rs = length ?cs"
    and conn: "\<forall>x < length ?cs. \<forall>y < length ?cs. rs ! x = rs ! y \<longleftrightarrow> group_near h v ?cs x y"
    and again: "uf_roots q [0..<length ?cs] = Some (rs, q')"
    unfolding group_near_def
    using uf_component_roots_correct [of "length ?cs" "\<lambda>i j. corridors_near h v (?cs ! i) (?cs ! j)"] by blast
  show ?thesis
    by (rule exI [of _ "\<lambda>i. um_at 0 (rs ! i) (component_lengths rs ?cs)"])
      (simp add: filterShortSharedComponents_def Let_def roots again filter_zip_indices [OF len]
        group_length_root [OF conn len])
qed

lemma filterShort_keeps_long_groups_witness:
  "\<exists>len. is_group_length (Fin 1) (Fin 1) (la_shared_corridors demo_topology) 0 len"
proof -
  have "0 < length (la_shared_corridors demo_topology)" by (simp add: demo_topology_def)
  then show ?thesis
    using filterShort_keeps_long_groups [of demo_topology "Fin 60" "Fin 1" "Fin 1"] by blast
qed

text \<open>C27: joining terminates and is complete. In the result of the joining loop no corridor can be
  joined with a later one any more, and there are at most as many corridors as before.\<close>

theorem joining_is_exhaustive:
  "sorted_wrt (\<lambda>l r. try_join h v l r = None) (join_loop h v cs) \<and>
   length (la_shared_corridors (consolidateAdjacentCorridors result h v)) \<le>
     length (la_shared_corridors result)"
  using join_once_join_loop [of h v cs] join_loop_length
  by (simp add: join_once_None consolidateAdjacentCorridors_def)

text \<open>C28: joining loses nothing. Whatever stretch of a line was part of a shared corridor before
  consolidation lies, in the same direction, within a stretch of that line in a corridor
  afterwards (positions being numbers), so no shared track becomes unprotected.\<close>

theorem consolidation_keeps_coverage:
  assumes "\<forall>c \<in> set (la_shared_corridors result). corridor_numbers c"
  shows "corridors_cover (la_shared_corridors (consolidateAdjacentCorridors result h v))
    (la_shared_corridors result)"
  using join_loop_covers [OF assms] by (simp add: corridors_cover_def consolidateAdjacentCorridors_def)

lemma consolidation_keeps_coverage_witness:
  "corridors_cover (la_shared_corridors (consolidateAdjacentCorridors demo_topology (Fin 1) (Fin 1)))
     (la_shared_corridors demo_topology)"
  by (rule consolidation_keeps_coverage)
    (simp add: demo_topology_def demo_stretch_def corridor_numbers_def member_numbers_def)

end
