(* ===== verification/Analyzer.thy ===== *)
theory Analyzer
  imports Corridors
begin

text \<open>
  \<open>LineRouteAnalyzer\<close> (server/src/LineRouteAnalyzer.cpp): the configuration check and \<open>analyze\<close>,
  which compares every pair of lines (and every line with itself): first the stretches where they
  run on the same track, which become shared corridors, then the points where they cross, which
  become intersections with two mutually exclusive movements. \<open>None\<close> is undefined behaviour of a
  conversion in \<open>Geometry\<close>; \<open>std::acos\<close> is the argument \<open>acos\<close>.
\<close>

subsection \<open>Configuration\<close>

definition analyzer_config_ok :: "line_route_analyzer_config \<Rightarrow> bool" where
  "analyzer_config_ok c \<longleftrightarrow> \<not> (\<not> isfinite (ac_point_merge_tolerance c) \<or>
     \<not> isfinite (ac_shared_track_tolerance c) \<or>
     \<not> isfinite (ac_vertical_separation_tolerance c) \<or>
     \<not> isfinite (ac_shared_corridor_min_length c) \<or>
     \<not> isfinite (ac_intersection_min_angle_degrees c) \<or>
     ac_point_merge_tolerance c \<le> 0 \<or> ac_shared_track_tolerance c \<le> 0 \<or>
     ac_point_merge_tolerance c < ac_shared_track_tolerance c \<or>
     ac_vertical_separation_tolerance c \<le> 0 \<or> ac_shared_corridor_min_length c \<le> 0 \<or>
     ac_intersection_min_angle_degrees c \<le> 0 \<or> Fin 90 < ac_intersection_min_angle_degrees c)"

definition new_line_route_analyzer ::
    "line_route_analyzer_config \<Rightarrow> string + line_route_analyzer_config" where
  "new_line_route_analyzer c = (if analyzer_config_ok c then Inr c
     else Inl ''line route analyzer limits must be positive'')"

subsection \<open>Overlap fragments of a pair of lines\<close>

record overlap_fragment =
  of_a_segment :: nat
  of_b_segment :: nat
  of_overlap :: segment_overlap
  of_a_order_start :: double
  of_a_order_end :: double

definition make_fragment ::
    "(double \<Rightarrow> double) \<Rightarrow> line_route_analyzer_config \<Rightarrow> line_route \<Rightarrow> line_route \<Rightarrow> bool \<Rightarrow>
     nat \<Rightarrow> nat \<Rightarrow> overlap_fragment option" where
  "make_fragment acos cfg a b self_pair ai bj =
     (if self_pair \<and> bj \<le> ai then None
      else map_option (\<lambda>overlap. \<lparr>of_a_segment = ai, of_b_segment = bj, of_overlap = overlap,
          of_a_order_start = double_of_nat ai + so_a_start_t overlap,
          of_a_order_end = double_of_nat ai + so_a_end_t overlap\<rparr>)
        (segmentOverlap acos (lr_points a ! ai) (lr_points a ! (ai + 1))
          (lr_points b ! bj) (lr_points b ! (bj + 1)) (ac_shared_track_tolerance cfg)
          (ac_vertical_separation_tolerance cfg) (ac_intersection_min_angle_degrees cfg)))"

text \<open>The pairs \<open>(ai, bj)\<close> of the two nested loops, in order.\<close>

definition candidate_pairs :: "nat list list \<Rightarrow> (nat \<times> nat) list" where
  "candidate_pairs candidates =
     concat (map (\<lambda>ai. map (Pair ai) (candidates ! ai)) [0..<length candidates])"

definition overlap_fragments ::
    "(double \<Rightarrow> double) \<Rightarrow> line_route_analyzer_config \<Rightarrow> line_route \<Rightarrow> line_route \<Rightarrow> bool \<Rightarrow>
     nat list list \<Rightarrow> overlap_fragment list" where
  "overlap_fragments acos cfg a b self_pair candidates =
     List.map_filter (\<lambda>(ai, bj). make_fragment acos cfg a b self_pair ai bj)
       (candidate_pairs candidates)"

definition shared_pairs :: "overlap_fragment list \<Rightarrow> u64 list" where
  "shared_pairs fragments = map (\<lambda>f. segmentPairKey (of_a_segment f) (of_b_segment f)) fragments"

definition index_gap :: "nat \<Rightarrow> nat \<Rightarrow> nat" where
  "index_gap i j = (if j < i then i - j else j - i)"

definition follows_in_space ::
    "line_route_analyzer_config \<Rightarrow> overlap_fragment \<Rightarrow> overlap_fragment \<Rightarrow> bool" where
  "follows_in_space cfg f g = (let e = so_end (of_overlap f); s = so_start (of_overlap g)
     in coordinatesNear (pt_x e) (pt_y e) (pt_z e) (pt_x s) (pt_y s) (pt_z s)
          (ac_point_merge_tolerance cfg) (ac_vertical_separation_tolerance cfg))"

definition fragments_linked ::
    "line_route_analyzer_config \<Rightarrow> overlap_fragment \<Rightarrow> overlap_fragment \<Rightarrow> bool" where
  "fragments_linked cfg f g \<longleftrightarrow>
     so_orientation (of_overlap f) = so_orientation (of_overlap g) \<and>
     \<not> (1 < index_gap (of_a_segment f) (of_a_segment g) \<or>
        1 < index_gap (of_b_segment f) (of_b_segment g)) \<and>
     (follows_in_space cfg f g \<or> follows_in_space cfg g f \<or>
      (of_a_order_start f \<le> of_a_order_end g \<and> of_a_order_start g \<le> of_a_order_end f))"

text \<open>The connected components, as the \<open>std::map\<close> from roots to indices is traversed.\<close>

definition fragment_components ::
    "line_route_analyzer_config \<Rightarrow> overlap_fragment list \<Rightarrow> nat list list option" where
  "fragment_components cfg fragments =
     (case uf_component_roots (length fragments)
        (\<lambda>i j. fragments_linked cfg (fragments ! i) (fragments ! j)) of
        None \<Rightarrow> None
      | Some (roots, _) \<Rightarrow> Some (map (\<lambda>r. filter (\<lambda>i. roots ! i = r) [0..<length fragments])
          (sort (remdups roots))))"

subsection \<open>One component as a corridor\<close>

definition interval_less :: "double \<times> double \<Rightarrow> double \<times> double \<Rightarrow> bool" where
  "interval_less l r \<longleftrightarrow> fst l < fst r \<or> (\<not> fst r < fst l \<and> snd l < snd r)"

text \<open>The sweep over the sorted intervals of one segment, with the running total.\<close>

fun sweep_intervals ::
    "double \<Rightarrow> double \<Rightarrow> double \<Rightarrow> double \<Rightarrow> (double \<times> double) list \<Rightarrow> double" where
  "sweep_intervals seg_length len low high [] = len + (high - low) * seg_length"
| "sweep_intervals seg_length len low high ((s, e) # rest) =
     (if s \<le> high + lit (1 / 10 ^ 8)
      then sweep_intervals seg_length len low (cpp_max high e) rest
      else sweep_intervals seg_length (len + (high - low) * seg_length) s e rest)"

definition covered_length :: "line_route \<Rightarrow> overlap_fragment list \<Rightarrow> double" where
  "covered_length a fs = foldl (\<lambda>len segment.
       case sort_by interval_less (map (\<lambda>f. (so_a_start_t (of_overlap f), so_a_end_t (of_overlap f)))
              (filter (\<lambda>f. of_a_segment f = segment) fs)) of
         [] \<Rightarrow> len
       | (low, high) # rest \<Rightarrow> sweep_intervals (segmentLength a segment) len low high rest)
     0 (sort (remdups (map of_a_segment fs)))"

definition b_first :: "overlap_fragment \<Rightarrow> double" where
  "b_first f = double_of_nat (of_b_segment f) + so_b_start_t (of_overlap f)"

definition b_second :: "overlap_fragment \<Rightarrow> double" where
  "b_second f = double_of_nat (of_b_segment f) + so_b_end_t (of_overlap f)"

definition component_range :: "overlap_fragment list \<Rightarrow> double \<times> double \<times> double \<times> double" where
  "component_range fs = foldl (\<lambda>(a_start, a_end, b_start, b_end) f.
       (cpp_min a_start (of_a_order_start f), cpp_max a_end (of_a_order_end f),
        cpp_min b_start (cpp_min (b_first f) (b_second f)),
        cpp_max b_end (cpp_max (b_first f) (b_second f))))
     (of_a_order_start (hd fs), of_a_order_end (hd fs), b_first (hd fs), b_second (hd fs)) fs"

definition addComponent ::
    "line_route_analyzer_config \<Rightarrow> line_route \<Rightarrow> line_route \<Rightarrow> overlap_fragment list \<Rightarrow>
     line_topology_analysis \<Rightarrow> nat list \<Rightarrow> line_topology_analysis option" where
  "addComponent cfg a b fragments result indices =
     (let fs = sort_by (\<lambda>f g. of_a_order_start f < of_a_order_start g) (map ((!) fragments) indices);
          (a_start, a_end, b_start, b_end) = component_range fs;
          len = covered_length a fs;
          orientation = so_orientation (of_overlap (hd fs))
      in if len \<le> lit (1 / 10 ^ 6) then Some result
         else case (routeGeometry a a_start a_end,
             setMemberBounds (default_member\<lparr>sm_line_id := lr_line_id a\<rparr>) a a_start a_end,
             setMemberBounds (default_member\<lparr>sm_line_id := lr_line_id b\<rparr>) b b_start b_end) of
           (Some g, Some am, Some bm) \<Rightarrow>
             Some (mergeCorridor result
               (with_ends (hd g) (last g) (default_corridor_definition\<lparr>sd_geometry := g,
                  sd_length := len,
                  sd_corridor_id := ''PAIR:'' @ sm_occurrence_id am @ '':'' @ sm_occurrence_id bm\<rparr>))
               (am\<lparr>sm_direction_relation := SAME\<rparr>)
               (bm\<lparr>sm_direction_relation := (if orientation = 1 then SAME else OPPOSITE)\<rparr>)
               (ac_shared_track_tolerance cfg) (ac_vertical_separation_tolerance cfg))
         | _ \<Rightarrow> None)"

text \<open>A loop whose body may be undefined.\<close>

fun fold_option :: "('s \<Rightarrow> 'a \<Rightarrow> 's option) \<Rightarrow> 's \<Rightarrow> 'a list \<Rightarrow> 's option" where
  "fold_option f s [] = Some s"
| "fold_option f s (x # xs) = (case f s x of None \<Rightarrow> None | Some s' \<Rightarrow> fold_option f s' xs)"

subsection \<open>Crossings\<close>

definition make_intersection ::
    "line_route \<Rightarrow> line_route \<Rightarrow> nat \<Rightarrow> nat \<Rightarrow> double \<Rightarrow> double \<Rightarrow> double \<Rightarrow>
     line_intersection_definition" where
  "make_intersection a b ai bj x y z =
     (let i_id = ''INTERSECTION:'' @ lr_line_id a @ '':'' @ nat_digits ai @ '':'' @
            lr_line_id b @ '':'' @ nat_digits bj
      in \<lparr>li_intersection_id = i_id, li_x = x, li_y = y, li_z = z,
          li_line_a_id = lr_line_id a, li_line_b_id = lr_line_id b,
          li_line_a_segment = ai, li_line_b_segment = bj,
          li_line_a_movement_id = i_id @ '':MOVE:'' @ lr_line_id a @ '':'' @ nat_digits ai,
          li_line_b_movement_id = i_id @ '':MOVE:'' @ lr_line_id b @ '':'' @ nat_digits bj\<rparr>)"

definition a_movement :: "line_intersection_definition \<Rightarrow> line_intersection_movement" where
  "a_movement i = \<lparr>mv_movement_id = li_line_a_movement_id i,
     mv_intersection_id = li_intersection_id i, mv_line_id = li_line_a_id i,
     mv_incoming_route_segment_id = routeSegmentId (li_line_a_id i) (li_line_a_segment i) ''IN'',
     mv_outgoing_route_segment_id = routeSegmentId (li_line_a_id i) (li_line_a_segment i) ''OUT'',
     mv_conflict_movement_ids = [li_line_b_movement_id i], mv_clearance_time_ms = 0\<rparr>"

definition b_movement :: "line_intersection_definition \<Rightarrow> line_intersection_movement" where
  "b_movement i = \<lparr>mv_movement_id = li_line_b_movement_id i,
     mv_intersection_id = li_intersection_id i, mv_line_id = li_line_b_id i,
     mv_incoming_route_segment_id = routeSegmentId (li_line_b_id i) (li_line_b_segment i) ''IN'',
     mv_outgoing_route_segment_id = routeSegmentId (li_line_b_id i) (li_line_b_segment i) ''OUT'',
     mv_conflict_movement_ids = [li_line_a_movement_id i], mv_clearance_time_ms = 0\<rparr>"

definition crossing_skipped ::
    "(double \<Rightarrow> double) \<Rightarrow> line_route_analyzer_config \<Rightarrow> line_route \<Rightarrow> line_route \<Rightarrow> bool \<Rightarrow>
     u64 list \<Rightarrow> nat \<Rightarrow> nat \<Rightarrow> bool" where
  "crossing_skipped acos cfg a b self_pair shared ai bj \<longleftrightarrow>
     self_pair \<and> (bj \<le> ai \<or> bj = ai + 1 \<or> (ai = 0 \<and> bj + 2 = length (lr_points a))) \<or>
     segmentPairKey ai bj \<in> set shared \<or>
     \<not> segmentBoundsNear (lr_points a ! ai) (lr_points a ! (ai + 1))
         (lr_points b ! bj) (lr_points b ! (bj + 1)) 0 \<or>
     segmentAcuteAngleDegrees acos (lr_points a ! ai) (lr_points a ! (ai + 1))
       (lr_points b ! bj) (lr_points b ! (bj + 1)) < ac_intersection_min_angle_degrees cfg"

definition known_intersection ::
    "line_route_analyzer_config \<Rightarrow> string \<Rightarrow> string \<Rightarrow> double \<Rightarrow> double \<Rightarrow> double \<Rightarrow>
     line_intersection_definition \<Rightarrow> bool" where
  "known_intersection cfg a_id b_id x y z existing \<longleftrightarrow>
     li_line_a_id existing = a_id \<and> li_line_b_id existing = b_id \<and>
     std_hypot (li_x existing - x) (li_z existing - z) \<le> ac_point_merge_tolerance cfg \<and>
     \<bar>li_y existing - y\<bar> \<le> ac_vertical_separation_tolerance cfg"

definition add_intersection ::
    "line_topology_analysis \<Rightarrow> line_intersection_definition \<Rightarrow> line_topology_analysis" where
  "add_intersection result i = result\<lparr>la_intersections := la_intersections result @ [i],
     la_movements := la_movements result @ [a_movement i, b_movement i]\<rparr>"

definition addCrossing ::
    "(double \<Rightarrow> double) \<Rightarrow> line_route_analyzer_config \<Rightarrow> line_route \<Rightarrow> line_route \<Rightarrow> bool \<Rightarrow>
     u64 list \<Rightarrow> line_topology_analysis \<Rightarrow> nat \<times> nat \<Rightarrow> line_topology_analysis" where
  "addCrossing acos cfg a b self_pair shared result = (\<lambda>(ai, bj).
     if crossing_skipped acos cfg a b self_pair shared ai bj then result
     else case segmentIntersection (lr_points a ! ai) (lr_points a ! (ai + 1))
         (lr_points b ! bj) (lr_points b ! (bj + 1)) of
       None \<Rightarrow> result
     | Some (t, u, x, z) \<Rightarrow>
         let height_a = pt_y (lr_points a ! ai) +
               t * (pt_y (lr_points a ! (ai + 1)) - pt_y (lr_points a ! ai));
             height_b = pt_y (lr_points b ! bj) +
               u * (pt_y (lr_points b ! (bj + 1)) - pt_y (lr_points b ! bj));
             y = Fin (1 / 2) * (height_a + height_b)
         in if ac_vertical_separation_tolerance cfg < \<bar>height_a - height_b\<bar> then result
            else if list_ex (known_intersection cfg (lr_line_id a) (lr_line_id b) x y z)
                (la_intersections result) then result
            else add_intersection result (make_intersection a b ai bj x y z))"

subsection \<open>The analysis\<close>

definition pair_skipped :: "line_route \<Rightarrow> line_route \<Rightarrow> bool \<Rightarrow> bool" where
  "pair_skipped a b self_pair \<longleftrightarrow> \<not> self_pair \<and> lr_transport_type a \<noteq> [] \<and>
     lr_transport_type b \<noteq> [] \<and> lr_transport_type a \<noteq> lr_transport_type b"

definition analyzePair ::
    "(double \<Rightarrow> double) \<Rightarrow> line_route_analyzer_config \<Rightarrow> line_route list \<Rightarrow>
     line_topology_analysis \<Rightarrow> nat \<times> nat \<Rightarrow> line_topology_analysis option" where
  "analyzePair acos cfg routes result = (\<lambda>(a_index, b_index).
     let a = routes ! a_index; b = routes ! b_index; self_pair = (a_index = b_index)
     in if pair_skipped a b self_pair then Some result
        else case spatialCandidates a b (ac_point_merge_tolerance cfg) of
          None \<Rightarrow> None
        | Some candidates \<Rightarrow>
            (let fragments = overlap_fragments acos cfg a b self_pair candidates
             in case fragment_components cfg fragments of
               None \<Rightarrow> None
             | Some components \<Rightarrow>
                 (case fold_option (addComponent cfg a b fragments) result components of
                    None \<Rightarrow> None
                  | Some result1 \<Rightarrow>
                      Some (foldl (addCrossing acos cfg a b self_pair (shared_pairs fragments))
                        result1 (candidate_pairs candidates)))))"

definition analyzed_routes :: "line_route list \<Rightarrow> line_route list" where
  "analyzed_routes input_routes = sort_key lr_line_id
     (filter (\<lambda>r. lr_line_id r \<noteq> [] \<and> 2 \<le> length (lr_points r)) input_routes)"

text \<open>The pairs \<open>a_index \<le> b_index\<close> of the outer loops.\<close>

definition route_pairs :: "nat \<Rightarrow> (nat \<times> nat) list" where
  "route_pairs n = concat (map (\<lambda>i. map (Pair i) [i..<n]) [0..<n])"

definition analyze ::
    "(double \<Rightarrow> double) \<Rightarrow> line_route_analyzer_config \<Rightarrow> line_route list \<Rightarrow>
     line_topology_analysis option" where
  "analyze acos cfg input_routes =
     (let routes = analyzed_routes input_routes;
          h = ac_shared_track_tolerance cfg; v = ac_vertical_separation_tolerance cfg
      in case fold_option (analyzePair acos cfg routes) empty_analysis (route_pairs (length routes)) of
        None \<Rightarrow> None
      | Some result \<Rightarrow> (case atomizeOverlappingCorridors result routes h v of
          None \<Rightarrow> None
        | Some result1 \<Rightarrow>
            filterShortSharedComponents (consolidateAdjacentCorridors result1 h v)
              (ac_shared_corridor_min_length cfg) h v))"

subsection \<open>Every crossing is protected\<close>

lemma mergeCorridor_frame [simp]:
  "la_intersections (mergeCorridor r c a b h v) = la_intersections r"
  "la_movements (mergeCorridor r c a b h v) = la_movements r"
  by (simp_all add: mergeCorridor_def)

lemma addComponent_frame:
  "addComponent cfg a b fs r is = Some r' \<Longrightarrow>
   la_intersections r' = la_intersections r \<and> la_movements r' = la_movements r"
  by (auto simp: addComponent_def Let_def split: prod.splits if_splits option.splits)

lemma fold_option_invariant:
  "fold_option f s xs = Some s' \<Longrightarrow> P s \<Longrightarrow>
   (\<And>s x s'. x \<in> set xs \<Longrightarrow> P s \<Longrightarrow> f s x = Some s' \<Longrightarrow> P s') \<Longrightarrow> P s'"
proof (induction xs arbitrary: s)
  case (Cons x xs)
  then obtain t where t: "f s x = Some t" "fold_option f t xs = Some s'" by (auto split: option.splits)
  show ?case by (rule Cons.IH [OF t(2)]) (use Cons.prems t(1) in auto)
qed simp

lemma filterShort_frame:
  "filterShortSharedComponents r m h v = Some r' \<Longrightarrow>
   la_intersections r' = la_intersections r \<and> la_movements r' = la_movements r"
  by (auto simp: filterShortSharedComponents_def Let_def split: option.splits prod.splits)

lemma consolidate_frame [simp]:
  "la_intersections (consolidateAdjacentCorridors r h v) = la_intersections r"
  "la_movements (consolidateAdjacentCorridors r h v) = la_movements r"
  by (simp_all add: consolidateAdjacentCorridors_def)

lemma atomize_frame:
  "atomizeOverlappingCorridors r routes h v = Some r' \<Longrightarrow>
   la_intersections r' = la_intersections r \<and> la_movements r' = la_movements r"
  by (auto simp: atomizeOverlappingCorridors_def Let_def split: option.splits)

text \<open>An intersection lies on a segment of each of its two lines.\<close>

definition on_lines :: "line_route list \<Rightarrow> line_intersection_definition \<Rightarrow> bool" where
  "on_lines routes i \<longleftrightarrow> (\<exists>a \<in> set routes. \<exists>b \<in> set routes.
     li_line_a_id i = lr_line_id a \<and> li_line_b_id i = lr_line_id b \<and>
     li_line_a_segment i + 1 < length (lr_points a) \<and> li_line_b_segment i + 1 < length (lr_points b) \<and>
     li_intersection_id i = ''INTERSECTION:'' @ li_line_a_id i @ '':'' @ nat_digits (li_line_a_segment i) @
       '':'' @ li_line_b_id i @ '':'' @ nat_digits (li_line_b_segment i) \<and>
     li_line_a_movement_id i = li_intersection_id i @ '':MOVE:'' @ li_line_a_id i @ '':'' @
       nat_digits (li_line_a_segment i) \<and>
     li_line_b_movement_id i = li_intersection_id i @ '':MOVE:'' @ li_line_b_id i @ '':'' @
       nat_digits (li_line_b_segment i))"

definition analysis_ok :: "line_route list \<Rightarrow> line_topology_analysis \<Rightarrow> bool" where
  "analysis_ok routes r \<longleftrightarrow>
     la_movements r = concat (map (\<lambda>i. [a_movement i, b_movement i]) (la_intersections r)) \<and>
     (\<forall>i \<in> set (la_intersections r). on_lines routes i)"

lemma make_intersection_on_lines:
  "a \<in> set routes \<Longrightarrow> b \<in> set routes \<Longrightarrow> ai + 1 < length (lr_points a) \<Longrightarrow> bj + 1 < length (lr_points b) \<Longrightarrow>
   on_lines routes (make_intersection a b ai bj x y z)"
  unfolding on_lines_def by (intro bexI [of _ a] bexI [of _ b]) (simp_all add: make_intersection_def Let_def)

lemma addCrossing_ok:
  assumes "analysis_ok routes r" "a \<in> set routes" "b \<in> set routes"
    "fst p + 1 < length (lr_points a)" "snd p + 1 < length (lr_points b)"
  shows "analysis_ok routes (addCrossing acos cfg a b self shared r p)"
  using assms(1) make_intersection_on_lines [OF assms(2-5)]
  by (auto simp: addCrossing_def Let_def analysis_ok_def add_intersection_def split: prod.splits option.splits)

lemma candidate_pairs_range:
  assumes "spatialCandidates a b tol = Some candidates" "p \<in> set (candidate_pairs candidates)"
  shows "fst p + 1 < length (lr_points a) \<and> snd p + 1 < length (lr_points b)"
proof -
  obtain ai bj where p: "p = (ai, bj)" "ai < length candidates" "bj \<in> set (candidates ! ai)"
    using assms(2) by (auto simp: candidate_pairs_def)
  note cand = spatialCandidates_range [OF assms(1)]
  then show ?thesis using p by auto
qed

lemma analyzePair_ok:
  assumes "analyzePair acos cfg routes r p = Some r'" "analysis_ok routes r"
    and "fst p < length routes" "snd p < length routes"
  shows "analysis_ok routes r'"
proof -
  obtain i j where p: "p = (i, j)" by fastforce
  show ?thesis
  proof (cases "pair_skipped (routes ! i) (routes ! j) (i = j)")
    case False
    then obtain candidates components r1 where c: "spatialCandidates (routes ! i) (routes ! j)
          (ac_point_merge_tolerance cfg) = Some candidates"
      and r1: "fold_option (addComponent cfg (routes ! i) (routes ! j)
          (overlap_fragments acos cfg (routes ! i) (routes ! j) (i = j) candidates)) r components = Some r1"
      and r': "r' = foldl (addCrossing acos cfg (routes ! i) (routes ! j) (i = j) (shared_pairs
          (overlap_fragments acos cfg (routes ! i) (routes ! j) (i = j) candidates))) r1 (candidate_pairs candidates)"
      using assms(1) by (auto simp: analyzePair_def p Let_def split: option.splits)
    have "analysis_ok routes r1"
      by (rule fold_option_invariant [where P = "analysis_ok routes", OF r1 assms(2)])
        (auto simp: analysis_ok_def dest!: addComponent_frame)
    then show ?thesis unfolding r' using assms(3,4) candidate_pairs_range [OF c]
      by (intro foldl_invariant [where P = "analysis_ok routes"] addCrossing_ok) (simp_all add: p)
  qed (use assms in \<open>simp add: analyzePair_def p\<close>)
qed

lemma analyze_ok:
  assumes "analyze acos cfg input = Some r"
  shows "analysis_ok (analyzed_routes input) r"
proof -
  let ?rs = "analyzed_routes input"
  obtain r0 r1 h v where r0: "fold_option (analyzePair acos cfg ?rs) empty_analysis (route_pairs (length ?rs)) = Some r0"
    and r1: "atomizeOverlappingCorridors r0 ?rs h v = Some r1"
    and r: "filterShortSharedComponents (consolidateAdjacentCorridors r1 h v) (ac_shared_corridor_min_length cfg) h v = Some r"
    using assms by (auto simp: analyze_def Let_def split: option.splits)
  have "analysis_ok ?rs empty_analysis" by (simp add: analysis_ok_def empty_analysis_def)
  then have "analysis_ok ?rs r0"
    by (rule fold_option_invariant [where P = "analysis_ok ?rs", OF r0])
      (auto simp: route_pairs_def intro: analyzePair_ok)
  then show ?thesis using atomize_frame [OF r1] filterShort_frame [OF r] by (simp add: analysis_ok_def)
qed

subsection \<open>Two lines that cross\<close>

lemma unit_lit: 
  assumes "0 \<le> x" "x \<le> 1"
  obtains e where "mk_double x = Fin e" "0 \<le> e" "e \<le> 1"
  using mk_double_nonneg [OF assms(1)] mk_double_mono [OF assms(2)]
  by (cases "mk_double x") (auto simp: one_double_def)

lemma demo_hypot: "std_hypot (Fin 16) (Fin 0) = Fin 16" "std_hypot (Fin 0) (Fin 16) = Fin 16"
  "std_hypot (Fin (- 16)) (Fin 0) = Fin 16" "std_hypot (Fin 0) (Fin (- 16)) = Fin 16"
proof -
  have "bitlen 256 = 9" "bitlen 1 = 1" by code_simp+
  then have "ilog2 256 = 8" by (simp add: ilog2_def Let_def power_int_def)
  moreover have "isqrt (2 ^ 104) = 2 ^ 52" by code_simp
  ultimately have "sqrt_round 256 = 16"
    by (simp add: sqrt_round_def Let_def power_int_minus)
  then show "std_hypot (Fin 16) (Fin 0) = Fin 16" "std_hypot (Fin 0) (Fin 16) = Fin 16"
  "std_hypot (Fin (- 16)) (Fin 0) = Fin 16" "std_hypot (Fin 0) (Fin (- 16)) = Fin 16" by (simp_all add: double_simps)
qed

lemma demo_analyzed: "analyzed_routes [demo_east, demo_north] = [demo_east, demo_north]"
  by (simp add: analyzed_routes_def demo_east_def demo_north_def demo_route_def less_char_def)

lemmas demo_route_defs = demo_east_def demo_north_def demo_route_def demo_point_def

lemma demo_candidates':
  "spatialCandidates demo_east demo_east (Fin 5) = Some [[0]]"
  "spatialCandidates demo_north demo_north (Fin 5) = Some [[0]]"
  "spatialCandidates demo_east demo_north (Fin 5) = Some [[0]]"
  by (simp_all add: spatialCandidates_def demo_route_defs
      segment_cells_exact_def segment_cells_def cell_range_def cell_of_def i64_of_double_def cpp_max_def cpp_min_def
      trunc_def gridKey_def grid_add_def um_at_def default_point_def double_simps floor_rat_frac)

definition demo_acos :: "double \<Rightarrow> double" where
  "demo_acos c = (if c < Fin (1 / 2) then Fin (3 / 2) else 0)"

lemma demo_segments:
  "segmentIntersection (demo_point 8 16) (demo_point 24 16) (demo_point 16 8) (demo_point 16 24) =
     Some (Fin (1 / 2), Fin (1 / 2), Fin 16, Fin 16)"
  "Fin 15 < segmentAcuteAngleDegrees demo_acos (demo_point 8 16) (demo_point 24 16) (demo_point 16 8) (demo_point 16 24)"
proof -
  obtain e where e: "mk_double (1 / 1000000000) = Fin e" "0 \<le> e" "e \<le> 1" using unit_lit [of "1 / 1000000000"] by auto
  obtain f where f: "mk_double (1 / 100000000) = Fin f" "0 \<le> f" "f \<le> 1" using unit_lit [of "1 / 100000000"] by auto
  have "Fin 1 \<le> mk_double (1 + f)" using mk_double_mono [of 1 "1 + f"] f by (simp add: one_double_def)
  then have "\<not> mk_double (1 + f) < Fin (1 / 2)" by (cases "mk_double (1 + f)") auto
  then show "segmentIntersection (demo_point 8 16) (demo_point 24 16) (demo_point 16 8) (demo_point 16 24) =
     Some (Fin (1 / 2), Fin (1 / 2), Fin 16, Fin 16)"
    using e f by (simp add: segmentIntersection_def demo_point_def default_point_def double_simps Let_def
       clamp01_def cpp_max_def cpp_min_def)
  let ?d = "mk_double (572957795130823208768 / 10000000000000000000)"
  have "Fin 57 \<le> ?d" using mk_double_mono [of 57 "572957795130823208768 / 10000000000000000000"]
    by (simp add: double_simps)
  moreover have "?d \<le> Fin 58" using mk_double_mono [of "572957795130823208768 / 10000000000000000000" 58]
    by (simp add: double_simps)
  ultimately obtain d where d: "?d = Fin d" "57 \<le> d" by (cases ?d) auto
  then have "Fin 85 \<le> mk_double (3 / 2 * d)" using mk_double_mono [of 85 "3 / 2 * d"] by (simp add: double_simps)
  then have "Fin 15 < mk_double (3 / 2 * d)" by (cases "mk_double (3 / 2 * d)") auto
  then show "Fin 15 < segmentAcuteAngleDegrees demo_acos (demo_point 8 16) (demo_point 24 16) (demo_point 16 8) (demo_point 16 24)"
    using d e by (simp add: segmentAcuteAngleDegrees_def demo_point_def default_point_def double_simps Let_def
       demo_hypot demo_acos_def clamp01_def cpp_max_def cpp_min_def del: std_hypot.simps)
qed

lemma demo_overlap:
  "segmentOverlap demo_acos (demo_point 8 16) (demo_point 24 16) (demo_point 16 8) (demo_point 16 24) h v (Fin 15) = None"
  using demo_segments(2) by (simp add: segmentOverlap_def Let_def)

lemma demo_components: "fragment_components cfg [] = Some []"
  by (simp add: fragment_components_def uf_component_roots_def uf_build_def index_pairs_def)

lemma demo_sel [simp]:
  "ac_point_merge_tolerance default_analyzer_config = Fin 5"
  "lr_transport_type demo_east = []" "lr_transport_type demo_north = []"
  by (simp_all add: default_analyzer_config_def demo_route_defs)

lemma demo_pair_self:
  "analyzePair demo_acos default_analyzer_config [demo_east, demo_north] r (0, 0) = Some r"
  "analyzePair demo_acos default_analyzer_config [demo_east, demo_north] r (Suc 0, Suc 0) = Some r"
  by (simp_all add: analyzePair_def pair_skipped_def default_analyzer_config_def demo_candidates' Let_def
      overlap_fragments_def candidate_pairs_def make_fragment_def map_filter_simps demo_components
      shared_pairs_def addCrossing_def crossing_skipped_def)

lemma demo_not_skipped:
  "\<not> crossing_skipped demo_acos default_analyzer_config demo_east demo_north False [] 0 0"
  using double_less_asym [OF demo_segments(2)]
  by (simp add: crossing_skipped_def default_analyzer_config_def demo_east_def demo_north_def demo_route_def)
   (simp add: segmentBoundsNear_def demo_point_def cpp_min_def cpp_max_def default_point_def double_simps)

lemma demo_pair:
  "analyzePair demo_acos default_analyzer_config [demo_east, demo_north] empty_analysis (0, Suc 0) =
     Some (add_intersection empty_analysis (make_intersection demo_east demo_north 0 0 (Fin 16) 0 (Fin 16)))"
proof -
  have "overlap_fragments demo_acos default_analyzer_config demo_east demo_north False [[0]] = []"
    using demo_overlap by (simp add: overlap_fragments_def candidate_pairs_def make_fragment_def
        map_filter_simps default_analyzer_config_def demo_east_def demo_north_def demo_route_def)
  moreover have "addCrossing demo_acos default_analyzer_config demo_east demo_north False [] empty_analysis (0, 0) =
      add_intersection empty_analysis (make_intersection demo_east demo_north 0 0 (Fin 16) 0 (Fin 16))"
    using demo_segments(1) demo_not_skipped
    by (simp add: addCrossing_def demo_east_def demo_north_def demo_route_def Let_def)
      (simp add: demo_point_def default_point_def default_analyzer_config_def empty_analysis_def double_simps)
  ultimately show ?thesis
    by (simp add: analyzePair_def pair_skipped_def demo_candidates' Let_def demo_components
      shared_pairs_def candidate_pairs_def)
qed

lemma demo_analysis:
  "analyze demo_acos default_analyzer_config [demo_east, demo_north] =
     Some (add_intersection empty_analysis (make_intersection demo_east demo_north 0 0 (Fin 16) 0 (Fin 16)))"
proof -
  let ?r = "add_intersection empty_analysis (make_intersection demo_east demo_north 0 0 (Fin 16) 0 (Fin 16))"
  have "fold_option (analyzePair demo_acos default_analyzer_config [demo_east, demo_north]) empty_analysis
      (route_pairs (length [demo_east, demo_north])) = Some ?r"
    by (simp add: route_pairs_def upt_rec demo_pair_self demo_pair)
  then show ?thesis
    by (simp add: analyze_def demo_analyzed Let_def)
      (simp add: atomizeOverlappingCorridors_def consolidateAdjacentCorridors_def join_loop.simps
       filterShortSharedComponents_def uf_component_roots_def uf_build_def index_pairs_def
       add_intersection_def empty_analysis_def)
qed

text \<open>C29: every crossing the analysis reports is protected. It lies on a segment of each of its two lines
  and its ids name that place, and the reported movements contain a movement of each line through it; the
  reservation manager takes these two as conflicting, so it never books both. No other movements are
  reported.\<close>

theorem analyze_protects_crossings:
  assumes "analyze acos cfg input = Some result" and "i \<in> set (la_intersections result)"
  shows "on_lines (analyzed_routes input) i \<and>
    (\<exists>ma \<in> set (la_movements result). \<exists>mb \<in> set (la_movements result).
       mv_line_id ma = li_line_a_id i \<and> mv_line_id mb = li_line_b_id i \<and>
       mv_movement_id ma = li_line_a_movement_id i \<and> mv_movement_id mb = li_line_b_movement_id i \<and>
       mv_intersection_id ma = li_intersection_id i \<and> mv_intersection_id mb = li_intersection_id i \<and>
       movementsConflict ma mb \<and> movementsConflict mb ma) \<and>
    length (la_movements result) = 2 * length (la_intersections result)"
proof -
  note ok = analyze_ok [OF assms(1), unfolded analysis_ok_def]
  have mem: "a_movement i \<in> set (la_movements result)" "b_movement i \<in> set (la_movements result)"
    using ok assms(2) by auto
  have "length (concat (map (\<lambda>i. [a_movement i, b_movement i]) is)) = 2 * length is" for "is"
    by (induction "is") auto
  moreover have "movementsConflict (a_movement i) (b_movement i)" "movementsConflict (b_movement i) (a_movement i)"
    by (simp_all add: movementsConflict_def a_movement_def b_movement_def)
  ultimately show ?thesis using ok assms(2) mem
    by (intro conjI bexI [of _ "a_movement i"] bexI [of _ "b_movement i"])
      (simp_all add: a_movement_def b_movement_def)
qed

lemma analyze_protects_crossings_witness:
  "\<exists>result i. analyze demo_acos default_analyzer_config [demo_east, demo_north] = Some result \<and>
     i \<in> set (la_intersections result) \<and> (\<exists>ma \<in> set (la_movements result). \<exists>mb \<in> set (la_movements result).
       mv_line_id ma = ''A'' \<and> mv_line_id mb = ''B'' \<and> movementsConflict ma mb)"
proof -
  let ?i = "make_intersection demo_east demo_north 0 0 (Fin 16) 0 (Fin 16)"
  have i: "?i \<in> set (la_intersections (add_intersection empty_analysis ?i))" by (simp add: add_intersection_def)
  have "li_line_a_id ?i = ''A''" "li_line_b_id ?i = ''B''"
    by (simp_all add: make_intersection_def Let_def demo_route_defs)
  then show ?thesis using analyze_protects_crossings [OF demo_analysis i] demo_analysis i by metis
qed
end
