(* ===== verification/Registry.thy ===== *)
theory Registry
  imports Analyzer
begin

text \<open>
  \<open>LineTopologyRegistry\<close> (server/include/LineTopologyRegistry.h, server/src/LineTopologyRegistry.cpp):
  the current lines, their analysis and the reverse indices from a line to the shared corridors
  and crossings on it. A new set of lines is validated, analysed and indexed first and replaces
  the old topology only when all of that succeeded.
\<close>

subsection \<open>Data\<close>

record corridor_traversal =
  ct_corridor_id :: string
  ct_line_id :: string
  ct_low_segment :: nat
  ct_high_segment :: nat
  ct_low_position :: double
  ct_high_position :: double
  ct_occurrence_id :: string
  ct_direction_relation :: route_direction_relation

record intersection_traversal =
  it_intersection_id :: string
  it_movement_id :: string
  it_line_id :: string
  it_segment_index :: nat

definition LINE_TOPOLOGY_ALGORITHM_VERSION :: u64 where
  "LINE_TOPOLOGY_ALGORITHM_VERSION = 3"

record line_topology_snapshot =
  ts_revision :: u64
  ts_algorithm_version :: u64
  ts_algorithm_fingerprint :: string
  ts_routes :: "line_route list"
  ts_analysis :: line_topology_analysis

record line_topology_summary =
  ty_revision :: u64
  ty_algorithm_version :: u64
  ty_algorithm_fingerprint :: string
  ty_route_count :: nat
  ty_corridor_count :: nat
  ty_intersection_count :: nat
  ty_movement_count :: nat

record line_topology_registry =
  tr_analyzer :: line_route_analyzer_config
  tr_routes :: "(string, line_route) umap"
  tr_analysis :: line_topology_analysis
  tr_corridors_by_line :: "(string, corridor_traversal list) umap"
  tr_intersections_by_line :: "(string, intersection_traversal list) umap"
  tr_revision :: u64
  tr_algorithm_fingerprint :: string

subsection \<open>Operations\<close>

definition algorithm_fingerprint :: "line_route_analyzer_config \<Rightarrow> string" where
  "algorithm_fingerprint c = ''v'' @ string_of_u64 LINE_TOPOLOGY_ALGORITHM_VERSION @
     '':'' @ fmt_fixed 3 (ac_point_merge_tolerance c) @
     '':'' @ fmt_fixed 3 (ac_shared_track_tolerance c) @
     '':'' @ fmt_fixed 3 (ac_vertical_separation_tolerance c) @
     '':'' @ fmt_fixed 3 (ac_shared_corridor_min_length c) @
     '':'' @ fmt_fixed 3 (ac_intersection_min_angle_degrees c)"

definition new_line_topology_registry ::
    "line_route_analyzer_config \<Rightarrow> string + line_topology_registry" where
  "new_line_topology_registry c = (case new_line_route_analyzer c of
     Inl e \<Rightarrow> Inl e
   | Inr c' \<Rightarrow> Inr \<lparr>tr_analyzer = c', tr_routes = [], tr_analysis = empty_analysis,
       tr_corridors_by_line = [], tr_intersections_by_line = [], tr_revision = 0,
       tr_algorithm_fingerprint = algorithm_fingerprint c\<rparr>)"

definition finite_point :: "line_route_point \<Rightarrow> bool" where
  "finite_point p \<longleftrightarrow> \<not> (\<not> isfinite (pt_x p) \<or> \<not> isfinite (pt_y p) \<or> \<not> isfinite (pt_z p))"

fun collect_routes ::
    "(string, line_route) umap \<Rightarrow> line_route list \<Rightarrow> string + (string, line_route) umap" where
  "collect_routes new_routes [] = Inr new_routes"
| "collect_routes new_routes (route # rest) =
     (if lr_line_id route = [] \<or> length (lr_points route) < 2 \<or> lr_target_headway_ms route = 0
      then Inl ''invalid_line_route''
      else if um_find new_routes (lr_line_id route) \<noteq> None
        then Inl (''duplicate_line_id:'' @ lr_line_id route)
      else if \<not> list_all finite_point (lr_points route)
        then Inl (''invalid_line_point:'' @ lr_line_id route)
      else collect_routes (um_put (lr_line_id route) route new_routes) rest)"

definition index_push :: "string \<Rightarrow> 'a \<Rightarrow> (string, 'a list) umap \<Rightarrow> (string, 'a list) umap" where
  "index_push k x m = um_put k (um_at [] k m @ [x]) m"

definition member_traversal :: "string \<Rightarrow> shared_corridor_member \<Rightarrow> corridor_traversal" where
  "member_traversal corridor_id m = \<lparr>ct_corridor_id = corridor_id, ct_line_id = sm_line_id m,
     ct_low_segment = sm_start_segment m, ct_high_segment = sm_end_segment m,
     ct_low_position = cpp_min (sm_start_position m) (sm_end_position m),
     ct_high_position = cpp_max (sm_start_position m) (sm_end_position m),
     ct_occurrence_id = sm_occurrence_id m, ct_direction_relation = sm_direction_relation m\<rparr>"

definition index_corridors ::
    "shared_corridor_definition list \<Rightarrow> (string, corridor_traversal list) umap" where
  "index_corridors cs = foldl (\<lambda>m corridor. foldl (\<lambda>m member. index_push (sm_line_id member)
       (member_traversal (sd_corridor_id corridor) member) m) m (sd_members corridor)) [] cs"

definition a_traversal :: "line_intersection_definition \<Rightarrow> intersection_traversal" where
  "a_traversal i = \<lparr>it_intersection_id = li_intersection_id i,
     it_movement_id = li_line_a_movement_id i, it_line_id = li_line_a_id i,
     it_segment_index = li_line_a_segment i\<rparr>"

definition b_traversal :: "line_intersection_definition \<Rightarrow> intersection_traversal" where
  "b_traversal i = \<lparr>it_intersection_id = li_intersection_id i,
     it_movement_id = li_line_b_movement_id i, it_line_id = li_line_b_id i,
     it_segment_index = li_line_b_segment i\<rparr>"

definition index_intersections ::
    "line_intersection_definition list \<Rightarrow> (string, intersection_traversal list) umap" where
  "index_intersections is = foldl (\<lambda>m i. index_push (li_line_b_id i) (b_traversal i)
       (index_push (li_line_a_id i) (a_traversal i) m)) [] is"

text \<open>
  \<open>None\<close>: undefined behaviour in the analysis. Otherwise the reason of a refusal (\<open>None\<close> for the
  answer \<open>true\<close>) with the registry as the call leaves it. The revision counter is an unsigned 64-bit
  number.
\<close>

definition replaceRoutes ::
    "(double \<Rightarrow> double) \<Rightarrow> line_topology_registry \<Rightarrow> line_route list \<Rightarrow>
     (string option \<times> line_topology_registry) option" where
  "replaceRoutes acos r routes = (case collect_routes [] routes of
     Inl reason \<Rightarrow> Some (Some reason, r)
   | Inr new_routes \<Rightarrow> (case analyze acos (tr_analyzer r) routes of
       None \<Rightarrow> None
     | Some new_analysis \<Rightarrow> Some (None, r\<lparr>tr_routes := new_routes, tr_analysis := new_analysis,
         tr_corridors_by_line := index_corridors (la_shared_corridors new_analysis),
         tr_intersections_by_line := index_intersections (la_intersections new_analysis),
         tr_revision := tr_revision r + 1\<rparr>)))"

definition restoreRoutes ::
    "(double \<Rightarrow> double) \<Rightarrow> line_topology_registry \<Rightarrow> line_route list \<Rightarrow> u64 \<Rightarrow>
     (string option \<times> line_topology_registry) option" where
  "restoreRoutes acos r routes revision =
     (if revision = 0 then Some (Some ''invalid_topology_revision'', r)
      else case replaceRoutes acos r routes of
        None \<Rightarrow> None
      | Some (Some reason, r') \<Rightarrow> Some (Some reason, r')
      | Some (None, r') \<Rightarrow> Some (None, r'\<lparr>tr_revision := revision\<rparr>))"

definition registry_route :: "line_topology_registry \<Rightarrow> string \<Rightarrow> line_route option" where
  "registry_route r line_id = um_find (tr_routes r) line_id"

definition corridorsForLine :: "line_topology_registry \<Rightarrow> string \<Rightarrow> corridor_traversal list" where
  "corridorsForLine r line_id =
     (case um_find (tr_corridors_by_line r) line_id of None \<Rightarrow> [] | Some ts \<Rightarrow> ts)"

definition intersectionsForLine ::
    "line_topology_registry \<Rightarrow> string \<Rightarrow> intersection_traversal list" where
  "intersectionsForLine r line_id =
     (case um_find (tr_intersections_by_line r) line_id of None \<Rightarrow> [] | Some ts \<Rightarrow> ts)"

definition registry_snapshot :: "line_topology_registry \<Rightarrow> line_topology_snapshot" where
  "registry_snapshot r = \<lparr>ts_revision = tr_revision r,
     ts_algorithm_version = LINE_TOPOLOGY_ALGORITHM_VERSION,
     ts_algorithm_fingerprint = tr_algorithm_fingerprint r,
     ts_routes = sort_key lr_line_id (map snd (tr_routes r)), ts_analysis = tr_analysis r\<rparr>"

definition registry_summary :: "line_topology_registry \<Rightarrow> line_topology_summary" where
  "registry_summary r = \<lparr>ty_revision = tr_revision r,
     ty_algorithm_version = LINE_TOPOLOGY_ALGORITHM_VERSION,
     ty_algorithm_fingerprint = tr_algorithm_fingerprint r,
     ty_route_count = length (tr_routes r),
     ty_corridor_count = length (la_shared_corridors (tr_analysis r)),
     ty_intersection_count = length (la_intersections (tr_analysis r)),
     ty_movement_count = length (la_movements (tr_analysis r))\<rparr>"

subsection \<open>Validation\<close>

definition valid_route :: "line_route \<Rightarrow> bool" where
  "valid_route r \<longleftrightarrow> lr_line_id r \<noteq> [] \<and> 2 \<le> length (lr_points r) \<and> lr_target_headway_ms r \<noteq> 0 \<and>
     (\<forall>p \<in> set (lr_points r). isfinite (pt_x p) \<and> isfinite (pt_y p) \<and> isfinite (pt_z p))"

lemma finite_point_iff: "finite_point p \<longleftrightarrow> isfinite (pt_x p) \<and> isfinite (pt_y p) \<and> isfinite (pt_z p)"
  by (auto simp: finite_point_def)

lemma collect_routes_ok:
  "(\<exists>m'. collect_routes m rs = Inr m') \<longleftrightarrow> (\<forall>r \<in> set rs. valid_route r) \<and>
     distinct (map lr_line_id rs) \<and> (\<forall>r \<in> set rs. um_find m (lr_line_id r) = None)"
proof (induction rs arbitrary: m)
  case (Cons r rs)
  show ?case
  proof (cases "valid_route r \<and> um_find m (lr_line_id r) = None")
    case True
    then have "collect_routes m (r # rs) = collect_routes (um_put (lr_line_id r) r m) rs"
      by (auto simp: valid_route_def finite_point_iff list_all_iff)
    then show ?thesis using True by (simp only: Cons.IH) (auto simp: umap_simps image_iff)
  next
    case False
    then show ?thesis by (auto simp: valid_route_def finite_point_iff list_all_iff)
  qed
qed simp

lemma collect_routes_lookup:
  "collect_routes m rs = Inr m' \<Longrightarrow> (um_wf m \<longrightarrow> um_wf m') \<and>
   (\<forall>k. um_find m' k = (case find (\<lambda>r. lr_line_id r = k) rs of Some r \<Rightarrow> Some r | None \<Rightarrow> um_find m k))"
proof (induction rs arbitrary: m)
  case (Cons r rs)
  have rest: "collect_routes (um_put (lr_line_id r) r m) rs = Inr m'"
    using Cons.prems by (auto split: if_splits)
  have new: "\<forall>s \<in> set rs. lr_line_id s \<noteq> lr_line_id r"
    using collect_routes_ok [of "um_put (lr_line_id r) r m" rs] rest by (auto simp: umap_simps)
  then have "find (\<lambda>s. lr_line_id s = lr_line_id r) rs = None" by (auto simp: find_None_iff)
  then show ?case using Cons.IH [OF rest] by (auto simp: umap_simps split: option.splits)
qed simp

subsection \<open>Reachable registries\<close>

inductive tr_step :: "line_topology_registry \<Rightarrow> line_topology_registry \<Rightarrow> bool" where
  tr_replace: "replaceRoutes acos r routes = Some (answer, r') \<Longrightarrow> tr_step r r'"
| tr_restore: "restoreRoutes acos r routes revision = Some (answer, r') \<Longrightarrow> tr_step r r'"

definition tr_start :: "line_topology_registry \<Rightarrow> bool" where
  "tr_start r \<longleftrightarrow> (\<exists>c. new_line_topology_registry c = Inr r)"

definition tr_inv :: "line_topology_registry \<Rightarrow> bool" where
  "tr_inv r \<longleftrightarrow> um_wf (tr_routes r) \<and> analyzer_config_ok (tr_analyzer r) \<and>
     (\<forall>k s. um_find (tr_routes r) k = Some s \<longrightarrow> lr_line_id s = k \<and> valid_route s) \<and>
     tr_corridors_by_line r = index_corridors (la_shared_corridors (tr_analysis r)) \<and>
     tr_intersections_by_line r = index_intersections (la_intersections (tr_analysis r)) \<and>
     (\<exists>rs. analysis_ok rs (tr_analysis r) \<and> (\<forall>s \<in> set rs. um_find (tr_routes r) (lr_line_id s) = Some s))"

lemma tr_inv_start: "tr_start r \<Longrightarrow> tr_inv r"
  by (auto simp: tr_start_def tr_inv_def new_line_topology_registry_def new_line_route_analyzer_def
      index_corridors_def index_intersections_def empty_analysis_def analysis_ok_def
      split: sum.splits if_splits intro!: exI [of _ "[]"])

lemma set_analyzed_routes: "set (analyzed_routes rs) \<subseteq> set rs"
  by (auto simp: analyzed_routes_def)

lemma replaceRoutes_refused: "replaceRoutes acos r routes = Some (Some e, r') \<Longrightarrow> r' = r"
  by (auto simp: replaceRoutes_def split: sum.splits option.splits)

lemma restoreRoutes_refused: "restoreRoutes acos r routes n = Some (Some e, r') \<Longrightarrow> r' = r"
  by (auto simp: restoreRoutes_def split: if_splits option.splits dest: replaceRoutes_refused)

lemma tr_inv_replace:
  assumes "replaceRoutes acos r routes = Some (answer, r')" "tr_inv r"
  shows "tr_inv r'"
proof (cases answer)
  case (Some e)
  then show ?thesis using assms replaceRoutes_refused by blast
next
  case None
  obtain m an where m: "collect_routes [] routes = Inr m" and an: "analyze acos (tr_analyzer r) routes = Some an"
    and r': "r' = r\<lparr>tr_routes := m, tr_analysis := an,
         tr_corridors_by_line := index_corridors (la_shared_corridors an),
         tr_intersections_by_line := index_intersections (la_intersections an),
         tr_revision := tr_revision r + 1\<rparr>"
    using assms(1) None by (auto simp: replaceRoutes_def split: sum.splits option.splits)
  have ok: "\<forall>s \<in> set routes. valid_route s" "distinct (map lr_line_id routes)"
    using collect_routes_ok [of "[]" routes] m by auto
  note look = collect_routes_lookup [OF m]
  have "lr_line_id s = k \<and> valid_route s" if "um_find m k = Some s" for k s
    using look ok(1) that by (auto simp: find_Some_iff split: option.splits)
  moreover have "um_find m (lr_line_id s) = Some s" if s: "s \<in> set routes" for s
  proof -
    obtain t where t: "find (\<lambda>r. lr_line_id r = lr_line_id s) routes = Some t"
      using s by (cases "find (\<lambda>r. lr_line_id r = lr_line_id s) routes") (auto simp: find_None_iff)
    then have "t \<in> set routes" "lr_line_id t = lr_line_id s" by (auto simp: find_Some_iff)
    then have "t = s" using ok(2) s by (metis distinct_map inj_onD)
    then show ?thesis using look t by simp
  qed
  moreover have "um_wf m" using look by simp
  ultimately show ?thesis using assms(2) analyze_ok [OF an] set_analyzed_routes [of routes]
    unfolding tr_inv_def r' by (auto intro!: exI [of _ "analyzed_routes routes"])
qed

lemma tr_inv_revision: "tr_inv (r\<lparr>tr_revision := n\<rparr>) = tr_inv r"
  by (simp add: tr_inv_def)

lemma tr_inv_step: "tr_step r r' \<Longrightarrow> tr_inv r \<Longrightarrow> tr_inv r'"
proof (induction rule: tr_step.induct)
  case (tr_restore acos r routes revision answer r')
  then have "\<exists>r''. (r' = r'' \<or> r' = r''\<lparr>tr_revision := revision\<rparr>) \<and>
      (r'' = r \<or> (\<exists>a. replaceRoutes acos r routes = Some (a, r'')))"
    by (fastforce simp: restoreRoutes_def split: option.splits if_splits)
  then show ?case using tr_restore(2) tr_inv_replace tr_inv_revision by metis
qed (rule tr_inv_replace)

interpretation top: inductive_invariant tr_start tr_step tr_inv
  by unfold_locales (auto intro: tr_inv_start tr_inv_step)


subsection \<open>The reverse indices\<close>

text \<open>What the indices stand for: a search through the whole analysis.\<close>

definition corridors_on_line ::
    "shared_corridor_definition list \<Rightarrow> string \<Rightarrow> corridor_traversal list" where
  "corridors_on_line cs l = concat (map (\<lambda>c. map (member_traversal (sd_corridor_id c))
     (filter (\<lambda>m. sm_line_id m = l) (sd_members c))) cs)"

definition intersections_on_line ::
    "line_intersection_definition list \<Rightarrow> string \<Rightarrow> intersection_traversal list" where
  "intersections_on_line is l = concat (map (\<lambda>i. (if li_line_a_id i = l then [a_traversal i] else []) @
     (if li_line_b_id i = l then [b_traversal i] else [])) is)"

lemma um_at_index_push:
  "um_at [] l (index_push k x m) = um_at [] l m @ (if l = k then [x] else [])"
  by (simp add: index_push_def um_at_put)

lemma index_members:
  "um_at [] l (foldl (\<lambda>m member. index_push (sm_line_id member) (member_traversal c member) m) m ms) =
     um_at [] l m @ map (member_traversal c) (filter (\<lambda>m. sm_line_id m = l) ms)"
  by (induction ms arbitrary: m) (auto simp: um_at_index_push)

lemma index_corridors_spec: "um_at [] l (index_corridors cs) = corridors_on_line cs l"
proof -
  have "um_at [] l (foldl (\<lambda>m corridor. foldl (\<lambda>m member. index_push (sm_line_id member)
       (member_traversal (sd_corridor_id corridor) member) m) m (sd_members corridor)) m cs) =
     um_at [] l m @ corridors_on_line cs l" for m
    by (induction cs arbitrary: m) (simp_all add: index_members corridors_on_line_def)
  from this [of "[]"] show ?thesis by (simp add: index_corridors_def um_at_def)
qed

lemma index_intersections_spec: "um_at [] l (index_intersections is) = intersections_on_line is l"
proof -
  have "um_at [] l (foldl (\<lambda>m i. index_push (li_line_b_id i) (b_traversal i)
       (index_push (li_line_a_id i) (a_traversal i) m)) m is) = um_at [] l m @ intersections_on_line is l" for m
    by (induction "is" arbitrary: m) (simp_all add: um_at_index_push intersections_on_line_def)
  from this [of "[]"] show ?thesis by (simp add: index_intersections_def um_at_def)
qed

lemma corridorsForLine_spec:
  "tr_inv r \<Longrightarrow> corridorsForLine r l = corridors_on_line (la_shared_corridors (tr_analysis r)) l"
  using index_corridors_spec [of l "la_shared_corridors (tr_analysis r)"]
  by (simp add: tr_inv_def corridorsForLine_def um_at_def)

lemma intersectionsForLine_spec:
  "tr_inv r \<Longrightarrow> intersectionsForLine r l = intersections_on_line (la_intersections (tr_analysis r)) l"
  using index_intersections_spec [of l "la_intersections (tr_analysis r)"]
  by (simp add: tr_inv_def intersectionsForLine_def um_at_def)

text \<open>A crossing on a line is on a segment of that line.\<close>

lemma intersection_traversal_range:
  assumes "tr_inv r" "t \<in> set (intersectionsForLine r l)"
  shows "it_line_id t = l \<and> (\<exists>s. registry_route r l = Some s \<and> it_segment_index t + 1 < length (lr_points s))"
proof -
  obtain i where i: "i \<in> set (la_intersections (tr_analysis r))"
    and t: "li_line_a_id i = l \<and> t = a_traversal i \<or> li_line_b_id i = l \<and> t = b_traversal i"
    using assms(2) by (auto simp: intersectionsForLine_spec [OF assms(1)] intersections_on_line_def
        split: if_splits)
  obtain rs where "on_lines rs i" "\<forall>s \<in> set rs. um_find (tr_routes r) (lr_line_id s) = Some s"
    using assms(1) i by (auto simp: tr_inv_def analysis_ok_def)
  then show ?thesis using t by (auto simp: on_lines_def registry_route_def a_traversal_def b_traversal_def)
qed

subsection \<open>A registry of two crossing lines\<close>

definition demo_registry :: line_topology_registry where
  "demo_registry = \<lparr>tr_analyzer = default_analyzer_config, tr_routes = [], tr_analysis = empty_analysis,
     tr_corridors_by_line = [], tr_intersections_by_line = [], tr_revision = 0,
     tr_algorithm_fingerprint = algorithm_fingerprint default_analyzer_config\<rparr>"

definition demo_topology_loaded :: line_topology_registry where
  "demo_topology_loaded = (case replaceRoutes demo_acos demo_registry [demo_east, demo_north] of
     Some (None, r) \<Rightarrow> r | _ \<Rightarrow> demo_registry)"

lemma demo_registry_start: "tr_start demo_registry"
proof -
  have "analyzer_config_ok default_analyzer_config"
    by (simp add: analyzer_config_ok_def default_analyzer_config_def double_simps)
  then show ?thesis unfolding tr_start_def
    by (intro exI [of _ default_analyzer_config])
      (simp add: new_line_topology_registry_def new_line_route_analyzer_def demo_registry_def)
qed

lemma demo_valid_routes: "valid_route demo_east" "valid_route demo_north"
  "lr_line_id demo_east = ''A''" "lr_line_id demo_north = ''B''"
  by (simp_all add: valid_route_def demo_route_defs default_point_def zero_double_def)

lemma demo_collect:
  "collect_routes [] [demo_east, demo_north] = Inr [(''A'', demo_east), (''B'', demo_north)]"
  by (simp add: demo_route_defs finite_point_def default_point_def zero_double_def)

lemma demo_replace:
  "replaceRoutes demo_acos demo_registry [demo_east, demo_north] = Some (None, demo_topology_loaded)"
proof -
  have "tr_analyzer demo_registry = default_analyzer_config" by (simp add: demo_registry_def)
  then have "\<exists>r. replaceRoutes demo_acos demo_registry [demo_east, demo_north] = Some (None, r)"
    by (simp add: replaceRoutes_def demo_collect demo_analysis del: collect_routes.simps)
  then show ?thesis by (auto simp: demo_topology_loaded_def)
qed

lemma demo_loaded_reachable: "reachable tr_start tr_step demo_topology_loaded"
  by (rule reach_step [of _ _ demo_registry]; rule reach_init tr_replace)
    (rule demo_registry_start demo_replace)+

lemma demo_loaded_sel:
  "tr_routes demo_topology_loaded = [(''A'', demo_east), (''B'', demo_north)]"
  "tr_analysis demo_topology_loaded = add_intersection empty_analysis
     (make_intersection demo_east demo_north 0 0 (Fin 16) 0 (Fin 16))"
proof -
  have "tr_analyzer demo_registry = default_analyzer_config" by (simp add: demo_registry_def)
  note r = demo_replace [unfolded replaceRoutes_def this demo_collect demo_analysis sum.case option.case,
    THEN option.inject [THEN iffD1], THEN prod.inject [THEN iffD1], THEN conjunct2, symmetric]
  show "tr_routes demo_topology_loaded = [(''A'', demo_east), (''B'', demo_north)]"
    and "tr_analysis demo_topology_loaded = add_intersection empty_analysis
     (make_intersection demo_east demo_north 0 0 (Fin 16) 0 (Fin 16))"
    by (subst r, simp)+
qed

subsection \<open>Properties\<close>

lemma find_by_key:
  "distinct (map f xs) \<Longrightarrow> find (\<lambda>x. f x = k) xs = Some y \<longleftrightarrow> y \<in> set xs \<and> f y = k"
  by (induction xs) auto

text \<open>C30: a set of lines is refused exactly when one of them is malformed (no id, fewer than two points, no
  target headway, a coordinate that is not a number) or two share an id. A refusal names the kind of
  problem and an offending line and leaves every part of the registry as it was: routes, analysis,
  both indices and the revision. An accepted upload stores exactly the given lines, each under its
  id, and counts the revision up by one; so does a restore, which sets the stored revision instead
  and is refused in the same cases or for the revision 0.\<close>

theorem replaceRoutes_refuses_exactly:
  assumes "replaceRoutes acos r routes = Some (answer, r')"
    and "restoreRoutes acos r routes revision = Some (answer_restored, r_restored)"
  shows "(answer = None \<longleftrightarrow> (\<forall>s \<in> set routes. valid_route s) \<and> distinct (map lr_line_id routes)) \<and>
    (\<forall>reason. answer = Some reason \<longrightarrow> r' = r \<and> (reason = ''invalid_line_route'' \<or>
       (\<exists>s \<in> set routes. reason = ''duplicate_line_id:'' @ lr_line_id s \<or>
          reason = ''invalid_line_point:'' @ lr_line_id s \<and> \<not> valid_route s))) \<and>
    (answer = None \<longrightarrow> (\<forall>k s. registry_route r' k = Some s \<longleftrightarrow> s \<in> set routes \<and> lr_line_id s = k) \<and>
       tr_revision r' = tr_revision r + 1) \<and>
    (answer_restored = None \<longleftrightarrow> revision \<noteq> 0 \<and> answer = None) \<and>
    (answer_restored \<noteq> None \<longrightarrow> r_restored = r) \<and>
    (answer_restored = None \<longrightarrow> r_restored = r'\<lparr>tr_revision := revision\<rparr>)"
proof -
  have ok: "answer = None \<longleftrightarrow> (\<exists>m. collect_routes [] routes = Inr m)"
    using assms(1) by (auto simp: replaceRoutes_def split: sum.splits option.splits)
  have "reason = ''invalid_line_route'' \<or>
     (\<exists>s \<in> set rs. reason = ''duplicate_line_id:'' @ lr_line_id s \<or>
        reason = ''invalid_line_point:'' @ lr_line_id s \<and> \<not> valid_route s)"
    if "collect_routes m rs = Inl reason" for m rs reason
    using that
    by (induction rs arbitrary: m) (auto simp: valid_route_def finite_point_iff list_all_iff split: if_splits)
  from this [of "[]" routes] have reasons: "answer = Some reason \<Longrightarrow> reason = ''invalid_line_route'' \<or>
     (\<exists>s \<in> set routes. reason = ''duplicate_line_id:'' @ lr_line_id s \<or>
        reason = ''invalid_line_point:'' @ lr_line_id s \<and> \<not> valid_route s)" for reason
    using assms(1) by (auto simp: replaceRoutes_def split: sum.splits option.splits)
  have stored: "(registry_route r' k = Some s \<longleftrightarrow> s \<in> set routes \<and> lr_line_id s = k) \<and>
      tr_revision r' = tr_revision r + 1" if acc: "answer = None" for k s
  proof -
    obtain m where m: "collect_routes [] routes = Inr m" using ok acc by auto
    then have "tr_routes r' = m" and rev: "tr_revision r' = tr_revision r + 1"
      using assms(1) acc by (auto simp: replaceRoutes_def split: option.splits)
    then have "registry_route r' k = find (\<lambda>t. lr_line_id t = k) routes"
      using collect_routes_lookup [OF m] by (auto simp: registry_route_def split: option.splits)
    moreover have "distinct (map lr_line_id routes)" using collect_routes_ok [of "[]" routes] m by auto
    ultimately show ?thesis using rev find_by_key by metis
  qed
  have "(answer_restored = None \<longleftrightarrow> revision \<noteq> 0 \<and> answer = None) \<and>
    (answer_restored = None \<longrightarrow> r_restored = r'\<lparr>tr_revision := revision\<rparr>)"
    using assms by (auto simp: restoreRoutes_def split: if_splits option.splits)
  moreover have "answer_restored \<noteq> None \<longrightarrow> r_restored = r"
    using assms(2) restoreRoutes_refused by blast
  moreover have "answer = Some reason \<Longrightarrow> r' = r" for reason using assms(1) replaceRoutes_refused by blast
  ultimately show ?thesis using ok reasons stored collect_routes_ok [of "[]" routes] by simp
qed

lemma replaceRoutes_refuses_exactly_witness:
  "\<exists>r' r''. replaceRoutes demo_acos demo_registry [demo_east, demo_north] = Some (None, r') \<and>
     registry_route r' ''A'' = Some demo_east \<and> tr_revision r' = 1 \<and>
     replaceRoutes demo_acos demo_registry [demo_east, demo_east] = Some (Some ''duplicate_line_id:A'', r'') \<and>
     r'' = demo_registry"
proof -
  have "\<exists>r. restoreRoutes demo_acos demo_registry [demo_east, demo_north] 5 = Some (None, r)"
    using demo_replace by (simp add: restoreRoutes_def)
  then obtain t where t: "restoreRoutes demo_acos demo_registry [demo_east, demo_north] 5 = Some (None, t)" by blast
  have rev: "tr_revision demo_registry = 0" by (simp add: demo_registry_def)
  have ids: "demo_east \<in> set [demo_east, demo_north]" "lr_line_id demo_east = ''A''" by (simp_all add: demo_valid_routes)
  have good: "registry_route demo_topology_loaded ''A'' = Some demo_east \<and> tr_revision demo_topology_loaded = 1"
    using replaceRoutes_refuses_exactly [OF demo_replace t] ids rev by auto
  have bad: "collect_routes [] [demo_east, demo_east] = Inl ''duplicate_line_id:A''"
    by (simp add: demo_route_defs finite_point_def default_point_def zero_double_def)
  then have "replaceRoutes demo_acos demo_registry [demo_east, demo_east] =
      Some (Some ''duplicate_line_id:A'', demo_registry)" by (simp add: replaceRoutes_def del: collect_routes.simps)
  then show ?thesis using good demo_replace by blast
qed

lemma strictly_sorted_sort_key: "distinct (map f xs) \<Longrightarrow> sorted_wrt (<) (map f (sort_key f xs))"
  by (simp add: strict_sorted_iff distinct_map)

text \<open>C31: what the registry stores is well-formed. In every reachable registry each line is stored under its
  own id and is valid, the snapshot lists the lines in strictly increasing order of id, and the
  summary's counts are those of the snapshot. Both reverse indices agree with the analysis: the
  corridors (crossings) returned for a line are exactly those that a scan of every corridor's members
  (of every crossing's two lines) finds for it, in that order, none missing and none twice; and every
  crossing returned lies on a segment that the stored line has.\<close>

theorem registry_is_well_formed:
  assumes "reachable tr_start tr_step r"
  shows "(\<forall>k s. registry_route r k = Some s \<longrightarrow> lr_line_id s = k \<and> valid_route s) \<and>
    sorted_wrt (<) (map lr_line_id (ts_routes (registry_snapshot r))) \<and>
    (\<forall>s. s \<in> set (ts_routes (registry_snapshot r)) \<longleftrightarrow> registry_route r (lr_line_id s) = Some s) \<and>
    ty_route_count (registry_summary r) = length (ts_routes (registry_snapshot r)) \<and>
    ty_movement_count (registry_summary r) = 2 * ty_intersection_count (registry_summary r) \<and>
    (\<forall>l. corridorsForLine r l = concat (map (\<lambda>c. map (member_traversal (sd_corridor_id c))
       (filter (\<lambda>m. sm_line_id m = l) (sd_members c))) (la_shared_corridors (ts_analysis (registry_snapshot r)))) \<and>
     intersectionsForLine r l = concat (map (\<lambda>i. (if li_line_a_id i = l then [a_traversal i] else []) @
       (if li_line_b_id i = l then [b_traversal i] else [])) (la_intersections (ts_analysis (registry_snapshot r)))) \<and>
     (\<forall>t \<in> set (intersectionsForLine r l). \<exists>s. registry_route r l = Some s \<and>
       it_segment_index t + 1 < length (lr_points s)))"
proof -
  have inv: "tr_inv r" using top.inv_reachable [OF assms] .
  then have wf: "um_wf (tr_routes r)"
    and ids: "\<And>k s. um_find (tr_routes r) k = Some s \<Longrightarrow> lr_line_id s = k \<and> valid_route s"
    by (auto simp: tr_inv_def)
  have kid: "lr_line_id s = k" if "(k, s) \<in> set (tr_routes r)" for k s
    using that ids um_mem_iff [OF wf] by blast
  then have keys: "map lr_line_id (map snd (tr_routes r)) = map fst (tr_routes r)" by auto
  have "sorted_wrt (<) (map lr_line_id (sort_key lr_line_id (map snd (tr_routes r))))"
    using wf by (intro strictly_sorted_sort_key) (simp only: keys um_wf_def)
  moreover have "s \<in> snd ` set (tr_routes r) \<longleftrightarrow> um_find (tr_routes r) (lr_line_id s) = Some s" for s
  proof
    assume "s \<in> snd ` set (tr_routes r)"
    then obtain k where k: "(k, s) \<in> set (tr_routes r)" by auto
    with kid [OF k] show "um_find (tr_routes r) (lr_line_id s) = Some s" using um_mem_iff [OF wf] by simp
  next
    assume "um_find (tr_routes r) (lr_line_id s) = Some s"
    then have "snd (lr_line_id s, s) \<in> snd ` set (tr_routes r)" by (intro imageI um_find_mem)
    then show "s \<in> snd ` set (tr_routes r)" by simp
  qed
  moreover have "length (la_movements (tr_analysis r)) = 2 * length (la_intersections (tr_analysis r))"
  proof -
    have "length (concat (map (\<lambda>i. [a_movement i, b_movement i]) is)) = 2 * length is" for "is"
      by (induction "is") auto
    then show ?thesis using inv by (auto simp: tr_inv_def analysis_ok_def)
  qed
  moreover have "corridorsForLine r l = concat (map (\<lambda>c. map (member_traversal (sd_corridor_id c))
       (filter (\<lambda>m. sm_line_id m = l) (sd_members c))) (la_shared_corridors (tr_analysis r)))"
    "intersectionsForLine r l = concat (map (\<lambda>i. (if li_line_a_id i = l then [a_traversal i] else []) @
       (if li_line_b_id i = l then [b_traversal i] else [])) (la_intersections (tr_analysis r)))" for l
    using corridorsForLine_spec [OF inv] intersectionsForLine_spec [OF inv]
    by (simp_all add: corridors_on_line_def intersections_on_line_def)
  moreover note intersection_traversal_range [OF inv]
  ultimately show ?thesis using ids by (simp add: registry_route_def registry_snapshot_def registry_summary_def)
qed

lemma registry_is_well_formed_witness:
  "ty_route_count (registry_summary demo_topology_loaded) = 2 \<and>
   sorted_wrt (<) (map lr_line_id (ts_routes (registry_snapshot demo_topology_loaded))) \<and>
   ty_movement_count (registry_summary demo_topology_loaded) = 2 \<and>
   map it_line_id (intersectionsForLine demo_topology_loaded ''A'') = [''A'']"
proof -
  have "ty_route_count (registry_summary demo_topology_loaded) = 2"
    "ty_intersection_count (registry_summary demo_topology_loaded) = 1"
    by (simp_all add: registry_summary_def demo_loaded_sel add_intersection_def empty_analysis_def)
  moreover have "map it_line_id (concat (map (\<lambda>i. (if li_line_a_id i = ''A'' then [a_traversal i] else []) @
       (if li_line_b_id i = ''A'' then [b_traversal i] else []))
       (la_intersections (ts_analysis (registry_snapshot demo_topology_loaded))))) = [''A'']"
    by (simp add: registry_snapshot_def demo_loaded_sel add_intersection_def empty_analysis_def
        make_intersection_def Let_def demo_valid_routes a_traversal_def)
  ultimately show ?thesis using registry_is_well_formed [OF demo_loaded_reachable] by simp
qed

end
