(* ===== verification/Planner.thy ===== *)
theory Planner
  imports Registry Policy Monitor
begin

text \<open>
  \<open>AffectedLinePlanner\<close> (server/include/AffectedLinePlanner.h, server/src/AffectedLinePlanner.cpp):
  the soft plan. For every train on a line with shared corridors it predicts when the train
  reaches each corridor, rates how the trains of a line are spaced, and proposes an order of
  entry. \<open>None\<close> is a read outside a vector, an undefined conversion or a loop that does not end.
\<close>

subsection \<open>Data\<close>

record affected_line_planner_config =
  al_planning_horizon_ms :: u64
  al_minimum_prediction_speed :: double
  al_reorder_tolerance_ms :: u64
  al_planned_minimum_spacing_ms :: u64
  al_same_line_consecutive_penalty :: double

definition default_planner_config :: affected_line_planner_config where
  "default_planner_config = \<lparr>al_planning_horizon_ms = 300000, al_minimum_prediction_speed = Fin 5,
     al_reorder_tolerance_ms = 10000, al_planned_minimum_spacing_ms = 5000,
     al_same_line_consecutive_penalty = Fin (1 / 4)\<rparr>"

record planned_train_arrival =
  pa_train_id :: string
  pa_line_id :: string
  pa_corridor_resource_id :: string
  pa_distance_to_entry :: double
  pa_estimated_arrival_simulation_ms :: u64
  pa_planned_entry_simulation_ms :: u64
  pa_target_headway_ms :: u64
  pa_within_planning_horizon :: bool
  pa_suggested_rank :: size_t
  pa_line_distribution_need :: double
  pa_global_priority :: double

definition default_planned_arrival :: planned_train_arrival where
  "default_planned_arrival = \<lparr>pa_train_id = [], pa_line_id = [], pa_corridor_resource_id = [],
     pa_distance_to_entry = 0, pa_estimated_arrival_simulation_ms = 0,
     pa_planned_entry_simulation_ms = 0, pa_target_headway_ms = 15000,
     pa_within_planning_horizon = False, pa_suggested_rank = - 1, pa_line_distribution_need = 0,
     pa_global_priority = 0\<rparr>"

record corridor_rolling_plan =
  cp_corridor_resource_id :: string
  cp_generated_at_simulation_ms :: u64
  cp_trains :: "planned_train_arrival list"

definition default_rolling_plan :: corridor_rolling_plan where
  "default_rolling_plan = \<lparr>cp_corridor_resource_id = [], cp_generated_at_simulation_ms = 0, cp_trains = []\<rparr>"

record rolling_plan_result =
  rp_plans_by_resource :: "(string, corridor_rolling_plan) umap"
  rp_by_train_resource :: "(string, planned_train_arrival) umap"

subsection \<open>Helpers\<close>

definition planKey :: "string \<Rightarrow> string \<Rightarrow> string" where
  "planKey train_id resource_id = train_id @ [CHR 0x0A] @ resource_id"

definition resourceId :: "string \<Rightarrow> corridor_direction \<Rightarrow> string" where
  "resourceId corridor_id direction =
     corridor_id @ (if direction = FORWARD then '':FORWARD'' else '':REVERSE'')"

definition corridorDirection ::
    "corridor_traversal \<Rightarrow> route_travel_direction \<Rightarrow> corridor_direction" where
  "corridorDirection traversal travel =
     (let increasing = (travel = TRAVEL_FORWARD);
          route_matches = (ct_direction_relation traversal = SAME)
      in if increasing = route_matches then FORWARD else REVERSE)"

definition plan_segmentLength :: "line_route \<Rightarrow> nat \<Rightarrow> double" where
  "plan_segmentLength route i = (let a = lr_points route ! i; b = lr_points route ! (i + 1)
     in std_hypot (pt_x b - pt_x a) (pt_z b - pt_z a))"

definition loop_epsilon :: double where
  "loop_epsilon = lit (1 / 10 ^ 9)"

text \<open>
  The segment and the fraction of one iteration. For a reverse train that is at (or within
  \<open>1e-9\<close> above) a point the code takes the segment before it; below the first point there is none
  and the index wraps around to a huge number, which is \<open>None\<close>.
\<close>

definition step_segment ::
    "line_route \<Rightarrow> route_travel_direction \<Rightarrow> double \<Rightarrow> (nat \<times> double) option" where
  "step_segment route travel position = (case nat_of_double (std_floor position) of
     None \<Rightarrow> None
   | Some f \<Rightarrow>
       (let fraction = position - std_floor position
        in if travel = TRAVEL_REVERSE \<and> fraction \<le> loop_epsilon \<and> 0 < position
           then if f = 0 \<or> length (lr_points route) < f + 1 then None else Some (f - 1, 1)
           else Some (min (length (lr_points route) - 2) f, fraction)))"

partial_function (option) distance_loop ::
    "line_route \<Rightarrow> route_travel_direction \<Rightarrow> double \<Rightarrow> double \<Rightarrow> double \<Rightarrow> double \<Rightarrow> double option" where
  "distance_loop route travel maximum result delta position =
     (if \<not> loop_epsilon < delta then Some result
      else Option.bind (step_segment route travel position) (\<lambda>(index, fraction).
        let step = cpp_min delta (if travel = TRAVEL_FORWARD then 1 - fraction
              else if loop_epsilon < fraction then fraction else 1);
            result' = result + step * plan_segmentLength route index;
            delta' = delta - step;
            position1 = position + (if travel = TRAVEL_FORWARD then step else - step);
            position2 = (if maximum - loop_epsilon \<le> position1 \<and> loop_epsilon < delta' then 0 else position1);
            position3 = (if position2 \<le> loop_epsilon \<and> loop_epsilon < delta' \<and> travel = TRAVEL_REVERSE
              then maximum else position2)
        in distance_loop route travel maximum result' delta' position3))"

declare distance_loop.simps [code]

text \<open>\<open>Some None\<close>: the function returned \<open>false\<close>, the entry is not ahead of the train.\<close>

definition distanceToEntry ::
    "line_route \<Rightarrow> corridor_traversal \<Rightarrow> train_telemetry \<Rightarrow> double option option" where
  "distanceToEntry route traversal train =
     (if length (lr_points route) < 2 then Some None
      else
        let maximum = double_of_nat (length (lr_points route) - 1);
            current = cpp_max 0 (cpp_min maximum (tt_route_position train));
            entry = (if tt_travel_direction train = TRAVEL_FORWARD then ct_low_position traversal
              else ct_high_position traversal);
            delta0 = (if tt_travel_direction train = TRAVEL_FORWARD then entry - current
              else current - entry);
            delta = (if delta0 < lit (- (1 / 10 ^ 6)) \<and> lr_is_loop route then delta0 + maximum else delta0)
        in if delta < lit (- (1 / 10 ^ 6)) then Some None
           else map_option Some (distance_loop route (tt_travel_direction train) maximum 0 delta current))"

definition addSaturated :: "u64 \<Rightarrow> u64 \<Rightarrow> u64" where
  "addSaturated lhs rhs = (if - 1 - lhs < rhs then - 1 else lhs + rhs)"

definition rolling_find ::
    "rolling_plan_result \<Rightarrow> string \<Rightarrow> string \<Rightarrow> planned_train_arrival option" where
  "rolling_find result train_id rid = um_find (rp_by_train_resource result) (planKey train_id rid)"

definition new_affected_line_planner ::
    "affected_line_planner_config \<Rightarrow> string + affected_line_planner_config" where
  "new_affected_line_planner c =
     (if al_planning_horizon_ms c = 0 \<or> al_reorder_tolerance_ms c = 0 \<or>
         al_planned_minimum_spacing_ms c = 0 \<or> \<not> isfinite (al_minimum_prediction_speed c) \<or>
         al_minimum_prediction_speed c \<le> 0 \<or> \<not> isfinite (al_same_line_consecutive_penalty c) \<or>
         al_same_line_consecutive_penalty c < 0
      then Inl ''invalid affected-line planner config'' else Inr c)"

subsection \<open>Predicting arrivals\<close>

definition travel_time :: "double \<Rightarrow> double \<Rightarrow> u64 option" where
  "travel_time distance prediction_speed =
     (let travel_ms_double = distance / prediction_speed * Fin 1000
      in if double_of_u64 (- 1) \<le> travel_ms_double then Some (- 1)
         else u64_of_double (std_ceil travel_ms_double))"

definition make_arrival ::
    "affected_line_planner_config \<Rightarrow> u64 \<Rightarrow> line_route \<Rightarrow> train_telemetry \<Rightarrow> corridor_traversal \<Rightarrow>
     double \<Rightarrow> u64 \<Rightarrow> planned_train_arrival" where
  "make_arrival cfg now route train traversal distance travel_ms = default_planned_arrival
     \<lparr>pa_train_id := tt_train_id train, pa_line_id := tt_line_id train,
      pa_corridor_resource_id := resourceId (ct_corridor_id traversal)
        (corridorDirection traversal (tt_travel_direction train)),
      pa_distance_to_entry := distance,
      pa_estimated_arrival_simulation_ms := addSaturated now travel_ms,
      pa_target_headway_ms := lr_target_headway_ms route,
      pa_within_planning_horizon := travel_ms \<le> al_planning_horizon_ms cfg\<rparr>"

type_synonym plan_map = "(string, corridor_rolling_plan) umap"

definition push_arrival :: "u64 \<Rightarrow> plan_map \<Rightarrow> planned_train_arrival \<Rightarrow> plan_map" where
  "push_arrival now plans planned = (let rid = pa_corridor_resource_id planned;
     p = um_at default_rolling_plan rid plans
     in um_put rid (p\<lparr>cp_corridor_resource_id := rid, cp_generated_at_simulation_ms := now,
          cp_trains := cp_trains p @ [planned]\<rparr>) plans)"

definition collectTraversal ::
    "affected_line_planner_config \<Rightarrow> u64 \<Rightarrow> line_route \<Rightarrow> train_telemetry \<Rightarrow> plan_map \<Rightarrow>
     corridor_traversal \<Rightarrow> plan_map option" where
  "collectTraversal cfg now route train plans traversal = (case distanceToEntry route traversal train of
     None \<Rightarrow> None
   | Some None \<Rightarrow> Some plans
   | Some (Some distance) \<Rightarrow>
       (case travel_time distance (cpp_max \<bar>tt_speed train\<bar> (al_minimum_prediction_speed cfg)) of
          None \<Rightarrow> None
        | Some travel_ms \<Rightarrow>
            Some (push_arrival now plans (make_arrival cfg now route train traversal distance travel_ms))))"

definition collectTrain ::
    "affected_line_planner_config \<Rightarrow> line_topology_registry \<Rightarrow> u64 \<Rightarrow> plan_map \<Rightarrow> monitored_train \<Rightarrow>
     plan_map option" where
  "collectTrain cfg topology now plans monitored =
     (let train = mt_telemetry monitored
      in case registry_route topology (tt_line_id train) of
        None \<Rightarrow> Some plans
      | Some route \<Rightarrow>
          fold_option (collectTraversal cfg now route train) plans
            (corridorsForLine topology (tt_line_id train)))"

definition collectArrivals ::
    "affected_line_planner_config \<Rightarrow> line_topology_registry \<Rightarrow> u64 \<Rightarrow> monitored_train list \<Rightarrow>
     plan_map option" where
  "collectArrivals cfg topology now trains = fold_option (collectTrain cfg topology now) [] trains"

subsection \<open>Spacing of the trains of a line\<close>

definition sortArrivals :: "planned_train_arrival list \<Rightarrow> planned_train_arrival list" where
  "sortArrivals = sort_key (\<lambda>s. (pa_estimated_arrival_simulation_ms s, pa_train_id s))"

definition gap_share :: "u64 \<Rightarrow> u64 \<Rightarrow> double" where
  "gap_share gap target_headway = 1 - double_of_u64 gap / double_of_u64 target_headway"

definition clamp_need :: "double \<Rightarrow> double" where
  "clamp_need need = cpp_max (- 1) (cpp_min 1 need)"

text \<open>The positions of a line's trains in the sorted order, as \<open>indices_by_line\<close> collects them.\<close>

definition line_indices :: "planned_train_arrival list \<Rightarrow> string \<Rightarrow> nat list" where
  "line_indices states l = filter (\<lambda>j. pa_line_id (states ! j) = l) [0..<length states]"

definition distributionNeed :: "planned_train_arrival list \<Rightarrow> nat \<Rightarrow> double" where
  "distributionNeed states i =
     (let current = states ! i;
          before = filter (\<lambda>j. j < i) (line_indices states (pa_line_id current));
          behind = filter (\<lambda>j. i < j) (line_indices states (pa_line_id current));
          need1 = (if before \<noteq> [] then
              let gap = pa_estimated_arrival_simulation_ms current -
                    pa_estimated_arrival_simulation_ms (states ! last before)
              in if gap < pa_target_headway_ms current
                 then 0 - gap_share gap (pa_target_headway_ms current) else 0
            else 0);
          need2 = (if behind \<noteq> [] then
              let gap = pa_estimated_arrival_simulation_ms (states ! hd behind) -
                    pa_estimated_arrival_simulation_ms current
              in if gap < pa_target_headway_ms current
                 then need1 + gap_share gap (pa_target_headway_ms current) else need1
            else need1)
      in clamp_need need2)"

definition distributeNeeds :: "planned_train_arrival list \<Rightarrow> planned_train_arrival list" where
  "distributeNeeds states = map (\<lambda>i. (states ! i)\<lparr>pa_line_distribution_need := distributionNeed states i\<rparr>)
     [0..<length states]"

subsection \<open>The proposed order\<close>

definition unselected :: "bool list \<Rightarrow> planned_train_arrival list \<Rightarrow> nat \<Rightarrow> bool" where
  "unselected selected states i \<longleftrightarrow> \<not> selected ! i \<and> pa_within_planning_horizon (states ! i)"

definition entry_score ::
    "affected_line_planner_config \<Rightarrow> u64 \<Rightarrow> string \<Rightarrow> planned_train_arrival \<Rightarrow> double" where
  "entry_score cfg now last_line s =
     (let until_arrival = pa_estimated_arrival_simulation_ms s - now;
          arrival_urgency = 1 - cpp_min 1 (double_of_u64 until_arrival /
            double_of_u64 (al_planning_horizon_ms cfg));
          score = lit (6 / 10) * arrival_urgency + lit (4 / 10) * pa_line_distribution_need s
      in if last_line \<noteq> [] \<and> pa_line_id s = last_line
         then score - al_same_line_consecutive_penalty cfg else score)"

text \<open>The scan of the tolerance window; it ends at the first arrival after \<open>cutoff\<close>.\<close>

fun scan_window ::
    "affected_line_planner_config \<Rightarrow> u64 \<Rightarrow> string \<Rightarrow> bool list \<Rightarrow> planned_train_arrival list \<Rightarrow> u64 \<Rightarrow>
     nat list \<Rightarrow> nat \<times> double \<Rightarrow> nat" where
  "scan_window cfg now last_line selected states cutoff [] (best, best_score) = best"
| "scan_window cfg now last_line selected states cutoff (i # is) (best, best_score) =
     (if cutoff < pa_estimated_arrival_simulation_ms (states ! i) then best
      else if \<not> unselected selected states i
        then scan_window cfg now last_line selected states cutoff is (best, best_score)
      else
        let score = entry_score cfg now last_line (states ! i)
        in scan_window cfg now last_line selected states cutoff is
             (if best_score < score \<or> (deq score best_score \<and>
                pa_train_id (states ! i) < pa_train_id (states ! best))
              then (i, score) else (best, best_score)))"

definition pickNext ::
    "affected_line_planner_config \<Rightarrow> u64 \<Rightarrow> string \<Rightarrow> bool list \<Rightarrow> planned_train_arrival list \<Rightarrow> nat option" where
  "pickNext cfg now last_line selected states =
     (case filter (unselected selected states) [0..<length selected] of
        [] \<Rightarrow> None
      | earliest # _ \<Rightarrow> Some (scan_window cfg now last_line selected states
          (addSaturated (pa_estimated_arrival_simulation_ms (states ! earliest))
            (al_reorder_tolerance_ms cfg))
          [earliest..<length selected] (earliest, NInf)))"

definition rankState ::
    "affected_line_planner_config \<Rightarrow> u64 \<Rightarrow> size_t \<Rightarrow> planned_train_arrival \<Rightarrow> planned_train_arrival" where
  "rankState cfg last_planned_entry rank s =
     (let earliest_slot = (if last_planned_entry = 0 then pa_estimated_arrival_simulation_ms s
            else addSaturated last_planned_entry (al_planned_minimum_spacing_ms cfg))
      in s\<lparr>pa_suggested_rank := rank,
           pa_planned_entry_simulation_ms :=
             cpp_max (pa_estimated_arrival_simulation_ms s) earliest_slot,
           pa_global_priority := 1 / double_of_u64 (rank + 1) +
             Fin (1 / 2) * pa_line_distribution_need s\<rparr>)"

lemma scan_window_unselected:
  "unselected selected states best \<Longrightarrow> best < length selected \<Longrightarrow> \<forall>i \<in> set is. i < length selected \<Longrightarrow>
   unselected selected states (scan_window cfg now last_line selected states cutoff is (best, score)) \<and>
   scan_window cfg now last_line selected states cutoff is (best, score) < length selected"
  by (induction cfg now last_line selected states cutoff "is" "(best, score)" arbitrary: best score
      rule: scan_window.induct) (auto simp: Let_def)

lemma pickNext_unselected:
  assumes "pickNext cfg now last_line selected states = Some best"
  shows "best < length selected \<and> unselected selected states best"
proof -
  obtain e es where e: "filter (unselected selected states) [0..<length selected] = e # es"
    using assms by (auto simp: pickNext_def split: list.splits)
  then have "e \<in> set (filter (unselected selected states) [0..<length selected])" by simp
  then have "e < length selected" "unselected selected states e" by auto
  then show ?thesis using assms e scan_window_unselected [of selected states e "[e..<length selected]"]
    by (auto simp: pickNext_def)
qed

lemma filter_Not_update:
  "i < length xs \<Longrightarrow> \<not> xs ! i \<Longrightarrow> length (filter Not (xs[i := True])) < length (filter Not xs)"
  by (induction xs arbitrary: i) (auto split: nat.splits simp: nth_Cons)

text \<open>The loop \<open>while (true)\<close>: every round selects one train.\<close>

function rank_loop ::
    "affected_line_planner_config \<Rightarrow> u64 \<Rightarrow> string \<Rightarrow> u64 \<Rightarrow> size_t \<Rightarrow> bool list \<Rightarrow>
     planned_train_arrival list \<Rightarrow> planned_train_arrival list" where
  "rank_loop cfg now last_line last_planned_entry rank selected states =
     (case pickNext cfg now last_line selected states of
        None \<Rightarrow> states
      | Some best \<Rightarrow>
          (let s = rankState cfg last_planned_entry rank (states ! best)
           in rank_loop cfg now (pa_line_id s) (pa_planned_entry_simulation_ms s) (rank + 1)
                (selected[best := True]) (states[best := s])))"
  by pat_completeness auto
termination
  by (relation "measure (\<lambda>(cfg, now, l, e, r, selected, states). length (filter Not selected))")
    (auto dest!: pickNext_unselected intro!: filter_Not_update simp: unselected_def)

declare rank_loop.simps [simp del]

definition orderStates :: "planned_train_arrival list \<Rightarrow> planned_train_arrival list" where
  "orderStates = sort_key (\<lambda>s. (\<not> pa_within_planning_horizon s, pa_suggested_rank s,
     pa_estimated_arrival_simulation_ms s))"

definition rankArrivals ::
    "affected_line_planner_config \<Rightarrow> u64 \<Rightarrow> planned_train_arrival list \<Rightarrow> planned_train_arrival list" where
  "rankArrivals cfg now arrivals = (let states = distributeNeeds (sortArrivals arrivals)
     in rank_loop cfg now [] 0 0 (replicate (length states) False) states)"

definition finishPlan ::
    "affected_line_planner_config \<Rightarrow> u64 \<Rightarrow> rolling_plan_result \<Rightarrow> string \<times> corridor_rolling_plan \<Rightarrow>
     rolling_plan_result" where
  "finishPlan cfg now result = (\<lambda>(rid, p). let states = rankArrivals cfg now (cp_trains p)
     in result\<lparr>rp_by_train_resource := foldl (\<lambda>m s.
          um_put (planKey (pa_train_id s) (pa_corridor_resource_id s)) s m)
          (rp_by_train_resource result) states,
        rp_plans_by_resource := rp_plans_by_resource result @
          [(rid, p\<lparr>cp_trains := orderStates states\<rparr>)]\<rparr>)"

definition rolling_plan ::
    "affected_line_planner_config \<Rightarrow> monitored_train list \<Rightarrow> line_topology_registry \<Rightarrow> u64 \<Rightarrow>
     rolling_plan_result option" where
  "rolling_plan cfg trains topology now = map_option
     (foldl (finishPlan cfg now) \<lparr>rp_plans_by_resource = [], rp_by_train_resource = []\<rparr>)
     (collectArrivals cfg topology now trains)"

subsection \<open>What the ranking loop does\<close>

text \<open>
  \<open>ps\<close> are the positions the loop picks, in order; each picked entry is ranked by its number, with
  the planned entry of the previous one.
\<close>

definition ranked_along ::
    "affected_line_planner_config \<Rightarrow> u64 \<Rightarrow> size_t \<Rightarrow> planned_train_arrival list \<Rightarrow> nat list \<Rightarrow>
     planned_train_arrival list \<Rightarrow> bool" where
  "ranked_along cfg e r states ps result \<longleftrightarrow> length result = length states \<and>
     (\<forall>i. i \<notin> set ps \<longrightarrow> result ! i = states ! i) \<and>
     (\<forall>k < length ps. result ! (ps ! k) = rankState cfg
        (if k = 0 then e else pa_planned_entry_simulation_ms (result ! (ps ! (k - 1))))
        (r + of_nat k) (states ! (ps ! k)))"

lemma ranked_along_Cons:
  assumes "ranked_along cfg (pa_planned_entry_simulation_ms s) (r + 1) (states[p := s]) ps result"
    and "s = rankState cfg e r (states ! p)" "p < length states" "p \<notin> set ps" "distinct ps"
    and "\<forall>i \<in> set ps. i < length states"
  shows "ranked_along cfg e r states (p # ps) result"
  unfolding ranked_along_def
proof (intro conjI allI impI)
  note R = assms(1)[unfolded ranked_along_def]
  show "length result = length states" using R by simp
  show "result ! i = states ! i" if "i \<notin> set (p # ps)" for i
    using R that by (cases "i < length states") auto
  fix k assume k: "k < length (p # ps)"
  have p: "result ! p = s" using R assms(3,4) by simp
  show "result ! ((p # ps) ! k) = rankState cfg
      (if k = 0 then e else pa_planned_entry_simulation_ms (result ! ((p # ps) ! (k - 1))))
      (r + of_nat k) (states ! ((p # ps) ! k))"
  proof (cases k)
    case 0
    then show ?thesis using p assms(2) by simp
  next
    case (Suc j)
    then have j: "j < length ps" using k by simp
    then have "ps ! j \<noteq> p" using assms(4) by auto
    then have "states[p := s] ! (ps ! j) = states ! (ps ! j)" by simp
    moreover have "result ! (ps ! j) = rankState cfg
        (if j = 0 then pa_planned_entry_simulation_ms s else pa_planned_entry_simulation_ms (result ! (ps ! (j - 1))))
        (r + 1 + of_nat j) (states[p := s] ! (ps ! j))" using R j by blast
    ultimately show ?thesis using Suc p by (cases j) (auto simp: add.assoc)
  qed
qed

lemma rankState_within [simp]:
  "pa_within_planning_horizon (rankState cfg e r s) = pa_within_planning_horizon s"
  "pa_line_distribution_need (rankState cfg e r s) = pa_line_distribution_need s"
  "pa_estimated_arrival_simulation_ms (rankState cfg e r s) = pa_estimated_arrival_simulation_ms s"
  "pa_suggested_rank (rankState cfg e r s) = r"
  "pa_train_id (rankState cfg e r s) = pa_train_id s"
  "pa_corridor_resource_id (rankState cfg e r s) = pa_corridor_resource_id s"
  by (simp_all add: rankState_def Let_def)

lemma rank_loop_ranked:
  assumes "length selected = length states"
  shows "\<exists>ps. distinct ps \<and> set ps = {i. i < length states \<and> unselected selected states i} \<and>
    ranked_along cfg e r states ps (rank_loop cfg now l e r selected states)"
  using assms
proof (induction cfg now l e r selected states rule: rank_loop.induct)
  case (1 cfg now l e r selected states)
  show ?case
  proof (cases "pickNext cfg now l selected states")
    case None
    then have "filter (unselected selected states) [0..<length selected] = []"
      by (auto simp: pickNext_def split: list.splits)
    then have "\<forall>i < length states. \<not> unselected selected states i"
      using "1.prems" by (auto simp: filter_empty_conv)
    then show ?thesis using None
      by (intro exI [of _ "[]"]) (auto simp: rank_loop.simps [of cfg now l e r selected states] ranked_along_def)
  next
    case (Some p)
    let ?s = "rankState cfg e r (states ! p)"
    note pick = pickNext_unselected [OF Some]
    obtain ps where ps: "distinct ps"
      "set ps = {i. i < length (states[p := ?s]) \<and> unselected (selected[p := True]) (states[p := ?s]) i}"
      "ranked_along cfg (pa_planned_entry_simulation_ms ?s) (r + 1) (states[p := ?s]) ps
         (rank_loop cfg now (pa_line_id ?s) (pa_planned_entry_simulation_ms ?s) (r + 1)
            (selected[p := True]) (states[p := ?s]))"
      using "1.IH" [OF Some refl] "1.prems" by auto
    have set: "set ps = {i. i < length states \<and> unselected selected states i \<and> i \<noteq> p}"
      using pick "1.prems" unfolding ps(2) by (auto simp: unselected_def nth_list_update split: if_splits)
    have "ranked_along cfg e r states (p # ps) (rank_loop cfg now l e r selected states)"
      unfolding rank_loop.simps [of cfg now l e r selected states] Some option.case Let_def
      using ps(1) set pick "1.prems" by (intro ranked_along_Cons [OF ps(3)]) auto
    then show ?thesis using ps(1) set pick "1.prems" by (intro exI [of _ "p # ps"]) auto
  qed
qed

lemma length_distributeNeeds [simp]: "length (distributeNeeds states) = length states"
  by (simp add: distributeNeeds_def)

lemma clamp_need_bounds: "\<exists>q. clamp_need d = Fin q \<and> - 1 \<le> q \<and> q \<le> 1"
  by (cases d) (auto simp: clamp_need_def cpp_max_def cpp_min_def one_double_def)

lemma rankArrivals_ranked:
  fixes arrivals defines "states \<equiv> distributeNeeds (sortArrivals arrivals)"
  obtains ps where "distinct ps" "set ps = {i. i < length states \<and> pa_within_planning_horizon (states ! i)}"
    "ranked_along cfg 0 0 states ps (rankArrivals cfg now arrivals)"
proof -
  have "unselected (replicate (length states) False) states i = pa_within_planning_horizon (states ! i)"
    if "i < length states" for i using that by (simp add: unselected_def)
  then show ?thesis
    using that rank_loop_ranked [of "replicate (length states) False" states cfg 0 0 now "[]"]
    unfolding rankArrivals_def Let_def states_def [symmetric] by (auto cong: conj_cong)
qed

text \<open>The plans of the result, through the outer loop.\<close>

lemma rolling_plan_plans:
  assumes "rolling_plan cfg trains topology now = Some res" "(rid, p) \<in> set (rp_plans_by_resource res)"
  obtains plans p0 where "collectArrivals cfg topology now trains = Some plans" "(rid, p0) \<in> set plans"
    "cp_trains p = orderStates (rankArrivals cfg now (cp_trains p0))"
proof -
  obtain plans where plans: "collectArrivals cfg topology now trains = Some plans"
    and res: "res = foldl (finishPlan cfg now) \<lparr>rp_plans_by_resource = [], rp_by_train_resource = []\<rparr> plans"
    using assms(1) by (auto simp: rolling_plan_def)
  have "rp_plans_by_resource (foldl (finishPlan cfg now) r ps) = rp_plans_by_resource r @
      map (\<lambda>(rid, p). (rid, p\<lparr>cp_trains := orderStates (rankArrivals cfg now (cp_trains p))\<rparr>)) ps" for r ps
    by (induction ps arbitrary: r) (auto simp: finishPlan_def Let_def split: prod.split)
  then show ?thesis using assms(2) that plans unfolding res by auto
qed

lemma ranked_along_within:
  assumes "ranked_along cfg e r states ps res"
  shows "pa_within_planning_horizon (res ! i) = pa_within_planning_horizon (states ! i)"
proof (cases "i \<in> set ps")
  case True
  then obtain k where "k < length ps" "ps ! k = i" by (auto simp: in_set_conv_nth)
  then show ?thesis using assms unfolding ranked_along_def by (metis rankState_within(1))
qed (use assms in \<open>simp add: ranked_along_def\<close>)

lemma ranked_along_rank:
  "ranked_along cfg e 0 states ps res \<Longrightarrow> k < length ps \<Longrightarrow> pa_suggested_rank (res ! (ps ! k)) = of_nat k"
  by (simp add: ranked_along_def)

lemma sorted_of_nat_u64: "k \<le> 2 ^ 64 \<Longrightarrow> sorted (map of_nat [0..<k] :: u64 list) \<and> distinct (map of_nat [0..<k] :: u64 list)"
  by (auto simp: sorted_iff_nth_mono word_le_nat_alt unat_of_nat distinct_conv_nth word_unat_eq_iff)

lemma order_of_ranked:
  assumes "distinct ps" "set ps = {i. i < length res \<and> pa_within_planning_horizon (res ! i)}"
    and "\<And>k. k < length ps \<Longrightarrow> pa_suggested_rank (res ! (ps ! k)) = of_nat k" "length ps \<le> 2 ^ 64"
  shows "map pa_suggested_rank (filter pa_within_planning_horizon (orderStates res)) = map of_nat [0..<length ps]"
proof (rule sorted_distinct_set_unique)
  let ?w = pa_within_planning_horizon and ?k = pa_suggested_rank
  let ?ws = "filter ?w (orderStates res)"
  let ?key = "\<lambda>s. (\<not> ?w s, ?k s, pa_estimated_arrival_simulation_ms s)"
  have fs: "?ws = sort_key ?key (filter ?w res)" by (simp add: orderStates_def filter_sort)
  have idx: "filter ?w res = map ((!) res) (filter (\<lambda>i. ?w (res ! i)) [0..<length res])"
    by (subst (1) map_nth [symmetric]) (simp only: filter_map comp_def)
  let ?is = "filter (\<lambda>i. ?w (res ! i)) [0..<length res]"
  have is_ps: "set ?is = set ps" using assms(2) by auto
  have im: "(\<lambda>i. ?k (res ! i)) ` set ps = of_nat ` {0..<length ps}"
    using assms(3) by (force simp: set_conv_nth)
  have inj: "inj_on (\<lambda>i. ?k (res ! i)) (set ps)"
  proof (rule inj_onI)
    fix i j assume "i \<in> set ps" "j \<in> set ps" and eq: "?k (res ! i) = ?k (res ! j)"
    then obtain a b where "a < length ps" "b < length ps" "i = ps ! a" "j = ps ! b"
      by (auto simp: in_set_conv_nth)
    moreover from this eq assms(3) have "(of_nat a :: u64) = of_nat b" by simp
    ultimately show "i = j" using assms(4) by (simp add: word_unat_eq_iff unat_of_nat)
  qed
  have dW: "distinct (map ?k (filter ?w res))"
    unfolding idx map_map comp_def using inj is_ps by (simp add: distinct_map)
  show "distinct (map ?k ?ws)" using dW by (simp add: fs distinct_map)
  show "set (map ?k ?ws) = set (map of_nat [0..<length ps])"
  proof -
    have "set (map ?k ?ws) = (\<lambda>i. ?k (res ! i)) ` set ?is" by (simp add: fs idx image_image)
    then show ?thesis unfolding is_ps im by simp
  qed
  have "sorted (map ?key ?ws)" unfolding fs by (rule sorted_sort_key)
  moreover have "\<forall>s \<in> set ?ws. ?w s" by simp
  ultimately show "sorted (map ?k ?ws)"
    unfolding sorted_map by (elim sorted_wrt_mono_rel [rotated]) auto
qed (use sorted_of_nat_u64 assms(4) in auto)

subsection \<open>The way to an entry\<close>

lemma mk_double_idem:
  assumes "mk_double x = Fin y"
  shows "mk_double y = Fin y"
proof -
  have y: "y = rnd x" using mk_double_finite [OF assms] .
  have r: "rnd y = y" unfolding y by (rule rnd_exact [OF representable_rnd])
  have "\<not> (y \<noteq> 0 \<and> 1024 \<le> ilog2 \<bar>y\<bar>)" using assms by (auto simp: mk_double_def Let_def y split: if_splits)
  then show ?thesis by (simp only: mk_double_def Let_def r if_False)
qed

lemma machine_double_hypot: "machine_double (std_hypot a b)"
  by (cases a; cases b) (auto simp: machine_double_def intro: mk_double_idem)

lemma one_times_machine: "machine_double d \<Longrightarrow> Fin 1 * d = d"
  by (cases d) (auto simp: machine_double_def inf_of_sign_def)

lemma loop_epsilon_small: obtains eps where "loop_epsilon = Fin eps" "0 \<le> eps" "eps \<le> 1 / 2"
proof -
  have "0 \<le> mk_double (1 / 10 ^ 9)" by (rule mk_double_nonneg) simp
  moreover have "mk_double (1 / 10 ^ 9) \<le> mk_double (1 / 2)" by (rule mk_double_mono) simp
  moreover have "mk_double (1 / 2) = Fin (1 / 2)" by (simp add: double_simps)
  ultimately show ?thesis using that by (cases "mk_double (1 / 10 ^ 9)") (auto simp: loop_epsilon_def)
qed

lemma mk_double_nat: "n \<le> 2 ^ 53 \<Longrightarrow> mk_double (of_nat n) = Fin (of_nat n)"
  using mk_double_small_int [of "int n"] by simp

lemma below_maximum:
  assumes "p < m" "m \<le> 2 ^ 50" "0 \<le> eps" "eps \<le> 1 / 2"
  shows "\<not> mk_double (of_nat m - eps) \<le> Fin (of_nat p)"
proof -
  have "(of_nat p :: rat) + 1 \<le> of_nat m" using assms(1) by (metis Suc_leI of_nat_Suc of_nat_le_iff add.commute)
  then have "mk_double (of_int (2 * int p + 1) / numeral (num.Bit0 num.One)) \<le> mk_double (of_nat m - eps)"
    using assms(4) by (intro mk_double_mono) (simp add: field_simps)
  moreover have "mk_double (of_int (2 * int p + 1) / numeral (num.Bit0 num.One)) =
      Fin (of_int (2 * int p + 1) / numeral (num.Bit0 num.One))"
    using assms(1,2) by (intro mk_double_frac) auto
  ultimately show ?thesis by (cases "mk_double (of_nat m - eps)") auto
qed

definition way_length :: "line_route \<Rightarrow> double \<Rightarrow> nat list \<Rightarrow> double" where
  "way_length route d is = foldl (\<lambda>d i. d + plan_segmentLength route i) d is"

lemma floor_of_nat_double: "nat_of_double (std_floor (Fin (of_nat p))) = (if p < 2 ^ 64 then Some p else None)"
proof -
  have "\<lfloor>of_nat p :: rat\<rfloor> = int p" by simp
  then show ?thesis by (auto simp: trunc_def)
qed

lemma step_forward:
  assumes "m = length (lr_points route) - 1" "p \<le> m" "1 \<le> m" "m \<le> 2 ^ 50"
  shows "step_segment route TRAVEL_FORWARD (Fin (of_nat p)) = Some (min (m - 1) p, Fin 0)"
  using assms floor_of_nat_double [of p] by (simp add: step_segment_def Let_def double_simps)

lemma distance_step_forward:
  assumes m: "m = length (lr_points route) - 1" "1 \<le> m" "m \<le> 2 ^ 50" and p: "p < m" and k: "1 \<le> k" "k \<le> 2 ^ 51"
  shows "distance_loop route TRAVEL_FORWARD (Fin (of_nat m)) d (Fin (of_nat k)) (Fin (of_nat p)) =
    distance_loop route TRAVEL_FORWARD (Fin (of_nat m)) (d + plan_segmentLength route p)
      (Fin (of_nat (k - 1))) (Fin (of_nat (if p + 1 = m \<and> 1 < k then 0 else p + 1)))"
proof -
  obtain eps where eps: "loop_epsilon = Fin eps" "0 \<le> eps" "eps \<le> 1 / 2" by (rule loop_epsilon_small)
  have k1: "(1 :: rat) \<le> of_nat k" using k(1) by simp
  have step: "step_segment route TRAVEL_FORWARD (Fin (of_nat p)) = Some (p, Fin 0)"
    using step_forward [OF m(1) _ m(2,3), of p] p by (simp add: min_absorb2)
  have one: "cpp_min (Fin (of_nat k)) (1 - Fin 0) = Fin 1"
    using k1 by (auto simp: cpp_min_def double_simps)
  have len: "Fin 1 * plan_segmentLength route p = plan_segmentLength route p"
    by (rule one_times_machine) (simp add: plan_segmentLength_def Let_def machine_double_hypot)
  have delta: "Fin (of_nat k) - Fin 1 = Fin (of_nat (k - 1))"
    using k mk_double_nat [of "k - 1"] by (simp add: minus_double_def of_nat_diff)
  have pos: "Fin (of_nat p) + Fin 1 = Fin (of_nat (p + 1))"
    using p m(3) mk_double_nat [of "p + 1"] by (simp add: add.commute)
  have more: "loop_epsilon < Fin (of_nat (k - 1)) \<longleftrightarrow> 1 < k"
  proof (cases "1 < k")
    case True
    then have "(1 :: rat) \<le> of_nat (k - 1)" by simp
    then show ?thesis using eps True by (simp add: eps(1))
  qed (use k(1) eps in \<open>simp add: eps(1)\<close>)
  have wrap: "Fin (of_nat m) - loop_epsilon \<le> Fin (of_nat (p + 1)) \<longleftrightarrow> p + 1 = m"
  proof (cases "p + 1 = m")
    case True
    have "mk_double (of_nat m - eps) \<le> mk_double (of_nat m)" using eps by (intro mk_double_mono) simp
    then show ?thesis using True m(3) mk_double_nat [of m] by (simp add: eps(1) minus_double_def)
  next
    case False
    then show ?thesis using below_maximum [of "p + 1" m eps] p m(3) eps by (simp add: eps(1) minus_double_def)
  qed
  have go: "loop_epsilon < Fin (of_nat k)" using k1 eps by (simp add: eps(1))
  have "distance_loop route TRAVEL_FORWARD (Fin (of_nat m)) d (Fin (of_nat k)) (Fin (of_nat p)) =
    distance_loop route TRAVEL_FORWARD (Fin (of_nat m)) (d + plan_segmentLength route p)
      (Fin (of_nat (k - 1))) (if p + 1 = m \<and> 1 < k then 0 else Fin (of_nat (p + 1)))"
    by (subst distance_loop.simps)
      (simp only: step one len delta pos more wrap go bind.bind_lunit prod.case Let_def simp_thms if_True if_False
        route_travel_direction.distinct)
  then show ?thesis
    by (cases "p + 1 = m \<and> 1 < k") (simp_all only: if_True if_False semiring_1_class.of_nat_0 zero_double_def simp_thms)
qed

lemma distance_loop_forward:
  assumes m: "m = length (lr_points route) - 1" "1 \<le> m" "m \<le> 2 ^ 50" and "p \<le> e" "e \<le> m"
  shows "distance_loop route TRAVEL_FORWARD (Fin (of_nat m)) d (Fin (of_nat (e - p))) (Fin (of_nat p)) =
    Some (way_length route d [p..<e])"
  using assms(4)
proof (induction "e - p" arbitrary: p d)
  case 0
  obtain eps where eps: "loop_epsilon = Fin eps" "0 \<le> eps" "eps \<le> 1 / 2" by (rule loop_epsilon_small)
  then have "\<not> loop_epsilon < Fin 0" by (simp add: eps(1))
  then show ?case using 0 by (subst distance_loop.simps) (simp add: way_length_def)
next
  case (Suc n)
  have *: "n = e - (p + 1)" "p + 1 \<le> e" "e - p - 1 = e - (p + 1)" using Suc.hyps(2) by auto
  have nw: "(if p + 1 = m \<and> 1 < e - p then 0 else p + 1) = p + 1" using assms(5) by auto
  have k: "p < m" "1 \<le> e - p" "e - p \<le> 2 ^ 51" using Suc.hyps(2) assms(5) m(3) by auto
  have "distance_loop route TRAVEL_FORWARD (Fin (of_nat m)) d (Fin (of_nat (e - p))) (Fin (of_nat p)) =
      Some (way_length route (d + plan_segmentLength route p) [p + 1..<e])"
    using distance_step_forward [OF m k, of d] Suc.hyps(1) [OF *(1,2), of "d + plan_segmentLength route p"]
    by (simp only: nw *(3))
  moreover have "[p..<e] = p # [p + 1..<e]" using k by (simp add: upt_conv_Cons)
  ultimately show ?case by (simp add: way_length_def)
qed

lemma distance_loop_wrap:
  assumes m: "m = length (lr_points route) - 1" "1 \<le> m" "m \<le> 2 ^ 50" and "p < m" "e \<le> m" "1 \<le> e"
  shows "distance_loop route TRAVEL_FORWARD (Fin (of_nat m)) d (Fin (of_nat (m - p + e))) (Fin (of_nat p)) =
    Some (way_length route d ([p..<m] @ [0..<e]))"
  using assms(4)
proof (induction "m - p" arbitrary: p d)
  case (Suc n)
  have k: "1 \<le> m - p + e" "m - p + e \<le> 2 ^ 51" "m - p + e - 1 = m - (p + 1) + e" "1 < m - p + e"
    using assms(5,6) m(3) Suc.prems by auto
  note step = distance_step_forward [OF m Suc.prems k(1,2), of d]
  have path: "way_length route d ([p..<m] @ [0..<e]) =
      way_length route (d + plan_segmentLength route p) ([p + 1..<m] @ [0..<e])"
    using Suc.prems by (simp add: way_length_def upt_conv_Cons)
  show ?case
  proof (cases "p + 1 = m")
    case True
    then have c: "(if p + 1 = m \<and> 1 < m - p + e then 0 else p + 1) = 0" "m - (p + 1) + e = e - 0" "[p + 1..<m] = []"
      using k(4) by auto
    show ?thesis unfolding path step
      using distance_loop_forward [OF m, of 0 e "d + plan_segmentLength route p"] assms(5)
      by (simp only: c k(3) append_Nil)
  next
    case False
    then have c: "(if p + 1 = m \<and> 1 < m - p + e then 0 else p + 1) = p + 1" "n = m - (p + 1)" "p + 1 < m"
      using Suc by auto
    show ?thesis unfolding path step
      using Suc.hyps(1) [OF c(2,3), of "d + plan_segmentLength route p"] by (simp only: c(1) k(3))
  qed
qed (use assms in simp)

lemma distance_way:
  assumes "tt_travel_direction train = TRAVEL_FORWARD"
    and "tt_route_position train = Fin (of_nat p)" "ct_low_position traversal = Fin (of_nat e)"
    and "p + 1 < length (lr_points route)" "e < length (lr_points route)" "length (lr_points route) \<le> 2 ^ 50"
    and "1 \<le> e"
  shows "distanceToEntry route traversal train = Some (
    if p \<le> e then Some (way_length route 0 [p..<e])
    else if lr_is_loop route
      then Some (way_length route 0 ([p..<length (lr_points route) - 1] @ [0..<e]))
      else None)"
proof -
  define m where "m = length (lr_points route) - 1"
  have m: "1 \<le> m" "m \<le> 2 ^ 50" "p < m" "e \<le> m" "\<not> length (lr_points route) < 2" using assms(4-6) by (auto simp: m_def)
  obtain tiny where tiny: "lit (- (1 / 10 ^ 6)) = Fin (- tiny)" "0 \<le> tiny" "tiny \<le> 1 / 2"
  proof -
    have "0 \<le> mk_double (1 / 10 ^ 6)" by (rule mk_double_nonneg) simp
    moreover have "mk_double (1 / 10 ^ 6) \<le> mk_double (1 / 2)" by (rule mk_double_mono) simp
    moreover have "mk_double (1 / 2) = Fin (1 / 2)" by (simp add: double_simps)
    ultimately show ?thesis using that mk_double_uminus [of "1 / 10 ^ 6"]
      by (cases "mk_double (1 / 10 ^ 6)") auto
  qed
  have lenm: "length (lr_points route) - Suc 0 = m" by (simp add: m_def)
  have max: "double_of_nat m = Fin (of_nat m)" using m(2) by (simp add: double_of_nat_small)
  have cur: "cpp_max 0 (cpp_min (Fin (of_nat m)) (Fin (of_nat p))) = Fin (of_nat p)"
    using m(3) by (auto simp: cpp_max_def cpp_min_def zero_double_def)
  show ?thesis
  proof (cases "p \<le> e")
    case True
    then have "Fin (of_nat e) - Fin (of_nat p) = Fin (of_nat (e - p))"
      using mk_double_nat [of "e - p"] m by (simp add: minus_double_def of_nat_diff)
    then show ?thesis using True assms(1-3) m tiny distance_loop_forward [OF m_def m(1,2) True m(4), of 0]
      by (simp add: distanceToEntry_def Let_def lenm max cur)
  next
    case False
    then have diff: "Fin (of_nat e) - Fin (of_nat p) = Fin (- of_nat (p - e))"
      using mk_double_nat [of "p - e"] m mk_double_uminus [of "of_nat (p - e)"]
      by (simp add: minus_double_def of_nat_diff)
    have "(1 :: rat) \<le> of_nat (p - e)" using False by simp
    then have behind: "Fin (- of_nat (p - e)) < Fin (- tiny)" using tiny by simp
    have around: "Fin (- of_nat (p - e)) + Fin (of_nat m) = Fin (of_nat (m - p + e))"
      using mk_double_nat [of "m - p + e"] m False by (simp add: of_nat_diff algebra_simps)
    show ?thesis using False assms(1-3) m tiny behind diff around distance_loop_wrap [OF m_def m(1-4) assms(7), of 0]
      by (simp add: distanceToEntry_def Let_def lenm max cur)
  qed
qed

subsection \<open>A train on its way to a corridor\<close>

definition demo_traversal :: corridor_traversal where
  "demo_traversal = \<lparr>ct_corridor_id = ''K'', ct_line_id = ''A'', ct_low_segment = 1, ct_high_segment = 1,
     ct_low_position = Fin 1, ct_high_position = Fin 1, ct_occurrence_id = [], ct_direction_relation = SAME\<rparr>"

definition demo_line_topology :: line_topology_registry where
  "demo_line_topology = demo_registry\<lparr>tr_routes := [(''A'', demo_east)],
     tr_corridors_by_line := [(''A'', [demo_traversal])]\<rparr>"

definition demo_train :: monitored_train where
  "demo_train = \<lparr>mt_telemetry = (demo_telemetry ''T1'' 900)\<lparr>tt_line_id := ''A'', tt_simulation_time_ms := 700\<rparr>,
     mt_phase = MONITORED, mt_controlled_resource_id = []\<rparr>"

lemma demo_telemetry_sel:
  "tt_travel_direction (demo_telemetry t w) = TRAVEL_FORWARD"
  "tt_route_position (demo_telemetry t w) = Fin 0" "tt_train_id (demo_telemetry t w) = t"
  by (simp_all add: demo_telemetry_def zero_double_def)

lemma demo_distance:
  "distanceToEntry demo_east demo_traversal (mt_telemetry demo_train) = Some (Some (Fin 16))"
proof -
  have "0 + plan_segmentLength demo_east 0 = Fin 16"
    by (simp add: plan_segmentLength_def Let_def demo_route_defs default_point_def double_simps demo_hypot
        del: std_hypot.simps)
  then show ?thesis
    using distance_way [of "mt_telemetry demo_train" 0 demo_traversal 1 demo_east]
    by (simp add: demo_train_def demo_telemetry_sel demo_traversal_def demo_route_defs way_length_def)
qed

definition demo_planner_config :: affected_line_planner_config where
  "demo_planner_config = default_planner_config\<lparr>al_minimum_prediction_speed := Fin 4\<rparr>"

lemma length_rankArrivals: "length (rankArrivals cfg now arrivals) = length arrivals"
proof -
  obtain ps where "ranked_along cfg 0 0 (distributeNeeds (sortArrivals arrivals)) ps (rankArrivals cfg now arrivals)"
    using rankArrivals_ranked by metis
  then show ?thesis by (simp add: ranked_along_def sortArrivals_def)
qed

lemma demo_travel: "travel_time (Fin 16) (Fin 4) = Some 4000"
proof -
  have "mk_double 8192 \<le> mk_double 18446744073709551615" by (rule mk_double_mono) simp
  then have "\<not> mk_double 18446744073709551615 \<le> Fin 4000"
    by (cases "mk_double 18446744073709551615") (auto simp: double_simps)
  moreover have "uint (- 1 :: u64) = 18446744073709551615" by code_simp
  ultimately show ?thesis by (simp add: travel_time_def double_simps trunc_def Let_def)
qed

lemma demo_plan_exists:
  "\<exists>res p s. rolling_plan demo_planner_config [demo_train] demo_line_topology 1000 = Some res \<and>
     (''K:FORWARD'', p) \<in> set (rp_plans_by_resource res) \<and> cp_trains p = [s]"
proof -
  have t: "tt_line_id (mt_telemetry demo_train) = ''A''" "tt_speed (mt_telemetry demo_train) = 0"
    "tt_travel_direction (mt_telemetry demo_train) = TRAVEL_FORWARD"
    by (simp_all add: demo_train_def demo_telemetry_def)
  have speed: "cpp_max \<bar>0\<bar> (al_minimum_prediction_speed demo_planner_config) = Fin 4"
    by (simp add: demo_planner_config_def default_planner_config_def cpp_max_def double_simps)
  have sel: "registry_route demo_line_topology ''A'' = Some demo_east"
    "corridorsForLine demo_line_topology ''A'' = [demo_traversal]"
    by (simp_all add: registry_route_def corridorsForLine_def demo_line_topology_def)
  have r: "resourceId (ct_corridor_id demo_traversal) (corridorDirection demo_traversal TRAVEL_FORWARD) = ''K:FORWARD''"
    by (simp add: resourceId_def corridorDirection_def demo_traversal_def)
  obtain p0 where c: "collectArrivals demo_planner_config demo_line_topology 1000 [demo_train] =
      Some [(''K:FORWARD'', p0)]" "length (cp_trains p0) = 1"
    by (simp add: collectArrivals_def collectTrain_def collectTraversal_def t sel demo_distance speed demo_travel
        push_arrival_def make_arrival_def r um_at_def default_rolling_plan_def Let_def)
  then have "length (orderStates (rankArrivals demo_planner_config 1000 (cp_trains p0))) = 1"
    by (simp add: orderStates_def length_rankArrivals)
  then obtain s where "orderStates (rankArrivals demo_planner_config 1000 (cp_trains p0)) = [s]"
    by (auto simp: length_Suc_conv)
  then show ?thesis
    by (intro exI [of _ "foldl (finishPlan demo_planner_config 1000)
        \<lparr>rp_plans_by_resource = [], rp_by_train_resource = []\<rparr> [(''K:FORWARD'', p0)]"]
        exI [of _ "p0\<lparr>cp_trains := [s]\<rparr>"] exI [of _ s])
      (simp add: rolling_plan_def c finishPlan_def Let_def)
qed

subsection \<open>Properties\<close>

text \<open>The spacing rating is bounded. Every predicted arrival of every plan has a rating between -1 and
  1, whatever the telemetry and the configuration, so the weight the score gives it bounds its
  influence.\<close>

theorem distribution_need_bounded:
  assumes "rolling_plan cfg trains topology now = Some res"
    and "(rid, p) \<in> set (rp_plans_by_resource res)" and "s \<in> set (cp_trains p)"
  shows "\<exists>q. pa_line_distribution_need s = Fin q \<and> - 1 \<le> q \<and> q \<le> 1"
proof -
  obtain p0 :: corridor_rolling_plan where p: "cp_trains p = orderStates (rankArrivals cfg now (cp_trains p0))"
    by (rule rolling_plan_plans [OF assms(1,2)]) blast
  let ?st = "distributeNeeds (sortArrivals (cp_trains p0))"
  obtain ps where ps: "ranked_along cfg 0 0 ?st ps (rankArrivals cfg now (cp_trains p0))"
    using rankArrivals_ranked by metis
  obtain i where i: "i < length ?st" "s = rankArrivals cfg now (cp_trains p0) ! i"
    using assms(3) ps by (auto simp: p orderStates_def in_set_conv_nth ranked_along_def)
  have "pa_line_distribution_need s = pa_line_distribution_need (?st ! i)"
  proof (cases "i \<in> set ps")
    case True
    then obtain k where "k < length ps" "ps ! k = i" by (auto simp: in_set_conv_nth)
    then show ?thesis using ps i(2) unfolding ranked_along_def by (metis rankState_within(2))
  qed (use ps i(2) in \<open>simp add: ranked_along_def\<close>)
  then show ?thesis using clamp_need_bounds i(1) by (simp add: distributeNeeds_def distributionNeed_def Let_def)
qed

lemma distribution_need_bounded_witness:
  "\<exists>res p s q. rolling_plan demo_planner_config [demo_train] demo_line_topology 1000 = Some res \<and>
     (''K:FORWARD'', p) \<in> set (rp_plans_by_resource res) \<and> s \<in> set (cp_trains p) \<and>
     pa_line_distribution_need s = Fin q \<and> - 1 \<le> q \<and> q \<le> 1"
proof -
  obtain res p s where r: "rolling_plan demo_planner_config [demo_train] demo_line_topology 1000 = Some res"
    "(''K:FORWARD'', p) \<in> set (rp_plans_by_resource res)" "cp_trains p = [s]" using demo_plan_exists by blast
  then have "s \<in> set (cp_trains p)" by simp
  from distribution_need_bounded [OF r(1,2) this] this r show ?thesis by blast
qed

text \<open>The proposed order is a ranking. In every plan the trains within the planning horizon carry the
  ranks 0, 1, 2, ... in the order in which the plan lists them, and every other train keeps the
  value that marks it as unranked.\<close>

theorem ranks_number_the_plan:
  assumes "rolling_plan cfg trains topology now = Some res"
    and "(rid, p) \<in> set (rp_plans_by_resource res)" and "length (cp_trains p) < 2 ^ 64"
  shows "map pa_suggested_rank (filter pa_within_planning_horizon (cp_trains p)) =
      map of_nat [0..<length (filter pa_within_planning_horizon (cp_trains p))]"
proof -
  obtain p0 :: corridor_rolling_plan where p: "cp_trains p = orderStates (rankArrivals cfg now (cp_trains p0))"
    by (rule rolling_plan_plans [OF assms(1,2)]) blast
  let ?st = "distributeNeeds (sortArrivals (cp_trains p0))" and ?res = "rankArrivals cfg now (cp_trains p0)"
  let ?w = pa_within_planning_horizon
  obtain ps where ps: "distinct ps" "set ps = {i. i < length ?st \<and> ?w (?st ! i)}"
    "ranked_along cfg 0 0 ?st ps ?res" using rankArrivals_ranked by metis
  have len: "length ?res = length ?st" "length ?st < 2 ^ 64"
    using ps(3) assms(3) by (auto simp: ranked_along_def p orderStates_def)
  have wi: "set ps = {i. i < length ?res \<and> ?w (?res ! i)}"
    using ps(2) len(1) ranked_along_within [OF ps(3)] by auto
  have "length ps \<le> length ?st" using ps(1,2) distinct_card [OF ps(1)] card_mono [of "{..<length ?st}" "set ps"] by auto
  then have small: "length ps \<le> 2 ^ 64" using len(2) by simp
  have "map pa_suggested_rank (filter ?w (cp_trains p)) = map of_nat [0..<length ps]"
    unfolding p by (rule order_of_ranked [OF ps(1) wi ranked_along_rank [OF ps(3)] small])
  then show ?thesis by (metis length_map length_upt minus_nat.diff_0)
qed

lemma ranks_number_the_plan_witness:
  "\<exists>res p s. rolling_plan demo_planner_config [demo_train] demo_line_topology 1000 = Some res \<and>
     (''K:FORWARD'', p) \<in> set (rp_plans_by_resource res) \<and> cp_trains p = [s] \<and>
     map pa_suggested_rank (filter pa_within_planning_horizon [s]) =
       map of_nat [0..<length (filter pa_within_planning_horizon [s])]"
proof -
  obtain res p s where r: "rolling_plan demo_planner_config [demo_train] demo_line_topology 1000 = Some res"
    "(''K:FORWARD'', p) \<in> set (rp_plans_by_resource res)" "cp_trains p = [s]" using demo_plan_exists by blast
  then have "length (cp_trains p) < 2 ^ 64" by simp
  from ranks_number_the_plan [OF r(1,2) this, unfolded r(3)] r show ?thesis by blast
qed

text \<open>The way to an entry. For a train that reports a point of its line (\<open>route_position\<close> a whole
  number, as older clients do) and runs forward, \<open>distanceToEntry\<close> returns: the loop ends, and the
  result is the sum of the lengths of the segments from the train to the entry, around the end of
  the line when the entry is behind the train on a ring. Behind the train on an open line it
  reports that there is no way.\<close>

theorem distanceToEntry_sums_the_way:
  assumes "tt_travel_direction train = TRAVEL_FORWARD"
    and "tt_route_position train = Fin (of_nat p)" "ct_low_position traversal = Fin (of_nat e)"
    and "p + 1 < length (lr_points route)" "e < length (lr_points route)" "length (lr_points route) \<le> 2 ^ 50"
    and "1 \<le> e"
  shows "distanceToEntry route traversal train = Some (
    if p \<le> e then Some (way_length route 0 [p..<e])
    else if lr_is_loop route
      then Some (way_length route 0 ([p..<length (lr_points route) - 1] @ [0..<e]))
      else None)"
  by (rule distance_way [OF assms])

lemma distanceToEntry_sums_the_way_witness:
  "distanceToEntry demo_east demo_traversal (mt_telemetry demo_train) =
     Some (Some (way_length demo_east 0 [0..<1]))"
  using distanceToEntry_sums_the_way [of "mt_telemetry demo_train" 0 demo_traversal 1 demo_east]
  by (simp add: demo_train_def demo_telemetry_sel demo_traversal_def demo_route_defs)

end
