(* ===== verification/Builder.thy ===== *)
theory Builder
  imports Planner
begin

text \<open>
  \<open>DispatchCandidateBuilder\<close> (server/include/DispatchCandidateBuilder.h,
  server/src/DispatchCandidateBuilder.cpp): which trains compete for which corridor. A train that
  is within the control distance of the nearest corridor ahead of it becomes a candidate; how
  long it has been waiting survives from one batch of telemetry to the next.
\<close>

subsection \<open>Data\<close>

record dispatch_candidate_builder_config =
  bc_approach_distance :: double
  bc_control_point_distance :: double

definition default_builder_config :: dispatch_candidate_builder_config where
  "default_builder_config = \<lparr>bc_approach_distance = Fin 2000, bc_control_point_distance = Fin 1000\<rparr>"

record candidate_build_result =
  cb_candidates_by_resource :: "(string, dispatch_candidate list) umap"
  cb_phase_by_train :: "(string, train_dispatch_phase) umap"

record waiting_record =
  wr_arrived_at_simulation_ms :: u64
  wr_last_seen_wall_ms :: u64

definition default_waiting_record :: waiting_record where
  "default_waiting_record = \<lparr>wr_arrived_at_simulation_ms = 0, wr_last_seen_wall_ms = 0\<rparr>"

record dispatch_candidate_builder =
  db_config :: dispatch_candidate_builder_config
  db_waiting_by_train_resource :: "(string, waiting_record) umap"

definition default_dispatch_candidate :: dispatch_candidate where
  "default_dispatch_candidate = \<lparr>dc_train_id = [], dc_line_id = [], dc_corridor_direction = FORWARD,
     dc_corridor_resource_id = [], dc_required_intersection_movement_ids = [], dc_route_index = 0,
     dc_route_position = 0, dc_arrived_at_simulation_ms = 0, dc_received_at_wall_ms = 0,
     dc_predicted_arrival_simulation_ms = 0, dc_rolling_plan_rank = - 1,
     dc_global_plan_priority = 0\<rparr>"

subsection \<open>Operations\<close>

definition builder_config_ok :: "dispatch_candidate_builder_config \<Rightarrow> bool" where
  "builder_config_ok c \<longleftrightarrow> \<not> (\<not> isfinite (bc_approach_distance c) \<or>
     \<not> isfinite (bc_control_point_distance c) \<or> bc_approach_distance c \<le> 0 \<or>
     bc_control_point_distance c < 0 \<or> bc_approach_distance c < bc_control_point_distance c)"

definition new_dispatch_candidate_builder ::
    "dispatch_candidate_builder_config \<Rightarrow> string + dispatch_candidate_builder" where
  "new_dispatch_candidate_builder c =
     (if builder_config_ok c then Inr \<lparr>db_config = c, db_waiting_by_train_resource = []\<rparr>
      else Inl ''invalid dispatch candidate distances'')"

text \<open>
  The file has its own copies of \<open>segmentLength\<close>, \<open>corridorDirection\<close>, \<open>distanceToEntry\<close> and
  \<open>resourceId\<close>, which are the planner's text again; they are the planner's definitions here.
\<close>

definition liesAheadThroughCorridor ::
    "intersection_traversal \<Rightarrow> corridor_traversal \<Rightarrow> train_telemetry \<Rightarrow> bool" where
  "liesAheadThroughCorridor intersection corridor train =
     (if tt_travel_direction train = TRAVEL_FORWARD
      then unat (tt_route_index train) \<le> it_segment_index intersection \<and>
        it_segment_index intersection \<le> ct_high_segment corridor
      else it_segment_index intersection \<le> unat (tt_route_index train) \<and>
        ct_low_segment corridor \<le> it_segment_index intersection)"

definition waitingKey :: "string \<Rightarrow> string \<Rightarrow> string" where
  "waitingKey train_id resource_id = train_id @ [CHR 0x0A] @ resource_id"

text \<open>The nearest corridor ahead within the approach distance.\<close>

definition consider_traversal ::
    "dispatch_candidate_builder_config \<Rightarrow> line_route \<Rightarrow> train_telemetry \<Rightarrow>
     corridor_traversal option \<times> double \<Rightarrow> corridor_traversal \<Rightarrow>
     (corridor_traversal option \<times> double) option" where
  "consider_traversal cfg route train best traversal = (case distanceToEntry route traversal train of
     None \<Rightarrow> None
   | Some None \<Rightarrow> Some best
   | Some (Some distance) \<Rightarrow> Some (if distance \<le> bc_approach_distance cfg \<and> distance < snd best
       then (Some traversal, distance) else best))"

definition nearestTraversal ::
    "dispatch_candidate_builder_config \<Rightarrow> line_route \<Rightarrow> train_telemetry \<Rightarrow> corridor_traversal list \<Rightarrow>
     (corridor_traversal option \<times> double) option" where
  "nearestTraversal cfg route train traversals =
     fold_option (consider_traversal cfg route train) (None, PInf) traversals"

definition updateWaiting :: "train_telemetry \<Rightarrow> waiting_record \<Rightarrow> waiting_record" where
  "updateWaiting train w =
     (let w1 = (if wr_arrived_at_simulation_ms w = 0 \<or>
            tt_simulation_time_ms train < wr_arrived_at_simulation_ms w
          then w\<lparr>wr_arrived_at_simulation_ms := tt_simulation_time_ms train\<rparr> else w)
      in w1\<lparr>wr_last_seen_wall_ms := tt_received_at_wall_ms train\<rparr>)"

definition makeCandidate ::
    "line_topology_registry \<Rightarrow> rolling_plan_result option \<Rightarrow> train_telemetry \<Rightarrow> corridor_traversal \<Rightarrow>
     waiting_record \<Rightarrow> dispatch_candidate" where
  "makeCandidate topology plan train nearest waiting =
     (let direction = corridorDirection nearest (tt_travel_direction train);
          rid = resourceId (ct_corridor_id nearest) direction;
          c = default_dispatch_candidate\<lparr>dc_train_id := tt_train_id train,
            dc_line_id := tt_line_id train, dc_corridor_direction := direction,
            dc_corridor_resource_id := rid, dc_route_index := tt_route_index train,
            dc_route_position := tt_route_position train,
            dc_arrived_at_simulation_ms := wr_arrived_at_simulation_ms waiting,
            dc_received_at_wall_ms := tt_received_at_wall_ms train\<rparr>;
          c1 = (case Option.bind plan (\<lambda>p. rolling_find p (tt_train_id train) rid) of
              None \<Rightarrow> c
            | Some planned \<Rightarrow> c\<lparr>dc_predicted_arrival_simulation_ms :=
                  pa_estimated_arrival_simulation_ms planned,
                dc_rolling_plan_rank := pa_suggested_rank planned,
                dc_global_plan_priority := pa_global_priority planned\<rparr>)
      in c1\<lparr>dc_required_intersection_movement_ids := map it_movement_id
           (filter (\<lambda>i. liesAheadThroughCorridor i nearest train)
              (intersectionsForLine topology (tt_line_id train)))\<rparr>)"

definition set_phase_of ::
    "string \<Rightarrow> train_dispatch_phase \<Rightarrow> candidate_build_result \<Rightarrow> candidate_build_result" where
  "set_phase_of t ph r = r\<lparr>cb_phase_by_train := um_put t ph (cb_phase_by_train r)\<rparr>"

definition add_candidate ::
    "string \<Rightarrow> dispatch_candidate \<Rightarrow> candidate_build_result \<Rightarrow> candidate_build_result" where
  "add_candidate rid c r = r\<lparr>cb_candidates_by_resource :=
     index_push rid c (cb_candidates_by_resource r)\<rparr>"

text \<open>The loop state: the result, the waiting records and the keys seen in this round.\<close>

type_synonym build_state = "candidate_build_result \<times> (string, waiting_record) umap \<times> string list"

definition buildTrain ::
    "dispatch_candidate_builder_config \<Rightarrow> line_topology_registry \<Rightarrow> rolling_plan_result option \<Rightarrow>
     build_state \<Rightarrow> monitored_train \<Rightarrow> build_state option" where
  "buildTrain cfg topology plan st monitored = (case st of (res0, waiting, keys) \<Rightarrow>
     let train = mt_telemetry monitored; tid = tt_train_id train;
         res = set_phase_of tid MONITORED res0
     in if mt_phase monitored = RELEASE_PENDING \<or> mt_phase monitored = INSIDE_RESOURCE
        then Some (set_phase_of tid (mt_phase monitored) res, waiting, keys)
        else case registry_route topology (tt_line_id train) of
          None \<Rightarrow> Some (res, waiting, keys)
        | Some route \<Rightarrow>
            (case nearestTraversal cfg route train (corridorsForLine topology (tt_line_id train)) of
               None \<Rightarrow> None
             | Some (None, _) \<Rightarrow> Some (res, waiting, keys)
             | Some (Some nearest, distance) \<Rightarrow>
                 let res1 = set_phase_of tid APPROACHING res
                 in if bc_control_point_distance cfg < distance then Some (res1, waiting, keys)
                    else
                      let rid = resourceId (ct_corridor_id nearest)
                            (corridorDirection nearest (tt_travel_direction train));
                          key = waitingKey tid rid;
                          w = updateWaiting train (um_at default_waiting_record key waiting)
                      in Some (set_phase_of tid WAITING_PERMISSION
                           (add_candidate rid (makeCandidate topology plan train nearest w) res1),
                         um_put key w waiting, key # keys)))"

definition empty_build :: candidate_build_result where
  "empty_build = \<lparr>cb_candidates_by_resource = [], cb_phase_by_train = []\<rparr>"

definition build ::
    "dispatch_candidate_builder \<Rightarrow> monitored_train list \<Rightarrow> line_topology_registry \<Rightarrow>
     rolling_plan_result option \<Rightarrow> (candidate_build_result \<times> dispatch_candidate_builder) option" where
  "build b trains topology plan =
     (case fold_option (buildTrain (db_config b) topology plan)
        (empty_build, db_waiting_by_train_resource b, []) trains of
        None \<Rightarrow> None
      | Some (res, waiting, keys) \<Rightarrow> Some (res, b\<lparr>db_waiting_by_train_resource :=
          um_erase_if (\<lambda>(k, _). k \<notin> set keys) waiting\<rparr>))"

definition starts_with :: "string \<Rightarrow> string \<Rightarrow> bool" where
  "starts_with prefix s \<longleftrightarrow> take (length prefix) s = prefix"

definition forgetTrain :: "dispatch_candidate_builder \<Rightarrow> string \<Rightarrow> dispatch_candidate_builder" where
  "forgetTrain b train_id = b\<lparr>db_waiting_by_train_resource :=
     um_erase_if (\<lambda>(k, _). starts_with (train_id @ [CHR 0x0A]) k) (db_waiting_by_train_resource b)\<rparr>"

definition builder_clear :: "dispatch_candidate_builder \<Rightarrow> dispatch_candidate_builder" where
  "builder_clear b = b\<lparr>db_waiting_by_train_resource := []\<rparr>"

subsection \<open>Invariants of the loop\<close>

text \<open>
  What a candidate says about the train it stands for: the corridor is one of the line's with the least
  distance among those ahead, within the control distance; the crossings asked for are those of the line
  on a segment between the train's and the corridor's last one, in the direction of travel.
\<close>

definition between_train_and_exit :: "train_telemetry \<Rightarrow> corridor_traversal \<Rightarrow> nat \<Rightarrow> bool" where
  "between_train_and_exit train t segment \<longleftrightarrow> (case tt_travel_direction train of
     TRAVEL_FORWARD \<Rightarrow> segment \<in> {unat (tt_route_index train)..ct_high_segment t}
   | TRAVEL_REVERSE \<Rightarrow> segment \<in> {ct_low_segment t..unat (tt_route_index train)})"

definition candidate_of ::
    "dispatch_candidate_builder_config \<Rightarrow> line_topology_registry \<Rightarrow> monitored_train \<Rightarrow>
     dispatch_candidate \<Rightarrow> bool" where
  "candidate_of cfg topology m c \<longleftrightarrow> (let train = mt_telemetry m in
     dc_train_id c = tt_train_id train \<and> dc_line_id c = tt_line_id train \<and>
     mt_phase m \<noteq> RELEASE_PENDING \<and> mt_phase m \<noteq> INSIDE_RESOURCE \<and>
     (\<exists>route t d. registry_route topology (tt_line_id train) = Some route \<and>
        t \<in> set (corridorsForLine topology (tt_line_id train)) \<and>
        distanceToEntry route t train = Some (Some d) \<and>
        d \<le> bc_approach_distance cfg \<and> \<not> bc_control_point_distance cfg < d \<and>
        (\<forall>t' d'. t' \<in> set (corridorsForLine topology (tt_line_id train)) \<longrightarrow>
           distanceToEntry route t' train = Some (Some d') \<longrightarrow> \<not> d' < d) \<and>
        dc_corridor_resource_id c = resourceId (ct_corridor_id t) (corridorDirection t (tt_travel_direction train)) \<and>
        dc_required_intersection_movement_ids c = map it_movement_id (filter
          (\<lambda>i. between_train_and_exit train t (it_segment_index i))
          (intersectionsForLine topology (tt_line_id train)))))"

lemma liesAhead_between: "liesAheadThroughCorridor i t train \<longleftrightarrow> between_train_and_exit train t (it_segment_index i)"
  by (cases "tt_travel_direction train") (auto simp: liesAheadThroughCorridor_def between_train_and_exit_def)

lemma fold_option_prefix:
  "fold_option f s xs = Some s' \<Longrightarrow> P ys s \<Longrightarrow>
   (\<And>ys x s s'. P ys s \<Longrightarrow> f s x = Some s' \<Longrightarrow> P (ys @ [x]) s') \<Longrightarrow> P (ys @ xs) s'"
proof (induction xs arbitrary: s ys)
  case (Cons x xs)
  then obtain t where t: "f s x = Some t" "fold_option f t xs = Some s'" by (auto split: option.splits)
  have "P ((ys @ [x]) @ xs) s'"
    by (rule Cons.IH [OF t(2) Cons.prems(3) [OF Cons.prems(2) t(1)] Cons.prems(3)])
  then show ?case by simp
qed simp

lemma nearestTraversal_some:
  assumes "nearestTraversal cfg route train ts = Some (Some t, d)"
  shows "t \<in> set ts \<and> distanceToEntry route t train = Some (Some d) \<and> d \<le> bc_approach_distance cfg"
proof -
  let ?ok = "\<lambda>(best, d). \<forall>t. best = Some t \<longrightarrow> t \<in> set ts \<and> distanceToEntry route t train = Some (Some d) \<and>
    d \<le> bc_approach_distance cfg"
  have "?ok (Some t, d)"
    by (rule fold_option_invariant [where P = ?ok, OF assms [unfolded nearestTraversal_def]])
      (auto simp: consider_traversal_def split: option.splits if_splits)
  then show ?thesis by simp
qed

lemma nearestTraversal_least:
  assumes "nearestTraversal cfg route train ts = Some (Some t, d)"
    and "t' \<in> set ts" "distanceToEntry route t' train = Some (Some d')"
  shows "\<not> d' < d"
proof -
  let ?P = "\<lambda>ys best. \<forall>t' d'. t' \<in> set ys \<longrightarrow> distanceToEntry route t' train = Some (Some d') \<longrightarrow>
    d' \<le> bc_approach_distance cfg \<longrightarrow> \<not> d' < snd best"
  have "?P ([] @ ts) (Some t, d)"
  proof (rule fold_option_prefix [where P = ?P, OF assms(1) [unfolded nearestTraversal_def]])
    fix ys x s s' assume P: "?P ys s" and step: "consider_traversal cfg route train s x = Some s'"
    have "snd s' = snd s \<or> snd s' < snd s" using step by (auto simp: consider_traversal_def split: option.splits if_splits)
    then have "\<not> d' < snd s'" if "t' \<in> set ys" "distanceToEntry route t' train = Some (Some d')"
      "d' \<le> bc_approach_distance cfg" for t' d'
    proof -
      have *: "\<not> d' < snd s" using P that by blast
      then show ?thesis using \<open>snd s' = snd s \<or> snd s' < snd s\<close> double_less_trans [of d' "snd s'" "snd s"] by auto
    qed
    moreover have "\<not> d' < snd s'" if "distanceToEntry route x train = Some (Some d')" "d' \<le> bc_approach_distance cfg" for d'
      using step that by (auto simp: consider_traversal_def split: if_splits)
    ultimately show "?P (ys @ [x]) s'" by auto
  qed simp
  then have *: "d' \<le> bc_approach_distance cfg \<Longrightarrow> \<not> d' < d" using assms(2,3) by auto
  have "d \<le> bc_approach_distance cfg" using nearestTraversal_some [OF assms(1)] by simp
  then have "d' < d \<Longrightarrow> d' \<le> bc_approach_distance cfg" using double_less_le double_le_trans by metis
  then show ?thesis using * by blast
qed

lemma makeCandidate_fields [simp]:
  "dc_train_id (makeCandidate topo plan train t w) = tt_train_id train"
  "dc_line_id (makeCandidate topo plan train t w) = tt_line_id train"
  "dc_arrived_at_simulation_ms (makeCandidate topo plan train t w) = wr_arrived_at_simulation_ms w"
  "dc_corridor_resource_id (makeCandidate topo plan train t w) =
     resourceId (ct_corridor_id t) (corridorDirection t (tt_travel_direction train))"
  "dc_required_intersection_movement_ids (makeCandidate topo plan train t w) = map it_movement_id
     (filter (\<lambda>i. liesAheadThroughCorridor i t train) (intersectionsForLine topo (tt_line_id train)))"
  by (simp_all add: makeCandidate_def Let_def split: option.split)

definition train_ids :: "monitored_train list \<Rightarrow> string list" where
  "train_ids ms = map (\<lambda>m. tt_train_id (mt_telemetry m)) ms"

text \<open>Ids as the game produces them: distinct, and without the separator of the composite keys.\<close>

definition proper_trains :: "monitored_train list \<Rightarrow> bool" where
  "proper_trains ms \<longleftrightarrow> distinct (train_ids ms) \<and> (\<forall>t \<in> set (train_ids ms). CHR 0x0A \<notin> set t)"

lemma separator_inj:
  "CHR 0x0A \<notin> set a \<Longrightarrow> CHR 0x0A \<notin> set b \<Longrightarrow> a @ [CHR 0x0A] @ x = b @ [CHR 0x0A] @ y \<Longrightarrow> a = b \<and> x = y"
proof (induction a arbitrary: b)
  case Nil
  then show ?case by (cases b) auto
next
  case (Cons c a)
  then show ?case by (cases b) auto
qed

lemma waitingKey_inj:
  "CHR 0x0A \<notin> set a \<Longrightarrow> CHR 0x0A \<notin> set b \<Longrightarrow> waitingKey a x = waitingKey b y \<longleftrightarrow> a = b \<and> x = y"
  using separator_inj unfolding waitingKey_def by blast

abbreviation candidates_at :: "candidate_build_result \<Rightarrow> string \<Rightarrow> dispatch_candidate list" where
  "candidates_at res r \<equiv> um_at [] r (cb_candidates_by_resource res)"

definition build_inv ::
    "dispatch_candidate_builder_config \<Rightarrow> line_topology_registry \<Rightarrow> (string, waiting_record) umap \<Rightarrow>
     monitored_train list \<Rightarrow> build_state \<Rightarrow> bool" where
  "build_inv cfg topology old seen = (\<lambda>(res, waiting, keys). proper_trains seen \<longrightarrow>
     (\<forall>r c. c \<in> set (candidates_at res r) \<longrightarrow> dc_corridor_resource_id c = r \<and>
        (\<exists>m \<in> set seen. candidate_of cfg topology m c \<and> dc_arrived_at_simulation_ms c =
          wr_arrived_at_simulation_ms (updateWaiting (mt_telemetry m)
            (um_at default_waiting_record (waitingKey (dc_train_id c) r) old))) \<and>
        um_find (cb_phase_by_train res) (dc_train_id c) = Some WAITING_PERMISSION \<and>
        waitingKey (dc_train_id c) r \<in> set keys \<and>
        (\<exists>w. um_find waiting (waitingKey (dc_train_id c) r) = Some w \<and>
           wr_arrived_at_simulation_ms w = dc_arrived_at_simulation_ms c)) \<and>
     (\<forall>r c r' c'. c \<in> set (candidates_at res r) \<longrightarrow> c' \<in> set (candidates_at res r') \<longrightarrow>
        dc_train_id c = dc_train_id c' \<longrightarrow> c = c') \<and>
     (\<forall>k \<in> set keys. \<exists>r c. c \<in> set (candidates_at res r) \<and> k = waitingKey (dc_train_id c) r) \<and>
     (\<forall>t r. t \<notin> set (train_ids seen) \<longrightarrow> CHR 0x0A \<notin> set t \<longrightarrow>
        um_find waiting (waitingKey t r) = um_find old (waitingKey t r)))"

lemma build_inv_skip:
  assumes "build_inv cfg topology old seen (res, waiting, keys)"
    and "cb_candidates_by_resource res' = cb_candidates_by_resource res"
    and "\<And>t. t \<noteq> tt_train_id (mt_telemetry m) \<Longrightarrow>
      um_find (cb_phase_by_train res') t = um_find (cb_phase_by_train res) t"
  shows "build_inv cfg topology old (seen @ [m]) (res', waiting, keys)"
proof (cases "proper_trains (seen @ [m])")
  case True
  then have seen: "proper_trains seen" and new: "tt_train_id (mt_telemetry m) \<notin> set (train_ids seen)"
    by (auto simp: proper_trains_def train_ids_def)
  note inv = assms(1) [unfolded build_inv_def prod.case, rule_format, OF seen]
  have id: "dc_train_id c \<noteq> tt_train_id (mt_telemetry m)" if c: "c \<in> set (candidates_at res r)" for r c
  proof -
    obtain m' where "m' \<in> set seen" "candidate_of cfg topology m' c"
      using inv [THEN conjunct1, rule_format, OF c] by blast
    then have "dc_train_id c \<in> set (train_ids seen)" by (auto simp: candidate_of_def train_ids_def Let_def)
    then show ?thesis using new by auto
  qed
  show ?thesis unfolding build_inv_def prod.case assms(2)
  proof (intro impI conjI allI)
    fix r c assume c: "c \<in> set (candidates_at res r)"
    note i = inv [THEN conjunct1, rule_format, OF c]
    show "dc_corridor_resource_id c = r" using i by blast
    show "\<exists>m\<in>set (seen @ [m]). candidate_of cfg topology m c \<and> dc_arrived_at_simulation_ms c =
          wr_arrived_at_simulation_ms (updateWaiting (mt_telemetry m)
            (um_at default_waiting_record (waitingKey (dc_train_id c) r) old))"
      using i unfolding set_append by blast
    show "um_find (cb_phase_by_train res') (dc_train_id c) = Some WAITING_PERMISSION"
      using i assms(3) [OF id [OF c]] by simp
    show "waitingKey (dc_train_id c) r \<in> set keys" using i by blast
    show "\<exists>w. um_find waiting (waitingKey (dc_train_id c) r) = Some w \<and>
           wr_arrived_at_simulation_ms w = dc_arrived_at_simulation_ms c" using i by blast
  next
    fix r c r' c'
    assume "c \<in> set (candidates_at res r)" "c' \<in> set (candidates_at res r')" "dc_train_id c = dc_train_id c'"
    then show "c = c'" using inv by blast
  next
    show "\<forall>k\<in>set keys. \<exists>r c. c \<in> set (candidates_at res r) \<and> k = waitingKey (dc_train_id c) r"
      using inv by blast
  next
    fix t r assume "t \<notin> set (train_ids (seen @ [m]))" "CHR 0x0A \<notin> set t"
    then show "um_find waiting (waitingKey t r) = um_find old (waitingKey t r)"
      using inv by (simp add: train_ids_def)
  qed
qed (simp add: build_inv_def)

lemma candidates_at_add [simp]:
  "candidates_at (add_candidate rid c res) r = candidates_at res r @ (if r = rid then [c] else [])"
  by (simp add: add_candidate_def um_at_index_push)

lemma set_phase_of_sel [simp]:
  "cb_candidates_by_resource (set_phase_of t ph res) = cb_candidates_by_resource res"
  "um_find (cb_phase_by_train (set_phase_of t ph res)) t' =
     (if t' = t then Some ph else um_find (cb_phase_by_train res) t')"
  "cb_phase_by_train (add_candidate rid c res) = cb_phase_by_train res"
  by (simp_all add: set_phase_of_def add_candidate_def umap_simps)

lemma build_inv_add:
  fixes m defines "train \<equiv> mt_telemetry m"
  assumes inv0: "build_inv cfg topology old seen (res, waiting, keys)"
    and c: "candidate_of cfg topology m c" "dc_corridor_resource_id c = r"
    and w: "w = updateWaiting train (um_at default_waiting_record (waitingKey (tt_train_id train) r) waiting)"
      "dc_arrived_at_simulation_ms c = wr_arrived_at_simulation_ms w"
    and res': "\<And>s. candidates_at res' s = candidates_at res s @ (if s = r then [c] else [])"
      "\<And>t. um_find (cb_phase_by_train res') t =
        (if t = tt_train_id train then Some WAITING_PERMISSION else um_find (cb_phase_by_train res) t)"
  shows "build_inv cfg topology old (seen @ [m])
    (res', um_put (waitingKey (tt_train_id train) r) w waiting, waitingKey (tt_train_id train) r # keys)"
proof (cases "proper_trains (seen @ [m])")
  case True
  let ?t = "tt_train_id train"
  have seen: "proper_trains seen" and new: "?t \<notin> set (train_ids seen)" and nl: "CHR 0x0A \<notin> set ?t"
    using True by (auto simp: proper_trains_def train_ids_def train_def)
  note inv = inv0 [unfolded build_inv_def prod.case, rule_format, OF seen]
  have ct: "dc_train_id c = ?t" using c(1) by (simp add: candidate_of_def Let_def train_def)
  have old: "um_at default_waiting_record (waitingKey ?t r) waiting = um_at default_waiting_record (waitingKey ?t r) old"
    using inv new nl by (simp add: um_at_def)
  have id: "dc_train_id d \<in> set (train_ids seen) \<and> dc_train_id d \<noteq> ?t \<and> CHR 0x0A \<notin> set (dc_train_id d)"
    if d: "d \<in> set (candidates_at res s)" for s d
  proof -
    obtain m' where "m' \<in> set seen" "candidate_of cfg topology m' d"
      using inv [THEN conjunct1, rule_format, OF d] by blast
    then have "dc_train_id d \<in> set (train_ids seen)" by (auto simp: candidate_of_def train_ids_def Let_def)
    then show ?thesis using new seen by (auto simp: proper_trains_def)
  qed
  show ?thesis unfolding build_inv_def prod.case
  proof (intro impI conjI allI)
    fix s d assume d: "d \<in> set (candidates_at res' s)"
    consider "d \<in> set (candidates_at res s)" | "d = c" "s = r" using d res'(1) by (auto split: if_splits)
    note cases = this
    show "dc_corridor_resource_id d = s" using cases inv c(2) by cases blast+
    show "\<exists>m\<in>set (seen @ [m]). candidate_of cfg topology m d \<and> dc_arrived_at_simulation_ms d =
          wr_arrived_at_simulation_ms (updateWaiting (mt_telemetry m)
            (um_at default_waiting_record (waitingKey (dc_train_id d) s) old))"
      using cases
    proof cases
      case 1
      then show ?thesis using inv [THEN conjunct1, rule_format, OF 1] by auto
    next
      case 2
      then show ?thesis using c(1) w old ct by (auto simp: train_def)
    qed
    show "um_find (cb_phase_by_train res') (dc_train_id d) = Some WAITING_PERMISSION"
      using cases
    proof cases
      case 1
      then show ?thesis using inv [THEN conjunct1, rule_format, OF 1] id [OF 1] res'(2) by simp
    qed (use ct res'(2) in simp)
    show "waitingKey (dc_train_id d) s \<in> set (waitingKey ?t r # keys)"
      using cases inv ct by cases auto
    show "\<exists>w'. um_find (um_put (waitingKey ?t r) w waiting) (waitingKey (dc_train_id d) s) = Some w' \<and>
           wr_arrived_at_simulation_ms w' = dc_arrived_at_simulation_ms d"
      using cases
    proof cases
      case 1
      then have "waitingKey (dc_train_id d) s \<noteq> waitingKey ?t r" using id [OF 1] nl by (simp add: waitingKey_inj)
      then show ?thesis using inv [THEN conjunct1, rule_format, OF 1] by (simp add: umap_simps)
    qed (use ct w(2) in \<open>simp add: umap_simps\<close>)
  next
    fix s d s' d'
    assume dd: "d \<in> set (candidates_at res' s)" "d' \<in> set (candidates_at res' s')" "dc_train_id d = dc_train_id d'"
    have "d \<in> set (candidates_at res s) \<or> d = c" "d' \<in> set (candidates_at res s') \<or> d' = c"
      using dd(1,2) res'(1) by (auto split: if_splits)
    then show "d = d'" using inv [THEN conjunct2, THEN conjunct1] id ct dd(3) by metis
  next
    show "\<forall>k\<in>set (waitingKey ?t r # keys). \<exists>s d. d \<in> set (candidates_at res' s) \<and> k = waitingKey (dc_train_id d) s"
    proof
      fix k assume "k \<in> set (waitingKey ?t r # keys)"
      then consider "k = waitingKey ?t r" | "k \<in> set keys" by auto
      then show "\<exists>s d. d \<in> set (candidates_at res' s) \<and> k = waitingKey (dc_train_id d) s"
      proof cases
        case 1
        then show ?thesis using ct res'(1) by (intro exI [of _ r] exI [of _ c]) simp
      next
        case 2
        then obtain s d where "d \<in> set (candidates_at res s)" "k = waitingKey (dc_train_id d) s"
          using inv [THEN conjunct2, THEN conjunct2, THEN conjunct1] by blast
        then show ?thesis using res'(1) by (intro exI [of _ s] exI [of _ d]) simp
      qed
    qed
  next
    fix t s assume "t \<notin> set (train_ids (seen @ [m]))" "CHR 0x0A \<notin> set t"
    then show "um_find (um_put (waitingKey ?t r) w waiting) (waitingKey t s) = um_find old (waitingKey t s)"
      using inv nl by (simp add: train_ids_def umap_simps waitingKey_inj train_def)
  qed
qed (simp add: build_inv_def)

lemma buildTrain_inv:
  assumes "build_inv cfg topology old seen st" "buildTrain cfg topology plan st m = Some st'"
  shows "build_inv cfg topology old (seen @ [m]) st'"
proof -
  obtain res waiting keys where st: "st = (res, waiting, keys)" by (cases st) auto
  let ?train = "mt_telemetry m"
  let ?t = "tt_train_id ?train" and ?ts = "corridorsForLine topology (tt_line_id ?train)"
  note inv = assms(1) [unfolded st] and step = assms(2) [unfolded buildTrain_def st prod.case Let_def]
  show ?thesis
  proof (cases "mt_phase m = RELEASE_PENDING \<or> mt_phase m = INSIDE_RESOURCE")
    case True
    then have "st' = (set_phase_of ?t (mt_phase m) (set_phase_of ?t MONITORED res), waiting, keys)"
      using step by simp
    then show ?thesis using build_inv_skip [OF inv] by simp
  next
    case idle: False
    show ?thesis
    proof (cases "registry_route topology (tt_line_id ?train)")
      case None
      then have "st' = (set_phase_of ?t MONITORED res, waiting, keys)" using step idle by simp
      then show ?thesis using build_inv_skip [OF inv] by simp
    next
      case route: (Some route)
      obtain best d where near: "nearestTraversal cfg route ?train ?ts = Some (best, d)"
        using step idle route by (cases "nearestTraversal cfg route ?train ?ts") auto
      show ?thesis
      proof (cases best)
        case None
        then have "st' = (set_phase_of ?t MONITORED res, waiting, keys)" using step idle route near by simp
        then show ?thesis using build_inv_skip [OF inv] by simp
      next
        case (Some t)
        note n = nearestTraversal_some [OF near [unfolded Some]]
        show ?thesis
        proof (cases "bc_control_point_distance cfg < d")
          case True
          then have "st' = (set_phase_of ?t APPROACHING (set_phase_of ?t MONITORED res), waiting, keys)"
            using step idle route near Some by simp
          then show ?thesis using build_inv_skip [OF inv] by simp
        next
          case False
          let ?r = "resourceId (ct_corridor_id t) (corridorDirection t (tt_travel_direction ?train))"
          let ?w = "updateWaiting ?train (um_at default_waiting_record (waitingKey ?t ?r) waiting)"
          let ?c = "makeCandidate topology plan ?train t ?w"
          have st': "st' = (set_phase_of ?t WAITING_PERMISSION (add_candidate ?r ?c
              (set_phase_of ?t APPROACHING (set_phase_of ?t MONITORED res))),
              um_put (waitingKey ?t ?r) ?w waiting, waitingKey ?t ?r # keys)"
            using step idle route near Some False by simp
          have "candidate_of cfg topology m ?c" unfolding candidate_of_def Let_def
            using idle route n False
              nearestTraversal_least [OF near [unfolded Some]]
            by (intro conjI exI [of _ route] exI [of _ t] exI [of _ d]) (simp_all add: liesAhead_between)
          then show ?thesis unfolding st' by (rule build_inv_add [OF inv _ _ refl]) simp_all
        qed
      qed
    qed
  qed
qed

lemma build_inv_result:
  assumes "build b trains topology plan = Some (res, b')"
  shows "\<exists>waiting keys. build_inv (db_config b) topology (db_waiting_by_train_resource b) trains (res, waiting, keys) \<and>
    db_waiting_by_train_resource b' = um_erase_if (\<lambda>(k, _). k \<notin> set keys) waiting"
proof -
  obtain waiting keys where f: "fold_option (buildTrain (db_config b) topology plan)
      (empty_build, db_waiting_by_train_resource b, []) trains = Some (res, waiting, keys)"
    and b': "b' = b\<lparr>db_waiting_by_train_resource := um_erase_if (\<lambda>(k, _). k \<notin> set keys) waiting\<rparr>"
    using assms by (auto simp: build_def split: option.splits)
  have "build_inv (db_config b) topology (db_waiting_by_train_resource b) []
      (empty_build, db_waiting_by_train_resource b, [])"
    by (simp add: build_inv_def empty_build_def um_at_def)
  then have "build_inv (db_config b) topology (db_waiting_by_train_resource b) ([] @ trains) (res, waiting, keys)"
    by (rule fold_option_prefix [OF f]) (rule buildTrain_inv)
  then show ?thesis using b' by auto
qed

lemma um_find_erase_if_key:
  "um_find (um_erase_if (\<lambda>(k, _). \<not> P k) m) k = (if P k then um_find m k else None)"
  by (induction m) (auto simp: um_erase_if_def)

subsection \<open>A train at a corridor\<close>

definition demo_builder :: dispatch_candidate_builder where
  "demo_builder = \<lparr>db_config = default_builder_config, db_waiting_by_train_resource =
     [(waitingKey ''T1'' ''K:FORWARD'', \<lparr>wr_arrived_at_simulation_ms = 500, wr_last_seen_wall_ms = 800\<rparr>)]\<rparr>"

lemma demo_build:
  "\<exists>res b' c. build demo_builder [demo_train] demo_line_topology None = Some (res, b') \<and>
     c \<in> set (candidates_at res ''K:FORWARD'') \<and> dc_train_id c = ''T1''"
proof -
  have near: "nearestTraversal default_builder_config demo_east (mt_telemetry demo_train) [demo_traversal] =
      Some (Some demo_traversal, Fin 16)"
    by (simp add: nearestTraversal_def consider_traversal_def demo_distance default_builder_config_def)
  have sel: "registry_route demo_line_topology ''A'' = Some demo_east"
    "corridorsForLine demo_line_topology ''A'' = [demo_traversal]"
    by (simp_all add: registry_route_def corridorsForLine_def demo_line_topology_def)
  have t: "tt_line_id (mt_telemetry demo_train) = ''A''" "tt_train_id (mt_telemetry demo_train) = ''T1''"
    "tt_travel_direction (mt_telemetry demo_train) = TRAVEL_FORWARD" "mt_phase demo_train = MONITORED"
    by (simp_all add: demo_train_def demo_telemetry_sel)
  have r: "resourceId (ct_corridor_id demo_traversal) (corridorDirection demo_traversal TRAVEL_FORWARD) = ''K:FORWARD''"
    by (simp add: resourceId_def corridorDirection_def demo_traversal_def)
  have close: "\<not> bc_control_point_distance default_builder_config < Fin 16" by (simp add: default_builder_config_def)
  have cfg: "db_config demo_builder = default_builder_config" by (simp add: demo_builder_def)
  show ?thesis
    by (simp add: build_def buildTrain_def t sel near r close cfg Let_def)
      (rule exI, rule conjI, rule disjI1, rule refl, simp add: t)
qed

subsection \<open>Properties\<close>

text \<open>C32: who competes. Every candidate for a resource stands for a monitored train that has no
  unacknowledged command and is in no resource; no corridor of its line is nearer ahead of it, and it is
  within the control distance. It asks for exactly the crossings of its line whose segment is between the
  train's segment and the corridor's last segment in the direction of travel; its phase becomes waiting,
  and no train is a candidate twice. Segments are compared as numbers: on a loop line, a train whose
  corridor lies behind the end of the route (its last segment before the train's) asks for no crossing at
  all.\<close>

theorem candidates_are_waiting_trains:
  assumes "build b trains topology plan = Some (res, b')" and "proper_trains trains"
    and "c \<in> set (candidates_at res r)"
  shows "dc_corridor_resource_id c = r \<and>
    (\<exists>m \<in> set trains. candidate_of (db_config b) topology m c) \<and>
    um_find (cb_phase_by_train res) (dc_train_id c) = Some WAITING_PERMISSION \<and>
    (\<forall>r' c'. c' \<in> set (candidates_at res r') \<longrightarrow> dc_train_id c' = dc_train_id c \<longrightarrow> c' = c)"
proof -
  obtain waiting keys where "build_inv (db_config b) topology (db_waiting_by_train_resource b) trains
      (res, waiting, keys)" using build_inv_result [OF assms(1)] by blast
  note inv = this [unfolded build_inv_def prod.case, rule_format, OF assms(2)]
  note c = inv [THEN conjunct1, rule_format, OF assms(3)]
  show ?thesis using c inv [THEN conjunct2, THEN conjunct1] assms(3) by blast
qed

lemma candidates_are_waiting_trains_witness:
  "\<exists>res b' c. build demo_builder [demo_train] demo_line_topology None = Some (res, b') \<and>
     c \<in> set (candidates_at res ''K:FORWARD'') \<and> dc_corridor_resource_id c = ''K:FORWARD'' \<and>
     um_find (cb_phase_by_train res) ''T1'' = Some WAITING_PERMISSION"
proof -
  obtain res b' c where b: "build demo_builder [demo_train] demo_line_topology None = Some (res, b')"
    "c \<in> set (candidates_at res ''K:FORWARD'')" "dc_train_id c = ''T1''" using demo_build by blast
  have "proper_trains [demo_train]" by (simp add: proper_trains_def train_ids_def demo_train_def demo_telemetry_sel)
  then show ?thesis using candidates_are_waiting_trains [OF b(1) _ b(2)] b by auto
qed

text \<open>Waiting time survives. A candidate that was already waiting for the resource keeps the time at
  which it arrived (unless the game's clock went back), a new one starts now; the time is
  remembered for the next round, and nothing else is.\<close>

theorem waiting_time_survives:
  assumes "build b trains topology plan = Some (res, b')" and "proper_trains trains"
  shows "(\<forall>r c m. c \<in> set (candidates_at res r) \<longrightarrow> m \<in> set trains \<longrightarrow>
       tt_train_id (mt_telemetry m) = dc_train_id c \<longrightarrow>
       dc_arrived_at_simulation_ms c =
         (case um_find (db_waiting_by_train_resource b) (waitingKey (dc_train_id c) r) of
            None \<Rightarrow> tt_simulation_time_ms (mt_telemetry m)
          | Some w \<Rightarrow> if wr_arrived_at_simulation_ms w = 0 \<or>
              tt_simulation_time_ms (mt_telemetry m) < wr_arrived_at_simulation_ms w
              then tt_simulation_time_ms (mt_telemetry m) else wr_arrived_at_simulation_ms w) \<and>
       map_option wr_arrived_at_simulation_ms
         (um_find (db_waiting_by_train_resource b') (waitingKey (dc_train_id c) r)) =
         Some (dc_arrived_at_simulation_ms c)) \<and>
     (\<forall>k. um_find (db_waiting_by_train_resource b') k \<noteq> None \<longrightarrow>
       (\<exists>r c. c \<in> set (candidates_at res r) \<and> k = waitingKey (dc_train_id c) r))"
proof -
  obtain waiting keys where inv0: "build_inv (db_config b) topology (db_waiting_by_train_resource b) trains
      (res, waiting, keys)" and b': "db_waiting_by_train_resource b' = um_erase_if (\<lambda>(k, _). k \<notin> set keys) waiting"
    using build_inv_result [OF assms(1)] by blast
  note inv = inv0 [unfolded build_inv_def prod.case, rule_format, OF assms(2)]
  have find': "um_find (db_waiting_by_train_resource b') k = (if k \<in> set keys then um_find waiting k else None)" for k
    unfolding b' by (rule um_find_erase_if_key)
  show ?thesis
  proof (intro conjI allI impI)
    fix r c m assume c: "c \<in> set (candidates_at res r)"
      and m: "m \<in> set trains" "tt_train_id (mt_telemetry m) = dc_train_id c"
    note i = inv [THEN conjunct1, rule_format, OF c]
    obtain m' where m': "m' \<in> set trains" "candidate_of (db_config b) topology m' c"
      "dc_arrived_at_simulation_ms c = wr_arrived_at_simulation_ms (updateWaiting (mt_telemetry m')
         (um_at default_waiting_record (waitingKey (dc_train_id c) r) (db_waiting_by_train_resource b)))"
      using i by blast
    have "tt_train_id (mt_telemetry m') = tt_train_id (mt_telemetry m)"
      using m'(2) m(2) by (simp add: candidate_of_def Let_def)
    then have "m' = m" using assms(2) m(1) m'(1) unfolding proper_trains_def train_ids_def
      by (metis distinct_map inj_onD)
    then show "dc_arrived_at_simulation_ms c =
         (case um_find (db_waiting_by_train_resource b) (waitingKey (dc_train_id c) r) of
            None \<Rightarrow> tt_simulation_time_ms (mt_telemetry m)
          | Some w \<Rightarrow> if wr_arrived_at_simulation_ms w = 0 \<or>
              tt_simulation_time_ms (mt_telemetry m) < wr_arrived_at_simulation_ms w
              then tt_simulation_time_ms (mt_telemetry m) else wr_arrived_at_simulation_ms w)"
      using m'(3) by (auto simp: updateWaiting_def um_at_def default_waiting_record_def Let_def split: option.split)
    show "map_option wr_arrived_at_simulation_ms
         (um_find (db_waiting_by_train_resource b') (waitingKey (dc_train_id c) r)) =
         Some (dc_arrived_at_simulation_ms c)" unfolding find' using i by auto
  next
    fix k assume "um_find (db_waiting_by_train_resource b') k \<noteq> None"
    then have "k \<in> set keys" unfolding find' by (auto split: if_splits)
    then show "\<exists>r c. c \<in> set (candidates_at res r) \<and> k = waitingKey (dc_train_id c) r"
      using inv [THEN conjunct2, THEN conjunct2, THEN conjunct1] by blast
  qed
qed

lemma waiting_time_survives_witness:
  "\<exists>res b' c. build demo_builder [demo_train] demo_line_topology None = Some (res, b') \<and>
     c \<in> set (candidates_at res ''K:FORWARD'') \<and> dc_arrived_at_simulation_ms c = 500"
proof -
  obtain res b' c where b: "build demo_builder [demo_train] demo_line_topology None = Some (res, b')"
    "c \<in> set (candidates_at res ''K:FORWARD'')" "dc_train_id c = ''T1''" using demo_build by blast
  have "proper_trains [demo_train]" by (simp add: proper_trains_def train_ids_def demo_train_def demo_telemetry_sel)
  note ws = conjunct1 [OF waiting_time_survives [OF b(1) this], rule_format, OF b(2), of demo_train]
  have "dc_arrived_at_simulation_ms c = 500"
    using conjunct1 [OF ws] b(3) by (simp add: demo_builder_def demo_train_def demo_telemetry_sel)
  then show ?thesis using b by blast
qed

end
