(* ===== verification/Service.thy ===== *)
theory Service
  imports Manager Monitor Builder
begin

text \<open>
  \<open>RailwayDispatchService\<close> (server/include/RailwayDispatchService.h,
  server/src/RailwayDispatchService.cpp): the facade behind the HTTP handlers. It composes the
  train monitor, the topology registry, the rolling planner, the candidate builder and the
  dispatch manager, keeps the commands that wait for an acknowledgement and the passages that
  were acknowledged, and asks the database to store a change before it becomes visible.

  \<^item> Every public method holds the service's mutex, so a method is one step on the record
    \<open>railway_service\<close>. The result is an \<open>outcome\<close>: it returns (\<open>Done\<close>), an exception leaves it
    (\<open>Thrown\<close>, with the state left behind), or it runs into undefined behaviour (\<open>Undefined\<close>).
  \<^item> The database (\<open>DispatchPersistence\<close>) is outside the model. Each operation takes the answer its
    call would get, \<open>None\<close> for success or \<open>Some error\<close>, which is used only when a database is
    bound; theorems hold for every answer.
\<close>

subsection \<open>Data\<close>

record railway_dispatch_service_config =
  rc_dispatch :: dispatch_manager_config
  rc_route_analysis :: line_route_analyzer_config
  rc_candidate_builder :: dispatch_candidate_builder_config
  rc_rolling_planner :: affected_line_planner_config
  rc_train_stale_wall_ms :: u64

definition default_dispatch_manager_config :: dispatch_manager_config where
  "default_dispatch_manager_config = \<lparr>mc_priority = default_priority_config,
     mc_default_intersection_clearance_ms = 2000, mc_default_corridor_capacity = 8\<rparr>"

definition default_service_config :: railway_dispatch_service_config where
  "default_service_config = \<lparr>rc_dispatch = default_dispatch_manager_config,
     rc_route_analysis = default_analyzer_config, rc_candidate_builder = default_builder_config,
     rc_rolling_planner = default_planner_config, rc_train_stale_wall_ms = 5000\<rparr>"

record route_upload_result =
  ru_route_count :: nat
  ru_corridor_count :: nat
  ru_intersection_count :: nat
  ru_persistence_ok :: bool
  ru_persistence_error :: string

record railway_runtime_status =
  rt_topology :: line_topology_summary
  rt_train_count :: nat
  rt_last_train_snapshot_wall_ms :: u64
  rt_train_snapshot_age_ms :: u64
  rt_telemetry_connected :: bool

record dispatch_persistence_stats =
  ps_mysql_writes :: u64
  ps_mysql_errors :: u64
  ps_redis_writes :: u64
  ps_redis_errors :: u64
  ps_recovered_pending_commands :: u64
  ps_recovered_active_commands :: u64
  ps_command_recovery_enabled :: bool

record dispatch_recovery_state =
  rs_topology_revision :: u64
  rs_next_command_sequence :: u64
  rs_routes :: "line_route list"
  rs_pending_commands :: "dispatch_decision list"
  rs_active_commands :: "dispatch_decision list"

record railway_service =
  sv_config :: railway_dispatch_service_config
  sv_trains :: train_monitor
  sv_topology :: line_topology_registry
  sv_builder :: dispatch_candidate_builder
  sv_planner :: affected_line_planner_config
  sv_dispatch :: dispatch_manager
  sv_commands :: "(string, dispatch_decision) umap"
  sv_active :: "(string, dispatch_decision) umap"
  sv_plan :: rolling_plan_result
  sv_last_snapshot :: u64
  sv_next_command_id :: u64
  sv_persistence :: bool
  sv_healthy :: bool
  sv_error :: string

datatype 'a outcome = Undefined | Thrown string railway_service | Done 'a railway_service

type_synonym db_answer = "string option"

definition empty_plan :: rolling_plan_result where
  "empty_plan = \<lparr>rp_plans_by_resource = [], rp_by_train_resource = []\<rparr>"

definition default_persistence_stats :: dispatch_persistence_stats where
  "default_persistence_stats = \<lparr>ps_mysql_writes = 0, ps_mysql_errors = 0, ps_redis_writes = 0,
     ps_redis_errors = 0, ps_recovered_pending_commands = 0, ps_recovered_active_commands = 0,
     ps_command_recovery_enabled = False\<rparr>"

subsection \<open>Comparison of route uploads\<close>

definition coordinate_moved :: "double \<Rightarrow> double \<Rightarrow> bool" where
  "coordinate_moved a b \<longleftrightarrow> lit (1 / 10 ^ 6) < \<bar>a - b\<bar>"

definition samePoint :: "line_route_point \<Rightarrow> line_route_point \<Rightarrow> bool" where
  "samePoint a b \<longleftrightarrow> \<not> (pt_point_id a \<noteq> pt_point_id b \<or>
     pt_track_segment_id a \<noteq> pt_track_segment_id b \<or> coordinate_moved (pt_x a) (pt_x b) \<or>
     coordinate_moved (pt_y a) (pt_y b) \<or> coordinate_moved (pt_z a) (pt_z b))"

definition sameRoute :: "line_route \<Rightarrow> line_route \<Rightarrow> bool" where
  "sameRoute lhs rhs \<longleftrightarrow>
     \<not> (lr_line_id lhs \<noteq> lr_line_id rhs \<or> lr_transport_type lhs \<noteq> lr_transport_type rhs \<or>
        lr_geometry_source lhs \<noteq> lr_geometry_source rhs \<or> lr_is_loop lhs \<noteq> lr_is_loop rhs \<or>
        lr_target_headway_ms lhs \<noteq> lr_target_headway_ms rhs \<or>
        length (lr_points lhs) \<noteq> length (lr_points rhs)) \<and>
     list_all (\<lambda>(a, b). samePoint a b) (zip (lr_points lhs) (lr_points rhs))"

definition sameRoutes :: "line_route list \<Rightarrow> line_route list \<Rightarrow> bool" where
  "sameRoutes lhs rhs \<longleftrightarrow> length lhs = length rhs \<and>
     list_all (\<lambda>(a, b). sameRoute a b) (zip (sort_key lr_line_id lhs) (sort_key lr_line_id rhs))"

subsection \<open>Construction and configuration\<close>

definition service_of ::
    "railway_dispatch_service_config \<Rightarrow> line_topology_registry \<Rightarrow> dispatch_candidate_builder \<Rightarrow>
     affected_line_planner_config \<Rightarrow> dispatch_manager \<Rightarrow> railway_service" where
  "service_of c t b p m = \<lparr>sv_config = c, sv_trains = [], sv_topology = t, sv_builder = b,
     sv_planner = p, sv_dispatch = m, sv_commands = [], sv_active = [], sv_plan = empty_plan,
     sv_last_snapshot = 0, sv_next_command_id = 1, sv_persistence = False, sv_healthy = True,
     sv_error = []\<rparr>"

definition new_railway_service :: "string + railway_service" where
  "new_railway_service = (let c = default_service_config in
     case new_line_topology_registry (rc_route_analysis c) of Inl e \<Rightarrow> Inl e | Inr t \<Rightarrow>
     (case new_dispatch_candidate_builder (rc_candidate_builder c) of Inl e \<Rightarrow> Inl e | Inr b \<Rightarrow>
     (case new_affected_line_planner (rc_rolling_planner c) of Inl e \<Rightarrow> Inl e | Inr p \<Rightarrow>
     (case new_dispatch_manager (rc_dispatch c) of Inl e \<Rightarrow> Inl e | Inr m \<Rightarrow>
       Inr (service_of c t b p m)))))"

text \<open>An exception of a constructor leaves the members assigned so far.\<close>

definition configure :: "railway_service \<Rightarrow> railway_dispatch_service_config \<Rightarrow> unit outcome" where
  "configure s c =
     (if rc_train_stale_wall_ms c = 0 then Thrown ''train stale timeout must be positive'' s
      else let s1 = s\<lparr>sv_config := c, sv_trains := monitor_clear (sv_trains s)\<rparr> in
        case new_line_topology_registry (rc_route_analysis c) of Inl e \<Rightarrow> Thrown e s1 | Inr t \<Rightarrow>
        (let s2 = s1\<lparr>sv_topology := t\<rparr> in
        case new_dispatch_candidate_builder (rc_candidate_builder c) of Inl e \<Rightarrow> Thrown e s2 | Inr b \<Rightarrow>
        (let s3 = s2\<lparr>sv_builder := b\<rparr> in
        case new_affected_line_planner (rc_rolling_planner c) of Inl e \<Rightarrow> Thrown e s3 | Inr p \<Rightarrow>
        (let s4 = s3\<lparr>sv_planner := p\<rparr> in
        case new_dispatch_manager (rc_dispatch c) of Inl e \<Rightarrow> Thrown e s4 | Inr m \<Rightarrow>
          Done () (s4\<lparr>sv_dispatch := m, sv_commands := [], sv_active := [], sv_plan := empty_plan,
            sv_last_snapshot := 0, sv_next_command_id := 1, sv_healthy := True, sv_error := []\<rparr>)))))"

subsection \<open>The resources of a topology\<close>

text \<open>The nested loop over the corridors and their two directions.\<close>

definition resources_of ::
    "shared_corridor_definition list \<Rightarrow> (shared_corridor_definition \<times> corridor_direction) list" where
  "resources_of corridors = concat (map (\<lambda>c. [(c, FORWARD), (c, REVERSE)]) corridors)"

definition resource_of :: "shared_corridor_definition \<times> corridor_direction \<Rightarrow> string" where
  "resource_of = (\<lambda>(corridor, direction). resourceId (sd_corridor_id corridor) direction)"

definition rebuilt_state ::
    "dispatch_manager_config \<Rightarrow> u64 \<Rightarrow> shared_corridor_definition \<times> corridor_direction \<Rightarrow>
     shared_corridor_state" where
  "rebuilt_state c wall res = \<lparr>co_corridor_resource_id = resource_of res,
     co_corridor_id = sd_corridor_id (fst res), co_direction = snd res,
     co_received_at_wall_ms = wall, co_last_entry_simulation_ms = 0,
     co_minimum_headway_ms = pc_default_corridor_minimum_headway_ms (mc_priority c),
     co_occupancy = 0, co_capacity = mc_default_corridor_capacity c,
     co_downstream_available = True, co_command_pending = False, co_candidates = []\<rparr>"

definition headway_line ::
    "(string, u64) umap \<Rightarrow> string \<Rightarrow> line_dispatch_state" where
  "headway_line headways line_id = default_line_dispatch_state\<lparr>ld_target_headway_ms :=
     (case um_find headways line_id of None \<Rightarrow> 15000 | Some h \<Rightarrow> h)\<rparr>"

definition rebuild_resource ::
    "dispatch_manager_config \<Rightarrow> (string, u64) umap \<Rightarrow> u64 \<Rightarrow> dispatch_manager \<Rightarrow>
     shared_corridor_definition \<times> corridor_direction \<Rightarrow> dispatch_manager" where
  "rebuild_resource c headways wall m res =
     foldl (\<lambda>m member. upsertLineState m (resource_of res) (sm_line_id member)
         (headway_line headways (sm_line_id member)))
       (upsertCorridor m (rebuilt_state c wall res)) (sd_members (fst res))"

definition headways_of :: "line_route list \<Rightarrow> (string, u64) umap" where
  "headways_of routes = foldl (\<lambda>h r. um_put (lr_line_id r) (lr_target_headway_ms r) h) [] routes"

definition rebuild_manager ::
    "dispatch_manager_config \<Rightarrow> line_topology_snapshot \<Rightarrow> u64 \<Rightarrow> dispatch_manager \<Rightarrow> dispatch_manager" where
  "rebuild_manager c snapshot wall m0 =
     foldl (rebuild_resource c (headways_of (ts_routes snapshot)) wall)
       (foldl (\<lambda>m mv. snd (registerIntersectionMovement m mv)) m0 (la_movements (ts_analysis snapshot)))
       (resources_of (la_shared_corridors (ts_analysis snapshot)))"

definition rebuildDispatchManagerLocked :: "railway_service \<Rightarrow> u64 \<Rightarrow> string + railway_service" where
  "rebuildDispatchManagerLocked s wall = (case new_dispatch_manager (rc_dispatch (sv_config s)) of
     Inl e \<Rightarrow> Inl e
   | Inr m0 \<Rightarrow> Inr (s\<lparr>sv_dispatch := rebuild_manager (rc_dispatch (sv_config s))
       (registry_snapshot (sv_topology s)) wall m0\<rparr>))"

subsection \<open>Persistence\<close>

text \<open>How a database answer is remembered.\<close>

definition note_answer :: "db_answer \<Rightarrow> railway_service \<Rightarrow> railway_service" where
  "note_answer answer s = (case answer of None \<Rightarrow> s\<lparr>sv_healthy := True, sv_error := []\<rparr>
     | Some e \<Rightarrow> s\<lparr>sv_healthy := False, sv_error := e\<rparr>)"

text \<open>The loops over the recovered commands; \<open>Inl\<close> ends them with a reason (empty when no reason is written).\<close>

fun restorePendingCommands ::
    "u64 \<Rightarrow> railway_service \<Rightarrow> dispatch_decision list \<Rightarrow> (string \<times> railway_service) + railway_service" where
  "restorePendingCommands revision s [] = Inr s"
| "restorePendingCommands revision s (d # ds) =
     (if dd_topology_revision d \<noteq> revision then Inl ([], s)
      else case restorePending (sv_dispatch s) d of
        Inl e \<Rightarrow> Inl (e, s)
      | Inr m \<Rightarrow> restorePendingCommands revision (s\<lparr>sv_dispatch := m,
          sv_commands := um_put (dd_train_id d) d (sv_commands s)\<rparr>) ds)"

fun restoreActiveCommands ::
    "u64 \<Rightarrow> railway_service \<Rightarrow> dispatch_decision list \<Rightarrow> (string \<times> railway_service) + railway_service" where
  "restoreActiveCommands revision s [] = Inr s"
| "restoreActiveCommands revision s (d # ds) =
     (if dd_topology_revision d \<noteq> revision then Inl ([], s)
      else case restoreActive (sv_dispatch s) d of
        Inl e \<Rightarrow> Inl (e, s)
      | Inr m \<Rightarrow> restoreActiveCommands revision (s\<lparr>sv_dispatch := m,
          sv_active := um_put (dd_train_id d) d (sv_active s)\<rparr>) ds)"

definition restoreCommands ::
    "dispatch_recovery_state \<Rightarrow> railway_service \<Rightarrow> (string option) outcome" where
  "restoreCommands recovery s =
     (case restorePendingCommands (rs_topology_revision recovery) s (rs_pending_commands recovery) of
        Inl (e, s') \<Rightarrow> Done (Some e) s'
      | Inr s1 \<Rightarrow>
        (case restoreActiveCommands (rs_topology_revision recovery) s1 (rs_active_commands recovery) of
           Inl (e, s') \<Rightarrow> Done (Some e) s'
         | Inr s2 \<Rightarrow> Done None (s2\<lparr>sv_next_command_id :=
               max (sv_next_command_id s2) (rs_next_command_sequence recovery),
             sv_persistence := True, sv_healthy := True, sv_error := []\<rparr>)))"

text \<open>
  The result \<open>None\<close> is \<open>true\<close>, \<open>Some reason\<close> is \<open>false\<close>. \<open>persistence\<close> is \<open>None\<close> for a null pointer,
  otherwise what its \<open>loadRecoveryState\<close> answers.
\<close>

definition enablePersistence ::
    "(double \<Rightarrow> double) \<Rightarrow> (string + dispatch_recovery_state) option \<Rightarrow> railway_service \<Rightarrow> u64 \<Rightarrow>
     (string option) outcome" where
  "enablePersistence acos persistence s wall = (case persistence of
     None \<Rightarrow> Done (Some ''persistence_is_null'') s
   | Some (Inl e) \<Rightarrow> Done (Some e) s
   | Some (Inr recovery) \<Rightarrow>
       if rs_routes recovery = [] then restoreCommands recovery s
       else case restoreRoutes acos (sv_topology s) (rs_routes recovery) (rs_topology_revision recovery) of
         None \<Rightarrow> Undefined
       | Some (Some e, t) \<Rightarrow> Done (Some e) (s\<lparr>sv_topology := t\<rparr>)
       | Some (None, t) \<Rightarrow>
           (case rebuildDispatchManagerLocked (s\<lparr>sv_topology := t\<rparr>) wall of
              Inl e \<Rightarrow> Thrown e (s\<lparr>sv_topology := t\<rparr>)
            | Inr s1 \<Rightarrow> restoreCommands recovery s1))"

definition persistenceHealthy :: "railway_service \<Rightarrow> bool \<times> string" where
  "persistenceHealthy s = (sv_healthy s, sv_error s)"

definition persistenceStats ::
    "railway_service \<Rightarrow> dispatch_persistence_stats \<Rightarrow> dispatch_persistence_stats" where
  "persistenceStats s stats = (if sv_persistence s then stats else default_persistence_stats)"

subsection \<open>Route uploads\<close>

definition upload_result :: "line_topology_snapshot \<Rightarrow> db_answer \<Rightarrow> route_upload_result" where
  "upload_result snapshot answer = \<lparr>ru_route_count = length (ts_routes snapshot),
     ru_corridor_count = length (la_shared_corridors (ts_analysis snapshot)),
     ru_intersection_count = length (la_intersections (ts_analysis snapshot)),
     ru_persistence_ok = (answer = None),
     ru_persistence_error = (case answer of None \<Rightarrow> [] | Some e \<Rightarrow> e)\<rparr>"

text \<open>What is forgotten when the topology changes.\<close>

definition reset_runtime :: "railway_service \<Rightarrow> railway_service" where
  "reset_runtime s = s\<lparr>sv_commands := [], sv_active := [], sv_plan := empty_plan,
     sv_builder := builder_clear (sv_builder s),
     sv_trains := foldl (\<lambda>ts m. snd (setPhase ts (tt_train_id (mt_telemetry m)) MONITORED []))
       (sv_trains s) (monitor_snapshot (sv_trains s))\<rparr>"

definition service_replaceRoutes ::
    "(double \<Rightarrow> double) \<Rightarrow> db_answer \<Rightarrow> railway_service \<Rightarrow> line_route list \<Rightarrow> u64 \<Rightarrow>
     (string + route_upload_result) outcome" where
  "service_replaceRoutes acos answer s routes wall =
     (let current = registry_snapshot (sv_topology s) in
      if ts_revision current \<noteq> 0 \<and> sameRoutes (ts_routes current) routes
      then Done (Inr (upload_result current None)) s
      else if sv_commands s \<noteq> [] \<or> sv_active s \<noteq> []
      then Done (Inl ''topology_change_blocked_by_active_commands'') s
      else case replaceRoutes acos (sv_topology s) routes of
        None \<Rightarrow> Undefined
      | Some (Some reason, t) \<Rightarrow> Done (Inl reason) (s\<lparr>sv_topology := t\<rparr>)
      | Some (None, t) \<Rightarrow>
          (let s1 = reset_runtime (s\<lparr>sv_topology := t\<rparr>) in
           case rebuildDispatchManagerLocked s1 wall of
             Inl e \<Rightarrow> Thrown e s1
           | Inr s2 \<Rightarrow>
               if sv_persistence s2
               then Done (Inr (upload_result (registry_snapshot t) answer)) (note_answer answer s2)
               else Done (Inr (upload_result (registry_snapshot t) None)) s2))"

subsection \<open>Stale trains\<close>

definition drop_planned :: "string \<Rightarrow> rolling_plan_result \<Rightarrow> rolling_plan_result" where
  "drop_planned train_id p = \<lparr>rp_plans_by_resource = map (\<lambda>(r, plan). (r, plan\<lparr>cp_trains :=
       filter (\<lambda>a. pa_train_id a \<noteq> train_id) (cp_trains plan)\<rparr>)) (rp_plans_by_resource p),
     rp_by_train_resource = um_erase_if (\<lambda>(_, a). pa_train_id a = train_id) (rp_by_train_resource p)\<rparr>"

definition drop_command :: "railway_service \<Rightarrow> string \<Rightarrow> railway_service" where
  "drop_command s train_id = (case um_find (sv_commands s) train_id of
     None \<Rightarrow> s
   | Some d \<Rightarrow> s\<lparr>sv_dispatch := snd (cancelPending (sv_dispatch s) (dd_corridor_resource_id d)),
       sv_commands := um_erase train_id (sv_commands s)\<rparr>)"

definition cleanupTrain :: "railway_service \<Rightarrow> string \<Rightarrow> railway_service" where
  "cleanupTrain s train_id = drop_command (s\<lparr>sv_builder := forgetTrain (sv_builder s) train_id,
     sv_plan := drop_planned train_id (sv_plan s)\<rparr>) train_id"

definition cleanupStaleLocked :: "railway_service \<Rightarrow> u64 \<Rightarrow> railway_service" where
  "cleanupStaleLocked s wall =
     (let (removed, trains) = removeStale (sv_trains s) wall (rc_train_stale_wall_ms (sv_config s))
      in foldl cleanupTrain (s\<lparr>sv_trains := trains\<rparr>) removed)"

subsection \<open>The planning pipeline\<close>

text \<open>The first member of the train's line gives the bounds; \<open>break\<close> ends the loop there.\<close>

definition member_bounds ::
    "train_telemetry \<Rightarrow> shared_corridor_member \<Rightarrow> dispatch_decision \<Rightarrow> dispatch_decision" where
  "member_bounds train m d = (let increasing = (tt_travel_direction train = TRAVEL_FORWARD) in
     d\<lparr>dd_entry_route_index := of_nat (if increasing then sm_start_segment m else sm_end_segment m),
       dd_exit_route_index := of_nat (if increasing then sm_end_segment m else sm_start_segment m),
       dd_entry_route_position := (if increasing then sm_start_position m else sm_end_position m),
       dd_exit_route_position := (if increasing then sm_end_position m else sm_start_position m),
       dd_has_route_bounds := True\<rparr>)"

definition route_bounds ::
    "shared_corridor_definition \<Rightarrow> monitored_train option \<Rightarrow> dispatch_decision \<Rightarrow> dispatch_decision" where
  "route_bounds corridor monitored d = (case monitored of
     None \<Rightarrow> d
   | Some t \<Rightarrow> (case find (\<lambda>m. sm_line_id m = dd_line_id d) (sd_members corridor) of
        None \<Rightarrow> d
      | Some m \<Rightarrow> member_bounds (mt_telemetry t) m d))"

definition command_text :: "u64 \<Rightarrow> string" where
  "command_text n = ''CMD:'' @ string_of_u64 n"

definition make_command ::
    "railway_service \<Rightarrow> u64 \<Rightarrow> shared_corridor_definition \<Rightarrow> dispatch_decision \<Rightarrow> dispatch_decision" where
  "make_command s now corridor d = route_bounds corridor (monitor_get (sv_trains s) (dd_train_id d))
     (d\<lparr>dd_command_id := command_text (sv_next_command_id s),
        dd_topology_revision := tr_revision (sv_topology s), dd_issued_at_simulation_ms := now\<rparr>)"

definition issue_command ::
    "railway_service \<Rightarrow> u64 \<Rightarrow> shared_corridor_definition \<times> corridor_direction \<Rightarrow> dispatch_decision \<Rightarrow>
     railway_service" where
  "issue_command s now res d = s\<lparr>sv_next_command_id := sv_next_command_id s + 1,
     sv_commands := um_put (dd_train_id d) (make_command s now (fst res) d) (sv_commands s),
     sv_trains := snd (setPhase (sv_trains s) (dd_train_id d) RELEASE_PENDING (resource_of res))\<rparr>"

definition plan_resource ::
    "u64 \<Rightarrow> u64 \<Rightarrow> railway_service \<times> dispatch_decision list \<Rightarrow>
     shared_corridor_definition \<times> corridor_direction \<Rightarrow> railway_service \<times> dispatch_decision list" where
  "plan_resource now wall st res = (case st of (s, issued) \<Rightarrow>
     let (d, m) = planNext (sv_dispatch s) (resource_of res) now wall;
         s1 = s\<lparr>sv_dispatch := m\<rparr>
     in if dd_action d = RELEASE \<and> um_find (sv_commands s1) (dd_train_id d) = None
        then (issue_command s1 now res d, issued @ [make_command s1 now (fst res) d])
        else (s1, issued))"

definition offer_candidates ::
    "candidate_build_result \<Rightarrow> u64 \<Rightarrow> dispatch_manager \<Rightarrow>
     shared_corridor_definition \<times> corridor_direction \<Rightarrow> dispatch_manager" where
  "offer_candidates built wall m res = snd (replaceCandidates m (resource_of res)
     (case um_find (cb_candidates_by_resource built) (resource_of res) of None \<Rightarrow> [] | Some cs \<Rightarrow> cs) wall)"

definition set_phases :: "candidate_build_result \<Rightarrow> train_monitor \<Rightarrow> train_monitor" where
  "set_phases built trains =
     foldl (\<lambda>ts (t, phase). snd (setPhase ts t phase [])) trains (cb_phase_by_train built)"

definition service_resources ::
    "railway_service \<Rightarrow> (shared_corridor_definition \<times> corridor_direction) list" where
  "service_resources s = resources_of (la_shared_corridors (tr_analysis (sv_topology s)))"

definition offer_all :: "candidate_build_result \<Rightarrow> u64 \<Rightarrow> railway_service \<Rightarrow> railway_service" where
  "offer_all built wall s = s\<lparr>
     sv_dispatch := foldl (offer_candidates built wall) (sv_dispatch s) (service_resources s),
     sv_trains := set_phases built (sv_trains s)\<rparr>"

definition refreshCandidatesAndPlanLocked ::
    "railway_service \<Rightarrow> u64 \<Rightarrow> u64 \<Rightarrow> (railway_service \<times> dispatch_decision list) option" where
  "refreshCandidatesAndPlanLocked s now wall =
     (let snapshot = monitor_snapshot (sv_trains s) in
      case rolling_plan (sv_planner s) snapshot (sv_topology s) now of
        None \<Rightarrow> None
      | Some plan \<Rightarrow>
        (case build (sv_builder s) snapshot (sv_topology s) (Some plan) of
           None \<Rightarrow> None
         | Some (built, b) \<Rightarrow> Some (foldl (plan_resource now wall)
             (offer_all built wall (s\<lparr>sv_plan := plan, sv_builder := b\<rparr>), [])
             (service_resources s))))"

definition withdraw_command :: "railway_service \<Rightarrow> dispatch_decision \<Rightarrow> railway_service" where
  "withdraw_command s d = s\<lparr>
     sv_dispatch := snd (cancelPending (sv_dispatch s) (dd_corridor_resource_id d)),
     sv_commands := um_erase (dd_train_id d) (sv_commands s)\<rparr>"

definition finish_update ::
    "db_answer \<Rightarrow> train_batch_update_result \<Rightarrow> railway_service \<Rightarrow> dispatch_decision list \<Rightarrow>
     train_batch_update_result \<times> railway_service" where
  "finish_update answer res s issued =
     (let res1 = res\<lparr>br_issued_commands := of_nat (length issued)\<rparr> in
      if \<not> sv_persistence s then (res1, s)
      else case answer of
        None \<Rightarrow> (res1\<lparr>br_persistence_ok := True, br_persistence_error := []\<rparr>, note_answer None s)
      | Some e \<Rightarrow> (res1\<lparr>br_persistence_ok := False, br_persistence_error := e, br_issued_commands := 0\<rparr>,
          foldl withdraw_command (note_answer (Some e) s) issued))"

definition updateTrains ::
    "db_answer \<Rightarrow> railway_service \<Rightarrow> train_telemetry list \<Rightarrow> u64 \<Rightarrow> u64 \<Rightarrow>
     train_batch_update_result outcome" where
  "updateTrains answer s trains now wall =
     (let (res, ts) = upsertBatch (sv_trains s) trains;
          s1 = cleanupStaleLocked (s\<lparr>sv_last_snapshot := wall, sv_trains := ts\<rparr>) wall
      in case refreshCandidatesAndPlanLocked s1 now wall of
        None \<Rightarrow> Undefined
      | Some (s2, issued) \<Rightarrow> (case finish_update answer res s2 issued of (r, s3) \<Rightarrow> Done r s3))"

subsection \<open>Commands, acknowledgements and exits\<close>

definition pendingCommands :: "railway_service \<Rightarrow> string option \<Rightarrow> dispatch_decision list" where
  "pendingCommands s train_id = (case train_id of
     Some t \<Rightarrow> (case um_find (sv_commands s) t of None \<Rightarrow> [] | Some d \<Rightarrow> [d])
   | None \<Rightarrow> sort_key dd_train_id (map snd (sv_commands s)))"

definition runMaintenance :: "railway_service \<Rightarrow> u64 \<Rightarrow> railway_service" where
  "runMaintenance s wall = cleanupStaleLocked s wall"

definition ack_refused :: "railway_service \<Rightarrow> string \<Rightarrow> string \<Rightarrow> string \<Rightarrow> bool" where
  "ack_refused s rid train_id command_id = (case um_find (sv_commands s) train_id of
     None \<Rightarrow> True
   | Some d \<Rightarrow> dd_corridor_resource_id d \<noteq> rid \<or> command_id \<noteq> [] \<and> dd_command_id d \<noteq> command_id)"

definition finish_ack ::
    "railway_service \<Rightarrow> string \<Rightarrow> string \<Rightarrow> bool \<Rightarrow> u64 \<Rightarrow> bool \<times> railway_service" where
  "finish_ack s rid train_id accepted now =
     (let (ok, m) = (if accepted then confirmEntry (sv_dispatch s) rid train_id now
            else cancelPending (sv_dispatch s) rid);
          s1 = s\<lparr>sv_dispatch := m\<rparr>
      in if \<not> ok then (False, s1)
         else (True, s1\<lparr>sv_active := (if accepted
               then um_put train_id (the (um_find (sv_commands s1) train_id)) (sv_active s1)
               else sv_active s1),
             sv_trains := snd (setPhase (sv_trains s1) train_id
               (if accepted then INSIDE_RESOURCE else MONITORED) (if accepted then rid else [])),
             sv_commands := um_erase train_id (sv_commands s1)\<rparr>))"

definition acknowledge ::
    "db_answer \<Rightarrow> railway_service \<Rightarrow> string \<Rightarrow> string \<Rightarrow> bool \<Rightarrow> u64 \<Rightarrow> string \<Rightarrow> bool \<times> railway_service" where
  "acknowledge answer s rid train_id accepted now command_id =
     (if ack_refused s rid train_id command_id then (False, s)
      else if sv_persistence s
      then (case answer of Some e \<Rightarrow> (False, note_answer (Some e) s)
          | None \<Rightarrow> finish_ack (note_answer None s) rid train_id accepted now)
      else finish_ack s rid train_id accepted now)"

text \<open>The crossings of the movements an active passage had booked, each once, in order.\<close>

definition crossings_of_movement ::
    "line_intersection_movement list \<Rightarrow> string list \<Rightarrow> string \<Rightarrow> string list" where
  "crossings_of_movement movements found movement_id =
     foldl (\<lambda>is mv. if mv_movement_id mv = movement_id \<and> mv_intersection_id mv \<notin> set is
         then is @ [mv_intersection_id mv] else is) found movements"

definition effective_crossings ::
    "railway_service \<Rightarrow> dispatch_decision option \<Rightarrow> string list \<Rightarrow> string list" where
  "effective_crossings s active intersection_ids = (case active of
     None \<Rightarrow> intersection_ids
   | Some d \<Rightarrow> if intersection_ids \<noteq> [] then intersection_ids
       else foldl (crossings_of_movement (la_movements (tr_analysis (sv_topology s)))) []
         (dd_reserved_intersection_movement_ids d))"

definition effective_resource :: "dispatch_decision option \<Rightarrow> string \<Rightarrow> string" where
  "effective_resource active rid = (case active of None \<Rightarrow> rid
     | Some d \<Rightarrow> if rid = [] then dd_corridor_resource_id d else rid)"

definition clear_crossing ::
    "string \<Rightarrow> u64 \<Rightarrow> bool \<times> dispatch_manager \<Rightarrow> string \<Rightarrow> bool \<times> dispatch_manager" where
  "clear_crossing train_id now st i = (case st of (changed, m) \<Rightarrow>
     let (ok, m') = markIntersectionCleared m i train_id now in (ok \<or> changed, m'))"

definition finish_clear ::
    "railway_service \<Rightarrow> string \<Rightarrow> string \<Rightarrow> string list \<Rightarrow> u64 \<Rightarrow> bool \<times> railway_service" where
  "finish_clear s train_id rid crossings now =
     (let st = (if rid \<noteq> [] then markCorridorExited (sv_dispatch s) rid else (False, sv_dispatch s));
          (changed, m) = foldl (clear_crossing train_id now) st crossings;
          s1 = s\<lparr>sv_dispatch := m\<rparr>
      in (changed, if changed
         then s1\<lparr>sv_trains := snd (setPhase (sv_trains s1) train_id MONITORED []),
             sv_builder := forgetTrain (sv_builder s1) train_id,
             sv_active := um_erase train_id (sv_active s1)\<rparr>
         else s1))"

definition service_markCleared ::
    "db_answer \<Rightarrow> railway_service \<Rightarrow> string \<Rightarrow> string \<Rightarrow> string list \<Rightarrow> u64 \<Rightarrow> bool \<times> railway_service" where
  "service_markCleared answer s train_id rid intersection_ids now =
     (let active = um_find (sv_active s) train_id;
          rid1 = effective_resource active rid;
          crossings = effective_crossings s active intersection_ids
      in if sv_persistence s \<and> active \<noteq> None
         then (case answer of Some e \<Rightarrow> (False, note_answer (Some e) s)
             | None \<Rightarrow> finish_clear (note_answer None s) train_id rid1 crossings now)
         else finish_clear s train_id rid1 crossings now)"

subsection \<open>Queries\<close>

definition service_trains :: "railway_service \<Rightarrow> monitored_train list" where
  "service_trains s = monitor_snapshot (sv_trains s)"

definition service_topology :: "railway_service \<Rightarrow> line_topology_snapshot" where
  "service_topology s = registry_snapshot (sv_topology s)"

definition runtimeStatus :: "railway_service \<Rightarrow> u64 \<Rightarrow> railway_runtime_status" where
  "runtimeStatus s wall =
     (let known = sv_last_snapshot s \<noteq> 0 \<and> sv_last_snapshot s \<le> wall;
          age = (if known then wall - sv_last_snapshot s else 0)
      in \<lparr>rt_topology = registry_summary (sv_topology s),
          rt_train_count = length (monitor_snapshot (sv_trains s)),
          rt_last_train_snapshot_wall_ms = sv_last_snapshot s, rt_train_snapshot_age_ms = age,
          rt_telemetry_connected = (known \<and> age \<le> rc_train_stale_wall_ms (sv_config s))\<rparr>)"

definition service_rollingPlan :: "railway_service \<Rightarrow> rolling_plan_result" where
  "service_rollingPlan s = sv_plan s"

subsection \<open>Commands and pending releases\<close>

text \<open>
  Every command the service offers for acknowledgement is backed by the pending release of its
  resource, for the same train; the movements of the current topology are the registered ones.
  As in the dispatch manager, the predicates are on the lookup functions of the maps.
\<close>

definition cmds_ok ::
    "(string \<Rightarrow> dispatch_decision option) \<Rightarrow> (string \<Rightarrow> dispatch_decision option) \<Rightarrow> bool" where
  "cmds_ok C P \<longleftrightarrow> (\<forall>t d. C t = Some d \<longrightarrow> dd_train_id d = t \<and>
     (\<exists>p. P (dd_corridor_resource_id d) = Some p \<and> dd_train_id p = t))"

lemma cmds_okD: "cmds_ok C P \<Longrightarrow> C t = Some d \<Longrightarrow> dd_train_id d = t \<and>
   (\<exists>p. P (dd_corridor_resource_id d) = Some p \<and> dd_train_id p = t)"
  by (simp add: cmds_ok_def)

lemma cmds_ok_pend: "cmds_ok C P \<Longrightarrow> P r = None \<Longrightarrow> cmds_ok C (P(r \<mapsto> p))"
  by (fastforce simp: cmds_ok_def)

lemma cmds_ok_add:
  "cmds_ok C P \<Longrightarrow> P (dd_corridor_resource_id d) = None \<Longrightarrow> dd_train_id d = t \<Longrightarrow> dd_train_id p = t \<Longrightarrow>
   cmds_ok (C(t \<mapsto> d)) (P(dd_corridor_resource_id d \<mapsto> p))"
  by (fastforce simp: cmds_ok_def)

lemma cmds_ok_remove:
  assumes "cmds_ok C P" "C t = Some d"
  shows "cmds_ok (C(t := None)) (P(dd_corridor_resource_id d := None))"
  unfolding cmds_ok_def
proof (intro allI impI conjI)
  fix t' d' assume "(C(t := None)) t' = Some d'"
  then have d': "t' \<noteq> t" "C t' = Some d'" by (auto split: if_splits)
  then show "dd_train_id d' = t'" using cmds_okD [OF assms(1)] by blast
  obtain p where "P (dd_corridor_resource_id d') = Some p" "dd_train_id p = t'"
    using cmds_okD [OF assms(1) d'(2)] by blast
  then show "\<exists>p. (P(dd_corridor_resource_id d := None)) (dd_corridor_resource_id d') = Some p \<and> dd_train_id p = t'"
    using cmds_okD [OF assms] d'(1) by auto
qed

abbreviation dm_movements :: "dispatch_manager \<Rightarrow> (string, line_intersection_movement) umap" where
  "dm_movements m \<equiv> rm_movements (dm_reservations m)"

definition movs_ok :: "line_topology_registry \<Rightarrow> dispatch_manager \<Rightarrow> bool" where
  "movs_ok topology m \<longleftrightarrow> (let mvs = la_movements (tr_analysis topology) in
     distinct (map mv_movement_id mvs) \<longrightarrow>
       (\<forall>mv \<in> set mvs. um_find (dm_movements m) (mv_movement_id mv) = Some mv))"

definition disp_inv ::
    "line_topology_registry \<Rightarrow> dispatch_manager \<Rightarrow> (string, dispatch_decision) umap \<Rightarrow> bool" where
  "disp_inv topology m C \<longleftrightarrow> dm_inv True m \<and> movs_ok topology m \<and>
     cmds_ok (um_find C) (um_find (dm_pending_decisions m))"

lemma disp_invD:
  assumes "disp_inv topology m C"
  shows disp_inv_dm: "dm_inv True m" and disp_inv_movs: "movs_ok topology m"
    and disp_inv_cmds: "cmds_ok (um_find C) (um_find (dm_pending_decisions m))"
  using assms by (simp_all add: disp_inv_def)

text \<open>How the operations of the dispatch manager act on the pending releases and the movements.\<close>

lemma disp_inv_same:
  "disp_inv topology m C \<Longrightarrow> dm_inv True m' \<Longrightarrow> dm_movements m' = dm_movements m \<Longrightarrow>
   dm_pending_decisions m' = dm_pending_decisions m \<Longrightarrow> disp_inv topology m' C"
  by (simp add: disp_inv_def movs_ok_def)

lemma planNext_pending:
  assumes "dm_inv True m" "planNext m rid now wall = (d, m')"
  shows "dm_movements m' = dm_movements m \<and>
    (if dd_action d = RELEASE
     then um_find (dm_pending_decisions m) rid = None \<and> dd_corridor_resource_id d = rid \<and>
       dm_pending_decisions m' = um_put rid d (dm_pending_decisions m)
     else dm_pending_decisions m' = dm_pending_decisions m)"
proof (cases "dd_action d = RELEASE")
  case False
  then show ?thesis using planNext_keep [OF dm_inv_rm [OF assms(1)] assms(2)] by auto
next
  case True
  from planNext_release [OF dm_inv_rm [OF assms(1)] assms(2) True]
  obtain co r where co: "um_find (dm_corridors m) rid = Some co"
    and d: "d = decide (dm_policy m) (asked_context m rid co now wall)"
    and res: "tryReserveAtomically (dm_reservations m) (dd_train_id d)
       (dd_reserved_intersection_movement_ids d) now = Inr r"
    and m': "m' = (planPrepare m rid now)\<lparr>dm_reservations := r,
       dm_corridors := um_put rid (co\<lparr>co_command_pending := True\<rparr>) (dm_corridors m),
       dm_pending_decisions := um_put rid d (dm_pending_decisions m)\<rparr>" by blast
  have "corridorState m rid = Some co" using co by (simp add: corridorState_def)
  note st = this
  have "um_find (dm_pending_decisions m) rid = None"
    using pending_iff [OF assms(1) st] planNext_release_frame(5) [OF assms True st] by blast
  moreover have "dd_corridor_resource_id d = rid"
    using corridors_okD [OF dm_inv_corridors [OF assms(1)] co] dp.policy_resource unfolding d by simp
  moreover have "rm_movements r = dm_movements m"
    using tryReserve_effect [OF _ res] dm_inv_rm [OF assms(1)] by (simp add: rm_inv_def)
  ultimately show ?thesis using True by (simp add: m')
qed

lemma disp_inv_planNext:
  assumes "disp_inv topology m C" "planNext m rid now wall = (d, m')"
  shows "disp_inv topology m' C"
    and "dd_action d = RELEASE \<Longrightarrow> dd_train_id c = dd_train_id d \<Longrightarrow> dd_corridor_resource_id c = rid \<Longrightarrow>
      disp_inv topology m' (um_put (dd_train_id d) c C)"
proof -
  note inv = disp_invD [OF assms(1)] and p = planNext_pending [OF disp_inv_dm [OF assms(1)] assms(2)]
  have dm: "dm_inv True m'" using dm_inv_planNext [OF inv(1), of rid now wall] assms(2) by simp
  show "disp_inv topology m' C"
  proof (cases "dd_action d = RELEASE")
    case True
    then show ?thesis using p cmds_ok_pend [OF inv(3)] dm inv(2)
      by (simp add: disp_inv_def movs_ok_def update_conv')
  qed (use disp_inv_same [OF assms(1) dm] p in simp)
  assume rel: "dd_action d = RELEASE" and c: "dd_train_id c = dd_train_id d" "dd_corridor_resource_id c = rid"
  then show "disp_inv topology m' (um_put (dd_train_id d) c C)"
    using p cmds_ok_add [OF inv(3), of c "dd_train_id d" d] dm inv(2)
    by (simp add: disp_inv_def movs_ok_def update_conv')
qed

lemma cancelPending_frame:
  "dm_movements (snd (cancelPending m rid)) = dm_movements m \<and>
   dm_pending_decisions (snd (cancelPending m rid)) = um_erase rid (dm_pending_decisions m) \<and>
   (fst (cancelPending m rid) \<longleftrightarrow> um_find (dm_pending_decisions m) rid \<noteq> None)"
proof (cases "um_find (dm_pending_decisions m) rid")
  case None
  then have "um_erase rid (dm_pending_decisions m) = dm_pending_decisions m"
    by (simp add: map_of_eq_None_iff delete_id)
  then show ?thesis using None by (simp add: cancelPending_def)
qed (simp add: cancelPending_def clearPendingFlag_def Let_def cancelTrain_frame split: option.split)

lemma disp_inv_cancel:
  assumes "disp_inv topology m C" "um_find C t = Some d"
  shows "disp_inv topology (snd (cancelPending m (dd_corridor_resource_id d))) (um_erase t C)"
  using disp_invD [OF assms(1)] cancelPending_frame [of m "dd_corridor_resource_id d"]
    cmds_ok_remove [OF disp_inv_cmds [OF assms(1)] assms(2)] dm_inv_cancelPending
  by (simp add: disp_inv_def movs_ok_def delete_conv')

lemma confirmEntry_frame:
  assumes "dm_inv True m"
  shows "dm_reservations (snd (confirmEntry m rid train now)) = dm_reservations m \<and>
    (fst (confirmEntry m rid train now) \<longleftrightarrow>
       (\<exists>d. um_find (dm_pending_decisions m) rid = Some d \<and> dd_train_id d = train)) \<and>
    dm_pending_decisions (snd (confirmEntry m rid train now)) =
      (if fst (confirmEntry m rid train now) then um_erase rid (dm_pending_decisions m) else dm_pending_decisions m) \<and>
    (\<not> fst (confirmEntry m rid train now) \<longrightarrow> snd (confirmEntry m rid train now) = m)"
proof (cases "um_find (dm_pending_decisions m) rid")
  case (Some d)
  then obtain co where "um_find (dm_corridors m) rid = Some co"
    using dm_inv_pending [OF assms] by (auto simp: pending_ok_def)
  then show ?thesis using Some by (simp add: confirmEntry_def Let_def)
qed (simp add: confirmEntry_def)

lemma disp_inv_confirm:
  assumes "disp_inv topology m C" "um_find C t = Some d"
  shows "fst (confirmEntry m (dd_corridor_resource_id d) t now) \<and>
    disp_inv topology (snd (confirmEntry m (dd_corridor_resource_id d) t now)) (um_erase t C)"
  using disp_invD [OF assms(1)] confirmEntry_frame [OF disp_inv_dm [OF assms(1)], of "dd_corridor_resource_id d" t now]
    cmds_okD [OF disp_inv_cmds [OF assms(1)] assms(2)]
    cmds_ok_remove [OF disp_inv_cmds [OF assms(1)] assms(2)] dm_inv_confirmEntry
  by (auto simp add: disp_inv_def movs_ok_def delete_conv')

lemma disp_inv_restorePending:
  assumes "disp_inv topology m C" "restorePending m d = Inr m'"
  shows "disp_inv topology m' (um_put (dd_train_id d) d C)"
proof -
  note inv = disp_invD [OF assms(1)]
  from assms(2) obtain co r where co: "um_find (dm_corridors m) (dd_corridor_resource_id d) = Some co"
      "\<not> co_command_pending co"
    and res: "tryReserveAtomically (dm_reservations m) (dd_train_id d)
      (dd_reserved_intersection_movement_ids d) (dd_issued_at_simulation_ms d) = Inr r"
    and m': "dm_reservations m' = r"
      "dm_pending_decisions m' = um_put (dd_corridor_resource_id d) d (dm_pending_decisions m)"
    by (auto simp: restorePending_def split: option.splits if_splits sum.splits)
  have "corridorState m (dd_corridor_resource_id d) = Some co" using co by (simp add: corridorState_def)
  then have none: "um_find (dm_pending_decisions m) (dd_corridor_resource_id d) = None"
    using pending_iff [OF inv(1)] co(2) by blast
  have "rm_movements r = dm_movements m"
    using tryReserve_effect [OF _ res] dm_inv_rm [OF inv(1)] by (simp add: rm_inv_def)
  then show ?thesis using cmds_ok_add [OF inv(3) none refl refl] dm_inv_restorePending [OF inv(1) assms(2)] inv(2) m'
    by (simp add: disp_inv_def movs_ok_def update_conv')
qed

lemma disp_inv_restoreActive:
  assumes "disp_inv topology m C" "restoreActive m d = Inr m'"
  shows "disp_inv topology m' C"
proof -
  from assms(2) obtain r where res: "tryReserveAtomically (dm_reservations m) (dd_train_id d)
      (dd_reserved_intersection_movement_ids d) (dd_issued_at_simulation_ms d) = Inr r"
    and m': "dm_reservations m' = r" "dm_pending_decisions m' = dm_pending_decisions m"
    by (auto simp: restoreActive_def split: option.splits if_splits sum.splits)
  have "rm_movements r = dm_movements m"
    using tryReserve_effect [OF _ res] dm_inv_rm [OF disp_inv_dm [OF assms(1)]] by (simp add: rm_inv_def)
  then show ?thesis using m' dm_inv_restoreActive [OF disp_inv_dm [OF assms(1)] assms(2)]
    by (intro disp_inv_same [OF assms(1)]) simp_all
qed

lemma disp_inv_replaceCandidates:
  "disp_inv topology m C \<Longrightarrow> disp_inv topology (snd (replaceCandidates m rid cands wall)) C"
  by (rule disp_inv_same, assumption, rule dm_inv_replaceCandidates, erule disp_inv_dm)
    (simp_all add: replaceCandidates_def split: option.split)

lemma disp_inv_markCorridorExited:
  "disp_inv topology m C \<Longrightarrow> disp_inv topology (snd (markCorridorExited m rid)) C"
  by (rule disp_inv_same, assumption, rule dm_inv_markCorridorExited, erule disp_inv_dm)
    (simp_all add: markCorridorExited_def split: option.split)

lemma disp_inv_markIntersectionCleared:
  assumes "disp_inv topology m C"
  shows "disp_inv topology (snd (markIntersectionCleared m i train now)) C"
proof (rule disp_inv_same [OF assms dm_inv_markIntersectionCleared [OF disp_inv_dm [OF assms]]])
  obtain ok r where r: "markCleared (dm_reservations m) i train now = (ok, r)" by fastforce
  have "rm_movements r = dm_movements m"
    using markCleared_effect [OF _ r] dm_inv_rm [OF disp_inv_dm [OF assms]] by (simp add: rm_inv_def)
  then show "dm_movements (snd (markIntersectionCleared m i train now)) = dm_movements m"
    by (simp add: markIntersectionCleared_def r)
qed (simp add: markIntersectionCleared_def case_prod_unfold Let_def)

subsection \<open>The rebuilt dispatch manager\<close>

lemma resourceId_inj: "resourceId a d = resourceId b e \<longleftrightarrow> a = b \<and> d = e"
  by (cases d; cases e) (simp_all add: resourceId_def)

lemma resource_of_inj:
  "resource_of res = resource_of res' \<longleftrightarrow> sd_corridor_id (fst res) = sd_corridor_id (fst res') \<and> snd res = snd res'"
  by (simp add: resource_of_def case_prod_unfold resourceId_inj)

text \<open>While the manager is rebuilt, its corridors are idle and named after their track and direction.\<close>

definition idle_corridors :: "dispatch_manager \<Rightarrow> bool" where
  "idle_corridors m \<longleftrightarrow> (\<forall>r co. um_find (dm_corridors m) r = Some co \<longrightarrow>
     r = resourceId (co_corridor_id co) (co_direction co) \<and> co_occupancy co = 0 \<and> \<not> co_command_pending co)"

definition registered :: "line_intersection_movement \<Rightarrow> bool" where
  "registered mv \<longleftrightarrow> mv_movement_id mv \<noteq> [] \<and> mv_intersection_id mv \<noteq> [] \<and> mv_line_id mv \<noteq> [] \<and>
     mv_incoming_route_segment_id mv \<noteq> [] \<and> mv_outgoing_route_segment_id mv \<noteq> []"

lemma register_movements:
  assumes "dm_inv True m" "\<And>i k. rm_active (dm_reservations m) i k = None" "dm_corridors m = []"
    and "dm_pending_decisions m = []"
  shows "let m' = foldl (\<lambda>m mv. snd (registerIntersectionMovement m mv)) m mvs
    in dm_inv True m' \<and> dm_corridors m' = [] \<and> dm_pending_decisions m' = [] \<and>
      (distinct (map mv_movement_id mvs) \<longrightarrow> (\<forall>mv \<in> set mvs. registered mv \<longrightarrow>
         um_find (dm_movements m') (mv_movement_id mv) = Some mv) \<and>
       (\<forall>k. k \<notin> mv_movement_id ` set mvs \<longrightarrow> um_find (dm_movements m') k = um_find (dm_movements m) k))"
  using assms
proof (induction mvs arbitrary: m)
  case Nil
  then show ?case by simp
next
  case (Cons mv mvs)
  define m1 where "m1 = snd (registerIntersectionMovement m mv)"
  obtain ok r where r: "registerMovement (dm_reservations m) mv = (ok, r)" by fastforce
  have ok: "ok = registered mv" using r by (auto simp: registerMovement_def registered_def split: if_splits)
  have m1: "dm_reservations m1 = r" "dm_corridors m1 = []" "dm_pending_decisions m1 = []"
    using Cons.prems by (simp_all add: m1_def registerIntersectionMovement_def r)
  have wf: "rm_wf (dm_reservations m)" using dm_inv_rm [OF Cons.prems(1)] by (simp add: rm_inv_def)
  note eff = registerMovement_effect [OF wf r]
  have inv: "dm_inv True m1" unfolding m1_def
    by (rule dm_inv_registerIntersectionMovement [OF Cons.prems(1)]) (rule Cons.prems(2))
  have "rm_active (dm_reservations m1) i k = None" for i k using eff Cons.prems(2) m1(1) by simp
  note IH = Cons.IH [OF inv this m1(2,3)]
  have look: "um_find (dm_movements m1) k =
      (if registered mv \<and> k = mv_movement_id mv then Some mv else um_find (dm_movements m) k)" for k
    using eff ok m1(1) by simp
  show ?case using IH by (auto simp: Let_def m1_def [symmetric] look)
qed

lemma upsertLineState_frame [simp]:
  "dm_reservations (upsertLineState m r l st) = dm_reservations m"
  "dm_corridors (upsertLineState m r l st) = dm_corridors m"
  "dm_pending_decisions (upsertLineState m r l st) = dm_pending_decisions m"
  by (simp_all add: upsertLineState_def)

lemma dm_inv_headway_line: "dm_inv True m \<Longrightarrow> dm_inv True (upsertLineState m r l (headway_line headways l))"
  by (erule dm_inv_upsertLineState)
    (simp add: credit_ok_def headway_line_def default_line_dispatch_state_def zero_double_def)

definition rebuilding :: "dispatch_manager \<Rightarrow> dispatch_manager \<Rightarrow> bool" where
  "rebuilding m0 m \<longleftrightarrow> dm_inv True m \<and> idle_corridors m \<and> dm_reservations m = dm_reservations m0 \<and>
     dm_pending_decisions m = []"

lemma rebuild_corridor:
  assumes "rebuilding m0 m"
  shows "rebuilding m0 (upsertCorridor m (rebuilt_state c wall res))"
proof -
  let ?co = "rebuilt_state c wall res"
  have inv: "dm_inv True m" and idle: "idle_corridors m" using assms by (simp_all add: rebuilding_def)
  have co: "co_corridor_resource_id ?co = resource_of res" "co_occupancy ?co = 0" "\<not> co_command_pending ?co"
    "co_corridor_id ?co = sd_corridor_id (fst res)" "co_direction ?co = snd res"
    by (simp_all add: rebuilt_state_def)
  have rid: "resource_of res = resourceId (sd_corridor_id (fst res)) (snd res)"
    by (simp add: resource_of_def case_prod_unfold)
  have "sd_corridor_id (fst res) = co_corridor_id e \<and> co_occupancy e = 0"
    if "um_find (dm_corridors m) (resource_of res) = Some e" for e
    using idle that by (metis idle_corridors_def rid resourceId_inj)
  then have "upsert_ok m ?co" by (auto simp: upsert_ok_def co split: option.split)
  then have "dm_inv True (upsertCorridor m ?co)" by (rule dm_inv_upsertCorridor [OF inv])
  moreover have "idle_corridors (upsertCorridor m ?co)"
    unfolding idle_corridors_def
  proof (intro allI impI)
    fix r c' assume c': "um_find (dm_corridors (upsertCorridor m ?co)) r = Some c'"
    show "r = resourceId (co_corridor_id c') (co_direction c') \<and> co_occupancy c' = 0 \<and> \<not> co_command_pending c'"
    proof (cases "resource_of res = [] \<or> r \<noteq> resource_of res")
      case True
      then have "um_find (dm_corridors m) r = Some c'" using c'
        by (auto simp: upsertCorridor_def co update_conv' Let_def split: if_splits)
      then show ?thesis using idle by (simp add: idle_corridors_def)
    next
      case False
      then have "co_corridor_id c' = sd_corridor_id (fst res) \<and> co_direction c' = snd res \<and>
          co_occupancy c' = 0 \<and> \<not> co_command_pending c'"
        using c' idle by (auto simp: upsertCorridor_def co update_conv' Let_def idle_corridors_def split: option.splits if_splits)
      then show ?thesis using False rid by simp
    qed
  qed
  ultimately show ?thesis using assms by (simp add: rebuilding_def upsertCorridor_def Let_def)
qed

lemma rebuilding_resource: "rebuilding m0 m \<Longrightarrow> rebuilding m0 (rebuild_resource c headways wall m res)"
  unfolding rebuild_resource_def
  by (rule foldl_invariant [where P = "rebuilding m0"], rule rebuild_corridor, assumption)
    (simp add: rebuilding_def dm_inv_headway_line idle_corridors_def)

lemma analysed_registered:
  assumes "tr_inv t" "mv \<in> set (la_movements (tr_analysis t))"
  shows "registered mv"
proof -
  obtain rs where rs: "analysis_ok rs (tr_analysis t)" "\<forall>s \<in> set rs. um_find (tr_routes t) (lr_line_id s) = Some s"
    using assms(1) by (auto simp: tr_inv_def)
  then have valid: "\<forall>s \<in> set rs. lr_line_id s \<noteq> []" using assms(1) by (auto simp: tr_inv_def valid_route_def)
  obtain i where i: "i \<in> set (la_intersections (tr_analysis t))" "mv = a_movement i \<or> mv = b_movement i"
    using rs(1) assms(2) by (auto simp: analysis_ok_def)
  then have "on_lines rs i" using rs(1) by (auto simp: analysis_ok_def)
  then have "li_line_a_id i \<noteq> [] \<and> li_line_b_id i \<noteq> [] \<and> li_intersection_id i \<noteq> [] \<and>
      li_line_a_movement_id i \<noteq> [] \<and> li_line_b_movement_id i \<noteq> []" using valid by (auto simp: on_lines_def)
  then show ?thesis using i(2) by (auto simp: registered_def a_movement_def b_movement_def routeSegmentId_def)
qed

lemma new_manager_empty:
  "new_dispatch_manager c = Inr m \<Longrightarrow> dm_inv True m \<and> (\<forall>i k. rm_active (dm_reservations m) i k = None) \<and>
     dm_corridors m = [] \<and> dm_pending_decisions m = []"
  by (rule conjI, rule dm_inv_start, unfold dm_start_def, erule exI)
    (auto simp: new_dispatch_manager_def new_reservation_manager_def rm_active_def split: sum.splits if_splits)

lemma rebuild_disp_inv:
  assumes "tr_inv t" "new_dispatch_manager c = Inr m0"
  shows "disp_inv t (rebuild_manager c (registry_snapshot t) wall m0) []"
proof -
  note new = new_manager_empty [OF assms(2)]
  define m1 where "m1 = foldl (\<lambda>m mv. snd (registerIntersectionMovement m mv)) m0 (la_movements (tr_analysis t))"
  note reg = register_movements [of m0 "la_movements (tr_analysis t)", unfolded m1_def [symmetric] Let_def]
  have "rebuilding m1 m1" using reg new by (simp add: rebuilding_def idle_corridors_def)
  then have "rebuilding m1 (foldl (rebuild_resource c h wall) m1 rs)" for h rs
    by (intro foldl_invariant [where P = "rebuilding m1"] rebuilding_resource)
  note this [of "headways_of (ts_routes (registry_snapshot t))" "resources_of (la_shared_corridors (tr_analysis t))"]
  then have r: "rebuilding m1 (rebuild_manager c (registry_snapshot t) wall m0)"
    by (simp add: rebuild_manager_def m1_def registry_snapshot_def)
  have "movs_ok t (rebuild_manager c (registry_snapshot t) wall m0)"
    using r reg new analysed_registered [OF assms(1)] by (simp add: movs_ok_def rebuilding_def Let_def)
  then show ?thesis using r by (simp add: disp_inv_def rebuilding_def cmds_ok_def)
qed

subsection \<open>The invariant of the service\<close>

definition config_ok :: "railway_dispatch_service_config \<Rightarrow> bool" where
  "config_ok c \<longleftrightarrow> (\<exists>m. new_dispatch_manager (rc_dispatch c) = Inr m)"

definition svc_inv :: "railway_service \<Rightarrow> bool" where
  "svc_inv s \<longleftrightarrow> config_ok (sv_config s) \<and> mon_inv (sv_trains s) \<and> tr_inv (sv_topology s) \<and>
     um_wf (sv_commands s) \<and> disp_inv (sv_topology s) (sv_dispatch s) (sv_commands s)"

lemma svc_invD:
  assumes "svc_inv s"
  shows svc_config: "config_ok (sv_config s)" and svc_mon: "mon_inv (sv_trains s)"
    and svc_top: "tr_inv (sv_topology s)" and svc_wf: "um_wf (sv_commands s)"
    and svc_disp: "disp_inv (sv_topology s) (sv_dispatch s) (sv_commands s)"
  using assms by (simp_all add: svc_inv_def)

text \<open>Changes of the fields the invariant does not read.\<close>

lemma svc_inv_update [simp]:
  "svc_inv (s\<lparr>sv_builder := b\<rparr>) = svc_inv s" "svc_inv (s\<lparr>sv_planner := pc\<rparr>) = svc_inv s"
  "svc_inv (s\<lparr>sv_active := a\<rparr>) = svc_inv s" "svc_inv (s\<lparr>sv_plan := p\<rparr>) = svc_inv s"
  "svc_inv (s\<lparr>sv_last_snapshot := n\<rparr>) = svc_inv s" "svc_inv (s\<lparr>sv_next_command_id := n\<rparr>) = svc_inv s"
  "svc_inv (s\<lparr>sv_persistence := h\<rparr>) = svc_inv s"
  "svc_inv (s\<lparr>sv_healthy := h\<rparr>) = svc_inv s" "svc_inv (s\<lparr>sv_error := e\<rparr>) = svc_inv s"
  by (simp_all add: svc_inv_def)

lemma svc_inv_trains: "svc_inv s \<Longrightarrow> mon_inv ts \<Longrightarrow> svc_inv (s\<lparr>sv_trains := ts\<rparr>)"
  by (simp add: svc_inv_def)

lemma svc_inv_dispatch:
  "svc_inv s \<Longrightarrow> disp_inv (sv_topology s) m (sv_commands s) \<Longrightarrow> svc_inv (s\<lparr>sv_dispatch := m\<rparr>)"
  by (simp add: svc_inv_def)

lemma svc_inv_commands:
  "svc_inv s \<Longrightarrow> um_wf C \<Longrightarrow> disp_inv (sv_topology s) m C \<Longrightarrow>
   svc_inv (s\<lparr>sv_dispatch := m, sv_commands := C\<rparr>)"
  by (simp add: svc_inv_def)

lemma svc_inv_note [simp]: "svc_inv (note_answer a s) = svc_inv s"
  by (simp add: note_answer_def split: option.split)

subsection \<open>Every operation keeps the invariant\<close>

lemma new_registry_empty:
  "new_line_topology_registry c = Inr t \<Longrightarrow> tr_inv t \<and> la_movements (tr_analysis t) = []"
  by (rule conjI, rule tr_inv_start, unfold tr_start_def, erule exI)
    (auto simp: new_line_topology_registry_def empty_analysis_def split: sum.splits)

lemma svc_inv_service_of:
  assumes "new_line_topology_registry (rc_route_analysis c) = Inr t" "new_dispatch_manager (rc_dispatch c) = Inr m"
  shows "svc_inv (service_of c t b p m)"
  using new_registry_empty [OF assms(1)] new_manager_empty [OF assms(2)] assms(2)
  by (simp add: service_of_def svc_inv_def config_ok_def mon_inv_def disp_inv_def movs_ok_def cmds_ok_def)

lemma svc_inv_new: "new_railway_service = Inr s \<Longrightarrow> svc_inv s"
  by (auto simp: new_railway_service_def Let_def intro: svc_inv_service_of split: sum.splits)

lemma svc_inv_configure:
  assumes "configure s c = Done u s'"
  shows "svc_inv s'"
proof -
  obtain t b p m where "new_line_topology_registry (rc_route_analysis c) = Inr t"
    and m: "new_dispatch_manager (rc_dispatch c) = Inr m"
    and s': "s' = s\<lparr>sv_config := c, sv_trains := monitor_clear (sv_trains s), sv_topology := t, sv_builder := b,
       sv_planner := p, sv_dispatch := m, sv_commands := [], sv_active := [], sv_plan := empty_plan,
       sv_last_snapshot := 0, sv_next_command_id := 1, sv_healthy := True, sv_error := []\<rparr>"
    using assms by (auto simp: configure_def Let_def split: sum.splits if_splits)
  then have "svc_inv (service_of c t b p m)" by (intro svc_inv_service_of)
  then show ?thesis by (simp add: s' service_of_def svc_inv_def monitor_clear_def)
qed

lemma svc_inv_rebuild:
  assumes "svc_inv s" "tr_inv t" "mon_inv ts"
  shows "\<exists>s'. rebuildDispatchManagerLocked (s\<lparr>sv_topology := t, sv_commands := [], sv_trains := ts\<rparr>) wall = Inr s' \<and>
    svc_inv s'"
proof -
  obtain m0 where m0: "new_dispatch_manager (rc_dispatch (sv_config s)) = Inr m0"
    using svc_config [OF assms(1)] by (auto simp: config_ok_def)
  show ?thesis using rebuild_disp_inv [OF assms(2) m0, of wall] assms svc_config [OF assms(1)]
    by (simp add: rebuildDispatchManagerLocked_def m0 svc_inv_def)
qed

lemma svc_inv_setPhase: "svc_inv s \<Longrightarrow> svc_inv (s\<lparr>sv_trains := snd (setPhase (sv_trains s) t ph r)\<rparr>)"
  by (rule svc_inv_trains) (simp_all add: mon_inv_setPhase svc_mon)

lemma svc_inv_reset:
  assumes "svc_inv s" "tr_inv t"
  shows "\<exists>s'. rebuildDispatchManagerLocked (reset_runtime (s\<lparr>sv_topology := t\<rparr>)) wall = Inr s' \<and> svc_inv s'"
proof -
  let ?s1 = "s\<lparr>sv_active := [], sv_plan := empty_plan, sv_builder := builder_clear (sv_builder s)\<rparr>"
  have "mon_inv (foldl (\<lambda>ts m. snd (setPhase ts (tt_train_id (mt_telemetry m)) MONITORED []))
       (sv_trains s) (monitor_snapshot (sv_trains s)))"
    by (rule foldl_invariant [where P = mon_inv]) (simp_all add: svc_mon [OF assms(1)] mon_inv_setPhase)
  note svc_inv_rebuild [of ?s1, OF _ assms(2) this, of wall]
  moreover have "reset_runtime (s\<lparr>sv_topology := t\<rparr>) = ?s1\<lparr>sv_topology := t, sv_commands := [],
      sv_trains := foldl (\<lambda>ts m. snd (setPhase ts (tt_train_id (mt_telemetry m)) MONITORED []))
       (sv_trains s) (monitor_snapshot (sv_trains s))\<rparr>"
    by (cases s) (simp add: reset_runtime_def)
  ultimately show ?thesis using assms(1) by simp
qed

lemma svc_inv_service_replaceRoutes:
  assumes "service_replaceRoutes acos a s routes wall = Done r s'" "svc_inv s"
  shows "svc_inv s'"
proof (cases "replaceRoutes acos (sv_topology s) routes")
  case (Some res)
  obtain answer t where res: "res = (answer, t)" by fastforce
  have "tr_inv t" using tr_inv_replace svc_top [OF assms(2)] Some res by blast
  note reset = svc_inv_reset [OF assms(2) this, of wall]
  show ?thesis
  proof (cases answer)
    case None
    with reset show ?thesis using assms Some res
      by (auto simp: service_replaceRoutes_def Let_def split: if_splits)
  next
    case (Some e)
    then have "t = sv_topology s" using replaceRoutes_refused \<open>replaceRoutes _ _ _ = Some res\<close> res by blast
    then show ?thesis using assms Some \<open>replaceRoutes _ _ _ = Some res\<close> res
      by (auto simp: service_replaceRoutes_def Let_def split: if_splits)
  qed
qed (use assms in \<open>auto simp: service_replaceRoutes_def Let_def split: if_splits\<close>)

lemma svc_inv_restorePendingCommands:
  "svc_inv s \<Longrightarrow> (case restorePendingCommands revision s ds of Inl (e, s') \<Rightarrow> svc_inv s' | Inr s' \<Rightarrow> svc_inv s')"
proof (induction ds arbitrary: s)
  case (Cons d ds)
  show ?case
  proof (cases "restorePending (sv_dispatch s) d")
    case (Inr m)
    note disp_inv_restorePending [OF svc_disp [OF Cons.prems] Inr]
    then have "svc_inv (s\<lparr>sv_dispatch := m, sv_commands := um_put (dd_train_id d) d (sv_commands s)\<rparr>)"
      by (intro svc_inv_commands [OF Cons.prems] um_wf_put svc_wf [OF Cons.prems])
    from Cons.IH [OF this] show ?thesis using Inr Cons.prems by simp
  qed (use Cons.prems in simp)
qed simp

lemma svc_inv_restoreActiveCommands:
  "svc_inv s \<Longrightarrow> (case restoreActiveCommands revision s ds of Inl (e, s') \<Rightarrow> svc_inv s' | Inr s' \<Rightarrow> svc_inv s')"
proof (induction ds arbitrary: s)
  case (Cons d ds)
  show ?case
  proof (cases "restoreActive (sv_dispatch s) d")
    case (Inr m)
    note disp_inv_restoreActive [OF svc_disp [OF Cons.prems] Inr]
    then have "svc_inv (s\<lparr>sv_dispatch := m\<rparr>)" by (rule svc_inv_dispatch [OF Cons.prems])
    then have "svc_inv (s\<lparr>sv_dispatch := m, sv_active := um_put (dd_train_id d) d (sv_active s)\<rparr>)" by simp
    from Cons.IH [OF this] show ?thesis using Inr Cons.prems by simp
  qed (use Cons.prems in simp)
qed simp

lemma svc_inv_restoreCommands:
  assumes "restoreCommands recovery s = Done r s'" "svc_inv s"
  shows "svc_inv s'"
proof (cases "restorePendingCommands (rs_topology_revision recovery) s (rs_pending_commands recovery)")
  case (Inl e)
  then show ?thesis using assms svc_inv_restorePendingCommands [OF assms(2), of "rs_topology_revision recovery"
      "rs_pending_commands recovery"] by (auto simp: restoreCommands_def split: prod.splits)
next
  case (Inr s1)
  then have "svc_inv s1" using svc_inv_restorePendingCommands [OF assms(2), of "rs_topology_revision recovery"
      "rs_pending_commands recovery"] by simp
  from svc_inv_restoreActiveCommands [OF this, of "rs_topology_revision recovery" "rs_active_commands recovery"]
  show ?thesis using assms(1) Inr by (auto simp: restoreCommands_def split: prod.splits sum.splits)
qed

lemma svc_inv_enable:
  assumes "enablePersistence acos p s wall = Done r s'" "svc_inv s" "sv_commands s = []"
  shows "svc_inv s'"
proof (cases "\<exists>recovery. p = Some (Inr recovery) \<and> rs_routes recovery \<noteq> []")
  case False
  then show ?thesis using assms by (cases p)
      (auto simp: enablePersistence_def split: sum.splits if_splits intro: svc_inv_restoreCommands)
next
  case True
  then obtain recovery where p: "p = Some (Inr recovery)" "rs_routes recovery \<noteq> []" by blast
  show ?thesis
  proof (cases "restoreRoutes acos (sv_topology s) (rs_routes recovery) (rs_topology_revision recovery)")
    case (Some res)
    obtain answer t where res: "res = (answer, t)" by fastforce
    have t: "restoreRoutes acos (sv_topology s) (rs_routes recovery) (rs_topology_revision recovery) = Some (answer, t)"
      using Some res by simp
    show ?thesis
    proof (cases answer)
      case None
      have "tr_inv t" using tr_inv_step [OF tr_restore] svc_top [OF assms(2)] t by blast
      moreover have "s\<lparr>sv_topology := t\<rparr> = s\<lparr>sv_topology := t, sv_commands := [], sv_trains := sv_trains s\<rparr>"
        using assms(3) by (cases s) simp
      ultimately obtain s1 where "rebuildDispatchManagerLocked (s\<lparr>sv_topology := t\<rparr>) wall = Inr s1" "svc_inv s1"
        using svc_inv_rebuild [OF assms(2) _ svc_mon [OF assms(2)], of t wall] by auto
      then show ?thesis using assms(1) p t None
        by (auto simp: enablePersistence_def intro: svc_inv_restoreCommands)
    next
      case (Some e)
      then have "t = sv_topology s" using restoreRoutes_refused t by blast
      then show ?thesis using assms p t Some by (auto simp: enablePersistence_def)
    qed
  qed (use assms p in \<open>auto simp: enablePersistence_def\<close>)
qed

lemma svc_inv_drop: "svc_inv s \<Longrightarrow> svc_inv (drop_command s t)"
  by (auto simp: drop_command_def intro!: svc_inv_commands disp_inv_cancel svc_wf svc_disp split: option.split)

lemma svc_inv_cleanup:
  assumes "svc_inv s"
  shows "svc_inv (cleanupStaleLocked s wall)"
proof -
  have "mon_inv (snd (removeStale (sv_trains s) wall stale))" for stale
    using svc_mon [OF assms] um_find_removeStale [of "sv_trains s"]
    by (auto simp: mon_inv_def removeStale_def split: option.splits if_splits)
  then show ?thesis using assms unfolding cleanupStaleLocked_def
    by (auto simp: case_prod_unfold Let_def cleanupTrain_def
        intro!: foldl_invariant [where P = svc_inv] svc_inv_trains svc_inv_drop)
qed

lemma svc_inv_plan_resource:
  assumes "svc_inv (fst st)"
  shows "svc_inv (fst (plan_resource now wall st res))"
proof -
  obtain s issued where st: "st = (s, issued)" by fastforce
  have inv: "svc_inv s" using assms st by simp
  obtain d m where p: "planNext (sv_dispatch s) (resource_of res) now wall = (d, m)" by fastforce
  note dp = disp_inv_planNext [OF svc_disp [OF inv] p]
  let ?c = "make_command (s\<lparr>sv_dispatch := m\<rparr>) now (fst res) d"
  have c: "dd_train_id ?c = dd_train_id d" "dd_corridor_resource_id ?c = dd_corridor_resource_id d"
    by (simp_all add: make_command_def route_bounds_def member_bounds_def Let_def split: option.split)
  show ?thesis
  proof (cases "dd_action d = RELEASE \<and> um_find (sv_commands s) (dd_train_id d) = None")
    case True
    have "dd_corridor_resource_id d = resource_of res"
      using planNext_pending [OF disp_inv_dm [OF svc_disp [OF inv]] p] True by simp
    then have "svc_inv (s\<lparr>sv_dispatch := m, sv_commands := um_put (dd_train_id d) ?c (sv_commands s)\<rparr>)"
      using True c by (intro svc_inv_commands [OF inv] um_wf_put svc_wf [OF inv] dp(2)) simp_all
    note svc_inv_setPhase [OF this, of "dd_train_id d" RELEASE_PENDING "resource_of res"]
    then show ?thesis using True st p by (simp add: plan_resource_def issue_command_def svc_inv_def Let_def)
  next
    case False
    then show ?thesis using svc_inv_dispatch [OF inv dp(1)] st p by (auto simp: plan_resource_def)
  qed
qed

lemma svc_inv_offer: "svc_inv s \<Longrightarrow> svc_inv (offer_all built wall s)"
proof -
  assume inv: "svc_inv s"
  have "disp_inv (sv_topology s) (foldl (offer_candidates built wall) (sv_dispatch s) (service_resources s)) (sv_commands s)"
    by (rule foldl_invariant [where P = "\<lambda>m. disp_inv (sv_topology s) m (sv_commands s)"])
      (simp_all add: svc_disp [OF inv] offer_candidates_def disp_inv_replaceCandidates)
  moreover have "mon_inv (set_phases built (sv_trains s))" unfolding set_phases_def
    by (rule foldl_invariant [where P = mon_inv]) (auto simp: svc_mon [OF inv] mon_inv_setPhase)
  ultimately show ?thesis using inv by (simp add: offer_all_def svc_inv_def)
qed

lemma svc_inv_refresh:
  assumes "refreshCandidatesAndPlanLocked s now wall = Some (s', issued)" "svc_inv s"
  shows "svc_inv s'"
proof -
  obtain plan built b where s': "foldl (plan_resource now wall)
      (offer_all built wall (s\<lparr>sv_plan := plan, sv_builder := b\<rparr>), []) (service_resources s) = (s', issued)"
    using assms(1) by (auto simp: refreshCandidatesAndPlanLocked_def Let_def split: option.splits)
  have "svc_inv (fst (foldl (plan_resource now wall)
      (offer_all built wall (s\<lparr>sv_plan := plan, sv_builder := b\<rparr>), []) (service_resources s)))"
    by (rule foldl_invariant [where P = "\<lambda>st. svc_inv (fst st)"])
      (simp_all add: svc_inv_offer assms(2) svc_inv_plan_resource)
  then show ?thesis by (simp add: s')
qed

text \<open>
  The commands of a planning round are new: each is for a train that had none, is numbered by
  the counter and backed by the release just planned. \<open>s0\<close> is the state before the round.
\<close>

definition round_inv ::
    "railway_service \<Rightarrow> u64 \<Rightarrow> railway_service \<times> dispatch_decision list \<Rightarrow> bool" where
  "round_inv s0 now = (\<lambda>(s, issued). svc_inv s \<and>
     sv_topology s = sv_topology s0 \<and> sv_config s = sv_config s0 \<and> sv_active s = sv_active s0 \<and>
     sv_persistence s = sv_persistence s0 \<and>
     sv_next_command_id s = sv_next_command_id s0 + of_nat (length issued) \<and>
     map dd_command_id issued = map (\<lambda>k. command_text (sv_next_command_id s0 + of_nat k)) [0..<length issued] \<and>
     distinct (map dd_train_id issued) \<and>
     (\<forall>d \<in> set issued. um_find (sv_commands s0) (dd_train_id d) = None \<and>
        dd_action d = RELEASE \<and> dd_issued_at_simulation_ms d = now \<and>
        dd_topology_revision d = tr_revision (sv_topology s0)) \<and>
     (\<forall>t. um_find (sv_commands s) t = (case find (\<lambda>d. dd_train_id d = t) issued of
        Some d \<Rightarrow> Some d | None \<Rightarrow> um_find (sv_commands s0) t)))"

lemma make_command_sel [simp]:
  "dd_train_id (make_command s now c d) = dd_train_id d"
  "dd_corridor_resource_id (make_command s now c d) = dd_corridor_resource_id d"
  "dd_action (make_command s now c d) = dd_action d"
  "dd_reserved_intersection_movement_ids (make_command s now c d) = dd_reserved_intersection_movement_ids d"
  "dd_command_id (make_command s now c d) = command_text (sv_next_command_id s)"
  "dd_topology_revision (make_command s now c d) = tr_revision (sv_topology s)"
  "dd_issued_at_simulation_ms (make_command s now c d) = now"
  by (simp_all add: make_command_def route_bounds_def member_bounds_def Let_def split: option.split)

lemma find_append: "find P (xs @ ys) = (case find P xs of None \<Rightarrow> find P ys | Some x \<Rightarrow> Some x)"
  by (induction xs) auto

lemma find_train_None: "find (\<lambda>d. dd_train_id d = t) ds = None \<longleftrightarrow> t \<notin> dd_train_id ` set ds"
  by (auto simp: find_None_iff)

lemma round_inv_step:
  assumes "round_inv s0 now st"
  shows "round_inv s0 now (plan_resource now wall st res)"
proof -
  obtain s issued where st: "st = (s, issued)" by fastforce
  note inv = assms [unfolded st round_inv_def prod.case]
  have svc: "svc_inv (fst (plan_resource now wall (s, issued) res))"
    by (rule svc_inv_plan_resource) (use inv in simp)
  obtain d m where p: "planNext (sv_dispatch s) (resource_of res) now wall = (d, m)" by fastforce
  show ?thesis
  proof (cases "dd_action d = RELEASE \<and> um_find (sv_commands s) (dd_train_id d) = None")
    case False
    then have "plan_resource now wall (s, issued) res = (s\<lparr>sv_dispatch := m\<rparr>, issued)"
      by (auto simp: plan_resource_def p Let_def)
    then show ?thesis unfolding st round_inv_def using svc inv by simp
  next
    case True
    let ?c = "make_command (s\<lparr>sv_dispatch := m\<rparr>) now (fst res) d"
    have r: "plan_resource now wall (s, issued) res =
        (issue_command (s\<lparr>sv_dispatch := m\<rparr>) now res d, issued @ [?c])"
      using True by (simp add: plan_resource_def p Let_def)
    have "find (\<lambda>e. dd_train_id e = dd_train_id d) issued = None"
      "um_find (sv_commands s0) (dd_train_id d) = None"
      using inv [THEN conjunct2, THEN conjunct2, THEN conjunct2, THEN conjunct2, THEN conjunct2, THEN conjunct2,
          THEN conjunct2, THEN conjunct2, THEN conjunct2, rule_format, of "dd_train_id d"] True
      by (auto split: option.splits)
    then have fresh: "dd_train_id d \<notin> dd_train_id ` set issued" "um_find (sv_commands s0) (dd_train_id d) = None"
      by (simp_all add: find_train_None)
    have "um_find (um_put (dd_train_id d) ?c (sv_commands s)) t =
        (case find (\<lambda>d. dd_train_id d = t) (issued @ [?c]) of
        Some d \<Rightarrow> Some d | None \<Rightarrow> um_find (sv_commands s0) t)" for t
      using inv fresh by (auto simp: find_append umap_simps find_train_None split: option.splits)
    then show ?thesis unfolding st r round_inv_def prod.case
      using svc [unfolded r fst_conv] inv True fresh by (auto simp: issue_command_def)
  qed
qed

lemma offer_all_frame [simp]:
  "sv_topology (offer_all built wall s) = sv_topology s" "sv_config (offer_all built wall s) = sv_config s"
  "sv_active (offer_all built wall s) = sv_active s" "sv_commands (offer_all built wall s) = sv_commands s"
  "sv_next_command_id (offer_all built wall s) = sv_next_command_id s"
  "sv_persistence (offer_all built wall s) = sv_persistence s"
  by (simp_all add: offer_all_def)

lemma round_inv_refresh:
  assumes "refreshCandidatesAndPlanLocked s now wall = Some (s', issued)" "svc_inv s"
  shows "round_inv s now (s', issued)"
proof -
  obtain plan built b where s': "foldl (plan_resource now wall)
      (offer_all built wall (s\<lparr>sv_plan := plan, sv_builder := b\<rparr>), []) (service_resources s) = (s', issued)"
    using assms(1) by (auto simp: refreshCandidatesAndPlanLocked_def Let_def split: option.splits)
  have "round_inv s now (foldl (plan_resource now wall)
      (offer_all built wall (s\<lparr>sv_plan := plan, sv_builder := b\<rparr>), []) (service_resources s))"
    by (rule foldl_invariant [where P = "round_inv s now"])
      (simp_all add: round_inv_step, simp add: round_inv_def svc_inv_offer assms(2))
  then show ?thesis by (simp add: s')
qed

lemma round_inv_commands:
  "round_inv s0 now (s, issued) \<Longrightarrow> d \<in> set issued \<Longrightarrow> um_find (sv_commands s) (dd_train_id d) = Some d"
proof -
  assume inv: "round_inv s0 now (s, issued)" and d: "d \<in> set issued"
  then have dist: "distinct (map dd_train_id issued)" by (simp add: round_inv_def)
  obtain e where e: "find (\<lambda>e. dd_train_id e = dd_train_id d) issued = Some e"
    using d find_train_None [of "dd_train_id d" issued] by (cases "find (\<lambda>e. dd_train_id e = dd_train_id d) issued") auto
  then have "e \<in> set issued" "dd_train_id e = dd_train_id d" by (auto simp: find_Some_iff)
  then have "e = d" using dist d by (metis distinct_map inj_onD)
  then show ?thesis using inv e by (simp add: round_inv_def)
qed

lemma svc_inv_withdraw:
  "svc_inv s \<Longrightarrow> um_find (sv_commands s) (dd_train_id d) = Some d \<Longrightarrow> svc_inv (withdraw_command s d)"
  by (auto simp: withdraw_command_def intro!: svc_inv_commands disp_inv_cancel svc_wf svc_disp)

lemma withdraw_all:
  assumes "svc_inv s" "distinct (map dd_train_id ds)"
    and "\<And>d. d \<in> set ds \<Longrightarrow> um_find (sv_commands s) (dd_train_id d) = Some d"
  shows "let s' = foldl withdraw_command s ds in svc_inv s' \<and>
    (\<forall>t. um_find (sv_commands s') t = (if t \<in> dd_train_id ` set ds then None else um_find (sv_commands s) t)) \<and>
    (\<forall>r. um_find (dm_pending_decisions (sv_dispatch s')) r =
       (if r \<in> dd_corridor_resource_id ` set ds then None else um_find (dm_pending_decisions (sv_dispatch s)) r)) \<and>
    sv_active s' = sv_active s \<and> sv_topology s' = sv_topology s \<and> sv_healthy s' = sv_healthy s \<and>
    sv_error s' = sv_error s"
  using assms
proof (induction ds arbitrary: s)
  case (Cons d ds)
  have inv: "svc_inv (withdraw_command s d)"
    by (rule svc_inv_withdraw [OF Cons.prems(1)]) (use Cons.prems(3) in simp)
  have rest: "um_find (sv_commands (withdraw_command s d)) (dd_train_id e) = Some e" if e: "e \<in> set ds" for e
  proof -
    have "dd_train_id d \<notin> dd_train_id ` set ds" using Cons.prems(2) by simp
    then have "dd_train_id e \<noteq> dd_train_id d" using e by (metis imageI)
    then show ?thesis using Cons.prems(3) [of e] e by (simp add: withdraw_command_def umap_simps)
  qed
  have frame: "um_find (sv_commands (withdraw_command s d)) t =
      (if t = dd_train_id d then None else um_find (sv_commands s) t)"
    "um_find (dm_pending_decisions (sv_dispatch (withdraw_command s d))) r =
      (if r = dd_corridor_resource_id d then None else um_find (dm_pending_decisions (sv_dispatch s)) r)"
    "sv_active (withdraw_command s d) = sv_active s" "sv_topology (withdraw_command s d) = sv_topology s"
    "sv_healthy (withdraw_command s d) = sv_healthy s" "sv_error (withdraw_command s d) = sv_error s" for t r
    using cancelPending_frame by (simp_all add: withdraw_command_def umap_simps)
  have "distinct (map dd_train_id ds)" using Cons.prems(2) by simp
  from Cons.IH [OF inv this rest] show ?case by (auto simp: frame Let_def)
qed simp

lemma note_answer_sel [simp]:
  "sv_topology (note_answer a s) = sv_topology s" "sv_config (note_answer a s) = sv_config s"
  "sv_active (note_answer a s) = sv_active s" "sv_commands (note_answer a s) = sv_commands s"
  "sv_dispatch (note_answer a s) = sv_dispatch s" "sv_trains (note_answer a s) = sv_trains s"
  "sv_builder (note_answer a s) = sv_builder s" "sv_persistence (note_answer a s) = sv_persistence s"
  "sv_next_command_id (note_answer a s) = sv_next_command_id s"
  "sv_healthy (note_answer a s) = (a = None)" "sv_error (note_answer a s) = (case a of None \<Rightarrow> [] | Some e \<Rightarrow> e)"
  by (simp_all add: note_answer_def split: option.split)

text \<open>The trains a cleanup removes, and what it leaves.\<close>

definition stale_trains :: "railway_service \<Rightarrow> u64 \<Rightarrow> string set" where
  "stale_trains s wall = {t. \<exists>m. um_find (sv_trains s) t = Some m \<and>
     telemetryStale wall (rc_train_stale_wall_ms (sv_config s)) m}"

lemma cleanupTrain_frame [simp]:
  "sv_topology (cleanupTrain s t) = sv_topology s" "sv_config (cleanupTrain s t) = sv_config s"
  "sv_active (cleanupTrain s t) = sv_active s" "sv_trains (cleanupTrain s t) = sv_trains s"
  "sv_next_command_id (cleanupTrain s t) = sv_next_command_id s"
  "sv_persistence (cleanupTrain s t) = sv_persistence s"
  "um_find (sv_commands (cleanupTrain s t)) k = (if k = t then None else um_find (sv_commands s) k)"
  by (auto simp: cleanupTrain_def drop_command_def umap_simps split: option.split)

lemma cleanup_fold:
  "let s' = foldl cleanupTrain s ts in sv_topology s' = sv_topology s \<and> sv_config s' = sv_config s \<and>
     sv_active s' = sv_active s \<and> sv_trains s' = sv_trains s \<and>
     sv_next_command_id s' = sv_next_command_id s \<and> sv_persistence s' = sv_persistence s \<and>
     (\<forall>k. um_find (sv_commands s') k = (if k \<in> set ts then None else um_find (sv_commands s) k))"
  by (induction ts arbitrary: s) (auto simp: Let_def)

lemma cleanup_frame:
  assumes "mon_inv (sv_trains s)"
  shows "let s' = cleanupStaleLocked s wall in sv_topology s' = sv_topology s \<and> sv_config s' = sv_config s \<and>
     sv_active s' = sv_active s \<and> sv_next_command_id s' = sv_next_command_id s \<and>
     sv_persistence s' = sv_persistence s \<and>
     (\<forall>k. um_find (sv_commands s') k = (if k \<in> stale_trains s wall then None else um_find (sv_commands s) k))"
proof -
  have "set (fst (removeStale (sv_trains s) wall (rc_train_stale_wall_ms (sv_config s)))) = stale_trains s wall"
    using um_mem_iff [OF mon_inv_wf [OF assms]] by (force simp: removeStale_def stale_trains_def)
  then show ?thesis using cleanup_fold [of "s\<lparr>sv_trains := snd (removeStale (sv_trains s) wall
      (rc_train_stale_wall_ms (sv_config s)))\<rparr>" "fst (removeStale (sv_trains s) wall (rc_train_stale_wall_ms (sv_config s)))"]
    by (simp add: cleanupStaleLocked_def case_prod_unfold Let_def)
qed

text \<open>The state an update plans in: the batch is stored and the stale trains are gone.\<close>

definition before_planning :: "railway_service \<Rightarrow> train_telemetry list \<Rightarrow> u64 \<Rightarrow> railway_service" where
  "before_planning s trains wall = cleanupStaleLocked
     (s\<lparr>sv_last_snapshot := wall, sv_trains := snd (upsertBatch (sv_trains s) trains)\<rparr>) wall"

lemma updateTrains_cases:
  assumes "updateTrains answer s trains now wall = Done r s'" "svc_inv s"
  obtains s2 issued where "svc_inv (before_planning s trains wall)"
    "round_inv (before_planning s trains wall) now (s2, issued)"
    "finish_update answer (fst (upsertBatch (sv_trains s) trains)) s2 issued = (r, s')"
proof -
  have inv: "svc_inv (before_planning s trains wall)" unfolding before_planning_def
    using assms(2) svc_inv_trains [OF assms(2) mon_inv_upsertBatch [OF svc_mon [OF assms(2)]]]
    by (intro svc_inv_cleanup) (simp add: svc_inv_def)
  obtain s2 issued where "refreshCandidatesAndPlanLocked (before_planning s trains wall) now wall = Some (s2, issued)"
    "finish_update answer (fst (upsertBatch (sv_trains s) trains)) s2 issued = (r, s')"
    using assms(1) by (auto simp: updateTrains_def before_planning_def case_prod_unfold Let_def split: option.splits prod.splits)
  then show ?thesis using that inv round_inv_refresh [OF _ inv] by blast
qed

lemma before_planning_frame:
  assumes "svc_inv s"
  shows "let s' = before_planning s trains wall in sv_topology s' = sv_topology s \<and> sv_config s' = sv_config s \<and>
     sv_active s' = sv_active s \<and> sv_next_command_id s' = sv_next_command_id s \<and>
     sv_persistence s' = sv_persistence s \<and>
     (\<forall>k. um_find (sv_commands s') k = (if k \<in> stale_trains (s\<lparr>sv_trains := snd (upsertBatch (sv_trains s) trains)\<rparr>) wall
        then None else um_find (sv_commands s) k))"
  using cleanup_frame [of "s\<lparr>sv_last_snapshot := wall, sv_trains := snd (upsertBatch (sv_trains s) trains)\<rparr>" wall]
    mon_inv_upsertBatch [OF svc_mon [OF assms]]
  by (auto simp add: before_planning_def stale_trains_def Let_def)

lemma svc_inv_updateTrains:
  assumes "updateTrains answer s trains now wall = Done r s'" "svc_inv s"
  shows "svc_inv s'"
proof -
  obtain s2 issued where r: "round_inv (before_planning s trains wall) now (s2, issued)"
    and f: "finish_update answer (fst (upsertBatch (sv_trains s) trains)) s2 issued = (r, s')"
    by (rule updateTrains_cases [OF assms])
  have "svc_inv s2" "distinct (map dd_train_id issued)" using r by (simp_all add: round_inv_def)
  then show ?thesis using f withdraw_all [of "note_answer (Some e)  s2" issued for e] round_inv_commands [OF r]
    by (cases answer) (auto simp: finish_update_def Let_def split: if_splits)
qed

text \<open>Acknowledgements. With the invariant, an acknowledgement that matches its command goes through.\<close>

lemma ack_refused_iff:
  "\<not> ack_refused s rid t cid \<longleftrightarrow> (\<exists>d. um_find (sv_commands s) t = Some d \<and>
     dd_corridor_resource_id d = rid \<and> (cid = [] \<or> dd_command_id d = cid))"
  by (auto simp: ack_refused_def split: option.split)

lemma finish_ack_ok:
  assumes "svc_inv s" "um_find (sv_commands s) t = Some d"
  shows "\<exists>s'. finish_ack s (dd_corridor_resource_id d) t accepted now = (True, s') \<and> svc_inv s' \<and>
    sv_commands s' = um_erase t (sv_commands s) \<and> sv_topology s' = sv_topology s \<and>
    sv_active s' = (if accepted then um_put t d (sv_active s) else sv_active s) \<and>
    sv_dispatch s' = snd (if accepted then confirmEntry (sv_dispatch s) (dd_corridor_resource_id d) t now
      else cancelPending (sv_dispatch s) (dd_corridor_resource_id d)) \<and>
    sv_trains s' = snd (setPhase (sv_trains s) t (if accepted then INSIDE_RESOURCE else MONITORED)
      (if accepted then dd_corridor_resource_id d else [])) \<and>
    sv_healthy s' = sv_healthy s \<and> sv_error s' = sv_error s"
proof -
  note disp = svc_disp [OF assms(1)]
  obtain p where p: "um_find (dm_pending_decisions (sv_dispatch s)) (dd_corridor_resource_id d) = Some p"
    using cmds_okD [OF disp_inv_cmds [OF disp] assms(2)] by blast
  define r where "r = (if accepted then confirmEntry (sv_dispatch s) (dd_corridor_resource_id d) t now
      else cancelPending (sv_dispatch s) (dd_corridor_resource_id d))"
  have ok: "fst r" unfolding r_def
    using disp_inv_confirm [OF disp assms(2)] cancelPending_frame [of "sv_dispatch s" "dd_corridor_resource_id d"] p by simp
  have inv: "disp_inv (sv_topology s) (snd r) (um_erase t (sv_commands s))" unfolding r_def
    using disp_inv_confirm [OF disp assms(2)] disp_inv_cancel [OF disp assms(2)] by simp
  have "mon_inv (snd (setPhase (sv_trains s) t ph x))" for ph x by (rule mon_inv_setPhase [OF svc_mon [OF assms(1)]])
  then show ?thesis using ok inv assms svc_wf [OF assms(1)]
    by (cases r) (simp add: finish_ack_def r_def [symmetric] svc_inv_def)
qed

lemma svc_inv_acknowledge:
  assumes "svc_inv s"
  shows "svc_inv (snd (acknowledge answer s rid t accepted now cid))"
proof (cases "ack_refused s rid t cid")
  case False
  then obtain d where d: "um_find (sv_commands s) t = Some d" "dd_corridor_resource_id d = rid"
    by (auto simp: ack_refused_iff)
  have n: "svc_inv (note_answer None s)" "um_find (sv_commands (note_answer None s)) t = Some d"
    using assms d by simp_all
  show ?thesis using False finish_ack_ok [OF assms d(1), of accepted now] finish_ack_ok [OF n, of accepted now] d(2) assms
    by (auto simp: acknowledge_def split: option.split)
qed (simp add: acknowledge_def assms)

lemma clear_crossings_inv:
  assumes "disp_inv topology (snd st) C"
  shows "disp_inv topology (snd (foldl (clear_crossing t now) st is)) C"
  by (rule foldl_invariant [where P = "\<lambda>st. disp_inv topology (snd st) C"])
    (use assms disp_inv_markIntersectionCleared in \<open>auto simp: clear_crossing_def case_prod_unfold Let_def\<close>)

lemma svc_inv_finish_clear:
  assumes "svc_inv s"
  shows "svc_inv (snd (finish_clear s t rid is now))"
proof -
  let ?st = "if rid \<noteq> [] then markCorridorExited (sv_dispatch s) rid else (False, sv_dispatch s)"
  let ?m = "snd (foldl (clear_crossing t now) ?st is)"
  have "disp_inv (sv_topology s) ?m (sv_commands s)"
    by (rule clear_crossings_inv) (simp add: svc_disp [OF assms] disp_inv_markCorridorExited)
  then have inv: "svc_inv (s\<lparr>sv_dispatch := ?m\<rparr>)" by (rule svc_inv_dispatch [OF assms])
  then show ?thesis using svc_inv_setPhase [OF inv, of t MONITORED "[]"]
    by (simp add: finish_clear_def case_prod_unfold Let_def svc_inv_def)
qed

lemma svc_inv_markCleared: "svc_inv s \<Longrightarrow> svc_inv (snd (service_markCleared answer s t rid is now))"
  by (auto simp: service_markCleared_def Let_def svc_inv_finish_clear split: option.split)

subsection \<open>Executions\<close>

text \<open>
  The steps of the service. A database is bound before the worker threads start, when there are
  no commands; \<open>acos\<close> and the database answers are arbitrary in every step.
\<close>

inductive sv_step :: "railway_service \<Rightarrow> railway_service \<Rightarrow> bool" where
  sv_configured: "configure s c = Done u s' \<Longrightarrow> sv_step s s'"
| sv_enabled: "sv_commands s = [] \<Longrightarrow> enablePersistence acos db s wall = Done r s' \<Longrightarrow> sv_step s s'"
| sv_uploaded: "service_replaceRoutes acos answer s routes wall = Done res s' \<Longrightarrow> sv_step s s'"
| sv_updated: "updateTrains answer s trains now wall = Done b s' \<Longrightarrow> sv_step s s'"
| sv_maintained: "sv_step s (runMaintenance s wall)"
| sv_acknowledged: "sv_step s (snd (acknowledge answer s rid t accepted now cid))"
| sv_cleared: "sv_step s (snd (service_markCleared answer s t rid is now))"

definition sv_start :: "railway_service \<Rightarrow> bool" where
  "sv_start s \<longleftrightarrow> new_railway_service = Inr s"

interpretation sv: inductive_invariant sv_start sv_step svc_inv
proof
  fix s s' assume "svc_inv s" "sv_step s s'"
  from this(2,1) show "svc_inv s'"
    by cases (auto simp: runMaintenance_def intro: svc_inv_configure svc_inv_enable svc_inv_service_replaceRoutes
        svc_inv_updateTrains svc_inv_cleanup svc_inv_acknowledge svc_inv_markCleared)
qed (simp add: sv_start_def svc_inv_new)

text \<open>What the invariant says about a command.\<close>

lemma svc_command:
  assumes "svc_inv s" "um_find (sv_commands s) t = Some d"
  shows "dd_train_id d = t \<and> (\<exists>co p. corridorState (sv_dispatch s) (dd_corridor_resource_id d) = Some co \<and>
    co_command_pending co \<and> um_find (dm_pending_decisions (sv_dispatch s)) (dd_corridor_resource_id d) = Some p \<and>
    dd_train_id p = t)"
proof -
  note disp = svc_disp [OF assms(1)]
  obtain p where p: "dd_train_id d = t" "um_find (dm_pending_decisions (sv_dispatch s)) (dd_corridor_resource_id d) = Some p"
    "dd_train_id p = t" using cmds_okD [OF disp_inv_cmds [OF disp] assms(2)] by blast
  then obtain co where "corridorState (sv_dispatch s) (dd_corridor_resource_id d) = Some co" "co_command_pending co"
    using dm_inv_pending [OF disp_inv_dm [OF disp]] unfolding pending_ok_def corridorState_def by (metis option.distinct(1))
  then show ?thesis using p by blast
qed

end
