(* ===== verification/ServiceSafety.thy ===== *)
theory ServiceSafety
  imports Service
begin

text \<open>
  What the dispatch service guarantees from end to end, over every sequence of its operations:
  the composition of the planner, the policy, the intersection bookings and the life cycle of
  the commands. The first part evaluates the analysis of two lines on one track, which gives a
  reachable service with an unanswered command for the witnesses.
\<close>

subsection \<open>Two lines on one track\<close>

definition demo_twin :: line_route where
  "demo_twin = demo_east\<lparr>lr_line_id := ''B''\<rparr>"

definition demo_track_config :: line_route_analyzer_config where
  "demo_track_config = default_analyzer_config\<lparr>ac_shared_corridor_min_length := Fin 8\<rparr>"

lemma demo_track_sel [simp]:
  "ac_point_merge_tolerance demo_track_config = Fin 5" "ac_shared_track_tolerance demo_track_config = Fin (5 / 4)"
  "ac_vertical_separation_tolerance demo_track_config = Fin 3" "ac_shared_corridor_min_length demo_track_config = Fin 8"
  "ac_intersection_min_angle_degrees demo_track_config = Fin 15"
  "lr_points demo_east = [demo_point 8 16, demo_point 24 16]" "lr_points demo_twin = [demo_point 8 16, demo_point 24 16]"
  "lr_line_id demo_east = ''A''" "lr_line_id demo_twin = ''B''" "lr_transport_type demo_twin = []"
  "last_segment demo_east = 0" "last_segment demo_twin = 0"
  by (simp_all add: demo_track_config_def default_analyzer_config_def demo_twin_def demo_east_def demo_route_def
      last_segment_def)

lemma demo_pt [simp]: "pt_x (demo_point x z) = Fin x" "pt_y (demo_point x z) = Fin 0" "pt_z (demo_point x z) = Fin z"
  "pt_track_segment_id (demo_point x z) = []"
  by (simp_all add: demo_point_def default_point_def zero_double_def)

lemma demo_hypot0: "std_hypot (Fin 0) (Fin 0) = Fin 0"
  by (simp add: sqrt_round_def double_simps)

lemma demo_interpolate: "interpolate (demo_point 8 16) (demo_point 24 16) (Fin 0) = demo_point 8 16"
  "interpolate (demo_point 8 16) (demo_point 24 16) (Fin 1) = demo_point 24 16"
  "interpolate (demo_point 8 16) (demo_point 8 16) (Fin (1 / 2)) = demo_point 8 16"
  "interpolate (demo_point 24 16) (demo_point 24 16) (Fin (1 / 2)) = demo_point 24 16"
  by (simp_all add: interpolate_def double_simps) (simp_all add: demo_point_def default_point_def zero_double_def)

definition demo_overlap_result :: segment_overlap where
  "demo_overlap_result = \<lparr>so_orientation = 1, so_a_start_t = Fin 0, so_a_end_t = Fin 1, so_b_start_t = Fin 0,
     so_b_end_t = Fin 1, so_start = demo_point 8 16, so_end = demo_point 24 16\<rparr>"

lemma demo_track_overlap:
  "segmentOverlap demo_acos (demo_point 8 16) (demo_point 24 16) (demo_point 8 16) (demo_point 24 16)
     (Fin (5 / 4)) (Fin 3) (Fin 15) = Some demo_overlap_result"
proof -
  obtain e where e: "mk_double (1 / 1000000000) = Fin e" "0 \<le> e" "e \<le> 1" using unit_lit [of "1 / 1000000000"] by auto
  obtain f where f: "mk_double (1 / 1000000) = Fin f" "0 \<le> f" "f \<le> 1" using unit_lit [of "1 / 1000000"] by auto
  let ?d = "mk_double (572957795130823208768 / 10000000000000000000)"
  have "Fin 57 \<le> ?d" using mk_double_mono [of 57 "572957795130823208768 / 10000000000000000000"]
    by (simp add: double_simps)
  moreover have "?d \<le> Fin 58" using mk_double_mono [of "572957795130823208768 / 10000000000000000000" 58]
    by (simp add: double_simps)
  ultimately obtain d where d: "?d = Fin d" by (cases ?d) auto
  have near: "segmentBoundsNear (demo_point 8 16) (demo_point 24 16) (demo_point 8 16) (demo_point 24 16) (Fin (5 / 4))"
    by (simp add: segmentBoundsNear_def Let_def cpp_min_def cpp_max_def double_simps)
  have angle: "segmentAcuteAngleDegrees demo_acos (demo_point 8 16) (demo_point 24 16) (demo_point 8 16) (demo_point 24 16) = 0"
    using e d by (simp add: segmentAcuteAngleDegrees_def double_simps Let_def demo_hypot demo_acos_def clamp01_def
        cpp_max_def cpp_min_def del: std_hypot.simps)
  show ?thesis
    using e f by (simp add: segmentOverlap_def Let_def near angle demo_hypot double_simps cpp_max_def cpp_min_def clamp01_def
        demo_interpolate distance2d_def demo_hypot0 demo_overlap_result_def del: std_hypot.simps)
qed

lemma demo_geometry_points: "routeGeometry r (Fin 0) (Fin 1) = Some [demo_point 8 16, demo_point 24 16]"
  "segmentLength r 0 = Fin 16"
  if "lr_points r = [demo_point 8 16, demo_point 24 16]"
proof -
  have "last_segment r = 0" by (simp add: last_segment_def that)
  then show "routeGeometry r (Fin 0) (Fin 1) = Some [demo_point 8 16, demo_point 24 16]"
    by (simp add: routeGeometry_def routePointAt_def that Let_def double_simps cpp_min_def cpp_max_def
      floor_rat_frac demo_interpolate trunc_def)
  show "segmentLength r 0 = Fin 16"
    by (simp add: segmentLength_def distance2d_def that double_simps demo_hypot del: std_hypot.simps)
qed

text \<open>The index of the last segment of a range that ends just before a whole position.\<close>

lemma demo_floor_end: "\<exists>n. nat_of_double (std_floor (cpp_max (Fin 0) (Fin 1 - lit (1 / 10 ^ 9)))) = Some n"
proof -
  obtain e where e: "mk_double (1 / 1000000000) = Fin e" "0 \<le> e" "e \<le> 1" using unit_lit [of "1 / 1000000000"] by auto
  obtain f where f: "mk_double (1 - e) = Fin f" "0 \<le> f" "f \<le> 1" using unit_lit [of "1 - e"] e by auto
  have "0 \<le> \<lfloor>f\<rfloor>" "\<lfloor>f\<rfloor> \<le> 1" using f by linarith+
  then show ?thesis using e f
    by (auto simp: double_simps cpp_max_def trunc_def)
qed

definition demo_member :: "string \<Rightarrow> shared_corridor_member" where
  "demo_member l = \<lparr>sm_line_id = l, sm_start_position = Fin 0, sm_end_position = Fin 1,
     sm_occurrence_id = occurrence_text 6 l (Fin 0) (Fin 1), sm_start_segment = 0, sm_end_segment = 0,
     sm_direction_relation = SAME\<rparr>"

lemma demo_bounds:
  assumes "last_segment r = 0"
  shows "setMemberBounds (default_member\<lparr>sm_line_id := l\<rparr>) r (Fin 0) (Fin 1) = Some (demo_member l)"
proof -
  obtain n where "nat_of_double (std_floor (cpp_max (Fin 0) (Fin 1 - lit (1 / 10 ^ 9)))) = Some n"
    using demo_floor_end by blast
  moreover have "cpp_min (Fin 0) (Fin 1) = Fin 0" "cpp_max (Fin 0) (Fin 1) = Fin 1"
    by (simp_all add: cpp_min_def cpp_max_def)
  moreover have "nat_of_double (std_floor (Fin 0)) = Some 0" by (simp add: trunc_def)
  ultimately show ?thesis using assms
    by (simp add: setMemberBounds_def Let_def demo_member_def default_member_def)
qed

definition demo_fragment :: overlap_fragment where
  "demo_fragment = \<lparr>of_a_segment = 0, of_b_segment = 0, of_overlap = demo_overlap_result,
     of_a_order_start = Fin 0, of_a_order_end = Fin 1\<rparr>"

lemma demo_overlap_sel [simp]:
  "so_orientation demo_overlap_result = 1" "so_a_start_t demo_overlap_result = Fin 0"
  "so_a_end_t demo_overlap_result = Fin 1" "so_b_start_t demo_overlap_result = Fin 0"
  "so_b_end_t demo_overlap_result = Fin 1"
  by (simp_all add: demo_overlap_result_def)

lemma demo_twin_candidates:
  "spatialCandidates demo_east demo_twin (Fin 5) = Some [[0]]"
  "spatialCandidates demo_twin demo_twin (Fin 5) = Some [[0]]"
  using demo_candidates'(1) unfolding spatialCandidates_def demo_track_sel by assumption+

lemma demo_fragments:
  "overlap_fragments demo_acos demo_track_config demo_east demo_twin False [[0]] = [demo_fragment]"
  by (simp add: overlap_fragments_def candidate_pairs_def make_fragment_def map_filter_simps
      demo_track_overlap demo_fragment_def double_simps)

lemma demo_track_components: "fragment_components cfg [f] = Some [[0]]"
  by (simp add: fragment_components_def uf_component_roots_def uf_build_def index_pairs_def uf_root.simps)

definition demo_piece :: "string \<Rightarrow> shared_corridor_definition" where
  "demo_piece cid = (with_ends (demo_point 8 16) (demo_point 24 16) (default_corridor_definition
     \<lparr>sd_geometry := [demo_point 8 16, demo_point 24 16], sd_length := Fin 16, sd_corridor_id := cid\<rparr>))
     \<lparr>sd_members := [demo_member ''A'', demo_member ''B'']\<rparr>"

lemma demo_add_component:
  "\<exists>cid. addComponent demo_track_config demo_east demo_twin [demo_fragment] empty_analysis [0] =
     Some (empty_analysis\<lparr>la_shared_corridors := [demo_piece cid]\<rparr>)"
proof -
  obtain e where e: "mk_double (1 / 1000000) = Fin e" "0 \<le> e" "e \<le> 1" using unit_lit [of "1 / 1000000"] by auto
  have range: "component_range [demo_fragment] = (Fin 0, Fin 1, Fin 0, Fin 1)"
    by (simp add: component_range_def demo_fragment_def b_first_def b_second_def double_simps cpp_min_def cpp_max_def)
  have len: "covered_length demo_east [demo_fragment] = Fin 16"
    by (simp add: covered_length_def demo_fragment_def sort_by_def demo_geometry_points double_simps)
  have sorted: "sort_by lt [demo_fragment] = [demo_fragment]" for lt by (simp add: sort_by_def)
  have b: "setMemberBounds (default_member\<lparr>sm_line_id := ''A''\<rparr>) demo_east (Fin 0) (Fin 1) = Some (demo_member ''A'')"
    "setMemberBounds (default_member\<lparr>sm_line_id := ''B''\<rparr>) demo_twin (Fin 0) (Fin 1) = Some (demo_member ''B'')"
    by (simp_all add: demo_bounds)
  show ?thesis using e
    by (simp add: addComponent_def sorted range len demo_geometry_points b mergeCorridor_def empty_analysis_def)
      (simp add: demo_fragment_def demo_piece_def with_ends_def demo_member_def double_simps default_corridor_definition_def)
qed

lemma demo_key: "segmentPairKey 0 0 \<in> set (shared_pairs [demo_fragment])"
  by (simp add: shared_pairs_def demo_fragment_def)

lemma demo_track_pair:
  "\<exists>cid. analyzePair demo_acos demo_track_config [demo_east, demo_twin] empty_analysis (0, Suc 0) =
     Some (empty_analysis\<lparr>la_shared_corridors := [demo_piece cid]\<rparr>)"
proof -
  obtain cid where c: "addComponent demo_track_config demo_east demo_twin [demo_fragment] empty_analysis [0] =
     Some (empty_analysis\<lparr>la_shared_corridors := [demo_piece cid]\<rparr>)" using demo_add_component by blast
  have "addCrossing demo_acos demo_track_config demo_east demo_twin False (shared_pairs [demo_fragment]) r (0, 0) = r" for r
    using demo_key by (simp add: addCrossing_def crossing_skipped_def)
  then show ?thesis
    by (intro exI [of _ cid]) (simp add: analyzePair_def pair_skipped_def demo_twin_candidates demo_fragments demo_track_components c
        candidate_pairs_def Let_def)
qed

lemma demo_track_self:
  "analyzePair demo_acos demo_track_config [demo_east, demo_twin] r (0, 0) = Some r"
  "analyzePair demo_acos demo_track_config [demo_east, demo_twin] r (Suc 0, Suc 0) = Some r"
  by (simp_all add: analyzePair_def pair_skipped_def demo_twin_candidates demo_candidates' Let_def overlap_fragments_def
      candidate_pairs_def make_fragment_def map_filter_simps demo_components shared_pairs_def addCrossing_def
      crossing_skipped_def)

text \<open>The piece survives the cutting, the joining and the length filter.\<close>

lemma demo_project:
  assumes "lr_points r = [demo_point 8 16, demo_point 24 16]"
  shows "projectToRange r (Fin 0) (Fin 1) (demo_point 8 16) = Some (Some (Fin 0, Fin 0))"
    and "projectToRange r (Fin 0) (Fin 1) (demo_point 24 16) = Some (Some (Fin 1, Fin 0))"
proof -
  obtain n where n: "nat_of_double (std_floor (cpp_max (Fin 0) (Fin 1 - lit (1 / 10 ^ 9)))) = Some n"
    using demo_floor_end by blast
  obtain e where e: "mk_double (1 / 1000000000000) = Fin e" "0 \<le> e" "e \<le> 1"
    using unit_lit [of "1 / 1000000000000"] by auto
  have f0: "nat_of_double (std_floor (Fin 0)) = Some 0" by (simp add: trunc_def)
  have "last_segment r = 0" by (simp add: last_segment_def assms)
  have step: "project_step r (Fin 0) (Fin 1) (demo_point 8 16) 0 0 (PInf, Fin 0) 0 = (Fin 0, Fin 0)"
    "project_step r (Fin 0) (Fin 1) (demo_point 24 16) 0 0 (PInf, Fin 0) 0 = (Fin 0, Fin 1)"
    using e by (simp_all add: project_step_def Let_def assms double_simps cpp_max_def cpp_min_def demo_interpolate
        distance2d_def demo_hypot0 del: std_hypot.simps)
  show "projectToRange r (Fin 0) (Fin 1) (demo_point 8 16) = Some (Some (Fin 0, Fin 0))"
    and "projectToRange r (Fin 0) (Fin 1) (demo_point 24 16) = Some (Some (Fin 1, Fin 0))"
    unfolding projectToRange_def n f0 prod.case option.case using \<open>last_segment r = 0\<close>
    by (simp_all add: step Let_def)
qed

lemma demo_piece_sel [simp]:
  "sd_members (demo_piece cid) = [demo_member ''A'', demo_member ''B'']" "sd_length (demo_piece cid) = Fin 16"
  "sd_corridor_id (demo_piece cid) = cid"
  by (simp_all add: demo_piece_def with_ends_def)

lemma demo_member_sel [simp]:
  "sm_line_id (demo_member l) = l" "sm_start_position (demo_member l) = Fin 0" "sm_end_position (demo_member l) = Fin 1"
  by (simp_all add: demo_member_def)

lemma demo_ends: "end_points (demo_piece cid) = [demo_point 8 16, demo_point 24 16]"
  by (simp add: end_points_def demo_piece_def with_ends_def demo_point_def default_point_def zero_double_def)

lemma demo_cuts: "corridor_cuts [demo_piece cid] demo_east (demo_member ''A'') (Fin (5 / 4)) = Some [Fin 0, Fin 1]"
proof -
  obtain e where e: "mk_double (1 / 10000000) = Fin e" "0 \<le> e" "e \<le> 1" using unit_lit [of "1 / 10000000"] by auto
  have "mk_double (1 / 10000000) \<le> mk_double (1 / 2)" by (rule mk_double_mono) simp
  then have e2: "e \<le> 1 / 2" by (simp add: e double_simps)
  obtain f where f: "mk_double (1 - e) = Fin f" "0 \<le> f" "f \<le> 1" using unit_lit [of "1 - e"] e by auto
  obtain g where g: "mk_double e = Fin g" "0 \<le> g" "g \<le> 1" using unit_lit [of e] e by auto
  have rest: "corridor_cuts [demo_piece cid] demo_east (demo_member ''A'') (Fin (5 / 4)) =
      Some (unique_by (\<lambda>a b. \<bar>a - b\<bar> \<le> cut_epsilon) (sort_by (<) [Fin 0, Fin 1]))"
    using e f g by (simp add: corridor_cuts_def demo_ends demo_project cut_epsilon_def double_simps)
  have "sort_by (<) [Fin 0, Fin 1] = [Fin 0, Fin 1]" by (simp add: sort_by_def)
  then show ?thesis unfolding rest using e e2 by (simp add: cut_epsilon_def double_simps)
qed

lemma demo_cut_piece:
  assumes "by_id = [(''A'', demo_east), (''B'', demo_twin)]"
  shows "cut_piece by_id (Fin (5 / 4)) demo_east (demo_piece cid) (Fin 0) (Fin 1) = Some [demo_piece []]"
proof -
  obtain e where e: "mk_double (1 / 10000000) = Fin e" "0 \<le> e" "e \<le> 1" using unit_lit [of "1 / 10000000"] by auto
  have "mk_double (1 / 10000000) \<le> mk_double (1 / 2)" by (rule mk_double_mono) simp
  then have e2: "e \<le> 1 / 2" by (simp add: e double_simps)
  obtain f where f: "mk_double (1 / 1000000) = Fin f" "0 \<le> f" "f \<le> 1" using unit_lit [of "1 / 1000000"] by auto
  have len: "geometryLength [demo_point 8 16, demo_point 24 16] = Fin 16"
    by (simp add: geometryLength_def distance2d_def double_simps demo_hypot del: std_hypot.simps)
  have clip: "clip_member by_id (Fin (5 / 4)) (demo_point 8 16) (demo_point 24 16) (demo_member l) = Some (Some (demo_member l))"
    if "l = ''A'' \<or> l = ''B''" for l
    using that by (auto simp: assms clip_member_def demo_project demo_bounds) (simp_all add: demo_member_def)
  show ?thesis using e e2 f
    by (simp add: cut_piece_def demo_geometry_points len clip cut_epsilon_def double_simps addCorridorMember_def
        same_occurrence_def with_ends_def default_corridor_definition_def demo_piece_def)
qed

definition demo_corridor_definition :: shared_corridor_definition where
  "demo_corridor_definition = demo_piece (corridor_id_text [demo_member ''A'', demo_member ''B''])"

definition demo_track_analysis :: line_topology_analysis where
  "demo_track_analysis = empty_analysis\<lparr>la_shared_corridors := [demo_corridor_definition]\<rparr>"

lemma demo_finish: "finish_corridor (demo_piece []) = demo_corridor_definition"
  by (simp add: finish_corridor_def sort_by_def member_less_def less_char_def Let_def demo_corridor_definition_def)
    (simp add: demo_piece_def with_ends_def)

lemma demo_track_analyze:
  "analyze demo_acos demo_track_config [demo_east, demo_twin] = Some demo_track_analysis"
proof -
  obtain e where e: "mk_double (1 / 10000000) = Fin e" "0 \<le> e" "e \<le> 1" using unit_lit [of "1 / 10000000"] by auto
  have "Fin 16 \<le> mk_double (16 + e)" using mk_double_mono [of 16 "16 + e"] e by (simp add: double_simps)
  then have long: "Fin 8 \<le> mk_double (16 + e)" by (cases "mk_double (16 + e)") auto
  obtain cid where c: "analyzePair demo_acos demo_track_config [demo_east, demo_twin] empty_analysis (0, Suc 0) =
     Some (empty_analysis\<lparr>la_shared_corridors := [demo_piece cid]\<rparr>)" using demo_track_pair by blast
  have routes: "analyzed_routes [demo_east, demo_twin] = [demo_east, demo_twin]"
    by (simp add: analyzed_routes_def less_char_def)
  have fold: "fold_option (analyzePair demo_acos demo_track_config [demo_east, demo_twin]) empty_analysis
      (route_pairs (length [demo_east, demo_twin])) = Some (empty_analysis\<lparr>la_shared_corridors := [demo_piece cid]\<rparr>)"
    by (simp add: route_pairs_def upt_rec demo_track_self c)
  have by_id: "routes_by_id [demo_east, demo_twin] = [(''A'', demo_east), (''B'', demo_twin)]"
    by (simp add: routes_by_id_def)
  have cut: "corridor_pieces (routes_by_id [demo_east, demo_twin]) (Fin (5 / 4)) [demo_piece cid] (demo_piece cid) =
      Some [demo_piece []]"
    by (simp add: corridor_pieces_def by_id demo_cuts demo_cut_piece)
  have atom: "atomizeOverlappingCorridors (empty_analysis\<lparr>la_shared_corridors := [demo_piece cid]\<rparr>)
      [demo_east, demo_twin] (Fin (5 / 4)) (Fin 3) = Some (empty_analysis\<lparr>la_shared_corridors := [demo_piece []]\<rparr>)"
    by (simp add: atomizeOverlappingCorridors_def cut Let_def)
  have join: "consolidateAdjacentCorridors (empty_analysis\<lparr>la_shared_corridors := [demo_piece []]\<rparr>) (Fin (5 / 4)) (Fin 3) =
      demo_track_analysis"
    by (simp add: consolidateAdjacentCorridors_def join_loop.simps demo_finish demo_track_analysis_def)
  have "filterShortSharedComponents demo_track_analysis (Fin 8) (Fin (5 / 4)) (Fin 3) = Some demo_track_analysis"
    using long e by (simp add: filterShortSharedComponents_def demo_track_analysis_def uf_component_roots_def
        uf_build_def index_pairs_def uf_root.simps component_lengths_def demo_corridor_definition_def um_at_def
        cut_epsilon_def double_simps)
  then show ?thesis unfolding analyze_def routes fold Let_def by (simp add: atom join)
qed

subsection \<open>A service with an unanswered command\<close>

text \<open>
  The path: the service is constructed, configured, and restores from the database the two lines
  and one command that was not acknowledged before the restart.
\<close>

lemma default_components:
  "\<exists>t b p m. new_line_topology_registry default_analyzer_config = Inr t \<and>
     new_dispatch_candidate_builder default_builder_config = Inr b \<and>
     new_affected_line_planner default_planner_config = Inr p \<and>
     new_dispatch_manager default_dispatch_manager_config = Inr m"
proof -
  obtain t where "new_line_topology_registry default_analyzer_config = Inr t"
    using demo_registry_start demo_registry_def
    by (auto simp: new_line_topology_registry_def new_line_route_analyzer_def analyzer_config_ok_def
        default_analyzer_config_def double_simps)
  moreover have "\<exists>b. new_dispatch_candidate_builder default_builder_config = Inr b"
    by (simp add: new_dispatch_candidate_builder_def builder_config_ok_def default_builder_config_def double_simps)
  moreover have "\<exists>p. new_affected_line_planner default_planner_config = Inr p"
    by (simp add: new_affected_line_planner_def default_planner_config_def double_simps)
  moreover have "\<exists>m. new_dispatch_manager default_dispatch_manager_config = Inr m"
  proof -
    obtain a where a: "mk_double (3 / 10) = Fin a" "0 \<le> a" "a \<le> 1" using unit_lit [of "3 / 10"] by auto
    obtain b where b: "mk_double (1 / 5) = Fin b" "0 \<le> b" "b \<le> 1" using unit_lit [of "1 / 5"] by auto
    show ?thesis using a b
      by (simp add: new_dispatch_manager_def default_dispatch_manager_config_def new_dynamic_priority_policy_def
          default_priority_config_def double_simps)
  qed
  ultimately show ?thesis by blast
qed

definition demo_service_config :: railway_dispatch_service_config where
  "demo_service_config = default_service_config\<lparr>rc_route_analysis := demo_track_config, rc_dispatch := demo_dm_config\<rparr>"

abbreviation demo_forward :: string where
  "demo_forward \<equiv> resourceId (sd_corridor_id demo_corridor_definition) FORWARD"

definition demo_command :: dispatch_decision where
  "demo_command = default_decision\<lparr>dd_action := RELEASE, dd_command_id := ''CMD:6'',
     dd_corridor_resource_id := demo_forward, dd_train_id := ''T1'', dd_line_id := ''A'',
     dd_topology_revision := 1\<rparr>"

lemma demo_command_sel: "dd_corridor_resource_id demo_command = demo_forward" "dd_train_id demo_command = ''T1''"
  "dd_reserved_intersection_movement_ids demo_command = []" "dd_command_id demo_command = ''CMD:6''"
  by (simp_all add: demo_command_def default_decision_def)

definition demo_recovery :: dispatch_recovery_state where
  "demo_recovery = \<lparr>rs_topology_revision = 1, rs_next_command_sequence = 7,
     rs_routes = [demo_east, demo_twin], rs_pending_commands = [demo_command], rs_active_commands = []\<rparr>"

lemma demo_configured:
  "\<exists>s. reachable sv_start sv_step s \<and> sv_config s = demo_service_config \<and>
     tr_analyzer (sv_topology s) = demo_track_config \<and> sv_commands s = [] \<and> sv_active s = [] \<and> sv_trains s = [] \<and>
     sv_next_command_id s = 1"
proof -
  obtain t b p m where c: "new_line_topology_registry default_analyzer_config = Inr t"
    "new_dispatch_candidate_builder default_builder_config = Inr b"
    "new_affected_line_planner default_planner_config = Inr p"
    "new_dispatch_manager default_dispatch_manager_config = Inr m" using default_components by blast
  let ?s0 = "service_of default_service_config t b p m"
  have "new_railway_service = Inr ?s0" using c by (simp add: new_railway_service_def default_service_config_def)
  then have s0: "reachable sv_start sv_step ?s0" by (intro reach_init) (simp add: sv_start_def)
  have ok: "analyzer_config_ok demo_track_config"
    by (simp add: analyzer_config_ok_def demo_track_config_def default_analyzer_config_def double_simps)
  obtain m1 where m1: "new_dispatch_manager demo_dm_config = Inr m1"
    by (simp add: new_dispatch_manager_def demo_dm_config_def demo_config_def new_dynamic_priority_policy_def)
  have sel: "rc_train_stale_wall_ms demo_service_config = 5000" "rc_route_analysis demo_service_config = demo_track_config"
    "rc_candidate_builder demo_service_config = default_builder_config"
    "rc_rolling_planner demo_service_config = default_planner_config" "rc_dispatch demo_service_config = demo_dm_config"
    by (simp_all add: demo_service_config_def default_service_config_def)
  obtain s1 where s1: "configure ?s0 demo_service_config = Done () s1" "sv_config s1 = demo_service_config"
    "tr_analyzer (sv_topology s1) = demo_track_config" "sv_commands s1 = []" "sv_active s1 = []" "sv_trains s1 = []"
    "sv_next_command_id s1 = 1"
    using c(2,3) m1 ok by (simp add: configure_def sel new_line_topology_registry_def new_line_route_analyzer_def Let_def
        monitor_clear_def)
  then show ?thesis using reach_step [OF s0 sv_configured [OF s1(1)]] by blast
qed

lemma demo_track_replace:
  assumes "tr_analyzer t = demo_track_config"
  shows "\<exists>t'. restoreRoutes demo_acos t [demo_east, demo_twin] 1 = Some (None, t') \<and> tr_analysis t' = demo_track_analysis \<and>
    tr_revision t' = 1 \<and> tr_analyzer t' = demo_track_config"
proof -
  have fin: "list_all finite_point [demo_point 8 16, demo_point 24 16]"
    by (simp add: finite_point_def)
  have "lr_target_headway_ms demo_east = 15000" "lr_target_headway_ms demo_twin = 15000"
    by (simp_all add: demo_twin_def demo_east_def demo_route_def)
  then have "collect_routes [] [demo_east, demo_twin] = Inr [(''A'', demo_east), (''B'', demo_twin)]"
    using fin by simp
  then show ?thesis
    by (simp add: restoreRoutes_def replaceRoutes_def assms demo_track_analyze del: collect_routes.simps)
qed

lemma upsertCorridor_reservations [simp]: "dm_reservations (upsertCorridor m co) = dm_reservations m"
  by (simp add: upsertCorridor_def Let_def)

lemma fold_lines_frame:
  "dm_corridors (foldl (\<lambda>m mem. upsertLineState m r (f mem) (g mem)) m ms) = dm_corridors m \<and>
   dm_reservations (foldl (\<lambda>m mem. upsertLineState m r (f mem) (g mem)) m ms) = dm_reservations m"
  by (induction ms arbitrary: m) auto

lemma rebuild_resource_corridors:
  "dm_corridors (rebuild_resource c h wall m res) = dm_corridors (upsertCorridor m (rebuilt_state c wall res))"
  "dm_reservations (rebuild_resource c h wall m res) = dm_reservations m"
  by (simp_all add: rebuild_resource_def fold_lines_frame)

text \<open>A rebuilt manager has a line state for every member of a corridor.\<close>

definition has_line :: "string \<Rightarrow> string \<Rightarrow> dispatch_manager \<Rightarrow> bool" where
  "has_line r l m \<longleftrightarrow> (\<exists>lines st. um_find (dm_line_states m) r = Some lines \<and> um_find lines l = Some st)"

lemma has_line_keep: "has_line r l m \<Longrightarrow> has_line r l (upsertLineState m r' l' st)"
  by (auto simp: has_line_def upsertLineState_def umap_simps um_at_def)

lemma has_line_new:
  "r \<noteq> [] \<Longrightarrow> l \<noteq> [] \<Longrightarrow> ld_target_headway_ms st \<noteq> 0 \<Longrightarrow> has_line r l (upsertLineState m r l st)"
  by (auto simp: has_line_def upsertLineState_def umap_simps)

lemma has_line_fold:
  "has_line r l m \<or> l \<in> f ` set ms \<Longrightarrow> r \<noteq> [] \<Longrightarrow> l \<noteq> [] \<Longrightarrow> \<forall>k. ld_target_headway_ms (g k) \<noteq> 0 \<Longrightarrow>
   has_line r l (foldl (\<lambda>m mem. upsertLineState m r (f mem) (g (f mem))) m ms)"
proof (induction ms arbitrary: m)
  case (Cons x ms)
  then have "has_line r l (upsertLineState m r (f x) (g (f x))) \<or> l \<in> f ` set ms"
    by (auto simp: has_line_keep has_line_new)
  then show ?case using Cons by simp
qed simp

lemma has_line_keep_fold:
  "has_line r l m \<Longrightarrow> has_line r l (foldl (\<lambda>m mem. upsertLineState m r' (f mem) (g (f mem))) m ms)"
  by (rule foldl_invariant) (simp_all add: has_line_keep)

lemma has_line_upsertCorridor [simp]: "has_line r l (upsertCorridor m co) = has_line r l m"
  by (simp add: has_line_def upsertCorridor_def Let_def)

lemma headways_nonzero:
  assumes "\<forall>r \<in> set routes. lr_target_headway_ms r \<noteq> 0"
  shows "ld_target_headway_ms (headway_line (headways_of routes) l) \<noteq> 0"
proof -
  have "\<forall>k h. um_find (headways_of routes) k = Some h \<longrightarrow> h \<noteq> 0"
    unfolding headways_of_def
    by (rule foldl_invariant [where P = "\<lambda>m. \<forall>k h. um_find m k = Some h \<longrightarrow> h \<noteq> 0"])
      (use assms in \<open>auto simp: umap_simps split: if_splits\<close>)
  then show ?thesis by (auto simp: headway_line_def split: option.split)
qed

lemma snapshot_headways:
  assumes "tr_inv t" "r \<in> set (ts_routes (registry_snapshot t))"
  shows "lr_target_headway_ms r \<noteq> 0"
proof -
  obtain k where "(k, r) \<in> set (tr_routes t)" using assms(2) by (auto simp: registry_snapshot_def)
  moreover have "um_wf (tr_routes t)" using assms(1) by (simp add: tr_inv_def)
  ultimately have "um_find (tr_routes t) k = Some r" using um_mem_iff by metis
  then show ?thesis using assms(1) by (auto simp: tr_inv_def valid_route_def)
qed

lemma demo_rebuilt:
  assumes "new_dispatch_manager demo_dm_config = Inr m0" "tr_analysis t = demo_track_analysis" "tr_inv t"
  shows "\<exists>m co. rebuild_manager demo_dm_config (registry_snapshot t) wall m0 = m \<and>
    corridorState m demo_forward = Some co \<and> \<not> co_command_pending co \<and> co_occupancy co = 0 \<and>
    \<not> opposing_is_busy m demo_forward co \<and> dm_reservations m = new_reservation_manager 2000 \<and>
    has_line demo_forward ''A'' m"
proof -
  let ?m = "rebuild_manager demo_dm_config (registry_snapshot t) wall m0"
  note new = new_manager_empty [OF assms(1)]
  have res: "dm_reservations m0 = new_reservation_manager 2000"
    using assms(1) by (auto simp: new_dispatch_manager_def demo_dm_config_def split: sum.splits if_splits)
  have movs: "la_movements (ts_analysis (registry_snapshot t)) = []"
    by (simp add: registry_snapshot_def assms(2) demo_track_analysis_def empty_analysis_def)
  have "rebuilding m0 m0" using new by (simp add: rebuilding_def idle_corridors_def)
  then have r: "rebuilding m0 ?m"
    unfolding rebuild_manager_def movs foldl.simps
    by (intro foldl_invariant [where P = "rebuilding m0"] rebuilding_resource)
  have "dm_corridors ?m = dm_corridors (upsertCorridor (rebuild_resource demo_dm_config
      (headways_of (ts_routes (registry_snapshot t))) wall m0 (demo_corridor_definition, FORWARD))
      (rebuilt_state demo_dm_config wall (demo_corridor_definition, REVERSE)))"
    by (simp add: rebuild_manager_def registry_snapshot_def assms(2) demo_track_analysis_def empty_analysis_def
        resources_of_def rebuild_resource_corridors)
  moreover have "resourceId c d \<noteq> []" for c d by (simp add: resourceId_def)
  ultimately have "corridorState ?m demo_forward =
      Some (rebuilt_state demo_dm_config wall (demo_corridor_definition, FORWARD))"
    using new by (simp add: corridorState_def upsertCorridor_def rebuilt_state_def resource_of_def Let_def
        rebuild_resource_corridors resourceId_inj update_conv' demo_dm_config_def demo_config_def)
  then obtain co where co: "corridorState ?m demo_forward = Some co" "\<not> co_command_pending co" "co_occupancy co = 0"
    by (auto simp: rebuilt_state_def)
  have "has_line demo_forward ''A'' ?m"
  proof -
    let ?h = "headways_of (ts_routes (registry_snapshot t))"
    have "\<forall>k. ld_target_headway_ms (headway_line ?h k) \<noteq> 0"
      using headways_nonzero snapshot_headways [OF assms(3)] by blast
    moreover have "''A'' \<in> sm_line_id ` set (sd_members demo_corridor_definition)"
      by (simp add: demo_corridor_definition_def demo_piece_def demo_member_def)
    ultimately have "has_line demo_forward ''A'' (rebuild_resource demo_dm_config ?h wall m0
        (demo_corridor_definition, FORWARD))"
      unfolding rebuild_resource_def by (simp add: resource_of_def resourceId_def has_line_fold)
    then show ?thesis
      by (simp add: rebuild_manager_def registry_snapshot_def assms(2) demo_track_analysis_def empty_analysis_def
          resources_of_def rebuild_resource_def has_line_keep_fold)
  qed
  moreover have wf: "um_wf (dm_corridors ?m)" using r dm_inv_wf by (auto simp: rebuilding_def)
  have "no_opposing (um_find (dm_corridors ?m)) demo_forward (co_corridor_id co)"
    using r by (auto simp: no_opposing_def rebuilding_def idle_corridors_def corridor_busy_def)
  then have "\<not> opposing_is_busy ?m demo_forward co" using opposing_is_busy_iff [OF wf] by blast
  ultimately show ?thesis using co r res by (auto simp: rebuilding_def)
qed

text \<open>The state the witnesses use.\<close>

definition demo_state :: "railway_service \<Rightarrow> bool" where
  "demo_state s \<longleftrightarrow> reachable sv_start sv_step s \<and> sv_commands s = [(''T1'', demo_command)] \<and> sv_active s = [] \<and>
     sv_persistence s \<and> sv_trains s = [] \<and> sv_next_command_id s = 7 \<and>
     tr_revision (sv_topology s) = 1 \<and> tr_analysis (sv_topology s) = demo_track_analysis \<and>
     has_line demo_forward ''A'' (sv_dispatch s)"

lemma demo_state_exists: "\<exists>s. demo_state s"
proof -
  obtain s where s: "reachable sv_start sv_step s" "sv_config s = demo_service_config"
    "tr_analyzer (sv_topology s) = demo_track_config" "sv_commands s = []" "sv_active s = []" "sv_trains s = []"
    "sv_next_command_id s = 1" using demo_configured by blast
  obtain t' where t': "restoreRoutes demo_acos (sv_topology s) [demo_east, demo_twin] 1 = Some (None, t')"
    "tr_analysis t' = demo_track_analysis" "tr_revision t' = 1" using demo_track_replace [OF s(3)] by blast
  have inv: "tr_inv t'" using tr_inv_step [OF tr_restore [OF t'(1)]] svc_top [OF sv.inv_reachable [OF s(1)]] by simp
  obtain m0 where m0: "new_dispatch_manager demo_dm_config = Inr m0"
    by (simp add: new_dispatch_manager_def demo_dm_config_def demo_config_def new_dynamic_priority_policy_def)
  from demo_rebuilt [OF m0 t'(2) inv, of 1000] obtain m1 co where m1:
    "rebuild_manager demo_dm_config (registry_snapshot t') 1000 m0 = m1" "um_find (dm_corridors m1) demo_forward = Some co"
    "\<not> co_command_pending co" "\<not> opposing_is_busy m1 demo_forward co"
    "dm_reservations m1 = new_reservation_manager 2000" "has_line demo_forward ''A'' m1"
    by (auto simp: corridorState_def)
  obtain r where r: "tryReserveAtomically (new_reservation_manager 2000) ''T1'' []
      (dd_issued_at_simulation_ms demo_command) = Inr r"
    using rms.reserve_ok [OF rm_inv_new, of 2000 "''T1''" "[]"] by (auto simp: canReserve_def canReserveLocked_def)
  obtain m2 where m2: "restorePending m1 demo_command = Inr m2"
    by (simp only: restorePending_def demo_command_sel m1(2-5) r option.case sum.case if_False simp_thms)
  have line: "has_line demo_forward ''A'' m2"
    using m1(6) m2 by (auto simp: has_line_def restorePending_def split: option.splits if_splits sum.splits)
  have cfg: "rc_dispatch demo_service_config = demo_dm_config" by (simp add: demo_service_config_def)
  have rec: "rs_routes demo_recovery = [demo_east, demo_twin]" "rs_topology_revision demo_recovery = 1"
    "rs_pending_commands demo_recovery = [demo_command]" "rs_active_commands demo_recovery = []"
    "rs_next_command_sequence demo_recovery = 7" "dd_topology_revision demo_command = 1"
    "dd_train_id demo_command = ''T1''"
    by (simp_all add: demo_recovery_def demo_command_def)
  let ?s' = "s\<lparr>sv_topology := t', sv_dispatch := m2, sv_commands := [(''T1'', demo_command)],
      sv_next_command_id := 7, sv_persistence := True, sv_healthy := True, sv_error := []\<rparr>"
  have "enablePersistence demo_acos (Some (Inr demo_recovery)) s 1000 = Done None ?s'"
    by (simp add: enablePersistence_def rec s t' rebuildDispatchManagerLocked_def cfg m0 m1(1) restoreCommands_def m2)
  then have "sv_step s ?s'" by (rule sv_enabled [OF s(4)])
  with s(1) have "reachable sv_start sv_step ?s'" by (rule reach_step)
  then have "demo_state ?s'" using s t' line by (simp add: demo_state_def)
  then show ?thesis by blast
qed

lemma demo_stateD:
  assumes "demo_state s"
  shows "reachable sv_start sv_step s" "um_find (sv_commands s) ''T1'' = Some demo_command" "sv_persistence s"
    "sv_trains s = []" "sv_commands s = [(''T1'', demo_command)]"
  using assms by (simp_all add: demo_state_def)

subsection \<open>Properties\<close>

lemma command_owns_track:
  assumes "svc_inv s" and "um_find (sv_commands s) t = Some d"
  shows "dd_train_id d = t \<and> (\<exists>co. corridorState (sv_dispatch s) (dd_corridor_resource_id d) = Some co \<and>
    co_command_pending co \<and> co_occupancy co \<le> co_capacity co \<and>
    no_opposing (corridorState (sv_dispatch s)) (dd_corridor_resource_id d) (co_corridor_id co) \<and>
    (\<forall>t' d' co'. t' \<noteq> t \<longrightarrow> um_find (sv_commands s) t' = Some d' \<longrightarrow>
       corridorState (sv_dispatch s) (dd_corridor_resource_id d') = Some co' \<longrightarrow>
       co_corridor_id co' \<noteq> co_corridor_id co))"
proof -
  note inv = assms(1)
  have dm: "dm_inv True (sv_dispatch s)" using disp_inv_dm [OF svc_disp [OF inv]] .
  obtain co p where co: "dd_train_id d = t" "corridorState (sv_dispatch s) (dd_corridor_resource_id d) = Some co"
    "co_command_pending co" "um_find (dm_pending_decisions (sv_dispatch s)) (dd_corridor_resource_id d) = Some p"
    "dd_train_id p = t" using svc_command [OF inv assms(2)] by blast
  note look = co(2) [unfolded corridorState_def]
  have quiet: "no_opposing (um_find (dm_corridors (sv_dispatch s))) (dd_corridor_resource_id d) (co_corridor_id co)"
    using interlockD [OF dm_inv_interlock [OF dm] look] co(3) by (simp add: corridor_busy_def)
  have "co_corridor_id co' \<noteq> co_corridor_id co"
    if o: "t' \<noteq> t" "um_find (sv_commands s) t' = Some d'"
      "corridorState (sv_dispatch s) (dd_corridor_resource_id d') = Some co'" for t' d' co'
  proof -
    obtain p' where p': "co_command_pending co'"
      "um_find (dm_pending_decisions (sv_dispatch s)) (dd_corridor_resource_id d') = Some p'" "dd_train_id p' = t'"
      using svc_command [OF inv o(2)] o(3) by auto
    have "dd_corridor_resource_id d' \<noteq> dd_corridor_resource_id d"
    proof
      assume "dd_corridor_resource_id d' = dd_corridor_resource_id d"
      then have "p' = p" using p'(2) co(4) by simp
      then show False using p'(3) co(5) o(1) by simp
    qed
    then show ?thesis using quiet o(3) p'(1)
      by (auto simp: no_opposing_def corridor_busy_def corridorState_def)
  qed
  then show ?thesis using co quiet corridors_okD [OF dm_inv_corridors [OF dm] look]
    by (intro conjI exI [of _ co]) (auto simp: corridorState_def [abs_def])
qed

text \<open>C2: commands exclude each other. In every reachable state of the service, a command that waits for
  its acknowledgement belongs to its train and to a known resource that is marked pending and not
  over its capacity; every other resource of the same track (the opposite direction) is neither
  occupied nor pending; and the commands of different trains are for different tracks.\<close>

theorem commands_exclude_each_other:
  assumes "reachable sv_start sv_step s" and "um_find (sv_commands s) t = Some d"
  shows "dd_train_id d = t \<and> (\<exists>co. corridorState (sv_dispatch s) (dd_corridor_resource_id d) = Some co \<and>
    co_command_pending co \<and> co_occupancy co \<le> co_capacity co \<and>
    no_opposing (corridorState (sv_dispatch s)) (dd_corridor_resource_id d) (co_corridor_id co) \<and>
    (\<forall>t' d' co'. t' \<noteq> t \<longrightarrow> um_find (sv_commands s) t' = Some d' \<longrightarrow>
       corridorState (sv_dispatch s) (dd_corridor_resource_id d') = Some co' \<longrightarrow>
       co_corridor_id co' \<noteq> co_corridor_id co))"
  by (rule command_owns_track [OF sv.inv_reachable [OF assms(1)] assms(2)])

lemma commands_exclude_each_other_witness:
  "\<exists>s co. demo_state s \<and> corridorState (sv_dispatch s) demo_forward = Some co \<and> co_command_pending co \<and>
     no_opposing (corridorState (sv_dispatch s)) demo_forward (co_corridor_id co)"
proof -
  obtain s where s: "demo_state s" using demo_state_exists by blast
  show ?thesis using commands_exclude_each_other [OF demo_stateD(1,2) [OF s]] s
    unfolding demo_command_sel by blast
qed

lemma movement_ids_apart:
  "distinct (map mv_movement_id (concat (map (\<lambda>i. [a_movement i, b_movement i]) is))) \<Longrightarrow> i \<in> set is \<Longrightarrow>
   mv_movement_id (a_movement i) \<noteq> mv_movement_id (b_movement i)"
  by (induction "is") auto

text \<open>C3: crossings of the current topology. In every reachable state, for every crossing that the
  analysis of the current lines reported (movement ids being distinct, as they are for line ids
  without colons), its two movements are never booked at the same time, by whichever trains:
  analysis, registration and booking together keep conflicting trains apart.\<close>

theorem crossing_never_booked_twice:
  assumes "reachable sv_start sv_step s" and "i \<in> set (la_intersections (ts_analysis (service_topology s)))"
    and "distinct (map mv_movement_id (la_movements (ts_analysis (service_topology s))))"
  shows "\<not> (rm_holds (dm_reservations (sv_dispatch s)) t1 (li_line_a_movement_id i) \<and>
    rm_holds (dm_reservations (sv_dispatch s)) t2 (li_line_b_movement_id i))"
proof
  let ?R = "dm_reservations (sv_dispatch s)" and ?an = "tr_analysis (sv_topology s)"
  assume held: "rm_holds ?R t1 (li_line_a_movement_id i) \<and> rm_holds ?R t2 (li_line_b_movement_id i)"
  have inv: "svc_inv s" using sv.inv_reachable [OF assms(1)] .
  have i: "i \<in> set (la_intersections ?an)" and dist: "distinct (map mv_movement_id (la_movements ?an))"
    using assms(2,3) by (simp_all add: service_topology_def registry_snapshot_def)
  have movs: "la_movements ?an = concat (map (\<lambda>i. [a_movement i, b_movement i]) (la_intersections ?an))"
    using svc_top [OF inv] by (auto simp: tr_inv_def analysis_ok_def)
  have mem: "a_movement i \<in> set (la_movements ?an)" "b_movement i \<in> set (la_movements ?an)"
    using i by (auto simp: movs)
  have "um_find (rm_movements ?R) (mv_movement_id mv) = Some mv" if "mv \<in> set (la_movements ?an)" for mv
    using disp_inv_movs [OF svc_disp [OF inv]] dist that by (simp add: movs_ok_def Let_def)
  note reg0 = this [OF mem(1)] this [OF mem(2)]
  have ids: "mv_movement_id (a_movement i) = li_line_a_movement_id i"
    "mv_movement_id (b_movement i) = li_line_b_movement_id i"
    by (simp_all add: a_movement_def b_movement_def)
  note reg = reg0 [unfolded ids]
  have rm: "rm_booked ?R" "rm_exclusive ?R"
    using dm_inv_rm [OF disp_inv_dm [OF svc_disp [OF inv]]] by (simp_all add: rm_inv_def)
  obtain j1 r1 j2 r2 where act: "rm_active ?R j1 (li_line_a_movement_id i) = Some r1"
    "rm_active ?R j2 (li_line_b_movement_id i) = Some r2" using held by (auto simp: rm_holds_def)
  have "j1 = li_intersection_id i" "j2 = li_intersection_id i"
    using rm_booked_movement [OF rm(1) act(1) reg(1)] rm_booked_movement [OF rm(1) act(2) reg(2)]
    by (simp_all add: a_movement_def b_movement_def)
  moreover have "li_line_a_movement_id i \<noteq> li_line_b_movement_id i"
    using movement_ids_apart [OF dist [unfolded movs] i] ids by simp
  ultimately have "\<not> movementsConflict (a_movement i) (b_movement i)"
    using rm_exclusiveD [OF rm(2)] act reg by blast
  then show False by (simp add: movementsConflict_def a_movement_def b_movement_def)
qed

text \<open>The two crossing lines of \<open>Registry\<close>, uploaded to a new service.\<close>

lemma demo_crossing_service:
  "\<exists>s. reachable sv_start sv_step s \<and> sv_topology s = demo_topology_loaded"
proof -
  obtain t b p m where c: "new_line_topology_registry default_analyzer_config = Inr t"
    "new_dispatch_candidate_builder default_builder_config = Inr b"
    "new_affected_line_planner default_planner_config = Inr p"
    "new_dispatch_manager default_dispatch_manager_config = Inr m" using default_components by blast
  have t: "t = demo_registry" using c(1)
    by (auto simp: new_line_topology_registry_def new_line_route_analyzer_def demo_registry_def split: if_splits sum.splits)
  let ?s0 = "service_of default_service_config t b p m"
  have new: "new_railway_service = Inr ?s0" using c by (simp add: new_railway_service_def default_service_config_def)
  then have s0: "reachable sv_start sv_step ?s0" by (intro reach_init) (simp add: sv_start_def)
  have inv: "svc_inv ?s0" by (rule svc_inv_new [OF new])
  have top: "sv_topology ?s0 = demo_registry" by (simp add: service_of_def t)
  have "tr_inv demo_topology_loaded" using top.inv_reachable [OF demo_loaded_reachable] .
  then obtain s' where s': "rebuildDispatchManagerLocked (reset_runtime (?s0\<lparr>sv_topology := demo_topology_loaded\<rparr>)) 7 = Inr s'"
    using svc_inv_reset [OF inv] by blast
  then have st: "sv_topology s' = demo_topology_loaded" "sv_persistence s' = False"
    by (auto simp: rebuildDispatchManagerLocked_def reset_runtime_def service_of_def split: sum.splits)
  have "tr_revision demo_registry = 0" by (simp add: demo_registry_def)
  then have "\<exists>res. service_replaceRoutes demo_acos None ?s0 [demo_east, demo_north] 7 = Done res s'"
    using s' st top demo_replace by (simp add: service_replaceRoutes_def Let_def registry_snapshot_def service_of_def)
  then have "sv_step ?s0 s'" using sv_uploaded by blast
  with s0 have "reachable sv_start sv_step s'" by (rule reach_step)
  then show ?thesis using st by blast
qed

lemma crossing_never_booked_twice_witness:
  "\<exists>s (i :: line_intersection_definition). reachable sv_start sv_step s \<and> li_line_a_id i = ''A'' \<and> li_line_b_id i = ''B'' \<and>
     \<not> (rm_holds (dm_reservations (sv_dispatch s)) ''T1'' (li_line_a_movement_id i) \<and>
        rm_holds (dm_reservations (sv_dispatch s)) ''T2'' (li_line_b_movement_id i))"
proof -
  obtain s where s: "reachable sv_start sv_step s" "sv_topology s = demo_topology_loaded"
    using demo_crossing_service by blast
  let ?i = "make_intersection demo_east demo_north 0 0 (Fin 16) 0 (Fin 16)"
  have an: "ts_analysis (service_topology s) = add_intersection empty_analysis ?i"
    by (simp add: service_topology_def registry_snapshot_def s(2) demo_loaded_sel)
  have "lr_line_id demo_north = ''B''" by (simp add: demo_north_def demo_route_def)
  then have i: "li_line_a_id ?i = ''A''" "li_line_b_id ?i = ''B''"
    by (simp_all add: make_intersection_def Let_def)
  have "distinct (map mv_movement_id (la_movements (ts_analysis (service_topology s))))"
    unfolding an by (simp add: add_intersection_def empty_analysis_def a_movement_def b_movement_def
        make_intersection_def Let_def demo_valid_routes)
  note crossing_never_booked_twice [OF s(1) _ this, of ?i "''T1''" "''T2''"]
  then have "\<not> (rm_holds (dm_reservations (sv_dispatch s)) ''T1'' (li_line_a_movement_id ?i) \<and>
      rm_holds (dm_reservations (sv_dispatch s)) ''T2'' (li_line_b_movement_id ?i))"
    by (simp add: an add_intersection_def)
  then show ?thesis using i s(1) by blast
qed

lemma pendingCommands_one:
  "pendingCommands s (Some t) = (case um_find (sv_commands s) t of None \<Rightarrow> [] | Some d \<Rightarrow> [d])"
  by (simp add: pendingCommands_def)

text \<open>The trains that a batch received at \<open>wall\<close> leaves stale.\<close>

definition stale_after :: "railway_service \<Rightarrow> train_telemetry list \<Rightarrow> u64 \<Rightarrow> string set" where
  "stale_after s trains wall = stale_trains (s\<lparr>sv_trains := snd (upsertBatch (sv_trains s) trains)\<rparr>) wall"

text \<open>C7: nothing unsaved is ordered. When the database refuses a dispatch cycle, the update reports the
  error and no issued command; the commands that can be queried afterwards are exactly those from
  before, less those of trains that became stale, no passage is forgotten, and the health report
  shows the error.\<close>

theorem failed_persistence_exposes_nothing:
  assumes "reachable sv_start sv_step s" and "sv_persistence s"
    and "updateTrains (Some e) s trains now wall = Done r s'"
  shows "br_issued_commands r = 0 \<and> \<not> br_persistence_ok r \<and> br_persistence_error r = e \<and>
    persistenceHealthy s' = (False, e) \<and> sv_active s' = sv_active s \<and>
    (\<forall>t. pendingCommands s' (Some t) =
       (if t \<in> stale_after s trains wall then [] else pendingCommands s (Some t)))"
proof -
  have inv: "svc_inv s" using sv.inv_reachable [OF assms(1)] .
  let ?s1 = "before_planning s trains wall"
  obtain s2 issued where r: "round_inv ?s1 now (s2, issued)"
    and f: "finish_update (Some e) (fst (upsertBatch (sv_trains s) trains)) s2 issued = (r, s')"
    by (rule updateTrains_cases [OF assms(3) inv])
  note frame = before_planning_frame [OF inv, of trains wall, unfolded Let_def stale_after_def [symmetric]]
  note round = r [unfolded round_inv_def prod.case]
  have per: "sv_persistence s2" using round frame assms(2) by simp
  then have s': "s' = foldl withdraw_command (note_answer (Some e) s2) issued"
    and res: "br_issued_commands r = 0" "\<not> br_persistence_ok r" "br_persistence_error r = e"
    using f by (auto simp: finish_update_def Let_def)
  have "svc_inv (note_answer (Some e) s2)" "distinct (map dd_train_id issued)" using round by simp_all
  from withdraw_all [OF this] round_inv_commands [OF r]
  have w: "\<forall>t. um_find (sv_commands s') t = (if t \<in> dd_train_id ` set issued then None else um_find (sv_commands s2) t)"
    "sv_active s' = sv_active s2" "sv_healthy s' = False" "sv_error s' = e"
    unfolding s' by (simp_all add: Let_def)
  have "um_find (sv_commands s') t = um_find (sv_commands ?s1) t" for t
  proof (cases "t \<in> dd_train_id ` set issued")
    case True
    then show ?thesis using w(1) round by auto
  next
    case False
    then have "find (\<lambda>d. dd_train_id d = t) issued = None" by (simp add: find_train_None)
    then show ?thesis using False w(1) round by simp
  qed
  then show ?thesis using res w(2-) frame round by (simp add: persistenceHealthy_def pendingCommands_one)
qed

lemma demo_update:
  assumes "demo_state s"
  shows "\<exists>r s'. updateTrains a s [] now wall = Done r s'"
proof -
  let ?s1 = "cleanupStaleLocked (s\<lparr>sv_last_snapshot := wall, sv_trains := []\<rparr>) wall"
  have ts: "sv_trains ?s1 = []"
    by (simp add: cleanupStaleLocked_def removeStale_def um_erase_if_def)
  have "\<exists>s2 issued. refreshCandidatesAndPlanLocked ?s1 now wall = Some (s2, issued)"
    by (simp add: refreshCandidatesAndPlanLocked_def ts monitor_snapshot_def rolling_plan_def collectArrivals_def build_def
        Let_def)
  then show ?thesis using demo_stateD(4) [OF assms]
    by (auto simp: updateTrains_def upsertBatch_def Let_def split: prod.split)
qed

lemma demo_not_stale: "demo_state s \<Longrightarrow> stale_after s [] wall = {}"
  using demo_stateD(4) by (auto simp: stale_after_def stale_trains_def upsertBatch_def)

lemma failed_persistence_exposes_nothing_witness:
  "\<exists>s r s'. demo_state s \<and> updateTrains (Some ''down'') s [] 5 5 = Done r s' \<and> br_issued_commands r = 0 \<and>
     persistenceHealthy s' = (False, ''down'') \<and> pendingCommands s' (Some ''T1'') = [demo_command]"
proof -
  obtain s where s: "demo_state s" using demo_state_exists by blast
  obtain r s' where u: "updateTrains (Some ''down'') s [] 5 5 = Done r s'" using demo_update [OF s] by blast
  have "pendingCommands s (Some ''T1'') = [demo_command]" using demo_stateD(2) [OF s] by (simp add: pendingCommands_one)
  then show ?thesis using failed_persistence_exposes_nothing [OF demo_stateD(1,3) [OF s] u] demo_not_stale [OF s] s u
    by auto
qed

text \<open>C9: every command can be answered. In every reachable state, an acknowledgement that names a waiting
  command is accepted (the database permitting). An accepted one makes the command an active
  passage and lets the train into the resource; a refused one ends the pending state of the
  resource and withdraws every booking of the train. In both cases the command is gone, no other
  command changes, and answering it again is refused without effect.\<close>

theorem every_command_can_be_answered:
  assumes "reachable sv_start sv_step s" and "um_find (sv_commands s) t = Some d"
  shows "\<exists>s' co. acknowledge None s (dd_corridor_resource_id d) t accepted now (dd_command_id d) = (True, s') \<and>
    (\<forall>t'. pendingCommands s' (Some t') = (if t' = t then [] else pendingCommands s (Some t'))) \<and>
    um_find (sv_active s') t = (if accepted then Some d else um_find (sv_active s) t) \<and>
    corridorState (sv_dispatch s) (dd_corridor_resource_id d) = Some co \<and>
    corridorState (sv_dispatch s') (dd_corridor_resource_id d) =
      Some (if accepted then confirmedCorridor co t now else co\<lparr>co_command_pending := False\<rparr>) \<and>
    (\<not> accepted \<longrightarrow> (\<forall>k. \<not> rm_holds (dm_reservations (sv_dispatch s')) t k)) \<and>
    (\<forall>answer rid accepted' now' cid. acknowledge answer s' rid t accepted' now' cid = (False, s'))"
proof -
  have inv: "svc_inv s" using sv.inv_reachable [OF assms(1)] .
  define s0 where "s0 = (if sv_persistence s then note_answer None s else s)"
  have s0: "svc_inv s0" "um_find (sv_commands s0) t = Some d" "sv_commands s0 = sv_commands s"
    "sv_active s0 = sv_active s" "sv_dispatch s0 = sv_dispatch s" using inv assms(2) by (simp_all add: s0_def)
  obtain s' where s': "finish_ack s0 (dd_corridor_resource_id d) t accepted now = (True, s')"
    "sv_commands s' = um_erase t (sv_commands s)"
    "sv_active s' = (if accepted then um_put t d (sv_active s) else sv_active s)"
    "sv_dispatch s' = snd (if accepted then confirmEntry (sv_dispatch s) (dd_corridor_resource_id d) t now
      else cancelPending (sv_dispatch s) (dd_corridor_resource_id d))"
    using finish_ack_ok [OF s0(1,2), of accepted now] unfolding s0(3-5) by blast
  have "\<not> ack_refused s (dd_corridor_resource_id d) t (dd_command_id d)" using assms(2) by (simp add: ack_refused_iff)
  then have ack: "acknowledge None s (dd_corridor_resource_id d) t accepted now (dd_command_id d) = (True, s')"
    using s'(1) by (simp add: acknowledge_def s0_def split: if_splits)
  obtain co p where co: "corridorState (sv_dispatch s) (dd_corridor_resource_id d) = Some co"
    "um_find (dm_pending_decisions (sv_dispatch s)) (dd_corridor_resource_id d) = Some p" "dd_train_id p = t"
    using svc_command [OF inv assms(2)] by blast
  note look = co(1) [unfolded corridorState_def]
  have "corridorState (sv_dispatch s') (dd_corridor_resource_id d) =
      Some (if accepted then confirmedCorridor co t now else co\<lparr>co_command_pending := False\<rparr>)"
    using co look by (simp add: s'(4) corridorState_def confirmEntry_def cancelPending_def clearPendingFlag_def Let_def
        umap_simps)
  moreover have "\<not> rm_holds (dm_reservations (sv_dispatch s')) t k" if "\<not> accepted" for k
    using that co look rms.cancel_holds [OF dm_inv_rm [OF disp_inv_dm [OF svc_disp [OF inv]]]]
    by (simp add: s'(4) cancelPending_def clearPendingFlag_def Let_def)
  moreover have "ack_refused s' rid t cid" for rid cid by (simp add: ack_refused_def s'(2) umap_simps)
  ultimately show ?thesis using ack co(1) s'(2,3)
    by (intro exI [of _ s'] exI [of _ co]) (auto simp: pendingCommands_one umap_simps acknowledge_def)
qed

lemma every_command_can_be_answered_witness:
  "\<exists>s s'. demo_state s \<and> acknowledge None s demo_forward ''T1'' True 9000 ''CMD:6'' = (True, s') \<and>
     pendingCommands s' (Some ''T1'') = [] \<and> um_find (sv_active s') ''T1'' = Some demo_command"
proof -
  obtain s where s: "demo_state s" using demo_state_exists by blast
  show ?thesis using every_command_can_be_answered [OF demo_stateD(1,2) [OF s], of True 9000] s
    unfolding demo_command_sel by auto
qed

text \<open>C33: the fairness credit of every line on every corridor stays a number between 0 and 3 in every
  reachable state of the service, however long a line was not served, and its target headway is never
  zero. The dispatch manager itself takes any credit it is given in \<open>upsertLineState\<close> (the service gives it
  0), but refuses a zero headway: in every sequence of its operations, with any arguments, no line
  it keeps has one, so the credit is never computed by a division by zero.\<close>

theorem fairness_credit_bounded:
  assumes "reachable sv_start sv_step s"
    and "um_find (dm_line_states (sv_dispatch s)) rid = Some lines" and "um_find lines l = Some st"
  shows "(\<exists>q. ld_fairness_credit st = Fin q \<and> 0 \<le> q \<and> q \<le> 3 \<and> ld_target_headway_ms st \<noteq> 0) \<and>
    (\<forall>m r lines l st. reachable dm_start dm_step m \<longrightarrow> um_find (dm_line_states m) r = Some lines \<longrightarrow>
       um_find lines l = Some st \<longrightarrow> ld_target_headway_ms st \<noteq> 0)"
proof (intro conjI allI impI)
  fix m r lines l st assume m: "reachable dm_start dm_step m"
    and *: "um_find (dm_line_states m) r = Some lines" "um_find lines l = Some st"
  have "credit_ok False st" using dm_inv_credits [OF dm.inv_reachable [OF m]] * unfolding credits_ok_def by blast
  then show "ld_target_headway_ms st \<noteq> 0" unfolding credit_ok_def by blast
next
  have "dm_inv True (sv_dispatch s)" using disp_inv_dm [OF svc_disp [OF sv.inv_reachable [OF assms(1)]]] .
  then have "credit_ok True st" using dm_inv_credits assms(2,3) unfolding credits_ok_def by blast
  then show "\<exists>q. ld_fairness_credit st = Fin q \<and> 0 \<le> q \<and> q \<le> 3 \<and> ld_target_headway_ms st \<noteq> 0"
    unfolding credit_ok_def by (cases "ld_fairness_credit st") auto
qed

lemma fairness_credit_bounded_witness:
  "\<exists>s lines st q. demo_state s \<and> um_find (dm_line_states (sv_dispatch s)) demo_forward = Some lines \<and>
     um_find lines ''A'' = Some st \<and> ld_fairness_credit st = Fin q \<and> 0 \<le> q \<and> q \<le> 3"
proof -
  obtain s where s: "demo_state s" using demo_state_exists by blast
  then obtain lines st where l: "um_find (dm_line_states (sv_dispatch s)) demo_forward = Some lines"
    "um_find lines ''A'' = Some st" by (auto simp: demo_state_def has_line_def)
  show ?thesis using fairness_credit_bounded [OF demo_stateD(1) [OF s] l, THEN conjunct1] s l by blast
qed

end
