(* ===== verification/Transport.thy ===== *)
theory Transport
  imports Prelude
begin

text \<open>
  \<open>Response.cpp\<close> and \<open>TcpConn.cpp\<close>: responses that are sent in pieces, the growing read
  buffer, and the state word of a connection. The operating system is a list of answers: each call
  of \<open>recv\<close>, \<open>writev\<close> or \<open>mmap\<close> consumes one. A loop that finds the list empty has not
  returned yet (\<open>None\<close>).
\<close>

subsection \<open>Responses\<close>

record memory_response =
  me_data :: string
  me_offset :: nat

definition MemoryResponse_new :: "string \<Rightarrow> string \<Rightarrow> memory_response" where
  "MemoryResponse_new header body = \<lparr>me_data = header @ body, me_offset = 0\<rparr>"

definition me_done :: "memory_response \<Rightarrow> bool" where
  "me_done r \<longleftrightarrow> me_offset r \<ge> length (me_data r)"

definition me_nextIovec :: "memory_response \<Rightarrow> string option" where
  "me_nextIovec r = (if me_done r then None else Some (drop (me_offset r) (me_data r)))"

definition me_consume :: "memory_response \<Rightarrow> nat \<Rightarrow> memory_response" where
  "me_consume r n = r\<lparr>me_offset := min (me_offset r + n) (length (me_data r))\<rparr>"

text \<open>A file is its mapped bytes; \<open>mapped\<close> is what \<open>mmap\<close> answers.\<close>

record file_response =
  fi_header :: string
  fi_header_offset :: nat
  fi_file_data :: "string option"
  fi_file_size :: nat
  fi_file_offset :: nat
  fi_valid :: bool

definition FileResponse_new :: "string option \<Rightarrow> string \<Rightarrow> nat \<Rightarrow> file_response" where
  "FileResponse_new mapped header sz =
     (let r = \<lparr>fi_header = header, fi_header_offset = 0, fi_file_data = None, fi_file_size = sz,
        fi_file_offset = 0, fi_valid = True\<rparr> in
      if sz > 0 then (case mapped of
          None \<Rightarrow> r\<lparr>fi_file_size := 0, fi_file_data := None, fi_valid := False\<rparr>
        | Some p \<Rightarrow> r\<lparr>fi_file_data := Some p\<rparr>) else r)"

definition fi_nextIovec :: "file_response \<Rightarrow> string option" where
  "fi_nextIovec r =
     (if fi_header_offset r < length (fi_header r) then Some (drop (fi_header_offset r) (fi_header r))
      else if fi_file_offset r < fi_file_size r then
        Some (take (fi_file_size r - fi_file_offset r) (drop (fi_file_offset r) (case fi_file_data r of None \<Rightarrow> [] | Some p \<Rightarrow> p)))
      else None)"

definition fi_consume :: "file_response \<Rightarrow> nat \<Rightarrow> file_response" where
  "fi_consume r n =
     (if fi_header_offset r < length (fi_header r) then
        let remain = length (fi_header r) - fi_header_offset r in
        if n < remain then r\<lparr>fi_header_offset := min (fi_header_offset r + n) (length (fi_header r))\<rparr>
        else r\<lparr>fi_header_offset := length (fi_header r),
               fi_file_offset := min (fi_file_offset r + (n - remain)) (fi_file_size r)\<rparr>
      else r\<lparr>fi_file_offset := min (fi_file_offset r + n) (fi_file_size r)\<rparr>)"

definition fi_done :: "file_response \<Rightarrow> bool" where
  "fi_done r \<longleftrightarrow> fi_header_offset r \<ge> length (fi_header r) \<and> fi_file_offset r \<ge> fi_file_size r"

text \<open>A chunked response is a queue of framed chunks; \<open>hex\<close> digits are lower case.\<close>

record chunked_response =
  ch_chunks :: "string list"
  ch_offset :: nat
  ch_finished :: bool

definition ChunkedResponse_new :: chunked_response where
  "ChunkedResponse_new = \<lparr>ch_chunks = [], ch_offset = 0, ch_finished = False\<rparr>"

fun hex_digits :: "nat \<Rightarrow> string" where
  "hex_digits n = (if n < 16 then [''0123456789abcdef'' ! n]
     else hex_digits (n div 16) @ [''0123456789abcdef'' ! (n mod 16)])"

declare hex_digits.simps [simp del]

definition line_end :: string where "line_end = [CHR 0x0D, CHR 0x0A]"

definition pushChunk :: "chunked_response \<Rightarrow> string \<Rightarrow> chunked_response" where
  "pushChunk r chunk = r\<lparr>ch_chunks := ch_chunks r @
     [hex_digits (length chunk) @ line_end @ chunk @ line_end]\<rparr>"

definition ch_nextIovec :: "chunked_response \<Rightarrow> string option" where
  "ch_nextIovec r = (case ch_chunks r of [] \<Rightarrow> None | front # _ \<Rightarrow> Some (drop (ch_offset r) front))"

definition ch_consume :: "chunked_response \<Rightarrow> nat \<Rightarrow> chunked_response" where
  "ch_consume r n = (case ch_chunks r of [] \<Rightarrow> r
     | front # later \<Rightarrow> let r1 = r\<lparr>ch_offset := ch_offset r + n\<rparr> in
         if ch_offset r1 \<ge> length front then r1\<lparr>ch_chunks := later, ch_offset := 0\<rparr> else r1)"

definition ch_done :: "chunked_response \<Rightarrow> bool" where
  "ch_done r \<longleftrightarrow> ch_finished r \<and> ch_chunks r = []"

text \<open>The abstract class: one of the three.\<close>

datatype http_response = Memory memory_response | File file_response | Chunked chunked_response

fun nextIovec :: "http_response \<Rightarrow> string option" where
  "nextIovec (Memory r) = me_nextIovec r"
| "nextIovec (File r) = fi_nextIovec r"
| "nextIovec (Chunked r) = ch_nextIovec r"

fun consume :: "http_response \<Rightarrow> nat \<Rightarrow> http_response" where
  "consume (Memory r) n = Memory (me_consume r n)"
| "consume (File r) n = File (fi_consume r n)"
| "consume (Chunked r) n = Chunked (ch_consume r n)"

fun resp_done :: "http_response \<Rightarrow> bool" where
  "resp_done (Memory r) = me_done r"
| "resp_done (File r) = fi_done r"
| "resp_done (Chunked r) = ch_done r"

text \<open>What is left to send.\<close>

fun unsent :: "http_response \<Rightarrow> string" where
  "unsent (Memory r) = drop (me_offset r) (me_data r)"
| "unsent (File r) = drop (fi_header_offset r) (fi_header r) @
     drop (fi_file_offset r) (take (fi_file_size r) (case fi_file_data r of None \<Rightarrow> [] | Some p \<Rightarrow> p))"
| "unsent (Chunked r) = (case ch_chunks r of [] \<Rightarrow> [] | c # cs \<Rightarrow> drop (ch_offset r) c @ concat cs)"

fun resp_ok :: "http_response \<Rightarrow> bool" where
  "resp_ok (Memory r) = True"
| "resp_ok (File r) = (fi_file_size r \<le> length (case fi_file_data r of None \<Rightarrow> [] | Some p \<Rightarrow> p))"
| "resp_ok (Chunked r) = ([] \<notin> set (ch_chunks r) \<and>
     (ch_chunks r \<noteq> [] \<longrightarrow> ch_offset r < length (hd (ch_chunks r))))"

subsection \<open>The interface of a response\<close>

text \<open>
  What \<open>TcpConn::write\<close> relies on: the next piece is a non-empty beginning of what is left,
  consuming what was sent drops it, and a response that says it is done has nothing left.
\<close>

locale sendable =
  fixes next_piece :: "'r \<Rightarrow> string option"
    and advance :: "'r \<Rightarrow> nat \<Rightarrow> 'r"
    and finished :: "'r \<Rightarrow> bool"
    and left :: "'r \<Rightarrow> string"
    and ok :: "'r \<Rightarrow> bool"
  assumes piece: "ok r \<Longrightarrow> next_piece r = Some p \<Longrightarrow> p \<noteq> [] \<and> (\<exists>t. left r = p @ t)"
    and no_piece: "ok r \<Longrightarrow> next_piece r = None \<longleftrightarrow> left r = []"
    and advance_left: "ok r \<Longrightarrow> next_piece r = Some p \<Longrightarrow> n \<le> length p \<Longrightarrow> left (advance r n) = drop n (left r)"
    and advance_ok: "ok r \<Longrightarrow> next_piece r = Some p \<Longrightarrow> n \<le> length p \<Longrightarrow> ok (advance r n)"
    and finished_left: "ok r \<Longrightarrow> finished r \<Longrightarrow> left r = []"
begin

lemma piece_nonempty: "ok r \<Longrightarrow> next_piece r = Some p \<Longrightarrow> p \<noteq> [] \<and> left r \<noteq> []"
  using piece by fastforce

lemma piece_conserved:
  "ok r \<Longrightarrow> next_piece r = Some p \<Longrightarrow> n \<le> length p \<Longrightarrow> take n p @ left (advance r n) = left r"
  using piece [of r p] advance_left [of r p n] by (auto simp: take_append)

lemma piece_progress:
  "ok r \<Longrightarrow> next_piece r = Some p \<Longrightarrow> 0 < n \<Longrightarrow> n \<le> length p \<Longrightarrow>
   length (left (advance r n)) < length (left r)"
  using piece_nonempty [of r p] advance_left [of r p n] by simp

end

lemma me_sendable:
  "me_nextIovec r = Some p \<Longrightarrow> p \<noteq> [] \<and> p = unsent (Memory r)"
  "me_nextIovec r = None \<longleftrightarrow> unsent (Memory r) = []"
  "me_nextIovec r = Some p \<Longrightarrow> n \<le> length p \<Longrightarrow> unsent (Memory (me_consume r n)) = drop n (unsent (Memory r))"
  by (auto simp: me_nextIovec_def me_done_def me_consume_def add.commute split: if_splits)

definition fi_bytes :: "file_response \<Rightarrow> string" where
  "fi_bytes r = (case fi_file_data r of None \<Rightarrow> [] | Some p \<Rightarrow> p)"

lemma fi_unsent: "unsent (File r) = drop (fi_header_offset r) (fi_header r) @
    drop (fi_file_offset r) (take (fi_file_size r) (fi_bytes r))"
  and fi_ok: "resp_ok (File r) \<longleftrightarrow> fi_file_size r \<le> length (fi_bytes r)"
  by (simp_all add: fi_bytes_def)

lemma fi_nextIovec_eq: "fi_nextIovec r =
  (if fi_header_offset r < length (fi_header r) then Some (drop (fi_header_offset r) (fi_header r))
   else if fi_file_offset r < fi_file_size r
     then Some (drop (fi_file_offset r) (take (fi_file_size r) (fi_bytes r))) else None)"
  by (simp add: fi_nextIovec_def fi_bytes_def drop_take)

lemma fi_sendable:
  assumes ok: "fi_file_size r \<le> length (fi_bytes r)"
  shows "fi_nextIovec r = Some p \<Longrightarrow> p \<noteq> [] \<and> (\<exists>t. unsent (File r) = p @ t)"
    and "fi_nextIovec r = None \<longleftrightarrow> unsent (File r) = []"
    and "fi_nextIovec r = Some p \<Longrightarrow> n \<le> length p \<Longrightarrow>
      unsent (File (fi_consume r n)) = drop n (unsent (File r))"
    and "fi_bytes (fi_consume r n) = fi_bytes r \<and> fi_file_size (fi_consume r n) = fi_file_size r"
proof -
  have len: "length (take (fi_file_size r) (fi_bytes r)) = fi_file_size r" using ok by simp
  show "fi_nextIovec r = Some p \<Longrightarrow> p \<noteq> [] \<and> (\<exists>t. unsent (File r) = p @ t)"
    unfolding fi_nextIovec_eq fi_unsent using len by (auto split: if_splits simp del: length_take)
  show "fi_nextIovec r = None \<longleftrightarrow> unsent (File r) = []"
    unfolding fi_nextIovec_eq fi_unsent using len by (auto simp del: length_take)
  show keep: "fi_bytes (fi_consume r n) = fi_bytes r \<and> fi_file_size (fi_consume r n) = fi_file_size r" for n
    by (simp add: fi_consume_def fi_bytes_def Let_def)
  assume p: "fi_nextIovec r = Some p" and n: "n \<le> length p"
  let ?b = "take (fi_file_size r) (fi_bytes r)"
  have cut: "drop (min k (fi_file_size r)) ?b = drop k ?b" for k
    using len by (simp add: min_def del: length_take)
  show "unsent (File (fi_consume r n)) = drop n (unsent (File r))"
  proof (cases "fi_header_offset r < length (fi_header r)")
    case True
    then have nn: "n \<le> length (fi_header r) - fi_header_offset r" using p n by (auto simp: fi_nextIovec_eq)
    show ?thesis
    proof (cases "n < length (fi_header r) - fi_header_offset r")
      case less: True
      then show ?thesis
        using True unfolding fi_unsent keep [THEN conjunct1] keep [THEN conjunct2]
        by (simp add: fi_consume_def add.commute min_absorb1)
    next
      case False
      with nn have e: "n = length (fi_header r) - fi_header_offset r" by simp
      show ?thesis
        using True cut [of "fi_file_offset r"]
        unfolding fi_unsent keep [THEN conjunct1] keep [THEN conjunct2]
        by (simp add: fi_consume_def e)
    qed
  next
    case False
    then show ?thesis
      using cut [of "fi_file_offset r + n"]
      unfolding fi_unsent keep [THEN conjunct1] keep [THEN conjunct2]
      by (simp add: fi_consume_def add.commute del: drop_take take_drop)
  qed
qed

lemma ch_sendable:
  assumes "resp_ok (Chunked r)"
  shows "ch_nextIovec r = Some p \<Longrightarrow> p \<noteq> [] \<and> (\<exists>t. unsent (Chunked r) = p @ t)"
    and "ch_nextIovec r = None \<longleftrightarrow> unsent (Chunked r) = []"
    and "ch_nextIovec r = Some p \<Longrightarrow> n \<le> length p \<Longrightarrow>
      unsent (Chunked (ch_consume r n)) = drop n (unsent (Chunked r)) \<and> resp_ok (Chunked (ch_consume r n))"
  using assms
  by (cases "ch_chunks r"; cases "tl (ch_chunks r)";
      auto simp: ch_nextIovec_def ch_consume_def Let_def add.commute split: if_splits)+

interpretation resp: sendable nextIovec consume resp_done unsent resp_ok
proof
  fix r p n
  assume ok: "resp_ok r"
  show "p \<noteq> [] \<and> (\<exists>t. unsent r = p @ t)" if "nextIovec r = Some p"
    using that ok me_sendable(1) fi_sendable(1) ch_sendable(1) by (cases r) (auto simp: fi_ok simp del: unsent.simps resp_ok.simps(2,3))
  show "nextIovec r = None \<longleftrightarrow> unsent r = []"
    using ok me_sendable(2) fi_sendable(2) ch_sendable(2) by (cases r) (auto simp: fi_ok simp del: unsent.simps resp_ok.simps(2,3))
  show "unsent (consume r n) = drop n (unsent r)" if "nextIovec r = Some p" "n \<le> length p"
    using that ok me_sendable(3) fi_sendable(3) ch_sendable(3)
    by (cases r) (auto simp: fi_ok simp del: unsent.simps resp_ok.simps)
  show "resp_ok (consume r n)" if "nextIovec r = Some p" "n \<le> length p"
    using that ok fi_sendable(4) ch_sendable(3)
    by (cases r) (auto simp: fi_ok simp del: unsent.simps resp_ok.simps(2,3))
  show "unsent r = []" if "resp_done r"
    using that ok by (cases r) (auto simp: me_done_def fi_done_def ch_done_def)
qed

subsection \<open>The connection\<close>

datatype conn_state = IDLE | READING | PROCESSING | WRITING | CLOSING | CLOSED
datatype write_status = COMPLETE | AGAIN | WRITE_ERROR
datatype errno = EAGAIN | EWOULDBLOCK | EINTR | EOTHER

definition INITIAL_READ_BUFFER_SIZE :: nat where "INITIAL_READ_BUFFER_SIZE = 4096"
definition MAX_READ_BUFFER_SIZE :: nat where "MAX_READ_BUFFER_SIZE = 16 * 1024 * 1024"

text \<open>\<open>tc_received\<close> is \<open>read_buf_\<close> up to \<open>read_idx_\<close>, \<open>tc_capacity\<close> its size. The
  descriptor of a fresh object is not initialised by the constructor: an argument.\<close>

record tcp_conn =
  tc_fd :: int
  tc_conn_id :: u64
  tc_received :: string
  tc_capacity :: nat
  tc_response :: "http_response option"
  tc_peer_closed_write :: bool
  tc_state :: conn_state

definition TcpConn_new :: "int \<Rightarrow> u64 \<Rightarrow> tcp_conn" where
  "TcpConn_new fd0 id0 = \<lparr>tc_fd = fd0, tc_conn_id = id0, tc_received = [], tc_capacity = INITIAL_READ_BUFFER_SIZE,
     tc_response = None, tc_peer_closed_write = False, tc_state = CLOSED\<rparr>"

definition tcp_init :: "tcp_conn \<Rightarrow> int \<Rightarrow> u64 \<Rightarrow> tcp_conn" where
  "tcp_init c fd cid = c\<lparr>tc_fd := fd, tc_conn_id := cid, tc_received := [], tc_peer_closed_write := False,
     tc_state := IDLE\<rparr>"

text \<open>The second component is the descriptor that is handed to \<open>close\<close>, if any.\<close>

definition tcp_closeConn :: "tcp_conn \<Rightarrow> tcp_conn \<times> int option" where
  "tcp_closeConn c = (let old = tc_state c; c1 = c\<lparr>tc_state := CLOSING\<rparr> in
     if old = CLOSED \<or> old = CLOSING then (c1, None)
     else if tc_fd c1 \<noteq> -1 then (c1\<lparr>tc_fd := -1, tc_state := CLOSED\<rparr>, Some (tc_fd c1))
     else (c1\<lparr>tc_state := CLOSED\<rparr>, None))"

definition tcp_isClosed :: "tcp_conn \<Rightarrow> bool" where
  "tcp_isClosed c \<longleftrightarrow> tc_state c = CLOSED \<or> tc_state c = CLOSING"

definition trySetState :: "tcp_conn \<Rightarrow> conn_state \<Rightarrow> conn_state \<Rightarrow> bool \<times> tcp_conn" where
  "trySetState c expected desired =
     (if tc_state c = expected then (True, c\<lparr>tc_state := desired\<rparr>) else (False, c))"

definition getState :: "tcp_conn \<Rightarrow> conn_state" where
  "getState c = tc_state c"

definition hasResponse :: "tcp_conn \<Rightarrow> bool" where
  "hasResponse c \<longleftrightarrow> tc_response c \<noteq> None"

definition resetReadState :: "tcp_conn \<Rightarrow> tcp_conn" where
  "resetReadState c = c\<lparr>tc_received := []\<rparr>"

definition resetWriteState :: "tcp_conn \<Rightarrow> tcp_conn" where
  "resetWriteState c = c\<lparr>tc_response := None\<rparr>"

definition tcp_reset :: "tcp_conn \<Rightarrow> tcp_conn" where
  "tcp_reset c = resetWriteState (resetReadState c)"

text \<open>
  An answer of \<open>recv\<close> is a run of bytes that has arrived (what does not fit into the buffer stays
  in the kernel for the next call; the empty run is the end of the stream) or an error.
\<close>

datatype rx = Data string | RxErr errno

fun rx_bytes :: "rx list \<Rightarrow> string" where
  "rx_bytes [] = []"
| "rx_bytes (Data bs # as) = bs @ rx_bytes as"
| "rx_bytes (RxErr _ # as) = rx_bytes as"

definition grow :: "tcp_conn \<Rightarrow> tcp_conn option" where
  "grow c = (if length (tc_received c) = tc_capacity c then
       if tc_capacity c \<ge> MAX_READ_BUFFER_SIZE then None
       else Some (c\<lparr>tc_capacity := min (tc_capacity c * 2) MAX_READ_BUFFER_SIZE\<rparr>)
     else Some c)"

text \<open>One call of \<open>recv\<close>: what is appended and what the kernel still has.\<close>

definition recv_some :: "tcp_conn \<Rightarrow> string \<Rightarrow> string \<times> rx list" where
  "recv_some c bs = (let room = tc_capacity c - length (tc_received c) in
     (take room bs, if length bs \<le> room then [] else [Data (drop room bs)]))"

fun read_loop :: "nat \<Rightarrow> tcp_conn \<Rightarrow> rx list \<Rightarrow> (bool \<times> tcp_conn \<times> rx list) option" where
  "read_loop 0 c as = None"
| "read_loop (Suc fuel) c as = (case grow c of None \<Rightarrow> Some (False, c, as)
     | Some c1 \<Rightarrow> (case as of [] \<Rightarrow> None
        | Data bs # as' \<Rightarrow>
            if bs \<noteq> [] then (case recv_some c1 bs of (got, kept) \<Rightarrow>
              read_loop fuel (c1\<lparr>tc_received := tc_received c1 @ got\<rparr>) (kept @ as'))
            else Some (length (tc_received c1) > 0, c1\<lparr>tc_peer_closed_write := True\<rparr>, as')
        | RxErr e # as' \<Rightarrow>
            if e = EAGAIN \<or> e = EWOULDBLOCK then Some (True, c1, as')
            else if e = EINTR then read_loop fuel c1 as'
            else Some (False, c1, as')))"

text \<open>Every round of the loop consumes a byte or an answer.\<close>

definition read_fuel :: "rx list \<Rightarrow> nat" where
  "read_fuel as = length as + length (rx_bytes as) + 1"

definition tcp_read :: "tcp_conn \<Rightarrow> rx list \<Rightarrow> (bool \<times> tcp_conn \<times> rx list) option" where
  "tcp_read c as = read_loop (read_fuel as) c as"

text \<open>An answer of \<open>writev\<close>: the number of bytes the kernel is willing to take, or an error.\<close>

datatype tx = Room nat | TxErr errno

fun write_loop :: "http_response \<Rightarrow> string \<Rightarrow> tx list \<Rightarrow> (write_status \<times> http_response \<times> string \<times> tx list) option" where
  "write_loop r wire as = (case nextIovec r of None \<Rightarrow> Some (COMPLETE, r, wire, as)
     | Some iov \<Rightarrow> (case as of [] \<Rightarrow> None
        | Room k # as' \<Rightarrow> let len = min k (length iov) in
            if len > 0 then let r1 = consume r len; wire1 = wire @ take len iov in
              if resp_done r1 then Some (COMPLETE, r1, wire1, as') else write_loop r1 wire1 as'
            else Some (AGAIN, r, wire, as')
        | TxErr e # as' \<Rightarrow>
            if e = EAGAIN \<or> e = EWOULDBLOCK then Some (AGAIN, r, wire, as')
            else if e = EINTR then write_loop r wire as'
            else Some (WRITE_ERROR, r, wire, as')))"

declare write_loop.simps [simp del]

text \<open>\<open>wire\<close> is everything the peer has been sent on this connection so far.\<close>

definition tcp_write :: "tcp_conn \<Rightarrow> string \<Rightarrow> tx list \<Rightarrow> (write_status \<times> tcp_conn \<times> string \<times> tx list) option" where
  "tcp_write c wire as = (case tc_response c of None \<Rightarrow> Some (COMPLETE, c, wire, as)
     | Some r \<Rightarrow> (case write_loop r wire as of None \<Rightarrow> None
        | Some (st, r1, wire1, as1) \<Rightarrow> Some (st, c\<lparr>tc_response := Some r1\<rparr>, wire1, as1)))"

subsection \<open>Sending\<close>

lemma write_loop_None: "nextIovec r = None \<Longrightarrow> write_loop r w as = Some (COMPLETE, r, w, as)"
  by (subst write_loop.simps) simp

lemma write_loop_Nil: "nextIovec r = Some iov \<Longrightarrow> write_loop r w [] = None"
  by (subst write_loop.simps) simp

lemma write_loop_Room: "nextIovec r = Some iov \<Longrightarrow> n = min k (length iov) \<Longrightarrow>
  write_loop r w (Room k # as) = (if 0 < n then if resp_done (consume r n)
    then Some (COMPLETE, consume r n, w @ take n iov, as) else write_loop (consume r n) (w @ take n iov) as
    else Some (AGAIN, r, w, as))"
  by (subst write_loop.simps) (simp add: Let_def)

lemma write_loop_TxErr: "nextIovec r = Some iov \<Longrightarrow> write_loop r w (TxErr e # as) =
  (if e = EAGAIN \<or> e = EWOULDBLOCK then Some (AGAIN, r, w, as)
   else if e = EINTR then write_loop r w as else Some (WRITE_ERROR, r, w, as))"
  by (subst write_loop.simps) simp

lemmas write_loop_rules = write_loop_None write_loop_Nil write_loop_Room [OF _ refl] write_loop_TxErr

lemma write_loop_sends:
  assumes "write_loop r w as = Some (st, r', w', as')" and "resp_ok r"
  shows "w' @ unsent r' = w @ unsent r \<and> resp_ok r' \<and> (st = COMPLETE \<longleftrightarrow> unsent r' = [])"
  using assms
proof (induction as arbitrary: r w)
  case Nil
  then show ?case
    by (cases "nextIovec r") (auto simp: write_loop_rules resp.no_piece [symmetric])
next
  case (Cons a as)
  show ?case
  proof (cases "nextIovec r")
    case None
    then have "st = COMPLETE" "r' = r" "w' = w" using Cons.prems by (simp_all add: write_loop_None)
    then show ?thesis using None resp.no_piece Cons.prems(2) by blast
  next
    case (Some iov)
    have left: "unsent r \<noteq> []" using resp.piece_nonempty [OF Cons.prems(2) Some] by simp
    show ?thesis
    proof (cases a)
      case (Room k)
      let ?n = "min k (length iov)"
      have n: "?n \<le> length iov" by simp
      note step = resp.piece_conserved [OF Cons.prems(2) Some n] resp.advance_ok [OF Cons.prems(2) Some n]
      show ?thesis
      proof (cases "0 < ?n")
        case True
        then have loop: "(if resp_done (consume r ?n) then Some (COMPLETE, consume r ?n, w @ take ?n iov, as)
            else write_loop (consume r ?n) (w @ take ?n iov) as) = Some (st, r', w', as')"
          using Cons.prems(1) Room write_loop_Room [OF Some refl, of w k as] by (simp only: if_True simp_thms)
        show ?thesis
        proof (cases "resp_done (consume r ?n)")
          case True
          then show ?thesis using loop step resp.finished_left [OF step(2) True] by auto
        next
          case False
          then have "write_loop (consume r ?n) (w @ take ?n iov) as = Some (st, r', w', as')"
            using loop by simp
          from Cons.IH [OF this step(2)] show ?thesis using step(1) by simp
        qed
      next
        case False
        then show ?thesis
          using Cons.prems left Room write_loop_Room [OF Some refl, of w k as] by auto
      qed
    next
      case (TxErr e)
      then show ?thesis
        using Cons left by (cases e) (auto simp: write_loop_TxErr [OF Some])
    qed
  qed
qed

text \<open>The calls of \<open>handleWrite\<close> for one response: again after every \<open>AGAIN\<close>.\<close>

fun write_calls :: "tcp_conn \<Rightarrow> string \<Rightarrow> tx list list \<Rightarrow> (write_status \<times> tcp_conn \<times> string) option" where
  "write_calls c wire [] = Some (AGAIN, c, wire)"
| "write_calls c wire (as # calls) = (case tcp_write c wire as of None \<Rightarrow> None
     | Some (st, c1, wire1, _) \<Rightarrow> if st = AGAIN then write_calls c1 wire1 calls else Some (st, c1, wire1))"

lemma write_calls_send:
  assumes "write_calls c w calls = Some (st, c', w')" "tc_response c = Some r" "resp_ok r"
  shows "\<exists>r'. tc_response c' = Some r' \<and> w' @ unsent r' = w @ unsent r \<and>
    (st = COMPLETE \<longrightarrow> unsent r' = []) \<and> (unsent r' = [] \<and> unsent r \<noteq> [] \<longrightarrow> st = COMPLETE)"
  using assms
proof (induction calls arbitrary: c w r)
  case (Cons as calls)
  obtain st1 r1 w1 as1 where l: "write_loop r w as = Some (st1, r1, w1, as1)"
    using Cons.prems by (auto simp: tcp_write_def split: option.splits)
  note sent = write_loop_sends [OF l Cons.prems(3)]
  show ?case
  proof (cases "st1 = AGAIN")
    case True
    then have "write_calls (c\<lparr>tc_response := Some r1\<rparr>) w1 calls = Some (st, c', w')"
      using Cons.prems l by (simp add: tcp_write_def)
    from Cons.IH [OF this] sent True show ?thesis by auto
  next
    case False
    then show ?thesis using Cons.prems l sent by (auto simp: tcp_write_def)
  qed
qed simp

text \<open>C13: a response reaches the peer exactly once and in order. However the kernel cuts it (partial
  writes, interruptions, full send buffers and later calls), what has been put on the wire followed by
  what is left is always the old wire followed by the response, and a call reports \<open>COMPLETE\<close> exactly
  when nothing is left.\<close>

theorem response_sent_exactly_once:
  assumes "tc_response c = Some r" and "resp_ok r" and "unsent r \<noteq> []"
    and "write_calls c w calls = Some (st, c', w')"
  shows "\<exists>t. w @ unsent r = w' @ t \<and> (st = COMPLETE \<longleftrightarrow> t = []) \<and>
    (\<exists>r'. tc_response c' = Some r' \<and> unsent r' = t)"
  using write_calls_send [OF assms(4,1,2)] assms(3) by fastforce

text \<open>Progress: without interruptions, a call needs no more answers than bytes.\<close>

lemma write_loop_returns:
  assumes "resp_ok r" "length (unsent r) \<le> length (filter (\<lambda>a. a \<noteq> TxErr EINTR) as)"
  shows "write_loop r w as \<noteq> None"
  using assms
proof (induction as arbitrary: r w)
  case Nil
  then show ?case using resp.no_piece [of r] by (simp add: write_loop_None)
next
  case (Cons a as)
  show ?case
  proof (cases "nextIovec r")
    case None
    then show ?thesis by (simp add: write_loop_None)
  next
    case (Some iov)
    show ?thesis
    proof (cases a)
      case (Room k)
      let ?n = "min k (length iov)"
      have n: "?n \<le> length iov" by simp
      have "write_loop (consume r ?n) (w @ take ?n iov) as \<noteq> None" if "0 < ?n"
        by (rule Cons.IH [OF resp.advance_ok [OF Cons.prems(1) Some n]])
          (use resp.piece_progress [OF Cons.prems(1) Some that n] Cons.prems(2) Room in simp)
      then show ?thesis using Room write_loop_Room [OF Some refl, of w k as] by auto
    next
      case (TxErr e)
      then show ?thesis using Cons by (cases e) (auto simp: write_loop_TxErr [OF Some])
    qed
  qed
qed

lemma response_sent_exactly_once_witness:
  "\<exists>t. ''abcdef'' = ''abcd'' @ t \<and> t = ''ef''"
proof -
  let ?c = "(TcpConn_new 3 1)\<lparr>tc_response := Some (Memory (MemoryResponse_new ''ab'' ''cdef''))\<rparr>"
  have "write_calls ?c [] [[Room 1, TxErr EINTR, Room 3, TxErr EAGAIN]] =
      Some (AGAIN, ?c\<lparr>tc_response := Some (Memory \<lparr>me_data = ''abcdef'', me_offset = 4\<rparr>)\<rparr>, ''abcd'')"
    by code_simp
  from response_sent_exactly_once [OF _ _ _ this, of "Memory (MemoryResponse_new ''ab'' ''cdef'')"]
  show ?thesis by (auto simp: MemoryResponse_new_def)
qed

subsection \<open>Receiving\<close>

definition conn_ok :: "tcp_conn \<Rightarrow> bool" where
  "conn_ok c \<longleftrightarrow> 0 < tc_capacity c \<and> tc_capacity c \<le> MAX_READ_BUFFER_SIZE \<and>
     length (tc_received c) \<le> tc_capacity c"

definition rx_final :: "rx \<Rightarrow> bool" where
  "rx_final a \<longleftrightarrow> a = Data [] \<or> (\<exists>e. a = RxErr e \<and> e \<noteq> EINTR)"

lemma conn_ok_new [simp]: "conn_ok (TcpConn_new fd cid)"
  by (simp add: conn_ok_def TcpConn_new_def INITIAL_READ_BUFFER_SIZE_def MAX_READ_BUFFER_SIZE_def)

lemma rx_bytes_append [simp]: "rx_bytes (as @ bs) = rx_bytes as @ rx_bytes bs"
  by (induction as rule: rx_bytes.induct) auto

lemma grow_room:
  assumes "conn_ok c" "grow c = Some c1"
  shows "conn_ok c1 \<and> length (tc_received c1) < tc_capacity c1 \<and> tc_received c1 = tc_received c"
  using assms by (auto simp: grow_def conn_ok_def split: if_splits)

lemma recv_some_parts:
  assumes "recv_some c bs = (got, kept)"
  shows "got @ rx_bytes kept = bs" and "length got \<le> tc_capacity c - length (tc_received c)"
    and "bs \<noteq> [] \<Longrightarrow> length (tc_received c) < tc_capacity c \<Longrightarrow> got \<noteq> []" and "length kept \<le> 1"
    and "rx_final a \<Longrightarrow> a \<notin> set kept"
  using assms by (auto simp: recv_some_def Let_def rx_final_def split: if_splits)

lemma read_loop_keeps:
  assumes "read_loop fuel c as = Some (res, c', as')" and "conn_ok c"
  shows "conn_ok c' \<and> (\<exists>got. tc_received c' = tc_received c @ got \<and> rx_bytes as = got @ rx_bytes as')"
  using assms
proof (induction fuel arbitrary: c as)
  case (Suc fuel)
  show ?case
  proof (cases "grow c")
    case None
    then show ?thesis using Suc.prems by auto
  next
    case (Some c1)
    have g: "conn_ok c1" "length (tc_received c1) < tc_capacity c1" "tc_received c1 = tc_received c"
      using grow_room [OF Suc.prems(2) Some] by blast+
    show ?thesis
    proof (cases as)
      case Nil
      then show ?thesis using Suc.prems Some by simp
    next
      case (Cons a ks)
      show ?thesis
      proof (cases a)
        case (Data bs)
        show ?thesis
        proof (cases "bs = []")
          case True
          then show ?thesis using Suc.prems Some Cons Data g by (auto simp: conn_ok_def)
        next
          case False
          obtain got kept where rs: "recv_some c1 bs = (got, kept)" by (cases "recv_some c1 bs")
          note parts = recv_some_parts [OF rs]
          have ok: "conn_ok (c1\<lparr>tc_received := tc_received c1 @ got\<rparr>)"
            using g(1,2) parts(2) by (auto simp: conn_ok_def)
          have "read_loop fuel (c1\<lparr>tc_received := tc_received c1 @ got\<rparr>) (kept @ ks) = Some (res, c', as')"
            using Suc.prems(1) Some Cons Data False rs by simp
          from Suc.IH [OF this ok] obtain got2 where
            "conn_ok c'" "tc_received c' = tc_received c @ got @ got2" "rx_bytes kept @ rx_bytes ks = got2 @ rx_bytes as'"
            using g by auto
          moreover have "rx_bytes as = (got @ rx_bytes kept) @ rx_bytes ks" by (simp only: Cons Data rx_bytes.simps parts(1))
          ultimately show ?thesis by (intro conjI exI [of _ "got @ got2"]) simp_all
        qed
      next
        case (RxErr e)
        then show ?thesis using Suc.prems Suc.IH [of c1 ks] Some Cons g by (cases e) auto
      qed
    qed
  qed
qed simp

lemma read_loop_returns:
  assumes "conn_ok c" "read_fuel as \<le> fuel" "\<exists>a \<in> set as. rx_final a"
  shows "read_loop fuel c as \<noteq> None"
  using assms
proof (induction fuel arbitrary: c as)
  case 0
  then show ?case by (simp add: read_fuel_def)
next
  case (Suc fuel)
  show ?case
  proof (cases "grow c")
    case (Some c1)
    have g: "conn_ok c1" "length (tc_received c1) < tc_capacity c1" "tc_received c1 = tc_received c"
      using grow_room [OF Suc.prems(1) Some] by blast+
    obtain a ks where as: "as = a # ks" using Suc.prems(3) by (cases as) auto
    show ?thesis
    proof (cases a)
      case (Data bs)
      show ?thesis
      proof (cases "bs = []")
        case False
        obtain got kept where rs: "recv_some c1 bs = (got, kept)" by (cases "recv_some c1 bs")
        note parts = recv_some_parts [OF rs]
        have "got \<noteq> []" by (rule parts(3) [OF False g(2)])
        then obtain x xs where x: "got = x # xs" by (cases got) auto
        have "length bs = length got + length (rx_bytes kept)" by (simp flip: parts(1))
        then have "read_fuel (kept @ ks) \<le> fuel"
          using Suc.prems(2) parts(4) by (simp add: read_fuel_def as Data x)
        moreover have "\<exists>x \<in> set (kept @ ks). rx_final x"
          using Suc.prems(3) False by (auto simp: as Data rx_final_def)
        moreover have "conn_ok (c1\<lparr>tc_received := tc_received c1 @ got\<rparr>)"
          using g(1,2) parts(2) by (auto simp: conn_ok_def)
        ultimately show ?thesis using Suc.IH Some as Data False rs by simp
      qed (use Some as Data in simp)
    next
      case (RxErr e)
      have "read_fuel ks \<le> fuel" using Suc.prems(2) by (simp add: read_fuel_def as RxErr)
      moreover have "\<exists>x \<in> set ks. rx_final x" if "e = EINTR"
        using Suc.prems(3) that by (auto simp: as RxErr rx_final_def)
      ultimately show ?thesis using Suc.IH [of c1 ks] g Some as RxErr by (cases e) auto
    qed
  qed simp
qed

text \<open>C37: reading. When the kernel's answers contain one that ends the loop (the end of the stream,
  would-block or an error), \<open>read\<close> returns; the buffer never exceeds 16 MiB; and the bytes it appended,
  followed by what the kernel still holds, are exactly the bytes that had arrived, in order.\<close>

theorem read_keeps_every_byte:
  assumes "conn_ok c" and "\<exists>a \<in> set as. rx_final a"
  shows "\<exists>res c' as' got. tcp_read c as = Some (res, c', as') \<and>
    tc_received c' = tc_received c @ got \<and> rx_bytes as = got @ rx_bytes as' \<and>
    length (tc_received c') \<le> tc_capacity c' \<and> tc_capacity c' \<le> MAX_READ_BUFFER_SIZE"
proof -
  obtain res c' as' where r: "read_loop (read_fuel as) c as = Some (res, c', as')"
    using read_loop_returns [OF assms(1) order.refl assms(2)] by auto
  then show ?thesis
    using read_loop_keeps [OF r assms(1)] unfolding tcp_read_def conn_ok_def by fastforce
qed

lemma read_keeps_every_byte_witness:
  "\<exists>res c' as'. tcp_read (TcpConn_new 3 1) [Data ''GET'', RxErr EINTR, Data '' /'', RxErr EAGAIN] = Some (res, c', as')"
  using read_keeps_every_byte [OF conn_ok_new, of "[Data ''GET'', RxErr EINTR, Data '' /'', RxErr EAGAIN]" 3 1]
  by (fastforce simp: rx_final_def)

end
