(* ===== verification/Http.thy ===== *)
theory Http
  imports Text Transport "HOL-Library.Sublist"
begin

text \<open>
  \<open>HttpConn.cpp\<close>, the protocol half: finding the end of the header in the read buffer, the
  request line, the header fields, the body, and the responses that are built from memory or from
  a file. The bytes received so far (\<open>read_buf_\<close> up to \<open>read_idx_\<close>) are an argument of
  \<open>parse\<close>; they are parsed again from the beginning whenever more have arrived.

  A stream that is read with \<open>>>\<close> is the option of what is left of it, \<open>None\<close> once it has
  failed: a failed extraction leaves the target string as it was, which matters because the
  targets are members that survive from one request of a connection to the next.
\<close>

subsection \<open>Strings of the standard library\<close>

definition CR :: char where "CR = CHR 0x0D"
definition LF :: char where "LF = CHR 0x0A"
definition crlf :: string where "crlf = [CR, LF]"
definition header_end :: string where "header_end = [CR, LF, CR, LF]"

text \<open>\<open>std::string::find\<close> of a substring and \<open>rfind\<close> of a character.\<close>

fun find_sub :: "string \<Rightarrow> string \<Rightarrow> nat option" where
  "find_sub p s = (if prefix p s then Some 0
     else case s of [] \<Rightarrow> None | _ # t \<Rightarrow> map_option Suc (find_sub p t))"

declare find_sub.simps [simp del]

definition find_char :: "char \<Rightarrow> string \<Rightarrow> nat option" where
  "find_char c s = (if c \<in> set s then Some (length (takeWhile (\<lambda>x. x \<noteq> c) s)) else None)"

definition rfind_char :: "char \<Rightarrow> string \<Rightarrow> nat option" where
  "rfind_char c s = (if c \<in> set s
     then Some (length s - 1 - length (takeWhile (\<lambda>x. x \<noteq> c) (rev s))) else None)"

definition endsWith :: "string \<Rightarrow> string \<Rightarrow> bool" where
  "endsWith str suf = (if length str < length suf then False
     else drop (length str - length suf) str = suf)"

definition tolower :: "char \<Rightarrow> char" where
  "tolower c = (if 65 \<le> (of_char c :: nat) \<and> (of_char c :: nat) \<le> 90
     then char_of (of_char c + 32 :: nat) else c)"

definition lower :: "string \<Rightarrow> string" where
  "lower s = map tolower s"

text \<open>The lines \<open>std::getline\<close> delivers until it fails.\<close>

function getlines :: "string \<Rightarrow> string list" where
  "getlines s = (if s = [] then [] else takeWhile (\<lambda>c. c \<noteq> LF) s #
     getlines (drop 1 (dropWhile (\<lambda>c. c \<noteq> LF) s)))"
  by auto
termination
  by (relation "measure length") (auto simp: less_Suc_eq_le length_dropWhile_le
      intro: le_less_trans [OF diff_le_mono [OF length_dropWhile_le]] diff_less)

declare getlines.simps [simp del]

text \<open>\<open>stream >> target\<close>: white space is skipped, then a token is taken.\<close>

definition is_space :: "char \<Rightarrow> bool" where
  "is_space c \<longleftrightarrow> c = CHR '' '' \<or> (9 \<le> (of_char c :: nat) \<and> (of_char c :: nat) \<le> 13)"

fun stream_read :: "string option \<Rightarrow> string \<Rightarrow> string \<times> string option" where
  "stream_read None target = (target, None)"
| "stream_read (Some s) target = (let t = dropWhile is_space s in if t = [] then (target, None)
     else (takeWhile (\<lambda>c. \<not> is_space c) t, Some (dropWhile (\<lambda>c. \<not> is_space c) t)))"

text \<open>\<open>std::from_chars\<close> into a \<open>size_t\<close>, required to consume everything.\<close>

definition parse_size :: "string \<Rightarrow> size_t option" where
  "parse_size s = (if s \<noteq> [] \<and> list_all is_digit s \<and> digits_value s < 2 ^ 64
     then Some (of_nat (digits_value s)) else None)"

subsection \<open>The connection\<close>

datatype parse_state = REQUEST_LINE | HEADERS | BODY | PARSE_ERROR | FINISH

record http_conn =
  hc_state :: parse_state
  hc_method :: string
  hc_path :: string
  hc_version :: string
  hc_headers :: "(string, string) umap"
  hc_body :: string
  hc_keep_alive :: bool
  hc_content_length :: size_t

definition new_http_conn :: http_conn where
  "new_http_conn = \<lparr>hc_state = REQUEST_LINE, hc_method = [], hc_path = [], hc_version = [],
     hc_headers = [], hc_body = [], hc_keep_alive = False, hc_content_length = 0\<rparr>"

subsection \<open>The request\<close>

definition parseRequestLine :: "http_conn \<Rightarrow> string \<Rightarrow> bool \<times> http_conn" where
  "parseRequestLine c line =
     (let (m, s1) = stream_read (Some line) (hc_method c);
          (p, s2) = stream_read s1 (hc_path c);
          (v, s3) = stream_read s2 (hc_version c);
          (trailing, s4) = stream_read s3 [];
          c' = c\<lparr>hc_method := m, hc_path := p, hc_version := v\<rparr>
      in (if m = [] \<or> p = [] \<or> (v \<noteq> ''HTTP/1.0'' \<and> v \<noteq> ''HTTP/1.1'') \<or> s4 \<noteq> None
          then False else True, c'))"

definition parseHeader :: "http_conn \<Rightarrow> string \<Rightarrow> bool \<times> http_conn" where
  "parseHeader c line = (case find_char CHR '':'' line of None \<Rightarrow> (False, c)
     | Some pos \<Rightarrow>
        let key = lower (take pos line);
            value = lower (dropWhile (\<lambda>x. x = CHR '' '') (drop (pos + 1) line));
            c1 = c\<lparr>hc_headers := um_put key value (hc_headers c)\<rparr>
        in if key = ''connection'' then
             (True, if value = ''close'' then c1\<lparr>hc_keep_alive := False\<rparr>
               else if value = ''keep-alive'' then c1\<lparr>hc_keep_alive := True\<rparr> else c1)
           else if key = ''content-length'' then
             (case parse_size value of None \<Rightarrow> (False, c1)
              | Some parsed \<Rightarrow> if unat parsed > MAX_READ_BUFFER_SIZE then (False, c1)
                  else (True, c1\<lparr>hc_content_length := parsed\<rparr>))
           else (True, c1))"

definition drop_cr :: "string \<Rightarrow> string" where
  "drop_cr line = (if line \<noteq> [] \<and> last line = CR then butlast line else line)"

text \<open>The loop over the lines: \<open>Inl\<close> when \<open>parse\<close> returns from inside it.\<close>

fun parse_lines :: "http_conn \<Rightarrow> string list \<Rightarrow> http_conn + http_conn" where
  "parse_lines c [] = Inr (c\<lparr>hc_state := (if hc_content_length c = 0 then FINISH else BODY)\<rparr>)"
| "parse_lines c (l # ls) =
     (let line = drop_cr l in
      if hc_state c = REQUEST_LINE then
        (case parseRequestLine c line of (ok, c1) \<Rightarrow>
          if \<not> ok then Inl (c1\<lparr>hc_state := PARSE_ERROR\<rparr>)
          else let c2 = c1\<lparr>hc_state := HEADERS\<rparr>;
                   c3 = (if hc_version c2 = ''HTTP/1.0'' then c2\<lparr>hc_keep_alive := False\<rparr> else c2)
               in parse_lines c3 ls)
      else if hc_state c = HEADERS then
        (case parseHeader c line of (ok, c1) \<Rightarrow>
          if \<not> ok then Inl (c1\<lparr>hc_state := PARSE_ERROR\<rparr>) else parse_lines c1 ls)
      else parse_lines c ls)"

definition parse :: "http_conn \<Rightarrow> string \<Rightarrow> http_conn" where
  "parse c data = (case find_sub header_end data of None \<Rightarrow> c
     | Some pos \<Rightarrow>
        let header_part = take pos data;
            c0 = c\<lparr>hc_headers := [], hc_body := [], hc_keep_alive := True, hc_content_length := 0\<rparr>
        in case parse_lines c0 (getlines header_part) of Inl c1 \<Rightarrow> c1
           | Inr c1 \<Rightarrow>
              if hc_state c1 = BODY then
                let body_start = pos + 4 in
                if length data < body_start + unat (hc_content_length c1) then c1
                else c1\<lparr>hc_body := take (unat (hc_content_length c1)) (drop body_start data),
                        hc_state := FINISH\<rparr>
              else c1\<lparr>hc_state := FINISH\<rparr>)"

subsection \<open>Responses\<close>

text \<open>\<open>std::make_unique<MemoryResponse>(header, body)\<close>.\<close>

abbreviation memory_resp :: "string \<Rightarrow> string \<Rightarrow> http_response" where
  "memory_resp header body \<equiv> Memory (MemoryResponse_new header body)"

definition json_header :: "bool \<Rightarrow> nat \<Rightarrow> string \<Rightarrow> string \<Rightarrow> string" where
  "json_header keep_alive code status body =
     ''HTTP/1.1 '' @ nat_digits code @ '' '' @ status @ crlf @
     ''Content-Type: application/json'' @ crlf @
     ''Content-Length: '' @ nat_digits (length body) @ crlf @
     (if keep_alive then ''Connection: keep-alive'' @ crlf else ''Connection: close'' @ crlf) @ crlf"

definition buildJsonResponse :: "http_conn \<Rightarrow> nat \<Rightarrow> string \<Rightarrow> string \<Rightarrow> http_response" where
  "buildJsonResponse c code status body = memory_resp (json_header (hc_keep_alive c) code status body) body"

definition doc_root :: string where "doc_root = ''./files''"

definition safePath :: "string \<Rightarrow> string" where
  "safePath path = (if find_sub ''..'' path \<noteq> None then doc_root @ ''/403.html''
     else if path = ''/'' then doc_root @ ''/index.html'' else doc_root @ path)"

definition mime_map :: "(string, string) umap" where
  "mime_map = [(''.html'', ''text/html''), (''.htm'', ''text/html''), (''.css'', ''text/css''),
     (''.js'', ''application/javascript''), (''.json'', ''application/json''),
     (''.png'', ''image/png''), (''.jpg'', ''image/jpeg''), (''.jpeg'', ''image/jpeg''),
     (''.gif'', ''image/gif''), (''.bmp'', ''image/bmp''), (''.webp'', ''image/webp''),
     (''.svg'', ''image/svg+xml''), (''.ico'', ''image/x-icon''), (''.txt'', ''text/plain''),
     (''.pdf'', ''application/pdf''), (''.mp4'', ''video/mp4''), (''.webm'', ''video/webm''),
     (''.mp3'', ''audio/mpeg''), (''.wav'', ''audio/wav''), (''.zip'', ''application/zip''),
     (''.tar'', ''application/x-tar''), (''.gz'', ''application/gzip''),
     (''.xml'', ''application/xml'')]"

definition getFileType :: "string \<Rightarrow> string" where
  "getFileType path = (case rfind_char CHR ''.'' path of None \<Rightarrow> ''application/octet-stream''
     | Some pos \<Rightarrow> (case um_find mime_map (drop pos path) of Some t \<Rightarrow> t
         | None \<Rightarrow> ''application/octet-stream''))"

text \<open>What the file system answers: \<open>stat\<close> (the size of a file that is not a directory),
  whether \<open>open\<close> succeeds, and the bytes that \<open>mmap\<close> gives, if it succeeds.\<close>

record file_system =
  fs_stat :: "string \<Rightarrow> nat option"
  fs_open :: "string \<Rightarrow> bool"
  fs_mmap :: "string \<Rightarrow> string option"

definition error_body :: "string \<Rightarrow> string \<Rightarrow> string \<Rightarrow> http_response" where
  "error_body status fields_text body = memory_resp (''HTTP/1.1 '' @ status @ crlf @
     ''Content-Length: '' @ nat_digits (length body) @ crlf @ fields_text @ crlf) body"

definition buildFileResponse :: "file_system \<Rightarrow> http_conn \<Rightarrow> http_response \<times> http_conn" where
  "buildFileResponse fs c = (let file_path = safePath (hc_path c) in
     case fs_stat fs file_path of
       None \<Rightarrow> (error_body ''404 Not Found'' (''Content-Type: text/plain'' @ crlf) ''404 Not Found'', c)
     | Some sz \<Rightarrow>
        if \<not> fs_open fs file_path then (error_body ''500 Internal Error'' [] ''500 Internal Error'', c)
        else
          let header = ''HTTP/1.1 200 OK'' @ crlf @
                ''Content-Length: '' @ nat_digits sz @ crlf @
                ''Content-Type: '' @ getFileType file_path @ crlf @
                (if hc_keep_alive c then ''Connection: keep-alive'' @ crlf
                 else ''Connection: close'' @ crlf) @ crlf;
              file_response = FileResponse_new (fs_mmap fs file_path) header sz
          in if \<not> fi_valid file_response then
               (error_body ''500 Internal Server Error''
                  (''Content-Type: text/plain'' @ crlf @ ''Connection: close'' @ crlf) ''500 Internal Error'',
                c\<lparr>hc_keep_alive := False\<rparr>)
             else (File file_response, c))"

definition isKeepAlive :: "http_conn \<Rightarrow> bool" where
  "isKeepAlive c = hc_keep_alive c"

subsection \<open>Searching\<close>

lemma find_sub_Some_iff:
  "find_sub p s = Some i \<longleftrightarrow> i \<le> length s \<and> prefix p (drop i s) \<and> (\<forall>j < i. \<not> prefix p (drop j s))"
proof (induction s arbitrary: i)
  case Nil
  then show ?case by (auto simp: find_sub.simps [of p "[]"])
next
  case (Cons x s)
  show ?case
  proof (cases "prefix p (x # s)")
    case True
    then show ?thesis by (auto simp: find_sub.simps [of p "x # s"])
  next
    case False
    then show ?thesis
      by (cases i) (auto simp: find_sub.simps [of p "x # s"] Cons.IH All_less_Suc2)
  qed
qed

lemma find_sub_None_iff: "find_sub p s = None \<longleftrightarrow> \<not> sublist p s"
proof (induction s)
  case Nil
  then show ?case by (simp add: find_sub.simps [of p "[]"])
next
  case (Cons x s)
  then show ?case by (simp add: find_sub.simps [of p "x # s"] sublist_Cons_right)
qed

lemma prefix_take_iff: "prefix p (take n s) \<longleftrightarrow> prefix p s \<and> length p \<le> n"
proof
  assume *: "prefix p (take n s)"
  then have "prefix p s" using take_is_prefix prefix_order.trans by blast
  with prefix_length_le [OF *] show "prefix p s \<and> length p \<le> n" by simp
next
  assume *: "prefix p s \<and> length p \<le> n"
  then have "length p \<le> length (take n s)" using prefix_length_le [of p s] by simp
  with * show "prefix p (take n s)"
    using prefix_length_prefix [of p s "take n s"] take_is_prefix [of n s] by blast
qed

lemma find_sub_take:
  assumes "find_sub p s = Some i"
  shows "find_sub p (take n s) = (if i + length p \<le> n then Some i else None)"
proof (cases "i + length p \<le> n")
  case True
  have "prefix p (drop i (take n s))"
    using assms True by (simp add: find_sub_Some_iff drop_take prefix_take_iff)
  moreover have "\<not> prefix p (drop j (take n s))" if "j < i" for j
    using assms that by (simp add: find_sub_Some_iff drop_take prefix_take_iff)
  ultimately have "find_sub p (take n s) = Some i"
    using assms True by (simp add: find_sub_Some_iff)
  then show ?thesis using True by simp
next
  case False
  have "find_sub p (take n s) \<noteq> Some j" for j
  proof
    assume "find_sub p (take n s) = Some j"
    then have j: "prefix p (drop j s)" "length p \<le> n - j" "j \<le> length (take n s)"
      by (simp_all add: find_sub_Some_iff drop_take prefix_take_iff)
    then have "i \<le> j" using assms by (meson find_sub_Some_iff not_le_imp_less)
    moreover have "j + length p \<le> n" using j(2,3) by auto
    ultimately show False using False by simp
  qed
  then show ?thesis using False by (cases "find_sub p (take n s)") auto
qed

lemma find_sub_append:
  assumes "find_sub p s = Some i" shows "find_sub p (s @ t) = Some i"
proof -
  have *: "prefix p (drop i s)" "i \<le> length s" "\<And>j. j < i \<Longrightarrow> \<not> prefix p (drop j s)"
    using assms by (auto simp: find_sub_Some_iff)
  have len: "i + length p \<le> length s" using prefix_length_le [OF *(1)] *(2) by simp
  have "\<not> prefix p (drop j (s @ t))" if "j < i" for j
  proof
    assume "prefix p (drop j (s @ t))"
    then have "prefix p (take (length s - j) (drop j (s @ t)))"
      using len that by (simp add: prefix_take_iff del: drop_append)
    with *(3) [OF that] show False by simp
  qed
  then show ?thesis using * by (simp add: find_sub_Some_iff)
qed

subsection \<open>Well-formed requests\<close>

text \<open>
  A request as a client sends it: a request line of three tokens, header fields whose names hold
  no colon, each line without CR and LF, and a body whose length the last field announces.
\<close>

definition token :: "string \<Rightarrow> bool" where
  "token s \<longleftrightarrow> s \<noteq> [] \<and> list_all (\<lambda>c. \<not> is_space c) s"

definition line_text :: "string \<Rightarrow> bool" where
  "line_text s \<longleftrightarrow> list_all (\<lambda>c. c \<noteq> CR \<and> c \<noteq> LF) s"

definition field_ok :: "string \<times> string \<Rightarrow> bool" where
  "field_ok kv \<longleftrightarrow> line_text (fst kv) \<and> line_text (snd kv) \<and> CHR '':'' \<notin> set (fst kv) \<and>
     lower (fst kv) \<noteq> ''content-length''"

definition field_line :: "string \<times> string \<Rightarrow> string" where
  "field_line kv = fst kv @ '': '' @ snd kv"

definition with_length :: "(string \<times> string) list \<Rightarrow> string \<Rightarrow> (string \<times> string) list" where
  "with_length hs body = hs @ [(''Content-Length'', nat_digits (length body))]"

fun join_lines :: "string list \<Rightarrow> string" where
  "join_lines [] = []"
| "join_lines [l] = l"
| "join_lines (l # ls) = l @ crlf @ join_lines ls"

definition request_text :: "string \<Rightarrow> string \<Rightarrow> string \<Rightarrow> (string \<times> string) list \<Rightarrow> string \<Rightarrow> string" where
  "request_text m p v hs body =
     join_lines ((m @ '' '' @ p @ '' '' @ v) # map field_line (with_length hs body)) @
     header_end @ body"

definition request_ok :: "string \<Rightarrow> string \<Rightarrow> string \<Rightarrow> (string \<times> string) list \<Rightarrow> string \<Rightarrow> bool" where
  "request_ok m p v hs body \<longleftrightarrow> token m \<and> token p \<and> (v = ''HTTP/1.0'' \<or> v = ''HTTP/1.1'') \<and>
     list_all field_ok hs \<and> length body \<le> MAX_READ_BUFFER_SIZE"

text \<open>What the fields of a request mean: the last one of a name counts.\<close>

definition field_value :: "string \<Rightarrow> string" where
  "field_value v = lower (dropWhile (\<lambda>x. x = CHR '' '') v)"

definition fields_map :: "(string \<times> string) list \<Rightarrow> (string, string) umap" where
  "fields_map hs = fold (\<lambda>kv. um_put (lower (fst kv)) (field_value (snd kv))) hs []"

definition wants_keep_alive :: "string \<Rightarrow> (string \<times> string) list \<Rightarrow> bool" where
  "wants_keep_alive v hs = fold (\<lambda>kv ka. if lower (fst kv) = ''connection''
     then (if field_value (snd kv) = ''close'' then False
       else if field_value (snd kv) = ''keep-alive'' then True else ka) else ka)
     hs (v \<noteq> ''HTTP/1.0'')"

subsection \<open>The lines of a request\<close>

lemma line_text_parts:
  "line_text [] = True" "line_text (c # s) = (c \<noteq> CR \<and> c \<noteq> LF \<and> line_text s)"
  "line_text (s @ t) = (line_text s \<and> line_text t)"
  by (simp_all add: line_text_def)

lemma drop_cr_line: "line_text l \<Longrightarrow> drop_cr l = l" "line_text l \<Longrightarrow> drop_cr (l @ [CR]) = l"
  by (auto simp: drop_cr_def line_text_def list_all_iff)

lemma getlines_line:
  assumes "line_text l"
  shows "l \<noteq> [] \<Longrightarrow> getlines l = [l]" "getlines (l @ crlf @ s) = (l @ [CR]) # getlines s"
proof -
  have *: "\<forall>c \<in> set l. c \<noteq> LF" "CR \<noteq> LF"
    using assms by (auto simp: line_text_def list_all_iff CR_def LF_def)
  show "getlines l = [l]" if "l \<noteq> []"
  proof -
    have d: "dropWhile (\<lambda>c. c \<noteq> LF) l = []" "takeWhile (\<lambda>c. c \<noteq> LF) l = l"
      using * by (simp_all add: takeWhile_eq_all_conv)
    show ?thesis using that by (subst getlines.simps) (simp add: d getlines.simps [of "[]"])
  qed
  show "getlines (l @ crlf @ s) = (l @ [CR]) # getlines s"
    using * by (subst getlines.simps) (simp add: crlf_def takeWhile_append2 dropWhile_append2)
qed

lemma getlines_join:
  "list_all line_text ls \<Longrightarrow> [] \<notin> set ls \<Longrightarrow> map drop_cr (getlines (join_lines ls)) = ls"
  by (induction ls rule: join_lines.induct) (auto simp: getlines_line drop_cr_line getlines.simps [of "[]"])

lemma parse_lines_cong: "map drop_cr ls = map drop_cr ls' \<Longrightarrow> parse_lines c ls = parse_lines c ls'"
proof (induction ls arbitrary: ls' c)
  case (Cons l ls)
  then obtain l' ks where l': "ls' = l' # ks" "drop_cr l = drop_cr l'" "map drop_cr ls = map drop_cr ks"
    by (cases ls') auto
  show ?case unfolding l'(1) parse_lines.simps Let_def l'(2) Cons.IH [OF l'(3)] by (rule refl)
qed simp

lemma find_end_skip: "x \<noteq> CR \<Longrightarrow>
  find_sub header_end (x # s) = map_option Suc (find_sub header_end s)"
  by (subst find_sub.simps) (simp add: header_end_def)

lemma find_end_here: "find_sub header_end (header_end @ b) = Some 0"
  by (subst find_sub.simps) simp

lemma find_end_line:
  "line_text l \<Longrightarrow> find_sub header_end (l @ s) = map_option (\<lambda>n. n + length l) (find_sub header_end s)"
  by (induction l) (simp_all add: line_text_parts find_end_skip option.map_comp comp_def option.map_ident)

lemma find_end_crlf:
  assumes "y \<noteq> CR"
  shows "find_sub header_end (crlf @ y # t) = map_option (\<lambda>n. n + 2) (find_sub header_end (y # t))"
proof -
  have "\<not> prefix header_end (CR # LF # y # t)" using assms by (auto simp: header_end_def)
  moreover have "LF \<noteq> CR" by (simp add: CR_def LF_def)
  ultimately show ?thesis
    by (subst find_sub.simps) (simp add: crlf_def find_end_skip option.map_comp comp_def)
qed

lemma find_end_join:
  "list_all line_text ls \<Longrightarrow> [] \<notin> set ls \<Longrightarrow>
   find_sub header_end (join_lines ls @ header_end @ b) = Some (length (join_lines ls))"
proof (induction ls rule: join_lines.induct)
  case 1
  then show ?case by (simp add: find_end_here)
next
  case (2 l)
  then show ?case by (simp add: find_end_line find_end_here)
next
  case (3 l k ks)
  obtain y t where y: "join_lines (k # ks) @ header_end @ b = y # t" "y \<noteq> CR"
    using 3(2,3) by (cases k; cases ks) (auto simp: line_text_parts)
  have l: "line_text l" and rest: "find_sub header_end (y # t) = Some (length (join_lines (k # ks)))"
    using 3 by (simp_all flip: y(1))
  have "find_sub header_end (l @ crlf @ y # t) = Some (length (join_lines (k # ks)) + 2 + length l)"
    by (simp only: find_end_line [OF l] find_end_crlf [OF y(2)] rest option.map)
  then show ?case by (simp add: crlf_def flip: y(1))
qed

subsection \<open>Tokens and fields\<close>

lemma stream_read_token:
  assumes "token t"
  shows "s = [] \<or> is_space (hd s) \<Longrightarrow> stream_read (Some (t @ s)) x = (t, Some s)"
    "s = [] \<or> is_space (hd s) \<Longrightarrow> stream_read (Some (CHR '' '' # t @ s)) x = (t, Some s)"
proof -
  have t: "t \<noteq> []" "\<forall>c \<in> set t. \<not> is_space c" using assms by (auto simp: token_def list_all_iff)
  have *: "dropWhile is_space (t @ s) = t @ s" using t by (cases t) auto
  have sp: "is_space CHR '' ''" by (simp add: is_space_def)
  assume "s = [] \<or> is_space (hd s)"
  then have "takeWhile (\<lambda>c. \<not> is_space c) s = []" "dropWhile (\<lambda>c. \<not> is_space c) s = s"
    by (cases s; simp)+
  then show "stream_read (Some (t @ s)) x = (t, Some s)"
    "stream_read (Some (CHR '' '' # t @ s)) x = (t, Some s)"
    using t by (simp_all add: * Let_def takeWhile_append2 dropWhile_append2 sp)
qed

lemma parseRequestLine_ok:
  assumes "token m" "token p" "v = ''HTTP/1.0'' \<or> v = ''HTTP/1.1''"
  shows "parseRequestLine c (m @ '' '' @ p @ '' '' @ v) =
    (True, c\<lparr>hc_method := m, hc_path := p, hc_version := v\<rparr>)"
proof -
  have v: "token v" using assms(3) by (auto simp: token_def is_space_def)
  have sp: "is_space CHR '' ''" by (simp add: is_space_def)
  have "stream_read (Some (m @ '' '' @ p @ '' '' @ v)) (hc_method c) = (m, Some ('' '' @ p @ '' '' @ v))"
    by (rule stream_read_token) (use assms(1) sp in simp_all)
  moreover have "stream_read (Some ('' '' @ p @ '' '' @ v)) (hc_path c) = (p, Some ('' '' @ v))"
    using stream_read_token(2) [OF assms(2), of "'' '' @ v"] sp by simp
  moreover have "stream_read (Some ('' '' @ v)) (hc_version c) = (v, Some [])"
    using stream_read_token(2) [OF v, of "[]"] by simp
  ultimately show ?thesis
    using assms by (auto simp: parseRequestLine_def token_def)
qed

lemma find_char_line: "x \<notin> set k \<Longrightarrow> find_char x (k @ x # s) = Some (length k)"
proof -
  assume "x \<notin> set k"
  then have "takeWhile (\<lambda>y. y \<noteq> x) (k @ x # s) = k" by (induction k) auto
  then show ?thesis by (simp add: find_char_def)
qed

definition apply_field :: "string \<times> string \<Rightarrow> http_conn \<Rightarrow> http_conn" where
  "apply_field kv c = c\<lparr>hc_headers := um_put (lower (fst kv)) (field_value (snd kv)) (hc_headers c),
     hc_keep_alive := (if lower (fst kv) = ''connection''
       then (if field_value (snd kv) = ''close'' then False
         else if field_value (snd kv) = ''keep-alive'' then True else hc_keep_alive c)
       else hc_keep_alive c)\<rparr>"

lemma parseHeader_field:
  "field_ok kv \<Longrightarrow> parseHeader c (field_line kv) = (True, apply_field kv c)"
  by (auto simp: parseHeader_def field_line_def field_ok_def find_char_line apply_field_def
      field_value_def Let_def)

lemma lower_content_length: "lower ''Content-Length'' = ''content-length''"
  by code_simp

lemma digits_plain: "s = nat_digits n \<Longrightarrow> field_value s = s \<and> line_text s"
proof -
  assume s: "s = nat_digits n"
  have d: "is_digit c" if "c \<in> set s" for c using that s nat_digits_is_digit by blast
  have "c \<noteq> CHR '' ''" "tolower c = c" "c \<noteq> CR" "c \<noteq> LF" if "c \<in> set s" for c
    using d [OF that] by (auto simp: is_digit_def tolower_def CR_def LF_def)
  then show ?thesis
    by (cases s) (auto simp: field_value_def lower_def line_text_def list_all_iff intro: map_idI)
qed

lemma parse_size_digits: "n \<le> MAX_READ_BUFFER_SIZE \<Longrightarrow> parse_size (nat_digits n) = Some (of_nat n)"
  by (simp add: parse_size_def digits_value_nat_digits list_all_iff nat_digits_is_digit MAX_READ_BUFFER_SIZE_def)

lemma unat_small: "n \<le> MAX_READ_BUFFER_SIZE \<Longrightarrow> unat (of_nat n :: size_t) = n"
  by (simp add: MAX_READ_BUFFER_SIZE_def unat_of_nat)

lemma parseHeader_length:
  assumes "n \<le> MAX_READ_BUFFER_SIZE"
  shows "parseHeader c (field_line (''Content-Length'', nat_digits n)) =
    (True, (apply_field (''Content-Length'', nat_digits n) c)\<lparr>hc_content_length := of_nat n\<rparr>)"
proof -
  have "find_char CHR '':'' (field_line (''Content-Length'', nat_digits n)) = Some 14"
    by (simp add: field_line_def find_char_def)
  then show ?thesis
    using assms digits_plain [of "nat_digits n" n]
    by (simp add: parseHeader_def field_line_def apply_field_def lower_content_length field_value_def
        parse_size_digits unat_small Let_def)
qed

lemma parse_lines_fields:
  "list_all field_ok hs \<Longrightarrow> hc_state c = HEADERS \<Longrightarrow>
   parse_lines c (map field_line hs @ ls) = parse_lines (fold apply_field hs c) ls"
proof (induction hs arbitrary: c)
  case (Cons kv hs)
  then have "drop_cr (field_line kv) = field_line kv"
    by (auto simp: field_ok_def field_line_def intro!: drop_cr_line simp: line_text_parts CR_def LF_def)
  with Cons show ?case by (simp add: parseHeader_field) (simp add: apply_field_def)
qed simp

lemma fold_apply_field:
  "fold apply_field hs c = c\<lparr>hc_headers := fold (\<lambda>kv. um_put (lower (fst kv)) (field_value (snd kv))) hs (hc_headers c),
     hc_keep_alive := fold (\<lambda>kv ka. if lower (fst kv) = ''connection''
       then (if field_value (snd kv) = ''close'' then False
         else if field_value (snd kv) = ''keep-alive'' then True else ka) else ka) hs (hc_keep_alive c)\<rparr>"
  by (induction hs arbitrary: c) (simp_all add: apply_field_def)

subsection \<open>Parsing a request\<close>

lemma request_lines_ok:
  assumes "request_ok m p v hs body"
  shows "list_all line_text ((m @ '' '' @ p @ '' '' @ v) # map field_line (with_length hs body))"
    and "[] \<notin> set ((m @ '' '' @ p @ '' '' @ v) # map field_line (with_length hs body))"
proof -
  have "is_space CR" "is_space LF" by (simp_all add: is_space_def CR_def LF_def)
  then have tok: "line_text t" if "token t" for t
    using that by (auto simp: token_def line_text_def list_all_iff)
  have v: "line_text v" using assms by (auto simp: request_ok_def line_text_def CR_def LF_def)
  have f: "line_text (field_line kv)" if "field_ok kv" for kv
    using that by (simp add: field_ok_def field_line_def line_text_parts CR_def LF_def)
  have l: "line_text (field_line (''Content-Length'', nat_digits n))" for n
    using digits_plain [of "nat_digits n" n]
    by (simp add: field_line_def line_text_parts) (simp add: CR_def LF_def)
  show "list_all line_text ((m @ '' '' @ p @ '' '' @ v) # map field_line (with_length hs body))"
  proof -
    have "line_text '' ''" by (simp add: line_text_def CR_def LF_def)
    moreover have "line_text m" "line_text p" "list_all line_text (map field_line hs)"
      using assms tok f by (simp_all add: request_ok_def list_all_iff)
    ultimately show ?thesis
      by (simp only: list.pred_inject list_all_append line_text_parts(3) list.map map_append v l with_length_def simp_thms)
  qed
  show "[] \<notin> set ((m @ '' '' @ p @ '' '' @ v) # map field_line (with_length hs body))"
    by (auto simp: field_line_def)
qed

definition parsed_head :: "http_conn \<Rightarrow> string \<Rightarrow> string \<Rightarrow> string \<Rightarrow> (string \<times> string) list \<Rightarrow> string \<Rightarrow> http_conn" where
  "parsed_head c m p v hs body = c\<lparr>hc_state := (if body = [] then FINISH else BODY),
     hc_method := m, hc_path := p, hc_version := v, hc_headers := fields_map (with_length hs body),
     hc_body := [], hc_keep_alive := wants_keep_alive v hs, hc_content_length := of_nat (length body)\<rparr>"

lemma parse_lines_request:
  assumes "request_ok m p v hs body" and "hc_state c = REQUEST_LINE"
    and "hc_headers c = []" "hc_body c = []" "hc_keep_alive c" "hc_content_length c = 0"
  shows "parse_lines c ((m @ '' '' @ p @ '' '' @ v) # map field_line (with_length hs body)) =
    Inr (parsed_head c m p v hs body)"
proof -
  note r = assms(1) [unfolded request_ok_def]
  have len: "length body \<le> MAX_READ_BUFFER_SIZE" using r by simp
  let ?c1 = "c\<lparr>hc_state := HEADERS, hc_method := m, hc_path := p, hc_version := v,
    hc_keep_alive := (v \<noteq> ''HTTP/1.0'')\<rparr>"
  let ?l = "field_line (''Content-Length'', nat_digits (length body))"
  have d: "drop_cr (m @ '' '' @ p @ '' '' @ v) = m @ '' '' @ p @ '' '' @ v" "drop_cr ?l = ?l"
    by (rule drop_cr_line; use request_lines_ok(1) [OF assms(1)] in \<open>simp add: with_length_def\<close>)+
  have z: "(of_nat (length body) :: size_t) = 0 \<longleftrightarrow> body = []"
    using unat_small [OF len] unat_eq_zero [of "of_nat (length body) :: size_t"] by simp
  have rl: "parseRequestLine c (m @ '' '' @ p @ '' '' @ v) =
      (True, c\<lparr>hc_method := m, hc_path := p, hc_version := v\<rparr>)"
    by (rule parseRequestLine_ok) (use r in simp_all)
  have step: "(if hc_version (c\<lparr>hc_method := m, hc_path := p, hc_version := v, hc_state := HEADERS\<rparr>) = ''HTTP/1.0''
      then c\<lparr>hc_method := m, hc_path := p, hc_version := v, hc_state := HEADERS, hc_keep_alive := False\<rparr>
      else c\<lparr>hc_method := m, hc_path := p, hc_version := v, hc_state := HEADERS\<rparr>) = ?c1"
    using assms(5) by (cases c) simp
  have "parse_lines c ((m @ '' '' @ p @ '' '' @ v) # map field_line (with_length hs body)) =
      parse_lines ?c1 (map field_line hs @ [?l])"
    unfolding parse_lines.simps(2) Let_def d(1) assms(2) rl prod.case not_True_eq_False if_False if_True
      step by (simp add: with_length_def)
  also have "\<dots> = parse_lines (fold apply_field hs ?c1) [?l]"
    by (rule parse_lines_fields) (use r in simp_all)
  also have "\<dots> = Inr ((apply_field (''Content-Length'', nat_digits (length body)) (fold apply_field hs ?c1))
      \<lparr>hc_content_length := of_nat (length body), hc_state := (if body = [] then FINISH else BODY)\<rparr>)"
    unfolding parse_lines.simps Let_def d(2) parseHeader_length [OF len]
    by (simp add: fold_apply_field apply_field_def z)
  also have "\<dots> = Inr (parsed_head c m p v hs body)"
    using assms(2-) by (cases c) (simp add: fold_apply_field apply_field_def lower_content_length
        parsed_head_def fields_map_def wants_keep_alive_def with_length_def)
  finally show ?thesis .
qed

lemma parse_request:
  assumes "request_ok m p v hs body" and "hc_state c = REQUEST_LINE"
    and "data = join_lines ((m @ '' '' @ p @ '' '' @ v) # map field_line (with_length hs body)) @ header_end @ b"
  shows "parse c data = (let c1 = parsed_head c m p v hs body in
    if body = [] then c1 else if length b < length body then c1
    else c1\<lparr>hc_body := take (length body) b, hc_state := FINISH\<rparr>)"
proof -
  let ?ls = "(m @ '' '' @ p @ '' '' @ v) # map field_line (with_length hs body)"
  let ?c0 = "c\<lparr>hc_headers := [], hc_body := [], hc_keep_alive := True, hc_content_length := 0\<rparr>"
  note ok = request_lines_ok [OF assms(1)]
  have len: "length body \<le> MAX_READ_BUFFER_SIZE" using assms(1) by (simp add: request_ok_def)
  have f: "find_sub header_end data = Some (length (join_lines ?ls))"
    unfolding assms(3) by (rule find_end_join [OF ok])
  have "map drop_cr ?ls = ?ls"
    using ok(1) by (intro map_idI) (auto simp: list_all_iff drop_cr_line)
  then have "parse_lines ?c0 (getlines (join_lines ?ls)) = parse_lines ?c0 ?ls"
    by (intro parse_lines_cong) (simp only: getlines_join [OF ok])
  also have "\<dots> = Inr (parsed_head ?c0 m p v hs body)"
    by (rule parse_lines_request [OF assms(1)]) (use assms(2) in simp_all)
  also have "parsed_head ?c0 m p v hs body = parsed_head c m p v hs body"
    by (simp add: parsed_head_def)
  finally have pl: "parse_lines ?c0 (getlines (take (length (join_lines ?ls)) data)) =
      Inr (parsed_head c m p v hs body)" by (simp add: assms(3))
  have "length header_end = 4" by (simp add: header_end_def)
  then show ?thesis
    unfolding parse_def f option.case Let_def pl sum.case
    using unat_small [OF len] by (simp add: parsed_head_def assms(3))
qed

text \<open>C16: parsing inverts writing a request. For every well-formed request, whatever its header
  fields, and whatever bytes follow it in the buffer, \<open>parse\<close> recovers the method, the path, the
  version, the fields (by lower case name, the last one of a name), the announced length and the
  body, and derives whether the connection stays open from the version and the fields; nothing of
  an earlier request of the connection is left.\<close>

theorem request_roundtrip:
  assumes "request_ok m p v hs body" and "hc_state c = REQUEST_LINE"
  shows "parse c (request_text m p v hs body @ rest) =
    \<lparr>hc_state = FINISH, hc_method = m, hc_path = p, hc_version = v,
     hc_headers = fields_map (with_length hs body), hc_body = body,
     hc_keep_alive = wants_keep_alive v hs, hc_content_length = of_nat (length body)\<rparr>"
  by (cases c) (use parse_request [OF assms, of _ "body @ rest"] in
      \<open>simp add: request_text_def parsed_head_def Let_def\<close>)

text \<open>Fragmentation. However a well-formed request is cut by the network, parsing what has
  arrived answers (with a result or an error) exactly when all of it is there: no prefix is taken
  for a request, and none is rejected.\<close>

theorem answers_complete_requests_only:
  assumes "request_ok m p v hs body" and "hc_state c = REQUEST_LINE"
  shows "hc_state (parse c (take n (request_text m p v hs body))) \<in> {FINISH, PARSE_ERROR} \<longleftrightarrow>
    length (request_text m p v hs body) \<le> n"
proof (cases "length (request_text m p v hs body) \<le> n")
  case True
  then show ?thesis using request_roundtrip [OF assms, of "[]"] by simp
next
  case False
  let ?head = "join_lines ((m @ '' '' @ p @ '' '' @ v) # map field_line (with_length hs body))"
  have four: "length header_end = 4" by (simp add: header_end_def)
  have f: "find_sub header_end (request_text m p v hs body) = Some (length ?head)"
    unfolding request_text_def by (rule find_end_join) (use request_lines_ok [OF assms(1)] in simp_all)
  show ?thesis
  proof (cases "length ?head + 4 \<le> n")
    case True
    then have t: "take n (request_text m p v hs body) =
        ?head @ header_end @ take (n - (length ?head + 4)) body"
      by (simp add: request_text_def four)
    have short: "n - (length ?head + 4) < length body"
      using False True by (simp add: request_text_def four)
    then show ?thesis
      using False short by (simp add: parse_request [OF assms t] Let_def parsed_head_def) auto
  next
    case 2: False
    then have "find_sub header_end (take n (request_text m p v hs body)) = None"
      by (simp add: find_sub_take [OF f] four)
    then show ?thesis using assms(2) False by (simp add: parse_def)
  qed
qed

lemma demo_request_ok: "request_ok ''POST'' ''/api'' ''HTTP/1.1'' [(''Connection'', ''  Close'')] ''{}''"
proof -
  have "lower ''Connection'' = ''connection''" by code_simp
  then show ?thesis
    by (simp add: request_ok_def token_def is_space_def field_ok_def line_text_def CR_def LF_def
        MAX_READ_BUFFER_SIZE_def)
qed

lemma new_http_conn_state [simp]: "hc_state new_http_conn = REQUEST_LINE"
  by (simp add: new_http_conn_def)

lemma request_roundtrip_witness:
  "parse new_http_conn (request_text ''POST'' ''/api'' ''HTTP/1.1'' [(''Connection'', ''  Close'')] ''{}'' @ ''GET'') =
    \<lparr>hc_state = FINISH, hc_method = ''POST'', hc_path = ''/api'', hc_version = ''HTTP/1.1'',
     hc_headers = fields_map (with_length [(''Connection'', ''  Close'')] ''{}''), hc_body = ''{}'',
     hc_keep_alive = False, hc_content_length = 2\<rparr>"
proof -
  have ka: "wants_keep_alive ''HTTP/1.1'' [(''Connection'', ''  Close'')] = False" by code_simp
  show ?thesis
    using request_roundtrip [OF demo_request_ok new_http_conn_state, of "''GET''"] ka by simp
qed

lemma answers_complete_requests_only_witness:
  "hc_state (parse new_http_conn (take 30 (request_text ''POST'' ''/api'' ''HTTP/1.1''
    [(''Connection'', ''  Close'')] ''{}''))) \<notin> {FINISH, PARSE_ERROR}"
proof -
  have len: "length (request_text ''POST'' ''/api'' ''HTTP/1.1'' [(''Connection'', ''  Close'')] ''{}'') = 64"
    by code_simp
  show ?thesis
    using answers_complete_requests_only [OF demo_request_ok new_http_conn_state, of 30] by (simp add: len)
qed

subsection \<open>Whatever the client sends\<close>

lemma parseHeader_bound:
  assumes "unat (hc_content_length c) \<le> MAX_READ_BUFFER_SIZE"
  shows "unat (hc_content_length (snd (parseHeader c line))) \<le> MAX_READ_BUFFER_SIZE"
    and "hc_state (snd (parseHeader c line)) = hc_state c"
    and "hc_body (snd (parseHeader c line)) = hc_body c"
proof -
  show "unat (hc_content_length (snd (parseHeader c line))) \<le> MAX_READ_BUFFER_SIZE"
    unfolding parseHeader_def Let_def using assms by (simp split: option.split)
  show "hc_state (snd (parseHeader c line)) = hc_state c"
    unfolding parseHeader_def Let_def by (simp split: option.split)
  show "hc_body (snd (parseHeader c line)) = hc_body c"
    unfolding parseHeader_def Let_def by (simp split: option.split)
qed

lemma parseRequestLine_frame:
  "hc_content_length (snd (parseRequestLine c line)) = hc_content_length c"
  "hc_body (snd (parseRequestLine c line)) = hc_body c"
  by (simp_all only: parseRequestLine_def Let_def case_prod_unfold snd_conv) simp_all

lemma parse_lines_result:
  assumes "unat (hc_content_length c) \<le> MAX_READ_BUFFER_SIZE" "hc_body c = []"
  shows "case parse_lines c ls of
      Inl c1 \<Rightarrow> hc_state c1 = PARSE_ERROR \<and> unat (hc_content_length c1) \<le> MAX_READ_BUFFER_SIZE
    | Inr c1 \<Rightarrow> hc_state c1 = (if hc_content_length c1 = 0 then FINISH else BODY) \<and> hc_body c1 = [] \<and>
        unat (hc_content_length c1) \<le> MAX_READ_BUFFER_SIZE"
  using assms
proof (induction ls arbitrary: c)
  case (Cons l ls)
  obtain ok1 c1 where rl: "parseRequestLine c (drop_cr l) = (ok1, c1)" by (cases "parseRequestLine c (drop_cr l)")
  obtain ok2 c2 where hd: "parseHeader c (drop_cr l) = (ok2, c2)" by (cases "parseHeader c (drop_cr l)")
  have f: "hc_content_length c1 = hc_content_length c" "hc_body c1 = []"
    using parseRequestLine_frame [of c "drop_cr l"] Cons.prems(2) by (simp_all add: rl)
  have b: "unat (hc_content_length c2) \<le> MAX_READ_BUFFER_SIZE" "hc_body c2 = []"
    using parseHeader_bound [OF Cons.prems(1), of "drop_cr l"] Cons.prems(2) by (simp_all add: hd)
  consider "hc_state c = REQUEST_LINE" | "hc_state c = HEADERS" | "hc_state c \<noteq> REQUEST_LINE" "hc_state c \<noteq> HEADERS"
    by blast
  then show ?case
  proof cases
    case 1
    then show ?thesis
      using f Cons.prems(1) Cons.IH [of "c1\<lparr>hc_state := HEADERS, hc_keep_alive := False\<rparr>"]
        Cons.IH [of "c1\<lparr>hc_state := HEADERS\<rparr>"]
      by (cases ok1) (simp_all add: rl Let_def)
  next
    case 2
    then show ?thesis using b Cons.IH [of c2] by (cases ok2) (simp_all add: hd Let_def)
  next
    case 3
    then show ?thesis using Cons by (simp add: Let_def)
  qed
qed simp

text \<open>Bounds for arbitrary input. Whatever bytes arrive and whatever was parsed before, when
  \<open>parse\<close> reports a complete request its body has exactly the announced length, and that is at
  most 16 MiB.\<close>

theorem parsed_body_is_bounded:
  assumes "hc_state c = REQUEST_LINE" and "hc_state (parse c data) = FINISH"
  shows "length (hc_body (parse c data)) = unat (hc_content_length (parse c data)) \<and>
    length (hc_body (parse c data)) \<le> MAX_READ_BUFFER_SIZE"
proof (cases "find_sub header_end data")
  case None
  then show ?thesis using assms by (simp add: parse_def)
next
  case (Some pos)
  let ?c0 = "c\<lparr>hc_headers := [], hc_body := [], hc_keep_alive := True, hc_content_length := 0\<rparr>"
  have r: "case parse_lines ?c0 (getlines (take pos data)) of
      Inl c1 \<Rightarrow> hc_state c1 = PARSE_ERROR \<and> unat (hc_content_length c1) \<le> MAX_READ_BUFFER_SIZE
    | Inr c1 \<Rightarrow> hc_state c1 = (if hc_content_length c1 = 0 then FINISH else BODY) \<and> hc_body c1 = [] \<and>
        unat (hc_content_length c1) \<le> MAX_READ_BUFFER_SIZE"
    by (rule parse_lines_result) simp_all
  show ?thesis
  proof (cases "parse_lines ?c0 (getlines (take pos data))")
    case (Inl c1)
    then have "parse c data = c1" by (simp add: parse_def Some Let_def)
    then show ?thesis using r Inl assms(2) by simp
  next
    case (Inr c1)
    then have p: "parse c data = (if hc_state c1 = BODY then
        if length data < pos + 4 + unat (hc_content_length c1) then c1
        else c1\<lparr>hc_body := take (unat (hc_content_length c1)) (drop (pos + 4) data), hc_state := FINISH\<rparr>
      else c1\<lparr>hc_state := FINISH\<rparr>)"
      by (simp add: parse_def Some Let_def)
    show ?thesis
    proof (cases "hc_content_length c1 = 0")
      case True
      then show ?thesis using p r Inr by simp
    next
      case False
      then show ?thesis using p r Inr assms(2) by (simp split: if_splits)
    qed
  qed
qed

lemma parsed_body_is_bounded_witness:
  "length (hc_body (parse new_http_conn (request_text ''POST'' ''/api'' ''HTTP/1.1''
    [(''Connection'', ''  Close'')] ''{}''))) \<le> MAX_READ_BUFFER_SIZE"
proof -
  have "hc_state (parse new_http_conn (request_text ''POST'' ''/api'' ''HTTP/1.1''
      [(''Connection'', ''  Close'')] ''{}'')) = FINISH"
    by (simp add: parse_request [OF demo_request_ok new_http_conn_state, of _ "''{}''"] request_text_def Let_def)
  from parsed_body_is_bounded [OF new_http_conn_state this] show ?thesis by blast
qed

lemma doc_root_no_dots: "\<not> sublist ''..'' t \<Longrightarrow> \<not> sublist ''..'' (doc_root @ t)"
  by (cases t) (auto simp: doc_root_def sublist_Cons_right)

definition same_file :: "file_system \<Rightarrow> file_system \<Rightarrow> string \<Rightarrow> bool" where
  "same_file fs fs' p \<longleftrightarrow> fs_stat fs p = fs_stat fs' p \<and> fs_open fs p = fs_open fs' p \<and> fs_mmap fs p = fs_mmap fs' p"

lemma safePath_touches:
  "(\<exists>t. safePath p = ''./files/'' @ t \<and> \<not> sublist ''..'' (''./files/'' @ t)) \<or>
   \<not> prefix ''/'' p \<and> safePath p = ''./files'' @ p"
proof (cases "sublist ''..'' p \<or> p = ''/''")
  case True
  then have "safePath p = ''./files/'' @ ''403.html'' \<or> safePath p = ''./files/'' @ ''index.html''"
    by (auto simp: safePath_def doc_root_def find_sub_None_iff)
  then show ?thesis by (auto simp: sublist_Cons_right)
next
  case False
  then have sp: "safePath p = doc_root @ p" "\<not> sublist ''..'' (doc_root @ p)"
    by (simp_all add: safePath_def find_sub_None_iff doc_root_no_dots)
  show ?thesis
  proof (cases "prefix ''/'' p")
    case True
    then obtain t where "p = ''/'' @ t" by (auto simp: prefix_def)
    then show ?thesis using sp by (auto simp: doc_root_def)
  qed (use sp in \<open>simp add: doc_root_def\<close>)
qed

text \<open>C36: which files a request can reach. For a request path that begins with \<open>/\<close> the answer depends
  only on files under \<open>./files/\<close> that are reached without a \<open>..\<close>: two file systems that agree there give
  the same response, whatever the client asks for. For a path that does not begin with \<open>/\<close> (the parser
  accepts it) there is one more file, \<open>./files\<close> followed by the path, which lies beside the document
  root: \<open>x\<close> reaches \<open>./filesx\<close>.\<close>

theorem static_files_stay_inside:
  assumes "\<And>t. \<not> sublist ''..'' (''./files/'' @ t) \<Longrightarrow> same_file fs fs' (''./files/'' @ t)"
    and "\<not> prefix ''/'' (hc_path c) \<Longrightarrow> same_file fs fs' (''./files'' @ hc_path c)"
  shows "buildFileResponse fs c = buildFileResponse fs' c"
proof -
  have "same_file fs fs' (safePath (hc_path c))"
    using safePath_touches [of "hc_path c"] assms by metis
  then have same: "fs_stat fs (safePath (hc_path c)) = fs_stat fs' (safePath (hc_path c))"
    "fs_open fs (safePath (hc_path c)) = fs_open fs' (safePath (hc_path c))"
    "fs_mmap fs (safePath (hc_path c)) = fs_mmap fs' (safePath (hc_path c))" by (simp_all add: same_file_def)
  show ?thesis unfolding buildFileResponse_def Let_def same by (rule refl)
qed

lemma static_files_stay_inside_witness:
  "buildFileResponse \<lparr>fs_stat = (\<lambda>p. if p = ''./files/../secret'' \<or> p = ''./filesx'' then Some 7 else None),
      fs_open = (\<lambda>_. True), fs_mmap = (\<lambda>_. Some ''secret!'')\<rparr> (new_http_conn\<lparr>hc_path := ''/../secret''\<rparr>) =
   buildFileResponse \<lparr>fs_stat = (\<lambda>_. None), fs_open = (\<lambda>_. True), fs_mmap = (\<lambda>_. Some ''secret!'')\<rparr>
      (new_http_conn\<lparr>hc_path := ''/../secret''\<rparr>)"
  by (rule static_files_stay_inside) (auto simp: same_file_def sublist_Cons_right)

lemma safePath_sibling: "safePath ''x'' = ''./filesx''"
  by code_simp

lemma blank_line_repeats_request:
  assumes "hc_state c = REQUEST_LINE"
  shows "hc_state (parse c (header_end @ rest)) = FINISH \<and> hc_method (parse c (header_end @ rest)) = hc_method c \<and>
    hc_path (parse c (header_end @ rest)) = hc_path c"
  by (simp add: parse_def find_end_here getlines.simps [of "[]"] Let_def)

end
