(* ===== verification/Json.thy ===== *)
theory Json
  imports Double Http
begin

text \<open>
  The interface of the JSON library (\<open>nlohmann::json\<close>, not part of the repository) as the server
  uses it: a record of operations on an abstract type of values. A call that can throw returns
  \<open>Inl what\<close> with the exception's text, which is the library's own. \<open>json_laws\<close> states the
  documented behaviour the round trips rely on: what is found in an object that was built, and that
  a value read back at its own type is the value written. The field readers of \<open>HttpConn.cpp\<close> are
  defined over this interface.
\<close>

subsection \<open>Results\<close>

type_synonym 'a res = "string + 'a"

definition res_bind :: "'a res \<Rightarrow> ('a \<Rightarrow> 'b res) \<Rightarrow> 'b res" where
  "res_bind r f = (case r of Inl e \<Rightarrow> Inl e | Inr x \<Rightarrow> f x)"

lemma res_bind_simps [simp]: "res_bind (Inl e) f = Inl e" "res_bind (Inr x) f = f x"
  by (simp_all add: res_bind_def)

fun map_res :: "('a \<Rightarrow> 'b res) \<Rightarrow> 'a list \<Rightarrow> 'b list res" where
  "map_res f [] = Inr []"
| "map_res f (x # xs) = res_bind (f x) (\<lambda>y. res_bind (map_res f xs) (\<lambda>ys. Inr (y # ys)))"

lemma map_res_map: "(\<And>x. x \<in> set xs \<Longrightarrow> f (g x) = Inr x) \<Longrightarrow> map_res f (map g xs) = Inr xs"
  by (induction xs) auto

definition require :: "bool \<Rightarrow> string \<Rightarrow> unit res" where
  "require b msg = (if b then Inr () else Inl msg)"

lemma require_simps [simp]: "require True msg = Inr ()" "require False msg = Inl msg"
  by (simp_all add: require_def)

subsection \<open>The library\<close>

record 'j json_lib =
  jl_parse :: "string \<Rightarrow> 'j res"
  jl_dump :: "'j \<Rightarrow> string res"
  jl_is_object :: "'j \<Rightarrow> bool"
  jl_is_array :: "'j \<Rightarrow> bool"
  jl_find :: "'j \<Rightarrow> string \<Rightarrow> 'j option"
  jl_at_error :: "'j \<Rightarrow> string \<Rightarrow> string"
  jl_value_error :: "'j \<Rightarrow> string"
  jl_elements :: "'j \<Rightarrow> 'j list"
  jl_get_string :: "'j \<Rightarrow> string res"
  jl_get_double :: "'j \<Rightarrow> double res"
  jl_get_u64 :: "'j \<Rightarrow> u64 res"
  jl_get_bool :: "'j \<Rightarrow> bool res"
  jl_get_strings :: "'j \<Rightarrow> string list res"
  jl_null :: 'j
  jl_object :: "(string \<times> 'j) list \<Rightarrow> 'j"
  jl_array :: "'j list \<Rightarrow> 'j"
  jl_string :: "string \<Rightarrow> 'j"
  jl_double :: "double \<Rightarrow> 'j"
  jl_u64 :: "u64 \<Rightarrow> 'j"
  jl_int :: "int \<Rightarrow> 'j"
  jl_bool :: "bool \<Rightarrow> 'j"

definition json_laws :: "'j json_lib \<Rightarrow> bool" where
  "json_laws L \<longleftrightarrow>
     (\<forall>kvs. distinct (map fst kvs) \<longrightarrow> jl_is_object L (jl_object L kvs) \<and>
        (\<forall>k. jl_find L (jl_object L kvs) k = map_of kvs k)) \<and>
     (\<forall>xs. jl_is_array L (jl_array L xs) \<and> jl_elements L (jl_array L xs) = xs) \<and>
     (\<forall>s. jl_get_string L (jl_string L s) = Inr s) \<and> (\<forall>d. jl_get_double L (jl_double L d) = Inr d) \<and>
     (\<forall>n. jl_get_u64 L (jl_u64 L n) = Inr n) \<and> (\<forall>b. jl_get_bool L (jl_bool L b) = Inr b) \<and>
     (\<forall>ss. jl_get_strings L (jl_array L (map (jl_string L) ss)) = Inr ss)"

lemma json_lawsD:
  assumes "json_laws L"
  shows "distinct (map fst kvs) \<Longrightarrow> jl_is_object L (jl_object L kvs)"
    and "distinct (map fst kvs) \<Longrightarrow> jl_find L (jl_object L kvs) k = map_of kvs k"
    and "jl_is_array L (jl_array L xs)" and "jl_elements L (jl_array L xs) = xs"
    and "jl_get_string L (jl_string L s) = Inr s" and "jl_get_double L (jl_double L d) = Inr d"
    and "jl_get_u64 L (jl_u64 L n) = Inr n" and "jl_get_bool L (jl_bool L b) = Inr b"
    and "jl_get_strings L (jl_array L (map (jl_string L) ss)) = Inr ss"
  using assms by (auto simp: json_laws_def)

text \<open>A library that satisfies the laws: values as a datatype, text not supported.\<close>

datatype json_value = JNull | JBool bool | JU64 u64 | JInt int | JDouble double | JString string
  | JArray "json_value list" | JObject "(string \<times> json_value) list"

definition type_error :: "string" where "type_error = ''type must be another''"

definition demo_json :: "json_value json_lib" where
  "demo_json = \<lparr>jl_parse = (\<lambda>s. if s = ''null'' then Inr JNull else Inl ''syntax error''),
     jl_dump = (\<lambda>j. Inr ''{}''),
     jl_is_object = (\<lambda>j. case j of JObject _ \<Rightarrow> True | _ \<Rightarrow> False),
     jl_is_array = (\<lambda>j. case j of JArray _ \<Rightarrow> True | _ \<Rightarrow> False),
     jl_find = (\<lambda>j k. case j of JObject kvs \<Rightarrow> map_of kvs k | _ \<Rightarrow> None),
     jl_at_error = (\<lambda>j k. ''key not found''), jl_value_error = (\<lambda>j. ''cannot use value()''),
     jl_elements = (\<lambda>j. case j of JArray xs \<Rightarrow> xs | JObject kvs \<Rightarrow> map snd kvs | JNull \<Rightarrow> [] | _ \<Rightarrow> [j]),
     jl_get_string = (\<lambda>j. case j of JString s \<Rightarrow> Inr s | _ \<Rightarrow> Inl type_error),
     jl_get_double = (\<lambda>j. case j of JDouble d \<Rightarrow> Inr d | JU64 n \<Rightarrow> Inr (double_of_u64 n) | _ \<Rightarrow> Inl type_error),
     jl_get_u64 = (\<lambda>j. case j of JU64 n \<Rightarrow> Inr n | _ \<Rightarrow> Inl type_error),
     jl_get_bool = (\<lambda>j. case j of JBool b \<Rightarrow> Inr b | _ \<Rightarrow> Inl type_error),
     jl_get_strings = (\<lambda>j. case j of
         JArray xs \<Rightarrow> map_res (\<lambda>x. case x of JString s \<Rightarrow> Inr s | _ \<Rightarrow> Inl type_error) xs | _ \<Rightarrow> Inl type_error),
     jl_null = JNull, jl_object = JObject, jl_array = JArray, jl_string = JString, jl_double = JDouble,
     jl_u64 = JU64, jl_int = JInt, jl_bool = JBool\<rparr>"

lemma demo_json_laws: "json_laws demo_json"
  by (simp add: json_laws_def demo_json_def map_res_map)

subsection \<open>Readers\<close>

definition hasKey :: "'j json_lib \<Rightarrow> 'j \<Rightarrow> string \<Rightarrow> bool" where
  "hasKey L obj key \<longleftrightarrow> jl_is_object L obj \<and> jl_find L obj key \<noteq> None"

definition j_at :: "'j json_lib \<Rightarrow> 'j \<Rightarrow> string \<Rightarrow> 'j res" where
  "j_at L obj key = (case jl_find L obj key of None \<Rightarrow> Inl (jl_at_error L obj key) | Some v \<Rightarrow> Inr v)"

text \<open>\<open>obj.value(key, default)\<close>, read with \<open>get\<close>.\<close>

definition j_value :: "'j json_lib \<Rightarrow> ('j \<Rightarrow> 'a res) \<Rightarrow> 'j \<Rightarrow> string \<Rightarrow> 'a \<Rightarrow> 'a res" where
  "j_value L get obj key dflt = (if \<not> jl_is_object L obj then Inl (jl_value_error L obj)
     else case jl_find L obj key of None \<Rightarrow> Inr dflt | Some v \<Rightarrow> get v)"

fun getRequiredString :: "'j json_lib \<Rightarrow> 'j \<Rightarrow> string list \<Rightarrow> string res" where
  "getRequiredString L obj [] = Inl ''missing required vehicle id''"
| "getRequiredString L obj (key # keys) = (if hasKey L obj key
     then res_bind (j_at L obj key) (jl_get_string L) else getRequiredString L obj keys)"

fun getRequiredNumber :: "'j json_lib \<Rightarrow> 'j \<Rightarrow> string list \<Rightarrow> double res" where
  "getRequiredNumber L obj [] = Inl ''missing required position field''"
| "getRequiredNumber L obj (key # keys) = (if hasKey L obj key
     then res_bind (j_at L obj key) (jl_get_double L) else getRequiredNumber L obj keys)"

text \<open>The first loop of \<open>getOptionalNumber\<close> is over the primary object, the second over the other.\<close>

definition getOptionalNumber :: "'j json_lib \<Rightarrow> 'j \<Rightarrow> 'j \<Rightarrow> string list \<Rightarrow> double \<Rightarrow> double res" where
  "getOptionalNumber L primary fallback keys dflt =
     (case List.find (hasKey L primary) keys of Some key \<Rightarrow> res_bind (j_at L primary key) (jl_get_double L)
      | None \<Rightarrow> (case List.find (hasKey L fallback) keys of
            Some key \<Rightarrow> res_bind (j_at L fallback key) (jl_get_double L) | None \<Rightarrow> Inr dflt))"

definition getOptionalString :: "'j json_lib \<Rightarrow> 'j \<Rightarrow> string \<Rightarrow> string \<Rightarrow> string res" where
  "getOptionalString L obj key dflt =
     (if hasKey L obj key then res_bind (j_at L obj key) (jl_get_string L) else Inr dflt)"

definition getRequiredUint64 :: "'j json_lib \<Rightarrow> 'j \<Rightarrow> string \<Rightarrow> u64 res" where
  "getRequiredUint64 L obj key = (if \<not> hasKey L obj key then Inl (''missing required field: '' @ key)
     else res_bind (j_at L obj key) (jl_get_u64 L))"

text \<open>Reading from an object that was built with distinct keys.\<close>

named_theorems json_read \<open>reading fields of a built object\<close>

lemma hasKey_object [json_read]:
  "json_laws L \<Longrightarrow> distinct (map fst kvs) \<Longrightarrow> hasKey L (jl_object L kvs) k \<longleftrightarrow> map_of kvs k \<noteq> None"
  by (simp add: hasKey_def json_lawsD)

lemma j_at_object [json_read]:
  "json_laws L \<Longrightarrow> distinct (map fst kvs) \<Longrightarrow> map_of kvs k = Some v \<Longrightarrow> j_at L (jl_object L kvs) k = Inr v"
  by (simp add: j_at_def json_lawsD)

lemma j_value_object [json_read]:
  "json_laws L \<Longrightarrow> distinct (map fst kvs) \<Longrightarrow> j_value L get (jl_object L kvs) k dflt =
   (case map_of kvs k of None \<Rightarrow> Inr dflt | Some v \<Rightarrow> get v)"
  by (simp add: j_value_def json_lawsD)

end
