(* ===== verification/Vehicles.thy ===== *)
theory Vehicles
  imports Prelude Double
begin

text \<open>
  \<open>VehicleState.h\<close> and the in-memory half of \<open>VehicleManager.cpp\<close>: the map of the latest vehicle
  states, the timestamp and the map bounds of the last snapshot, and whether a connection pool is
  bound. Every method holds the mutex, so
  each is one step.
\<close>

record vehicle_position =
  vp_x :: double
  vp_y :: double
  vp_z :: double

record vehicle_state =
  ve_id :: string
  ve_service :: string
  ve_prefab :: string
  ve_status :: string
  ve_position :: vehicle_position
  ve_speed :: double
  ve_heading :: double

record game_map_bounds =
  mb_min_x :: double
  mb_max_x :: double
  mb_min_z :: double
  mb_max_z :: double

record vehicle_snapshot =
  vs_timestamp :: u64
  vs_map :: game_map_bounds
  vs_vehicles :: "vehicle_state list"

definition default_bounds :: game_map_bounds where
  "default_bounds = \<lparr>mb_min_x = Fin (- 8640), mb_max_x = Fin 8640, mb_min_z = Fin (- 8640), mb_max_z = Fin 8640\<rparr>"

record vehicle_manager =
  vm_vehicles :: "(string, vehicle_state) umap"
  vm_snapshot_timestamp :: u64
  vm_map_bounds :: game_map_bounds
  vm_db_pool :: bool

definition new_vehicle_manager :: vehicle_manager where
  "new_vehicle_manager = \<lparr>vm_vehicles = [], vm_snapshot_timestamp = 0, vm_map_bounds = default_bounds,
     vm_db_pool = False\<rparr>"

text \<open>\<open>emplace\<close> inserts only when there is no entry, and says whether it did.\<close>

definition registerVehicle :: "vehicle_manager \<Rightarrow> vehicle_state \<Rightarrow> bool \<times> vehicle_manager" where
  "registerVehicle m v = (case um_find (vm_vehicles m) (ve_id v) of
       None \<Rightarrow> (True, m\<lparr>vm_vehicles := um_put (ve_id v) v (vm_vehicles m)\<rparr>) | Some _ \<Rightarrow> (False, m))"

definition updateVehicle :: "vehicle_manager \<Rightarrow> vehicle_state \<Rightarrow> bool \<times> vehicle_manager" where
  "updateVehicle m v = (case um_find (vm_vehicles m) (ve_id v) of
       None \<Rightarrow> (False, m) | Some _ \<Rightarrow> (True, m\<lparr>vm_vehicles := um_put (ve_id v) v (vm_vehicles m)\<rparr>))"

definition removeVehicle :: "vehicle_manager \<Rightarrow> string \<Rightarrow> bool \<times> vehicle_manager" where
  "removeVehicle m vid = (um_find (vm_vehicles m) vid \<noteq> None, m\<lparr>vm_vehicles := um_erase vid (vm_vehicles m)\<rparr>)"

definition replaceSnapshot :: "vehicle_manager \<Rightarrow> vehicle_snapshot \<Rightarrow> vehicle_manager" where
  "replaceSnapshot m s = m\<lparr>vm_vehicles := foldl (\<lambda>r v. um_put (ve_id v) v r) [] (vs_vehicles s),
     vm_snapshot_timestamp := vs_timestamp s, vm_map_bounds := vs_map s\<rparr>"

definition getVehicle :: "vehicle_manager \<Rightarrow> string \<Rightarrow> vehicle_state option" where
  "getVehicle m vid = um_find (vm_vehicles m) vid"

definition getAllVehicles :: "vehicle_manager \<Rightarrow> vehicle_state list" where
  "getAllVehicles m = map snd (vm_vehicles m)"

definition getSnapshot :: "vehicle_manager \<Rightarrow> vehicle_snapshot" where
  "getSnapshot m = \<lparr>vs_timestamp = vm_snapshot_timestamp m, vs_map = vm_map_bounds m,
     vs_vehicles = map snd (vm_vehicles m)\<rparr>"

definition hasVehicle :: "vehicle_manager \<Rightarrow> string \<Rightarrow> bool" where
  "hasVehicle m vid \<longleftrightarrow> um_find (vm_vehicles m) vid \<noteq> None"

definition vehicles_size :: "vehicle_manager \<Rightarrow> nat" where
  "vehicles_size m = length (vm_vehicles m)"

text \<open>Every vehicle is filed under its own id.\<close>

definition vm_inv :: "vehicle_manager \<Rightarrow> bool" where
  "vm_inv m \<longleftrightarrow> um_wf (vm_vehicles m) \<and> (\<forall>k v. um_find (vm_vehicles m) k = Some v \<longrightarrow> ve_id v = k)"

lemma vm_inv_new: "vm_inv new_vehicle_manager"
  by (simp add: vm_inv_def new_vehicle_manager_def)

lemma vm_inv_put: "vm_inv m \<Longrightarrow> vm_inv (m\<lparr>vm_vehicles := um_put (ve_id v) v (vm_vehicles m)\<rparr>)"
  by (auto simp: vm_inv_def umap_simps)

lemma vm_inv_register: "vm_inv m \<Longrightarrow> vm_inv (snd (registerVehicle m v))"
  by (simp add: registerVehicle_def vm_inv_put split: option.split)

lemma vm_inv_update: "vm_inv m \<Longrightarrow> vm_inv (snd (updateVehicle m v))"
  by (simp add: updateVehicle_def vm_inv_put split: option.split)

lemma vm_inv_remove: "vm_inv m \<Longrightarrow> vm_inv (snd (removeVehicle m vid))"
  by (auto simp: removeVehicle_def vm_inv_def umap_simps)

lemma find_replacement:
  "um_find (foldl (\<lambda>r v. um_put (ve_id v) v r) r vs) k =
   (case List.find (\<lambda>v. ve_id v = k) (rev vs) of None \<Rightarrow> um_find r k | Some v \<Rightarrow> Some v)"
  by (induction vs arbitrary: r rule: rev_induct) (auto simp: umap_simps)

lemma vm_inv_replace: "vm_inv (replaceSnapshot m s)"
proof -
  have "um_wf (foldl (\<lambda>r v. um_put (ve_id v) v r) [] (vs_vehicles s))"
    by (rule foldl_invariant) auto
  then show ?thesis
    by (auto simp: vm_inv_def replaceSnapshot_def find_replacement find_Some_iff split: option.splits)
qed

end
