(* ===== verification/Codec.thy ===== *)
theory Codec
  imports Json Vehicles Service
begin

text \<open>
  The JSON shapes of the protocol with the game (\<open>HttpConn.cpp\<close>) and of the recovery data
  (\<open>DispatchPersistence.cpp\<close>): what the server reads from a request and what it writes into a
  response or a database row.
\<close>

subsection \<open>Requests\<close>

definition parseVehicleState :: "'j json_lib \<Rightarrow> 'j \<Rightarrow> vehicle_state res" where
  "parseVehicleState L obj =
     res_bind (require (jl_is_object L obj) ''vehicle must be an object'') (\<lambda>_.
     res_bind (getRequiredString L obj [''id'', ''vehicleId'', ''vehicle_id'']) (\<lambda>vid.
     res_bind (getOptionalString L obj ''service'' ''unknown'') (\<lambda>service.
     res_bind (getOptionalString L obj ''prefab'' []) (\<lambda>prefab.
     res_bind (getOptionalString L obj ''status'' []) (\<lambda>status.
     res_bind (require (hasKey L obj ''position'') ''missing vehicle position'') (\<lambda>_.
     res_bind (j_at L obj ''position'') (\<lambda>position.
     res_bind (require (jl_is_object L position) ''missing vehicle position'') (\<lambda>_.
     res_bind (getRequiredNumber L position [''x'']) (\<lambda>x.
     res_bind (getOptionalNumber L position obj [''y''] 0) (\<lambda>y.
     res_bind (getRequiredNumber L position [''z'']) (\<lambda>z.
     res_bind (getOptionalNumber L obj position [''speed''] 0) (\<lambda>speed.
     res_bind (getOptionalNumber L obj position [''heading''] 0) (\<lambda>heading.
     res_bind (require (vid \<noteq> []) ''empty vehicle id'') (\<lambda>_.
     Inr \<lparr>ve_id = vid, ve_service = service, ve_prefab = prefab, ve_status = status,
       ve_position = \<lparr>vp_x = x, vp_y = y, vp_z = z\<rparr>, ve_speed = speed, ve_heading = heading\<rparr>))))))))))))))"

definition parseRoutePoint :: "'j json_lib \<Rightarrow> 'j \<Rightarrow> line_route_point res" where
  "parseRoutePoint L item =
     res_bind (require (jl_is_object L item) ''route point must be an object'') (\<lambda>_.
     res_bind (getOptionalString L item ''id'' []) (\<lambda>id0.
     res_bind (getOptionalString L item ''point_id'' id0) (\<lambda>pid.
     res_bind (getOptionalString L item ''track_segment_id'' []) (\<lambda>seg.
     res_bind (getRequiredNumber L item [''x'']) (\<lambda>x.
     res_bind (getOptionalNumber L item item [''y''] 0) (\<lambda>y.
     res_bind (getRequiredNumber L item [''z'']) (\<lambda>z.
     Inr \<lparr>pt_point_id = pid, pt_x = x, pt_y = y, pt_z = z, pt_track_segment_id = seg\<rparr>)))))))"

definition parseLineRoute :: "'j json_lib \<Rightarrow> 'j \<Rightarrow> line_route res" where
  "parseLineRoute L obj =
     res_bind (require (jl_is_object L obj) ''route must be an object'') (\<lambda>_.
     res_bind (getRequiredString L obj [''line_id'', ''lineId'']) (\<lambda>lid.
     res_bind (getOptionalString L obj ''lineName'' []) (\<lambda>name0.
     res_bind (getOptionalString L obj ''line_name'' name0) (\<lambda>name.
     res_bind (getOptionalString L obj ''transport_type'' ''unknown'') (\<lambda>transport.
     res_bind (getOptionalString L obj ''geometry_source'' ''unknown'') (\<lambda>geometry.
     res_bind (j_value L (jl_get_bool L) obj ''is_loop'' False) (\<lambda>is_loop.
     res_bind (if hasKey L obj ''target_headway_ms''
       then res_bind (j_at L obj ''target_headway_ms'') (jl_get_u64 L) else Inr 15000) (\<lambda>headway.
     res_bind (require (hasKey L obj ''points'') ''route points must be an array'') (\<lambda>_.
     res_bind (j_at L obj ''points'') (\<lambda>points.
     res_bind (require (jl_is_array L points) ''route points must be an array'') (\<lambda>_.
     res_bind (map_res (parseRoutePoint L) (jl_elements L points)) (\<lambda>pts.
     Inr \<lparr>lr_line_id = lid, lr_line_name = name, lr_transport_type = transport,
       lr_geometry_source = geometry, lr_is_loop = is_loop, lr_points = pts,
       lr_target_headway_ms = headway\<rparr>))))))))))))"

definition parseDirection :: "string \<Rightarrow> route_travel_direction res" where
  "parseDirection direction = (if direction = ''forward'' then Inr TRAVEL_FORWARD
     else if direction = ''reverse'' then Inr TRAVEL_REVERSE
     else Inl ''travel_direction must be forward or reverse'')"

definition parseTrainTelemetry :: "'j json_lib \<Rightarrow> 'j \<Rightarrow> u64 \<Rightarrow> u64 \<Rightarrow> train_telemetry res" where
  "parseTrainTelemetry L obj simulation_time_ms received_at_wall_ms =
     res_bind (require (jl_is_object L obj) ''train must be an object'') (\<lambda>_.
     res_bind (getRequiredString L obj [''train_id'', ''trainId'', ''id'']) (\<lambda>tid.
     res_bind (getRequiredString L obj [''line_id'', ''lineId'']) (\<lambda>lid.
     res_bind (require (hasKey L obj ''position'') ''train position must be an object'') (\<lambda>_.
     res_bind (j_at L obj ''position'') (\<lambda>position.
     res_bind (require (jl_is_object L position) ''train position must be an object'') (\<lambda>_.
     res_bind (getRequiredNumber L position [''x'']) (\<lambda>x.
     res_bind (getOptionalNumber L position obj [''y''] 0) (\<lambda>y.
     res_bind (getRequiredNumber L position [''z'']) (\<lambda>z.
     res_bind (getOptionalNumber L obj position [''speed''] 0) (\<lambda>speed.
     res_bind (getRequiredUint64 L obj ''route_index'') (\<lambda>index.
     res_bind (getOptionalNumber L obj obj [''route_position''] (double_of_u64 index)) (\<lambda>route_position.
     res_bind (getOptionalString L obj ''travel_direction'' ''forward'') (\<lambda>direction.
     res_bind (parseDirection (lower direction)) (\<lambda>travel.
     Inr \<lparr>tt_train_id = tid, tt_line_id = lid, tt_x = x, tt_y = y, tt_z = z, tt_speed = speed,
       tt_route_index = index, tt_route_position = route_position, tt_travel_direction = travel,
       tt_simulation_time_ms = simulation_time_ms, tt_received_at_wall_ms = received_at_wall_ms\<rparr>))))))))))))))"

subsection \<open>Names\<close>

fun actionName :: "dispatch_action \<Rightarrow> string" where
  "actionName HOLD_ALL = ''hold_all''"
| "actionName RELEASE = ''release''"
| "actionName NO_ACTION = ''no_action''"

fun phaseName :: "train_dispatch_phase \<Rightarrow> string" where
  "phaseName APPROACHING = ''approaching''"
| "phaseName WAITING_PERMISSION = ''waiting_permission''"
| "phaseName RELEASE_PENDING = ''release_pending''"
| "phaseName INSIDE_RESOURCE = ''inside_resource''"
| "phaseName MONITORED = ''monitored''"

fun relationName :: "route_direction_relation \<Rightarrow> string" where
  "relationName SAME = ''same''"
| "relationName OPPOSITE = ''opposite''"

definition corridorDirectionName :: "corridor_direction \<Rightarrow> string" where
  "corridorDirectionName d = (if d = FORWARD then ''forward'' else ''reverse'')"

definition travelDirectionName :: "route_travel_direction \<Rightarrow> string" where
  "travelDirectionName d = (if d = TRAVEL_FORWARD then ''forward'' else ''reverse'')"

definition corridorDirectionFromName :: "string \<Rightarrow> corridor_direction" where
  "corridorDirectionFromName s = (if s = ''reverse'' then REVERSE else FORWARD)"

definition actionFromName :: "string \<Rightarrow> dispatch_action" where
  "actionFromName s = (if s = ''release'' then RELEASE else if s = ''hold_all'' then HOLD_ALL else NO_ACTION)"

subsection \<open>Responses\<close>

definition j_point :: "'j json_lib \<Rightarrow> double \<Rightarrow> double \<Rightarrow> double \<Rightarrow> 'j" where
  "j_point L x y z = jl_object L [(''x'', jl_double L x), (''y'', jl_double L y), (''z'', jl_double L z)]"

definition vehicleToJson :: "'j json_lib \<Rightarrow> vehicle_state \<Rightarrow> 'j" where
  "vehicleToJson L v = jl_object L
     [(''id'', jl_string L (ve_id v)), (''service'', jl_string L (ve_service v)),
      (''prefab'', jl_string L (ve_prefab v)), (''status'', jl_string L (ve_status v)),
      (''position'', j_point L (vp_x (ve_position v)) (vp_y (ve_position v)) (vp_z (ve_position v))),
      (''speed'', jl_double L (ve_speed v)), (''heading'', jl_double L (ve_heading v))]"

definition decisionToJson :: "'j json_lib \<Rightarrow> dispatch_decision \<Rightarrow> 'j" where
  "decisionToJson L d = jl_object L
     [(''command_id'', jl_string L (dd_command_id d)), (''action'', jl_string L (actionName (dd_action d))),
      (''corridor_resource_id'', jl_string L (dd_corridor_resource_id d)),
      (''corridor_id'', jl_string L (dd_corridor_id d)),
      (''direction'', jl_string L (if dd_direction d = FORWARD then ''forward'' else ''reverse'')),
      (''train_id'', jl_string L (dd_train_id d)), (''line_id'', jl_string L (dd_line_id d)),
      (''topology_revision'', jl_u64 L (dd_topology_revision d)),
      (''issued_at_simulation_ms'', jl_u64 L (dd_issued_at_simulation_ms d)),
      (''has_route_bounds'', jl_bool L (dd_has_route_bounds d)),
      (''entry_route_index'', if dd_has_route_bounds d then jl_u64 L (dd_entry_route_index d) else jl_int L (-1)),
      (''exit_route_index'', if dd_has_route_bounds d then jl_u64 L (dd_exit_route_index d) else jl_int L (-1)),
      (''entry_route_position'', if dd_has_route_bounds d then jl_double L (dd_entry_route_position d)
         else jl_double L (Fin (-1))),
      (''exit_route_position'', if dd_has_route_bounds d then jl_double L (dd_exit_route_position d)
         else jl_double L (Fin (-1))),
      (''required_intersection_movement_ids'',
         jl_array L (map (jl_string L) (dd_reserved_intersection_movement_ids d))),
      (''reason'', jl_string L (dd_reason d)), (''score'', jl_double L (dd_score d)),
      (''score_breakdown'', jl_object L
         [(''headway_urgency'', jl_double L (sb_headway_urgency (dd_breakdown d))),
          (''waiting_time'', jl_double L (sb_waiting_time (dd_breakdown d))),
          (''fairness_credit'', jl_double L (sb_fairness_credit (dd_breakdown d))),
          (''global_plan_priority'', jl_double L (sb_global_plan_priority (dd_breakdown d))),
          (''consecutive_penalty'', jl_double L (sb_consecutive_penalty (dd_breakdown d)))])]"

definition pointToJson :: "'j json_lib \<Rightarrow> line_route_point \<Rightarrow> 'j" where
  "pointToJson L p = jl_object L [(''id'', jl_string L (pt_point_id p)),
     (''track_segment_id'', jl_string L (pt_track_segment_id p)),
     (''x'', jl_double L (pt_x p)), (''y'', jl_double L (pt_y p)), (''z'', jl_double L (pt_z p))]"

definition routeToJson :: "'j json_lib \<Rightarrow> line_route \<Rightarrow> 'j" where
  "routeToJson L r = jl_object L
     [(''line_id'', jl_string L (lr_line_id r)), (''line_name'', jl_string L (lr_line_name r)),
      (''transport_type'', jl_string L (lr_transport_type r)),
      (''geometry_source'', jl_string L (lr_geometry_source r)),
      (''is_loop'', jl_bool L (lr_is_loop r)), (''target_headway_ms'', jl_u64 L (lr_target_headway_ms r)),
      (''points'', jl_array L (map (pointToJson L) (lr_points r)))]"

definition memberToJson :: "'j json_lib \<Rightarrow> shared_corridor_member \<Rightarrow> 'j" where
  "memberToJson L m = jl_object L
     [(''line_id'', jl_string L (sm_line_id m)),
      (''start_segment'', jl_u64 L (of_nat (sm_start_segment m))),
      (''end_segment'', jl_u64 L (of_nat (sm_end_segment m))),
      (''start_position'', jl_double L (sm_start_position m)),
      (''end_position'', jl_double L (sm_end_position m)),
      (''occurrence_id'', jl_string L (sm_occurrence_id m)),
      (''direction_relation'', jl_string L (relationName (sm_direction_relation m)))]"

definition corridorToJson :: "'j json_lib \<Rightarrow> shared_corridor_definition \<Rightarrow> 'j" where
  "corridorToJson L c = jl_object L
     [(''corridor_id'', jl_string L (sd_corridor_id c)),
      (''start'', j_point L (sd_start_x c) (sd_start_y c) (sd_start_z c)),
      (''end'', j_point L (sd_end_x c) (sd_end_y c) (sd_end_z c)),
      (''length'', jl_double L (sd_length c)),
      (''geometry'', jl_array L (map (\<lambda>p. j_point L (pt_x p) (pt_y p) (pt_z p)) (sd_geometry c))),
      (''members'', jl_array L (map (memberToJson L) (sd_members c)))]"

definition intersectionToJson :: "'j json_lib \<Rightarrow> line_intersection_definition \<Rightarrow> 'j" where
  "intersectionToJson L i = jl_object L
     [(''intersection_id'', jl_string L (li_intersection_id i)),
      (''position'', j_point L (li_x i) (li_y i) (li_z i)),
      (''line_a_id'', jl_string L (li_line_a_id i)), (''line_b_id'', jl_string L (li_line_b_id i)),
      (''line_a_segment'', jl_u64 L (of_nat (li_line_a_segment i))),
      (''line_b_segment'', jl_u64 L (of_nat (li_line_b_segment i))),
      (''line_a_movement_id'', jl_string L (li_line_a_movement_id i)),
      (''line_b_movement_id'', jl_string L (li_line_b_movement_id i))]"

definition movementToJson :: "'j json_lib \<Rightarrow> line_intersection_movement \<Rightarrow> 'j" where
  "movementToJson L m = jl_object L
     [(''movement_id'', jl_string L (mv_movement_id m)),
      (''intersection_id'', jl_string L (mv_intersection_id m)),
      (''line_id'', jl_string L (mv_line_id m)),
      (''incoming_route_segment_id'', jl_string L (mv_incoming_route_segment_id m)),
      (''outgoing_route_segment_id'', jl_string L (mv_outgoing_route_segment_id m)),
      (''conflict_movement_ids'', jl_array L (map (jl_string L) (mv_conflict_movement_ids m))),
      (''clearance_time_ms'', jl_u64 L (mv_clearance_time_ms m))]"

definition monitoredToJson :: "'j json_lib \<Rightarrow> monitored_train \<Rightarrow> 'j" where
  "monitoredToJson L m = (let t = mt_telemetry m in jl_object L
     [(''train_id'', jl_string L (tt_train_id t)), (''line_id'', jl_string L (tt_line_id t)),
      (''position'', j_point L (tt_x t) (tt_y t) (tt_z t)), (''speed'', jl_double L (tt_speed t)),
      (''route_index'', jl_u64 L (tt_route_index t)),
      (''route_position'', jl_double L (tt_route_position t)),
      (''travel_direction'', jl_string L (if tt_travel_direction t = TRAVEL_FORWARD then ''forward'' else ''reverse'')),
      (''simulation_time_ms'', jl_u64 L (tt_simulation_time_ms t)),
      (''phase'', jl_string L (phaseName (mt_phase m))),
      (''controlled_resource_id'', jl_string L (mt_controlled_resource_id m))])"

definition plannedToJson :: "'j json_lib \<Rightarrow> planned_train_arrival \<Rightarrow> 'j" where
  "plannedToJson L p = jl_object L
     [(''train_id'', jl_string L (pa_train_id p)), (''line_id'', jl_string L (pa_line_id p)),
      (''distance_to_entry'', jl_double L (pa_distance_to_entry p)),
      (''estimated_arrival_simulation_ms'', jl_u64 L (pa_estimated_arrival_simulation_ms p)),
      (''planned_entry_simulation_ms'', jl_u64 L (pa_planned_entry_simulation_ms p)),
      (''within_planning_horizon'', jl_bool L (pa_within_planning_horizon p)),
      (''suggested_rank'', if pa_within_planning_horizon p then jl_u64 L (pa_suggested_rank p) else jl_null L),
      (''line_distribution_need'', jl_double L (pa_line_distribution_need p)),
      (''global_priority'', jl_double L (pa_global_priority p))]"

definition planToJson :: "'j json_lib \<Rightarrow> corridor_rolling_plan \<Rightarrow> 'j" where
  "planToJson L p = jl_object L
     [(''corridor_resource_id'', jl_string L (cp_corridor_resource_id p)),
      (''generated_at_simulation_ms'', jl_u64 L (cp_generated_at_simulation_ms p)),
      (''trains'', jl_array L (map (plannedToJson L) (cp_trains p)))]"

subsection \<open>Recovery data\<close>

definition persist_pointToJson :: "'j json_lib \<Rightarrow> line_route_point \<Rightarrow> 'j" where
  "persist_pointToJson L p = jl_object L [(''point_id'', jl_string L (pt_point_id p)),
     (''track_segment_id'', jl_string L (pt_track_segment_id p)),
     (''x'', jl_double L (pt_x p)), (''y'', jl_double L (pt_y p)), (''z'', jl_double L (pt_z p))]"

definition persist_routeToJson :: "'j json_lib \<Rightarrow> line_route \<Rightarrow> 'j" where
  "persist_routeToJson L r = jl_object L
     [(''line_id'', jl_string L (lr_line_id r)), (''line_name'', jl_string L (lr_line_name r)),
      (''transport_type'', jl_string L (lr_transport_type r)),
      (''geometry_source'', jl_string L (lr_geometry_source r)),
      (''is_loop'', jl_bool L (lr_is_loop r)), (''target_headway_ms'', jl_u64 L (lr_target_headway_ms r)),
      (''points'', jl_array L (map (persist_pointToJson L) (lr_points r)))]"

definition pointFromJson :: "'j json_lib \<Rightarrow> 'j \<Rightarrow> line_route_point res" where
  "pointFromJson L item =
     res_bind (j_value L (jl_get_string L) item ''point_id'' []) (\<lambda>pid.
     res_bind (j_value L (jl_get_string L) item ''track_segment_id'' []) (\<lambda>seg.
     res_bind (res_bind (j_at L item ''x'') (jl_get_double L)) (\<lambda>x.
     res_bind (j_value L (jl_get_double L) item ''y'' 0) (\<lambda>y.
     res_bind (res_bind (j_at L item ''z'') (jl_get_double L)) (\<lambda>z.
     Inr \<lparr>pt_point_id = pid, pt_x = x, pt_y = y, pt_z = z, pt_track_segment_id = seg\<rparr>)))))"

definition routeFromJson :: "'j json_lib \<Rightarrow> 'j \<Rightarrow> line_route res" where
  "routeFromJson L value =
     res_bind (res_bind (j_at L value ''line_id'') (jl_get_string L)) (\<lambda>lid.
     res_bind (j_value L (jl_get_string L) value ''line_name'' []) (\<lambda>name.
     res_bind (j_value L (jl_get_string L) value ''transport_type'' ''unknown'') (\<lambda>transport.
     res_bind (j_value L (jl_get_string L) value ''geometry_source'' ''unknown'') (\<lambda>geometry.
     res_bind (j_value L (jl_get_bool L) value ''is_loop'' False) (\<lambda>is_loop.
     res_bind (j_value L (jl_get_u64 L) value ''target_headway_ms'' 15000) (\<lambda>headway.
     res_bind (j_at L value ''points'') (\<lambda>points.
     res_bind (map_res (pointFromJson L) (jl_elements L points)) (\<lambda>pts.
     Inr \<lparr>lr_line_id = lid, lr_line_name = name, lr_transport_type = transport,
       lr_geometry_source = geometry, lr_is_loop = is_loop, lr_points = pts,
       lr_target_headway_ms = headway\<rparr>))))))))"

definition persist_decisionToJson :: "'j json_lib \<Rightarrow> dispatch_decision \<Rightarrow> 'j" where
  "persist_decisionToJson L d = jl_object L
     [(''command_id'', jl_string L (dd_command_id d)), (''action'', jl_string L (actionName (dd_action d))),
      (''corridor_resource_id'', jl_string L (dd_corridor_resource_id d)),
      (''corridor_id'', jl_string L (dd_corridor_id d)),
      (''direction'', jl_string L (corridorDirectionName (dd_direction d))),
      (''train_id'', jl_string L (dd_train_id d)), (''line_id'', jl_string L (dd_line_id d)),
      (''topology_revision'', jl_u64 L (dd_topology_revision d)),
      (''issued_at_simulation_ms'', jl_u64 L (dd_issued_at_simulation_ms d)),
      (''entry_route_index'', jl_u64 L (dd_entry_route_index d)),
      (''exit_route_index'', jl_u64 L (dd_exit_route_index d)),
      (''entry_route_position'', jl_double L (dd_entry_route_position d)),
      (''exit_route_position'', jl_double L (dd_exit_route_position d)),
      (''has_route_bounds'', jl_bool L (dd_has_route_bounds d)),
      (''reserved_intersection_movement_ids'',
         jl_array L (map (jl_string L) (dd_reserved_intersection_movement_ids d))),
      (''reason'', jl_string L (dd_reason d)), (''score'', jl_double L (dd_score d)),
      (''breakdown'', jl_object L
         [(''headway_urgency'', jl_double L (sb_headway_urgency (dd_breakdown d))),
          (''waiting_time'', jl_double L (sb_waiting_time (dd_breakdown d))),
          (''fairness_credit'', jl_double L (sb_fairness_credit (dd_breakdown d))),
          (''consecutive_penalty'', jl_double L (sb_consecutive_penalty (dd_breakdown d))),
          (''global_plan_priority'', jl_double L (sb_global_plan_priority (dd_breakdown d)))])]"

definition breakdownFromJson :: "'j json_lib \<Rightarrow> 'j \<Rightarrow> dispatch_score_breakdown res" where
  "breakdownFromJson L b =
     res_bind (j_value L (jl_get_double L) b ''headway_urgency'' 0) (\<lambda>urgency.
     res_bind (j_value L (jl_get_double L) b ''waiting_time'' 0) (\<lambda>waiting.
     res_bind (j_value L (jl_get_double L) b ''fairness_credit'' 0) (\<lambda>credit.
     res_bind (j_value L (jl_get_double L) b ''consecutive_penalty'' 0) (\<lambda>penalty.
     res_bind (j_value L (jl_get_double L) b ''global_plan_priority'' 0) (\<lambda>priority.
     Inr \<lparr>sb_headway_urgency = urgency, sb_waiting_time = waiting, sb_fairness_credit = credit,
       sb_consecutive_penalty = penalty, sb_global_plan_priority = priority\<rparr>)))))"

definition decisionFromJson :: "'j json_lib \<Rightarrow> 'j \<Rightarrow> dispatch_decision res" where
  "decisionFromJson L value =
     res_bind (res_bind (j_at L value ''command_id'') (jl_get_string L)) (\<lambda>cid.
     res_bind (j_value L (jl_get_string L) value ''action'' ''no_action'') (\<lambda>action.
     res_bind (res_bind (j_at L value ''corridor_resource_id'') (jl_get_string L)) (\<lambda>rid.
     res_bind (j_value L (jl_get_string L) value ''corridor_id'' []) (\<lambda>corridor.
     res_bind (j_value L (jl_get_string L) value ''direction'' ''forward'') (\<lambda>direction.
     res_bind (res_bind (j_at L value ''train_id'') (jl_get_string L)) (\<lambda>tid.
     res_bind (j_value L (jl_get_string L) value ''line_id'' []) (\<lambda>lid.
     res_bind (j_value L (jl_get_u64 L) value ''topology_revision'' 0) (\<lambda>revision.
     res_bind (j_value L (jl_get_u64 L) value ''issued_at_simulation_ms'' 0) (\<lambda>issued.
     res_bind (j_value L (jl_get_u64 L) value ''entry_route_index'' 0) (\<lambda>entry.
     res_bind (j_value L (jl_get_u64 L) value ''exit_route_index'' 0) (\<lambda>exit.
     res_bind (j_value L (jl_get_double L) value ''entry_route_position'' (double_of_u64 entry)) (\<lambda>entry_pos.
     res_bind (j_value L (jl_get_double L) value ''exit_route_position'' (double_of_u64 exit)) (\<lambda>exit_pos.
     res_bind (j_value L (jl_get_bool L) value ''has_route_bounds'' False) (\<lambda>bounds.
     res_bind (j_value L (jl_get_strings L) value ''reserved_intersection_movement_ids'' []) (\<lambda>ids.
     res_bind (j_value L (jl_get_string L) value ''reason'' []) (\<lambda>reason.
     res_bind (j_value L (jl_get_double L) value ''score'' 0) (\<lambda>score.
     res_bind (if hasKey L value ''breakdown'' then res_bind (j_at L value ''breakdown'') (breakdownFromJson L)
       else Inr default_score_breakdown) (\<lambda>breakdown.
     Inr \<lparr>dd_action = actionFromName action, dd_command_id = cid, dd_corridor_resource_id = rid,
       dd_corridor_id = corridor, dd_direction = corridorDirectionFromName direction, dd_train_id = tid,
       dd_line_id = lid, dd_topology_revision = revision, dd_issued_at_simulation_ms = issued,
       dd_entry_route_index = entry, dd_exit_route_index = exit, dd_entry_route_position = entry_pos,
       dd_exit_route_position = exit_pos, dd_has_route_bounds = bounds,
       dd_reserved_intersection_movement_ids = ids, dd_reason = reason, dd_score = score,
       dd_breakdown = breakdown\<rparr>))))))))))))))))))"

definition persist_trainToJson :: "'j json_lib \<Rightarrow> monitored_train \<Rightarrow> 'j" where
  "persist_trainToJson L m = (let t = mt_telemetry m in jl_object L
     [(''train_id'', jl_string L (tt_train_id t)), (''line_id'', jl_string L (tt_line_id t)),
      (''x'', jl_double L (tt_x t)), (''y'', jl_double L (tt_y t)), (''z'', jl_double L (tt_z t)),
      (''speed'', jl_double L (tt_speed t)), (''route_index'', jl_u64 L (tt_route_index t)),
      (''route_position'', jl_double L (tt_route_position t)),
      (''travel_direction'', jl_string L (travelDirectionName (tt_travel_direction t))),
      (''simulation_time_ms'', jl_u64 L (tt_simulation_time_ms t)),
      (''received_at_wall_ms'', jl_u64 L (tt_received_at_wall_ms t)),
      (''phase'', jl_string L (phaseName (mt_phase m))),
      (''controlled_resource_id'', jl_string L (mt_controlled_resource_id m))])"

definition persist_plannedToJson :: "'j json_lib \<Rightarrow> planned_train_arrival \<Rightarrow> 'j" where
  "persist_plannedToJson L p = jl_object L
     [(''train_id'', jl_string L (pa_train_id p)), (''line_id'', jl_string L (pa_line_id p)),
      (''corridor_resource_id'', jl_string L (pa_corridor_resource_id p)),
      (''distance_to_entry'', jl_double L (pa_distance_to_entry p)),
      (''estimated_arrival_simulation_ms'', jl_u64 L (pa_estimated_arrival_simulation_ms p)),
      (''planned_entry_simulation_ms'', jl_u64 L (pa_planned_entry_simulation_ms p)),
      (''target_headway_ms'', jl_u64 L (pa_target_headway_ms p)),
      (''within_planning_horizon'', jl_bool L (pa_within_planning_horizon p)),
      (''suggested_rank'', jl_u64 L (pa_suggested_rank p)),
      (''line_distribution_need'', jl_double L (pa_line_distribution_need p)),
      (''global_priority'', jl_double L (pa_global_priority p))]"

definition persist_planToJson :: "'j json_lib \<Rightarrow> corridor_rolling_plan \<Rightarrow> 'j" where
  "persist_planToJson L p = jl_object L
     [(''corridor_resource_id'', jl_string L (cp_corridor_resource_id p)),
      (''generated_at_simulation_ms'', jl_u64 L (cp_generated_at_simulation_ms p)),
      (''trains'', jl_array L (map (persist_plannedToJson L) (cp_trains p)))]"

text \<open>The resources in ascending order of their ids, each plan looked up with \<open>at\<close>.\<close>

definition rollingPlanToJson :: "'j json_lib \<Rightarrow> rolling_plan_result \<Rightarrow> 'j" where
  "rollingPlanToJson L rp =
     (let resource_ids = sort (map fst (rp_plans_by_resource rp)) in
      jl_object L [(''plans'', jl_array L (map (\<lambda>rid. persist_planToJson L
        (the (um_find (rp_plans_by_resource rp) rid))) resource_ids))])"

text \<open>\<open>std::stoull\<close>: white space, an optional sign, then as many digits as there are; \<open>None\<close> when it
  throws.\<close>

definition stoull :: "string \<Rightarrow> u64 option" where
  "stoull s = (let t = dropWhile is_space s;
       neg = (t \<noteq> [] \<and> hd t = CHR ''-'');
       u = (if t \<noteq> [] \<and> (hd t = CHR ''-'' \<or> hd t = CHR ''+'') then tl t else t);
       ds = takeWhile is_digit u
     in if ds = [] \<or> digits_value ds \<ge> 2 ^ 64 then None
        else Some (if neg then - of_nat (digits_value ds) else of_nat (digits_value ds)))"

definition commandSequence :: "string \<Rightarrow> u64" where
  "commandSequence command_id = (if \<not> prefix ''CMD:'' command_id then 0
     else case stoull (drop 4 command_id) of None \<Rightarrow> 0 | Some n \<Rightarrow> n)"

subsection \<open>Round trips\<close>

lemma read_string [json_read]: "json_laws L \<Longrightarrow> jl_get_string L (jl_string L s) = Inr s"
  and read_double [json_read]: "json_laws L \<Longrightarrow> jl_get_double L (jl_double L d) = Inr d"
  and read_u64 [json_read]: "json_laws L \<Longrightarrow> jl_get_u64 L (jl_u64 L n) = Inr n"
  and read_bool [json_read]: "json_laws L \<Longrightarrow> jl_get_bool L (jl_bool L b) = Inr b"
  and read_strings [json_read]: "json_laws L \<Longrightarrow> jl_get_strings L (jl_array L (map (jl_string L) ss)) = Inr ss"
  and read_elements [json_read]: "json_laws L \<Longrightarrow> jl_elements L (jl_array L xs) = xs"
  and read_is_array [json_read]: "json_laws L \<Longrightarrow> jl_is_array L (jl_array L xs)"
  and read_is_object [json_read]: "json_laws L \<Longrightarrow> distinct (map fst kvs) \<Longrightarrow> jl_is_object L (jl_object L kvs)"
  by (simp_all add: json_lawsD)

lemma parse_point: "json_laws L \<Longrightarrow> parseRoutePoint L (pointToJson L p) = Inr p"
  by (cases p) (simp add: parseRoutePoint_def pointToJson_def json_read getOptionalString_def getOptionalNumber_def)

lemma point_from_json: "json_laws L \<Longrightarrow> pointFromJson L (persist_pointToJson L p) = Inr p"
  by (cases p) (simp add: pointFromJson_def persist_pointToJson_def json_read)

lemma parse_route: "json_laws L \<Longrightarrow> parseLineRoute L (routeToJson L r) = Inr r"
  by (cases r) (simp add: parseLineRoute_def routeToJson_def json_read getOptionalString_def
      map_res_map parse_point)

lemma route_from_json: "json_laws L \<Longrightarrow> routeFromJson L (persist_routeToJson L r) = Inr r"
  by (cases r) (simp add: routeFromJson_def persist_routeToJson_def json_read map_res_map point_from_json)

text \<open>A topology read from the server can be uploaded again. The routes that \<open>GET /api/game/lines\<close>
  writes are read back by \<open>POST /api/game/lines/snapshot\<close> exactly, every field of every point, for
  any JSON library that keeps its documented laws; the same holds for the form the routes are stored
  in for recovery.\<close>

theorem routes_roundtrip:
  assumes "json_laws L"
  shows "map_res (parseLineRoute L) (jl_elements L (jl_array L (map (routeToJson L) rs))) = Inr rs \<and>
    map_res (routeFromJson L) (jl_elements L (jl_array L (map (persist_routeToJson L) rs))) = Inr rs"
  by (simp add: json_read [OF assms] map_res_map parse_route [OF assms] route_from_json [OF assms])

lemma routes_roundtrip_witness:
  "map_res (parseLineRoute demo_json) (jl_elements demo_json (jl_array demo_json
     (map (routeToJson demo_json) [demo_east]))) = Inr [demo_east]"
  using routes_roundtrip [OF demo_json_laws, of "[demo_east]"] by blast

lemma breakdown_from_json: "json_laws L \<Longrightarrow> breakdownFromJson L (jl_object L
   [(''headway_urgency'', jl_double L (sb_headway_urgency b)), (''waiting_time'', jl_double L (sb_waiting_time b)),
    (''fairness_credit'', jl_double L (sb_fairness_credit b)),
    (''consecutive_penalty'', jl_double L (sb_consecutive_penalty b)),
    (''global_plan_priority'', jl_double L (sb_global_plan_priority b))]) = Inr b"
  by (cases b) (simp add: breakdownFromJson_def json_read)

lemma action_from_name: "actionFromName (actionName a) = a"
  by (cases a) (simp_all add: actionFromName_def)

lemma direction_from_name: "corridorDirectionFromName (corridorDirectionName d) = d"
  by (cases d) (simp_all add: corridorDirectionFromName_def corridorDirectionName_def)

lemma stoull_digits: "n < 2 ^ 64 \<Longrightarrow> stoull (nat_digits n) = Some (of_nat n)"
proof -
  assume n: "n < 2 ^ 64"
  have d: "\<forall>c \<in> set (nat_digits n). is_digit c" using nat_digits_is_digit by blast
  obtain c cs where c: "nat_digits n = c # cs" by (cases "nat_digits n") (auto simp: nat_digits_nonempty)
  have "is_digit c" using d c by simp
  then have s: "\<not> is_space c" "c \<noteq> CHR ''-''" "c \<noteq> CHR ''+''" by (auto simp: is_digit_def is_space_def)
  have t: "takeWhile is_digit (nat_digits n) = nat_digits n" using d by (simp add: takeWhile_eq_all_conv)
  show ?thesis
    using n s t digits_value_nat_digits [of n] by (simp add: stoull_def Let_def c)
qed

lemma command_sequence: "commandSequence (command_text n) = n"
proof -
  have "unat n < 2 ^ 64" using unsigned_less [of n, where 'a = nat] by simp
  then show ?thesis by (simp add: commandSequence_def command_text_def string_of_u64_def stoull_digits)
qed

lemma stored_command_is_recovered:
  assumes "json_laws L"
  shows "decisionFromJson L (persist_decisionToJson L d) = Inr d \<and> commandSequence (command_text n) = n"
proof -
  let ?b = "jl_object L [(''headway_urgency'', jl_double L (sb_headway_urgency (dd_breakdown d))),
      (''waiting_time'', jl_double L (sb_waiting_time (dd_breakdown d))),
      (''fairness_credit'', jl_double L (sb_fairness_credit (dd_breakdown d))),
      (''consecutive_penalty'', jl_double L (sb_consecutive_penalty (dd_breakdown d))),
      (''global_plan_priority'', jl_double L (sb_global_plan_priority (dd_breakdown d)))]"
  have b: "breakdownFromJson L ?b = Inr (dd_breakdown d)" by (rule breakdown_from_json [OF assms])
  have "decisionFromJson L (persist_decisionToJson L d) = Inr d"
    by (simp add: decisionFromJson_def persist_decisionToJson_def json_read assms b action_from_name
        direction_from_name)
  then show ?thesis using command_sequence by simp
qed

text \<open>A vehicle is read back unless its id is empty.\<close>

lemma vehicle_roundtrip:
  assumes "json_laws L"
  shows "parseVehicleState L (vehicleToJson L v) = (if ve_id v = [] then Inl ''empty vehicle id'' else Inr v)"
  by (cases v; cases "ve_position v") (simp add: parseVehicleState_def vehicleToJson_def j_point_def json_read assms
      getOptionalString_def getOptionalNumber_def)

end
