(* ===== verification/Persist.thy ===== *)
theory Persist
  imports Codec
begin

text \<open>
  \<open>DispatchPersistence.cpp\<close>: what is written to MySQL and Redis, in which order, and what is read
  back after a restart. MySQL (the C client and the server behind it) is not part of the
  repository: a record of operations on an abstract database state, every query answered by success
  or by an error text. The SQL texts are those of the code. Redis is the log of the operations
  that were sent to it, with a function that answers them.
\<close>

subsection \<open>The databases\<close>

record 'db mysql =
  my_connect :: "'db \<Rightarrow> bool"
  my_query :: "'db \<Rightarrow> string \<Rightarrow> string option \<times> 'db"
  my_rows :: "'db \<Rightarrow> string option list list option"
  my_error :: "'db \<Rightarrow> string"
  my_escape :: "string \<Rightarrow> string"

datatype redis_op = RSet string string int | RSetPersistent string string | RRemove string
  | RAppend string string string string nat | RSortedSet string "(double \<times> string) list" int

record redis =
  rd_enabled :: bool
  rd_answer :: "redis_op \<Rightarrow> bool"

record dispatch_persistence_config =
  pg_auto_migrate :: bool
  pg_telemetry_history_enabled :: bool
  pg_command_recovery_enabled :: bool
  pg_realtime_ttl_ms :: int
  pg_rolling_plan_ttl_ms :: int
  pg_command_ttl_ms :: int
  pg_stream_max_len :: nat

definition default_persistence_config :: dispatch_persistence_config where
  "default_persistence_config = \<lparr>pg_auto_migrate = True, pg_telemetry_history_enabled = True,
     pg_command_recovery_enabled = False, pg_realtime_ttl_ms = 15000, pg_rolling_plan_ttl_ms = 60000,
     pg_command_ttl_ms = 86400000, pg_stream_max_len = 100000\<rparr>"

text \<open>The state: \<open>dp_pool\<close> and \<open>dp_redis\<close> say whether the pointers are set; the counters wrap.\<close>

record 'db persistence =
  dp_pool :: bool
  dp_redis :: bool
  dp_config :: dispatch_persistence_config
  dp_mysql_enabled :: bool
  dp_mysql_writes :: u64
  dp_mysql_errors :: u64
  dp_redis_writes :: u64
  dp_redis_errors :: u64
  dp_recovered_pending :: u64
  dp_recovered_active :: u64
  dp_db :: 'db
  dp_redis_log :: "redis_op list"

definition new_persistence :: "'db \<Rightarrow> 'db persistence" where
  "new_persistence db = \<lparr>dp_pool = False, dp_redis = False, dp_config = default_persistence_config,
     dp_mysql_enabled = False, dp_mysql_writes = 0, dp_mysql_errors = 0, dp_redis_writes = 0,
     dp_redis_errors = 0, dp_recovered_pending = 0, dp_recovered_active = 0, dp_db = db, dp_redis_log = []\<rparr>"

text \<open>A method returns true, or false with the error text, or throws.\<close>

datatype 'a answer = Ok 'a | Failed string | Raised string

subsection \<open>Statements\<close>

definition sq :: string where "sq = [CHR 0x27]"

definition quoted :: "'db mysql \<Rightarrow> string \<Rightarrow> string" where
  "quoted M s = sq @ my_escape M s @ sq"

definition execute :: "'db mysql \<Rightarrow> 'db persistence \<Rightarrow> string \<Rightarrow> string option \<times> 'db persistence" where
  "execute M p sql = (case my_query M (dp_db p) sql of (e, db) \<Rightarrow> (e, p\<lparr>dp_db := db\<rparr>))"

text \<open>\<open>ok = execute(...)\<close> for one statement after the other while \<open>ok\<close>. A statement whose text
  cannot be built (the JSON library throws) ends the method with that exception.\<close>

fun run_statements :: "'db mysql \<Rightarrow> 'db persistence \<Rightarrow> string res list \<Rightarrow> unit answer \<times> 'db persistence" where
  "run_statements M p [] = (Ok (), p)"
| "run_statements M p (Inl e # rest) = (Raised e, p)"
| "run_statements M p (Inr sql # rest) = (case execute M p sql of
      (None, p1) \<Rightarrow> run_statements M p1 rest | (Some e, p1) \<Rightarrow> (Failed e, p1))"

definition mysql_error :: "'db persistence \<Rightarrow> 'db persistence" where
  "mysql_error p = p\<lparr>dp_mysql_errors := dp_mysql_errors p + 1\<rparr>"

definition mysql_wrote :: "'db persistence \<Rightarrow> 'db persistence" where
  "mysql_wrote p = p\<lparr>dp_mysql_writes := dp_mysql_writes p + 1\<rparr>"

definition rollback :: "'db mysql \<Rightarrow> 'db persistence \<Rightarrow> 'db persistence" where
  "rollback M p = snd (execute M p ''ROLLBACK'')"

text \<open>The statements of a transaction, with what the code does after them.\<close>

definition finish_transaction :: "'db mysql \<Rightarrow> unit answer \<times> 'db persistence \<Rightarrow> unit answer \<times> 'db persistence" where
  "finish_transaction M r = (case r of (Ok u, p) \<Rightarrow> (Ok u, mysql_wrote p)
     | (Failed e, p) \<Rightarrow> (Failed e, mysql_error (rollback M p)) | (Raised e, p) \<Rightarrow> (Raised e, p))"

definition no_connection :: "'db persistence \<Rightarrow> unit answer \<times> 'db persistence" where
  "no_connection p = (Failed ''no MySQL connection available'', mysql_error p)"

definition countRedis :: "bool \<Rightarrow> 'db persistence \<Rightarrow> 'db persistence" where
  "countRedis ok p = (if ok then p\<lparr>dp_redis_writes := dp_redis_writes p + 1\<rparr>
     else p\<lparr>dp_redis_errors := dp_redis_errors p + 1\<rparr>)"

definition send_redis :: "redis \<Rightarrow> redis_op \<Rightarrow> 'db persistence \<Rightarrow> 'db persistence" where
  "send_redis R op p = countRedis (rd_answer R op) (p\<lparr>dp_redis_log := dp_redis_log p @ [op]\<rparr>)"

fun run_redis :: "redis \<Rightarrow> 'db persistence \<Rightarrow> redis_op res list \<Rightarrow> unit answer \<times> 'db persistence" where
  "run_redis R p [] = (Ok (), p)"
| "run_redis R p (Inl e # rest) = (Raised e, p)"
| "run_redis R p (Inr op # rest) = run_redis R (send_redis R op p) rest"

text \<open>Redis is used only after MySQL has succeeded or is off.\<close>

definition then_redis :: "redis \<Rightarrow> unit answer \<times> 'db persistence \<Rightarrow> redis_op res list \<Rightarrow> unit answer \<times> 'db persistence" where
  "then_redis R r ops = (case r of (Ok _, p) \<Rightarrow> if dp_redis p \<and> rd_enabled R then run_redis R p ops else (Ok (), p)
     | (Failed e, p) \<Rightarrow> (Failed e, p) | (Raised e, p) \<Rightarrow> (Raised e, p))"

subsection \<open>Initialisation\<close>

definition schema_statements :: "string list" where
  "schema_statements = [
     ''CREATE TABLE IF NOT EXISTS dispatch_topology_snapshots ('' @
     ''revision BIGINT UNSIGNED NOT NULL,'' @
     ''received_at_wall_ms BIGINT UNSIGNED NOT NULL,'' @
     ''route_count INT UNSIGNED NOT NULL,'' @
     ''corridor_count INT UNSIGNED NOT NULL,'' @
     ''intersection_count INT UNSIGNED NOT NULL,'' @
     ''payload_json JSON NOT NULL,'' @
     ''created_at TIMESTAMP(6) NOT NULL DEFAULT CURRENT_TIMESTAMP(6),'' @
     ''PRIMARY KEY (revision),'' @
     ''KEY idx_dispatch_topology_created (created_at)'' @
     '') ENGINE=InnoDB DEFAULT CHARSET=utf8mb4'',
     ''CREATE TABLE IF NOT EXISTS dispatch_train_state ('' @
     ''train_id VARCHAR(128) NOT NULL,'' @
     ''line_id VARCHAR(128) NOT NULL,'' @
     ''x DOUBLE NOT NULL,y DOUBLE NOT NULL,z DOUBLE NOT NULL,'' @
     ''speed DOUBLE NOT NULL,route_index BIGINT UNSIGNED NOT NULL,'' @
     ''travel_direction VARCHAR(16) NOT NULL,'' @
     ''simulation_time_ms BIGINT UNSIGNED NOT NULL,'' @
     ''received_at_wall_ms BIGINT UNSIGNED NOT NULL,'' @
     ''phase VARCHAR(32) NOT NULL,'' @
     ''controlled_resource_id VARCHAR(255) NOT NULL,'' @
     ''is_active TINYINT(1) NOT NULL DEFAULT 1,'' @
     ''updated_at TIMESTAMP(6) NOT NULL DEFAULT CURRENT_TIMESTAMP(6) '' @
     ''ON UPDATE CURRENT_TIMESTAMP(6),'' @
     ''PRIMARY KEY (train_id),'' @
     ''KEY idx_dispatch_train_line_active (line_id,is_active),'' @
     ''KEY idx_dispatch_train_resource (controlled_resource_id,phase)'' @
     '') ENGINE=InnoDB DEFAULT CHARSET=utf8mb4'',
     ''CREATE TABLE IF NOT EXISTS dispatch_telemetry_batches ('' @
     ''id BIGINT UNSIGNED NOT NULL AUTO_INCREMENT,'' @
     ''simulation_time_ms BIGINT UNSIGNED NOT NULL,'' @
     ''received_at_wall_ms BIGINT UNSIGNED NOT NULL,'' @
     ''train_count INT UNSIGNED NOT NULL,'' @
     ''payload_json JSON NOT NULL,'' @
     ''created_at TIMESTAMP(6) NOT NULL DEFAULT CURRENT_TIMESTAMP(6),'' @
     ''PRIMARY KEY (id),'' @
     ''KEY idx_dispatch_telemetry_simulation (simulation_time_ms,id),'' @
     ''KEY idx_dispatch_telemetry_created (created_at,id)'' @
     '') ENGINE=InnoDB DEFAULT CHARSET=utf8mb4'',
     ''CREATE TABLE IF NOT EXISTS dispatch_rolling_plans ('' @
     ''id BIGINT UNSIGNED NOT NULL AUTO_INCREMENT,'' @
     ''topology_revision BIGINT UNSIGNED NOT NULL,'' @
     ''generated_at_simulation_ms BIGINT UNSIGNED NOT NULL,'' @
     ''generated_at_wall_ms BIGINT UNSIGNED NOT NULL,'' @
     ''resource_count INT UNSIGNED NOT NULL,'' @
     ''payload_json JSON NOT NULL,'' @
     ''created_at TIMESTAMP(6) NOT NULL DEFAULT CURRENT_TIMESTAMP(6),'' @
     ''PRIMARY KEY (id),'' @
     ''KEY idx_dispatch_plan_revision_time '' @
     ''(topology_revision,generated_at_simulation_ms,id),'' @
     ''KEY idx_dispatch_plan_created (created_at,id)'' @
     '') ENGINE=InnoDB DEFAULT CHARSET=utf8mb4'',
     ''CREATE TABLE IF NOT EXISTS dispatch_commands ('' @
     ''command_id VARCHAR(128) NOT NULL,'' @
     ''command_sequence BIGINT UNSIGNED NOT NULL,'' @
     ''train_id VARCHAR(128) NOT NULL,'' @
     ''corridor_resource_id VARCHAR(255) NOT NULL,'' @
     ''action VARCHAR(32) NOT NULL,'' @
     ''status VARCHAR(32) NOT NULL,'' @
     ''topology_revision BIGINT UNSIGNED NOT NULL,'' @
     ''issued_at_simulation_ms BIGINT UNSIGNED NOT NULL,'' @
     ''issued_at_wall_ms BIGINT UNSIGNED NOT NULL,'' @
     ''acknowledged_at_simulation_ms BIGINT UNSIGNED NULL,'' @
     ''cleared_at_simulation_ms BIGINT UNSIGNED NULL,'' @
     ''payload_json JSON NOT NULL,'' @
     ''created_at TIMESTAMP(6) NOT NULL DEFAULT CURRENT_TIMESTAMP(6),'' @
     ''updated_at TIMESTAMP(6) NOT NULL DEFAULT CURRENT_TIMESTAMP(6) '' @
     ''ON UPDATE CURRENT_TIMESTAMP(6),'' @
     ''PRIMARY KEY (command_id),'' @
     ''UNIQUE KEY uk_dispatch_command_sequence (command_sequence),'' @
     ''KEY idx_dispatch_command_train_status (train_id,status),'' @
     ''KEY idx_dispatch_command_resource_status '' @
     ''(corridor_resource_id,status)'' @
     '') ENGINE=InnoDB DEFAULT CHARSET=utf8mb4'',
     ''CREATE TABLE IF NOT EXISTS dispatch_command_events ('' @
     ''id BIGINT UNSIGNED NOT NULL AUTO_INCREMENT,'' @
     ''event_key VARCHAR(255) NOT NULL,'' @
     ''command_id VARCHAR(128) NOT NULL,'' @
     ''event_type VARCHAR(32) NOT NULL,'' @
     ''simulation_time_ms BIGINT UNSIGNED NOT NULL,'' @
     ''received_at_wall_ms BIGINT UNSIGNED NOT NULL,'' @
     ''payload_json JSON NOT NULL,'' @
     ''created_at TIMESTAMP(6) NOT NULL DEFAULT CURRENT_TIMESTAMP(6),'' @
     ''PRIMARY KEY (id),'' @
     ''UNIQUE KEY uk_dispatch_event_key (event_key),'' @
     ''KEY idx_dispatch_event_command (command_id,id),'' @
     ''CONSTRAINT fk_dispatch_event_command FOREIGN KEY (command_id) '' @
     ''REFERENCES dispatch_commands(command_id)'' @
     '') ENGINE=InnoDB DEFAULT CHARSET=utf8mb4''
]"

fun run_schema :: "'db mysql \<Rightarrow> 'db persistence \<Rightarrow> string list \<Rightarrow> unit answer \<times> 'db persistence" where
  "run_schema M p [] = (Ok (), p)"
| "run_schema M p (sql # rest) = (case execute M p sql of
      (None, p1) \<Rightarrow> run_schema M p1 rest | (Some e, p1) \<Rightarrow> (Failed e, p1))"

definition createSchema :: "'db mysql \<Rightarrow> 'db persistence \<Rightarrow> unit answer \<times> 'db persistence" where
  "createSchema M p = (if \<not> my_connect M (dp_db p) then (Failed ''no MySQL connection available'', p)
     else run_schema M p schema_statements)"

text \<open>\<open>pool_ready\<close>: the pointer is not null and the pool is initialised. When neither database can be
  used the method returns false without an error text.\<close>

definition initialize ::
    "'db mysql \<Rightarrow> redis \<Rightarrow> 'db persistence \<Rightarrow> bool \<Rightarrow> bool \<Rightarrow> dispatch_persistence_config \<Rightarrow>
     unit answer \<times> 'db persistence" where
  "initialize M R p pool_ready redis_set config =
     (if pg_realtime_ttl_ms config \<le> 0 \<or> pg_rolling_plan_ttl_ms config \<le> 0 \<or>
         pg_command_ttl_ms config \<le> 0 \<or> pg_stream_max_len config = 0
      then (Failed ''dispatch persistence configuration is invalid'', p)
      else
        let p1 = p\<lparr>dp_pool := pool_ready, dp_redis := redis_set, dp_config := config, dp_mysql_enabled := False\<rparr>;
            (schema, p2) = (if dp_pool p1 \<and> pg_auto_migrate config then createSchema M p1 else (Ok (), p1))
        in case schema of
             Failed e \<Rightarrow> (Failed e, mysql_error p2) | Raised e \<Rightarrow> (Raised e, p2)
           | Ok _ \<Rightarrow> let p3 = p2\<lparr>dp_mysql_enabled := dp_pool p2\<rparr> in
               (if dp_mysql_enabled p3 \<or> (dp_redis p3 \<and> rd_enabled R) then Ok () else Failed [], p3))"

subsection \<open>Recovery\<close>

definition empty_recovery :: dispatch_recovery_state where
  "empty_recovery = \<lparr>rs_topology_revision = 0, rs_next_command_sequence = 1, rs_routes = [],
     rs_pending_commands = [], rs_active_commands = []\<rparr>"

definition column :: "string option list \<Rightarrow> nat \<Rightarrow> string option" where
  "column row i = (if i < length row then row ! i else None)"

definition text_or :: "string option \<Rightarrow> string \<Rightarrow> string" where
  "text_or c dflt = (case c of None \<Rightarrow> dflt | Some s \<Rightarrow> s)"

definition stoull_res :: "string \<Rightarrow> u64 res" where
  "stoull_res s = (case stoull s of None \<Rightarrow> Inl ''stoull'' | Some n \<Rightarrow> Inr n)"

definition read_topology :: "'j json_lib \<Rightarrow> string option list list \<Rightarrow> dispatch_recovery_state \<Rightarrow> dispatch_recovery_state res" where
  "read_topology L rows st = (case rows of [] \<Rightarrow> Inr st | row # _ \<Rightarrow>
     res_bind (case column row 0 of None \<Rightarrow> Inr 0 | Some s \<Rightarrow> stoull_res s) (\<lambda>revision.
     res_bind (jl_parse L (text_or (column row 1) ''{}'')) (\<lambda>payload.
     res_bind (j_value L (\<lambda>v. Inr (jl_elements L v)) payload ''routes'' []) (\<lambda>items.
     res_bind (map_res (routeFromJson L) items) (\<lambda>routes.
     Inr (st\<lparr>rs_topology_revision := revision, rs_routes := rs_routes st @ routes\<rparr>))))))"

fun read_commands :: "'j json_lib \<Rightarrow> string option list list \<Rightarrow> dispatch_recovery_state \<Rightarrow> dispatch_recovery_state res" where
  "read_commands L [] st = Inr st"
| "read_commands L (row # rows) st =
     res_bind (jl_parse L (text_or (column row 1) ''{}'')) (\<lambda>payload.
     res_bind (decisionFromJson L payload) (\<lambda>decision.
     read_commands L rows (if text_or (column row 0) [] = ''PENDING''
       then st\<lparr>rs_pending_commands := rs_pending_commands st @ [decision]\<rparr>
       else st\<lparr>rs_active_commands := rs_active_commands st @ [decision]\<rparr>)))"

definition read_sequence :: "string option list list \<Rightarrow> dispatch_recovery_state \<Rightarrow> dispatch_recovery_state res" where
  "read_sequence rows st = (case rows of [] \<Rightarrow> Inr st | row # _ \<Rightarrow>
     (case column row 0 of None \<Rightarrow> Inr st
      | Some s \<Rightarrow> res_bind (stoull_res s) (\<lambda>n. Inr (st\<lparr>rs_next_command_sequence := n + 1\<rparr>))))"

text \<open>One query of the recovery and the reading of its rows. \<open>catch\<close> turns an exception into an error.\<close>

definition recover_query ::
    "'db mysql \<Rightarrow> 'db persistence \<Rightarrow> string \<Rightarrow> (string option list list \<Rightarrow> dispatch_recovery_state \<Rightarrow> dispatch_recovery_state res) \<Rightarrow>
     dispatch_recovery_state \<Rightarrow> dispatch_recovery_state answer \<times> 'db persistence" where
  "recover_query M p sql reader st = (case execute M p sql of
       (Some e, p1) \<Rightarrow> (Failed e, mysql_error p1)
     | (None, p1) \<Rightarrow> (case my_rows M (dp_db p1) of
           None \<Rightarrow> (Failed (my_error M (dp_db p1)), mysql_error p1)
         | Some rows \<Rightarrow> (case reader rows st of
               Inl what \<Rightarrow> (Failed (''invalid recovery data: '' @ what), mysql_error p1)
             | Inr st1 \<Rightarrow> (Ok st1, p1))))"

definition topology_query :: string where
  "topology_query = ''SELECT revision,payload_json FROM dispatch_topology_snapshots '' @
     ''ORDER BY revision DESC LIMIT 1''"

definition commands_query :: string where
  "commands_query = ''SELECT status,payload_json FROM dispatch_commands '' @
     ''WHERE status IN ('' @ sq @ ''PENDING'' @ sq @ '','' @ sq @ ''ACCEPTED'' @ sq @ '') '' @
     ''ORDER BY command_sequence''"

definition sequence_query :: string where
  "sequence_query = ''SELECT COALESCE(MAX(command_sequence),0) FROM dispatch_commands''"

definition then_query where
  "then_query r f = (case r of (Ok st, p) \<Rightarrow> f st p | (Failed e, p) \<Rightarrow> (Failed e, p) | (Raised e, p) \<Rightarrow> (Raised e, p))"

definition loadRecoveryState ::
    "'j json_lib \<Rightarrow> 'db mysql \<Rightarrow> 'db persistence \<Rightarrow> dispatch_recovery_state answer \<times> 'db persistence" where
  "loadRecoveryState L M p =
     (if \<not> dp_mysql_enabled p then (Ok empty_recovery, p)
      else if \<not> my_connect M (dp_db p) then (Failed ''no MySQL connection available'', mysql_error p)
      else then_query (recover_query M p topology_query (read_topology L) empty_recovery) (\<lambda>st1 p1.
           then_query (if pg_command_recovery_enabled (dp_config p1)
             then recover_query M p1 commands_query (read_commands L) st1 else (Ok st1, p1)) (\<lambda>st2 p2.
           then_query (recover_query M p2 sequence_query read_sequence st2) (\<lambda>st3 p3.
           (Ok st3, p3\<lparr>dp_recovered_pending := of_nat (length (rs_pending_commands st3)),
                        dp_recovered_active := of_nat (length (rs_active_commands st3))\<rparr>)))))"

subsection \<open>Topology\<close>

definition with_payload :: "string res \<Rightarrow> (string \<Rightarrow> unit answer \<times> 'db persistence) \<Rightarrow> 'db persistence \<Rightarrow> unit answer \<times> 'db persistence" where
  "with_payload r f p = (case r of Inl e \<Rightarrow> (Raised e, p) | Inr payload \<Rightarrow> f payload)"

definition topology_payload :: "'j json_lib \<Rightarrow> line_topology_snapshot \<Rightarrow> string res" where
  "topology_payload L s = jl_dump L (jl_object L
     [(''revision'', jl_u64 L (ts_revision s)), (''algorithm_version'', jl_u64 L (ts_algorithm_version s)),
      (''algorithm_fingerprint'', jl_string L (ts_algorithm_fingerprint s)),
      (''routes'', jl_array L (map (persist_routeToJson L) (ts_routes s)))])"

definition topology_statement :: "'db mysql \<Rightarrow> line_topology_snapshot \<Rightarrow> u64 \<Rightarrow> string \<Rightarrow> string" where
  "topology_statement M s wall payload =
     ''INSERT INTO dispatch_topology_snapshots '' @
     ''(revision,received_at_wall_ms,route_count,corridor_count,'' @
     ''intersection_count,payload_json) VALUES ('' @
     string_of_u64 (ts_revision s) @ '','' @ string_of_u64 wall @ '','' @
     nat_digits (length (ts_routes s)) @ '','' @
     nat_digits (length (la_shared_corridors (ts_analysis s))) @ '','' @
     nat_digits (length (la_intersections (ts_analysis s))) @ '' ,'' @
     quoted M payload @ '') ON DUPLICATE KEY UPDATE '' @
     ''received_at_wall_ms=VALUES(received_at_wall_ms),'' @
     ''route_count=VALUES(route_count),'' @
     ''corridor_count=VALUES(corridor_count),'' @
     ''intersection_count=VALUES(intersection_count),'' @
     ''payload_json=VALUES(payload_json)''"

definition topology_ops :: "'db persistence \<Rightarrow> line_topology_snapshot \<Rightarrow> string \<Rightarrow> redis_op res list" where
  "topology_ops p s payload =
     [Inr (RSet ''realtime:topology'' payload (pg_command_ttl_ms (dp_config p))),
      Inr (RSetPersistent ''realtime:topology_revision'' (string_of_u64 (ts_revision s))),
      Inr (RAppend ''stream:topology'' ''topology.replaced'' (string_of_u64 (ts_revision s)) payload
             (pg_stream_max_len (dp_config p)))]"

definition persistTopology ::
    "'j json_lib \<Rightarrow> 'db mysql \<Rightarrow> redis \<Rightarrow> 'db persistence \<Rightarrow> line_topology_snapshot \<Rightarrow> u64 \<Rightarrow>
     unit answer \<times> 'db persistence" where
  "persistTopology L M R p s wall = with_payload (topology_payload L s) (\<lambda>payload.
     let db = (if \<not> dp_mysql_enabled p then (Ok (), p)
       else if \<not> my_connect M (dp_db p) then no_connection p
       else case execute M p (topology_statement M s wall payload) of
            (None, p1) \<Rightarrow> (Ok (), mysql_wrote p1) | (Some e, p1) \<Rightarrow> (Failed e, mysql_error p1))
     in then_redis R db (topology_ops p s payload)) p"

subsection \<open>A dispatch cycle\<close>

definition train_payload :: "'j json_lib \<Rightarrow> monitored_train list \<Rightarrow> u64 \<Rightarrow> u64 \<Rightarrow> string res" where
  "train_payload L trains now wall = jl_dump L (jl_object L
     [(''simulation_time_ms'', jl_u64 L now), (''received_at_wall_ms'', jl_u64 L wall),
      (''trains'', jl_array L (map (persist_trainToJson L) trains))])"

definition train_row :: "'db mysql \<Rightarrow> monitored_train \<Rightarrow> string" where
  "train_row M m = (let t = mt_telemetry m in
     ''('' @ quoted M (tt_train_id t) @ '','' @ quoted M (tt_line_id t) @ '','' @
     fmt_general 17 (tt_x t) @ '','' @ fmt_general 17 (tt_y t) @ '','' @ fmt_general 17 (tt_z t) @ '','' @
     fmt_general 17 (tt_speed t) @ '','' @ string_of_u64 (tt_route_index t) @ '','' @
     sq @ travelDirectionName (tt_travel_direction t) @ sq @ '','' @
     string_of_u64 (tt_simulation_time_ms t) @ '','' @
     string_of_u64 (tt_received_at_wall_ms t) @ '','' @
     sq @ phaseName (mt_phase m) @ sq @ '','' @
     quoted M (mt_controlled_resource_id m) @ '',1)'')"

fun with_commas :: "string list \<Rightarrow> string" where
  "with_commas [] = []"
| "with_commas [s] = s"
| "with_commas (s # ss) = s @ '','' @ with_commas ss"

definition trains_statement :: "'db mysql \<Rightarrow> monitored_train list \<Rightarrow> string" where
  "trains_statement M trains =
     ''INSERT INTO dispatch_train_state '' @
     ''(train_id,line_id,x,y,z,speed,route_index,travel_direction,'' @
     ''simulation_time_ms,received_at_wall_ms,phase,'' @
     ''controlled_resource_id,is_active) VALUES '' @
     with_commas (map (train_row M) trains) @
     '' ON DUPLICATE KEY UPDATE '' @
     ''line_id=VALUES(line_id),x=VALUES(x),y=VALUES(y),z=VALUES(z),'' @
     ''speed=VALUES(speed),route_index=VALUES(route_index),'' @
     ''travel_direction=VALUES(travel_direction),'' @
     ''simulation_time_ms=VALUES(simulation_time_ms),'' @
     ''received_at_wall_ms=VALUES(received_at_wall_ms),'' @
     ''phase=VALUES(phase),'' @
     ''controlled_resource_id=VALUES(controlled_resource_id),'' @
     ''is_active=1''"

definition telemetry_statement :: "'db mysql \<Rightarrow> monitored_train list \<Rightarrow> u64 \<Rightarrow> u64 \<Rightarrow> string \<Rightarrow> string" where
  "telemetry_statement M trains now wall payload =
     ''INSERT INTO dispatch_telemetry_batches '' @
     ''(simulation_time_ms,received_at_wall_ms,train_count,'' @
     ''payload_json) VALUES ('' @ string_of_u64 now @ '','' @ string_of_u64 wall @ '','' @
     nat_digits (length trains) @ '','' @ quoted M payload @ '')''"

definition plan_statement :: "'db mysql \<Rightarrow> rolling_plan_result \<Rightarrow> u64 \<Rightarrow> u64 \<Rightarrow> u64 \<Rightarrow> string \<Rightarrow> string" where
  "plan_statement M rp revision now wall payload =
     ''INSERT INTO dispatch_rolling_plans '' @
     ''(topology_revision,generated_at_simulation_ms,'' @
     ''generated_at_wall_ms,resource_count,payload_json) VALUES ('' @
     string_of_u64 revision @ '','' @ string_of_u64 now @ '','' @ string_of_u64 wall @ '','' @
     nat_digits (length (rp_plans_by_resource rp)) @ '','' @ quoted M payload @ '')''"

definition command_statement :: "'db mysql \<Rightarrow> dispatch_decision \<Rightarrow> u64 \<Rightarrow> string \<Rightarrow> string" where
  "command_statement M d wall payload =
     ''INSERT INTO dispatch_commands '' @
     ''(command_id,command_sequence,train_id,corridor_resource_id,'' @
     ''action,status,topology_revision,issued_at_simulation_ms,'' @
     ''issued_at_wall_ms,payload_json) VALUES ('' @
     quoted M (dd_command_id d) @ '','' @ string_of_u64 (commandSequence (dd_command_id d)) @ '','' @
     quoted M (dd_train_id d) @ '','' @ quoted M (dd_corridor_resource_id d) @ '','' @
     sq @ actionName (dd_action d) @ sq @ '','' @ sq @ ''PENDING'' @ sq @ '','' @
     string_of_u64 (dd_topology_revision d) @ '','' @
     string_of_u64 (dd_issued_at_simulation_ms d) @ '','' @ string_of_u64 wall @ '','' @
     quoted M payload @ '') ON DUPLICATE KEY UPDATE '' @
     ''payload_json=VALUES(payload_json),updated_at=CURRENT_TIMESTAMP(6)''"

definition cycle_statements ::
    "'j json_lib \<Rightarrow> 'db mysql \<Rightarrow> 'db persistence \<Rightarrow> monitored_train list \<Rightarrow> rolling_plan_result \<Rightarrow>
     dispatch_decision list \<Rightarrow> u64 \<Rightarrow> u64 \<Rightarrow> u64 \<Rightarrow> string \<Rightarrow> string \<Rightarrow> string res list" where
  "cycle_statements L M p trains rp issued revision now wall trains_text plan_text =
     [Inr ''UPDATE dispatch_train_state SET is_active=0''] @
     (if trains \<noteq> [] then [Inr (trains_statement M trains)] else []) @
     (if pg_telemetry_history_enabled (dp_config p)
      then [Inr (telemetry_statement M trains now wall trains_text)] else []) @
     [Inr (plan_statement M rp revision now wall plan_text)] @
     map (\<lambda>d. res_bind (jl_dump L (persist_decisionToJson L d)) (\<lambda>payload.
       Inr (command_statement M d wall payload))) issued"

definition cycle_ops ::
    "'j json_lib \<Rightarrow> 'db persistence \<Rightarrow> monitored_train list \<Rightarrow> rolling_plan_result \<Rightarrow>
     dispatch_decision list \<Rightarrow> u64 \<Rightarrow> string \<Rightarrow> string \<Rightarrow> redis_op res list" where
  "cycle_ops L p trains rp issued now trains_text plan_text = (let c = dp_config p in
     [Inr (RSet ''realtime:trains'' trains_text (pg_realtime_ttl_ms c))] @
     map (\<lambda>m. res_bind (jl_dump L (persist_trainToJson L m)) (\<lambda>text.
       Inr (RSet (''realtime:train:'' @ tt_train_id (mt_telemetry m)) text (pg_realtime_ttl_ms c)))) trains @
     [Inr (RSet ''realtime:rolling_plan'' plan_text (pg_rolling_plan_ttl_ms c)),
      Inr (RAppend ''stream:telemetry'' ''telemetry.batch'' (string_of_u64 now) trains_text (pg_stream_max_len c))] @
     map (\<lambda>(rid, plan). Inr (RSortedSet (''eta:'' @ rid)
       (map (\<lambda>t. (double_of_u64 (pa_planned_entry_simulation_ms t), pa_train_id t)) (cp_trains plan))
       (pg_rolling_plan_ttl_ms c))) (rp_plans_by_resource rp) @
     concat (map (\<lambda>d. case jl_dump L (persist_decisionToJson L d) of Inl e \<Rightarrow> [Inl e]
       | Inr payload \<Rightarrow> [Inr (RSet (''realtime:command:'' @ dd_command_id d) payload (pg_command_ttl_ms c)),
           Inr (RAppend ''stream:dispatch'' ''command.issued'' (dd_command_id d) payload (pg_stream_max_len c))]) issued))"

definition persistDispatchCycle ::
    "'j json_lib \<Rightarrow> 'db mysql \<Rightarrow> redis \<Rightarrow> 'db persistence \<Rightarrow> monitored_train list \<Rightarrow> rolling_plan_result \<Rightarrow>
     dispatch_decision list \<Rightarrow> u64 \<Rightarrow> u64 \<Rightarrow> u64 \<Rightarrow> unit answer \<times> 'db persistence" where
  "persistDispatchCycle L M R p trains rp issued revision now wall =
     with_payload (train_payload L trains now wall) (\<lambda>trains_text.
     with_payload (jl_dump L (rollingPlanToJson L rp)) (\<lambda>plan_text.
       let db = (if \<not> dp_mysql_enabled p then (Ok (), p)
         else if \<not> my_connect M (dp_db p) then no_connection p
         else case execute M p ''START TRANSACTION'' of
              (Some e, p1) \<Rightarrow> (Failed e, mysql_error p1)
            | (None, p1) \<Rightarrow> finish_transaction M (run_statements M p1
                (cycle_statements L M p1 trains rp issued revision now wall trains_text plan_text @ [Inr ''COMMIT''])))
       in then_redis R db (cycle_ops L p trains rp issued now trains_text plan_text)) p) p"

subsection \<open>Events\<close>

definition event_statement :: "'db mysql \<Rightarrow> string \<Rightarrow> string \<Rightarrow> string \<Rightarrow> u64 \<Rightarrow> u64 \<Rightarrow> string \<Rightarrow> string" where
  "event_statement M event_key command_id event_type now wall payload =
     ''INSERT INTO dispatch_command_events '' @
     ''(event_key,command_id,event_type,simulation_time_ms,'' @
     ''received_at_wall_ms,payload_json) VALUES ('' @
     quoted M event_key @ '','' @ quoted M command_id @ '','' @ sq @ event_type @ sq @ '','' @
     string_of_u64 now @ '','' @ string_of_u64 wall @ '','' @ quoted M payload @
     '') ON DUPLICATE KEY UPDATE event_key=VALUES(event_key)''"

definition run_transaction :: "'db mysql \<Rightarrow> 'db persistence \<Rightarrow> string list \<Rightarrow> unit answer \<times> 'db persistence" where
  "run_transaction M p stmts = (if \<not> dp_mysql_enabled p then (Ok (), p)
     else if \<not> my_connect M (dp_db p) then no_connection p
     else finish_transaction M (run_statements M p
       (map Inr ([''START TRANSACTION''] @ stmts @ [''COMMIT'']))))"

definition persistCommandAck ::
    "'j json_lib \<Rightarrow> 'db mysql \<Rightarrow> redis \<Rightarrow> 'db persistence \<Rightarrow> dispatch_decision \<Rightarrow> bool \<Rightarrow> u64 \<Rightarrow> u64 \<Rightarrow>
     unit answer \<times> 'db persistence" where
  "persistCommandAck L M R p d accepted now wall =
     (let status = (if accepted then ''ACCEPTED'' else ''REJECTED'');
          event_type = (if accepted then ''command.accepted'' else ''command.rejected'');
          event_key = ''ACK:'' @ dd_command_id d @ '':'' @ status
      in with_payload (jl_dump L (jl_object L
           [(''command_id'', jl_string L (dd_command_id d)), (''train_id'', jl_string L (dd_train_id d)),
            (''accepted'', jl_bool L accepted), (''simulation_time_ms'', jl_u64 L now)])) (\<lambda>payload.
         then_redis R (run_transaction M p
           [''UPDATE dispatch_commands SET status='' @ sq @ status @ sq @
              '',acknowledged_at_simulation_ms='' @ string_of_u64 now @
              '' WHERE command_id='' @ quoted M (dd_command_id d) @ '' AND status='' @ sq @ ''PENDING'' @ sq,
            event_statement M event_key (dd_command_id d) event_type now wall payload])
           [Inr (RSet (''realtime:command:'' @ dd_command_id d) payload (pg_command_ttl_ms (dp_config p))),
            Inr (RAppend ''stream:dispatch'' event_type (dd_command_id d) payload (pg_stream_max_len (dp_config p)))]) p)"

definition persistResourceCleared ::
    "'j json_lib \<Rightarrow> 'db mysql \<Rightarrow> redis \<Rightarrow> 'db persistence \<Rightarrow> dispatch_decision \<Rightarrow> string list \<Rightarrow> u64 \<Rightarrow> u64 \<Rightarrow>
     unit answer \<times> 'db persistence" where
  "persistResourceCleared L M R p d intersection_ids now wall =
     (let event_key = ''CLEARED:'' @ dd_command_id d
      in with_payload (jl_dump L (jl_object L
           [(''command_id'', jl_string L (dd_command_id d)), (''train_id'', jl_string L (dd_train_id d)),
            (''corridor_resource_id'', jl_string L (dd_corridor_resource_id d)),
            (''intersection_ids'', jl_array L (map (jl_string L) intersection_ids)),
            (''simulation_time_ms'', jl_u64 L now)])) (\<lambda>payload.
         then_redis R (run_transaction M p
           [''UPDATE dispatch_commands SET status='' @ sq @ ''CLEARED'' @ sq @ '','' @
              ''cleared_at_simulation_ms='' @ string_of_u64 now @
              '' WHERE command_id='' @ quoted M (dd_command_id d) @
              '' AND status IN ('' @ sq @ ''ACCEPTED'' @ sq @ '','' @ sq @ ''CLEARED'' @ sq @ '')'',
            event_statement M event_key (dd_command_id d) ''resource.cleared'' now wall payload])
           [Inr (RRemove (''realtime:command:'' @ dd_command_id d)),
            Inr (RAppend ''stream:dispatch'' ''resource.cleared'' (dd_command_id d) payload
                   (pg_stream_max_len (dp_config p)))]) p)"

definition markTrainStale ::
    "'j json_lib \<Rightarrow> 'db mysql \<Rightarrow> redis \<Rightarrow> 'db persistence \<Rightarrow> string \<Rightarrow> u64 \<Rightarrow> unit answer \<times> 'db persistence" where
  "markTrainStale L M R p train_id wall =
     (let p1 = (if \<not> dp_mysql_enabled p then p
         else if \<not> my_connect M (dp_db p) then mysql_error p
         else case execute M p (''UPDATE dispatch_train_state SET is_active=0 '' @
                ''WHERE train_id='' @ quoted M train_id) of
              (None, q) \<Rightarrow> mysql_wrote q | (Some _, q) \<Rightarrow> mysql_error q)
      in then_redis R (Ok (), p1) [Inr (RRemove (''realtime:train:'' @ train_id)),
         res_bind (jl_dump L (jl_object L [(''train_id'', jl_string L train_id),
             (''received_at_wall_ms'', jl_u64 L wall)])) (\<lambda>payload.
           Inr (RAppend ''stream:telemetry'' ''train.stale'' train_id payload (pg_stream_max_len (dp_config p))))])"

definition mysqlEnabled :: "'db persistence \<Rightarrow> bool" where
  "mysqlEnabled p = dp_mysql_enabled p"

definition redisEnabled :: "redis \<Rightarrow> 'db persistence \<Rightarrow> bool" where
  "redisEnabled R p \<longleftrightarrow> dp_redis p \<and> rd_enabled R"

definition persistence_stats :: "'db persistence \<Rightarrow> dispatch_persistence_stats" where
  "persistence_stats p = \<lparr>ps_mysql_writes = dp_mysql_writes p, ps_mysql_errors = dp_mysql_errors p,
     ps_redis_writes = dp_redis_writes p, ps_redis_errors = dp_redis_errors p,
     ps_recovered_pending_commands = dp_recovered_pending p,
     ps_recovered_active_commands = dp_recovered_active p,
     ps_command_recovery_enabled = pg_command_recovery_enabled (dp_config p)\<rparr>"

definition persistence_shutdown :: "'db persistence \<Rightarrow> 'db persistence" where
  "persistence_shutdown p = p\<lparr>dp_mysql_enabled := False, dp_pool := False, dp_redis := False\<rparr>"

subsection \<open>Transactions\<close>

text \<open>
  What MySQL documents for InnoDB tables, for the session of one connection. \<open>committed db\<close> is what the
  tables hold for everybody, \<open>work db\<close> what the open transaction sees (\<open>None\<close>: there is none), \<open>E sql\<close>
  the effect of a statement on the tables. A statement that succeeds has its effect, in the transaction or,
  without one, at once. A statement that fails has no effect; it may end the transaction as well (a
  deadlock, a lost connection). \<open>COMMIT\<close> makes the work visible; when it answers with an error the
  outcome is unknown, all or nothing. \<open>ROLLBACK\<close> makes nothing visible.
\<close>

definition is_dml :: "string \<Rightarrow> bool" where
  "is_dml sql \<longleftrightarrow> prefix ''INSERT INTO '' sql \<or> prefix ''UPDATE '' sql \<or> prefix ''DELETE FROM '' sql \<or>
     prefix ''REPLACE INTO '' sql"

definition mysql_tx ::
    "'db mysql \<Rightarrow> ('db \<Rightarrow> 'c) \<Rightarrow> ('db \<Rightarrow> 'c option) \<Rightarrow> (string \<Rightarrow> 'c \<Rightarrow> 'c \<Rightarrow> bool) \<Rightarrow> bool" where
  "mysql_tx M committed work E \<longleftrightarrow>
     (\<forall>db e db'. work db = None \<longrightarrow> my_query M db ''START TRANSACTION'' = (e, db') \<longrightarrow>
        committed db' = committed db \<and> work db' = (if e = None then Some (committed db) else None)) \<and>
     (\<forall>db v sql db'. work db = Some v \<longrightarrow> is_dml sql \<longrightarrow> my_query M db sql = (None, db') \<longrightarrow>
        committed db' = committed db \<and> (\<exists>v'. work db' = Some v' \<and> E sql v v')) \<and>
     (\<forall>db v sql e db'. work db = Some v \<longrightarrow> is_dml sql \<longrightarrow> my_query M db sql = (Some e, db') \<longrightarrow>
        committed db' = committed db \<and> (work db' = Some v \<or> work db' = None)) \<and>
     (\<forall>db sql e db'. work db = None \<longrightarrow> is_dml sql \<longrightarrow> my_query M db sql = (e, db') \<longrightarrow> work db' = None \<and>
        (if e = None then E sql (committed db) (committed db') else committed db' = committed db)) \<and>
     (\<forall>db v db'. work db = Some v \<longrightarrow> my_query M db ''COMMIT'' = (None, db') \<longrightarrow>
        committed db' = v \<and> work db' = None) \<and>
     (\<forall>db v e db'. work db = Some v \<longrightarrow> my_query M db ''COMMIT'' = (Some e, db') \<longrightarrow>
        committed db' = committed db \<or> committed db' = v) \<and>
     (\<forall>db e db'. my_query M db ''ROLLBACK'' = (e, db') \<longrightarrow> committed db' = committed db)"

lemma mysql_txD:
  assumes "mysql_tx M committed work E"
  shows "work db = None \<Longrightarrow> my_query M db ''START TRANSACTION'' = (e, db') \<Longrightarrow>
      committed db' = committed db \<and> work db' = (if e = None then Some (committed db) else None)"
    and "work db = Some v \<Longrightarrow> is_dml sql \<Longrightarrow> my_query M db sql = (None, db') \<Longrightarrow>
      committed db' = committed db \<and> (\<exists>v'. work db' = Some v' \<and> E sql v v')"
    and "work db = Some v \<Longrightarrow> is_dml sql \<Longrightarrow> my_query M db sql = (Some err, db') \<Longrightarrow> committed db' = committed db"
    and "work db = None \<Longrightarrow> is_dml sql \<Longrightarrow> my_query M db sql = (e, db') \<Longrightarrow> work db' = None \<and>
      (if e = None then E sql (committed db) (committed db') else committed db' = committed db)"
    and "work db = Some v \<Longrightarrow> my_query M db ''COMMIT'' = (None, db') \<Longrightarrow> committed db' = v \<and> work db' = None"
    and "work db = Some v \<Longrightarrow> my_query M db ''COMMIT'' = (Some err, db') \<Longrightarrow>
      committed db' = committed db \<or> committed db' = v"
    and "committed (snd (my_query M db ''ROLLBACK'')) = committed db"
proof -
  note d = assms [unfolded mysql_tx_def]
  show "work db = None \<Longrightarrow> my_query M db ''START TRANSACTION'' = (e, db') \<Longrightarrow>
      committed db' = committed db \<and> work db' = (if e = None then Some (committed db) else None)"
    by (rule d [THEN conjunct1, rule_format])
  show "work db = Some v \<Longrightarrow> is_dml sql \<Longrightarrow> my_query M db sql = (None, db') \<Longrightarrow>
      committed db' = committed db \<and> (\<exists>v'. work db' = Some v' \<and> E sql v v')"
    by (rule d [THEN conjunct2, THEN conjunct1, rule_format])
  show "work db = Some v \<Longrightarrow> is_dml sql \<Longrightarrow> my_query M db sql = (Some err, db') \<Longrightarrow> committed db' = committed db"
    by (rule d [THEN conjunct2, THEN conjunct2, THEN conjunct1, rule_format, THEN conjunct1])
  show "work db = None \<Longrightarrow> is_dml sql \<Longrightarrow> my_query M db sql = (e, db') \<Longrightarrow> work db' = None \<and>
      (if e = None then E sql (committed db) (committed db') else committed db' = committed db)"
    by (rule d [THEN conjunct2, THEN conjunct2, THEN conjunct2, THEN conjunct1, rule_format])
  note d' = d [THEN conjunct2, THEN conjunct2, THEN conjunct2, THEN conjunct2]
  show "work db = Some v \<Longrightarrow> my_query M db ''COMMIT'' = (None, db') \<Longrightarrow> committed db' = v \<and> work db' = None"
    by (rule d' [THEN conjunct1, rule_format])
  show "work db = Some v \<Longrightarrow> my_query M db ''COMMIT'' = (Some err, db') \<Longrightarrow>
      committed db' = committed db \<or> committed db' = v"
    by (rule d' [THEN conjunct2, THEN conjunct1, rule_format])
  show "committed (snd (my_query M db ''ROLLBACK'')) = committed db"
    by (rule d' [THEN conjunct2, THEN conjunct2, rule_format, OF prod.collapse [symmetric]])
qed

text \<open>The effect of statements one after the other.\<close>

fun effects :: "(string \<Rightarrow> 'c \<Rightarrow> 'c \<Rightarrow> bool) \<Rightarrow> string list \<Rightarrow> 'c \<Rightarrow> 'c \<Rightarrow> bool" where
  "effects E [] v v' \<longleftrightarrow> v' = v"
| "effects E (sql # stmts) v v' \<longleftrightarrow> (\<exists>u. E sql v u \<and> effects E stmts u v')"

definition dml_list :: "string res list \<Rightarrow> bool" where
  "dml_list stmts \<longleftrightarrow> (\<forall>sql. Inr sql \<in> set stmts \<longrightarrow> is_dml sql)"

lemma dml_list_simps [simp]:
  "dml_list []" "dml_list (Inr sql # ss) \<longleftrightarrow> is_dml sql \<and> dml_list ss" "dml_list (Inl e # ss) \<longleftrightarrow> dml_list ss"
  "dml_list (ss @ ts) \<longleftrightarrow> dml_list ss \<and> dml_list ts"
  by (auto simp: dml_list_def)

lemma dml_list_map: "(\<And>x. case f x of Inl e \<Rightarrow> True | Inr sql \<Rightarrow> is_dml sql) \<Longrightarrow> dml_list (map f xs)"
  by (auto simp: dml_list_def) (metis sum.case(2))

text \<open>What the bookkeeping of the model leaves alone.\<close>

lemma execute_frame:
  "execute M p sql = (e, p1) \<Longrightarrow> dp_redis_log p1 = dp_redis_log p \<and> dp_config p1 = dp_config p \<and>
     dp_redis p1 = dp_redis p \<and> my_query M (dp_db p) sql = (e, dp_db p1)"
  by (auto simp: execute_def split: prod.splits)

text \<open>What a transaction has done when its statements and the commit have been answered.\<close>

lemma run_statements_outcome:
  assumes tx: "mysql_tx M committed work E"
    and "run_statements M p (stmts @ [Inr ''COMMIT'']) = (r, p1)" and "dml_list stmts" and "work (dp_db p) = Some v"
  shows "dp_redis_log p1 = dp_redis_log p \<and>
    (r = Ok () \<longrightarrow> (\<exists>sqls. stmts = map Inr sqls \<and> effects E sqls v (committed (dp_db p1))) \<and> work (dp_db p1) = None) \<and>
    (\<forall>e. r = Failed e \<longrightarrow> committed (dp_db p1) = committed (dp_db p) \<or>
       (\<exists>sqls db db'. stmts = map Inr sqls \<and> effects E sqls v (committed (dp_db p1)) \<and>
          my_query M db ''COMMIT'' = (Some e, db'))) \<and>
    (\<forall>e. r = Raised e \<longrightarrow> committed (dp_db p1) = committed (dp_db p))"
  using assms(2-)
proof (induction stmts arbitrary: p v)
  case Nil
  obtain e p2 where ex: "execute M p ''COMMIT'' = (e, p2)" by (cases "execute M p ''COMMIT''")
  note fr = execute_frame [OF ex]
  show ?case
  proof (cases e)
    case None
    then show ?thesis using Nil ex fr mysql_txD(5) [OF tx Nil(3), of "dp_db p2"] by auto
  next
    case (Some err)
    then show ?thesis using Nil ex fr mysql_txD(6) [OF tx Nil(3), of err "dp_db p2"] by auto
  qed
next
  case (Cons s stmts)
  show ?case
  proof (cases s)
    case (Inl e)
    then show ?thesis using Cons.prems by auto
  next
    case (Inr sql)
    obtain e p2 where ex: "execute M p sql = (e, p2)" by (cases "execute M p sql")
    note fr = execute_frame [OF ex]
    have dml: "is_dml sql" "dml_list stmts" using Cons.prems(2) Inr by simp_all
    show ?thesis
    proof (cases e)
      case None
      then obtain u where u: "committed (dp_db p2) = committed (dp_db p)" "work (dp_db p2) = Some u" "E sql v u"
        using mysql_txD(2) [OF tx Cons.prems(3) dml(1), of "dp_db p2"] fr by auto
      have run: "run_statements M p2 (stmts @ [Inr ''COMMIT'']) = (r, p1)" using Cons.prems(1) Inr ex None by simp
      have more: "s # stmts = map Inr (sql # sqls) \<and> effects E (sql # sqls) v w"
        if "stmts = map Inr sqls" "effects E sqls u w" for sqls w using that u(3) Inr by auto
      show ?thesis using Cons.IH [OF run dml(2) u(2)] more u(1) fr by (metis (no_types, lifting))
    next
      case (Some err)
      then show ?thesis using Cons.prems ex Inr fr mysql_txD(3) [OF tx Cons.prems(3) dml(1), of err "dp_db p2"] by auto
    qed
  qed
qed

lemma finish_transaction_outcome:
  assumes tx: "mysql_tx M committed work E" and "finish_transaction M (r, p) = (r1, p1)"
  shows "r1 = r \<and> committed (dp_db p1) = committed (dp_db p) \<and> dp_redis_log p1 = dp_redis_log p \<and>
    (r = Ok () \<longrightarrow> dp_db p1 = dp_db p)"
  using assms(2) mysql_txD(7) [OF tx, of "dp_db p"]
  by (cases r) (auto simp: finish_transaction_def mysql_error_def mysql_wrote_def rollback_def execute_def split: prod.splits)

lemma is_dml_INSERT [simp]: "is_dml (''INSERT INTO '' @ s)" and is_dml_UPDATE [simp]: "is_dml (''UPDATE '' @ s)"
  by (simp_all add: is_dml_def)

lemma statements_are_dml:
  "is_dml (trains_statement M trains)" "is_dml (telemetry_statement M trains now wall payload)"
  "is_dml (plan_statement M rp revision now wall payload)" "is_dml (command_statement M d wall payload)"
  "is_dml ''UPDATE dispatch_train_state SET is_active=0''"
  by (simp_all add: is_dml_def trains_statement_def telemetry_statement_def plan_statement_def command_statement_def)

lemma cycle_statements_dml:
  "dml_list (cycle_statements L M p trains rp issued revision now wall trains_text plan_text)"
proof -
  have "dml_list (map (\<lambda>d. res_bind (jl_dump L (persist_decisionToJson L d)) (\<lambda>payload.
      Inr (command_statement M d wall payload))) issued)"
    by (rule dml_list_map) (simp add: res_bind_def statements_are_dml split: sum.split)
  then show ?thesis
    unfolding cycle_statements_def by (simp add: statements_are_dml)
qed

lemma run_redis_db: "run_redis R p ops = (r, p1) \<Longrightarrow> dp_db p1 = dp_db p \<and> (\<forall>e. r \<noteq> Failed e)"
proof (induction R p ops rule: run_redis.induct)
  case (3 R p op rest)
  then show ?case by (auto simp: send_redis_def countRedis_def split: if_splits)
qed auto

lemma then_redis_db:
  assumes "then_redis R (r, p) ops = (r1, p1)"
  shows "dp_db p1 = dp_db p \<and> (\<forall>e. r1 = Failed e \<longleftrightarrow> r = Failed e) \<and> (r1 = Ok () \<longrightarrow> r = Ok ()) \<and>
    (\<forall>e. r1 = Failed e \<longrightarrow> dp_redis_log p1 = dp_redis_log p) \<and> (r \<noteq> Ok () \<longrightarrow> r1 = r)"
  using assms run_redis_db [of R p ops] by (cases r) (auto simp: then_redis_def split: if_splits)

text \<open>
  What a stored cycle is: the tables have gone through the effects of all its statements, in order: every
  train is marked inactive, the trains that have reported are written, the batch is recorded, the plan is
  recorded, and every issued command is inserted.
\<close>

definition cycle_stored ::
    "'j json_lib \<Rightarrow> 'db mysql \<Rightarrow> (string \<Rightarrow> 'c \<Rightarrow> 'c \<Rightarrow> bool) \<Rightarrow> 'db persistence \<Rightarrow> monitored_train list \<Rightarrow>
     rolling_plan_result \<Rightarrow> dispatch_decision list \<Rightarrow> u64 \<Rightarrow> u64 \<Rightarrow> u64 \<Rightarrow> 'c \<Rightarrow> 'c \<Rightarrow> bool" where
  "cycle_stored L M E p trains rp issued revision now wall c c' \<longleftrightarrow>
     (\<exists>trains_text plan_text commands. train_payload L trains now wall = Inr trains_text \<and>
        jl_dump L (rollingPlanToJson L rp) = Inr plan_text \<and>
        list_all2 (\<lambda>d sql. \<exists>payload. jl_dump L (persist_decisionToJson L d) = Inr payload \<and>
          sql = command_statement M d wall payload) issued commands \<and>
        effects E ([''UPDATE dispatch_train_state SET is_active=0''] @
          (if trains = [] then [] else [trains_statement M trains]) @
          (if pg_telemetry_history_enabled (dp_config p)
           then [telemetry_statement M trains now wall trains_text] else []) @
          [plan_statement M rp revision now wall plan_text] @ commands) c c')"

lemma cycle_statements_all:
  assumes "cycle_statements L M q trains rp issued revision now wall trains_text plan_text = map Inr sqls"
  shows "\<exists>commands. list_all2 (\<lambda>d sql. \<exists>payload. jl_dump L (persist_decisionToJson L d) = Inr payload \<and>
      sql = command_statement M d wall payload) issued commands \<and>
    sqls = [''UPDATE dispatch_train_state SET is_active=0''] @ (if trains = [] then [] else [trains_statement M trains]) @
      (if pg_telemetry_history_enabled (dp_config q) then [telemetry_statement M trains now wall trains_text] else []) @
      [plan_statement M rp revision now wall plan_text] @ commands"
proof -
  have "list_all2 (\<lambda>d sql. \<exists>payload. jl_dump L (persist_decisionToJson L d) = Inr payload \<and>
      sql = command_statement M d wall payload) ds cs"
    if "map (\<lambda>d. res_bind (jl_dump L (persist_decisionToJson L d)) (\<lambda>payload.
      Inr (command_statement M d wall payload))) ds = map Inr cs" for ds cs
    using that by (induction ds arbitrary: cs) (auto simp: res_bind_def Cons_eq_map_conv split: sum.splits)
  then show ?thesis using assms
    by (auto simp: cycle_statements_def append_eq_map_conv Cons_eq_map_conv split: if_splits)
qed

lemma cycle_outcome:
  assumes tx: "mysql_tx M committed work E" and idle: "work (dp_db p) = None"
    and res: "persistDispatchCycle L M R p trains rp issued revision now wall = (r, p1)"
  shows "(r = Ok () \<longrightarrow> (if dp_mysql_enabled p
       then cycle_stored L M E p trains rp issued revision now wall (committed (dp_db p)) (committed (dp_db p1))
       else committed (dp_db p1) = committed (dp_db p))) \<and>
    (\<forall>e. r = Failed e \<longrightarrow> dp_redis_log p1 = dp_redis_log p \<and>
       (committed (dp_db p1) = committed (dp_db p) \<or>
        cycle_stored L M E p trains rp issued revision now wall (committed (dp_db p)) (committed (dp_db p1)) \<and>
        (\<exists>db db'. my_query M db ''COMMIT'' = (Some e, db')))) \<and>
    (\<forall>e. r = Raised e \<longrightarrow> committed (dp_db p1) = committed (dp_db p) \<or>
       cycle_stored L M E p trains rp issued revision now wall (committed (dp_db p)) (committed (dp_db p1)))"
proof (cases "\<exists>e. train_payload L trains now wall = Inl e \<or> jl_dump L (rollingPlanToJson L rp) = Inl e")
  case True
  then show ?thesis using res by (cases "train_payload L trains now wall"; cases "jl_dump L (rollingPlanToJson L rp)")
      (auto simp: persistDispatchCycle_def with_payload_def)
next
  case False
  obtain trains_text plan_text where texts: "train_payload L trains now wall = Inr trains_text"
    "jl_dump L (rollingPlanToJson L rp) = Inr plan_text" using False by (metis sum.exhaust)
  let ?stmts = "\<lambda>q. cycle_statements L M q trains rp issued revision now wall trains_text plan_text"
  let ?db = "if \<not> dp_mysql_enabled p then (Ok (), p) else if \<not> my_connect M (dp_db p) then no_connection p
      else case execute M p ''START TRANSACTION'' of (Some e, p1) \<Rightarrow> (Failed e, mysql_error p1)
         | (None, p1) \<Rightarrow> finish_transaction M (run_statements M p1 (?stmts p1 @ [Inr ''COMMIT'']))"
  obtain r0 p0 where db: "?db = (r0, p0)" by (cases ?db)
  have redis: "then_redis R (r0, p0) (cycle_ops L p trains rp issued now trains_text plan_text) = (r, p1)"
    using res texts db by (simp add: persistDispatchCycle_def with_payload_def Let_def)
  note re = then_redis_db [OF redis]
  let ?stored = "cycle_stored L M E p trains rp issued revision now wall (committed (dp_db p)) (committed (dp_db p0))"
  have "dp_redis_log p0 = dp_redis_log p \<and>
    (r0 = Ok () \<longrightarrow> (if dp_mysql_enabled p then ?stored else committed (dp_db p0) = committed (dp_db p))) \<and>
    (\<forall>e. r0 = Failed e \<longrightarrow> committed (dp_db p0) = committed (dp_db p) \<or>
       ?stored \<and> (\<exists>db db'. my_query M db ''COMMIT'' = (Some e, db'))) \<and>
    (\<forall>e. r0 = Raised e \<longrightarrow> committed (dp_db p0) = committed (dp_db p))"
  proof (cases "dp_mysql_enabled p \<and> my_connect M (dp_db p)")
    case False
    then show ?thesis using db by (auto simp: no_connection_def mysql_error_def split: if_splits)
  next
    case True
    obtain e q where ex: "execute M p ''START TRANSACTION'' = (e, q)" by (cases "execute M p ''START TRANSACTION''")
    note fr = execute_frame [OF ex]
    have q: "committed (dp_db q) = committed (dp_db p)" "work (dp_db q) = (if e = None then Some (committed (dp_db p)) else None)"
      using mysql_txD(1) [OF tx idle] fr by blast+
    show ?thesis
    proof (cases e)
      case None
      obtain r1 q1 where run: "run_statements M q (?stmts q @ [Inr ''COMMIT'']) = (r1, q1)"
        by (cases "run_statements M q (?stmts q @ [Inr ''COMMIT''])")
      have fin: "finish_transaction M (r1, q1) = (r0, p0)" using db True ex None run by simp
      have "work (dp_db q) = Some (committed (dp_db p))" using q(2) None by simp
      note out = run_statements_outcome [OF tx run cycle_statements_dml this]
      have fo: "r0 = r1" "committed (dp_db p0) = committed (dp_db q1)" "dp_redis_log p0 = dp_redis_log q1"
        using finish_transaction_outcome [OF tx fin] by simp_all
      have stored: "?stored" if "?stmts q = map Inr sqls" "effects E sqls (committed (dp_db p)) (committed (dp_db q1))" for sqls
      proof -
        have "dp_config q = dp_config p" using fr by simp
        with cycle_statements_all [OF that(1)] that(2) texts fo(2) show ?thesis
          unfolding cycle_stored_def by auto
      qed
      show ?thesis
      proof (intro conjI allI impI)
        show "dp_redis_log p0 = dp_redis_log p" using out fo(3) fr by simp
        assume "r0 = Ok ()"
        then show "if dp_mysql_enabled p then ?stored else committed (dp_db p0) = committed (dp_db p)"
          using out fo(1) stored True by auto
      next
        fix e assume e: "r0 = Failed e"
        have "committed (dp_db q1) = committed (dp_db q) \<or> (\<exists>sqls db db'. ?stmts q = map Inr sqls \<and>
            effects E sqls (committed (dp_db p)) (committed (dp_db q1)) \<and> my_query M db ''COMMIT'' = (Some e, db'))"
          using out fo(1) e by simp
        then show "committed (dp_db p0) = committed (dp_db p) \<or>
            ?stored \<and> (\<exists>db db'. my_query M db ''COMMIT'' = (Some e, db'))"
          using stored fo(2) q(1) by auto
      next
        fix e assume "r0 = Raised e"
        then show "committed (dp_db p0) = committed (dp_db p)" using out fo q(1) by simp
      qed
    next
      case (Some err)
      then show ?thesis using db True ex fr q by (auto simp: mysql_error_def)
    qed
  qed
  then show ?thesis using re by (metis answer.exhaust unit.exhaust)
qed

lemma cycle_all:
  "mysql_tx M committed work E \<Longrightarrow> work (dp_db p) = None \<Longrightarrow>
   persistDispatchCycle L M R p trains rp issued revision now wall = (Ok (), p1) \<Longrightarrow> dp_mysql_enabled p \<Longrightarrow>
   cycle_stored L M E p trains rp issued revision now wall (committed (dp_db p)) (committed (dp_db p1))"
  by (drule (2) cycle_outcome) simp

text \<open>C8: a dispatch cycle is stored all or not at all. For a MySQL that behaves as documented, when
  \<open>persistDispatchCycle\<close> returns true every statement of the cycle has had its effect. When it reports
  failure (no connection, a statement or the commit refused) nothing was sent to Redis and the tables hold
  what they held before, unless it was the \<open>COMMIT\<close> itself that was answered with an error: then its
  outcome is unknown and the tables may hold the whole cycle. When the JSON library throws, the tables hold
  nothing or all of the cycle. A part of a cycle is never visible.\<close>

theorem cycle_is_all_or_nothing:
  assumes tx: "mysql_tx M committed work E" and idle: "work (dp_db p) = None"
    and res: "persistDispatchCycle L M R p trains rp issued revision now wall = (r, p1)"
  shows "(r = Ok () \<longrightarrow> (if dp_mysql_enabled p
       then cycle_stored L M E p trains rp issued revision now wall (committed (dp_db p)) (committed (dp_db p1))
       else committed (dp_db p1) = committed (dp_db p))) \<and>
    (\<forall>e. r = Failed e \<longrightarrow> dp_redis_log p1 = dp_redis_log p \<and>
       (committed (dp_db p1) = committed (dp_db p) \<or>
        cycle_stored L M E p trains rp issued revision now wall (committed (dp_db p)) (committed (dp_db p1)) \<and>
        (\<exists>db db'. my_query M db ''COMMIT'' = (Some e, db')))) \<and>
    (\<forall>e. r = Raised e \<longrightarrow> committed (dp_db p1) = committed (dp_db p) \<or>
       cycle_stored L M E p trains rp issued revision now wall (committed (dp_db p)) (committed (dp_db p1)))"
  by (rule cycle_outcome [OF assms])

text \<open>A database for examples: the committed and the pending statements. It refuses the third insert.\<close>

record demo_db =
  db_committed :: "string list"
  db_pending :: "string list option"

definition demo_query :: "demo_db \<Rightarrow> string \<Rightarrow> string option \<times> demo_db" where
  "demo_query db sql =
     (if sql = ''START TRANSACTION'' then (None, db\<lparr>db_pending := Some []\<rparr>)
      else if sql = ''ROLLBACK'' then (None, db\<lparr>db_pending := None\<rparr>)
      else case db_pending db of
          None \<Rightarrow> (None, db\<lparr>db_committed := db_committed db @ [sql]\<rparr>)
        | Some ss \<Rightarrow> if sql = ''COMMIT'' then (None, \<lparr>db_committed = db_committed db @ ss, db_pending = None\<rparr>)
            else if length ss = 2 then (Some ''disk full'', db)
            else (None, db\<lparr>db_pending := Some (ss @ [sql])\<rparr>))"

definition demo_mysql :: "demo_db mysql" where
  "demo_mysql = \<lparr>my_connect = (\<lambda>_. True), my_query = demo_query, my_rows = (\<lambda>_. Some []),
     my_error = (\<lambda>_. []), my_escape = (\<lambda>s. s)\<rparr>"

definition demo_work :: "demo_db \<Rightarrow> string list option" where
  "demo_work db = map_option (\<lambda>ss. db_committed db @ ss) (db_pending db)"

lemma demo_mysql_tx: "mysql_tx demo_mysql db_committed demo_work (\<lambda>sql v v'. v' = v @ [sql])"
proof -
  have "\<not> is_dml ''START TRANSACTION''" "\<not> is_dml ''ROLLBACK''" "\<not> is_dml ''COMMIT''"
    by (simp_all add: is_dml_def)
  then show ?thesis
    unfolding mysql_tx_def
    by (intro conjI) (auto simp: demo_mysql_def demo_query_def demo_work_def split: if_splits option.splits)
qed

lemma demo_query_dml:
  assumes "is_dml sql"
  shows "demo_query db sql = (case db_pending db of
      None \<Rightarrow> (None, db\<lparr>db_committed := db_committed db @ [sql]\<rparr>)
    | Some ss \<Rightarrow> if length ss = 2 then (Some ''disk full'', db) else (None, db\<lparr>db_pending := Some (ss @ [sql])\<rparr>))"
proof -
  have "sql \<noteq> ''START TRANSACTION''" "sql \<noteq> ''ROLLBACK''" "sql \<noteq> ''COMMIT''"
    using assms by (auto simp: is_dml_def)
  then show ?thesis by (simp add: demo_query_def split: option.split)
qed

lemma demo_query_control: "demo_query db ''START TRANSACTION'' = (None, db\<lparr>db_pending := Some []\<rparr>)"
  "demo_query db ''ROLLBACK'' = (None, db\<lparr>db_pending := None\<rparr>)"
  by (simp_all add: demo_query_def)

definition demo_persistence :: "demo_db persistence" where
  "demo_persistence = (new_persistence \<lparr>db_committed = [], db_pending = None\<rparr>)
     \<lparr>dp_pool := True, dp_redis := True, dp_mysql_enabled := True\<rparr>"

lemma cycle_is_all_or_nothing_witness:
  "\<exists>p1. persistDispatchCycle demo_json demo_mysql \<lparr>rd_enabled = True, rd_answer = (\<lambda>_. True)\<rparr> demo_persistence
     [] empty_plan [default_decision] 1 2 3 = (Failed ''disk full'', p1) \<and> db_committed (dp_db p1) = [] \<and>
     dp_redis_log p1 = []"
proof -
  let ?R = "\<lparr>rd_enabled = True, rd_answer = (\<lambda>_. True)\<rparr>"
  have sel: "jl_dump demo_json j = Inr ''{}''" "my_query demo_mysql = demo_query" "my_connect demo_mysql db" for j db
    by (simp_all add: demo_json_def demo_mysql_def)
  have st: "dp_mysql_enabled demo_persistence" "pg_telemetry_history_enabled (dp_config demo_persistence)"
    "dp_db demo_persistence = \<lparr>db_committed = [], db_pending = None\<rparr>"
    by (simp_all add: demo_persistence_def new_persistence_def default_persistence_config_def)
  have "\<exists>p1. persistDispatchCycle demo_json demo_mysql ?R
      demo_persistence [] empty_plan [default_decision] 1 2 3 = (Failed ''disk full'', p1)"
    by (simp add: persistDispatchCycle_def with_payload_def train_payload_def sel execute_def cycle_statements_def
        demo_query_dml demo_query_control statements_are_dml finish_transaction_def rollback_def then_redis_def Let_def st)
  then obtain p1 where p1: "persistDispatchCycle demo_json demo_mysql ?R
      demo_persistence [] empty_plan [default_decision] 1 2 3 = (Failed ''disk full'', p1)" by blast
  have "demo_work (dp_db demo_persistence) = None" by (simp add: demo_work_def st)
  note th = cycle_is_all_or_nothing [OF demo_mysql_tx this p1]
  have "fst (demo_query db ''COMMIT'') \<noteq> Some ''disk full''" for db
    by (simp add: demo_query_def split: option.split)
  then have "\<not> (\<exists>db db'. my_query demo_mysql db ''COMMIT'' = (Some ''disk full'', db'))"
    unfolding sel(2) by (metis fst_conv)
  with th have "db_committed (dp_db p1) = [] \<and> dp_redis_log p1 = []"
    by (simp add: st) (simp add: demo_persistence_def new_persistence_def)
  then show ?thesis using p1 by blast
qed

lemma stoull_u64: "stoull_res (string_of_u64 n) = Inr n"
proof -
  have "unat n < 2 ^ 64" using unsigned_less [of n, where 'a = nat] by simp
  then show ?thesis by (simp add: stoull_res_def string_of_u64_def stoull_digits)
qed

end
