(* ===== verification/Recovery.thy ===== *)
theory Recovery
  imports Persist "HOL-Library.Countable"
begin

text \<open>
  Storing and recovering: what \<open>persistTopology\<close> and \<open>persistDispatchCycle\<close> write is what
  \<open>loadRecoveryState\<close> reads after a restart. The tables are seen through two functions of what is
  committed: \<open>topo c\<close> maps a revision to the stored payload of \<open>dispatch_topology_snapshots\<close>, \<open>cmds c\<close>
  a command id to sequence, status and stored payload of \<open>dispatch_commands\<close>. What the SQL texts mean is
  stated as hypotheses, with the texts written out (not through the definitions that model the code).
\<close>

subsection \<open>Hypotheses on the libraries\<close>

text \<open>What \<open>dump\<close> writes, \<open>parse\<close> reads back, for values without infinities and NaN (which JSON lacks).\<close>

inductive json_built :: "'j json_lib \<Rightarrow> 'j \<Rightarrow> bool" for L where
  built_string: "json_built L (jl_string L s)"
| built_u64: "json_built L (jl_u64 L n)"
| built_bool: "json_built L (jl_bool L b)"
| built_double: "json_built L (jl_double L (Fin q))"
| built_array: "(\<And>x. x \<in> set xs \<Longrightarrow> json_built L x) \<Longrightarrow> json_built L (jl_array L xs)"
| built_object: "distinct (map fst kvs) \<Longrightarrow> (\<And>k v. (k, v) \<in> set kvs \<Longrightarrow> json_built L v) \<Longrightarrow>
    json_built L (jl_object L kvs)"

definition dump_law :: "'j json_lib \<Rightarrow> bool" where
  "dump_law L \<longleftrightarrow> (\<forall>j t. json_built L j \<longrightarrow> jl_dump L j = Inr t \<longrightarrow> jl_parse L t = Inr j)"

type_synonym command_table = "string \<Rightarrow> (u64 \<times> string \<times> string) option"

text \<open>
  The inserts, for the snapshot \<open>s\<close> and the commands \<open>issued\<close>: the topology row of a revision is inserted or
  its payload replaced; a command whose id and sequence are new is inserted with status \<open>PENDING\<close>. The
  statements on the other tables of a cycle touch neither.
\<close>

definition writes_documented ::
    "'db mysql \<Rightarrow> (string \<Rightarrow> 'c \<Rightarrow> 'c \<Rightarrow> bool) \<Rightarrow> ('c \<Rightarrow> u64 \<Rightarrow> string option) \<Rightarrow> ('c \<Rightarrow> command_table) \<Rightarrow>
     line_topology_snapshot \<Rightarrow> u64 \<Rightarrow> dispatch_decision list \<Rightarrow> u64 \<Rightarrow> bool" where
  "writes_documented M E topo cmds s stored_at issued wall \<longleftrightarrow>
     (\<forall>payload v v'. E (''INSERT INTO dispatch_topology_snapshots (revision,received_at_wall_ms,route_count,corridor_count,'' @
          ''intersection_count,payload_json) VALUES ('' @ string_of_u64 (ts_revision s) @ '','' @
          string_of_u64 stored_at @ '','' @ nat_digits (length (ts_routes s)) @ '','' @
          nat_digits (length (la_shared_corridors (ts_analysis s))) @ '','' @
          nat_digits (length (la_intersections (ts_analysis s))) @ '' ,'' @ quoted M payload @
          '') ON DUPLICATE KEY UPDATE received_at_wall_ms=VALUES(received_at_wall_ms),'' @
          ''route_count=VALUES(route_count),corridor_count=VALUES(corridor_count),'' @
          ''intersection_count=VALUES(intersection_count),payload_json=VALUES(payload_json)'') v v' \<longrightarrow>
        topo v' = (topo v)(ts_revision s \<mapsto> payload) \<and> cmds v' = cmds v) \<and>
     (\<forall>d \<in> set issued. \<forall>payload v v'. cmds v (dd_command_id d) = None \<longrightarrow>
        (\<forall>i q st t. cmds v i = Some (q, st, t) \<longrightarrow> q \<noteq> commandSequence (dd_command_id d)) \<longrightarrow>
        E (''INSERT INTO dispatch_commands (command_id,command_sequence,train_id,corridor_resource_id,action,status,'' @
          ''topology_revision,issued_at_simulation_ms,issued_at_wall_ms,payload_json) VALUES ('' @
          quoted M (dd_command_id d) @ '','' @ string_of_u64 (commandSequence (dd_command_id d)) @ '','' @
          quoted M (dd_train_id d) @ '','' @ quoted M (dd_corridor_resource_id d) @ '','' @
          sq @ actionName (dd_action d) @ sq @ '','' @ sq @ ''PENDING'' @ sq @ '','' @
          string_of_u64 (dd_topology_revision d) @ '','' @ string_of_u64 (dd_issued_at_simulation_ms d) @ '','' @
          string_of_u64 wall @ '','' @ quoted M payload @ '') ON DUPLICATE KEY UPDATE '' @
          ''payload_json=VALUES(payload_json),updated_at=CURRENT_TIMESTAMP(6)'') v v' \<longrightarrow>
        topo v' = topo v \<and>
        cmds v' = (cmds v)(dd_command_id d \<mapsto> (commandSequence (dd_command_id d), ''PENDING'', payload))) \<and>
     (\<forall>sql v v'. prefix ''UPDATE dispatch_train_state '' sql \<or> prefix ''INSERT INTO dispatch_train_state '' sql \<or>
        prefix ''INSERT INTO dispatch_telemetry_batches '' sql \<or> prefix ''INSERT INTO dispatch_rolling_plans '' sql \<longrightarrow>
        E sql v v' \<longrightarrow> topo v' = topo v \<and> cmds v' = cmds v)"

text \<open>
  The three queries of the recovery: they are answered (the connection works), change nothing, and answer
  with the newest topology, the unfinished commands in the order of their sequence and the greatest
  sequence. A JSON column may come back formatted differently, so the payload read parses as the payload stored.
\<close>

definition select_topology :: string where
  "select_topology = ''SELECT revision,payload_json FROM dispatch_topology_snapshots ORDER BY revision DESC LIMIT 1''"

definition select_commands :: string where
  "select_commands = ''SELECT status,payload_json FROM dispatch_commands WHERE status IN ('' @
     sq @ ''PENDING'' @ sq @ '','' @ sq @ ''ACCEPTED'' @ sq @ '') ORDER BY command_sequence''"

definition select_sequence :: string where
  "select_sequence = ''SELECT COALESCE(MAX(command_sequence),0) FROM dispatch_commands''"

definition reads_documented ::
    "'db mysql \<Rightarrow> 'j json_lib \<Rightarrow> ('db \<Rightarrow> 'c) \<Rightarrow> ('db \<Rightarrow> 'c option) \<Rightarrow> ('c \<Rightarrow> u64 \<Rightarrow> string option) \<Rightarrow>
     ('c \<Rightarrow> command_table) \<Rightarrow> bool" where
  "reads_documented M L committed work topo cmds \<longleftrightarrow>
     (\<forall>db. work db = None \<longrightarrow> my_connect M db \<and>
        (\<forall>sql \<in> {select_topology, select_commands, select_sequence}. \<exists>db' rows. my_query M db sql = (None, db') \<and>
           my_rows M db' = Some rows \<and> committed db' = committed db \<and> work db' = None)) \<and>
     (\<forall>db db' rows. work db = None \<longrightarrow> my_query M db select_topology = (None, db') \<longrightarrow> my_rows M db' = Some rows \<longrightarrow>
        (\<forall>rev. topo (committed db) rev = None) \<and> rows = [] \<or>
        (\<exists>rev t t'. topo (committed db) rev = Some t \<and> (\<forall>r. topo (committed db) r \<noteq> None \<longrightarrow> r \<le> rev) \<and>
           jl_parse L t' = jl_parse L t \<and> rows = [[Some (string_of_u64 rev), Some t']])) \<and>
     (\<forall>db db' rows. work db = None \<longrightarrow> my_query M db select_commands = (None, db') \<longrightarrow> my_rows M db' = Some rows \<longrightarrow>
        (\<exists>ids. distinct ids \<and> set ids = {i. \<exists>q st t. cmds (committed db) i = Some (q, st, t) \<and>
             (st = ''PENDING'' \<or> st = ''ACCEPTED'')} \<and>
           sorted (map (\<lambda>i. fst (the (cmds (committed db) i))) ids) \<and>
           list_all2 (\<lambda>i row. \<exists>q st t t'. cmds (committed db) i = Some (q, st, t) \<and>
             jl_parse L t' = jl_parse L t \<and> row = [Some st, Some t']) ids rows)) \<and>
     (\<forall>db db' rows. work db = None \<longrightarrow> my_query M db select_sequence = (None, db') \<longrightarrow> my_rows M db' = Some rows \<longrightarrow>
        (\<exists>n. rows = [[Some (string_of_u64 n)]] \<and> (\<forall>i q st t. cmds (committed db) i = Some (q, st, t) \<longrightarrow> q \<le> n) \<and>
           (n = 0 \<or> (\<exists>i st t. cmds (committed db) i = Some (n, st, t)))))"

text \<open>A row of the command table that a cycle of this program wrote, and the command it stands for.\<close>

definition stored_command :: "'j json_lib \<Rightarrow> command_table \<Rightarrow> string \<Rightarrow> dispatch_decision \<Rightarrow> bool" where
  "stored_command L C status d \<longleftrightarrow> (\<exists>t. C (dd_command_id d) =
     Some (commandSequence (dd_command_id d), status, t) \<and> jl_parse L t = Inr (persist_decisionToJson L d))"

definition rows_readable :: "'j json_lib \<Rightarrow> command_table \<Rightarrow> bool" where
  "rows_readable L C \<longleftrightarrow> (\<forall>i q st t. C i = Some (q, st, t) \<longrightarrow>
     (\<exists>d. dd_command_id d = i \<and> q = commandSequence i \<and> jl_parse L t = Inr (persist_decisionToJson L d)))"

definition finite_decision :: "dispatch_decision \<Rightarrow> bool" where
  "finite_decision d \<longleftrightarrow> isfinite (dd_entry_route_position d) \<and> isfinite (dd_exit_route_position d) \<and>
     isfinite (dd_score d) \<and> isfinite (sb_headway_urgency (dd_breakdown d)) \<and>
     isfinite (sb_waiting_time (dd_breakdown d)) \<and> isfinite (sb_fairness_credit (dd_breakdown d)) \<and>
     isfinite (sb_consecutive_penalty (dd_breakdown d)) \<and> isfinite (sb_global_plan_priority (dd_breakdown d))"

subsection \<open>What is stored\<close>

lemma built_finite: "isfinite x \<Longrightarrow> json_built L (jl_double L x)"
  by (cases x) (auto intro: built_double)

lemmas built_intros = built_string built_u64 built_bool built_finite built_array built_object

lemma decision_built: "finite_decision d \<Longrightarrow> json_built L (persist_decisionToJson L d)"
  unfolding persist_decisionToJson_def finite_decision_def
  by (intro built_object) (auto intro!: built_intros)

lemma routes_built:
  assumes "\<forall>r \<in> set rs. \<forall>pt \<in> set (lr_points r). isfinite (pt_x pt) \<and> isfinite (pt_y pt) \<and> isfinite (pt_z pt)"
  shows "json_built L (jl_array L (map (persist_routeToJson L) rs))"
proof -
  have "json_built L (persist_pointToJson L pt)" if "isfinite (pt_x pt)" "isfinite (pt_y pt)" "isfinite (pt_z pt)" for pt
    unfolding persist_pointToJson_def using that by (intro built_object) (auto intro!: built_intros)
  then have "json_built L (persist_routeToJson L r)" if "r \<in> set rs" for r
    unfolding persist_routeToJson_def using that assms by (intro built_object) (auto intro!: built_intros)
  then show ?thesis by (intro built_array) auto
qed

definition topology_json :: "'j json_lib \<Rightarrow> line_topology_snapshot \<Rightarrow> 'j" where
  "topology_json L s = jl_object L
     [(''revision'', jl_u64 L (ts_revision s)), (''algorithm_version'', jl_u64 L (ts_algorithm_version s)),
      (''algorithm_fingerprint'', jl_string L (ts_algorithm_fingerprint s)),
      (''routes'', jl_array L (map (persist_routeToJson L) (ts_routes s)))]"

lemma topology_built:
  "\<forall>r \<in> set (ts_routes s). \<forall>pt \<in> set (lr_points r). isfinite (pt_x pt) \<and> isfinite (pt_y pt) \<and> isfinite (pt_z pt) \<Longrightarrow>
   json_built L (topology_json L s)"
  unfolding topology_json_def by (intro built_object) (auto intro!: built_intros routes_built)

lemma persistTopology_stores:
  assumes tx: "mysql_tx M committed work E" and "work (dp_db p) = None" and "dp_mysql_enabled p"
    and res: "persistTopology L M R p s wall = (Ok (), p1)"
  shows "\<exists>payload. jl_dump L (topology_json L s) = Inr payload \<and>
    E (topology_statement M s wall payload) (committed (dp_db p)) (committed (dp_db p1)) \<and> work (dp_db p1) = None"
proof -
  obtain payload where t: "topology_payload L s = Inr payload"
    using res by (cases "topology_payload L s") (auto simp: persistTopology_def with_payload_def)
  obtain e q where ex: "execute M p (topology_statement M s wall payload) = (e, q)" by fastforce
  note fr = execute_frame [OF ex]
  have dml: "is_dml (topology_statement M s wall payload)" by (simp add: topology_statement_def is_dml_def)
  obtain r0 p0 where r0: "(if \<not> dp_mysql_enabled p then (Ok (), p) else if \<not> my_connect M (dp_db p) then no_connection p
       else case execute M p (topology_statement M s wall payload) of
            (None, p1) \<Rightarrow> (Ok (), mysql_wrote p1) | (Some e, p1) \<Rightarrow> (Failed e, mysql_error p1)) = (r0, p0)"
    by fastforce
  then have redis: "then_redis R (r0, p0) (topology_ops p s payload) = (Ok (), p1)"
    using res t by (simp add: persistTopology_def with_payload_def Let_def)
  then have "r0 = Ok ()" "dp_db p1 = dp_db p0" using then_redis_db by blast+
  then have "e = None \<and> dp_db p1 = dp_db q"
    using r0 ex assms(3) by (auto simp: no_connection_def mysql_wrote_def split: if_splits option.splits)
  then show ?thesis
    using mysql_txD(4) [OF tx assms(2) dml, of None "dp_db q"] fr t by (auto simp: topology_payload_def topology_json_def)
qed

lemma run_redis_keeps: "run_redis R q ops = (a, q1) \<Longrightarrow> dp_mysql_enabled q1 = dp_mysql_enabled q"
  by (induction R q ops rule: run_redis.induct)
    (auto simp: send_redis_def countRedis_def split: answer.splits prod.splits if_splits)

lemma then_redis_keeps: "then_redis R (r, q) ops = (r1, q1) \<Longrightarrow> dp_mysql_enabled q1 = dp_mysql_enabled q"
  by (cases r) (auto simp: then_redis_def dest: run_redis_keeps split: if_splits)

lemma persistTopology_keeps:
  assumes "persistTopology L M R p s wall = (r, p1)"
  shows "dp_mysql_enabled p1 = dp_mysql_enabled p"
proof (cases "topology_payload L s")
  case (Inl e)
  then show ?thesis using assms by (auto simp: persistTopology_def with_payload_def)
next
  case (Inr payload)
  obtain e q where ex: "execute M p (topology_statement M s wall payload) = (e, q)" by fastforce
  have "dp_mysql_enabled q = dp_mysql_enabled p"
    using ex by (auto simp: execute_def split: prod.splits)
  then have keep: "dp_mysql_enabled p0 = dp_mysql_enabled p"
    if "(if \<not> dp_mysql_enabled p then (Ok (), p) else if \<not> my_connect M (dp_db p) then no_connection p
       else case execute M p (topology_statement M s wall payload) of
            (None, p1) \<Rightarrow> (Ok (), mysql_wrote p1) | (Some e, p1) \<Rightarrow> (Failed e, mysql_error p1)) = (r0, p0)" for r0 p0
    using that ex by (auto simp: no_connection_def mysql_error_def mysql_wrote_def split: if_splits option.splits)
  let ?r = "if \<not> dp_mysql_enabled p then (Ok (), p) else if \<not> my_connect M (dp_db p) then no_connection p
       else case execute M p (topology_statement M s wall payload) of
            (None, p1) \<Rightarrow> (Ok (), mysql_wrote p1) | (Some e, p1) \<Rightarrow> (Failed e, mysql_error p1)"
  obtain r0 p0 where r0: "?r = (r0, p0)" by fastforce
  have "then_redis R ?r (topology_ops p s payload) = (r, p1)"
    using assms Inr by (simp add: persistTopology_def with_payload_def Let_def)
  then show ?thesis unfolding r0 using then_redis_keeps keep [OF r0] by metis
qed

lemma effects_append: "effects E (xs @ ys) v v' \<longleftrightarrow> (\<exists>u. effects E xs v u \<and> effects E ys u v')"
  by (induction xs arbitrary: v) auto

lemma effects_other:
  assumes "writes_documented M E topo cmds s stored_at issued wall"
    and "\<forall>sql \<in> set sqls. prefix ''UPDATE dispatch_train_state '' sql \<or> prefix ''INSERT INTO dispatch_train_state '' sql \<or>
      prefix ''INSERT INTO dispatch_telemetry_batches '' sql \<or> prefix ''INSERT INTO dispatch_rolling_plans '' sql"
    and "effects E sqls v v'"
  shows "topo v' = topo v \<and> cmds v' = cmds v"
proof -
  note other = assms(1) [unfolded writes_documented_def, THEN conjunct2, THEN conjunct2, rule_format]
  show ?thesis using assms(2,3)
  proof (induction sqls arbitrary: v)
    case (Cons sql sqls)
    then obtain u where u: "E sql v u" "effects E sqls u v'" by auto
    then show ?case using Cons other [OF _ u(1)] by simp
  qed simp
qed

lemma effects_commands:
  assumes law: "writes_documented M E topo cmds s stored_at issued wall"
    and "set ds \<subseteq> set issued"
    and "list_all2 (\<lambda>d sql. \<exists>payload. jl_dump L (persist_decisionToJson L d) = Inr payload \<and>
      sql = command_statement M d wall payload) ds sqls"
    and "effects E sqls v v'"
    and "distinct (map (\<lambda>d. commandSequence (dd_command_id d)) ds)"
    and "\<forall>d \<in> set ds. \<forall>i q st t. cmds v i = Some (q, st, t) \<longrightarrow> q \<noteq> commandSequence (dd_command_id d) \<and> i \<noteq> dd_command_id d"
  shows "topo v' = topo v \<and> (\<forall>i. i \<notin> dd_command_id ` set ds \<longrightarrow> cmds v' i = cmds v i) \<and>
    (\<forall>d \<in> set ds. \<exists>t. jl_dump L (persist_decisionToJson L d) = Inr t \<and>
       cmds v' (dd_command_id d) = Some (commandSequence (dd_command_id d), ''PENDING'', t))"
  using assms(2-)
proof (induction ds arbitrary: sqls v)
  case (Cons d ds)
  obtain payload sqls' where sq: "jl_dump L (persist_decisionToJson L d) = Inr payload"
    "sqls = command_statement M d wall payload # sqls'"
    "list_all2 (\<lambda>d sql. \<exists>payload. jl_dump L (persist_decisionToJson L d) = Inr payload \<and>
      sql = command_statement M d wall payload) ds sqls'"
    using Cons.prems(2) by (auto simp: list_all2_Cons1)
  obtain u where u: "E (command_statement M d wall payload) v u" "effects E sqls' u v'"
    using Cons.prems(3) sq(2) by auto
  have d: "d \<in> set issued" using Cons.prems(1) by simp
  have none: "cmds v (dd_command_id d) = None"
    using Cons.prems(5) by (cases "cmds v (dd_command_id d)") auto
  have "topo u = topo v \<and>
      cmds u = (cmds v)(dd_command_id d \<mapsto> (commandSequence (dd_command_id d), ''PENDING'', payload))"
    using law [unfolded writes_documented_def, THEN conjunct2, THEN conjunct1, rule_format, OF d none, of payload u]
      Cons.prems(5) u(1) by (simp add: command_statement_def)
  then have u': "topo u = topo v"
    "cmds u = (cmds v)(dd_command_id d \<mapsto> (commandSequence (dd_command_id d), ''PENDING'', payload))" by simp_all
  have seq: "commandSequence (dd_command_id d') \<noteq> commandSequence (dd_command_id d)" if "d' \<in> set ds" for d'
    using Cons.prems(4) that by (auto simp: image_iff)
  have fresh: "\<forall>d' \<in> set ds. \<forall>i q st t. cmds u i = Some (q, st, t) \<longrightarrow>
      q \<noteq> commandSequence (dd_command_id d') \<and> i \<noteq> dd_command_id d'"
    using Cons.prems(5) seq unfolding u'(2) by (auto split: if_splits) metis+
  have "set ds \<subseteq> set issued" "distinct (map (\<lambda>d. commandSequence (dd_command_id d)) ds)"
    using Cons.prems(1,4) by simp_all
  note IH = Cons.IH [OF this(1) sq(3) u(2) this(2) fresh]
  have "dd_command_id d \<notin> dd_command_id ` set ds" using seq by force
  then show ?case using IH sq(1) u' by auto
qed simp

subsection \<open>What is recovered\<close>

text \<open>A stored command as it comes back: its status column, the stored text and the command.\<close>

definition command_row :: "bool \<times> string \<times> dispatch_decision \<Rightarrow> string option list" where
  "command_row c = [Some (if fst c then ''PENDING'' else ''ACCEPTED''), Some (fst (snd c))]"

lemma below_next:
  fixes m n :: u64
  assumes "m \<le> n" "n \<noteq> - 1"
  shows "m < n + 1"
proof -
  have "1 + n \<noteq> 0" using assms(2) by (metis add.commute eq_neg_iff_add_eq_0)
  then have "unat (n + 1) = Suc (unat n)" using unatSuc [of n] by (simp add: add.commute)
  then show ?thesis using assms(1) by (simp add: word_less_nat_alt word_le_nat_alt)
qed

lemma json_decision_inj:
  assumes "json_laws L" "persist_decisionToJson L d = persist_decisionToJson L d'"
  shows "d = d'"
proof -
  have "decisionFromJson L (persist_decisionToJson L d') = Inr d"
    using stored_command_is_recovered [OF assms(1), of d, THEN conjunct1] unfolding assms(2) .
  moreover have "decisionFromJson L (persist_decisionToJson L d') = Inr d'"
    by (rule stored_command_is_recovered [OF assms(1), THEN conjunct1])
  ultimately show ?thesis by simp
qed

lemma read_commands_rows:
  assumes "json_laws L" and "\<forall>c \<in> set cs. jl_parse L (fst (snd c)) = Inr (persist_decisionToJson L (snd (snd c)))"
  shows "read_commands L (map command_row cs) st = Inr (st
    \<lparr>rs_pending_commands := rs_pending_commands st @ map (\<lambda>c. snd (snd c)) (filter (\<lambda>c. fst c) cs),
     rs_active_commands := rs_active_commands st @ map (\<lambda>c. snd (snd c)) (filter (\<lambda>c. \<not> fst c) cs)\<rparr>)"
  using assms(2)
proof (induction cs arbitrary: st)
  case (Cons c cs)
  obtain b stored d where c: "c = (b, stored, d)" by (cases c)
  have "jl_parse L stored = Inr (persist_decisionToJson L d)" using Cons.prems c by simp
  moreover have "decisionFromJson L (persist_decisionToJson L d) = Inr d"
    using stored_command_is_recovered [OF assms(1)] by blast
  ultimately show ?case
    using Cons.IH Cons.prems c by (cases b) (simp_all add: command_row_def column_def text_or_def)
qed simp

definition status_of :: "bool \<Rightarrow> string" where
  "status_of pending = (if pending then ''PENDING'' else ''ACCEPTED'')"

lemma rows_are_commands:
  assumes "rows_readable L C"
    and "list_all2 (\<lambda>i row. \<exists>q st t t'. C i = Some (q, st, t) \<and> jl_parse L t' = jl_parse L t \<and> row = [Some st, Some t']) ids rows"
    and "\<forall>i \<in> set ids. \<exists>q st t. C i = Some (q, st, t) \<and> (st = ''PENDING'' \<or> st = ''ACCEPTED'')"
  shows "\<exists>cs. rows = map command_row cs \<and> map (\<lambda>c. dd_command_id (snd (snd c))) cs = ids \<and>
    (\<forall>c \<in> set cs. jl_parse L (fst (snd c)) = Inr (persist_decisionToJson L (snd (snd c))) \<and>
       stored_command L C (status_of (fst c)) (snd (snd c)))"
  using assms(2,3)
proof (induction ids arbitrary: rows)
  case (Cons i ids)
  obtain q st t t' rows' where row: "rows = [Some st, Some t'] # rows'" "C i = Some (q, st, t)"
    "jl_parse L t' = jl_parse L t"
    "list_all2 (\<lambda>i row. \<exists>q st t t'. C i = Some (q, st, t) \<and> jl_parse L t' = jl_parse L t \<and> row = [Some st, Some t']) ids rows'"
    using Cons.prems(1) by (auto simp: list_all2_Cons1)
  obtain d where d: "dd_command_id d = i" "q = commandSequence i" "jl_parse L t = Inr (persist_decisionToJson L d)"
    using assms(1) row(2) unfolding rows_readable_def by blast
  obtain cs where cs: "rows' = map command_row cs" "map (\<lambda>c. dd_command_id (snd (snd c))) cs = ids"
    "\<forall>c \<in> set cs. jl_parse L (fst (snd c)) = Inr (persist_decisionToJson L (snd (snd c))) \<and>
       stored_command L C (status_of (fst c)) (snd (snd c))"
    using Cons.IH [OF row(4)] Cons.prems(2) by auto
  have "st = ''PENDING'' \<or> st = ''ACCEPTED''" using Cons.prems(2) row(2) by auto
  then have st: "st = status_of (st = ''PENDING'')" by (auto simp: status_of_def)
  let ?c = "(st = ''PENDING'', t', d)"
  have "command_row ?c = [Some st, Some t']" using st by (simp add: command_row_def status_of_def)
  moreover have "stored_command L C (status_of (st = ''PENDING'')) d"
    using st row(2) d by (auto simp: stored_command_def)
  ultimately show ?case using cs row(1,3) d by (intro exI [of _ "?c # cs"]) auto
qed simp

lemma recovered_set:
  assumes "json_laws L" and "set ids = {i. \<exists>q st t. C i = Some (q, st, t) \<and> (st = ''PENDING'' \<or> st = ''ACCEPTED'')}"
    and cs: "map (\<lambda>c. dd_command_id (snd (snd c))) cs = ids"
      "\<forall>c \<in> set cs. stored_command L C (status_of (fst c)) (snd (snd c))"
  shows "d \<in> (\<lambda>c. snd (snd c)) ` {c \<in> set cs. fst c = b} \<longleftrightarrow> stored_command L C (status_of b) d"
proof
  assume "stored_command L C (status_of b) d"
  then obtain t where t: "C (dd_command_id d) = Some (commandSequence (dd_command_id d), status_of b, t)"
    "jl_parse L t = Inr (persist_decisionToJson L d)" by (auto simp: stored_command_def)
  then have "dd_command_id d \<in> set ids" unfolding assms(2) by (auto simp: status_of_def)
  then obtain c' where c': "c' \<in> set cs" "dd_command_id (snd (snd c')) = dd_command_id d" using cs(1) by auto
  then obtain t' where t': "C (dd_command_id d) = Some (commandSequence (dd_command_id d), status_of (fst c'), t')"
    "jl_parse L t' = Inr (persist_decisionToJson L (snd (snd c')))" using cs(2) by (auto simp: stored_command_def)
  with t have "fst c' = b" "persist_decisionToJson L d = persist_decisionToJson L (snd (snd c'))"
    by (auto simp: status_of_def split: if_splits)
  then show "d \<in> (\<lambda>c. snd (snd c)) ` {c \<in> set cs. fst c = b}" using c'(1) json_decision_inj [OF assms(1)] by auto
qed (use cs(2) in auto)

text \<open>The rows of the unfinished commands, as pending and as active commands.\<close>

definition row_commands :: "bool \<Rightarrow> (bool \<times> string \<times> dispatch_decision) list \<Rightarrow> dispatch_decision list" where
  "row_commands pending cs = map (\<lambda>c. snd (snd c)) (filter (\<lambda>c. fst c = pending) cs)"

lemma row_commands_stored:
  assumes "json_laws L"
    and ids: "distinct ids" "set ids = {i. \<exists>q st t. C i = Some (q, st, t) \<and> (st = ''PENDING'' \<or> st = ''ACCEPTED'')}"
      "sorted (map (\<lambda>i. fst (the (C i))) ids)"
    and cs: "map (\<lambda>c. dd_command_id (snd (snd c))) cs = ids"
      "\<forall>c \<in> set cs. stored_command L C (status_of (fst c)) (snd (snd c))"
  shows "d \<in> set (row_commands b cs) \<longleftrightarrow> stored_command L C (status_of b) d"
    and "distinct (row_commands b cs) \<and> sorted (map (\<lambda>d. commandSequence (dd_command_id d)) (row_commands b cs))"
proof -
  show "d \<in> set (row_commands b cs) \<longleftrightarrow> stored_command L C (status_of b) d"
    using recovered_set [OF assms(1) ids(2) cs] by (simp add: row_commands_def image_def conj_commute)
  have seqs: "map (\<lambda>c. commandSequence (dd_command_id (snd (snd c)))) cs = map (\<lambda>i. fst (the (C i))) ids"
    using cs(2) unfolding cs(1) [symmetric] by (auto simp: stored_command_def)
  have "distinct (map (\<lambda>c. dd_command_id (snd (snd c))) cs)" using cs(1) ids(1) by simp
  then have "distinct (map (\<lambda>c. dd_command_id (snd (snd c))) (filter (\<lambda>c. fst c = b) cs))" by (rule distinct_map_filter)
  then have "distinct (map dd_command_id (row_commands b cs))" by (simp add: comp_def row_commands_def)
  moreover have "sorted (map (\<lambda>c. commandSequence (dd_command_id (snd (snd c)))) (filter (\<lambda>c. fst c = b) cs))"
    by (rule sorted_filter) (use ids(3) seqs in simp)
  ultimately show "distinct (row_commands b cs) \<and> sorted (map (\<lambda>d. commandSequence (dd_command_id d)) (row_commands b cs))"
    unfolding distinct_map by (simp add: comp_def row_commands_def)
qed

lemma recovery_reads_tables:
  assumes laws: "json_laws L" and reads: "reads_documented M L committed work topo cmds"
    and q: "work (dp_db q) = None" "dp_mysql_enabled q" "pg_command_recovery_enabled (dp_config q)"
    and top: "topo (committed (dp_db q)) (ts_revision s) = Some payload" "jl_parse L payload = Inr (topology_json L s)"
      "\<forall>r. topo (committed (dp_db q)) r \<noteq> None \<longrightarrow> r \<le> ts_revision s"
    and readable: "rows_readable L (cmds (committed (dp_db q)))"
    and below: "\<forall>i n st t. cmds (committed (dp_db q)) i = Some (n, st, t) \<longrightarrow> n \<noteq> - 1"
  shows "\<exists>st q1. loadRecoveryState L M q = (Ok st, q1) \<and> rs_topology_revision st = ts_revision s \<and>
    rs_routes st = ts_routes s \<and>
    (\<forall>d. d \<in> set (rs_pending_commands st) \<longleftrightarrow> stored_command L (cmds (committed (dp_db q))) ''PENDING'' d) \<and>
    (\<forall>d. d \<in> set (rs_active_commands st) \<longleftrightarrow> stored_command L (cmds (committed (dp_db q))) ''ACCEPTED'' d) \<and>
    (\<forall>ds \<in> {rs_pending_commands st, rs_active_commands st}. distinct ds \<and>
       sorted (map (\<lambda>d. commandSequence (dd_command_id d)) ds)) \<and>
    (\<forall>i n st' t. cmds (committed (dp_db q)) i = Some (n, st', t) \<longrightarrow> n < rs_next_command_sequence st)"
proof -
  let ?c = "committed (dp_db q)"
  note answered = reads [unfolded reads_documented_def, THEN conjunct1, rule_format]
  note r1 = reads [unfolded reads_documented_def, THEN conjunct2, THEN conjunct1, rule_format]
  note r2 = reads [unfolded reads_documented_def, THEN conjunct2, THEN conjunct2, THEN conjunct1, rule_format]
  note r3 = reads [unfolded reads_documented_def, THEN conjunct2, THEN conjunct2, THEN conjunct2, rule_format]
  have sql: "topology_query = select_topology" "commands_query = select_commands" "sequence_query = select_sequence"
    by (simp_all add: topology_query_def commands_query_def sequence_query_def select_topology_def
        select_commands_def select_sequence_def)
  have connect: "my_connect M (dp_db q)" using answered [OF q(1)] by blast
  obtain db1 rows1 where 1: "my_query M (dp_db q) select_topology = (None, db1)" "my_rows M db1 = Some rows1"
    "committed db1 = ?c" "work db1 = None" using answered [OF q(1)] by blast
  obtain db2 rows2 where 2: "my_query M db1 select_commands = (None, db2)" "my_rows M db2 = Some rows2"
    "committed db2 = ?c" "work db2 = None" using answered [OF 1(4)] 1(3) by (metis insertCI)
  obtain db3 rows3 where 3: "my_query M db2 select_sequence = (None, db3)" "my_rows M db3 = Some rows3"
    using answered [OF 2(4)] by (metis insertCI)
  obtain rev t t' where t: "topo ?c rev = Some t" "\<forall>r. topo ?c r \<noteq> None \<longrightarrow> r \<le> rev"
    "jl_parse L t' = jl_parse L t" "rows1 = [[Some (string_of_u64 rev), Some t']]"
    using r1 [OF q(1) 1(1,2)] top(1) by auto
  have "rev = ts_revision s"
    by (rule antisym) (use t(1,2) top(1,3) in auto)
  then have topology: "read_topology L rows1 empty_recovery =
      Inr (empty_recovery\<lparr>rs_topology_revision := ts_revision s, rs_routes := ts_routes s\<rparr>)"
    using t top(1,2) by (simp add: read_topology_def column_def text_or_def stoull_u64 topology_json_def
        json_read laws map_res_map route_from_json empty_recovery_def)
  obtain ids where ids: "distinct ids"
    "set ids = {i. \<exists>q st t. cmds ?c i = Some (q, st, t) \<and> (st = ''PENDING'' \<or> st = ''ACCEPTED'')}"
    "sorted (map (\<lambda>i. fst (the (cmds ?c i))) ids)"
    "list_all2 (\<lambda>i row. \<exists>q st t t'. cmds ?c i = Some (q, st, t) \<and>
             jl_parse L t' = jl_parse L t \<and> row = [Some st, Some t']) ids rows2"
    using r2 [OF 1(4) 2(1,2)] 1(3) by auto
  obtain cs where cs: "rows2 = map command_row cs" "map (\<lambda>c. dd_command_id (snd (snd c))) cs = ids"
    "\<forall>c \<in> set cs. jl_parse L (fst (snd c)) = Inr (persist_decisionToJson L (snd (snd c))) \<and>
       stored_command L (cmds ?c) (status_of (fst c)) (snd (snd c))"
    using rows_are_commands [OF readable ids(4)] ids(2) by blast
  obtain n where n: "rows3 = [[Some (string_of_u64 n)]]" "\<And>i m st t. cmds ?c i = Some (m, st, t) \<Longrightarrow> m \<le> n"
    "n = 0 \<or> (\<exists>i st t. cmds ?c i = Some (n, st, t))" using r3 [OF 2(4) 3] unfolding 2(3) by blast
  have "n \<noteq> - 1" using n(3)
  proof
    assume "n = 0"
    then show ?thesis by simp
  next
    assume "\<exists>i st t. cmds ?c i = Some (n, st, t)"
    then show ?thesis using below by blast
  qed
  then have next_seq: "m < n + 1" if "cmds ?c i = Some (m, st, t)" for i m st t
    using below_next [OF n(2) [OF that]] by blast
  let ?st1 = "empty_recovery\<lparr>rs_topology_revision := ts_revision s, rs_routes := ts_routes s\<rparr>"
  let ?pend = "map (\<lambda>c. snd (snd c)) (filter (\<lambda>c. fst c) cs)"
  let ?act = "map (\<lambda>c. snd (snd c)) (filter (\<lambda>c. \<not> fst c) cs)"
  let ?st2 = "?st1\<lparr>rs_pending_commands := ?pend, rs_active_commands := ?act\<rparr>"
  have q1: "recover_query M q topology_query (read_topology L) empty_recovery = (Ok ?st1, q\<lparr>dp_db := db1\<rparr>)"
    using 1 topology by (simp add: recover_query_def execute_def sql)
  have "read_commands L rows2 ?st1 = Inr ?st2"
    unfolding cs(1) using read_commands_rows [OF laws, of cs ?st1] cs(3) by (simp add: empty_recovery_def)
  then have q2: "recover_query M (q\<lparr>dp_db := db1\<rparr>) commands_query (read_commands L) ?st1 = (Ok ?st2, q\<lparr>dp_db := db2\<rparr>)"
    using 2 by (simp add: recover_query_def execute_def sql)
  have q3: "recover_query M (q\<lparr>dp_db := db2\<rparr>) sequence_query read_sequence ?st2 =
      (Ok (?st2\<lparr>rs_next_command_sequence := n + 1\<rparr>), q\<lparr>dp_db := db3\<rparr>)"
    using 3 n(1) by (simp add: recover_query_def execute_def sql read_sequence_def column_def stoull_u64)
  have load: "\<exists>q1. loadRecoveryState L M q = (Ok (?st2\<lparr>rs_next_command_sequence := n + 1\<rparr>), q1)"
    using q(2,3) connect by (simp add: loadRecoveryState_def then_query_def q1 q2 q3)
  have stored: "\<forall>c \<in> set cs. stored_command L (cmds ?c) (status_of (fst c)) (snd (snd c))" using cs(3) by blast
  note rs = row_commands_stored [OF laws ids(1-3) cs(2) stored]
  show ?thesis using load rs [where b = True] rs [where b = False] next_seq
    by (intro exI [of _ "?st2\<lparr>rs_next_command_sequence := n + 1\<rparr>"]) (simp add: row_commands_def status_of_def)
qed

text \<open>The table of commands before and after the commands \<open>issued\<close> have been added to it.\<close>

definition commands_added :: "'j json_lib \<Rightarrow> command_table \<Rightarrow> dispatch_decision list \<Rightarrow> command_table \<Rightarrow> bool" where
  "commands_added L C issued C' \<longleftrightarrow> (\<forall>i. i \<notin> dd_command_id ` set issued \<longrightarrow> C' i = C i) \<and>
     (\<forall>d \<in> set issued. \<exists>t. jl_parse L t = Inr (persist_decisionToJson L d) \<and>
        C' (dd_command_id d) = Some (commandSequence (dd_command_id d), ''PENDING'', t))"

lemma stored_tables:
  assumes laws: "json_laws L" "dump_law L" "mysql_tx M committed work E"
      "writes_documented M E topo cmds s stored_at issued wall"
    and start: "work (dp_db p) = None" "dp_mysql_enabled p"
    and finite: "\<forall>r \<in> set (ts_routes s). \<forall>pt \<in> set (lr_points r). isfinite (pt_x pt) \<and> isfinite (pt_y pt) \<and> isfinite (pt_z pt)"
      "\<forall>d \<in> set issued. finite_decision d"
    and fresh: "distinct (map (\<lambda>d. commandSequence (dd_command_id d)) issued)"
      "\<forall>d \<in> set issued. \<forall>i n st t. cmds (committed (dp_db p)) i = Some (n, st, t) \<longrightarrow>
         n \<noteq> commandSequence (dd_command_id d) \<and> i \<noteq> dd_command_id d"
    and stored: "persistTopology L M R p s stored_at = (Ok (), p1)"
      "persistDispatchCycle L M R p1 trains rp issued revision now wall = (Ok (), p2)"
  shows "\<exists>payload. jl_parse L payload = Inr (topology_json L s) \<and>
    topo (committed (dp_db p2)) = (topo (committed (dp_db p)))(ts_revision s \<mapsto> payload) \<and>
    commands_added L (cmds (committed (dp_db p))) issued (cmds (committed (dp_db p2)))"
proof -
  let ?c0 = "committed (dp_db p)" and ?c1 = "committed (dp_db p1)" and ?c2 = "committed (dp_db p2)"
  obtain payload where payload: "jl_dump L (topology_json L s) = Inr payload" "E (topology_statement M s stored_at payload) ?c0 ?c1"
    "work (dp_db p1) = None" using persistTopology_stores [OF laws(3) start stored(1)] by blast
  have t1: "topo ?c1 = (topo ?c0)(ts_revision s \<mapsto> payload)" "cmds ?c1 = cmds ?c0"
    using laws(4) [unfolded writes_documented_def, THEN conjunct1, rule_format, of payload ?c0 ?c1] payload(2)
    by (simp_all add: topology_statement_def)
  have parsed: "jl_parse L payload = Inr (topology_json L s)"
    using laws(2) topology_built [OF finite(1)] payload(1) unfolding dump_law_def by blast
  have on: "dp_mysql_enabled p1" using persistTopology_keeps [OF stored(1)] start(2) by simp
  have "cycle_stored L M E p1 trains rp issued revision now wall ?c1 ?c2"
    using cycle_all [OF laws(3) payload(3) stored(2)] on by simp
  then obtain trains_text plan_text commands where cy:
    "list_all2 (\<lambda>d sql. \<exists>payload. jl_dump L (persist_decisionToJson L d) = Inr payload \<and>
          sql = command_statement M d wall payload) issued commands"
    "effects E (([''UPDATE dispatch_train_state SET is_active=0''] @
          (if trains = [] then [] else [trains_statement M trains]) @
          (if pg_telemetry_history_enabled (dp_config p1)
           then [telemetry_statement M trains now wall trains_text] else []) @
          [plan_statement M rp revision now wall plan_text]) @ commands) ?c1 ?c2"
    unfolding cycle_stored_def by auto
  then obtain u where u: "effects E ([''UPDATE dispatch_train_state SET is_active=0''] @
          (if trains = [] then [] else [trains_statement M trains]) @
          (if pg_telemetry_history_enabled (dp_config p1)
           then [telemetry_statement M trains now wall trains_text] else []) @
          [plan_statement M rp revision now wall plan_text]) ?c1 u" "effects E commands u ?c2"
    unfolding effects_append by blast
  have tu: "topo u = topo ?c1 \<and> cmds u = cmds ?c1"
    by (rule effects_other [OF laws(4) _ u(1)])
      (auto simp: trains_statement_def telemetry_statement_def plan_statement_def)
  have none: "\<forall>d \<in> set issued. \<forall>i q st t. cmds u i = Some (q, st, t) \<longrightarrow>
      q \<noteq> commandSequence (dd_command_id d) \<and> i \<noteq> dd_command_id d" using fresh(2) tu t1 by simp
  note ef = effects_commands [OF laws(4) order_refl cy(1) u(2) fresh(1) none]
  have "topo ?c2 = (topo ?c0)(ts_revision s \<mapsto> payload)"
    "\<And>i. i \<notin> dd_command_id ` set issued \<Longrightarrow> cmds ?c2 i = cmds ?c0 i"
    "\<And>d. d \<in> set issued \<Longrightarrow> \<exists>t. jl_parse L t = Inr (persist_decisionToJson L d) \<and>
       cmds ?c2 (dd_command_id d) = Some (commandSequence (dd_command_id d), ''PENDING'', t)"
    using ef tu t1 laws(2) decision_built finite(2) unfolding dump_law_def by (simp, simp, metis)
  then show ?thesis using parsed unfolding commands_added_def by (intro exI [of _ payload]) blast
qed

lemma added_commands:
  assumes "json_laws L" and added: "commands_added L C issued C'"
    and fresh: "\<forall>d \<in> set issued. \<forall>i n st t. C i = Some (n, st, t) \<longrightarrow>
      n \<noteq> commandSequence (dd_command_id d) \<and> i \<noteq> dd_command_id d"
  shows added_row: "C' i = Some (n, st, t) \<Longrightarrow> (\<exists>d \<in> set issued. i = dd_command_id d \<and> n = commandSequence i \<and>
      st = ''PENDING'' \<and> jl_parse L t = Inr (persist_decisionToJson L d)) \<or> C i = Some (n, st, t)"
    and added_keeps: "C i = Some r \<Longrightarrow> C' i = Some r"
    and added_pending: "stored_command L C' ''PENDING'' d \<longleftrightarrow> d \<in> set issued \<or> stored_command L C ''PENDING'' d"
    and added_active: "stored_command L C' ''ACCEPTED'' d \<longleftrightarrow> stored_command L C ''ACCEPTED'' d"
proof -
  note c2 = added [unfolded commands_added_def, THEN conjunct1, rule_format] added [unfolded commands_added_def, THEN conjunct2, rule_format]
  have old: "i \<notin> dd_command_id ` set issued" if "C i = Some r" for i r
  proof
    obtain n st t where r: "r = (n, st, t)" by (cases r)
    assume "i \<in> dd_command_id ` set issued"
    then obtain d where "d \<in> set issued" "i = dd_command_id d" by blast
    then show False using fresh that r by blast
  qed
  have row: "(\<exists>d \<in> set issued. i = dd_command_id d \<and> n = commandSequence i \<and> st = ''PENDING'' \<and>
      jl_parse L t = Inr (persist_decisionToJson L d)) \<or> C i = Some (n, st, t)"
    if "C' i = Some (n, st, t)" for i n st t
    using c2 that by (cases "i \<in> dd_command_id ` set issued") fastforce+
  have keep: "C' i = Some r" if "C i = Some r" for i r using c2(1) old [OF that] that by simp
  show "C' i = Some (n, st, t) \<Longrightarrow> (\<exists>d \<in> set issued. i = dd_command_id d \<and> n = commandSequence i \<and>
      st = ''PENDING'' \<and> jl_parse L t = Inr (persist_decisionToJson L d)) \<or> C i = Some (n, st, t)" by (rule row)
  show "C i = Some r \<Longrightarrow> C' i = Some r" by (rule keep)
  show "stored_command L C' ''PENDING'' d \<longleftrightarrow> d \<in> set issued \<or> stored_command L C ''PENDING'' d"
  proof
    assume "stored_command L C' ''PENDING'' d"
    then obtain t where t: "C' (dd_command_id d) = Some (commandSequence (dd_command_id d), ''PENDING'', t)"
      "jl_parse L t = Inr (persist_decisionToJson L d)" by (auto simp: stored_command_def)
    from row [OF t(1)] show "d \<in> set issued \<or> stored_command L C ''PENDING'' d"
    proof
      assume "\<exists>d' \<in> set issued. dd_command_id d = dd_command_id d' \<and> commandSequence (dd_command_id d) =
          commandSequence (dd_command_id d) \<and> ''PENDING'' = ''PENDING'' \<and> jl_parse L t = Inr (persist_decisionToJson L d')"
      then show ?thesis using t(2) json_decision_inj [OF assms(1)] by auto
    qed (use t(2) in \<open>auto simp: stored_command_def\<close>)
  next
    assume "d \<in> set issued \<or> stored_command L C ''PENDING'' d"
    then show "stored_command L C' ''PENDING'' d"
      using c2(2) keep unfolding stored_command_def by blast
  qed
  show "stored_command L C' ''ACCEPTED'' d \<longleftrightarrow> stored_command L C ''ACCEPTED'' d"
  proof
    assume "stored_command L C' ''ACCEPTED'' d"
    then obtain t where t: "C' (dd_command_id d) = Some (commandSequence (dd_command_id d), ''ACCEPTED'', t)"
      "jl_parse L t = Inr (persist_decisionToJson L d)" by (auto simp: stored_command_def)
    from row [OF t(1)] show "stored_command L C ''ACCEPTED'' d"
      using t(2) by (auto simp: stored_command_def)
  next
    assume "stored_command L C ''ACCEPTED'' d"
    then show "stored_command L C' ''ACCEPTED'' d" using keep unfolding stored_command_def by blast
  qed
qed


subsection \<open>A database and a library that satisfy the hypotheses\<close>

record demo_tables =
  tb_topology :: "(u64 \<times> string) list"
  tb_commands :: "(string \<times> u64 \<times> string \<times> string) list"

record sql_db =
  sd_committed :: demo_tables
  sd_work :: "demo_tables option"
  sd_rows :: "string option list list"

definition tb_topo :: "demo_tables \<Rightarrow> u64 \<Rightarrow> string option" where
  "tb_topo v = map_of (tb_topology v)"

definition tb_cmds :: "demo_tables \<Rightarrow> command_table" where
  "tb_cmds v = map_of (tb_commands v)"

definition sequence_in :: "demo_tables \<Rightarrow> string \<Rightarrow> u64" where
  "sequence_in v i = fst (the (tb_cmds v i))"

definition ids_in :: "demo_tables \<Rightarrow> string list" where
  "ids_in v = remdups (map fst (tb_commands v))"

definition unfinished_in :: "demo_tables \<Rightarrow> string list" where
  "unfinished_in v = sort_key (sequence_in v)
     (filter (\<lambda>i. fst (snd (the (tb_cmds v i))) \<in> {''PENDING'', ''ACCEPTED''}) (ids_in v))"

definition select_in :: "demo_tables \<Rightarrow> string \<Rightarrow> string option list list" where
  "select_in v sql =
     (if sql = select_topology then (if tb_topology v = [] then []
        else let rev = Max (fst ` set (tb_topology v)) in [[Some (string_of_u64 rev), tb_topo v rev]])
      else if sql = select_commands then map (\<lambda>i. [Some (fst (snd (the (tb_cmds v i)))), Some (snd (snd (the (tb_cmds v i))))])
        (unfinished_in v)
      else if sql = select_sequence then [[Some (string_of_u64 (Max (insert 0 (sequence_in v ` set (ids_in v)))))]]
      else [])"

definition demo_topology :: line_topology_snapshot where
  "demo_topology = \<lparr>ts_revision = 7, ts_algorithm_version = 1, ts_algorithm_fingerprint = ''f'',
     ts_routes = [demo_east], ts_analysis = empty_analysis\<rparr>"

definition demo_accepted :: dispatch_decision where
  "demo_accepted = default_decision\<lparr>dd_command_id := command_text 3, dd_train_id := ''T3''\<rparr>"

definition demo_issued :: dispatch_decision where
  "demo_issued = default_decision\<lparr>dd_command_id := command_text 5, dd_train_id := ''T5''\<rparr>"

text \<open>The part of an insert before and after the payload; what stands in between is stored.\<close>

definition payload_between :: "string \<Rightarrow> string \<Rightarrow> string \<Rightarrow> string option" where
  "payload_between a b sql = (if prefix a sql \<and> length a + length b \<le> length sql \<and> drop (length sql - length b) sql = b
     then Some (drop (length a) (take (length sql - length b) sql)) else None)"

lemma payload_between_insert: "payload_between a b (a @ x @ b) = Some x"
  by (simp add: payload_between_def)

lemma payload_between_prefix: "\<not> prefix a sql \<Longrightarrow> payload_between a b sql = None"
  by (simp add: payload_between_def)

definition topology_head :: string where
  "topology_head = ''INSERT INTO dispatch_topology_snapshots (revision,received_at_wall_ms,route_count,corridor_count,'' @
     ''intersection_count,payload_json) VALUES ('' @ string_of_u64 7 @ '','' @ string_of_u64 2 @ '','' @ nat_digits 1 @
     '','' @ nat_digits 0 @ '','' @ nat_digits 0 @ '' ,'' @ sq"

definition topology_tail :: string where
  "topology_tail = sq @ '') ON DUPLICATE KEY UPDATE received_at_wall_ms=VALUES(received_at_wall_ms),'' @
     ''route_count=VALUES(route_count),corridor_count=VALUES(corridor_count),'' @
     ''intersection_count=VALUES(intersection_count),payload_json=VALUES(payload_json)''"

definition command_head :: string where
  "command_head = ''INSERT INTO dispatch_commands (command_id,command_sequence,train_id,corridor_resource_id,action,status,'' @
     ''topology_revision,issued_at_simulation_ms,issued_at_wall_ms,payload_json) VALUES ('' @
     sq @ command_text 5 @ sq @ '','' @ string_of_u64 5 @ '','' @ sq @ ''T5'' @ sq @ '','' @ sq @ sq @ '','' @
     sq @ actionName (dd_action demo_issued) @ sq @ '','' @ sq @ ''PENDING'' @ sq @ '','' @ string_of_u64 0 @ '','' @
     string_of_u64 0 @ '','' @ string_of_u64 2 @ '','' @ sq"

definition command_tail :: string where
  "command_tail = sq @ '') ON DUPLICATE KEY UPDATE payload_json=VALUES(payload_json),updated_at=CURRENT_TIMESTAMP(6)''"

definition tables_after :: "string \<Rightarrow> demo_tables \<Rightarrow> demo_tables" where
  "tables_after sql v = (case payload_between topology_head topology_tail sql of
       Some payload \<Rightarrow> v\<lparr>tb_topology := (7, payload) # tb_topology v\<rparr>
     | None \<Rightarrow> (case payload_between command_head command_tail sql of
         Some payload \<Rightarrow> v\<lparr>tb_commands := (command_text 5, 5, ''PENDING'', payload) # tb_commands v\<rparr>
       | None \<Rightarrow> v))"

definition sql_query :: "sql_db \<Rightarrow> string \<Rightarrow> string option \<times> sql_db" where
  "sql_query db sql =
     (if sql = ''START TRANSACTION'' then (None, db\<lparr>sd_work := Some (sd_committed db)\<rparr>)
      else if sql = ''ROLLBACK'' then (None, db\<lparr>sd_work := None\<rparr>)
      else if sql = ''COMMIT'' then (None, case sd_work db of None \<Rightarrow> db | Some v \<Rightarrow> db\<lparr>sd_committed := v, sd_work := None\<rparr>)
      else if is_dml sql then (None, case sd_work db of
          None \<Rightarrow> db\<lparr>sd_committed := tables_after sql (sd_committed db)\<rparr>
        | Some v \<Rightarrow> db\<lparr>sd_work := Some (tables_after sql v)\<rparr>)
      else (None, db\<lparr>sd_rows := select_in (sd_committed db) sql\<rparr>))"

definition sql_mysql :: "sql_db mysql" where
  "sql_mysql = \<lparr>my_connect = (\<lambda>_. True), my_query = sql_query, my_rows = (\<lambda>db. Some (sd_rows db)),
     my_error = (\<lambda>_. []), my_escape = (\<lambda>s. s)\<rparr>"

lemma sql_tx: "mysql_tx sql_mysql sd_committed sd_work (\<lambda>sql v v'. v' = tables_after sql v)"
proof -
  have "\<not> is_dml ''START TRANSACTION''" "\<not> is_dml ''ROLLBACK''" "\<not> is_dml ''COMMIT''"
    by (simp_all add: is_dml_def)
  then show ?thesis
    unfolding mysql_tx_def by (intro conjI) (auto simp: sql_mysql_def sql_query_def split: if_splits option.splits)
qed

lemma sql_writes: "writes_documented sql_mysql (\<lambda>sql v v'. v' = tables_after sql v) tb_topo tb_cmds demo_topology 2 [demo_issued] 2"
proof -
  have esc: "quoted sql_mysql x = sq @ x @ sq" for x by (simp add: quoted_def sql_mysql_def)
  have seq: "commandSequence (command_text 5) = 5" using stored_command_is_recovered [OF demo_json_laws] by blast
  have ids: "dd_command_id demo_issued = command_text 5" by (simp add: demo_issued_def)
  have other: "\<not> prefix command_head (topology_head @ x)" "\<not> prefix topology_head (command_head @ x)" for x
    by (simp_all add: command_head_def topology_head_def)
  have topology: "tables_after (topology_head @ x @ topology_tail) v = v\<lparr>tb_topology := (7, x) # tb_topology v\<rparr>" for x v
    by (simp add: tables_after_def payload_between_insert)
  have command: "tables_after (command_head @ x @ command_tail) v =
      v\<lparr>tb_commands := (command_text 5, 5, ''PENDING'', x) # tb_commands v\<rparr>" for x v
    by (simp add: tables_after_def payload_between_insert payload_between_prefix other)
  have rest: "tables_after sql v = v" if "prefix ''UPDATE dispatch_train_state '' sql \<or> prefix ''INSERT INTO dispatch_train_state '' sql \<or>
        prefix ''INSERT INTO dispatch_telemetry_batches '' sql \<or> prefix ''INSERT INTO dispatch_rolling_plans '' sql" for sql v
  proof -
    have "\<not> prefix topology_head sql" "\<not> prefix command_head sql"
      using that by (auto simp: topology_head_def command_head_def prefix_def)
    then show ?thesis by (simp add: tables_after_def payload_between_prefix)
  qed
  show ?thesis unfolding writes_documented_def
  proof (intro conjI ballI allI impI)
    fix payload v v' assume *: "v' = tables_after (''INSERT INTO dispatch_topology_snapshots (revision,received_at_wall_ms,route_count,corridor_count,'' @
          ''intersection_count,payload_json) VALUES ('' @ string_of_u64 (ts_revision demo_topology) @ '','' @
          string_of_u64 2 @ '','' @ nat_digits (length (ts_routes demo_topology)) @ '','' @
          nat_digits (length (la_shared_corridors (ts_analysis demo_topology))) @ '','' @
          nat_digits (length (la_intersections (ts_analysis demo_topology))) @ '' ,'' @ quoted sql_mysql payload @
          '') ON DUPLICATE KEY UPDATE received_at_wall_ms=VALUES(received_at_wall_ms),'' @
          ''route_count=VALUES(route_count),corridor_count=VALUES(corridor_count),'' @
          ''intersection_count=VALUES(intersection_count),payload_json=VALUES(payload_json)'') v"
    have "v' = tables_after (topology_head @ payload @ topology_tail) v"
      unfolding * by (simp add: esc topology_head_def topology_tail_def demo_topology_def empty_analysis_def)
    then show "tb_topo v' = (tb_topo v)(ts_revision demo_topology \<mapsto> payload)" "tb_cmds v' = tb_cmds v"
      unfolding topology by (simp_all add: tb_topo_def tb_cmds_def demo_topology_def)
  next
    fix d payload v v' assume d: "d \<in> set [demo_issued]" and *: "v' = tables_after (''INSERT INTO dispatch_commands (command_id,command_sequence,train_id,corridor_resource_id,action,status,'' @
          ''topology_revision,issued_at_simulation_ms,issued_at_wall_ms,payload_json) VALUES ('' @
          quoted sql_mysql (dd_command_id d) @ '','' @ string_of_u64 (commandSequence (dd_command_id d)) @ '','' @
          quoted sql_mysql (dd_train_id d) @ '','' @ quoted sql_mysql (dd_corridor_resource_id d) @ '','' @
          sq @ actionName (dd_action d) @ sq @ '','' @ sq @ ''PENDING'' @ sq @ '','' @
          string_of_u64 (dd_topology_revision d) @ '','' @ string_of_u64 (dd_issued_at_simulation_ms d) @ '','' @
          string_of_u64 2 @ '','' @ quoted sql_mysql payload @ '') ON DUPLICATE KEY UPDATE '' @
          ''payload_json=VALUES(payload_json),updated_at=CURRENT_TIMESTAMP(6)'') v"
    have "v' = tables_after (command_head @ payload @ command_tail) v"
      using d unfolding * by (simp add: esc command_head_def command_tail_def demo_issued_def default_decision_def seq)
    then show "tb_topo v' = tb_topo v" "tb_cmds v' = (tb_cmds v)(dd_command_id d \<mapsto> (commandSequence (dd_command_id d), ''PENDING'', payload))"
      using d unfolding command by (simp_all add: tb_topo_def tb_cmds_def ids seq)
  qed (use rest in simp_all)
qed

lemma ids_in_rows: "set (ids_in v) = {i. tb_cmds v i \<noteq> None}" "distinct (ids_in v)"
  by (auto simp: ids_in_def tb_cmds_def map_of_eq_None_iff)

lemma newest_row:
  assumes "tb_topology v \<noteq> []"
  shows "\<exists>t. tb_topo v (Max (fst ` set (tb_topology v))) = Some t \<and>
    (\<forall>r. tb_topo v r \<noteq> None \<longrightarrow> r \<le> Max (fst ` set (tb_topology v)))"
proof -
  have "Max (fst ` set (tb_topology v)) \<in> fst ` set (tb_topology v)" by (rule Max_in) (use assms in auto)
  then have "tb_topo v (Max (fst ` set (tb_topology v))) \<noteq> None" by (simp add: tb_topo_def map_of_eq_None_iff)
  moreover have "r \<le> Max (fst ` set (tb_topology v))" if "tb_topo v r \<noteq> None" for r
    by (rule Max_ge) (use that in \<open>auto simp: tb_topo_def map_of_eq_None_iff\<close>)
  ultimately show ?thesis by blast
qed

lemma greatest_sequence:
  fixes v :: demo_tables
  defines "n \<equiv> Max (insert 0 (sequence_in v ` set (ids_in v)))"
  shows "(\<forall>i q st t. tb_cmds v i = Some (q, st, t) \<longrightarrow> q \<le> n) \<and>
    (n = 0 \<or> (\<exists>i st t. tb_cmds v i = Some (n, st, t)))"
proof (intro conjI allI impI)
  fix i q st t assume "tb_cmds v i = Some (q, st, t)"
  then have "q \<in> sequence_in v ` set (ids_in v)" by (force simp: ids_in_rows sequence_in_def)
  then show "q \<le> n" unfolding n_def by (intro Max_ge) auto
next
  have "n \<in> insert 0 (sequence_in v ` set (ids_in v))" unfolding n_def by (rule Max_in) auto
  then show "n = 0 \<or> (\<exists>i st t. tb_cmds v i = Some (n, st, t))" by (auto simp: ids_in_rows sequence_in_def)
qed

lemma unfinished_rows:
  "distinct (unfinished_in v)" "sorted (map (sequence_in v) (unfinished_in v))"
  "set (unfinished_in v) = {i. \<exists>q st t. tb_cmds v i = Some (q, st, t) \<and> (st = ''PENDING'' \<or> st = ''ACCEPTED'')}"
  by (auto simp: unfinished_in_def ids_in_rows)

lemma selects_differ: "select_topology \<noteq> select_commands" "select_topology \<noteq> select_sequence" "select_commands \<noteq> select_sequence"
  by (simp_all add: select_topology_def select_commands_def select_sequence_def)

lemma sql_select:
  assumes "sql \<in> {select_topology, select_commands, select_sequence}" "my_query sql_mysql db sql = (e, db')"
  shows "e = None \<and> my_rows sql_mysql db' = Some (select_in (sd_committed db) sql) \<and>
    sd_committed db' = sd_committed db \<and> sd_work db' = sd_work db"
proof -
  have "\<not> is_dml sql" "sql \<noteq> ''START TRANSACTION''" "sql \<noteq> ''ROLLBACK''" "sql \<noteq> ''COMMIT''"
    using assms(1) by (elim insertE emptyE; simp add: select_topology_def select_commands_def select_sequence_def is_dml_def)+
  then have "sql_query db sql = (None, db\<lparr>sd_rows := select_in (sd_committed db) sql\<rparr>)"
    by (simp add: sql_query_def)
  then show ?thesis using assms(2) by (auto simp: sql_mysql_def)
qed

lemma sql_reads: "reads_documented sql_mysql L sd_committed sd_work tb_topo tb_cmds"
proof -
  have sel: "my_connect sql_mysql db" for db by (simp add: sql_mysql_def)
  show ?thesis unfolding reads_documented_def
  proof (intro conjI allI impI)
    fix db :: sql_db assume "sd_work db = None"
    then show "\<forall>sql \<in> {select_topology, select_commands, select_sequence}. \<exists>db' rows. my_query sql_mysql db sql = (None, db') \<and>
       my_rows sql_mysql db' = Some rows \<and> sd_committed db' = sd_committed db \<and> sd_work db' = None"
      using sql_select by (metis surj_pair)
  next
    fix db db' rows assume q: "my_query sql_mysql db select_topology = (None, db')" "my_rows sql_mysql db' = Some rows"
    have rows: "rows = select_in (sd_committed db) select_topology" using sql_select [OF _ q(1)] q(2) by simp
    show "(\<forall>rev. tb_topo (sd_committed db) rev = None) \<and> rows = [] \<or>
        (\<exists>rev t t'. tb_topo (sd_committed db) rev = Some t \<and> (\<forall>r. tb_topo (sd_committed db) r \<noteq> None \<longrightarrow> r \<le> rev) \<and>
           jl_parse L t' = jl_parse L t \<and> rows = [[Some (string_of_u64 rev), Some t']])"
    proof (cases "tb_topology (sd_committed db) = []")
      case False
      then show ?thesis using newest_row [OF False] rows by (auto simp: select_in_def Let_def)
    qed (simp add: rows select_in_def tb_topo_def)
  next
    fix db db' rows assume q: "my_query sql_mysql db select_commands = (None, db')" "my_rows sql_mysql db' = Some rows"
    let ?v = "sd_committed db"
    have rows: "rows = map (\<lambda>i. [Some (fst (snd (the (tb_cmds ?v i)))), Some (snd (snd (the (tb_cmds ?v i))))]) (unfinished_in ?v)"
      using sql_select [OF _ q(1)] q(2) by (simp add: select_in_def selects_differ [symmetric])
    have "list_all2 (\<lambda>i row. \<exists>q st t t'. tb_cmds ?v i = Some (q, st, t) \<and>
             jl_parse L t' = jl_parse L t \<and> row = [Some st, Some t']) (unfinished_in ?v) rows"
      unfolding rows list.rel_map by (rule list.rel_refl_strong) (auto simp: unfinished_rows(3))
    then show "\<exists>ids. distinct ids \<and> set ids = {i. \<exists>q st t. tb_cmds ?v i = Some (q, st, t) \<and>
             (st = ''PENDING'' \<or> st = ''ACCEPTED'')} \<and>
           sorted (map (\<lambda>i. fst (the (tb_cmds ?v i))) ids) \<and>
           list_all2 (\<lambda>i row. \<exists>q st t t'. tb_cmds ?v i = Some (q, st, t) \<and>
             jl_parse L t' = jl_parse L t \<and> row = [Some st, Some t']) ids rows"
      using unfinished_rows [of ?v] by (intro exI [of _ "unfinished_in ?v"]) (simp add: sequence_in_def [abs_def])
  next
    fix db db' rows assume q: "my_query sql_mysql db select_sequence = (None, db')" "my_rows sql_mysql db' = Some rows"
    have "rows = select_in (sd_committed db) select_sequence" using sql_select [OF _ q(1)] q(2) by simp
    then show "\<exists>n. rows = [[Some (string_of_u64 n)]] \<and> (\<forall>i q st t. tb_cmds (sd_committed db) i = Some (q, st, t) \<longrightarrow> q \<le> n) \<and>
           (n = 0 \<or> (\<exists>i st t. tb_cmds (sd_committed db) i = Some (n, st, t)))"
      using greatest_sequence [of "sd_committed db"]
      by (intro exI [of _ "Max (insert 0 (sequence_in (sd_committed db) ` set (ids_in (sd_committed db))))"])
        (simp add: select_in_def selects_differ [symmetric])
  qed (rule sel)
qed

lemma sql_dml:
  assumes "is_dml sql"
  shows "sql_query db sql = (None, case sd_work db of
      None \<Rightarrow> db\<lparr>sd_committed := tables_after sql (sd_committed db)\<rparr>
    | Some v \<Rightarrow> db\<lparr>sd_work := Some (tables_after sql v)\<rparr>)"
proof -
  have "sql \<noteq> ''START TRANSACTION''" "sql \<noteq> ''ROLLBACK''" "sql \<noteq> ''COMMIT''"
    using assms by (auto simp: is_dml_def)
  then show ?thesis using assms by (simp add: sql_query_def)
qed

lemma sql_control: "sql_query db ''START TRANSACTION'' = (None, db\<lparr>sd_work := Some (sd_committed db)\<rparr>)"
  "sql_query db ''COMMIT'' = (None, case sd_work db of None \<Rightarrow> db | Some v \<Rightarrow> db\<lparr>sd_committed := v, sd_work := None\<rparr>)"
  by (simp_all add: sql_query_def)

text \<open>The JSON library of the example dumps the values the example stores.\<close>

definition demo_texts :: "(string \<times> json_value) list" where
  "demo_texts = [(''topology'', topology_json demo_json demo_topology), (''accepted'', persist_decisionToJson demo_json demo_accepted),
     (''issued'', persist_decisionToJson demo_json demo_issued), (''plan'', rollingPlanToJson demo_json empty_plan),
     (''trains'', JObject [(''simulation_time_ms'', JU64 1), (''received_at_wall_ms'', JU64 2), (''trains'', JArray [])])]"

definition store_json :: "json_value json_lib" where
  "store_json = demo_json\<lparr>jl_dump := (\<lambda>j. case find (\<lambda>(t, v). v = j) demo_texts of Some (t, _) \<Rightarrow> Inr t | None \<Rightarrow> Inl ''not dumped''),
     jl_parse := (\<lambda>s. case map_of demo_texts s of Some j \<Rightarrow> Inr j | None \<Rightarrow> Inl ''syntax error'')\<rparr>"

lemma store_json_laws: "json_laws store_json" "dump_law store_json"
proof -
  show "json_laws store_json" by (simp add: json_laws_def store_json_def demo_json_def map_res_map)
  have "distinct (map fst demo_texts)" by (simp add: demo_texts_def)
  then have "map_of demo_texts t = Some j" if found: "find (\<lambda>(t, v). v = j) demo_texts = Some (t, j')" for j t j'
  proof -
    obtain i where i: "i < length demo_texts" "demo_texts ! i = (t, j)"
      using found by (auto simp: find_Some_iff)
    then have "(t, j) \<in> set demo_texts" by (metis nth_mem)
    with \<open>distinct (map fst demo_texts)\<close> show ?thesis by simp
  qed
  then show "dump_law store_json" by (auto simp: dump_law_def store_json_def split: option.splits)
qed

definition demo_restart :: "sql_db \<Rightarrow> sql_db persistence" where
  "demo_restart db = (new_persistence db)\<lparr>dp_pool := True, dp_mysql_enabled := True,
     dp_config := default_persistence_config\<lparr>pg_command_recovery_enabled := True\<rparr>\<rparr>"


end
