(* ===== verification/Api.thy ===== *)
theory Api
  imports Codec
begin

text \<open>
  \<open>HttpConn.cpp\<close>, the application half: the routing of requests and every handler, over the state
  of the process (the dispatch service, the vehicle manager and the log of operations on the response
  cache). What a request meets outside the process is its environment: the JSON library, the answer of
  the database calls, the clock, what the cache holds, the file system. A handler answers, lets an
  exception escape, or does not take the request.
\<close>

datatype cache_op = CacheSet string string | CacheRemove "string list"

record server =
  sr_service :: railway_service
  sr_vehicles :: vehicle_manager
  sr_cache :: "cache_op list"

record redis_cache_stats =
  rcs_hits :: u64
  rcs_misses :: u64
  rcs_writes :: u64
  rcs_errors :: u64
  rcs_bypasses :: u64

record 'j environment =
  en_json :: "'j json_lib"
  en_acos :: "double \<Rightarrow> double"
  en_db :: db_answer
  en_storage :: dispatch_persistence_stats
  en_wall :: u64
  en_cached :: "string \<Rightarrow> string option"
  en_cache_stats :: redis_cache_stats
  en_redis_compiled :: bool
  en_redis_enabled :: bool
  en_files :: file_system

datatype api_outcome = NotMine | Answered http_response server | Escaped string server | Broken

definition kVehiclesCache :: string where "kVehiclesCache = ''http:vehicles''"
definition kTrainsCache :: string where "kTrainsCache = ''http:trains''"
definition kTopologyCache :: string where "kTopologyCache = ''http:topology''"
definition kCommandsCache :: string where "kCommandsCache = ''http:commands''"
definition kPlansCache :: string where "kPlansCache = ''http:plans''"

subsection \<open>Answering\<close>

definition invalidateRedisCaches :: "string list \<Rightarrow> server \<Rightarrow> server" where
  "invalidateRedisCaches keys sv = sv\<lparr>sr_cache := sr_cache sv @ [CacheRemove keys]\<rparr>"

definition cacheJsonResponse :: "string \<Rightarrow> string \<Rightarrow> server \<Rightarrow> server" where
  "cacheJsonResponse key body sv = sv\<lparr>sr_cache := sr_cache sv @ [CacheSet key body]\<rparr>"

text \<open>Reading from the request: an exception leaves the handler with the state as it is.\<close>

definition reading :: "server \<Rightarrow> 'a res \<Rightarrow> ('a \<Rightarrow> api_outcome) \<Rightarrow> api_outcome" where
  "reading sv r f = (case r of Inl e \<Rightarrow> Escaped e sv | Inr x \<Rightarrow> f x)"

definition respond :: "'j environment \<Rightarrow> http_conn \<Rightarrow> nat \<Rightarrow> string \<Rightarrow> 'j \<Rightarrow> server \<Rightarrow> api_outcome" where
  "respond E c code status j sv =
     reading sv (jl_dump (en_json E) j) (\<lambda>body. Answered (buildJsonResponse c code status body) sv)"

definition respond_text :: "http_conn \<Rightarrow> nat \<Rightarrow> string \<Rightarrow> string \<Rightarrow> server \<Rightarrow> api_outcome" where
  "respond_text c code status body sv = Answered (buildJsonResponse c code status body) sv"

definition failure_json :: "'j json_lib \<Rightarrow> string \<Rightarrow> 'j" where
  "failure_json L msg = jl_object L [(''ok'', jl_bool L False), (''error'', jl_string L msg)]"

text \<open>\<open>catch (const std::exception& e)\<close>: a 400 with the text of the exception. Serialising that text
  is outside the try block.\<close>

definition catching :: "'j environment \<Rightarrow> http_conn \<Rightarrow> api_outcome \<Rightarrow> api_outcome" where
  "catching E c r = (case r of
       Escaped what sv \<Rightarrow> respond E c 400 ''Bad Request'' (failure_json (en_json E) what) sv
     | _ \<Rightarrow> r)"

text \<open>The request body with an array under a key: \<open>routes\<close>, \<open>trains\<close>, \<open>vehicles\<close>.\<close>

definition read_array :: "'j json_lib \<Rightarrow> 'j \<Rightarrow> string \<Rightarrow> string \<Rightarrow> 'j list res" where
  "read_array L req key msg =
     res_bind (require (jl_is_object L req \<and> hasKey L req key) msg) (\<lambda>_.
     res_bind (j_at L req key) (\<lambda>v. res_bind (require (jl_is_array L v) msg) (\<lambda>_. Inr (jl_elements L v))))"

definition j_bool_ok :: "'j json_lib \<Rightarrow> 'j" where
  "j_bool_ok L = jl_object L [(''ok'', jl_bool L True)]"

subsection \<open>The game's requests\<close>

definition read_routes :: "'j json_lib \<Rightarrow> string \<Rightarrow> line_route list res" where
  "read_routes L body =
     res_bind (jl_parse L body) (\<lambda>req.
     res_bind (read_array L req ''routes'' ''routes must be an array'') (\<lambda>items.
     res_bind (require (length items \<le> 4096) ''too many routes'') (\<lambda>_.
     map_res (parseLineRoute L) items)))"

definition upload_json :: "'j json_lib \<Rightarrow> route_upload_result \<Rightarrow> 'j" where
  "upload_json L u = jl_object L
     [(''ok'', jl_bool L (ru_persistence_ok u)), (''route_count'', jl_u64 L (of_nat (ru_route_count u))),
      (''corridor_count'', jl_u64 L (of_nat (ru_corridor_count u))),
      (''intersection_count'', jl_u64 L (of_nat (ru_intersection_count u))),
      (''persistence_ok'', jl_bool L (ru_persistence_ok u)),
      (''persistence_error'', jl_string L (ru_persistence_error u))]"

definition handleLineRouteSnapshot :: "'j environment \<Rightarrow> http_conn \<Rightarrow> server \<Rightarrow> api_outcome" where
  "handleLineRouteSnapshot E c sv = catching E c (let L = en_json E in
     reading sv (read_routes L (hc_body c)) (\<lambda>routes.
     case service_replaceRoutes (en_acos E) (en_db E) (sr_service sv) routes (en_wall E) of
       Undefined \<Rightarrow> Broken
     | Thrown e s \<Rightarrow> Escaped e (sv\<lparr>sr_service := s\<rparr>)
     | Done (Inl reason) s \<Rightarrow>
         Escaped (if reason = [] then ''route topology rejected'' else reason) (sv\<lparr>sr_service := s\<rparr>)
     | Done (Inr u) s \<Rightarrow>
         respond E c (if ru_persistence_ok u then 200 else 503)
           (if ru_persistence_ok u then ''OK'' else ''Service Unavailable'') (upload_json L u)
           (invalidateRedisCaches [kTopologyCache, kTrainsCache, kCommandsCache, kPlansCache]
             (sv\<lparr>sr_service := s\<rparr>))))"

definition read_trains :: "'j json_lib \<Rightarrow> string \<Rightarrow> u64 \<Rightarrow> (u64 \<times> train_telemetry list) res" where
  "read_trains L body wall =
     res_bind (jl_parse L body) (\<lambda>req.
     res_bind (read_array L req ''trains'' ''trains must be an array'') (\<lambda>items.
     res_bind (require (length items \<le> 65535) ''too many trains'') (\<lambda>_.
     res_bind (getRequiredUint64 L req ''simulation_time_ms'') (\<lambda>now.
     res_bind (map_res (\<lambda>item. parseTrainTelemetry L item now wall) items) (\<lambda>trains.
     Inr (now, trains))))))"

definition batch_json :: "'j json_lib \<Rightarrow> train_batch_update_result \<Rightarrow> nat \<Rightarrow> 'j" where
  "batch_json L r monitored = jl_object L
     [(''ok'', jl_bool L (br_persistence_ok r)), (''accepted'', jl_u64 L (br_accepted r)),
      (''ignored_out_of_order'', jl_u64 L (br_ignored_out_of_order r)),
      (''invalid'', jl_u64 L (br_invalid r)), (''issued_commands'', jl_u64 L (br_issued_commands r)),
      (''persistence_ok'', jl_bool L (br_persistence_ok r)),
      (''persistence_error'', jl_string L (br_persistence_error r)),
      (''monitored_train_count'', jl_u64 L (of_nat monitored))]"

definition handleTrainSnapshot :: "'j environment \<Rightarrow> http_conn \<Rightarrow> server \<Rightarrow> api_outcome" where
  "handleTrainSnapshot E c sv = catching E c (let L = en_json E in
     reading sv (read_trains L (hc_body c) (en_wall E)) (\<lambda>(now, trains).
     case updateTrains (en_db E) (sr_service sv) trains now (en_wall E) of
       Undefined \<Rightarrow> Broken
     | Thrown e s \<Rightarrow> Escaped e (sv\<lparr>sr_service := s\<rparr>)
     | Done r s \<Rightarrow>
         respond E c (if br_persistence_ok r then 200 else 503)
           (if br_persistence_ok r then ''OK'' else ''Service Unavailable'')
           (batch_json L r (length (service_trains s)))
           (invalidateRedisCaches [kTrainsCache, kCommandsCache, kPlansCache] (sv\<lparr>sr_service := s\<rparr>))))"

definition handleDispatchCommandQuery :: "'j environment \<Rightarrow> http_conn \<Rightarrow> server \<Rightarrow> api_outcome" where
  "handleDispatchCommandQuery E c sv = catching E c (let L = en_json E;
       sv1 = sv\<lparr>sr_service := runMaintenance (sr_service sv) (en_wall E)\<rparr> in
     reading sv1 (if hc_body c = [] then Inr (jl_object L []) else jl_parse L (hc_body c)) (\<lambda>req.
     reading sv1 (if hasKey L req ''train_id''
       then res_bind (res_bind (j_at L req ''train_id'') (jl_get_string L)) (\<lambda>t. Inr (Some t)) else Inr None) (\<lambda>train_id.
     let commands = pendingCommands (sr_service sv1) train_id in
     respond E c 200 ''OK'' (jl_object L
       [(''ok'', jl_bool L True), (''commands'', jl_array L (map (decisionToJson L) commands)),
        (''command_count'', jl_u64 L (of_nat (length commands)))]) sv1)))"

text \<open>What an acknowledgement says: train, resource, accepted, command id and time.\<close>

definition read_ack :: "'j json_lib \<Rightarrow> string \<Rightarrow> (string \<times> string \<times> bool \<times> string \<times> u64) res" where
  "read_ack L body =
     res_bind (jl_parse L body) (\<lambda>req.
     res_bind (getRequiredString L req [''train_id'']) (\<lambda>train_id.
     res_bind (getRequiredString L req [''corridor_resource_id'']) (\<lambda>resource_id.
     res_bind (require (hasKey L req ''accepted'') ''missing required field: accepted'') (\<lambda>_.
     res_bind (res_bind (j_at L req ''accepted'') (jl_get_bool L)) (\<lambda>accepted.
     res_bind (getOptionalString L req ''command_id'' []) (\<lambda>command_id.
     res_bind (getRequiredUint64 L req ''simulation_time_ms'') (\<lambda>now.
     Inr (train_id, resource_id, accepted, command_id, now))))))))"

definition handleDispatchCommandAck :: "'j environment \<Rightarrow> http_conn \<Rightarrow> server \<Rightarrow> api_outcome" where
  "handleDispatchCommandAck E c sv = catching E c (let L = en_json E in
     reading sv (read_ack L (hc_body c)) (\<lambda>(train_id, resource_id, accepted, command_id, now).
     case acknowledge (en_db E) (sr_service sv) resource_id train_id accepted now command_id of (done, s) \<Rightarrow>
     let sv1 = sv\<lparr>sr_service := s\<rparr> in
     if \<not> done then respond E c 409 ''Conflict''
       (failure_json L ''command not pending or ACK mismatch'') sv1
     else respond E c 200 ''OK'' (j_bool_ok L)
       (invalidateRedisCaches [kTrainsCache, kCommandsCache, kPlansCache] sv1)))"

definition read_cleared :: "'j json_lib \<Rightarrow> string \<Rightarrow> (string \<times> string \<times> string list \<times> u64) res" where
  "read_cleared L body =
     res_bind (jl_parse L body) (\<lambda>req.
     res_bind (getRequiredString L req [''train_id'']) (\<lambda>train_id.
     res_bind (getOptionalString L req ''corridor_resource_id'' []) (\<lambda>resource_id.
     res_bind (getRequiredUint64 L req ''simulation_time_ms'') (\<lambda>now.
     res_bind (if \<not> hasKey L req ''intersection_ids'' then Inr [] else
       res_bind (j_at L req ''intersection_ids'') (\<lambda>v.
       res_bind (require (jl_is_array L v) ''intersection_ids must be an array'') (\<lambda>_. jl_get_strings L v))) (\<lambda>ids.
     Inr (train_id, resource_id, ids, now))))))"

definition handleDispatchResourceCleared :: "'j environment \<Rightarrow> http_conn \<Rightarrow> server \<Rightarrow> api_outcome" where
  "handleDispatchResourceCleared E c sv = catching E c (let L = en_json E in
     reading sv (read_cleared L (hc_body c)) (\<lambda>(train_id, resource_id, ids, now).
     case service_markCleared (en_db E) (sr_service sv) train_id resource_id ids now of (done, s) \<Rightarrow>
     let sv1 = sv\<lparr>sr_service := s\<rparr> in
     if \<not> done then respond E c 404 ''Not Found'' (failure_json L ''no matching occupied resource'') sv1
     else respond E c 200 ''OK'' (j_bool_ok L)
       (invalidateRedisCaches [kTrainsCache, kCommandsCache, kPlansCache] sv1)))"

subsection \<open>Vehicles\<close>

definition read_bounds :: "'j json_lib \<Rightarrow> 'j \<Rightarrow> game_map_bounds res" where
  "read_bounds L req = (if \<not> hasKey L req ''map'' then Inr default_bounds else
     res_bind (j_at L req ''map'') (\<lambda>m.
     res_bind (require (jl_is_object L m) ''map must be an object'') (\<lambda>_.
     res_bind (getRequiredNumber L m [''min_x'']) (\<lambda>min_x.
     res_bind (getRequiredNumber L m [''max_x'']) (\<lambda>max_x.
     res_bind (getRequiredNumber L m [''min_z'']) (\<lambda>min_z.
     res_bind (getRequiredNumber L m [''max_z'']) (\<lambda>max_z.
     res_bind (require (\<not> (max_x \<le> min_x \<or> max_z \<le> min_z)) ''invalid map bounds'') (\<lambda>_.
     Inr \<lparr>mb_min_x = min_x, mb_max_x = max_x, mb_min_z = min_z, mb_max_z = max_z\<rparr>))))))))"

definition read_vehicles :: "'j json_lib \<Rightarrow> string \<Rightarrow> vehicle_snapshot res" where
  "read_vehicles L body =
     res_bind (jl_parse L body) (\<lambda>req.
     res_bind (require (jl_is_object L req) ''snapshot must be an object'') (\<lambda>_.
     res_bind (read_array L req ''vehicles'' ''vehicles must be an array'') (\<lambda>items.
     res_bind (if hasKey L req ''timestamp'' then res_bind (j_at L req ''timestamp'') (jl_get_u64 L) else Inr 0) (\<lambda>timestamp.
     res_bind (read_bounds L req) (\<lambda>bounds.
     res_bind (require (length items \<le> 65535) ''too many vehicles'') (\<lambda>_.
     res_bind (map_res (parseVehicleState L) items) (\<lambda>vehicles.
     Inr \<lparr>vs_timestamp = timestamp, vs_map = bounds, vs_vehicles = vehicles\<rparr>)))))))"

definition handleGameVehicleSnapshot :: "'j environment \<Rightarrow> http_conn \<Rightarrow> server \<Rightarrow> api_outcome" where
  "handleGameVehicleSnapshot E c sv = catching E c (let L = en_json E in
     reading sv (read_vehicles L (hc_body c)) (\<lambda>snapshot.
     respond E c 200 ''OK'' (jl_object L
       [(''ok'', jl_bool L True), (''vehicle_count'', jl_u64 L (of_nat (length (vs_vehicles snapshot)))),
        (''timestamp'', jl_u64 L (vs_timestamp snapshot))])
       (invalidateRedisCaches [kVehiclesCache] (sv\<lparr>sr_vehicles := replaceSnapshot (sr_vehicles sv) snapshot\<rparr>))))"

definition ok_text :: string where "ok_text = ''{\"ok\":true}''"

definition failure_text :: "string \<Rightarrow> string" where
  "failure_text msg = ''{\"ok\":false,\"error\":\"'' @ msg @ ''\"}''"

definition handleVehicleRegister :: "'j environment \<Rightarrow> http_conn \<Rightarrow> server \<Rightarrow> api_outcome" where
  "handleVehicleRegister E c sv = catching E c (let L = en_json E in
     reading sv (res_bind (jl_parse L (hc_body c)) (parseVehicleState L)) (\<lambda>v.
     if ve_id v = [] then respond_text c 400 ''Bad Request'' (failure_text ''empty vehicle id'') sv
     else if hasVehicle (sr_vehicles sv) (ve_id v)
     then respond_text c 409 ''Conflict'' (failure_text ''vehicle already exists'') sv
     else case registerVehicle (sr_vehicles sv) v of (done, m) \<Rightarrow>
       if \<not> done then respond_text c 409 ''Conflict'' (failure_text ''vehicle already exists'') (sv\<lparr>sr_vehicles := m\<rparr>)
       else respond_text c 201 ''Created'' ok_text
         (invalidateRedisCaches [kVehiclesCache] (sv\<lparr>sr_vehicles := m\<rparr>))))"

definition handleVehicleUpdate :: "'j environment \<Rightarrow> http_conn \<Rightarrow> server \<Rightarrow> api_outcome" where
  "handleVehicleUpdate E c sv = catching E c (let L = en_json E in
     reading sv (res_bind (jl_parse L (hc_body c)) (parseVehicleState L)) (\<lambda>v.
     if ve_id v = [] then respond_text c 400 ''Bad Request'' (failure_text ''empty vehicle id'') sv
     else if \<not> hasVehicle (sr_vehicles sv) (ve_id v)
     then respond_text c 404 ''Not Found'' (failure_text ''vehicle not registered'') sv
     else case updateVehicle (sr_vehicles sv) v of (done, m) \<Rightarrow>
       if \<not> done then respond_text c 404 ''Not Found'' (failure_text ''vehicle not registered'') (sv\<lparr>sr_vehicles := m\<rparr>)
       else respond_text c 200 ''OK'' ok_text
         (invalidateRedisCaches [kVehiclesCache] (sv\<lparr>sr_vehicles := m\<rparr>))))"

definition vehicles_prefix :: string where "vehicles_prefix = ''/api/vehicles/''"

definition handleVehicleDelete :: "http_conn \<Rightarrow> server \<Rightarrow> api_outcome" where
  "handleVehicleDelete c sv =
     (if \<not> prefix vehicles_prefix (hc_path c) \<or> length (hc_path c) \<le> length vehicles_prefix
      then respond_text c 400 ''Bad Request'' (failure_text ''missing vehicle id'') sv
      else let vid = drop (length vehicles_prefix) (hc_path c) in
        if \<not> hasVehicle (sr_vehicles sv) vid
        then respond_text c 404 ''Not Found'' (failure_text ''vehicle not found'') sv
        else case removeVehicle (sr_vehicles sv) vid of (done, m) \<Rightarrow>
          if \<not> done then respond_text c 404 ''Not Found'' (failure_text ''vehicle not found'') (sv\<lparr>sr_vehicles := m\<rparr>)
          else respond_text c 200 ''OK'' ok_text
            (invalidateRedisCaches [kVehiclesCache] (sv\<lparr>sr_vehicles := m\<rparr>)))"

subsection \<open>Routing of writes\<close>

definition handleAPI :: "'j environment \<Rightarrow> http_conn \<Rightarrow> server \<Rightarrow> api_outcome" where
  "handleAPI E c sv = (let m = hc_method c; p = hc_path c in
     if m = ''POST'' \<and> p = ''/api/game/vehicles/snapshot'' then handleGameVehicleSnapshot E c sv
     else if m = ''POST'' \<and> p = ''/api/game/trains/snapshot'' then handleTrainSnapshot E c sv
     else if m = ''POST'' \<and> p = ''/api/game/lines/snapshot'' then handleLineRouteSnapshot E c sv
     else if m = ''POST'' \<and> p = ''/api/game/dispatch/commands/query'' then handleDispatchCommandQuery E c sv
     else if m = ''POST'' \<and> p = ''/api/game/dispatch/commands/ack'' then handleDispatchCommandAck E c sv
     else if m = ''POST'' \<and> p = ''/api/game/dispatch/resources/cleared'' then handleDispatchResourceCleared E c sv
     else if \<not> prefix ''/api/vehicles'' p then NotMine
     else if m = ''GET'' then NotMine
     else if m = ''POST'' \<and> p = ''/api/vehicles/register'' then handleVehicleRegister E c sv
     else if m = ''POST'' \<and> p = ''/api/vehicles/update'' then handleVehicleUpdate E c sv
     else if m = ''DELETE'' then handleVehicleDelete c sv
     else respond_text c 404 ''Not Found'' (failure_text ''unknown api'') sv)"

subsection \<open>Queries\<close>

text \<open>A query that may be answered from the cache, and whose answer is written to it.\<close>

definition cached_query :: "'j environment \<Rightarrow> http_conn \<Rightarrow> string \<Rightarrow> 'j \<Rightarrow> server \<Rightarrow> api_outcome" where
  "cached_query E c key j sv = (case en_cached E key of
       Some body \<Rightarrow> Answered (buildJsonResponse c 200 ''OK'' body) sv
     | None \<Rightarrow> reading sv (jl_dump (en_json E) j) (\<lambda>body.
         Answered (buildJsonResponse c 200 ''OK'' body) (cacheJsonResponse key body sv)))"

definition cache_stats_json :: "'j environment \<Rightarrow> 'j" where
  "cache_stats_json E = (let L = en_json E; st = en_cache_stats E in jl_object L
     [(''ok'', jl_bool L True), (''redis_compiled'', jl_bool L (en_redis_compiled E)),
      (''redis_enabled'', jl_bool L (en_redis_enabled E)), (''hits'', jl_u64 L (rcs_hits st)),
      (''misses'', jl_u64 L (rcs_misses st)), (''writes'', jl_u64 L (rcs_writes st)),
      (''errors'', jl_u64 L (rcs_errors st)), (''bypasses'', jl_u64 L (rcs_bypasses st))])"

definition storage_json :: "'j json_lib \<Rightarrow> bool \<Rightarrow> string \<Rightarrow> dispatch_persistence_stats \<Rightarrow> 'j" where
  "storage_json L healthy last_error st = jl_object L
     [(''ok'', jl_bool L healthy), (''last_error'', jl_string L last_error),
      (''mysql_writes'', jl_u64 L (ps_mysql_writes st)), (''mysql_errors'', jl_u64 L (ps_mysql_errors st)),
      (''redis_writes'', jl_u64 L (ps_redis_writes st)), (''redis_errors'', jl_u64 L (ps_redis_errors st)),
      (''command_recovery_enabled'', jl_bool L (ps_command_recovery_enabled st)),
      (''recovered_pending_commands'', jl_u64 L (ps_recovered_pending_commands st)),
      (''recovered_active_commands'', jl_u64 L (ps_recovered_active_commands st))]"

definition trains_json :: "'j json_lib \<Rightarrow> monitored_train list \<Rightarrow> 'j" where
  "trains_json L trains = jl_object L
     [(''ok'', jl_bool L True), (''train_count'', jl_u64 L (of_nat (length trains))),
      (''trains'', jl_array L (map (monitoredToJson L) trains))]"

definition status_json :: "'j json_lib \<Rightarrow> railway_runtime_status \<Rightarrow> 'j" where
  "status_json L st = (let t = rt_topology st in jl_object L
     [(''ok'', jl_bool L True), (''telemetry_connected'', jl_bool L (rt_telemetry_connected st)),
      (''last_train_snapshot_wall_ms'', jl_u64 L (rt_last_train_snapshot_wall_ms st)),
      (''train_snapshot_age_ms'', jl_u64 L (rt_train_snapshot_age_ms st)),
      (''train_count'', jl_u64 L (of_nat (rt_train_count st))),
      (''topology_revision'', jl_u64 L (ty_revision t)),
      (''topology_algorithm_version'', jl_u64 L (ty_algorithm_version t)),
      (''topology_algorithm_fingerprint'', jl_string L (ty_algorithm_fingerprint t)),
      (''route_count'', jl_u64 L (of_nat (ty_route_count t))),
      (''corridor_count'', jl_u64 L (of_nat (ty_corridor_count t))),
      (''intersection_count'', jl_u64 L (of_nat (ty_intersection_count t))),
      (''movement_count'', jl_u64 L (of_nat (ty_movement_count t)))])"

definition topology_view_json :: "'j json_lib \<Rightarrow> line_topology_snapshot \<Rightarrow> 'j" where
  "topology_view_json L t = (let a = ts_analysis t in jl_object L
     [(''ok'', jl_bool L True), (''topology_revision'', jl_u64 L (ts_revision t)),
      (''topology_algorithm_version'', jl_u64 L (ts_algorithm_version t)),
      (''topology_algorithm_fingerprint'', jl_string L (ts_algorithm_fingerprint t)),
      (''route_count'', jl_u64 L (of_nat (length (ts_routes t)))),
      (''corridor_count'', jl_u64 L (of_nat (length (la_shared_corridors a)))),
      (''intersection_count'', jl_u64 L (of_nat (length (la_intersections a)))),
      (''movement_count'', jl_u64 L (of_nat (length (la_movements a)))),
      (''routes'', jl_array L (map (routeToJson L) (ts_routes t))),
      (''corridors'', jl_array L (map (corridorToJson L) (la_shared_corridors a))),
      (''intersections'', jl_array L (map (intersectionToJson L) (la_intersections a))),
      (''movements'', jl_array L (map (movementToJson L) (la_movements a)))])"

definition commands_json :: "'j json_lib \<Rightarrow> dispatch_decision list \<Rightarrow> 'j" where
  "commands_json L ds = jl_object L
     [(''ok'', jl_bool L True), (''command_count'', jl_u64 L (of_nat (length ds))),
      (''commands'', jl_array L (map (decisionToJson L) ds))]"

definition plans_json :: "'j json_lib \<Rightarrow> rolling_plan_result \<Rightarrow> 'j" where
  "plans_json L rp = jl_object L
     [(''ok'', jl_bool L True), (''resource_count'', jl_u64 L (of_nat (length (rp_plans_by_resource rp)))),
      (''plans'', jl_array L (map (\<lambda>kv. planToJson L (snd kv)) (rp_plans_by_resource rp)))]"

definition vehicles_json :: "'j json_lib \<Rightarrow> vehicle_snapshot \<Rightarrow> 'j" where
  "vehicles_json L s = jl_object L
     [(''ok'', jl_bool L True), (''timestamp'', jl_u64 L (vs_timestamp s)),
      (''map'', jl_object L
         [(''min_x'', jl_double L (mb_min_x (vs_map s))), (''max_x'', jl_double L (mb_max_x (vs_map s))),
          (''min_z'', jl_double L (mb_min_z (vs_map s))), (''max_z'', jl_double L (mb_max_z (vs_map s)))]),
      (''vehicle_count'', jl_u64 L (of_nat (length (vs_vehicles s)))),
      (''vehicles'', jl_array L (map (vehicleToJson L) (vs_vehicles s)))]"

definition either_path :: "string \<Rightarrow> string \<Rightarrow> bool" where
  "either_path p path \<longleftrightarrow> p = path \<or> p = path @ ''/''"

definition handleVehicleGet :: "'j environment \<Rightarrow> http_conn \<Rightarrow> server \<Rightarrow> api_outcome" where
  "handleVehicleGet E c sv = (let L = en_json E; vid = drop (length vehicles_prefix) (hc_path c) in
     if vid = [] then respond_text c 400 ''Bad Request'' (failure_text ''empty vehicle id'') sv
     else case getVehicle (sr_vehicles sv) vid of
         None \<Rightarrow> respond E c 404 ''Not Found'' (jl_object L
           [(''ok'', jl_bool L False), (''error'', jl_string L ''vehicle not found''), (''id'', jl_string L vid)]) sv
       | Some v \<Rightarrow> respond E c 200 ''OK'' (jl_object L
           [(''ok'', jl_bool L True), (''vehicle'', vehicleToJson L v)]) sv)"

definition handleGet :: "'j environment \<Rightarrow> http_conn \<Rightarrow> server \<Rightarrow> api_outcome" where
  "handleGet E c sv = (let L = en_json E; p = hc_path c; s = sr_service sv in
     if hc_method c \<noteq> ''GET'' then NotMine
     else if either_path p ''/api/system/cache'' then respond E c 200 ''OK'' (cache_stats_json E) sv
     else if either_path p ''/api/system/storage'' then
       (case persistenceHealthy s of (healthy, last_error) \<Rightarrow>
         respond E c (if healthy then 200 else 503) (if healthy then ''OK'' else ''Service Unavailable'')
           (storage_json L healthy last_error (persistenceStats s (en_storage E))) sv)
     else if either_path p ''/api/game/trains'' then
       cached_query E c kTrainsCache (trains_json L (service_trains s)) sv
     else if either_path p ''/api/game/status'' then
       respond E c 200 ''OK'' (status_json L (runtimeStatus s (en_wall E))) sv
     else if either_path p ''/api/game/topology'' \<or> either_path p ''/api/game/lines'' \<or>
             either_path p ''/api/game/resources'' then
       cached_query E c kTopologyCache (topology_view_json L (service_topology s)) sv
     else if either_path p ''/api/game/dispatch/commands'' then
       (let sv1 = sv\<lparr>sr_service := runMaintenance s (en_wall E)\<rparr> in
        cached_query E c kCommandsCache (commands_json L (pendingCommands (sr_service sv1) None)) sv1)
     else if either_path p ''/api/game/dispatch/plans'' then
       cached_query E c kPlansCache (plans_json L (service_rollingPlan s)) sv
     else if either_path p ''/api/vehicles'' \<or> either_path p ''/api/game/vehicles'' then
       cached_query E c kVehiclesCache (vehicles_json L (getSnapshot (sr_vehicles sv))) sv
     else if prefix vehicles_prefix p then handleVehicleGet E c sv
     else NotMine)"

subsection \<open>The whole request\<close>

definition buildResponse :: "'j environment \<Rightarrow> http_conn \<Rightarrow> server \<Rightarrow> api_outcome \<times> http_conn" where
  "buildResponse E c sv = (case handleAPI E c sv of
       NotMine \<Rightarrow> (case handleGet E c sv of
           NotMine \<Rightarrow> (case buildFileResponse (en_files E) c of (r, c1) \<Rightarrow> (Answered r sv, c1))
         | r \<Rightarrow> (r, c))
     | r \<Rightarrow> (r, c))"

text \<open>\<open>None\<close>: the request is not complete yet, there is no response.\<close>

definition http_process :: "'j environment \<Rightarrow> http_conn \<Rightarrow> string \<Rightarrow> server \<Rightarrow> api_outcome option \<times> http_conn" where
  "http_process E c data sv =
     (let c1 = parse (c\<lparr>hc_state := REQUEST_LINE\<rparr>) data in
      if hc_state c1 = PARSE_ERROR then
        (let c2 = c1\<lparr>hc_keep_alive := False\<rparr> in
         (Some (respond_text c2 400 ''Bad Request'' ''{\"error\":\"malformed HTTP request\"}'' sv), c2))
      else if hc_state c1 \<noteq> FINISH then (None, c1)
      else case buildResponse E c1 sv of (r, c2) \<Rightarrow> (Some r, c2))"

end
