(* ===== verification/ApiSafety.thy ===== *)
theory ApiSafety
  imports Api ServiceSafety
begin

text \<open>
  What requests can do to the state of the process: every request is at most one step of the
  dispatch service, a request whose body cannot be read is refused without any effect, and what
  the acknowledgement request says reaches the service unchanged.
\<close>

subsection \<open>What a request may change\<close>

text \<open>A request is at most one step of the dispatch service, and it keeps the vehicles well-formed.\<close>

definition served :: "server \<Rightarrow> server \<Rightarrow> bool" where
  "served sv sv' \<longleftrightarrow> (sr_service sv' = sr_service sv \<or> sv_step (sr_service sv) (sr_service sv')) \<and>
     (vm_inv (sr_vehicles sv) \<longrightarrow> vm_inv (sr_vehicles sv'))"

fun leaves :: "(server \<Rightarrow> bool) \<Rightarrow> api_outcome \<Rightarrow> bool" where
  "leaves P (Answered r sv) = P sv"
| "leaves P (Escaped e sv) = P sv"
| "leaves P NotMine = True"
| "leaves P Broken = True"

lemma leaves_reading [intro]:
  "P sv \<Longrightarrow> (\<And>x. r = Inr x \<Longrightarrow> leaves P (f x)) \<Longrightarrow> leaves P (reading sv r f)"
  by (cases r) (simp_all add: reading_def)

lemma leaves_respond [simp]: "leaves P (respond E c code status j sv) = P sv"
  by (cases "jl_dump (en_json E) j") (simp_all add: respond_def reading_def)

lemma leaves_respond_text [simp]: "leaves P (respond_text c code status body sv) = P sv"
  by (simp add: respond_text_def)

lemma leaves_catching: "leaves P r \<Longrightarrow> leaves P (catching E c r)"
  by (cases r) (simp_all add: catching_def)

lemma leaves_cached [intro]: "P sv \<Longrightarrow> (\<And>body. P (cacheJsonResponse key body sv)) \<Longrightarrow> leaves P (cached_query E c key j sv)"
  by (cases "en_cached E key"; cases "jl_dump (en_json E) j") (simp_all add: cached_query_def reading_def cacheJsonResponse_def)

lemma served_refl [simp]: "served sv sv"
  by (simp add: served_def)

lemma served_cache [simp]:
  "served sv (cacheJsonResponse key body sv') = served sv sv'"
  "served sv (invalidateRedisCaches keys sv') = served sv sv'"
  by (simp_all add: served_def cacheJsonResponse_def invalidateRedisCaches_def)

lemma served_service: "sv_step (sr_service sv) s \<Longrightarrow> served sv (sv\<lparr>sr_service := s\<rparr>)"
  by (simp add: served_def)

lemma served_vehicles: "(vm_inv (sr_vehicles sv) \<Longrightarrow> vm_inv m) \<Longrightarrow> served sv (sv\<lparr>sr_vehicles := m\<rparr>)"
  by (simp add: served_def)

subsection \<open>The handlers\<close>

lemma served_vm_step:
  "served sv (sv\<lparr>sr_vehicles := snd (registerVehicle (sr_vehicles sv) v)\<rparr>)"
  "served sv (sv\<lparr>sr_vehicles := snd (updateVehicle (sr_vehicles sv) v)\<rparr>)"
  "served sv (sv\<lparr>sr_vehicles := snd (removeVehicle (sr_vehicles sv) vid)\<rparr>)"
  "served sv (sv\<lparr>sr_vehicles := replaceSnapshot (sr_vehicles sv) snap\<rparr>)"
  by (rule served_vehicles, simp add: vm_inv_register vm_inv_update vm_inv_remove vm_inv_replace)+

lemma snd_of: "p = (a, b) \<Longrightarrow> b = snd p"
  by simp

lemma served_register: "leaves (served sv) (handleVehicleRegister E c sv)"
  unfolding handleVehicleRegister_def Let_def case_prod_unfold
  by (rule leaves_catching, rule leaves_reading) (simp_all add: served_vm_step)

lemma served_update: "leaves (served sv) (handleVehicleUpdate E c sv)"
  unfolding handleVehicleUpdate_def Let_def case_prod_unfold
  by (rule leaves_catching, rule leaves_reading) (simp_all add: served_vm_step)

lemma served_delete: "leaves (served sv) (handleVehicleDelete c sv)"
  unfolding handleVehicleDelete_def Let_def case_prod_unfold
  by (simp add: served_vm_step)

lemma served_snapshot: "leaves (served sv) (handleGameVehicleSnapshot E c sv)"
  unfolding handleGameVehicleSnapshot_def Let_def
  by (rule leaves_catching, rule leaves_reading) (simp_all add: served_vm_step)

lemma served_ack: "leaves (served sv) (handleDispatchCommandAck E c sv)"
  unfolding handleDispatchCommandAck_def Let_def case_prod_unfold
  by (rule leaves_catching, rule leaves_reading) (simp_all add: served_service sv_acknowledged)

lemma served_cleared: "leaves (served sv) (handleDispatchResourceCleared E c sv)"
  unfolding handleDispatchResourceCleared_def Let_def case_prod_unfold
  by (rule leaves_catching, rule leaves_reading) (simp_all add: served_service sv_cleared)

lemma served_query: "leaves (served sv) (handleDispatchCommandQuery E c sv)"
  unfolding handleDispatchCommandQuery_def Let_def
  by (rule leaves_catching) (auto simp: served_service sv_maintained intro!: leaves_reading)

lemma served_trains: "leaves (served sv) (handleTrainSnapshot E c sv)"
proof -
  have never: "updateTrains answer s ts now wall \<noteq> Thrown e s'" for answer s ts now wall e s'
    by (auto simp: updateTrains_def Let_def split: option.splits prod.splits)
  show ?thesis
    unfolding handleTrainSnapshot_def Let_def case_prod_unfold
    by (rule leaves_catching, rule leaves_reading)
      (auto simp: never served_service sv_updated split: outcome.split)
qed

lemma upload_never_throws:
  assumes "svc_inv s"
  shows "service_replaceRoutes acos answer s routes wall \<noteq> Thrown e s'"
proof -
  have "rebuildDispatchManagerLocked (reset_runtime (s\<lparr>sv_topology := t\<rparr>)) wall \<noteq> Inl e"
    if "replaceRoutes acos (sv_topology s) routes = Some (None, t)" for t
    using svc_inv_reset [OF assms, of t wall] tr_inv_replace [OF that svc_top [OF assms]] by auto
  then show ?thesis by (auto simp: service_replaceRoutes_def Let_def split: option.splits sum.splits)
qed

lemma served_lines:
  assumes "svc_inv (sr_service sv)"
  shows "leaves (served sv) (handleLineRouteSnapshot E c sv)"
  unfolding handleLineRouteSnapshot_def Let_def
  by (rule leaves_catching, rule leaves_reading)
    (auto simp: upload_never_throws [OF assms] served_service sv_uploaded split: outcome.split sum.split)

lemma served_get: "leaves (served sv) (handleGet E c sv)"
  unfolding handleGet_def Let_def case_prod_unfold handleVehicleGet_def
  by (simp add: leaves_cached served_service sv_maintained split: option.split)

lemma served_api: "svc_inv (sr_service sv) \<Longrightarrow> leaves (served sv) (handleAPI E c sv)"
  by (simp add: handleAPI_def Let_def served_register served_update served_delete served_snapshot served_ack
      served_cleared served_query served_trains served_lines)

lemma request_served:
  assumes "svc_inv (sr_service sv)" and "http_process E c data sv = (Some r, c')"
  shows "leaves (served sv) r"
proof -
  have "leaves (served sv) (fst (buildResponse E c1 sv))" for c1
    using served_api [OF assms(1), of E c1] served_get [of sv E c1]
    by (auto simp: buildResponse_def split: api_outcome.split prod.split)
  then show ?thesis
    using assms(2) by (auto simp: http_process_def Let_def split: if_splits prod.splits) (metis fst_conv)
qed

text \<open>An HTTP request is at most one step of the dispatch service. Whatever bytes arrive, whatever the
  environment answers, a request that leaves a state leaves the service as it was or one step of
  the service further (an upload, a telemetry batch, a maintenance pass, an acknowledgement, an exit),
  and the vehicles well-formed: everything that holds of the reachable states of the service holds in the
  running server.\<close>

theorem requests_are_service_steps:
  assumes "reachable sv_start sv_step (sr_service sv)" and "vm_inv (sr_vehicles sv)"
    and "http_process E c data sv = (Some r, c')" and "r = Answered resp sv' \<or> r = Escaped e sv'"
  shows "(sr_service sv' = sr_service sv \<or> sv_step (sr_service sv) (sr_service sv')) \<and>
    reachable sv_start sv_step (sr_service sv') \<and> vm_inv (sr_vehicles sv')"
proof -
  have "served sv sv'" using request_served [OF sv.inv_reachable [OF assms(1)] assms(3)] assms(4) by auto
  then show ?thesis using assms(1,2) reach_step [OF assms(1)] by (auto simp: served_def)
qed

text \<open>The demonstration: a request for a vehicle that does not exist, to a server with a waiting command.\<close>

definition demo_files :: file_system where
  "demo_files = \<lparr>fs_stat = (\<lambda>_. None), fs_open = (\<lambda>_. False), fs_mmap = (\<lambda>_. None)\<rparr>"

definition demo_ack_json :: json_value where
  "demo_ack_json = JObject [(''train_id'', JString ''T1''), (''corridor_resource_id'', JString demo_forward),
     (''accepted'', JBool True), (''simulation_time_ms'', JU64 9000)]"

definition demo_nak_json :: json_value where
  "demo_nak_json = JObject [(''train_id'', JString ''T1''), (''corridor_resource_id'', JString demo_forward),
     (''simulation_time_ms'', JU64 9000)]"

definition demo_environment :: "json_value environment" where
  "demo_environment = \<lparr>en_json = demo_json\<lparr>jl_parse := (\<lambda>s. if s = ''ack'' then Inr demo_ack_json
       else if s = ''nak'' then Inr demo_nak_json else Inl ''syntax error'')\<rparr>,
     en_acos = demo_acos, en_db = None,
     en_storage = \<lparr>ps_mysql_writes = 0, ps_mysql_errors = 0, ps_redis_writes = 0, ps_redis_errors = 0,
       ps_recovered_pending_commands = 0, ps_recovered_active_commands = 0, ps_command_recovery_enabled = True\<rparr>,
     en_wall = 5000, en_cached = (\<lambda>_. None),
     en_cache_stats = \<lparr>rcs_hits = 0, rcs_misses = 0, rcs_writes = 0, rcs_errors = 0, rcs_bypasses = 0\<rparr>,
     en_redis_compiled = True, en_redis_enabled = False, en_files = demo_files\<rparr>"

definition demo_server :: "railway_service \<Rightarrow> server" where
  "demo_server s = \<lparr>sr_service = s, sr_vehicles = new_vehicle_manager, sr_cache = []\<rparr>"

definition demo_delete :: string where
  "demo_delete = ''DELETE /api/vehicles/bus HTTP/1.1'' @ header_end"

lemma demo_delete_parsed:
  "parse (new_http_conn\<lparr>hc_state := REQUEST_LINE\<rparr>) demo_delete =
     new_http_conn\<lparr>hc_state := FINISH, hc_method := ''DELETE'', hc_path := ''/api/vehicles/bus'',
       hc_version := ''HTTP/1.1'', hc_keep_alive := True\<rparr>"
  by code_simp

lemma requests_are_service_steps_witness:
  "\<exists>s r c'. demo_state s \<and> http_process demo_environment new_http_conn demo_delete (demo_server s) =
     (Some (Answered r (demo_server s)), c') \<and> reachable sv_start sv_step (sr_service (demo_server s))"
proof -
  obtain s where s: "demo_state s" using demo_state_exists by blast
  let ?c = "new_http_conn\<lparr>hc_state := FINISH, hc_method := ''DELETE'', hc_path := ''/api/vehicles/bus'',
       hc_version := ''HTTP/1.1'', hc_keep_alive := True\<rparr>"
  have "handleVehicleDelete ?c (demo_server s) = respond_text ?c 404 ''Not Found'' (failure_text ''vehicle not found'') (demo_server s)"
    by (simp add: handleVehicleDelete_def vehicles_prefix_def hasVehicle_def demo_server_def new_vehicle_manager_def)
  then have "buildResponse demo_environment ?c (demo_server s) =
      (respond_text ?c 404 ''Not Found'' (failure_text ''vehicle not found'') (demo_server s), ?c)"
    by (simp add: buildResponse_def handleAPI_def respond_text_def)
  then have p: "http_process demo_environment new_http_conn demo_delete (demo_server s) =
      (Some (Answered (buildJsonResponse ?c 404 ''Not Found'' (failure_text ''vehicle not found'')) (demo_server s)), ?c)"
    by (simp add: http_process_def demo_delete_parsed respond_text_def Let_def)
  have "reachable sv_start sv_step (sr_service (demo_server s))" "vm_inv (sr_vehicles (demo_server s))"
    using demo_stateD(1) [OF s] by (simp_all add: demo_server_def vm_inv_new)
  from requests_are_service_steps [OF this p] show ?thesis using s p by blast
qed

subsection \<open>Requests that cannot be read\<close>

text \<open>
  What the interface requires of a body, in the terms of the JSON library: which fields of which type,
  per path. (Optional fields are not listed.)
\<close>

definition json_member :: "'j json_lib \<Rightarrow> 'j \<Rightarrow> string \<Rightarrow> 'j \<Rightarrow> bool" where
  "json_member L j k v \<longleftrightarrow> jl_is_object L j \<and> jl_find L j k = Some v"

definition has_string :: "'j json_lib \<Rightarrow> 'j \<Rightarrow> string list \<Rightarrow> bool" where
  "has_string L j keys \<longleftrightarrow> (\<exists>k \<in> set keys. \<exists>v s. json_member L j k v \<and> jl_get_string L v = Inr s)"

definition has_number :: "'j json_lib \<Rightarrow> 'j \<Rightarrow> string \<Rightarrow> bool" where
  "has_number L j k \<longleftrightarrow> (\<exists>v d. json_member L j k v \<and> jl_get_double L v = Inr d)"

definition has_u64 :: "'j json_lib \<Rightarrow> 'j \<Rightarrow> string \<Rightarrow> bool" where
  "has_u64 L j k \<longleftrightarrow> (\<exists>v n. json_member L j k v \<and> jl_get_u64 L v = Inr n)"

definition has_bool :: "'j json_lib \<Rightarrow> 'j \<Rightarrow> string \<Rightarrow> bool" where
  "has_bool L j k \<longleftrightarrow> (\<exists>v b. json_member L j k v \<and> jl_get_bool L v = Inr b)"

definition has_position :: "'j json_lib \<Rightarrow> 'j \<Rightarrow> bool" where
  "has_position L j \<longleftrightarrow> (\<exists>pos. json_member L j ''position'' pos \<and> has_number L pos ''x'' \<and> has_number L pos ''z'')"

definition has_array :: "'j json_lib \<Rightarrow> 'j \<Rightarrow> string \<Rightarrow> nat \<Rightarrow> ('j \<Rightarrow> bool) \<Rightarrow> bool" where
  "has_array L j k most P \<longleftrightarrow> (\<exists>v. json_member L j k v \<and> jl_is_array L v \<and> length (jl_elements L v) \<le> most \<and>
     (\<forall>x \<in> set (jl_elements L v). P x))"

definition vehicle_wanted :: "'j json_lib \<Rightarrow> 'j \<Rightarrow> bool" where
  "vehicle_wanted L j \<longleftrightarrow> has_string L j [''id'', ''vehicleId'', ''vehicle_id''] \<and> has_position L j"

definition route_wanted :: "'j json_lib \<Rightarrow> 'j \<Rightarrow> bool" where
  "route_wanted L j \<longleftrightarrow> has_string L j [''line_id'', ''lineId''] \<and>
     (\<exists>v. json_member L j ''points'' v \<and> jl_is_array L v \<and>
        (\<forall>pt \<in> set (jl_elements L v). has_number L pt ''x'' \<and> has_number L pt ''z''))"

definition train_wanted :: "'j json_lib \<Rightarrow> 'j \<Rightarrow> bool" where
  "train_wanted L j \<longleftrightarrow> has_string L j [''train_id'', ''trainId'', ''id''] \<and> has_string L j [''line_id'', ''lineId''] \<and>
     has_position L j \<and> has_u64 L j ''route_index''"

definition body_wanted :: "'j json_lib \<Rightarrow> string \<Rightarrow> 'j \<Rightarrow> bool" where
  "body_wanted L p j \<longleftrightarrow>
     (if p = ''/api/game/lines/snapshot'' then has_array L j ''routes'' 4096 (route_wanted L)
      else if p = ''/api/game/trains/snapshot'' then has_array L j ''trains'' 65535 (train_wanted L) \<and>
        has_u64 L j ''simulation_time_ms''
      else if p = ''/api/game/vehicles/snapshot'' then has_array L j ''vehicles'' 65535 (vehicle_wanted L)
      else if p = ''/api/game/dispatch/commands/query'' then
        (\<forall>v. json_member L j ''train_id'' v \<longrightarrow> (\<exists>s. jl_get_string L v = Inr s))
      else if p = ''/api/game/dispatch/commands/ack'' then has_string L j [''train_id''] \<and>
        has_string L j [''corridor_resource_id''] \<and> has_bool L j ''accepted'' \<and> has_u64 L j ''simulation_time_ms''
      else if p = ''/api/game/dispatch/resources/cleared'' then has_string L j [''train_id''] \<and>
        has_u64 L j ''simulation_time_ms''
      else vehicle_wanted L j)"

definition posting_paths :: "string set" where
  "posting_paths = {''/api/game/lines/snapshot'', ''/api/game/trains/snapshot'', ''/api/game/vehicles/snapshot'',
     ''/api/game/dispatch/commands/query'', ''/api/game/dispatch/commands/ack'',
     ''/api/game/dispatch/resources/cleared'', ''/api/vehicles/register'', ''/api/vehicles/update''}"

text \<open>A posted request whose body is no JSON text or lacks something the path requires; an empty body of the
  command query is allowed.\<close>

definition lacking :: "'j json_lib \<Rightarrow> http_conn \<Rightarrow> bool" where
  "lacking L c \<longleftrightarrow> hc_method c = ''POST'' \<and> hc_path c \<in> posting_paths \<and>
     \<not> (hc_path c = ''/api/game/dispatch/commands/query'' \<and> hc_body c = []) \<and>
     (\<forall>j. jl_parse L (hc_body c) = Inr j \<longrightarrow> \<not> body_wanted L (hc_path c) j)"

lemma res_bind_Inr: "res_bind r f = Inr y \<longleftrightarrow> (\<exists>x. r = Inr x \<and> f x = Inr y)"
  by (cases r) simp_all

lemma require_Inr: "require b msg = Inr u \<longleftrightarrow> b"
  by (simp add: require_def)

lemma map_res_Inr: "map_res f xs = Inr ys \<Longrightarrow> x \<in> set xs \<Longrightarrow> \<exists>y. f x = Inr y"
  by (induction xs arbitrary: ys) (auto simp: res_bind_Inr)

lemma j_at_json_member: "hasKey L j k \<Longrightarrow> j_at L j k = Inr v \<Longrightarrow> json_member L j k v"
  by (auto simp: hasKey_def j_at_def json_member_def split: option.splits)

declare getRequiredString.simps [simp del] getRequiredNumber.simps [simp del]

lemma body_string: "getRequiredString L j keys = Inr s \<Longrightarrow> has_string L j keys"
  by (induction keys) (fastforce simp: has_string_def res_bind_Inr getRequiredString.simps
      split: if_splits dest: j_at_json_member)+

lemma body_number: "getRequiredNumber L j [k] = Inr d \<Longrightarrow> has_number L j k"
  by (auto simp: has_number_def res_bind_Inr getRequiredNumber.simps split: if_splits dest: j_at_json_member)

lemma body_u64: "getRequiredUint64 L j k = Inr n \<Longrightarrow> has_u64 L j k"
  by (auto simp: has_u64_def getRequiredUint64_def res_bind_Inr split: if_splits dest: j_at_json_member)

lemma read_array_items:
  "read_array L j k msg = Inr items \<Longrightarrow> \<exists>v. json_member L j k v \<and> jl_is_array L v \<and> items = jl_elements L v"
  by (auto simp: read_array_def res_bind_Inr require_Inr dest: j_at_json_member)

lemmas reader_simps = res_bind_Inr require_Inr

lemma read_vehicle: "parseVehicleState L j = Inr v \<Longrightarrow> vehicle_wanted L j"
  by (fastforce simp: parseVehicleState_def vehicle_wanted_def has_position_def reader_simps
      dest!: body_string body_number j_at_json_member)

lemma read_point: "parseRoutePoint L j = Inr pt \<Longrightarrow> has_number L j ''x'' \<and> has_number L j ''z''"
  by (auto simp: parseRoutePoint_def reader_simps dest!: body_number)

lemma read_route: "parseLineRoute L j = Inr r \<Longrightarrow> route_wanted L j"
  by (fastforce simp: parseLineRoute_def route_wanted_def reader_simps
      dest!: body_string j_at_json_member dest: map_res_Inr read_point)

lemma read_train: "parseTrainTelemetry L j now wall = Inr t \<Longrightarrow> train_wanted L j"
  by (fastforce simp: parseTrainTelemetry_def train_wanted_def has_position_def reader_simps
      dest!: body_string body_number body_u64 j_at_json_member)

lemma body_read:
  "read_routes L b = Inr x1 \<Longrightarrow> \<exists>j. jl_parse L b = Inr j \<and> body_wanted L ''/api/game/lines/snapshot'' j"
  "read_trains L b wall = Inr x2 \<Longrightarrow> \<exists>j. jl_parse L b = Inr j \<and> body_wanted L ''/api/game/trains/snapshot'' j"
  "read_vehicles L b = Inr x3 \<Longrightarrow> \<exists>j. jl_parse L b = Inr j \<and> body_wanted L ''/api/game/vehicles/snapshot'' j"
  "read_ack L b = Inr x4 \<Longrightarrow> \<exists>j. jl_parse L b = Inr j \<and> body_wanted L ''/api/game/dispatch/commands/ack'' j"
  "read_cleared L b = Inr x5 \<Longrightarrow> \<exists>j. jl_parse L b = Inr j \<and> body_wanted L ''/api/game/dispatch/resources/cleared'' j"
proof -
  show "read_routes L b = Inr x1 \<Longrightarrow> \<exists>j. jl_parse L b = Inr j \<and> body_wanted L ''/api/game/lines/snapshot'' j"
    by (fastforce simp: read_routes_def body_wanted_def has_array_def reader_simps
        dest!: read_array_items dest: map_res_Inr read_route)
  show "read_trains L b wall = Inr x2 \<Longrightarrow> \<exists>j. jl_parse L b = Inr j \<and> body_wanted L ''/api/game/trains/snapshot'' j"
    by (fastforce simp: read_trains_def body_wanted_def has_array_def reader_simps
        dest!: read_array_items body_u64 dest: map_res_Inr read_train)
  show "read_vehicles L b = Inr x3 \<Longrightarrow> \<exists>j. jl_parse L b = Inr j \<and> body_wanted L ''/api/game/vehicles/snapshot'' j"
    by (fastforce simp: read_vehicles_def body_wanted_def has_array_def reader_simps
        dest!: read_array_items dest: map_res_Inr read_vehicle)
  show "read_ack L b = Inr x4 \<Longrightarrow> \<exists>j. jl_parse L b = Inr j \<and> body_wanted L ''/api/game/dispatch/commands/ack'' j"
    by (fastforce simp: read_ack_def body_wanted_def has_bool_def reader_simps dest!: body_string body_u64 j_at_json_member)
  show "read_cleared L b = Inr x5 \<Longrightarrow> \<exists>j. jl_parse L b = Inr j \<and> body_wanted L ''/api/game/dispatch/resources/cleared'' j"
    by (fastforce simp: read_cleared_def body_wanted_def reader_simps dest!: body_string body_u64)
qed

declare getRequiredString.simps [simp] getRequiredNumber.simps [simp]

lemma catching_escaped: "catching E c (reading sv (Inl e) f) =
   respond E c 400 ''Bad Request'' (failure_json (en_json E) e) sv"
  by (simp add: catching_def reading_def)

lemma unread:
  assumes "\<And>x. r = Inr x \<Longrightarrow> False"
  shows "\<exists>e. catching E c (reading sv r f) = respond E c 400 ''Bad Request'' (failure_json (en_json E) e) sv"
  using assms by (cases r) (auto simp: catching_escaped)

lemma lacking_query:
  assumes "lacking (en_json E) c" and "hc_path c = ''/api/game/dispatch/commands/query''"
  shows "\<exists>e. handleDispatchCommandQuery E c sv = respond E c 400 ''Bad Request'' (failure_json (en_json E) e)
    (sv\<lparr>sr_service := runMaintenance (sr_service sv) (en_wall E)\<rparr>)"
proof -
  let ?L = "en_json E" and ?sv = "sv\<lparr>sr_service := runMaintenance (sr_service sv) (en_wall E)\<rparr>"
  show ?thesis
  proof (cases "jl_parse ?L (hc_body c)")
    case (Inl e)
    then show ?thesis using assms
      by (intro exI [of _ e]) (simp add: handleDispatchCommandQuery_def lacking_def reading_def catching_def)
  next
    case (Inr j)
    then obtain v where v: "json_member ?L j ''train_id'' v" "\<And>s. jl_get_string ?L v \<noteq> Inr s"
      using assms by (auto simp: lacking_def body_wanted_def)
    then obtain e where "jl_get_string ?L v = Inl e" by (meson sum.exhaust)
    then show ?thesis using v(1) Inr assms
      by (intro exI [of _ e]) (simp add: handleDispatchCommandQuery_def lacking_def reading_def catching_def
          json_member_def hasKey_def j_at_def)
  qed
qed

lemma lacking_vehicle:
  assumes "lacking (en_json E) c" "hc_path c \<in> {''/api/vehicles/register'', ''/api/vehicles/update''}"
    and "res_bind (jl_parse (en_json E) (hc_body c)) (parseVehicleState (en_json E)) = Inr v"
  shows False
proof -
  obtain j where j: "jl_parse (en_json E) (hc_body c) = Inr j" "parseVehicleState (en_json E) j = Inr v"
    using assms(3) by (auto simp: res_bind_Inr)
  then have "vehicle_wanted (en_json E) j" by (intro read_vehicle)
  then show False using assms(1,2) j(1) by (auto simp: lacking_def body_wanted_def)
qed

lemma lacking_refused:
  assumes "lacking (en_json E) c"
  shows "\<exists>e. handleAPI E c sv = respond E c 400 ''Bad Request'' (failure_json (en_json E) e)
    (if hc_path c = ''/api/game/dispatch/commands/query''
     then sv\<lparr>sr_service := runMaintenance (sr_service sv) (en_wall E)\<rparr> else sv)"
    (is "\<exists>e. _ = respond E c 400 _ (failure_json _ e) ?sv")
proof -
  let ?L = "en_json E" and ?b = "hc_body c"
  have m: "hc_method c = ''POST''" and no: "\<And>j. jl_parse ?L ?b = Inr j \<Longrightarrow> body_wanted ?L (hc_path c) j \<Longrightarrow> False"
    using assms by (auto simp: lacking_def)
  note vehicle = lacking_vehicle [OF assms]
  consider (lines) "hc_path c = ''/api/game/lines/snapshot''" | (trains) "hc_path c = ''/api/game/trains/snapshot''"
    | (vehicles) "hc_path c = ''/api/game/vehicles/snapshot''" | (query) "hc_path c = ''/api/game/dispatch/commands/query''"
    | (ack) "hc_path c = ''/api/game/dispatch/commands/ack''" | (cleared) "hc_path c = ''/api/game/dispatch/resources/cleared''"
    | (register) "hc_path c = ''/api/vehicles/register''" | (update) "hc_path c = ''/api/vehicles/update''"
    using assms by (auto simp: lacking_def posting_paths_def)
  then show ?thesis
  proof cases
    case lines
    have "\<exists>e. handleLineRouteSnapshot E c sv = respond E c 400 ''Bad Request'' (failure_json ?L e) sv"
      unfolding handleLineRouteSnapshot_def Let_def by (rule unread) (use body_read(1) no lines in metis)
    then show ?thesis using lines m by (simp add: handleAPI_def)
  next
    case trains
    have "\<exists>e. handleTrainSnapshot E c sv = respond E c 400 ''Bad Request'' (failure_json ?L e) sv"
      unfolding handleTrainSnapshot_def Let_def by (rule unread) (use body_read(2) no trains in metis)
    then show ?thesis using trains m by (simp add: handleAPI_def)
  next
    case vehicles
    have "\<exists>e. handleGameVehicleSnapshot E c sv = respond E c 400 ''Bad Request'' (failure_json ?L e) sv"
      unfolding handleGameVehicleSnapshot_def Let_def by (rule unread) (use body_read(3) no vehicles in metis)
    then show ?thesis using vehicles m by (simp add: handleAPI_def)
  next
    case query
    then show ?thesis using lacking_query [OF assms query, of sv] m by (simp add: handleAPI_def)
  next
    case ack
    have "\<exists>e. handleDispatchCommandAck E c sv = respond E c 400 ''Bad Request'' (failure_json ?L e) sv"
      unfolding handleDispatchCommandAck_def Let_def by (rule unread) (use body_read(4) no ack in metis)
    then show ?thesis using ack m by (simp add: handleAPI_def)
  next
    case cleared
    have "\<exists>e. handleDispatchResourceCleared E c sv = respond E c 400 ''Bad Request'' (failure_json ?L e) sv"
      unfolding handleDispatchResourceCleared_def Let_def by (rule unread) (use body_read(5) no cleared in metis)
    then show ?thesis using cleared m by (simp add: handleAPI_def)
  next
    case register
    have "\<exists>e. handleVehicleRegister E c sv = respond E c 400 ''Bad Request'' (failure_json ?L e) sv"
      unfolding handleVehicleRegister_def Let_def by (rule unread) (use vehicle register in blast)
    then show ?thesis using register m by (simp add: handleAPI_def)
  next
    case update
    have "\<exists>e. handleVehicleUpdate E c sv = respond E c 400 ''Bad Request'' (failure_json ?L e) sv"
      unfolding handleVehicleUpdate_def Let_def by (rule unread) (use vehicle update in blast)
    then show ?thesis using update m by (simp add: handleAPI_def)
  qed
qed

text \<open>C35: a request that cannot be read has no effect. When the body of a posted request is no JSON text, or
  lacks a field that its path requires or has it with another type (the fields of every path are listed
  in \<open>body_wanted\<close>), the answer is a 400 with a text of the error, and the service, the vehicles and
  the cache are exactly as they were. One path acts before it reads: the command query first does the
  maintenance of the service, and that is all it does. If the library refuses to serialise the error text
  (it is not UTF-8), there is no answer: the exception leaves the handler, with the same state.\<close>

theorem unreadable_requests_change_nothing:
  assumes "lacking (en_json E) c"
  shows "\<exists>e sv'. sv' = (if hc_path c = ''/api/game/dispatch/commands/query''
       then sv\<lparr>sr_service := runMaintenance (sr_service sv) (en_wall E)\<rparr> else sv) \<and>
    buildResponse E c sv = (case jl_dump (en_json E) (failure_json (en_json E) e) of
      Inr text \<Rightarrow> (Answered (buildJsonResponse c 400 ''Bad Request'' text) sv', c) | Inl what \<Rightarrow> (Escaped what sv', c))"
proof -
  let ?L = "en_json E"
  let ?sv = "if hc_path c = ''/api/game/dispatch/commands/query''
       then sv\<lparr>sr_service := runMaintenance (sr_service sv) (en_wall E)\<rparr> else sv"
  obtain e where "handleAPI E c sv = respond E c 400 ''Bad Request'' (failure_json ?L e) ?sv"
    using lacking_refused [OF assms] by blast
  then have "buildResponse E c sv = (case jl_dump ?L (failure_json ?L e) of
      Inr body \<Rightarrow> (Answered (buildJsonResponse c 400 ''Bad Request'' body) ?sv, c) | Inl what \<Rightarrow> (Escaped what ?sv, c))"
    by (cases "jl_dump ?L (failure_json ?L e)") (simp_all add: buildResponse_def respond_def reading_def)
  then show ?thesis by blast
qed

text \<open>An acknowledgement without its decision; what it names is waiting.\<close>

lemma unreadable_requests_change_nothing_witness:
  "\<exists>s c. demo_state s \<and> hc_path c = ''/api/game/dispatch/commands/ack'' \<and> jl_parse (en_json demo_environment) (hc_body c) =
       Inr (JObject [(''train_id'', JString ''T1''), (''corridor_resource_id'', JString demo_forward),
         (''simulation_time_ms'', JU64 9000)]) \<and>
     buildResponse demo_environment c (demo_server s) =
       (Answered (buildJsonResponse c 400 ''Bad Request'' ''{}'') (demo_server s), c)"
proof -
  obtain s where s: "demo_state s" using demo_state_exists by blast
  let ?c = "new_http_conn\<lparr>hc_method := ''POST'', hc_path := ''/api/game/dispatch/commands/ack'', hc_body := ''nak''\<rparr>"
  have p: "jl_parse (en_json demo_environment) ''nak'' = Inr demo_nak_json" by (simp add: demo_environment_def)
  have "\<not> has_bool (en_json demo_environment) demo_nak_json ''accepted''"
    by (simp add: has_bool_def json_member_def demo_environment_def demo_json_def demo_nak_json_def)
  then have "lacking (en_json demo_environment) ?c"
    using p by (simp add: lacking_def posting_paths_def body_wanted_def)
  from unreadable_requests_change_nothing [OF this, of "demo_server s"]
  have "buildResponse demo_environment ?c (demo_server s) =
     (Answered (buildJsonResponse ?c 400 ''Bad Request'' ''{}'') (demo_server s), ?c)"
    by (simp add: demo_environment_def demo_json_def)
  then show ?thesis using s p by (intro exI [of _ s] exI [of _ ?c]) (simp add: demo_nak_json_def)
qed

subsection \<open>Answering a command over HTTP\<close>

text \<open>C34: an acknowledgement that is sent twice takes effect once. A posted acknowledgement that names a waiting
  command (with its id or with none) is answered 200, and the service is exactly where its
  acknowledge operation leads: the command no longer waits, and has become an active passage when it
  was accepted. The same request sent again is answered 409 and changes nothing.\<close>

theorem acknowledgement_retry_is_harmless:
  assumes "reachable sv_start sv_step (sr_service sv)" and "um_find (sv_commands (sr_service sv)) t = Some d"
    and "hc_method c = ''POST''" and "hc_path c = ''/api/game/dispatch/commands/ack''"
    and "read_ack (en_json E) (hc_body c) = Inr (t, dd_corridor_resource_id d, accepted, cid, now)"
    and "cid = [] \<or> cid = dd_command_id d" and "en_db E = None"
    and "jl_dump (en_json E) (j_bool_ok (en_json E)) = Inr ok_body"
    and "jl_dump (en_json E) (failure_json (en_json E) ''command not pending or ACK mismatch'') = Inr no_body"
  shows "\<exists>sv'. buildResponse E c sv = (Answered (buildJsonResponse c 200 ''OK'' ok_body) sv', c) \<and>
    sr_service sv' = snd (acknowledge None (sr_service sv) (dd_corridor_resource_id d) t accepted now cid) \<and>
    pendingCommands (sr_service sv') (Some t) = [] \<and> sr_vehicles sv' = sr_vehicles sv \<and>
    um_find (sv_active (sr_service sv')) t = (if accepted then Some d else um_find (sv_active (sr_service sv)) t) \<and>
    buildResponse E c sv' = (Answered (buildJsonResponse c 409 ''Conflict'' no_body) sv', c)"
proof -
  let ?s = "sr_service sv"
  define s0 where "s0 = (if sv_persistence ?s then note_answer None ?s else ?s)"
  have s0: "svc_inv s0" "um_find (sv_commands s0) t = Some d" "sv_commands s0 = sv_commands ?s"
    "sv_active s0 = sv_active ?s" using sv.inv_reachable [OF assms(1)] assms(2) by (simp_all add: s0_def)
  obtain s' where s': "finish_ack s0 (dd_corridor_resource_id d) t accepted now = (True, s')"
    "sv_commands s' = um_erase t (sv_commands ?s)"
    "sv_active s' = (if accepted then um_put t d (sv_active ?s) else sv_active ?s)"
    using finish_ack_ok [OF s0(1,2), of accepted now] unfolding s0(3,4) by blast
  have "\<not> ack_refused ?s (dd_corridor_resource_id d) t cid" using assms(2,6) by (auto simp: ack_refused_def)
  then have ack: "acknowledge None ?s (dd_corridor_resource_id d) t accepted now cid = (True, s')"
    using s'(1) by (simp add: acknowledge_def s0_def split: if_splits)
  have gone: "ack_refused s' (dd_corridor_resource_id d) t cid" by (simp add: ack_refused_def s'(2) umap_simps)
  let ?sv' = "invalidateRedisCaches [kTrainsCache, kCommandsCache, kPlansCache] (sv\<lparr>sr_service := s'\<rparr>)"
  have api: "handleAPI E c sv0 = handleDispatchCommandAck E c sv0" for sv0
    using assms(3,4) by (simp add: handleAPI_def)
  have "handleDispatchCommandAck E c sv = Answered (buildJsonResponse c 200 ''OK'' ok_body) ?sv'"
    using assms(5,7,8) ack by (simp add: handleDispatchCommandAck_def Let_def reading_def respond_def catching_def)
  moreover have "handleDispatchCommandAck E c ?sv' = Answered (buildJsonResponse c 409 ''Conflict'' no_body) ?sv'"
    using assms(5,7,9) gone by (simp add: handleDispatchCommandAck_def Let_def reading_def respond_def catching_def
        acknowledge_def invalidateRedisCaches_def)
  ultimately show ?thesis using s'(2,3) ack
    by (intro exI [of _ ?sv']) (auto simp: buildResponse_def api invalidateRedisCaches_def pendingCommands_one umap_simps)
qed

lemma acknowledgement_retry_is_harmless_witness:
  "\<exists>s c sv'. demo_state s \<and> buildResponse demo_environment c (demo_server s) =
       (Answered (buildJsonResponse c 200 ''OK'' ''{}'') sv', c) \<and>
     um_find (sv_active (sr_service sv')) ''T1'' = Some demo_command \<and>
     buildResponse demo_environment c sv' = (Answered (buildJsonResponse c 409 ''Conflict'' ''{}'') sv', c)"
proof -
  obtain s where s: "demo_state s" using demo_state_exists by blast
  let ?c = "new_http_conn\<lparr>hc_method := ''POST'', hc_path := ''/api/game/dispatch/commands/ack'', hc_body := ''ack''\<rparr>"
  have r: "reachable sv_start sv_step (sr_service (demo_server s))"
    "um_find (sv_commands (sr_service (demo_server s))) ''T1'' = Some demo_command"
    using demo_stateD [OF s] by (simp_all add: demo_server_def)
  have read: "read_ack (en_json demo_environment) (hc_body ?c) =
      Inr (''T1'', dd_corridor_resource_id demo_command, True, [], 9000)"
    by (simp add: read_ack_def demo_environment_def demo_ack_json_def demo_json_def res_bind_def hasKey_def j_at_def
        require_def getOptionalString_def getRequiredUint64_def demo_command_sel)
  have "en_db demo_environment = None" "jl_dump (en_json demo_environment) j = Inr ''{}''" for j
    by (simp_all add: demo_environment_def demo_json_def)
  from acknowledgement_retry_is_harmless [OF r _ _ read disjI1 [OF refl] this(1) this(2) this(2)]
  show ?thesis using s by auto
qed

end
