(* ===== verification/Config.thy ===== *)
theory Config
  imports Persist ServiceSafety
begin

text \<open>
  \<open>Config.cpp\<close>: the default configuration, the YAML file, the command line, and the configurations the
  components are given. The YAML library is a parameter: loading a file, the lookup of a key
  (which may throw, and gives nothing for an undefined node) and the conversions. The fields of the class
  are grouped by the section of the file they come from; an \<open>int\<close> keeps its 32 bits, so that the casts
  to 64 bits are the casts of the code.
\<close>

type_synonym i32 = "32 word"

subsection \<open>The fields\<close>

record server_config =
  cs_port :: i32
  cs_thread_num :: i32
  cs_trig_mode :: i32
  cs_actor_model :: i32
  cs_timeout_ms :: i32
  cs_daemon :: bool

record log_config =
  cl_level :: string
  cl_path :: string
  cl_async :: bool

record mysql_config =
  cm_host :: string
  cm_port :: i32
  cm_user :: string
  cm_password :: string
  cm_db :: string
  cm_enabled :: bool
  cm_pool_size :: i32
  cm_auto_migrate :: bool
  cm_telemetry_history_enabled :: bool
  cm_command_recovery_enabled :: bool

record redis_config =
  cr_enabled :: bool
  cr_host :: string
  cr_port :: i32
  cr_password :: string
  cr_database :: i32
  cr_pool_size :: i32
  cr_connect_timeout_ms :: i32
  cr_command_timeout_ms :: i32
  cr_response_cache_ttl_ms :: i32
  cr_key_prefix :: string
  cr_realtime_ttl_ms :: i32
  cr_rolling_plan_ttl_ms :: i32
  cr_command_ttl_ms :: i32
  cr_stream_max_len :: i32

record dispatch_config =
  cd_shared_min_headway_ms :: i32
  cd_intersection_clearance_ms :: i32
  cd_shared_corridor_capacity :: i32
  cd_maximum_wait_ms :: i32
  cd_telemetry_stale_wall_ms :: i32
  cd_max_consecutive_release :: i32
  cd_headway_urgency_weight :: double
  cd_waiting_time_weight :: double
  cd_fairness_credit_weight :: double
  cd_global_plan_weight :: double
  cd_consecutive_penalty_weight :: double

record route_config =
  ca_point_merge_tolerance :: double
  ca_shared_track_tolerance :: double
  ca_vertical_separation_tolerance :: double
  ca_shared_corridor_min_length :: double
  ca_intersection_min_angle_degrees :: double

record train_config =
  ct_stale_wall_ms :: i32
  ct_approach_distance :: double
  ct_control_point_distance :: double

record rolling_config =
  cp_planning_horizon_ms :: i32
  cp_minimum_prediction_speed :: double
  cp_reorder_tolerance_ms :: i32
  cp_same_line_consecutive_penalty :: double

record config =
  cf_server :: server_config
  cf_log :: log_config
  cf_mysql :: mysql_config
  cf_redis :: redis_config
  cf_dispatch :: dispatch_config
  cf_route :: route_config
  cf_train :: train_config
  cf_rolling :: rolling_config

definition default_config :: config where
  "default_config = \<lparr>
     cf_server = \<lparr>cs_port = 8080, cs_thread_num = 8, cs_trig_mode = 1, cs_actor_model = 0,
       cs_timeout_ms = 60000, cs_daemon = False\<rparr>,
     cf_log = \<lparr>cl_level = ''INFO'', cl_path = ''./logs'', cl_async = True\<rparr>,
     cf_mysql = \<lparr>cm_host = ''localhost'', cm_port = 3306, cm_user = ''root'', cm_password = [],
       cm_db = ''webserver'', cm_enabled = False, cm_pool_size = 8, cm_auto_migrate = True,
       cm_telemetry_history_enabled = True, cm_command_recovery_enabled = False\<rparr>,
     cf_redis = \<lparr>cr_enabled = False, cr_host = ''127.0.0.1'', cr_port = 6379, cr_password = [],
       cr_database = 0, cr_pool_size = 4, cr_connect_timeout_ms = 100, cr_command_timeout_ms = 20,
       cr_response_cache_ttl_ms = 250, cr_key_prefix = ''multi_agent:'', cr_realtime_ttl_ms = 15000,
       cr_rolling_plan_ttl_ms = 60000, cr_command_ttl_ms = 86400000, cr_stream_max_len = 100000\<rparr>,
     cf_dispatch = \<lparr>cd_shared_min_headway_ms = 5000, cd_intersection_clearance_ms = 2000,
       cd_shared_corridor_capacity = 8, cd_maximum_wait_ms = 20000, cd_telemetry_stale_wall_ms = 1500,
       cd_max_consecutive_release = 2, cd_headway_urgency_weight = lit (1 / 2),
       cd_waiting_time_weight = lit (3 / 10), cd_fairness_credit_weight = lit (1 / 5),
       cd_global_plan_weight = lit (1 / 4), cd_consecutive_penalty_weight = lit (1 / 4)\<rparr>,
     cf_route = \<lparr>ca_point_merge_tolerance = Fin 5, ca_shared_track_tolerance = Fin (5 / 4),
       ca_vertical_separation_tolerance = Fin 3, ca_shared_corridor_min_length = Fin 60,
       ca_intersection_min_angle_degrees = Fin 15\<rparr>,
     cf_train = \<lparr>ct_stale_wall_ms = 5000, ct_approach_distance = Fin 2000, ct_control_point_distance = Fin 1000\<rparr>,
     cf_rolling = \<lparr>cp_planning_horizon_ms = 300000, cp_minimum_prediction_speed = Fin 5,
       cp_reorder_tolerance_ms = 10000, cp_same_line_consecutive_penalty = lit (1 / 4)\<rparr>\<rparr>"

subsection \<open>Reading the file\<close>

record 'y yaml_lib =
  yl_load :: "string \<Rightarrow> 'y res"
  yl_get :: "'y \<Rightarrow> string \<Rightarrow> 'y option res"
  yl_int :: "'y \<Rightarrow> i32 res"
  yl_double :: "'y \<Rightarrow> double res"
  yl_bool :: "'y \<Rightarrow> bool res"
  yl_string :: "'y \<Rightarrow> string res"

text \<open>A step of the loading: the text of an exception, if one was thrown, and the fields as they are then.\<close>

type_synonym 'c load = "'c \<Rightarrow> string option \<times> 'c"

fun run_load :: "'c load list \<Rightarrow> 'c load" where
  "run_load [] c = (None, c)"
| "run_load (f # fs) c = (case f c of (None, c1) \<Rightarrow> run_load fs c1 | (Some e, c1) \<Rightarrow> (Some e, c1))"

text \<open>\<open>if (node[key]) field = node[key].as<T>();\<close>\<close>

definition field :: "'y yaml_lib \<Rightarrow> 'y \<Rightarrow> string \<Rightarrow> ('y \<Rightarrow> 'a res) \<Rightarrow> (('a \<Rightarrow> 'a) \<Rightarrow> 'c \<Rightarrow> 'c) \<Rightarrow> 'c load" where
  "field L node key as upd c = (case yl_get L node key of Inl e \<Rightarrow> (Some e, c) | Inr None \<Rightarrow> (None, c)
     | Inr (Some y) \<Rightarrow> (case as y of Inl e \<Rightarrow> (Some e, c) | Inr v \<Rightarrow> (None, upd (\<lambda>_. v) c)))"

text \<open>\<open>if (node[key]) { ... }\<close>\<close>

definition block :: "'y yaml_lib \<Rightarrow> 'y \<Rightarrow> string \<Rightarrow> ('y \<Rightarrow> 'c load) \<Rightarrow> 'c load" where
  "block L node key body c = (case yl_get L node key of Inl e \<Rightarrow> (Some e, c) | Inr None \<Rightarrow> (None, c)
     | Inr (Some y) \<Rightarrow> body y c)"

definition on_part :: "('c \<Rightarrow> 'p) \<Rightarrow> (('p \<Rightarrow> 'p) \<Rightarrow> 'c \<Rightarrow> 'c) \<Rightarrow> 'p load \<Rightarrow> 'c load" where
  "on_part sel upd f c = (case f (sel c) of (e, p) \<Rightarrow> (e, upd (\<lambda>_. p) c))"

definition refuse_if :: "('c \<Rightarrow> bool) \<Rightarrow> string \<Rightarrow> 'c load" where
  "refuse_if bad msg c = (if bad c then (Some msg, c) else (None, c))"

definition load_server :: "'y yaml_lib \<Rightarrow> 'y \<Rightarrow> server_config load" where
  "load_server L y = run_load
     [field L y ''port'' (yl_int L) cs_port_update,
      field L y ''thread_num'' (yl_int L) cs_thread_num_update,
      field L y ''trig_mode'' (yl_int L) cs_trig_mode_update,
      field L y ''actor_model'' (yl_int L) cs_actor_model_update,
      field L y ''timeout_ms'' (yl_int L) cs_timeout_ms_update,
      field L y ''daemon'' (yl_bool L) cs_daemon_update]"

definition load_log :: "'y yaml_lib \<Rightarrow> 'y \<Rightarrow> log_config load" where
  "load_log L y = run_load
     [field L y ''level'' (yl_string L) cl_level_update,
      field L y ''path'' (yl_string L) cl_path_update,
      field L y ''async'' (yl_bool L) cl_async_update]"

definition load_mysql :: "'y yaml_lib \<Rightarrow> 'y \<Rightarrow> mysql_config load" where
  "load_mysql L y = run_load
     [field L y ''host'' (yl_string L) cm_host_update,
      field L y ''port'' (yl_int L) cm_port_update,
      field L y ''user'' (yl_string L) cm_user_update,
      field L y ''password'' (yl_string L) cm_password_update,
      field L y ''database'' (yl_string L) cm_db_update,
      field L y ''enabled'' (yl_bool L) cm_enabled_update,
      field L y ''pool_size'' (yl_int L) cm_pool_size_update,
      field L y ''auto_migrate'' (yl_bool L) cm_auto_migrate_update,
      field L y ''telemetry_history_enabled'' (yl_bool L) cm_telemetry_history_enabled_update,
      field L y ''command_recovery_enabled'' (yl_bool L) cm_command_recovery_enabled_update]"

definition redis_invalid :: "redis_config \<Rightarrow> bool" where
  "redis_invalid c \<longleftrightarrow> cr_host c = [] \<or> sint (cr_port c) \<le> 0 \<or> 65535 < sint (cr_port c) \<or>
     sint (cr_database c) < 0 \<or> sint (cr_pool_size c) \<le> 0 \<or> sint (cr_connect_timeout_ms c) \<le> 0 \<or>
     sint (cr_command_timeout_ms c) \<le> 0 \<or> sint (cr_response_cache_ttl_ms c) \<le> 0 \<or>
     sint (cr_realtime_ttl_ms c) \<le> 0 \<or> sint (cr_rolling_plan_ttl_ms c) \<le> 0 \<or>
     sint (cr_command_ttl_ms c) \<le> 0 \<or> sint (cr_stream_max_len c) \<le> 0"

definition load_redis :: "'y yaml_lib \<Rightarrow> 'y \<Rightarrow> redis_config load" where
  "load_redis L y = run_load
     [field L y ''enabled'' (yl_bool L) cr_enabled_update,
      field L y ''host'' (yl_string L) cr_host_update,
      field L y ''port'' (yl_int L) cr_port_update,
      field L y ''password'' (yl_string L) cr_password_update,
      field L y ''database'' (yl_int L) cr_database_update,
      field L y ''pool_size'' (yl_int L) cr_pool_size_update,
      field L y ''connect_timeout_ms'' (yl_int L) cr_connect_timeout_ms_update,
      field L y ''command_timeout_ms'' (yl_int L) cr_command_timeout_ms_update,
      field L y ''response_cache_ttl_ms'' (yl_int L) cr_response_cache_ttl_ms_update,
      field L y ''key_prefix'' (yl_string L) cr_key_prefix_update,
      field L y ''realtime_ttl_ms'' (yl_int L) cr_realtime_ttl_ms_update,
      field L y ''rolling_plan_ttl_ms'' (yl_int L) cr_rolling_plan_ttl_ms_update,
      field L y ''command_ttl_ms'' (yl_int L) cr_command_ttl_ms_update,
      field L y ''stream_max_len'' (yl_int L) cr_stream_max_len_update,
      refuse_if redis_invalid ''redis configuration is invalid'']"

definition load_weights :: "'y yaml_lib \<Rightarrow> 'y \<Rightarrow> dispatch_config load" where
  "load_weights L y = run_load
     [field L y ''headway_urgency'' (yl_double L) cd_headway_urgency_weight_update,
      field L y ''waiting_time'' (yl_double L) cd_waiting_time_weight_update,
      field L y ''fairness_credit'' (yl_double L) cd_fairness_credit_weight_update,
      field L y ''global_plan'' (yl_double L) cd_global_plan_weight_update,
      field L y ''consecutive_penalty'' (yl_double L) cd_consecutive_penalty_weight_update]"

definition dispatch_invalid :: "dispatch_config \<Rightarrow> bool" where
  "dispatch_invalid c \<longleftrightarrow> sint (cd_shared_min_headway_ms c) \<le> 0 \<or> sint (cd_intersection_clearance_ms c) \<le> 0 \<or>
     sint (cd_shared_corridor_capacity c) \<le> 0 \<or> sint (cd_maximum_wait_ms c) \<le> 0 \<or>
     sint (cd_telemetry_stale_wall_ms c) \<le> 0 \<or> sint (cd_max_consecutive_release c) < 0"

definition load_dispatch :: "'y yaml_lib \<Rightarrow> 'y \<Rightarrow> dispatch_config load" where
  "load_dispatch L y = run_load
     [field L y ''shared_min_headway_ms'' (yl_int L) cd_shared_min_headway_ms_update,
      field L y ''intersection_clearance_ms'' (yl_int L) cd_intersection_clearance_ms_update,
      field L y ''shared_corridor_capacity'' (yl_int L) cd_shared_corridor_capacity_update,
      field L y ''maximum_wait_ms'' (yl_int L) cd_maximum_wait_ms_update,
      field L y ''telemetry_stale_wall_ms'' (yl_int L) cd_telemetry_stale_wall_ms_update,
      field L y ''max_consecutive_release'' (yl_int L) cd_max_consecutive_release_update,
      block L y ''weights'' (load_weights L),
      refuse_if dispatch_invalid ''dispatch time and count values are invalid'']"

definition route_invalid :: "route_config \<Rightarrow> bool" where
  "route_invalid c \<longleftrightarrow> ca_point_merge_tolerance c \<le> 0 \<or> ca_shared_track_tolerance c \<le> 0 \<or>
     ca_point_merge_tolerance c < ca_shared_track_tolerance c \<or> ca_vertical_separation_tolerance c \<le> 0 \<or>
     ca_shared_corridor_min_length c \<le> 0 \<or> ca_intersection_min_angle_degrees c \<le> 0 \<or>
     Fin 90 < ca_intersection_min_angle_degrees c"

definition load_route :: "'y yaml_lib \<Rightarrow> 'y \<Rightarrow> route_config load" where
  "load_route L y = run_load
     [field L y ''point_merge_tolerance'' (yl_double L) ca_point_merge_tolerance_update,
      field L y ''shared_track_tolerance'' (yl_double L) ca_shared_track_tolerance_update,
      field L y ''shared_corridor_min_length'' (yl_double L) ca_shared_corridor_min_length_update,
      field L y ''vertical_separation_tolerance'' (yl_double L) ca_vertical_separation_tolerance_update,
      field L y ''intersection_min_angle_degrees'' (yl_double L) ca_intersection_min_angle_degrees_update,
      refuse_if route_invalid ''route analysis values are invalid'']"

definition train_invalid :: "train_config \<Rightarrow> bool" where
  "train_invalid c \<longleftrightarrow> sint (ct_stale_wall_ms c) \<le> 0 \<or> ct_approach_distance c \<le> 0 \<or>
     ct_control_point_distance c < 0 \<or> ct_approach_distance c < ct_control_point_distance c"

definition load_train :: "'y yaml_lib \<Rightarrow> 'y \<Rightarrow> train_config load" where
  "load_train L y = run_load
     [field L y ''stale_wall_ms'' (yl_int L) ct_stale_wall_ms_update,
      field L y ''approach_distance'' (yl_double L) ct_approach_distance_update,
      field L y ''control_point_distance'' (yl_double L) ct_control_point_distance_update,
      refuse_if train_invalid ''train monitor values are invalid'']"

definition rolling_invalid :: "rolling_config \<Rightarrow> bool" where
  "rolling_invalid c \<longleftrightarrow> sint (cp_planning_horizon_ms c) \<le> 0 \<or> cp_minimum_prediction_speed c \<le> 0 \<or>
     sint (cp_reorder_tolerance_ms c) \<le> 0 \<or> cp_same_line_consecutive_penalty c < 0"

definition load_rolling :: "'y yaml_lib \<Rightarrow> 'y \<Rightarrow> rolling_config load" where
  "load_rolling L y = run_load
     [field L y ''planning_horizon_ms'' (yl_int L) cp_planning_horizon_ms_update,
      field L y ''minimum_prediction_speed'' (yl_double L) cp_minimum_prediction_speed_update,
      field L y ''reorder_tolerance_ms'' (yl_int L) cp_reorder_tolerance_ms_update,
      field L y ''same_line_consecutive_penalty'' (yl_double L) cp_same_line_consecutive_penalty_update,
      refuse_if rolling_invalid ''rolling planner values are invalid'']"

definition load_sections :: "'y yaml_lib \<Rightarrow> 'y \<Rightarrow> config load" where
  "load_sections L y = run_load
     [block L y ''server'' (\<lambda>n. on_part cf_server cf_server_update (load_server L n)),
      block L y ''log'' (\<lambda>n. on_part cf_log cf_log_update (load_log L n)),
      block L y ''mysql'' (\<lambda>n. on_part cf_mysql cf_mysql_update (load_mysql L n)),
      block L y ''redis'' (\<lambda>n. on_part cf_redis cf_redis_update (load_redis L n)),
      block L y ''dispatch'' (\<lambda>n. on_part cf_dispatch cf_dispatch_update (load_dispatch L n)),
      block L y ''route_analysis'' (\<lambda>n. on_part cf_route cf_route_update (load_route L n)),
      block L y ''train_monitor'' (\<lambda>n. on_part cf_train cf_train_update (load_train L n)),
      block L y ''rolling_planner'' (\<lambda>n. on_part cf_rolling cf_rolling_update (load_rolling L n))]"

text \<open>The text of an exception goes to the error output; the fields read so far stay.\<close>

definition loadYaml :: "'y yaml_lib \<Rightarrow> string \<Rightarrow> config \<Rightarrow> bool \<times> config" where
  "loadYaml L path c = (case yl_load L path of Inl e \<Rightarrow> (False, c)
     | Inr y \<Rightarrow> (case load_sections L y c of (e, c1) \<Rightarrow> (e = None, c1)))"

subsection \<open>The command line\<close>

text \<open>\<open>atoi\<close>; a value out of range is undefined behaviour (\<open>None\<close>). \<open>getopt\<close> is not part of the
  repository: the options it returns, with their arguments, are the argument of \<open>parseArgs\<close>.\<close>

definition atoi :: "string \<Rightarrow> i32 option" where
  "atoi s = (let t = dropWhile is_space s;
       neg = (t \<noteq> [] \<and> hd t = CHR ''-'');
       u = (if t \<noteq> [] \<and> (hd t = CHR ''-'' \<or> hd t = CHR ''+'') then tl t else t);
       n = int (digits_value (takeWhile is_digit u));
       v = (if neg then - n else n)
     in if - (2 ^ 31) \<le> v \<and> v < 2 ^ 31 then Some (word_of_int v) else None)"

definition set_server :: "((i32 \<Rightarrow> i32) \<Rightarrow> server_config \<Rightarrow> server_config) \<Rightarrow> string \<Rightarrow> config \<Rightarrow> config option" where
  "set_server upd optarg c = (case atoi optarg of None \<Rightarrow> None
     | Some n \<Rightarrow> Some (c\<lparr>cf_server := upd (\<lambda>_. n) (cf_server c)\<rparr>))"

definition parse_option :: "char \<Rightarrow> string \<Rightarrow> config \<Rightarrow> config option" where
  "parse_option opt optarg c =
     (if opt = CHR ''p'' then set_server cs_port_update optarg c
      else if opt = CHR ''t'' then set_server cs_thread_num_update optarg c
      else if opt = CHR ''m'' then set_server cs_trig_mode_update optarg c
      else if opt = CHR ''a'' then set_server cs_actor_model_update optarg c
      else if opt = CHR ''o'' then set_server cs_timeout_ms_update optarg c
      else if opt = CHR ''d'' then Some (c\<lparr>cf_server := (cf_server c)\<lparr>cs_daemon := True\<rparr>\<rparr>)
      else Some c)"

fun parseArgs :: "(char \<times> string) list \<Rightarrow> config \<Rightarrow> config option" where
  "parseArgs [] c = Some c"
| "parseArgs ((opt, optarg) # opts) c =
     (case parse_option opt optarg c of None \<Rightarrow> None | Some c1 \<Rightarrow> parseArgs opts c1)"

subsection \<open>What the components are given\<close>

definition dispatchManagerConfig :: "config \<Rightarrow> dispatch_manager_config" where
  "dispatchManagerConfig c = (let d = cf_dispatch c in
     \<lparr>mc_priority = \<lparr>pc_default_corridor_minimum_headway_ms = scast (cd_shared_min_headway_ms d),
        pc_maximum_wait_ms = scast (cd_maximum_wait_ms d),
        pc_telemetry_stale_wall_ms = scast (cd_telemetry_stale_wall_ms d),
        pc_max_consecutive_release = scast (cd_max_consecutive_release d),
        pc_headway_urgency_weight = cd_headway_urgency_weight d,
        pc_waiting_time_weight = cd_waiting_time_weight d,
        pc_fairness_credit_weight = cd_fairness_credit_weight d,
        pc_global_plan_weight = cd_global_plan_weight d,
        pc_consecutive_penalty_weight = cd_consecutive_penalty_weight d\<rparr>,
      mc_default_intersection_clearance_ms = scast (cd_intersection_clearance_ms d),
      mc_default_corridor_capacity = scast (cd_shared_corridor_capacity d)\<rparr>)"

definition lineRouteAnalyzerConfig :: "config \<Rightarrow> line_route_analyzer_config" where
  "lineRouteAnalyzerConfig c = (let r = cf_route c in
     \<lparr>ac_point_merge_tolerance = ca_point_merge_tolerance r,
      ac_shared_track_tolerance = ca_shared_track_tolerance r,
      ac_vertical_separation_tolerance = ca_vertical_separation_tolerance r,
      ac_shared_corridor_min_length = ca_shared_corridor_min_length r,
      ac_intersection_min_angle_degrees = ca_intersection_min_angle_degrees r\<rparr>)"

definition railwayDispatchServiceConfig :: "config \<Rightarrow> railway_dispatch_service_config" where
  "railwayDispatchServiceConfig c =
     \<lparr>rc_dispatch = dispatchManagerConfig c, rc_route_analysis = lineRouteAnalyzerConfig c,
      rc_candidate_builder = \<lparr>bc_approach_distance = ct_approach_distance (cf_train c),
        bc_control_point_distance = ct_control_point_distance (cf_train c)\<rparr>,
      rc_rolling_planner = \<lparr>al_planning_horizon_ms = scast (cp_planning_horizon_ms (cf_rolling c)),
        al_minimum_prediction_speed = cp_minimum_prediction_speed (cf_rolling c),
        al_reorder_tolerance_ms = scast (cp_reorder_tolerance_ms (cf_rolling c)),
        al_planned_minimum_spacing_ms = scast (cd_shared_min_headway_ms (cf_dispatch c)),
        al_same_line_consecutive_penalty = cp_same_line_consecutive_penalty (cf_rolling c)\<rparr>,
      rc_train_stale_wall_ms = scast (ct_stale_wall_ms (cf_train c))\<rparr>"

definition dispatchPersistenceConfig :: "config \<Rightarrow> dispatch_persistence_config" where
  "dispatchPersistenceConfig c = (let m = cf_mysql c; r = cf_redis c in
     \<lparr>pg_auto_migrate = cm_auto_migrate m, pg_telemetry_history_enabled = cm_telemetry_history_enabled m,
      pg_command_recovery_enabled = cm_command_recovery_enabled m,
      pg_realtime_ttl_ms = sint (cr_realtime_ttl_ms r), pg_rolling_plan_ttl_ms = sint (cr_rolling_plan_ttl_ms r),
      pg_command_ttl_ms = sint (cr_command_ttl_ms r), pg_stream_max_len = unat (scast (cr_stream_max_len r) :: size_t)\<rparr>)"

end
