(* ===== verification/VehicleStore.thy ===== *)
theory VehicleStore
  imports Vehicles Persist
begin

text \<open>
  The database half of \<open>VehicleManager.cpp\<close>: loading the vehicles at the start, saving them in one
  transaction at the end, and \<open>std::stod\<close>, which reads the numbers back. The database is the
  parameter of \<open>Persist\<close>; the pool pointer is whether it is set and initialised.
\<close>

subsection \<open>Reading numbers\<close>

definition hex_value :: "char \<Rightarrow> nat" where
  "hex_value c = (let n = of_char c :: nat in if n \<le> 57 then n - 48 else if n \<le> 70 then n - 55 else n - 87)"

definition is_hex :: "char \<Rightarrow> bool" where
  "is_hex c \<longleftrightarrow> is_digit c \<or> (let n = of_char c :: nat in 65 \<le> n \<and> n \<le> 70 \<or> 97 \<le> n \<and> n \<le> 102)"

text \<open>The digits before and after an optional point, and the rest.\<close>

definition split_digits :: "(char \<Rightarrow> bool) \<Rightarrow> string \<Rightarrow> string \<times> string \<times> string" where
  "split_digits dig s = (let i = takeWhile dig s; r = dropWhile dig s in
     if r \<noteq> [] \<and> hd r = CHR ''.'' \<and> (i \<noteq> [] \<or> takeWhile dig (tl r) \<noteq> [])
     then (i, takeWhile dig (tl r), dropWhile dig (tl r)) else (i, [], r))"

text \<open>An exponent after one of the given letters: a sign and at least one digit; otherwise there is none.\<close>

definition exponent_of :: "string \<Rightarrow> string \<Rightarrow> int" where
  "exponent_of letters s = (if s = [] \<or> hd s \<notin> set letters then 0 else
     let t = tl s; neg = (t \<noteq> [] \<and> hd t = CHR ''-'');
         u = (if t \<noteq> [] \<and> (hd t = CHR ''-'' \<or> hd t = CHR ''+'') then tl t else t);
         n = int (digits_value (takeWhile is_digit u))
     in if neg then - n else n)"

definition read_decimal :: "string \<Rightarrow> rat option" where
  "read_decimal s = (case split_digits is_digit s of (i, f, r) \<Rightarrow>
     if i = [] \<and> f = [] then None
     else Some (of_nat (digits_value (i @ f)) * 10 powi (exponent_of ''eE'' r - int (length f))))"

definition read_hex :: "string \<Rightarrow> rat option" where
  "read_hex s = (case split_digits is_hex s of (i, f, r) \<Rightarrow>
     if i = [] \<and> f = [] then None
     else Some (of_nat (foldl (\<lambda>n c. 16 * n + hex_value c) 0 (i @ f)) *
       2 powi (exponent_of ''pP'' r - 4 * int (length f))))"

text \<open>
  \<open>std::stod\<close> on \<open>strtod\<close>: white space, a sign, then a decimal or hexadecimal number, an infinity or a
  NaN; what follows is ignored. It throws when there is no number, when the value overflows, and when it is
  so small that precision is lost (glibc sets ERANGE there).
\<close>

definition ranged :: "bool \<Rightarrow> rat \<Rightarrow> double res" where
  "ranged neg x = (let d = mk_double (if neg then - x else x) in
     if \<not> isfinite d \<or> (x \<noteq> 0 \<and> x < 2 powi (- 1022) \<and> d \<noteq> Fin (if neg then - x else x))
     then Inl ''stod'' else Inr d)"

definition stod :: "string \<Rightarrow> double res" where
  "stod s = (let t = dropWhile is_space s;
       neg = (t \<noteq> [] \<and> hd t = CHR ''-'');
       u = (if t \<noteq> [] \<and> (hd t = CHR ''-'' \<or> hd t = CHR ''+'') then tl t else t)
     in if prefix ''0x'' (lower u) \<and> read_hex (drop 2 u) \<noteq> None then ranged neg (the (read_hex (drop 2 u)))
        else case read_decimal u of Some x \<Rightarrow> ranged neg x
        | None \<Rightarrow> if prefix ''inf'' (lower u) then Inr (if neg then NInf else PInf)
            else if prefix ''nan'' (lower u) then Inr NaN else Inl ''stod'')"

subsection \<open>Loading\<close>

definition create_vehicles_sql :: string where
  "create_vehicles_sql = ''CREATE TABLE IF NOT EXISTS game_service_vehicles ('' @
     ''id VARCHAR(255) PRIMARY KEY,'' @
     ''service VARCHAR(64) NOT NULL,'' @
     ''prefab VARCHAR(255) NOT NULL,'' @
     ''status VARCHAR(255) NOT NULL,'' @
     ''x DOUBLE NOT NULL,'' @
     ''y DOUBLE NOT NULL,'' @
     ''z DOUBLE NOT NULL,'' @
     ''speed DOUBLE NOT NULL DEFAULT 0,'' @
     ''heading DOUBLE NOT NULL DEFAULT 0'' @
     '') ENGINE=InnoDB DEFAULT CHARSET=utf8mb4''"

definition create_metadata_sql :: string where
  "create_metadata_sql = ''CREATE TABLE IF NOT EXISTS game_vehicle_snapshot ('' @
     ''id TINYINT UNSIGNED PRIMARY KEY,'' @
     ''snapshot_timestamp BIGINT UNSIGNED NOT NULL DEFAULT 0,'' @
     ''min_x DOUBLE NOT NULL DEFAULT -8640,'' @
     ''max_x DOUBLE NOT NULL DEFAULT 8640,'' @
     ''min_z DOUBLE NOT NULL DEFAULT -8640,'' @
     ''max_z DOUBLE NOT NULL DEFAULT 8640'' @
     '') ENGINE=InnoDB DEFAULT CHARSET=utf8mb4''"

definition vehicles_query :: string where
  "vehicles_query = ''SELECT id, service, prefab, status, x, y, z, speed, heading '' @
     ''FROM game_service_vehicles''"

definition metadata_query :: string where
  "metadata_query = ''SELECT snapshot_timestamp, min_x, max_x, min_z, max_z '' @
     ''FROM game_vehicle_snapshot WHERE id=1''"

definition number_or :: "double \<Rightarrow> string option \<Rightarrow> double res" where
  "number_or dflt cell = (case cell of None \<Rightarrow> Inr dflt | Some s \<Rightarrow> stod s)"

definition load_vehicle :: "string option list \<Rightarrow> vehicle_state res" where
  "load_vehicle row =
     res_bind (number_or 0 (column row 4)) (\<lambda>x. res_bind (number_or 0 (column row 5)) (\<lambda>y.
     res_bind (number_or 0 (column row 6)) (\<lambda>z. res_bind (number_or 0 (column row 7)) (\<lambda>speed.
     res_bind (number_or 0 (column row 8)) (\<lambda>heading.
     Inr \<lparr>ve_id = text_or (column row 0) [], ve_service = text_or (column row 1) [],
       ve_prefab = text_or (column row 2) [], ve_status = text_or (column row 3) [],
       ve_position = \<lparr>vp_x = x, vp_y = y, vp_z = z\<rparr>, ve_speed = speed, ve_heading = heading\<rparr>)))))"

fun load_vehicles :: "string option list list \<Rightarrow> (string, vehicle_state) umap \<Rightarrow> (string, vehicle_state) umap res" where
  "load_vehicles [] loaded = Inr loaded"
| "load_vehicles (row # rows) loaded = res_bind (load_vehicle row) (\<lambda>v. load_vehicles rows (um_put (ve_id v) v loaded))"

definition load_metadata :: "string option list list \<Rightarrow> (u64 \<times> game_map_bounds) res" where
  "load_metadata rows = (case rows of [] \<Rightarrow> Inr (0, default_bounds) | row # _ \<Rightarrow>
     res_bind (case column row 0 of None \<Rightarrow> Inr 0 | Some s \<Rightarrow> stoull_res s) (\<lambda>timestamp.
     res_bind (number_or (mb_min_x default_bounds) (column row 1)) (\<lambda>min_x.
     res_bind (number_or (mb_max_x default_bounds) (column row 2)) (\<lambda>max_x.
     res_bind (number_or (mb_min_z default_bounds) (column row 3)) (\<lambda>min_z.
     res_bind (number_or (mb_max_z default_bounds) (column row 4)) (\<lambda>max_z.
     Inr (timestamp, \<lparr>mb_min_x = min_x, mb_max_x = max_x, mb_min_z = min_z, mb_max_z = max_z\<rparr>)))))))"

text \<open>
  \<open>query(conn, sql)\<close>, and the statements of a list up to the first that fails.
\<close>

definition query_ok :: "'db mysql \<Rightarrow> 'db \<Rightarrow> string \<Rightarrow> bool \<times> 'db" where
  "query_ok M db sql = (case my_query M db sql of (e, db1) \<Rightarrow> (e = None, db1))"

fun query_all :: "'db mysql \<Rightarrow> 'db \<Rightarrow> string list \<Rightarrow> bool \<times> 'db" where
  "query_all M db [] = (True, db)"
| "query_all M db (sql # rest) = (case query_ok M db sql of (ok, db1) \<Rightarrow> if ok then query_all M db1 rest else (False, db1))"

text \<open>The rows a query answers with; \<open>None\<close> when it or its result fails.\<close>

definition query_rows :: "'db mysql \<Rightarrow> 'db \<Rightarrow> string \<Rightarrow> string option list list option \<times> 'db" where
  "query_rows M db sql = (case query_ok M db sql of (ok, db1) \<Rightarrow> (if ok then my_rows M db1 else None, db1))"

text \<open>\<open>None\<close>: the pool had no connection, and the code uses the null pointer. \<open>Inl\<close>: an exception of
  \<open>stod\<close> or \<open>stoull\<close>, with nothing assigned yet.\<close>

definition vehicles_enablePersistence ::
    "'db mysql \<Rightarrow> 'db \<Rightarrow> bool \<Rightarrow> vehicle_manager \<Rightarrow> bool res option \<times> 'db \<times> vehicle_manager" where
  "vehicles_enablePersistence M db pool_ready m =
     (if \<not> pool_ready then (Some (Inr False), db, m)
      else if \<not> my_connect M db then (None, db, m)
      else case query_all M db [create_vehicles_sql, create_metadata_sql] of (ok, db1) \<Rightarrow>
        if \<not> ok then (Some (Inr False), db1, m)
        else case query_rows M db1 vehicles_query of
          (None, db2) \<Rightarrow> (Some (Inr False), db2, m)
        | (Some rows, db2) \<Rightarrow> (case load_vehicles rows [] of
            Inl e \<Rightarrow> (Some (Inl e), db2, m)
          | Inr loaded \<Rightarrow> (case query_rows M db2 metadata_query of
              (None, db3) \<Rightarrow> (Some (Inr False), db3, m)
            | (Some meta, db3) \<Rightarrow> (case load_metadata meta of
                Inl e \<Rightarrow> (Some (Inl e), db3, m)
              | Inr (timestamp, bounds) \<Rightarrow> (Some (Inr True), db3,
                  \<lparr>vm_vehicles = loaded, vm_snapshot_timestamp = timestamp, vm_map_bounds = bounds,
                   vm_db_pool = True\<rparr>)))))"

subsection \<open>Saving\<close>

definition vehicle_statement :: "'db mysql \<Rightarrow> vehicle_state \<Rightarrow> string" where
  "vehicle_statement M v =
     ''INSERT INTO game_service_vehicles '' @
     ''(id, service, prefab, status, x, y, z, speed, heading) VALUES ('' @
     quoted M (ve_id v) @ '','' @ quoted M (ve_service v) @ '','' @ quoted M (ve_prefab v) @ '','' @
     quoted M (ve_status v) @ '','' @ fmt_general 17 (vp_x (ve_position v)) @ '','' @
     fmt_general 17 (vp_y (ve_position v)) @ '','' @ fmt_general 17 (vp_z (ve_position v)) @ '','' @
     fmt_general 17 (ve_speed v) @ '','' @ fmt_general 17 (ve_heading v) @ '')''"

definition metadata_statement :: "vehicle_snapshot \<Rightarrow> string" where
  "metadata_statement s =
     ''REPLACE INTO game_vehicle_snapshot '' @
     ''(id, snapshot_timestamp, min_x, max_x, min_z, max_z) VALUES (1,'' @
     string_of_u64 (vs_timestamp s) @ '','' @ fmt_general 17 (mb_min_x (vs_map s)) @ '','' @
     fmt_general 17 (mb_max_x (vs_map s)) @ '','' @ fmt_general 17 (mb_min_z (vs_map s)) @ '','' @
     fmt_general 17 (mb_max_z (vs_map s)) @ '')''"

definition save_statements :: "'db mysql \<Rightarrow> vehicle_snapshot \<Rightarrow> string list" where
  "save_statements M s = [''DELETE FROM game_service_vehicles''] @ map (vehicle_statement M) (vs_vehicles s) @
     [metadata_statement s]"

definition saveAll :: "'db mysql \<Rightarrow> 'db \<Rightarrow> vehicle_manager \<Rightarrow> bool option \<times> 'db" where
  "saveAll M db m = (if \<not> vm_db_pool m then (Some True, db)
     else if \<not> my_connect M db then (None, db)
     else case query_all M db ([''START TRANSACTION''] @ save_statements M (getSnapshot m) @ [''COMMIT'']) of
         (True, db1) \<Rightarrow> (Some True, db1)
       | (False, db1) \<Rightarrow> (Some False, snd (my_query M db1 ''ROLLBACK'')))"

subsection \<open>All or nothing\<close>

lemma save_statements_dml: "sql \<in> set (save_statements M s) \<Longrightarrow> is_dml sql"
  by (auto simp: save_statements_def vehicle_statement_def metadata_statement_def is_dml_def)

lemma query_all_outcome:
  assumes tx: "mysql_tx M committed work E"
    and "query_all M db (stmts @ [''COMMIT'']) = (ok, db1)" "\<And>sql. sql \<in> set stmts \<Longrightarrow> is_dml sql" "work db = Some v"
  shows "if ok then effects E stmts v (committed db1) \<and> work db1 = None
    else committed db1 = committed db \<or>
      effects E stmts v (committed db1) \<and> (\<exists>d e d'. my_query M d ''COMMIT'' = (Some e, d'))"
  using assms(2-)
proof (induction stmts arbitrary: db v)
  case Nil
  obtain e where e: "my_query M db ''COMMIT'' = (e, db1)" "ok \<longleftrightarrow> e = None"
    using Nil(1) by (auto simp: query_ok_def split: prod.split_asm if_split_asm)
  show ?case
  proof (cases e)
    case None
    then show ?thesis using mysql_txD(5) [OF tx Nil(3)] e by simp
  next
    case (Some err)
    then show ?thesis using mysql_txD(6) [OF tx Nil(3)] e by auto
  qed
next
  case (Cons sql stmts)
  obtain e db2 where q: "my_query M db sql = (e, db2)" by fastforce
  have dml: "is_dml sql" by (simp add: Cons.prems(2))
  show ?case
  proof (cases e)
    case None
    then obtain u where u: "committed db2 = committed db" "work db2 = Some u" "E sql v u"
      using mysql_txD(2) [OF tx Cons.prems(3) dml] q by auto
    have "query_all M db2 (stmts @ [''COMMIT'']) = (ok, db1)" using Cons.prems(1) q None by (simp add: query_ok_def)
    from Cons.IH [OF this _ u(2)] Cons.prems(2) u(1,3) show ?thesis by (auto split: if_splits)
  next
    case (Some err)
    then show ?thesis using Cons.prems(1) q mysql_txD(3) [OF tx Cons.prems(3) dml] by (simp add: query_ok_def)
  qed
qed

text \<open>C39: the vehicles are saved all or not at all. For a MySQL that behaves as documented, a \<open>saveAll\<close> that
  returns true has had the effect of all its statements, in order: the old rows are deleted, every vehicle
  and the snapshot's time and bounds are written. When it returns false (a statement at any place fails, or
  the commit) the committed rows are as they were, so the deletion of the old rows never stands without
  the new ones; only when it was the \<open>COMMIT\<close> that was answered with an error, whose outcome is unknown, they
  may be the new rows, all of them. Without a connection nothing is changed.\<close>

theorem save_is_all_or_nothing:
  assumes tx: "mysql_tx M committed work E" and "work db = None" and "saveAll M db m = (r, db1)"
  defines "stored \<equiv> effects E ([''DELETE FROM game_service_vehicles''] @
      map (vehicle_statement M) (vs_vehicles (getSnapshot m)) @ [metadata_statement (getSnapshot m)])
      (committed db) (committed db1)"
  shows "(r = Some True \<longrightarrow> (if vm_db_pool m then stored else committed db1 = committed db)) \<and>
    (r = Some False \<longrightarrow> committed db1 = committed db \<or>
       stored \<and> (\<exists>d e d'. my_query M d ''COMMIT'' = (Some e, d'))) \<and>
    (r = None \<longrightarrow> committed db1 = committed db)"
proof (cases "vm_db_pool m \<and> my_connect M db")
  case True
  let ?stmts = "save_statements M (getSnapshot m)"
  obtain ok db2 where q: "query_all M db (''START TRANSACTION'' # ?stmts @ [''COMMIT'']) = (ok, db2)" by fastforce
  then have res: "r = Some ok" "db1 = (if ok then db2 else snd (my_query M db2 ''ROLLBACK''))"
    using assms(3) True by (auto simp: saveAll_def simp del: query_all.simps split: bool.split_asm)
  have com: "committed db1 = committed db2" unfolding res(2) by (simp add: mysql_txD(7) [OF tx])
  obtain e db3 where s: "my_query M db ''START TRANSACTION'' = (e, db3)" by fastforce
  note start = mysql_txD(1) [OF tx assms(2) s]
  have out: "if ok then effects E ?stmts (committed db) (committed db2)
    else committed db2 = committed db \<or>
      effects E ?stmts (committed db) (committed db2) \<and> (\<exists>d e d'. my_query M d ''COMMIT'' = (Some e, d'))"
  proof (cases e)
    case None
    then have "query_all M db3 (?stmts @ [''COMMIT'']) = (ok, db2)" using q s by (simp add: query_ok_def)
    have dml: "is_dml sql" if "sql \<in> set ?stmts" for sql using that by (rule save_statements_dml)
    have "work db3 = Some (committed db)" "committed db3 = committed db" using start None by auto
    from query_all_outcome [OF tx \<open>query_all M db3 (?stmts @ [''COMMIT'']) = (ok, db2)\<close> dml this(1)] this(2)
    show ?thesis by (auto split: if_splits)
  next
    case (Some err)
    then show ?thesis using q s start by (auto simp: query_ok_def)
  qed
  then show ?thesis using True res(1) com unfolding stored_def save_statements_def by (auto split: if_splits)
qed (use assms(3) in \<open>auto simp: saveAll_def split: if_split_asm\<close>)

lemma save_is_all_or_nothing_witness:
  "\<exists>m db. vm_db_pool m \<and> vm_vehicles m \<noteq> [] \<and>
     saveAll demo_mysql \<lparr>db_committed = [''old row''], db_pending = None\<rparr> m = (Some False, db) \<and> db_committed db = [''old row'']"
proof -
  let ?v = "\<lparr>ve_id = ''bus'', ve_service = [], ve_prefab = [], ve_status = [], ve_position = \<lparr>vp_x = 0, vp_y = 0, vp_z = 0\<rparr>,
     ve_speed = 0, ve_heading = 0\<rparr>"
  let ?m = "new_vehicle_manager\<lparr>vm_vehicles := [(''bus'', ?v)], vm_db_pool := True\<rparr>"
  let ?db = "\<lparr>db_committed = [''old row''], db_pending = None\<rparr>"
  have dml: "is_dml ''DELETE FROM game_service_vehicles''" "is_dml (vehicle_statement M v)" "is_dml (metadata_statement s)" for M v s
    by (simp_all add: vehicle_statement_def metadata_statement_def is_dml_def)
  have sel: "my_query demo_mysql = demo_query" "my_connect demo_mysql db" for db by (simp_all add: demo_mysql_def)
  have "\<exists>db. saveAll demo_mysql ?db ?m = (Some False, db)"
    by (simp add: saveAll_def save_statements_def query_ok_def sel demo_query_dml [OF dml(1)] demo_query_dml [OF dml(2)]
        demo_query_dml [OF dml(3)] demo_query_control getSnapshot_def)
  then obtain db where db: "saveAll demo_mysql ?db ?m = (Some False, db)" by blast
  have "demo_work ?db = None" by (simp add: demo_work_def)
  note th = save_is_all_or_nothing [OF demo_mysql_tx this db, THEN conjunct2, THEN conjunct1, rule_format, OF refl]
  have "fst (my_query demo_mysql d ''COMMIT'') = None" for d
    unfolding sel(1) by (simp add: demo_query_def split: option.split)
  then have "\<not> (\<exists>d e d'. my_query demo_mysql d ''COMMIT'' = (Some e, d'))" by (metis fst_conv option.distinct(1))
  with th have "db_committed db = [''old row'']" by simp
  then show ?thesis using db by (intro exI [of _ ?m] exI [of _ db]) simp
qed

end
