(* ===== verification/Startup.thy ===== *)
theory Startup
  imports Config VehicleStore Api Recovery
begin

text \<open>
  \<open>main.cpp\<close> and what a configuration guarantees: a file that loads is accepted by every component,
  and the order in which the process brings its parts up, until it serves requests or exits.
\<close>

subsection \<open>What loading establishes\<close>

text \<open>The fields that no check of the file rejects, in the defaults and after every section.\<close>

definition checked :: "config \<Rightarrow> bool" where
  "checked c \<longleftrightarrow> \<not> redis_invalid (cf_redis c) \<and> \<not> dispatch_invalid (cf_dispatch c) \<and> \<not> route_invalid (cf_route c) \<and>
     \<not> train_invalid (cf_train c) \<and> \<not> rolling_invalid (cf_rolling c)"

text \<open>The numbers are finite, which the file does not check.\<close>

definition finite_numbers :: "config \<Rightarrow> bool" where
  "finite_numbers c \<longleftrightarrow> list_all isfinite
     [cd_headway_urgency_weight (cf_dispatch c), cd_waiting_time_weight (cf_dispatch c),
      cd_fairness_credit_weight (cf_dispatch c), cd_global_plan_weight (cf_dispatch c),
      cd_consecutive_penalty_weight (cf_dispatch c), ca_point_merge_tolerance (cf_route c),
      ca_shared_track_tolerance (cf_route c), ca_vertical_separation_tolerance (cf_route c),
      ca_shared_corridor_min_length (cf_route c), ca_intersection_min_angle_degrees (cf_route c),
      ct_approach_distance (cf_train c), ct_control_point_distance (cf_train c),
      cp_minimum_prediction_speed (cf_rolling c), cp_same_line_consecutive_penalty (cf_rolling c)]"

lemma run_load_refused:
  "\<lbrakk>run_load fs c = (None, c1); fs \<noteq> []; last fs = refuse_if bad msg\<rbrakk> \<Longrightarrow> \<not> bad c1"
  by (induction fs arbitrary: c) (auto simp: refuse_if_def split: prod.splits option.splits if_splits)

definition keeps_checked :: "config load \<Rightarrow> bool" where
  "keeps_checked f \<longleftrightarrow> (\<forall>c c1. checked c \<longrightarrow> f c = (None, c1) \<longrightarrow> checked c1)"

lemma run_load_keeps: "list_all keeps_checked fs \<Longrightarrow> keeps_checked (run_load fs)"
proof (induction fs)
  case (Cons f fs)
  then have ih: "keeps_checked (run_load fs)" and f: "keeps_checked f" by simp_all
  have "checked c1" if c: "checked c" "run_load (f # fs) c = (None, c1)" for c c1
  proof -
    obtain c2 where c2: "f c = (None, c2)" "run_load fs c2 = (None, c1)"
      using c(2) by (auto split: prod.splits option.splits)
    then have "checked c2" using f c(1) unfolding keeps_checked_def by blast
    then show ?thesis using ih c2(2) unfolding keeps_checked_def by blast
  qed
  then show ?case by (simp add: keeps_checked_def del: run_load.simps)
qed (simp add: keeps_checked_def)

lemma block_keeps:
  assumes "\<And>n c p. checked c \<Longrightarrow> f n (sel c) = (None, p) \<Longrightarrow> checked (upd (\<lambda>_. p) c)"
  shows "keeps_checked (block L y key (\<lambda>n. on_part sel upd (f n)))"
  using assms by (auto simp: keeps_checked_def block_def on_part_def split: sum.splits option.splits prod.splits)

lemma redis_checked: "load_redis L n c = (None, c1) \<Longrightarrow> \<not> redis_invalid c1"
  unfolding load_redis_def by (erule run_load_refused [where bad = redis_invalid]) simp_all

lemma dispatch_checked: "load_dispatch L n c = (None, c1) \<Longrightarrow> \<not> dispatch_invalid c1"
  unfolding load_dispatch_def by (erule run_load_refused [where bad = dispatch_invalid]) simp_all

lemma route_checked: "load_route L n c = (None, c1) \<Longrightarrow> \<not> route_invalid c1"
  unfolding load_route_def by (erule run_load_refused [where bad = route_invalid]) simp_all

lemma train_checked: "load_train L n c = (None, c1) \<Longrightarrow> \<not> train_invalid c1"
  unfolding load_train_def by (erule run_load_refused [where bad = train_invalid]) simp_all

lemma rolling_checked: "load_rolling L n c = (None, c1) \<Longrightarrow> \<not> rolling_invalid c1"
  unfolding load_rolling_def by (erule run_load_refused [where bad = rolling_invalid]) simp_all

lemma sections_keep_checked: "keeps_checked (load_sections L y)"
  unfolding load_sections_def
  by (rule run_load_keeps, unfold list.pred_inject, intro conjI TrueI, (rule block_keeps, simp add: checked_def
        redis_checked dispatch_checked route_checked train_checked rolling_checked)+, simp)

lemma parse_option_keeps: "parse_option opt optarg c = Some c1 \<Longrightarrow> \<exists>sc. c1 = c\<lparr>cf_server := sc\<rparr>"
proof -
  have "\<exists>sc. c = c\<lparr>cf_server := sc\<rparr>" by (rule exI [of _ "cf_server c"]) simp
  moreover have "\<exists>sc. c2 = c\<lparr>cf_server := sc\<rparr>" if "set_server upd optarg c = Some c2" for upd c2
    using that unfolding set_server_def by (cases "atoi optarg") auto
  moreover assume "parse_option opt optarg c = Some c1"
  ultimately show ?thesis unfolding parse_option_def by (simp split: if_splits) blast+
qed

lemma parseArgs_keeps: "parseArgs opts c = Some c1 \<Longrightarrow> \<exists>sc. c1 = c\<lparr>cf_server := sc\<rparr>"
proof (induction opts c rule: parseArgs.induct)
  case (1 c)
  then show ?case by (intro exI [of _ "cf_server c"]) simp
next
  case (2 opt optarg opts c)
  obtain c2 where c2: "parse_option opt optarg c = Some c2" "parseArgs opts c2 = Some c1"
    using "2.prems" by (auto split: option.splits)
  obtain sc where sc: "c2 = c\<lparr>cf_server := sc\<rparr>" using parse_option_keeps [OF c2(1)] by blast
  obtain sc' where "c1 = c2\<lparr>cf_server := sc'\<rparr>" using "2.IH" [OF c2] by blast
  then show ?case unfolding sc by (intro exI [of _ sc']) simp
qed

subsection \<open>A loaded configuration starts the service\<close>

lemma scast_positive: "0 < sint (x :: i32) \<Longrightarrow> (scast x :: u64) \<noteq> 0"
proof
  assume "0 < sint x" "(scast x :: u64) = 0"
  moreover have "sint (scast x :: u64) = sint x" by (simp add: sint_up_scast is_up)
  ultimately show False by simp
qed

lemma default_checked: "checked default_config"
  by (simp add: checked_def default_config_def redis_invalid_def dispatch_invalid_def route_invalid_def
      train_invalid_def rolling_invalid_def double_simps)

lemma checked_configures:
  assumes "checked c" "finite_numbers c"
  shows "\<exists>s'. configure s (railwayDispatchServiceConfig c) = Done () s'"
proof -
  let ?r = "railwayDispatchServiceConfig c"
  have "rc_train_stale_wall_ms ?r \<noteq> 0" using assms(1)
    by (simp add: checked_def train_invalid_def railwayDispatchServiceConfig_def scast_positive)
  moreover have "analyzer_config_ok (rc_route_analysis ?r)" using assms
    by (simp add: analyzer_config_ok_def checked_def route_invalid_def finite_numbers_def railwayDispatchServiceConfig_def
        lineRouteAnalyzerConfig_def Let_def)
  then have "\<exists>t. new_line_topology_registry (rc_route_analysis ?r) = Inr t"
    by (simp add: new_line_topology_registry_def new_line_route_analyzer_def)
  moreover have "\<exists>b. new_dispatch_candidate_builder (rc_candidate_builder ?r) = Inr b" using assms
    by (simp add: new_dispatch_candidate_builder_def builder_config_ok_def checked_def train_invalid_def
        finite_numbers_def railwayDispatchServiceConfig_def)
  moreover have "\<exists>p. new_affected_line_planner (rc_rolling_planner ?r) = Inr p" using assms
    by (simp add: new_affected_line_planner_def checked_def rolling_invalid_def dispatch_invalid_def
        finite_numbers_def railwayDispatchServiceConfig_def scast_positive)
  moreover have "\<exists>m. new_dispatch_manager (rc_dispatch ?r) = Inr m" using assms
    by (simp add: new_dispatch_manager_def new_dynamic_priority_policy_def checked_def dispatch_invalid_def
        finite_numbers_def railwayDispatchServiceConfig_def dispatchManagerConfig_def Let_def scast_positive)
  ultimately show ?thesis by (auto simp: configure_def Let_def)
qed

text \<open>C38: a configuration that loads is accepted by the dispatch service and its storage. When the file is accepted,
  the command line is in range and the numbers are finite (the file may hold a NaN, which no comparison
  rejects), configuring the dispatch service (analyzer, registry, candidate builder, planner, policy and
  dispatch manager) throws nothing, whatever its state, and \<open>DispatchPersistence\<close> accepts its limits and
  starts on Redis alone. The connection pool and the workers are not covered: \<open>loadYaml\<close> checks neither
  the MySQL host, port and pool size, which \<open>DBConnectionPool::init\<close> may refuse, nor \<open>thread_num\<close>.\<close>

theorem loaded_configuration_starts:
  assumes "loadYaml L path default_config = (True, c0)" and "parseArgs opts c0 = Some c" and "finite_numbers c"
  shows "(\<exists>s'. configure s (railwayDispatchServiceConfig c) = Done () s') \<and>
    (rd_enabled R \<longrightarrow> (\<exists>p'. initialize M R p False True (dispatchPersistenceConfig c) = (Ok (), p')))"
proof -
  obtain y where "(case load_sections L y default_config of (e, c1) \<Rightarrow> (e = None, c1)) = (True, c0)"
    using assms(1) unfolding loadYaml_def by (cases "yl_load L path") simp_all
  moreover obtain e c1 where p: "load_sections L y default_config = (e, c1)" by (rule prod.exhaust)
  ultimately have "load_sections L y default_config = (None, c0)" unfolding p prod.case prod.inject by blast
  then have "checked c0" by (rule sections_keep_checked [unfolded keeps_checked_def, rule_format, OF default_checked])
  moreover obtain sc where "c = c0\<lparr>cf_server := sc\<rparr>" using parseArgs_keeps [OF assms(2)] by (elim exE)
  ultimately have c: "checked c" by (simp add: checked_def)
  then have "pg_realtime_ttl_ms (dispatchPersistenceConfig c) > 0" "pg_rolling_plan_ttl_ms (dispatchPersistenceConfig c) > 0"
    "pg_command_ttl_ms (dispatchPersistenceConfig c) > 0" "pg_stream_max_len (dispatchPersistenceConfig c) \<noteq> 0"
    by (simp_all add: checked_def redis_invalid_def dispatchPersistenceConfig_def Let_def scast_positive unat_eq_zero)
  then have "rd_enabled R \<longrightarrow> (\<exists>p'. initialize M R p False True (dispatchPersistenceConfig c) = (Ok (), p'))"
    by (simp add: initialize_def)
  then show ?thesis using checked_configures [OF c assms(3)] by simp
qed

text \<open>A file with one entry in its dispatch section; a file whose route tolerance is not a number.\<close>

definition demo_yaml :: "string yaml_lib" where
  "demo_yaml = \<lparr>yl_load = (\<lambda>p. Inr p),
     yl_get = (\<lambda>n k. if n = ''wait'' \<and> k = ''dispatch'' then Inr (Some k)
       else if n = ''dispatch'' \<and> k = ''maximum_wait_ms'' then Inr (Some ''9000'')
       else if n = ''nan'' \<and> k = ''route_analysis'' then Inr (Some k)
       else if n = ''route_analysis'' \<and> k = ''point_merge_tolerance'' then Inr (Some ''.nan'') else Inr None),
     yl_int = (\<lambda>s. case atoi s of None \<Rightarrow> Inl ''bad conversion'' | Some n \<Rightarrow> Inr n),
     yl_double = (\<lambda>s. if s = ''.nan'' then Inr NaN else Inl ''bad conversion''),
     yl_bool = (\<lambda>s. Inr (s = ''true'')), yl_string = Inr\<rparr>"

definition demo_loaded_config :: config where
  "demo_loaded_config = default_config\<lparr>cf_dispatch := (cf_dispatch default_config)\<lparr>cd_maximum_wait_ms := 9000\<rparr>\<rparr>"

lemma atoi_9000: "atoi ''9000'' = Some 9000"
  by code_simp

lemma demo_yaml_loads: "loadYaml demo_yaml ''wait'' default_config = (True, demo_loaded_config)"
  by (simp add: loadYaml_def load_sections_def block_def demo_yaml_def on_part_def load_dispatch_def field_def atoi_9000
      refuse_if_def dispatch_invalid_def default_config_def demo_loaded_config_def)

lemma default_finite: "finite_numbers default_config"
proof -
  obtain a where "mk_double (3 / 10) = Fin a" using unit_lit [of "3 / 10"] by auto
  moreover obtain b where "mk_double (1 / 5) = Fin b" using unit_lit [of "1 / 5"] by auto
  ultimately show ?thesis by (simp add: finite_numbers_def default_config_def double_simps)
qed

lemma loaded_configuration_starts_witness:
  "\<exists>c0 c p'. loadYaml demo_yaml ''wait'' default_config = (True, c0) \<and> parseArgs [(CHR ''p'', ''9000'')] c0 = Some c \<and>
     cs_port (cf_server c) = 9000 \<and> cd_maximum_wait_ms (cf_dispatch c) = 9000 \<and>
     initialize demo_mysql \<lparr>rd_enabled = True, rd_answer = (\<lambda>_. True)\<rparr> demo_persistence False True
       (dispatchPersistenceConfig c) = (Ok (), p')"
proof -
  let ?c = "demo_loaded_config\<lparr>cf_server := (cf_server demo_loaded_config)\<lparr>cs_port := 9000\<rparr>\<rparr>"
  have args: "parseArgs [(CHR ''p'', ''9000'')] demo_loaded_config = Some ?c"
    by (simp add: parse_option_def set_server_def atoi_9000)
  have "finite_numbers ?c" using default_finite by (simp add: demo_loaded_config_def finite_numbers_def)
  from loaded_configuration_starts [OF demo_yaml_loads args this, of _ "\<lparr>rd_enabled = True, rd_answer = (\<lambda>_. True)\<rparr>"
      demo_mysql demo_persistence]
  show ?thesis using args demo_yaml_loads by (intro exI [of _ demo_loaded_config] exI [of _ ?c]) (auto simp: demo_loaded_config_def)
qed

text \<open>Without that premise: a tolerance that is not a number is loaded, and then ends the process.\<close>

lemma nan_is_loaded_and_fatal:
  "\<exists>c s'. loadYaml demo_yaml ''nan'' default_config = (True, c) \<and>
     configure s (railwayDispatchServiceConfig c) = Thrown ''line route analyzer limits must be positive'' s'"
proof -
  let ?c = "default_config\<lparr>cf_route := (cf_route default_config)\<lparr>ca_point_merge_tolerance := NaN\<rparr>\<rparr>"
  have "loadYaml demo_yaml ''nan'' default_config = (True, ?c)"
    by (simp add: loadYaml_def load_sections_def block_def demo_yaml_def on_part_def load_route_def field_def
        refuse_if_def route_invalid_def default_config_def double_simps)
  moreover have "scast (ct_stale_wall_ms (cf_train ?c)) \<noteq> (0 :: u64)"
    by (rule scast_positive) (simp add: default_config_def)
  then have "\<exists>s'. configure s (railwayDispatchServiceConfig ?c) = Thrown ''line route analyzer limits must be positive'' s'"
    by (simp add: configure_def railwayDispatchServiceConfig_def lineRouteAnalyzerConfig_def new_line_topology_registry_def
        new_line_route_analyzer_def analyzer_config_ok_def Let_def)
  ultimately show ?thesis by blast
qed

subsection \<open>The start of the process\<close>

datatype 'db startup = Exit nat | Terminated string | Faulted | Serving config server "'db persistence"

definition working_config :: string where "working_config = ''./config/config.yaml''"

definition choose_config :: "(string \<Rightarrow> bool) \<Rightarrow> string \<Rightarrow> string" where
  "choose_config exists_file executable_config = (if exists_file working_config then working_config
     else if exists_file executable_config then executable_config else [])"

text \<open>\<open>Inl\<close> is the exit code; \<open>None\<close> a command line number out of range.\<close>

definition main_config ::
    "'y yaml_lib \<Rightarrow> (string \<Rightarrow> bool) \<Rightarrow> string \<Rightarrow> (char \<times> string) list \<Rightarrow> (nat + config) option" where
  "main_config Y exists_file executable_config opts = (let path = choose_config exists_file executable_config in
     case (if path \<noteq> [] then loadYaml Y path default_config else (True, default_config)) of (ok, c) \<Rightarrow>
       if \<not> ok then Some (Inl 2)
       else case parseArgs opts c of None \<Rightarrow> None | Some c1 \<Rightarrow> Some (Inr c1))"

text \<open>The vehicles, when MySQL is configured. \<open>pool_ok\<close> is the answer of the connection pool.\<close>

definition start_vehicles ::
    "'db mysql \<Rightarrow> 'db \<Rightarrow> bool \<Rightarrow> config \<Rightarrow> 'db startup + (vehicle_manager \<times> 'db)" where
  "start_vehicles M db pool_ok c =
     (if \<not> cm_enabled (cf_mysql c) then Inr (new_vehicle_manager, db)
      else if \<not> pool_ok then Inl (Exit 1)
      else case vehicles_enablePersistence M db True new_vehicle_manager of
          (None, _) \<Rightarrow> Inl Faulted
        | (Some (Inl e), _) \<Rightarrow> Inl (Terminated e)
        | (Some (Inr ok), db1, m) \<Rightarrow> if ok then Inr (m, db1) else Inl (Exit 1))"

text \<open>The storage and the recovery of the service, when a database can be used.\<close>

definition start_storage ::
    "'j json_lib \<Rightarrow> (double \<Rightarrow> double) \<Rightarrow> 'db mysql \<Rightarrow> redis \<Rightarrow> config \<Rightarrow> railway_service \<Rightarrow> 'db \<Rightarrow> u64 \<Rightarrow>
     'db startup + (railway_service \<times> 'db persistence)" where
  "start_storage J acos M R c s db wall =
     (if \<not> (cm_enabled (cf_mysql c) \<or> rd_enabled R) then Inr (s, new_persistence db)
      else case initialize M R (new_persistence db) (cm_enabled (cf_mysql c)) True (dispatchPersistenceConfig c) of
          (Failed _, _) \<Rightarrow> Inl (Exit 1)
        | (Raised e, _) \<Rightarrow> Inl (Terminated e)
        | (Ok _, p) \<Rightarrow> (case loadRecoveryState J M p of
            (Raised e, _) \<Rightarrow> Inl (Terminated e)
          | (answer, p1) \<Rightarrow>
              (case enablePersistence acos (Some (case answer of Ok st \<Rightarrow> Inr st | Failed e \<Rightarrow> Inl e | Raised e \<Rightarrow> Inl e)) s wall of
                 Undefined \<Rightarrow> Inl Faulted
               | Thrown e _ \<Rightarrow> Inl (Terminated e)
               | Done (Some _) _ \<Rightarrow> Inl (Exit 1)
               | Done None s1 \<Rightarrow> Inr (s1, p1))))"

text \<open>
  \<open>main\<close> up to the server loop. The service is the one the static initialisation has built; a Redis that is
  not configured is never enabled.
\<close>

definition main_start ::
    "'j json_lib \<Rightarrow> 'y yaml_lib \<Rightarrow> (double \<Rightarrow> double) \<Rightarrow> 'db mysql \<Rightarrow> redis \<Rightarrow> (string \<Rightarrow> bool) \<Rightarrow> string \<Rightarrow>
     (char \<times> string) list \<Rightarrow> bool \<Rightarrow> railway_service \<Rightarrow> 'db \<Rightarrow> u64 \<Rightarrow> 'db startup" where
  "main_start J Y acos M R exists_file executable_config opts pool_ok s db wall =
     (case main_config Y exists_file executable_config opts of
        None \<Rightarrow> Faulted
      | Some (Inl code) \<Rightarrow> Exit code
      | Some (Inr c) \<Rightarrow> (case configure s (railwayDispatchServiceConfig c) of
          Undefined \<Rightarrow> Faulted
        | Thrown e _ \<Rightarrow> Terminated e
        | Done _ s1 \<Rightarrow> (case start_vehicles M db pool_ok c of
            Inl r \<Rightarrow> r
          | Inr (m, db1) \<Rightarrow>
              (case start_storage J acos M (R\<lparr>rd_enabled := cr_enabled (cf_redis c) \<and> rd_enabled R\<rparr>) c s1 db1 wall of
                 Inl r \<Rightarrow> r
               | Inr (s2, p) \<Rightarrow> Serving c \<lparr>sr_service = s2, sr_vehicles = m, sr_cache = []\<rparr> p))))"

text \<open>After the server loop: the exit code (\<open>None\<close>: the null connection is used) and the storage.\<close>

definition main_stop :: "'db mysql \<Rightarrow> config \<Rightarrow> server \<Rightarrow> 'db persistence \<Rightarrow> nat option \<times> 'db persistence" where
  "main_stop M c sv p =
     (if \<not> cm_enabled (cf_mysql c) then (Some 0, persistence_shutdown p)
      else case saveAll M (dp_db p) (sr_vehicles sv) of
          (None, db) \<Rightarrow> (None, p\<lparr>dp_db := db\<rparr>)
        | (Some ok, db) \<Rightarrow> if ok then (Some 0, persistence_shutdown (p\<lparr>dp_db := db\<rparr>)) else (Some 1, p\<lparr>dp_db := db\<rparr>))"

definition filed :: "(string, vehicle_state) umap \<Rightarrow> bool" where
  "filed m \<longleftrightarrow> um_wf m \<and> (\<forall>k v. um_find m k = Some v \<longrightarrow> ve_id v = k)"

lemma filed_put: "filed m \<Longrightarrow> filed (um_put (ve_id v) v m)"
  by (auto simp: filed_def umap_simps)

lemma load_vehicles_inv: "load_vehicles rows loaded = Inr m \<Longrightarrow> filed loaded \<Longrightarrow> filed m"
proof (induction rows arbitrary: loaded)
  case (Cons row rows)
  obtain v where "load_vehicle row = Inr v" "load_vehicles rows (um_put (ve_id v) v loaded) = Inr m"
    using Cons.prems(1) by (cases "load_vehicle row") (simp_all add: res_bind_def)
  then show ?case using Cons.IH filed_put [OF Cons.prems(2)] by blast
qed simp

lemma vehicles_enable_inv:
  assumes "vehicles_enablePersistence M db ready m = (Some (Inr True), db1, m1)"
  shows "vm_inv m1"
proof -
  have "\<exists>rows ts b loaded. load_vehicles rows [] = Inr loaded \<and>
      m1 = \<lparr>vm_vehicles = loaded, vm_snapshot_timestamp = ts, vm_map_bounds = b, vm_db_pool = True\<rparr>"
    using assms unfolding vehicles_enablePersistence_def case_prod_unfold
    by (simp del: query_all.simps split: if_split_asm option.split_asm sum.split_asm) blast
  then show ?thesis using load_vehicles_inv [of _ "[]"] by (auto simp: vm_inv_def filed_def)
qed

lemma restore_commands_numbers:
  assumes "restoreCommands r s = Done None s'"
  shows "rs_next_command_sequence r \<le> sv_next_command_id s' \<and> sv_persistence s'"
proof -
  obtain s2 where "s' = s2\<lparr>sv_next_command_id := max (sv_next_command_id s2) (rs_next_command_sequence r),
      sv_persistence := True, sv_healthy := True, sv_error := []\<rparr>"
    using assms unfolding restoreCommands_def by (simp split: sum.split_asm prod.split_asm) blast
  then show ?thesis by simp
qed

lemma enable_numbers:
  assumes "enablePersistence acos (Some (Inr r)) s wall = Done None s'"
  shows "rs_next_command_sequence r \<le> sv_next_command_id s' \<and> sv_persistence s'"
  using assms unfolding enablePersistence_def option.case sum.case
  by (auto split: if_split_asm option.split_asm sum.split_asm dest: restore_commands_numbers)

lemma start_storage_cases:
  assumes "start_storage J acos M R c s db wall = Inr (s1, p)"
  shows "(\<not> cm_enabled (cf_mysql c) \<and> \<not> rd_enabled R \<and> s1 = s) \<or>
    (\<exists>r p0. loadRecoveryState J M p0 = (Ok r, p) \<and> enablePersistence acos (Some (Inr r)) s wall = Done None s1 \<and>
       initialize M R (new_persistence db) (cm_enabled (cf_mysql c)) True (dispatchPersistenceConfig c) = (Ok (), p0))"
  using assms unfolding start_storage_def
  by (auto simp: enablePersistence_def [of _ "Some (Inl _)"] split: if_split_asm answer.split_asm prod.split_asm
      outcome.split_asm option.split_asm)

lemma run_schema_pool: "run_schema M p sqls = (r, p1) \<Longrightarrow> dp_pool p1 = dp_pool p"
proof (induction M p sqls rule: run_schema.induct)
  case (2 M p sql rest)
  then show ?case by (auto simp: execute_def split: prod.splits option.splits)
qed simp

lemma initialize_with_pool:
  assumes "initialize M R p True redis_set cfg = (Ok (), p1)"
  shows "dp_mysql_enabled p1"
  using assms unfolding initialize_def createSchema_def Let_def
  by (auto split: if_split_asm prod.split_asm answer.split_asm dest!: run_schema_pool)

text \<open>What MySQL documents of the query for the greatest number: \<open>numbers db\<close> is the set of the sequence
  numbers in \<open>dispatch_commands\<close>.\<close>

definition sequence_law :: "'db mysql \<Rightarrow> ('db \<Rightarrow> u64 set) \<Rightarrow> bool" where
  "sequence_law M numbers \<longleftrightarrow> (\<forall>db db' rows.
     my_query M db select_sequence = (None, db') \<longrightarrow>
     my_rows M db' = Some rows \<longrightarrow> numbers db' = numbers db \<and>
     (\<exists>n. rows = [[Some (string_of_u64 n)]] \<and> (\<forall>m \<in> numbers db. m \<le> n) \<and> (n = 0 \<or> n \<in> numbers db)))"

lemma recovered_numbers:
  assumes law: "sequence_law M numbers" and load: "loadRecoveryState J M p0 = (Ok r, p)" and on: "dp_mysql_enabled p0"
    and "- 1 \<notin> numbers (dp_db p)" and m: "m \<in> numbers (dp_db p)"
  shows "m < rs_next_command_sequence r"
proof -
  obtain q st st' q' where q: "recover_query M q sequence_query read_sequence st = (Ok st', q')"
    "rs_next_command_sequence r = rs_next_command_sequence st'" "dp_db p = dp_db q'"
    using load on unfolding loadRecoveryState_def then_query_def
    by (auto split: if_split_asm prod.split_asm answer.split_asm)
  then obtain db' rows where rows: "my_query M (dp_db q) sequence_query = (None, db')" "my_rows M db' = Some rows"
    "read_sequence rows st = Inr st'" "dp_db q' = db'"
    unfolding recover_query_def execute_def
    by (auto split: prod.split_asm option.split_asm sum.split_asm)
  obtain n where n: "rows = [[Some (string_of_u64 n)]]" "\<forall>m \<in> numbers db'. m \<le> n" "n = 0 \<or> n \<in> numbers db'"
    using law rows(1,2) unfolding sequence_law_def sequence_query_def select_sequence_def by metis
  have "n \<noteq> - 1" using n(3) assms(4) rows(4) q(3) by auto
  moreover have "rs_next_command_sequence st' = n + 1"
    using rows(3) n(1) by (auto simp: read_sequence_def column_def stoull_u64)
  ultimately show ?thesis using below_next n(2) m rows(4) q(2,3) by auto
qed

lemma start_vehicles_cases:
  assumes "start_vehicles M db pool_ok c = Inr (m, db1)"
  shows "vm_inv m \<and> (cm_enabled (cf_mysql c) \<longrightarrow> vm_db_pool m)"
proof (cases "cm_enabled (cf_mysql c)")
  case True
  then have v: "vehicles_enablePersistence M db True new_vehicle_manager = (Some (Inr True), db1, m)"
    using assms by (auto simp: start_vehicles_def split: if_splits option.splits sum.splits prod.splits)
  have "vm_db_pool m" using v unfolding vehicles_enablePersistence_def case_prod_unfold
    by (auto simp del: query_all.simps split: if_split_asm option.split_asm sum.split_asm)
  then show ?thesis using vehicles_enable_inv [OF v] by simp
next
  case False
  then show ?thesis using assms by (auto simp: start_vehicles_def vm_inv_new)
qed

text \<open>What a start that reaches the server loop has gone through.\<close>

lemma main_start_steps:
  assumes "main_start J Y acos M R exists_file executable_config opts pool_ok s db wall = Serving c sv p"
  obtains s1 m db1 s2 u R' where "configure s (railwayDispatchServiceConfig c) = Done u s1"
    "start_vehicles M db pool_ok c = Inr (m, db1)" "start_storage J acos M R' c s1 db1 wall = Inr (s2, p)"
    "sv = \<lparr>sr_service = s2, sr_vehicles = m, sr_cache = []\<rparr>"
  using assms unfolding main_start_def
  by (auto split: option.split_asm sum.split_asm outcome.split_asm prod.split_asm)
    (auto simp: start_vehicles_def start_storage_def split: if_split_asm option.split_asm sum.split_asm outcome.split_asm
      prod.split_asm answer.split_asm)

lemma storage_keeps_reachable:
  assumes "reachable sv_start sv_step s" "configure s (railwayDispatchServiceConfig c) = Done u s1"
    and "start_storage J acos M R c s1 db wall = Inr (s2, p)"
  shows "reachable sv_start sv_step s2"
proof -
  have r1: "reachable sv_start sv_step s1" by (rule reach_step [OF assms(1) sv_configured [OF assms(2)]])
  have none: "sv_commands s1 = []"
    using assms(2) by (auto simp: configure_def Let_def split: if_splits sum.splits)
  from start_storage_cases [OF assms(3)] show ?thesis
    using r1 reach_step [OF r1 sv_enabled [OF none]] by blast
qed

lemma main_start_safe:
  assumes "new_railway_service = Inr s"
    and "main_start J Y acos M R exists_file executable_config opts pool_ok s db wall = Serving c sv p"
  shows "reachable sv_start sv_step (sr_service sv) \<and> vm_inv (sr_vehicles sv)"
proof -
  obtain s1 m db1 s2 u R' where m: "configure s (railwayDispatchServiceConfig c) = Done u s1"
    "start_vehicles M db pool_ok c = Inr (m, db1)" "start_storage J acos M R' c s1 db1 wall = Inr (s2, p)"
    "sv = \<lparr>sr_service = s2, sr_vehicles = m, sr_cache = []\<rparr>"
    by (rule main_start_steps [OF assms(2)])
  have "reachable sv_start sv_step s" using assms(1) by (intro reach_init) (simp add: sv_start_def)
  from storage_keeps_reachable [OF this m(1,3)] start_vehicles_cases [OF m(2)] show ?thesis by (simp add: m(4))
qed

text \<open>C10: the process serves only from a safe state. Whatever the files, the arguments and the databases hold,
  when \<open>main\<close> reaches the server loop the dispatch service is in a reachable state (so everything proved
  of those holds from the first request on) and every vehicle is filed under its own id. With MySQL
  configured the storage is bound, and every number in the table of commands is below the number that the
  next command gets: no stored command id is given out again (as long as the table does not hold the
  greatest 64-bit number, after which the counter wraps).\<close>

theorem process_serves_from_a_safe_state:
  assumes "new_railway_service = Inr s"
    and "main_start J Y acos M R exists_file executable_config opts pool_ok s db wall = Serving c sv p"
    and "sequence_law M numbers"
  shows "reachable sv_start sv_step (sr_service sv) \<and> vm_inv (sr_vehicles sv) \<and>
    (cm_enabled (cf_mysql c) \<longrightarrow> vm_db_pool (sr_vehicles sv) \<and> sv_persistence (sr_service sv) \<and>
      (- 1 \<notin> numbers (dp_db p) \<longrightarrow> (\<forall>n \<in> numbers (dp_db p). n < sv_next_command_id (sr_service sv))))"
proof -
  obtain s1 m db1 s2 u R' where m: "configure s (railwayDispatchServiceConfig c) = Done u s1"
    "start_vehicles M db pool_ok c = Inr (m, db1)" "start_storage J acos M R' c s1 db1 wall = Inr (s2, p)"
    "sv = \<lparr>sr_service = s2, sr_vehicles = m, sr_cache = []\<rparr>"
    by (rule main_start_steps [OF assms(2)])
  have "sv_persistence s2 \<and> (- 1 \<notin> numbers (dp_db p) \<longrightarrow> (\<forall>n \<in> numbers (dp_db p). n < sv_next_command_id s2))"
    if on: "cm_enabled (cf_mysql c)"
  proof -
    obtain r p0 where r: "loadRecoveryState J M p0 = (Ok r, p)" "enablePersistence acos (Some (Inr r)) s1 wall = Done None s2"
      "initialize M R' (new_persistence db1) True True (dispatchPersistenceConfig c) = (Ok (), p0)"
      using start_storage_cases [OF m(3)] on by auto
    then show ?thesis
      using recovered_numbers [OF assms(3) r(1) initialize_with_pool [OF r(3)]] enable_numbers [OF r(2)]
      by (meson order_less_le_trans)
  qed
  then show ?thesis using main_start_safe [OF assms(1,2)] start_vehicles_cases [OF m(2)] by (simp add: m(4))
qed

text \<open>A start with MySQL: one stored vehicle, no topology, forty-one stored commands.\<close>

definition demo_start_yaml :: "string yaml_lib" where
  "demo_start_yaml = demo_yaml\<lparr>yl_get := (\<lambda>n k. if n = working_config \<and> k = ''mysql'' then Inr (Some k)
     else if n = ''mysql'' \<and> k = ''enabled'' then Inr (Some ''true'') else Inr None)\<rparr>"

definition demo_start_mysql :: "string mysql" where
  "demo_start_mysql = \<lparr>my_connect = (\<lambda>_. True), my_query = (\<lambda>db sql. (None, sql)),
     my_rows = (\<lambda>sql. Some (if sql = sequence_query then [[Some ''41'']]
       else if sql = vehicles_query then [[Some ''bus'', Some ''line 4'', None, None, Some ''-1.5'', Some ''0'', Some ''25e-1'']]
       else [])), my_error = (\<lambda>_. []), my_escape = (\<lambda>s. s)\<rparr>"

definition demo_mysql_config :: config where
  "demo_mysql_config = default_config\<lparr>cf_mysql := (cf_mysql default_config)\<lparr>cm_enabled := True\<rparr>\<rparr>"

lemma demo_start_config:
  "main_config demo_start_yaml (\<lambda>p. p = working_config) [] [] = Some (Inr demo_mysql_config)"
proof -
  have "loadYaml demo_start_yaml working_config default_config = (True, demo_mysql_config)"
    by (simp add: loadYaml_def load_sections_def block_def demo_start_yaml_def demo_yaml_def on_part_def load_mysql_def
        field_def demo_mysql_config_def default_config_def)
  then show ?thesis by (simp add: main_config_def choose_config_def working_config_def)
qed

lemma demo_run_schema: "run_schema demo_start_mysql p sqls = (Ok (), p\<lparr>dp_db := last (dp_db p # sqls)\<rparr>)"
  by (induction sqls arbitrary: p) (simp_all add: execute_def demo_start_mysql_def)

definition demo_bus :: vehicle_state where
  "demo_bus = \<lparr>ve_id = ''bus'', ve_service = ''line 4'', ve_prefab = [], ve_status = [],
     ve_position = \<lparr>vp_x = Fin (- 3 / 2), vp_y = 0, vp_z = Fin (5 / 2)\<rparr>, ve_speed = 0, ve_heading = 0\<rparr>"

lemma demo_numbers: "read_decimal ''1.5'' = Some (3 / 2)" "read_decimal ''0'' = Some 0" "read_decimal ''25e-1'' = Some (5 / 2)"
  by code_simp+

lemma demo_lower: "lower ''1.5'' = ''1.5''" "lower ''0'' = ''0''" "lower ''25e-1'' = ''25e-1''"
  "dropWhile is_space ''-1.5'' = ''-1.5''" "dropWhile is_space ''0'' = ''0''" "dropWhile is_space ''25e-1'' = ''25e-1''"
  by code_simp+

lemma ranged_kept:
  assumes "mk_double x = Fin x" and "1 \<le> x"
  shows "ranged neg x = Inr (Fin (if neg then - x else x))"
proof -
  have "(2::rat) powi (- 1022) \<le> 1" by (simp add: power_int_minus inverse_le_1_iff)
  then have "\<not> x < 2 powi (- 1022)" using assms(2) by linarith
  then show ?thesis using assms(1) by (simp add: ranged_def mk_double_uminus)
qed

lemma demo_doubles: "mk_double (3 / 2) = Fin (3 / 2)" "mk_double (5 / 2) = Fin (5 / 2)"
  by (simp_all add: double_simps)

lemma demo_stod: "stod ''-1.5'' = Inr (Fin (- 3 / 2))" "stod ''0'' = Inr 0" "stod ''25e-1'' = Inr (Fin (5 / 2))"
  by (simp_all add: stod_def Let_def demo_numbers demo_lower ranged_kept demo_doubles del: dropWhile.simps)
    (simp add: ranged_def zero_double_def)

lemma demo_vehicles_load:
  "vehicles_enablePersistence demo_start_mysql db True m = (Some (Inr True), metadata_query,
     \<lparr>vm_vehicles = [(''bus'', demo_bus)], vm_snapshot_timestamp = 0, vm_map_bounds = default_bounds, vm_db_pool = True\<rparr>)"
proof -
  have "load_vehicle [Some ''bus'', Some ''line 4'', None, None, Some ''-1.5'', Some ''0'', Some ''25e-1''] = Inr demo_bus"
    by (simp add: load_vehicle_def column_def text_or_def number_or_def demo_stod res_bind_def demo_bus_def)
  moreover have "vehicles_query \<noteq> sequence_query" "metadata_query \<noteq> sequence_query" "metadata_query \<noteq> vehicles_query"
    by (simp_all add: vehicles_query_def sequence_query_def metadata_query_def)
  ultimately show ?thesis
    by (simp add: vehicles_enablePersistence_def query_ok_def query_rows_def demo_start_mysql_def res_bind_def
        load_metadata_def demo_bus_def)
qed

lemma process_serves_from_a_safe_state_witness:
  "\<exists>s sv p. new_railway_service = Inr s \<and>
     main_start demo_json demo_start_yaml demo_acos demo_start_mysql \<lparr>rd_enabled = False, rd_answer = (\<lambda>_. True)\<rparr>
       (\<lambda>p. p = working_config) [] [] True s [] 1000 = Serving demo_mysql_config sv p \<and>
     reachable sv_start sv_step (sr_service sv) \<and> sv_next_command_id (sr_service sv) = 42 \<and>
     getVehicle (sr_vehicles sv) ''bus'' = Some demo_bus"
proof -
  let ?c = "demo_mysql_config"
  let ?R = "\<lparr>rd_enabled = cr_enabled (cf_redis ?c) \<and> False, rd_answer = (\<lambda>_. True)\<rparr>"
  obtain s where s: "new_railway_service = Inr s"
    using default_components by (auto simp: new_railway_service_def default_service_config_def)
  have "checked ?c" "finite_numbers ?c"
    using default_checked default_finite by (simp_all add: demo_mysql_config_def checked_def finite_numbers_def)
  then obtain s1 where s1: "configure s (railwayDispatchServiceConfig ?c) = Done () s1"
    using checked_configures by blast
  have id1: "sv_next_command_id s1 = 1" using s1 by (auto simp: configure_def Let_def split: if_splits sum.splits)
  let ?m = "\<lparr>vm_vehicles = [(''bus'', demo_bus)], vm_snapshot_timestamp = 0, vm_map_bounds = default_bounds, vm_db_pool = True\<rparr>"
  have veh: "start_vehicles demo_start_mysql [] True ?c = Inr (?m, metadata_query)"
    by (simp add: start_vehicles_def demo_vehicles_load demo_mysql_config_def)
  have ini: "\<exists>p. initialize demo_start_mysql ?R (new_persistence metadata_query) True True (dispatchPersistenceConfig ?c) = (Ok (), p) \<and>
      dp_mysql_enabled p \<and> \<not> pg_command_recovery_enabled (dp_config p)"
  proof -
    have c: "dispatchPersistenceConfig ?c = default_persistence_config"
      by (simp add: dispatchPersistenceConfig_def demo_mysql_config_def default_config_def default_persistence_config_def Let_def)
    have conn: "my_connect demo_start_mysql db" for db by (simp add: demo_start_mysql_def)
    show ?thesis unfolding c
      by (simp add: initialize_def createSchema_def conn demo_run_schema default_persistence_config_def new_persistence_def)
  qed
  then obtain p where p: "initialize demo_start_mysql ?R (new_persistence metadata_query) True True (dispatchPersistenceConfig ?c) = (Ok (), p)"
    "dp_mysql_enabled p" "\<not> pg_command_recovery_enabled (dp_config p)" by blast
  have digits: "string_of_u64 41 = ''41''" by code_simp
  then have st: "stoull_res ''41'' = Inr 41" using stoull_u64 [of 41] by simp
  have rec: "\<exists>p1. loadRecoveryState demo_json demo_start_mysql p = (Ok (empty_recovery\<lparr>rs_next_command_sequence := 42\<rparr>), p1)"
  proof -
    have "topology_query \<noteq> sequence_query" "topology_query \<noteq> vehicles_query"
      by (simp_all add: topology_query_def sequence_query_def vehicles_query_def)
    then show ?thesis using p(2,3)
      by (simp add: loadRecoveryState_def then_query_def recover_query_def execute_def demo_start_mysql_def read_topology_def
          read_sequence_def column_def st res_bind_def)
  qed
  then obtain p1 where p1: "loadRecoveryState demo_json demo_start_mysql p =
      (Ok (empty_recovery\<lparr>rs_next_command_sequence := 42\<rparr>), p1)" by blast
  let ?s2 = "s1\<lparr>sv_next_command_id := 42, sv_persistence := True, sv_healthy := True, sv_error := []\<rparr>"
  have en: "enablePersistence demo_acos (Some (Inr (empty_recovery\<lparr>rs_next_command_sequence := 42\<rparr>))) s1 1000 = Done None ?s2"
    by (simp add: enablePersistence_def restoreCommands_def empty_recovery_def id1)
  have "start_storage demo_json demo_acos demo_start_mysql ?R ?c s1 metadata_query 1000 = Inr (?s2, p1)"
    using p(1) p1 en by (simp add: start_storage_def demo_mysql_config_def)
  then have ms: "main_start demo_json demo_start_yaml demo_acos demo_start_mysql \<lparr>rd_enabled = False, rd_answer = (\<lambda>_. True)\<rparr>
       (\<lambda>p. p = working_config) [] [] True s [] 1000 =
     Serving ?c \<lparr>sr_service = ?s2, sr_vehicles = ?m, sr_cache = []\<rparr> p1"
    using s1 veh by (simp add: main_start_def demo_start_config)
  have law: "sequence_law demo_start_mysql (\<lambda>_. {41})"
    using digits by (auto simp: sequence_law_def demo_start_mysql_def sequence_query_def select_sequence_def
        intro!: exI [of _ 41])
  from process_serves_from_a_safe_state [OF s ms law] s ms show ?thesis by (auto simp: getVehicle_def)
qed

end
