(* ===== verification/Timer.thy ===== *)
theory Timer
  imports Config
begin

text \<open>
  \<open>TimerManager.cpp\<close>: the idle timers of the connections. A timer is never removed from the heap;
  a newer one for the same descriptor takes its place in \<open>idMap_\<close>, and what is no longer named there
  is thrown away when it comes to the top. Instants are nanoseconds of the steady clock (integers), time
  spans of the interface milliseconds. The heap is a list in the order of insertion, its top an earliest
  element; which of several earliest ones C++ takes is not specified, and no statement depends on it.
\<close>

record timer_node =
  tn_fd :: int
  tn_id :: u64
  tn_expire :: int
  tn_deleted :: bool

record timer_manager =
  tm_heap :: "timer_node list"
  tm_idMap :: "(int, u64) umap"
  tm_idGen :: u64

definition TimerManager_new :: timer_manager where
  "TimerManager_new = \<lparr>tm_heap = [], tm_idMap = [], tm_idGen = 0\<rparr>"

definition MS :: "i32 \<Rightarrow> int" where
  "MS n = sint n * 1000000"

definition timer_add :: "timer_manager \<Rightarrow> int \<Rightarrow> i32 \<Rightarrow> int \<Rightarrow> timer_manager" where
  "timer_add m fd timeout_ms now = (let i = tm_idGen m + 1 in
     m\<lparr>tm_idGen := i, tm_idMap := um_put fd i (tm_idMap m),
       tm_heap := tm_heap m @ [\<lparr>tn_fd = fd, tn_id = i, tn_expire = now + MS timeout_ms, tn_deleted = False\<rparr>]\<rparr>)"

definition timer_update :: "timer_manager \<Rightarrow> int \<Rightarrow> i32 \<Rightarrow> int \<Rightarrow> timer_manager" where
  "timer_update m fd timeout_ms now = timer_add m fd timeout_ms now"

definition timer_remove :: "timer_manager \<Rightarrow> int \<Rightarrow> timer_manager" where
  "timer_remove m fd = m\<lparr>tm_idMap := um_erase fd (tm_idMap m)\<rparr>"

definition heap_top :: "timer_node list \<Rightarrow> timer_node option" where
  "heap_top h = scan_best (\<lambda>a b. tn_expire a < tn_expire b) h"

definition heap_pop :: "timer_node list \<Rightarrow> timer_node list" where
  "heap_pop h = (case heap_top h of None \<Rightarrow> h | Some n \<Rightarrow> remove1 n h)"

lemma heap_pop_shorter: "heap_top h = Some n \<Longrightarrow> length (heap_pop h) < length h"
  using scan_best_mem [of "\<lambda>a b. tn_expire a < tn_expire b" h n]
  by (auto simp: heap_pop_def heap_top_def length_remove1 dest: length_pos_if_in_set)

definition valid_node :: "timer_manager \<Rightarrow> timer_node \<Rightarrow> bool" where
  "valid_node m n \<longleftrightarrow> um_find (tm_idMap m) (tn_fd n) = Some (tn_id n)"

text \<open>The result is the descriptors the callback is called with, in that order.\<close>

function expire_loop :: "int \<Rightarrow> timer_manager \<Rightarrow> timer_manager \<times> int list" where
  "expire_loop now m = (case heap_top (tm_heap m) of None \<Rightarrow> (m, [])
     | Some node \<Rightarrow>
         if \<not> valid_node m node then expire_loop now (m\<lparr>tm_heap := heap_pop (tm_heap m)\<rparr>)
         else if tn_expire node > now then (m, [])
         else (case expire_loop now (m\<lparr>tm_idMap := um_erase (tn_fd node) (tm_idMap m),
                  tm_heap := heap_pop (tm_heap m)\<rparr>) of (m', fds) \<Rightarrow> (m', tn_fd node # fds)))"
  by pat_completeness auto
termination
  by (relation "measure (\<lambda>(_, m). length (tm_heap m))") (simp_all add: heap_pop_shorter)

declare expire_loop.simps [simp del]

text \<open>
  The same loop in pieces, for a callback that uses the timers itself: up to the call of the callback
  (\<open>Some\<close>: with that descriptor), and what is done after it has returned.
\<close>

function next_expired :: "int \<Rightarrow> timer_manager \<Rightarrow> timer_manager \<times> int option" where
  "next_expired now m = (case heap_top (tm_heap m) of None \<Rightarrow> (m, None)
     | Some node \<Rightarrow>
         if \<not> valid_node m node then next_expired now (m\<lparr>tm_heap := heap_pop (tm_heap m)\<rparr>)
         else if tn_expire node > now then (m, None) else (m, Some (tn_fd node)))"
  by pat_completeness auto
termination
  by (relation "measure (\<lambda>(_, m). length (tm_heap m))") (simp_all add: heap_pop_shorter)

declare next_expired.simps [simp del]

definition after_callback :: "int \<Rightarrow> timer_manager \<Rightarrow> timer_manager" where
  "after_callback fd m = m\<lparr>tm_idMap := um_erase fd (tm_idMap m), tm_heap := heap_pop (tm_heap m)\<rparr>"

lemma expire_loop_pieces: "expire_loop now m = (case next_expired now m of
    (m1, None) \<Rightarrow> (m1, [])
  | (m1, Some fd) \<Rightarrow> (case expire_loop now (after_callback fd m1) of (m2, fds) \<Rightarrow> (m2, fd # fds)))"
proof (induction now m rule: next_expired.induct)
  case (1 now m)
  show ?case
  proof (cases "heap_top (tm_heap m)")
    case (Some node)
    show ?thesis
    proof (cases "valid_node m node")
      case True
      then show ?thesis using Some
        by (simp add: expire_loop.simps [of now m] next_expired.simps [of now m] after_callback_def)
    next
      case False
      then show ?thesis using Some 1 [OF Some False]
        by (simp add: expire_loop.simps [of now m] next_expired.simps [of now m])
    qed
  qed (simp add: expire_loop.simps [of now m] next_expired.simps [of now m])
qed

definition handleExpired :: "timer_manager \<Rightarrow> int \<Rightarrow> timer_manager \<times> int list" where
  "handleExpired m now = expire_loop now m"

definition trunc_div :: "int \<Rightarrow> int \<Rightarrow> int" where
  "trunc_div a b = (if a \<ge> 0 then a div b else - ((- a) div b))"

function getNextTimeout :: "timer_manager \<Rightarrow> int \<Rightarrow> timer_manager \<times> i32" where
  "getNextTimeout m now = (case heap_top (tm_heap m) of None \<Rightarrow> (m, -1)
     | Some node \<Rightarrow>
         if \<not> valid_node m node then getNextTimeout (m\<lparr>tm_heap := heap_pop (tm_heap m)\<rparr>) now
         else let diff = trunc_div (tn_expire node - now) 1000000 in
           (m, if diff > 0 then word_of_int diff else 0))"
  by pat_completeness auto
termination
  by (relation "measure (\<lambda>(m, _). length (tm_heap m))") (simp_all add: heap_pop_shorter)

declare getNextTimeout.simps [simp del]

subsection \<open>The deadlines\<close>

text \<open>What the timers mean: the deadline of each descriptor that has one.\<close>

definition deadline :: "timer_manager \<Rightarrow> int \<Rightarrow> int option" where
  "deadline m fd = map_option tn_expire (find (\<lambda>n. tn_fd n = fd \<and> valid_node m n) (tm_heap m))"

definition tm_inv :: "timer_manager \<Rightarrow> bool" where
  "tm_inv m \<longleftrightarrow> um_wf (tm_idMap m) \<and> distinct (map tn_id (tm_heap m)) \<and>
     (\<forall>n \<in> set (tm_heap m). tn_id n \<le> tm_idGen m) \<and>
     (\<forall>fd i. um_find (tm_idMap m) fd = Some i \<longrightarrow> (\<exists>n \<in> set (tm_heap m). tn_fd n = fd \<and> tn_id n = i))"

definition expired :: "timer_manager \<Rightarrow> int \<Rightarrow> int set" where
  "expired m now = {fd. \<exists>d. deadline m fd = Some d \<and> d \<le> now}"

interpretation earlier: scan_order "\<lambda>a b :: timer_node. tn_expire a < tn_expire b"
  by unfold_locales auto

lemma heap_topD:
  assumes "heap_top h = Some n"
  shows "n \<in> set h" "heap_pop h = remove1 n h"
  using assms unfolding heap_pop_def by (simp_all add: heap_top_def scan_best_mem)

lemma heap_top_least: "heap_top h = Some n \<Longrightarrow> k \<in> set h \<Longrightarrow> tn_expire n \<le> tn_expire k"
  using earlier.scan_best_max [of h n k] by (simp add: heap_top_def not_less)

lemma heap_top_None [simp]: "heap_top h = None \<longleftrightarrow> h = []"
  by (simp add: heap_top_def)

lemma find_unique:
  assumes "distinct (map f xs)" "n \<in> set xs" "P n" "\<And>k. k \<in> set xs \<Longrightarrow> P k \<Longrightarrow> f k = f n"
  shows "find P xs = Some n"
proof (cases "find P xs")
  case None
  then show ?thesis using assms(2,3) by (auto simp: find_None_iff)
next
  case (Some k)
  then have k: "k \<in> set xs" "P k" by (auto simp: find_Some_iff)
  have "inj_on f (set xs)" using assms(1) by (simp add: distinct_map)
  then have "k = n" using k assms(2,4) by (blast dest: inj_onD)
  then show ?thesis using Some by simp
qed

lemma deadline_iff:
  assumes "tm_inv m"
  shows "deadline m fd = Some d \<longleftrightarrow> (\<exists>n \<in> set (tm_heap m). tn_fd n = fd \<and> valid_node m n \<and> tn_expire n = d)"
proof
  assume "deadline m fd = Some d"
  then show "\<exists>n \<in> set (tm_heap m). tn_fd n = fd \<and> valid_node m n \<and> tn_expire n = d"
    by (auto simp: deadline_def find_Some_iff)
next
  assume "\<exists>n \<in> set (tm_heap m). tn_fd n = fd \<and> valid_node m n \<and> tn_expire n = d"
  then obtain n where n: "n \<in> set (tm_heap m)" "tn_fd n = fd" "valid_node m n" "tn_expire n = d" by blast
  have "find (\<lambda>n. tn_fd n = fd \<and> valid_node m n) (tm_heap m) = Some n"
    using assms n by (intro find_unique [of tn_id]) (auto simp: tm_inv_def valid_node_def)
  then show "deadline m fd = Some d" using n by (simp add: deadline_def)
qed

lemma deadline_None: "tm_inv m \<Longrightarrow> deadline m fd = None \<longleftrightarrow> um_find (tm_idMap m) fd = None"
  by (auto simp: deadline_def find_None_iff valid_node_def tm_inv_def) (metis not_None_eq)

subsection \<open>What each operation does to the deadlines\<close>

lemma deadline_eqI:
  assumes "tm_inv m" "\<And>d. D fd = Some d \<longleftrightarrow> (\<exists>n \<in> set (tm_heap m). tn_fd n = fd \<and> valid_node m n \<and> tn_expire n = d)"
  shows "deadline m fd = D fd"
proof (cases "deadline m fd")
  case None
  then show ?thesis using assms(2) deadline_iff [OF assms(1), of fd] by (cases "D fd") auto
next
  case (Some d)
  then show ?thesis using assms(2) [of d] deadline_iff [OF assms(1), of fd d] by simp
qed

lemma tm_inv_new [simp]: "tm_inv TimerManager_new" and deadline_new [simp]: "deadline TimerManager_new = (\<lambda>_. None)"
  by (simp_all add: tm_inv_def TimerManager_new_def deadline_def fun_eq_iff)

lemma add_inv:
  assumes "tm_inv m" "unat (tm_idGen m) + 1 < 2 ^ 64"
  shows "tm_inv (timer_add m fd t now)" "deadline (timer_add m fd t now) = (deadline m)(fd \<mapsto> now + MS t)"
    and "unat (tm_idGen (timer_add m fd t now)) = unat (tm_idGen m) + 1"
proof -
  let ?i = "tm_idGen m + 1"
  let ?n = "\<lparr>tn_fd = fd, tn_id = ?i, tn_expire = now + MS t, tn_deleted = False\<rparr>"
  have u: "unat ?i = unat (tm_idGen m) + 1" using assms(2) by (simp add: unat_word_ariths)
  then have fresh: "tn_id n < ?i" if "n \<in> set (tm_heap m)" for n
    using assms(1) that by (auto simp: tm_inv_def word_less_nat_alt word_le_nat_alt)
  show gen: "unat (tm_idGen (timer_add m fd t now)) = unat (tm_idGen m) + 1"
    using u by (simp add: timer_add_def Let_def)
  have new: "tn_id n \<noteq> ?i" if "n \<in> set (tm_heap m)" for n using fresh [OF that] by simp
  then have "?i \<notin> tn_id ` set (tm_heap m)" by force
  then have ids: "distinct (map tn_id (tm_heap m @ [?n]))" using assms(1) by (simp add: tm_inv_def)
  have fnd: "\<exists>n \<in> set (tm_heap m @ [?n]). tn_fd n = fd' \<and> tn_id n = i"
    if "um_find (um_put fd ?i (tm_idMap m)) fd' = Some i" for fd' i
    using assms(1) that by (auto simp: tm_inv_def umap_simps split: if_splits)
  have le: "tn_id n \<le> ?i" if "n \<in> set (tm_heap m @ [?n])" for n
    using that fresh by (auto simp: order.strict_implies_order)
  show inv: "tm_inv (timer_add m fd t now)"
    using assms(1) ids fnd le by (auto simp: tm_inv_def timer_add_def Let_def)
  show "deadline (timer_add m fd t now) = (deadline m)(fd \<mapsto> now + MS t)"
  proof
    fix fd'
    show "deadline (timer_add m fd t now) fd' = ((deadline m)(fd \<mapsto> now + MS t)) fd'"
      by (rule deadline_eqI [OF inv])
        (auto simp: deadline_iff [OF assms(1)] timer_add_def Let_def valid_node_def umap_simps dest: new)
  qed
qed

lemma distinct_heap: "tm_inv m \<Longrightarrow> distinct (tm_heap m)"
  by (auto simp: tm_inv_def distinct_map)

lemma same_node: "tm_inv m \<Longrightarrow> a \<in> set (tm_heap m) \<Longrightarrow> b \<in> set (tm_heap m) \<Longrightarrow> tn_id a = tn_id b \<Longrightarrow> a = b"
  by (auto simp: tm_inv_def distinct_map dest: inj_onD)

text \<open>Forgetting a descriptor, with or without its node, and throwing a stale node away.\<close>

lemma forget_inv:
  assumes "tm_inv m" "m' = m\<lparr>tm_idMap := um_erase fd (tm_idMap m), tm_heap := h\<rparr>"
    and "distinct (map tn_id h)" "set h \<subseteq> set (tm_heap m)" "\<And>n. n \<in> set (tm_heap m) \<Longrightarrow> tn_fd n \<noteq> fd \<Longrightarrow> n \<in> set h"
  shows "tm_inv m'" "deadline m' = (deadline m)(fd := None)"
proof -
  have "\<exists>n \<in> set h. tn_fd n = fd' \<and> tn_id n = i" if "um_find (um_erase fd (tm_idMap m)) fd' = Some i" for fd' i
    using assms(1,5) that by (fastforce simp: tm_inv_def umap_simps split: if_splits)
  then show inv: "tm_inv m'" using assms(1-4) by (auto simp: tm_inv_def)
  show "deadline m' = (deadline m)(fd := None)"
  proof
    fix fd'
    show "deadline m' fd' = ((deadline m)(fd := None)) fd'"
      by (rule deadline_eqI [OF inv])
        (use assms(2,4,5) in \<open>auto simp: deadline_iff [OF assms(1)] valid_node_def umap_simps\<close>)
  qed
qed

lemma remove_inv:
  assumes "tm_inv m"
  shows "tm_inv (timer_remove m fd)" "deadline (timer_remove m fd) = (deadline m)(fd := None)"
  using forget_inv [OF assms, of "timer_remove m fd" "tm_heap m" fd] assms
  by (simp_all add: timer_remove_def tm_inv_def)

lemma fire_inv:
  assumes "tm_inv m" "n \<in> set (tm_heap m)" "valid_node m n"
    and "m' = m\<lparr>tm_idMap := um_erase (tn_fd n) (tm_idMap m), tm_heap := remove1 n (tm_heap m)\<rparr>"
  shows "tm_inv m'" "deadline m' = (deadline m)(tn_fd n := None)"
proof -
  have "distinct (map tn_id (remove1 n (tm_heap m)))"
    using assms(1) distinct_heap [OF assms(1)] by (auto simp: tm_inv_def distinct_map intro: inj_on_subset)
  moreover have "set (remove1 n (tm_heap m)) = set (tm_heap m) - {n}" using distinct_heap [OF assms(1)] by simp
  ultimately show "tm_inv m'" "deadline m' = (deadline m)(tn_fd n := None)"
    using forget_inv [OF assms(1,4)] by auto
qed

lemma stale_inv:
  assumes "tm_inv m" "n \<in> set (tm_heap m)" "\<not> valid_node m n" "m' = m\<lparr>tm_heap := remove1 n (tm_heap m)\<rparr>"
  shows "tm_inv m'" "deadline m' = deadline m"
proof -
  have h: "set (remove1 n (tm_heap m)) = set (tm_heap m) - {n}" using distinct_heap [OF assms(1)] by simp
  have d: "distinct (map tn_id (remove1 n (tm_heap m)))"
    using assms(1) distinct_heap [OF assms(1)] by (auto simp: tm_inv_def distinct_map intro: inj_on_subset)
  have "\<exists>k \<in> set (remove1 n (tm_heap m)). tn_fd k = fd \<and> tn_id k = i" if "um_find (tm_idMap m) fd = Some i" for fd i
    using assms(1,3) that h by (fastforce simp: tm_inv_def valid_node_def)
  then show inv: "tm_inv m'" using assms(1,4) d h by (auto simp: tm_inv_def)
  show "deadline m' = deadline m"
  proof
    fix fd
    show "deadline m' fd = deadline m fd"
      by (rule deadline_eqI [OF inv]) (use assms(3,4) h in \<open>auto simp: deadline_iff [OF assms(1)] valid_node_def\<close>)
  qed
qed

subsection \<open>The two loops\<close>

lemma expired_after:
  "deadline m' = (deadline m)(fd := None) \<Longrightarrow> fd \<in> expired m now \<Longrightarrow> expired m now = insert fd (expired m' now)"
  by (auto simp: expired_def)

lemma deadline_top:
  assumes "tm_inv m" "heap_top (tm_heap m) = Some n" "valid_node m n"
  shows "deadline m (tn_fd n) = Some (tn_expire n)"
    and "deadline m fd = Some d \<Longrightarrow> tn_expire n \<le> d"
  using assms heap_topD(1) [OF assms(2)] heap_top_least [OF assms(2)] by (auto simp: deadline_iff)

lemma expire_loop_inv:
  assumes "expire_loop now m = (m', fds)" "tm_inv m"
  shows "tm_inv m' \<and> tm_idGen m' = tm_idGen m \<and> distinct fds \<and> set fds = expired m now \<and>
    sorted (map (\<lambda>fd. the (deadline m fd)) fds) \<and>
    deadline m' = (\<lambda>fd. if fd \<in> expired m now then None else deadline m fd)"
  using assms
proof (induction now m arbitrary: m' fds rule: expire_loop.induct)
  case (1 now m)
  note run = 1(3) [unfolded expire_loop.simps [of now m]]
  show ?case
  proof (cases "heap_top (tm_heap m)")
    case None
    then have "deadline m = (\<lambda>_. None)" by (simp add: deadline_def fun_eq_iff)
    then show ?thesis using run None 1(4) by (simp add: expired_def)
  next
    case (Some n)
    note top = heap_topD [OF Some]
    consider (stale) "\<not> valid_node m n" | (later) "valid_node m n" "now < tn_expire n"
      | (due) "valid_node m n" "tn_expire n \<le> now" by force
    then show ?thesis
    proof cases
      case stale
      let ?m = "m\<lparr>tm_heap := remove1 n (tm_heap m)\<rparr>"
      have s: "tm_inv ?m" "deadline ?m = deadline m" using stale_inv [OF 1(4) top(1) stale refl] by auto
      have "expire_loop now ?m = (m', fds)" using run Some stale top(2) by simp
      from 1(1) [OF Some stale, unfolded top(2), OF this s(1), unfolded expired_def s(2)] show ?thesis by (simp add: expired_def)
    next
      case later
      have "expired m now = {}" using deadline_top(2) [OF 1(4) Some later(1)] later(2) by (fastforce simp: expired_def)
      then show ?thesis using run Some later 1(4) by simp
    next
      case due
      let ?m = "m\<lparr>tm_idMap := um_erase (tn_fd n) (tm_idMap m), tm_heap := remove1 n (tm_heap m)\<rparr>"
      have f: "tm_inv ?m" "deadline ?m = (deadline m)(tn_fd n := None)"
        using fire_inv [OF 1(4) top(1) due(1) refl] by auto
      note d = deadline_top [OF 1(4) Some due(1)]
      obtain fds1 where r: "expire_loop now ?m = (m', fds1)" "fds = tn_fd n # fds1"
        using run Some due top(2) by (auto split: prod.splits)
      have "\<not> \<not> valid_node m n" "\<not> now < tn_expire n" using due by auto
      from 1(2) [OF Some this, unfolded top(2), OF r(1) f(1)]
      have ih: "tm_inv m' \<and> tm_idGen m' = tm_idGen m \<and> distinct fds1 \<and> set fds1 = expired ?m now \<and>
          sorted (map (\<lambda>fd. the (deadline ?m fd)) fds1) \<and>
          deadline m' = (\<lambda>fd. if fd \<in> expired ?m now then None else deadline ?m fd)" by simp
      have e: "expired m now = insert (tn_fd n) (expired ?m now)"
        using expired_after [OF f(2)] d(1) due(2) by (simp add: expired_def)
      have out: "tn_fd n \<notin> expired ?m now" by (simp add: expired_def f(2))
      have eq: "map (\<lambda>fd. the (deadline ?m fd)) fds1 = map (\<lambda>fd. the (deadline m fd)) fds1"
        using ih out by (auto simp: f(2))
      from ih have "sorted (map (\<lambda>fd. the (deadline ?m fd)) fds1)" by blast
      then have "sorted (map (\<lambda>fd. the (deadline m fd)) fds1)" unfolding eq .
      moreover have "\<forall>fd \<in> set fds1. tn_expire n \<le> the (deadline m fd)"
        using ih d(2) out by (auto simp: expired_def f(2) split: if_splits)
      ultimately have "sorted (map (\<lambda>fd. the (deadline m fd)) fds)" using d(1) by (simp add: r(2))
      then show ?thesis using ih e out r(2) by (auto simp: f(2) fun_eq_iff)
    qed
  qed
qed

lemma next_timeout_inv:
  assumes "getNextTimeout m now = (m', t)" "tm_inv m"
  shows "tm_inv m' \<and> tm_idGen m' = tm_idGen m \<and> deadline m' = deadline m \<and>
    (if deadline m = (\<lambda>_. None) then t = -1
     else \<exists>fd d. deadline m fd = Some d \<and> (\<forall>fd' d'. deadline m fd' = Some d' \<longrightarrow> d \<le> d') \<and>
       t = word_of_int (max 0 (trunc_div (d - now) 1000000)))"
  using assms
proof (induction m now arbitrary: m' t rule: getNextTimeout.induct)
  case (1 m now)
  note run = 1(2) [unfolded getNextTimeout.simps [of m now]]
  show ?case
  proof (cases "heap_top (tm_heap m)")
    case None
    then have "deadline m = (\<lambda>_. None)" by (simp add: deadline_def fun_eq_iff)
    then show ?thesis using run None 1(3) by simp
  next
    case (Some n)
    note top = heap_topD [OF Some]
    show ?thesis
    proof (cases "valid_node m n")
      case False
      let ?m = "m\<lparr>tm_heap := remove1 n (tm_heap m)\<rparr>"
      have s: "tm_inv ?m" "deadline ?m = deadline m" using stale_inv [OF 1(3) top(1) False refl] by auto
      have "getNextTimeout ?m now = (m', t)" using run Some False top(2) by simp
      from 1(1) [OF Some False, unfolded top(2), OF this s(1), unfolded s(2)] show ?thesis by simp
    next
      case True
      note d = deadline_top [OF 1(3) Some True]
      have t: "m' = m" "t = word_of_int (max 0 (trunc_div (tn_expire n - now) 1000000))"
        using run Some True by (auto simp: Let_def max_def)
      have "deadline m \<noteq> (\<lambda>_. None)" using d(1) by auto
      then show ?thesis using d t 1(3) by auto
    qed
  qed
qed

subsection \<open>Any sequence of operations\<close>

datatype timer_op = AddTimer int i32 int | UpdateTimer int i32 int | RemoveTimer int | HandleExpired int | NextTimeout int

fun timer_do :: "timer_manager \<Rightarrow> timer_op \<Rightarrow> timer_manager" where
  "timer_do m (AddTimer fd t now) = timer_add m fd t now"
| "timer_do m (UpdateTimer fd t now) = timer_update m fd t now"
| "timer_do m (RemoveTimer fd) = timer_remove m fd"
| "timer_do m (HandleExpired now) = fst (handleExpired m now)"
| "timer_do m (NextTimeout now) = fst (getNextTimeout m now)"

text \<open>The specification: one deadline per descriptor, set by the latest call.\<close>

fun deadline_do :: "(int \<Rightarrow> int option) \<Rightarrow> timer_op \<Rightarrow> (int \<Rightarrow> int option)" where
  "deadline_do D (AddTimer fd t now) = D(fd \<mapsto> now + MS t)"
| "deadline_do D (UpdateTimer fd t now) = D(fd \<mapsto> now + MS t)"
| "deadline_do D (RemoveTimer fd) = D(fd := None)"
| "deadline_do D (HandleExpired now) = (\<lambda>fd. case D fd of None \<Rightarrow> None | Some d \<Rightarrow> if d \<le> now then None else Some d)"
| "deadline_do D (NextTimeout now) = D"

lemma timer_do_inv:
  assumes "tm_inv m" "unat (tm_idGen m) + 1 < 2 ^ 64"
  shows "tm_inv (timer_do m x) \<and> deadline (timer_do m x) = deadline_do (deadline m) x \<and>
    unat (tm_idGen (timer_do m x)) \<le> unat (tm_idGen m) + 1"
proof (cases x)
  case (HandleExpired now)
  obtain m' fds where r: "expire_loop now m = (m', fds)" by fastforce
  show ?thesis using expire_loop_inv [OF r assms(1)]
    by (auto simp: HandleExpired handleExpired_def r expired_def fun_eq_iff split: option.split)
next
  case (NextTimeout now)
  obtain m' t where r: "getNextTimeout m now = (m', t)" by fastforce
  show ?thesis using next_timeout_inv [OF r assms(1)] by (simp add: NextTimeout r)
qed (use add_inv [OF assms] remove_inv [OF assms(1)] in \<open>auto simp: timer_update_def timer_remove_def\<close>)

lemma timer_run_inv:
  assumes "length ops < 2 ^ 64"
  shows "tm_inv (foldl timer_do TimerManager_new ops) \<and>
    deadline (foldl timer_do TimerManager_new ops) = foldl deadline_do (\<lambda>_. None) ops \<and>
    unat (tm_idGen (foldl timer_do TimerManager_new ops)) \<le> length ops"
  using assms
proof (induction ops rule: rev_induct)
  case (snoc x ops)
  let ?m = "foldl timer_do TimerManager_new ops"
  have ih: "tm_inv ?m" "deadline ?m = foldl deadline_do (\<lambda>_. None) ops" "unat (tm_idGen ?m) \<le> length ops"
    using snoc by auto
  have "unat (tm_idGen ?m) + 1 < 2 ^ 64" using ih(3) snoc.prems by simp
  from timer_do_inv [OF ih(1) this, of x] show ?case using ih(2,3) by simp
qed (simp add: TimerManager_new_def [THEN arg_cong [where f = tm_idGen]])

text \<open>C14: the lazy heap is a table of deadlines. After any sequence of operations the timers that
  \<open>idMap_\<close> still names stand for one deadline per descriptor, the one of its latest \<open>add\<close> or \<open>update\<close>;
  \<open>handleExpired\<close> calls back exactly the descriptors whose deadline has come, each once and in the order
  of the deadlines, and \<open>getNextTimeout\<close> answers the rest of the earliest one in whole milliseconds (-1 without
  any): no connection times out early, twice or because of a timer that was replaced.\<close>

theorem timers_refine_deadlines:
  assumes "length ops < 2 ^ 64"
    and "m = foldl timer_do TimerManager_new ops" and "D = foldl deadline_do (\<lambda>_. None) ops"
  shows "(\<exists>m' fds. handleExpired m now = (m', fds) \<and> distinct fds \<and>
      set fds = {fd. \<exists>d. D fd = Some d \<and> d \<le> now} \<and> sorted (map (\<lambda>fd. the (D fd)) fds)) \<and>
    (\<exists>m' t. getNextTimeout m now = (m', t) \<and>
      (if D = (\<lambda>_. None) then t = -1
       else \<exists>fd d. D fd = Some d \<and> (\<forall>fd' d'. D fd' = Some d' \<longrightarrow> d \<le> d') \<and>
         t = word_of_int (max 0 (trunc_div (d - now) 1000000))))"
proof -
  have m: "tm_inv m" "deadline m = D" using timer_run_inv [OF assms(1)] assms(2,3) by auto
  obtain m1 fds m2 t where r: "expire_loop now m = (m1, fds)" "getNextTimeout m now = (m2, t)" by fastforce
  show ?thesis
    using expire_loop_inv [OF r(1) m(1), unfolded expired_def m(2)] next_timeout_inv [OF r(2) m(1), unfolded m(2)] r
    by (simp add: handleExpired_def)
qed

lemma timers_refine_deadlines_witness:
  "\<exists>m'. handleExpired (foldl timer_do TimerManager_new
     [AddTimer 5 10 0, AddTimer 6 20 0, UpdateTimer 5 100 1000000, HandleExpired 15000000]) 30000000 = (m', [6])"
proof -
  let ?ops = "[AddTimer 5 10 0, AddTimer 6 20 0, UpdateTimer 5 100 1000000, HandleExpired 15000000]"
  let ?D = "foldl deadline_do (\<lambda>_. None) ?ops"
  have d: "?D = [5 \<mapsto> 101000000, 6 \<mapsto> 20000000]" by (auto simp: MS_def fun_eq_iff)
  have s: "{fd. \<exists>d. ?D fd = Some d \<and> d \<le> 30000000} = {6}" unfolding d by (auto split: if_splits)
  from timers_refine_deadlines [OF _ refl refl, of ?ops 30000000]
  obtain m' fds where f: "handleExpired (foldl timer_do TimerManager_new ?ops) 30000000 = (m', fds)" "distinct fds"
    "set fds = {6}" unfolding s by auto
  then have "length fds = 1" using distinct_card [of fds] by simp
  then have "fds = [6]" using f(3) by (cases fds) auto
  then show ?thesis using f(1) by blast
qed

end
