(* ===== verification/WebServer.thy ===== *)
theory WebServer
  imports Timer ApiSafety Transport
begin

text \<open>
  \<open>WebServer.cpp\<close>: the life of the connections under the main thread and the worker threads. Every access
  to something shared (the state of a connection, its buffers, \<open>conns_\<close>, the epoll set, the queue) is one
  step; a thread is the next access it will make (\<open>pc\<close>), with its local variables. The steps of
  all threads interleave freely. The connection objects are numbered in the order of their creation; the number
  is the shared pointer. What the kernel answers is an argument of the step: received bytes, room for
  sending, the clock, a new descriptor.

  A request is processed in one step: the service it calls holds its mutex, and every request is at most one
  call that changes it. In the Proactor mode the timers are used by several threads without a lock; here
  their operations do not overlap.
\<close>

record conn_object =
  co_tcp :: tcp_conn
  co_http :: http_conn

text \<open>What a descriptor is registered for. Every registration is one-shot: an event disarms it.\<close>

datatype interest = ArmIn | ArmOut | Disarmed

record web =
  wb_actor_model :: int
  wb_TIMEOUT_MS :: i32
  wb_next_conn_id :: u64
  wb_created :: nat
  wb_object :: "nat \<Rightarrow> conn_object"
  wb_conns :: "(int, nat) umap"
  wb_epoll :: "(int, interest) umap"
  wb_timer :: timer_manager
  wb_open :: "int list"
  wb_server :: server

record 'j answers =
  an_rx :: "rx list"
  an_tx :: "tx list"
  an_now :: int
  an_env :: "'j environment"
  an_accept :: "int option"
  an_locked :: bool

text \<open>The checks before a descriptor is armed again: they differ between the branches of the source.\<close>

datatype guard = SameOpen | StillOpen | NotClosed

datatype pc = Idle
  | HandleAccept | Register nat int
  | HandleRead int | MainRead nat int | Claim nat int
  | HandleWrite int | WriteCheck nat int | MainWrite nat int u64 | WriteDone nat int u64 | WriteFailed nat int
  | Rearm guard nat int u64 interest | ModFd int interest
  | CloseConn int | Exchange nat | CloseFd nat
  | TaskStart nat int u64 | TaskRead nat int u64 | TaskClaim nat int u64 | Process nat int u64 | Processed nat int u64
  | ReadFailed nat int

definition tcp_of :: "web \<Rightarrow> nat \<Rightarrow> tcp_conn" where
  "tcp_of w p = co_tcp (wb_object w p)"

definition put_tcp :: "web \<Rightarrow> nat \<Rightarrow> tcp_conn \<Rightarrow> web" where
  "put_tcp w p c = w\<lparr>wb_object := (wb_object w)(p := (wb_object w p)\<lparr>co_tcp := c\<rparr>)\<rparr>"

definition put_http :: "web \<Rightarrow> nat \<Rightarrow> http_conn \<Rightarrow> web" where
  "put_http w p c = w\<lparr>wb_object := (wb_object w)(p := (wb_object w p)\<lparr>co_http := c\<rparr>)\<rparr>"

definition cas :: "web \<Rightarrow> nat \<Rightarrow> conn_state \<Rightarrow> conn_state \<Rightarrow> bool \<times> web" where
  "cas w p expected desired = (case trySetState (tcp_of w p) expected desired of (ok, c) \<Rightarrow> (ok, put_tcp w p c))"

definition getConn :: "web \<Rightarrow> int \<Rightarrow> nat option" where
  "getConn w fd = um_find (wb_conns w) fd"

definition update_timer :: "web \<Rightarrow> int \<Rightarrow> int \<Rightarrow> web" where
  "update_timer w fd now = w\<lparr>wb_timer := timer_update (wb_timer w) fd (wb_TIMEOUT_MS w) now\<rparr>"

text \<open>\<open>epoll_ctl\<close>: a descriptor that is not registered cannot be changed.\<close>

definition epoll_mod :: "web \<Rightarrow> int \<Rightarrow> interest \<Rightarrow> web" where
  "epoll_mod w fd i = (if um_find (wb_epoll w) fd = None then w else w\<lparr>wb_epoll := um_put fd i (wb_epoll w)\<rparr>)"

subsection \<open>One access of a thread\<close>

definition accept_one :: "web \<Rightarrow> int \<Rightarrow> web" where
  "accept_one w fd = (let p = wb_created w; cid = wb_next_conn_id w in
     w\<lparr>wb_next_conn_id := cid + 1, wb_created := p + 1,
       wb_object := (wb_object w)(p := \<lparr>co_tcp = tcp_init (TcpConn_new (-1) 0) fd cid, co_http = new_http_conn\<rparr>),
       wb_conns := um_put fd p (wb_conns w), wb_open := fd # wb_open w\<rparr>)"

text \<open>\<open>closeConncl\<close> up to the unlock, then the two halves of \<open>TcpConn::closeConn\<close>.\<close>

definition close_erase :: "web \<Rightarrow> int \<Rightarrow> web \<times> pc" where
  "close_erase w fd = (case getConn w fd of None \<Rightarrow> (w, Idle)
     | Some p \<Rightarrow> (w\<lparr>wb_epoll := um_erase fd (wb_epoll w), wb_conns := um_erase fd (wb_conns w)\<rparr>, Exchange p))"

definition close_exchange :: "web \<Rightarrow> nat \<Rightarrow> web \<times> pc" where
  "close_exchange w p = (let old = tc_state (tcp_of w p) in
     (put_tcp w p ((tcp_of w p)\<lparr>tc_state := CLOSING\<rparr>), if old = CLOSED \<or> old = CLOSING then Idle else CloseFd p))"

definition close_fd :: "web \<Rightarrow> nat \<Rightarrow> web" where
  "close_fd w p = (let c = tcp_of w p; fd = tc_fd c;
       w1 = (if fd \<noteq> -1 then w\<lparr>wb_open := remove1 fd (wb_open w), wb_epoll := um_erase fd (wb_epoll w)\<rparr> else w)
     in put_tcp w1 p (c\<lparr>tc_fd := -1, tc_state := CLOSED\<rparr>))"

definition rearm_ok :: "guard \<Rightarrow> web \<Rightarrow> nat \<Rightarrow> int \<Rightarrow> u64 \<Rightarrow> bool" where
  "rearm_ok g w p fd cid = (case getConn w fd of None \<Rightarrow> False
     | Some alive \<Rightarrow> (case g of
         SameOpen \<Rightarrow> tc_conn_id (tcp_of w alive) = cid \<and> \<not> tcp_isClosed (tcp_of w alive)
       | StillOpen \<Rightarrow> \<not> tcp_isClosed (tcp_of w alive) \<and> cid = tc_conn_id (tcp_of w p)
       | NotClosed \<Rightarrow> tc_state (tcp_of w alive) \<noteq> CLOSED \<and> tc_conn_id (tcp_of w p) = cid))"

text \<open>
  \<open>conn->process()\<close>; an exception ends the task (its future is never read). \<open>None\<close>: undefined behaviour (the
  planner reading a route out of its bounds, the outcome \<open>Broken\<close>). No step is given for it: the runs that
  are modelled end there, and what is proved of reachable states says nothing about what such a
  process does afterwards.
\<close>

definition run_process :: "'j environment \<Rightarrow> web \<Rightarrow> nat \<Rightarrow> int \<Rightarrow> u64 \<Rightarrow> (web \<times> pc) option" where
  "run_process E w p fd cid =
     (case http_process E (co_http (wb_object w p)) (tc_received (tcp_of w p)) (wb_server w) of
        (None, h) \<Rightarrow> Some (put_http w p h, Processed p fd cid)
      | (Some (Answered r sv), h) \<Rightarrow>
          Some ((put_tcp (put_http w p h) p ((tcp_of w p)\<lparr>tc_response := Some r\<rparr>))\<lparr>wb_server := sv\<rparr>, Processed p fd cid)
      | (Some (Escaped e sv), h) \<Rightarrow> Some ((put_http w p h)\<lparr>wb_server := sv\<rparr>, Idle)
      | (Some NotMine, h) \<Rightarrow> None
      | (Some Broken, h) \<Rightarrow> None)"

text \<open>After the processing: no response means that the request is not complete.\<close>

definition run_processed :: "web \<Rightarrow> nat \<Rightarrow> int \<Rightarrow> u64 \<Rightarrow> web \<times> pc" where
  "run_processed w p fd cid =
     (if \<not> hasResponse (tcp_of w p)
      then (case cas w p PROCESSING IDLE of (ok, w1) \<Rightarrow> (w1, if ok then Rearm SameOpen p fd cid ArmIn else Idle))
      else (case cas w p PROCESSING WRITING of (ok, w1) \<Rightarrow>
        (w1, if wb_actor_model w = 0 then Rearm SameOpen p fd cid ArmOut
             else if ok then Rearm NotClosed p fd cid ArmOut else Idle)))"

text \<open>After a complete write: the next request, or the end of the connection.\<close>

definition run_write_done :: "web \<Rightarrow> nat \<Rightarrow> int \<Rightarrow> u64 \<Rightarrow> web \<times> pc" where
  "run_write_done w p fd cid = (let c = resetWriteState (tcp_of w p) in
     if isKeepAlive (co_http (wb_object w p)) \<and> \<not> tc_peer_closed_write c
     then (snd (cas (put_tcp w p (resetReadState c)) p WRITING IDLE), Rearm StillOpen p fd cid ArmIn)
     else (put_tcp w p c, CloseConn fd))"

text \<open>
  \<open>exec\<close> is the next access of a thread: the new state, how the thread goes on, and the tasks it has put
  into the queue. \<open>None\<close>: not possible with these answers.
\<close>

fun exec :: "'j answers \<Rightarrow> pc \<Rightarrow> web \<Rightarrow> (web \<times> pc \<times> pc list) option" where
  "exec A Idle w = None"
| "exec A HandleAccept w = (case an_accept A of None \<Rightarrow> Some (w, Idle, [])
     | Some fd \<Rightarrow> if fd < 0 \<or> fd \<in> set (wb_open w) then None
         else Some (accept_one w fd, Register (wb_created w) fd, []))"
| "exec A (Register p fd) w = Some
     (w\<lparr>wb_epoll := um_put fd ArmIn (wb_epoll w), wb_timer := timer_add (wb_timer w) fd (wb_TIMEOUT_MS w) (an_now A)\<rparr>,
      HandleAccept, [])"
| "exec A (HandleRead fd) w = (case getConn w fd of None \<Rightarrow> Some (w, Idle, [])
     | Some p \<Rightarrow> Some (w, if wb_actor_model w = 0 then MainRead p fd else Claim p fd, []))"
| "exec A (MainRead p fd) w = (case tcp_read (tcp_of w p) (an_rx A) of None \<Rightarrow> None
     | Some (ok, c, _) \<Rightarrow> Some (put_tcp w p c, if ok then Claim p fd else CloseConn fd, []))"
| "exec A (Claim p fd) w =
     (let w1 = (if wb_actor_model w = 0 then update_timer w fd (an_now A) else w);
          (ok, w2) = cas w1 p IDLE (if wb_actor_model w = 0 then PROCESSING else READING)
      in Some (w2, Idle, if ok then [TaskStart p fd (tc_conn_id (tcp_of w2 p))] else []))"
| "exec A (HandleWrite fd) w = (case getConn w fd of None \<Rightarrow> Some (w, Idle, []) | Some p \<Rightarrow> Some (w, WriteCheck p fd, []))"
| "exec A (WriteCheck p fd) w = Some (w, if getState (tcp_of w p) \<noteq> WRITING then Idle
     else MainWrite p fd (tc_conn_id (tcp_of w p)), [])"
| "exec A (MainWrite p fd cid) w = (case tcp_write (tcp_of w p) [] (an_tx A) of None \<Rightarrow> None
     | Some (status, c, _, _) \<Rightarrow>
         if status = WRITE_ERROR then Some (put_tcp w p c, WriteFailed p fd, [])
         else Some (update_timer (put_tcp w p c) fd (an_now A),
           if status = COMPLETE then WriteDone p fd cid else Rearm StillOpen p fd cid ArmOut, []))"
| "exec A (WriteDone p fd cid) w = (case run_write_done w p fd cid of (w1, t) \<Rightarrow> Some (w1, t, []))"
| "exec A (WriteFailed p fd) w = Some (snd (cas w p WRITING CLOSED), CloseConn fd, [])"
| "exec A (Rearm g p fd cid i) w = Some (w, if rearm_ok g w p fd cid then ModFd fd i else Idle, [])"
| "exec A (ModFd fd i) w = Some (epoll_mod w fd i, Idle, [])"
| "exec A (CloseConn fd) w = (case close_erase w fd of (w1, t) \<Rightarrow> Some (w1, t, []))"
| "exec A (Exchange p) w = (case close_exchange w p of (w1, t) \<Rightarrow> Some (w1, t, []))"
| "exec A (CloseFd p) w = Some (close_fd w p, Idle, [])"
| "exec A (TaskStart p fd cid) w =
     (if \<not> an_locked A then (if p \<in> snd ` set (wb_conns w) then None else Some (w, Idle, []))
      else if wb_actor_model w \<noteq> 0 then Some (w, TaskRead p fd cid, [])
      else Some (w, if tc_conn_id (tcp_of w p) \<noteq> cid then Idle else Process p fd cid, []))"
| "exec A (TaskRead p fd cid) w = (case tcp_read (tcp_of w p) (an_rx A) of None \<Rightarrow> None
     | Some (ok, c, _) \<Rightarrow> Some (put_tcp w p c,
         if \<not> ok \<or> tc_conn_id c \<noteq> cid then ReadFailed p fd else TaskClaim p fd cid, []))"
| "exec A (ReadFailed p fd) w = Some (snd (cas w p READING CLOSED), CloseConn fd, [])"
| "exec A (TaskClaim p fd cid) w = (case cas (update_timer w fd (an_now A)) p READING PROCESSING of (ok, w1) \<Rightarrow>
     Some (w1, if \<not> ok \<or> tc_conn_id (tcp_of w1 p) \<noteq> cid then Idle else Process p fd cid, []))"
| "exec A (Process p fd cid) w = (case run_process (an_env A) w p fd cid of None \<Rightarrow> None
     | Some (w1, t) \<Rightarrow> Some (w1, t, []))"
| "exec A (Processed p fd cid) w = (case run_processed w p fd cid of (w1, t) \<Rightarrow> Some (w1, t, []))"

subsection \<open>All threads together\<close>

text \<open>An event of \<open>epoll_wait\<close>; the listening socket has one of its own.\<close>

record epoll_event =
  ev_fd :: int
  ev_err :: bool
  ev_in :: bool
  ev_out :: bool
  ev_hup :: bool

datatype todo = Accept | Event epoll_event | Expired | Expiring int | AfterCallback int

definition dispatch_event :: "epoll_event \<Rightarrow> pc" where
  "dispatch_event ev =
     (if ev_err ev then CloseConn (ev_fd ev) else if ev_in ev then HandleRead (ev_fd ev)
      else if ev_out ev then HandleWrite (ev_fd ev) else if ev_hup ev then CloseConn (ev_fd ev) else Idle)"

text \<open>
  The main thread is the first one; \<open>sy_todo\<close> is what is left of this round of its loop. \<open>handleExpired\<close>
  reads the clock once (\<open>Expired\<close>) and then, for one timer after the other (\<open>Expiring\<close>), calls \<open>closeConncl\<close>
  and removes the timer after that call has returned (\<open>AfterCallback\<close>).
\<close>

record system =
  sy_web :: web
  sy_threads :: "pc list"
  sy_todo :: "todo list"

definition may_happen :: "web \<Rightarrow> epoll_event \<Rightarrow> bool" where
  "may_happen w ev \<longleftrightarrow> (case um_find (wb_epoll w) (ev_fd ev) of None \<Rightarrow> False
     | Some i \<Rightarrow> i \<noteq> Disarmed \<and> (ev_in ev \<longrightarrow> i = ArmIn) \<and> (ev_out ev \<longrightarrow> i = ArmOut))"

text \<open>What \<open>epoll_wait\<close> may return; it disarms the descriptors whose events it returns.\<close>

definition batch :: "web \<Rightarrow> todo list \<Rightarrow> bool" where
  "batch w items \<longleftrightarrow> list_all (\<lambda>x. case x of Accept \<Rightarrow> True | Event ev \<Rightarrow> may_happen w ev | _ \<Rightarrow> False) items"

definition disarm :: "todo list \<Rightarrow> (int, interest) umap \<Rightarrow> (int, interest) umap" where
  "disarm items m = fold (\<lambda>x m. case x of Event ev \<Rightarrow> um_put (ev_fd ev) Disarmed m | _ \<Rightarrow> m) items m"

inductive web_step :: "'j json_lib \<Rightarrow> system \<Rightarrow> system \<Rightarrow> bool" for J :: "'j json_lib" where
  web_run: "sy_threads s = as @ t # bs \<Longrightarrow> en_json (an_env A) = J \<Longrightarrow>
    exec A t (sy_web s) = Some (w', t', new) \<Longrightarrow>
    web_step J s (s\<lparr>sy_web := w', sy_threads := as @ t' # bs @ new\<rparr>)"
| web_wait: "sy_threads s = Idle # ts \<Longrightarrow> sy_todo s = [] \<Longrightarrow> batch (sy_web s) items \<Longrightarrow>
    web_step J s (s\<lparr>sy_web := (sy_web s)\<lparr>wb_epoll := disarm items (wb_epoll (sy_web s)),
        wb_timer := fst (getNextTimeout (wb_timer (sy_web s)) now)\<rparr>, sy_todo := items @ [Expired]\<rparr>)"
| web_accept: "sy_threads s = Idle # ts \<Longrightarrow> sy_todo s = Accept # more_todo \<Longrightarrow>
    web_step J s (s\<lparr>sy_threads := HandleAccept # ts, sy_todo := more_todo\<rparr>)"
| web_event: "sy_threads s = Idle # ts \<Longrightarrow> sy_todo s = Event ev # more_todo \<Longrightarrow>
    web_step J s (s\<lparr>sy_threads := dispatch_event ev # ts, sy_todo := more_todo\<rparr>)"
| web_expired: "sy_threads s = Idle # ts \<Longrightarrow> sy_todo s = Expired # more_todo \<Longrightarrow>
    web_step J s (s\<lparr>sy_todo := Expiring now # more_todo\<rparr>)"
| web_expiring: "sy_threads s = Idle # ts \<Longrightarrow> sy_todo s = Expiring now # more_todo \<Longrightarrow>
    next_expired now (wb_timer (sy_web s)) = (tm, due) \<Longrightarrow>
    web_step J s (s\<lparr>sy_web := (sy_web s)\<lparr>wb_timer := tm\<rparr>,
      sy_threads := (case due of None \<Rightarrow> Idle | Some fd \<Rightarrow> CloseConn fd) # ts,
      sy_todo := (case due of None \<Rightarrow> more_todo | Some fd \<Rightarrow> AfterCallback fd # Expiring now # more_todo)\<rparr>)"
| web_after_callback: "sy_threads s = Idle # ts \<Longrightarrow> sy_todo s = AfterCallback fd # more_todo \<Longrightarrow>
    web_step J s (s\<lparr>sy_web := (sy_web s)\<lparr>wb_timer := after_callback fd (wb_timer (sy_web s))\<rparr>, sy_todo := more_todo\<rparr>)"

text \<open>The server as \<open>main\<close> constructs it, around the state of the application.\<close>

definition WebServer_new :: "int \<Rightarrow> i32 \<Rightarrow> server \<Rightarrow> web" where
  "WebServer_new actor_model timeout_ms sv = \<lparr>wb_actor_model = actor_model, wb_TIMEOUT_MS = timeout_ms,
     wb_next_conn_id = 1, wb_created = 0, wb_object = (\<lambda>_. \<lparr>co_tcp = TcpConn_new (-1) 0, co_http = new_http_conn\<rparr>),
     wb_conns = [], wb_epoll = [], wb_timer = TimerManager_new, wb_open = [], wb_server = sv\<rparr>"

definition web_start :: "int \<Rightarrow> i32 \<Rightarrow> server \<Rightarrow> system \<Rightarrow> bool" where
  "web_start actor_model timeout_ms sv s \<longleftrightarrow>
     s = \<lparr>sy_web = WebServer_new actor_model timeout_ms sv, sy_threads = [Idle], sy_todo = []\<rparr>"

subsection \<open>The invariants\<close>

abbreviation st :: "web \<Rightarrow> nat \<Rightarrow> conn_state" where
  "st w p \<equiv> tc_state (tcp_of w p)"

abbreviation fd_of :: "web \<Rightarrow> nat \<Rightarrow> int" where
  "fd_of w p \<equiv> tc_fd (tcp_of w p)"

text \<open>The task that works on a connection, up to the step that gives the connection away.\<close>

fun owner :: "pc \<Rightarrow> nat option" where
  "owner (TaskStart p fd cid) = Some p"
| "owner (TaskRead p fd cid) = Some p"
| "owner (TaskClaim p fd cid) = Some p"
| "owner (Process p fd cid) = Some p"
| "owner (Processed p fd cid) = Some p"
| "owner (ReadFailed p fd) = Some p"
| "owner _ = None"

fun stage :: "int \<Rightarrow> pc \<Rightarrow> conn_state" where
  "stage model (TaskStart p fd cid) = (if model = 0 then PROCESSING else READING)"
| "stage model (Process p fd cid) = PROCESSING"
| "stage model (Processed p fd cid) = PROCESSING"
| "stage model _ = READING"

fun mentions :: "pc \<Rightarrow> nat option" where
  "mentions (MainRead p fd) = Some p"
| "mentions (Claim p fd) = Some p"
| "mentions (WriteCheck p fd) = Some p"
| "mentions (MainWrite p fd cid) = Some p"
| "mentions (WriteDone p fd cid) = Some p"
| "mentions (WriteFailed p fd) = Some p"
| "mentions (Exchange p) = Some p"
| "mentions (CloseFd p) = Some p"
| "mentions t = owner t"

definition gone :: "web \<Rightarrow> nat \<Rightarrow> bool" where
  "gone w p \<longleftrightarrow> st w p = CLOSING \<or> st w p = CLOSED"

definition thread_ok :: "web \<Rightarrow> pc \<Rightarrow> bool" where
  "thread_ok w t \<longleftrightarrow> (\<forall>p. mentions t = Some p \<longrightarrow> p < wb_created w) \<and>
     (\<forall>p. owner t = Some p \<longrightarrow> st w p = stage (wb_actor_model w) t \<or> gone w p) \<and>
     (\<forall>p fd. t = Exchange p \<or> t = CloseFd p \<longrightarrow> um_find (wb_conns w) fd \<noteq> Some p) \<and>
     (\<forall>p. t = CloseFd p \<longrightarrow> gone w p)"

definition web_ok :: "web \<Rightarrow> bool" where
  "web_ok w \<longleftrightarrow> um_wf (wb_conns w) \<and> distinct (wb_open w) \<and>
     (\<forall>fd p. um_find (wb_conns w) fd = Some p \<longrightarrow> p < wb_created w \<and> fd_of w p = fd \<and> fd \<noteq> -1) \<and>
     (\<forall>p < wb_created w. fd_of w p \<noteq> -1 \<longrightarrow> fd_of w p \<in> set (wb_open w)) \<and>
     (\<forall>p < wb_created w. gone w p \<or> fd_of w p \<noteq> -1) \<and>
     (\<forall>p < wb_created w. \<forall>q < wb_created w. fd_of w p = fd_of w q \<and> fd_of w p \<noteq> -1 \<longrightarrow> p = q)"

definition owners :: "pc list \<Rightarrow> nat list" where
  "owners ts = List.map_filter owner ts"

lemma owners_simps [simp]: "owners [] = []" "owners (t # ts) = (case owner t of None \<Rightarrow> owners ts | Some p \<Rightarrow> p # owners ts)"
  "owners (xs @ ys) = owners xs @ owners ys"
  by (simp_all add: owners_def List.map_filter_def split: option.split)

lemma set_owners: "p \<in> set (owners ts) \<longleftrightarrow> (\<exists>t \<in> set ts. owner t = Some p)"
  by (force simp: owners_def List.map_filter_def)

lemma grow_keeps: "grow c = Some c1 \<Longrightarrow> tc_state c1 = tc_state c \<and> tc_fd c1 = tc_fd c \<and> tc_conn_id c1 = tc_conn_id c"
  by (auto simp: grow_def split: if_splits)

lemma web_read_loop_keeps: "read_loop n c as = Some (ok, c', as') \<Longrightarrow>
    tc_state c' = tc_state c \<and> tc_fd c' = tc_fd c \<and> tc_conn_id c' = tc_conn_id c"
proof (induction n arbitrary: c as)
  case (Suc n)
  show ?case
  proof (cases "grow c")
    case None
    then show ?thesis using Suc.prems by simp
  next
    case (Some c1)
    note g = grow_keeps [OF Some]
    show ?thesis
    proof (cases as)
      case (Cons a rest)
      then show ?thesis using Suc.prems Some g Suc.IH [of "c1\<lparr>tc_received := _\<rparr>"] Suc.IH [of c1 rest]
        by (cases a) (auto split: if_split_asm prod.split_asm)
    qed (use Suc.prems Some in simp)
  qed
qed simp

lemma tcp_read_keeps: "tcp_read c as = Some (ok, c', as') \<Longrightarrow>
    tc_state c' = tc_state c \<and> tc_fd c' = tc_fd c \<and> tc_conn_id c' = tc_conn_id c"
  unfolding tcp_read_def by (rule web_read_loop_keeps)

lemma tcp_write_keeps: "tcp_write c wire as = Some (status, c', wire', as') \<Longrightarrow>
    tc_state c' = tc_state c \<and> tc_fd c' = tc_fd c \<and> tc_conn_id c' = tc_conn_id c"
  by (auto simp: tcp_write_def split: option.splits)

lemmas web_defs = put_tcp_def put_http_def cas_def trySetState_def tcp_of_def update_timer_def epoll_mod_def accept_one_def
  close_erase_def close_exchange_def close_fd_def run_processed_def run_write_done_def resetWriteState_def resetReadState_def
  tcp_init_def Let_def

lemma run_process_cases:
  assumes "run_process E w p fd cid = Some (w', t')"
  obtains h c sv where "w' = (put_tcp (put_http w p h) p c)\<lparr>wb_server := sv\<rparr>" "tc_state c = st w p" "tc_fd c = fd_of w p"
    "tc_conn_id c = tc_conn_id (tcp_of w p)" "t' = Processed p fd cid \<or> t' = Idle"
    "sv = wb_server w \<or> (\<exists>r h'. http_process E (co_http (wb_object w p)) (tc_received (tcp_of w p)) (wb_server w) = (Some r, h') \<and>
      ((\<exists>resp. r = Answered resp sv) \<or> (\<exists>e. r = Escaped e sv)))"
proof -
  obtain o1 h where o1: "http_process E (co_http (wb_object w p)) (tc_received (tcp_of w p)) (wb_server w) = (o1, h)"
    by fastforce
  have same: "put_tcp v p (tcp_of v p) = v" for v by (simp add: put_tcp_def tcp_of_def)
  consider (inc) "o1 = None" | (ans) r sv where "o1 = Some (Answered r sv)" | (esc) e sv where "o1 = Some (Escaped e sv)"
    using assms o1 by (auto simp: run_process_def split: option.splits api_outcome.splits)
  then show ?thesis
  proof cases
    case inc
    then show ?thesis using assms o1 same [of "put_http w p h"]
      by (intro that [of "wb_server w" h "tcp_of w p"]) (auto simp: run_process_def put_http_def tcp_of_def put_tcp_def)
  next
    case ans
    then show ?thesis using assms o1
      by (intro that [of sv h "(tcp_of w p)\<lparr>tc_response := Some r\<rparr>"]) (auto simp: run_process_def)
  next
    case esc
    then show ?thesis using assms o1
      by (intro that [of sv h "tcp_of w p"]) (auto simp: run_process_def put_http_def tcp_of_def put_tcp_def)
  qed
qed

lemma exec_frame:
  assumes "exec A t w = Some (w', t', new)"
  shows "wb_actor_model w' = wb_actor_model w \<and> wb_created w \<le> wb_created w' \<and>
    (owner t' = None \<or> owner t' = owner t) \<and> (new = [] \<or> (\<exists>p fd. t = Claim p fd \<and> st w p = IDLE \<and> owners new = [p]))"
  using assms
  by (cases t) (auto simp: web_defs split: option.split_asm if_split_asm prod.split_asm elim: run_process_cases)

text \<open>What a step of one thread may do to a connection, for the other threads.\<close>

lemma exec_state:
  assumes "exec A t w = Some (w', t', new)" "p < wb_created w"
  shows "st w' p = st w p \<or> gone w' p \<or> st w p = IDLE \<or> st w p = WRITING \<or> owner t = Some p"
  using assms
  by (cases t) (auto simp: gone_def web_defs split: option.split_asm if_split_asm prod.split_asm
    elim!: run_process_cases dest!: tcp_read_keeps tcp_write_keeps)

lemma exec_gone:
  assumes "exec A t w = Some (w', t', new)" "p < wb_created w" "gone w p"
  shows "gone w' p"
  using assms
  by (cases t) (auto simp: gone_def web_defs split: option.split_asm if_split_asm prod.split_asm
    elim!: run_process_cases dest!: tcp_read_keeps tcp_write_keeps)

lemma exec_fd:
  assumes "exec A t w = Some (w', t', new)" "p < wb_created w"
  shows "fd_of w' p = fd_of w p \<or> (t = CloseFd p \<and> fd_of w' p = -1)"
  using assms
  by (cases t) (auto simp: web_defs split: option.split_asm if_split_asm prod.split_asm
    elim!: run_process_cases dest!: tcp_read_keeps tcp_write_keeps)

lemma exec_conns:
  assumes "exec A t w = Some (w', t', new)" "um_find (wb_conns w') fd = Some p"
  shows "um_find (wb_conns w) fd = Some p \<or> (p = wb_created w \<and> t = HandleAccept)"
  using assms
  by (cases t) (auto simp: web_defs getConn_def umap_simps split: option.split_asm if_split_asm prod.split_asm elim!: run_process_cases)

lemma exec_open:
  assumes "exec A t w = Some (w', t', new)"
  shows "wb_open w' = wb_open w \<or> (\<exists>fd. t = HandleAccept \<and> fd \<notin> set (wb_open w) \<and> 0 \<le> fd \<and> w' = accept_one w fd) \<or>
    (\<exists>p. t = CloseFd p \<and> fd_of w p \<noteq> -1 \<and> wb_open w' = remove1 (fd_of w p) (wb_open w))"
  using assms
  by (cases t) (auto simp: web_defs split: option.split_asm if_split_asm prod.split_asm elim!: run_process_cases)

lemma exec_keeps_thread:
  assumes "exec A t w = Some (w', t', new)" "thread_ok w u" "\<And>p. owner u = Some p \<Longrightarrow> owner t \<noteq> Some p"
  shows "thread_ok w' u"
proof -
  note f = exec_frame [OF assms(1)]
  have "p < wb_created w'" if "mentions u = Some p" for p
    using assms(2) f that by (auto simp: thread_ok_def)
  moreover have "st w' p = stage (wb_actor_model w') u \<or> gone w' p" if o: "owner u = Some p" for p
  proof -
    have m: "mentions u = Some p" using o by (cases u) auto
    then have p: "p < wb_created w" "st w p = stage (wb_actor_model w) u \<or> gone w p" using assms(2) o by (auto simp: thread_ok_def)
    have "stage (wb_actor_model w) u \<noteq> IDLE" "stage (wb_actor_model w) u \<noteq> WRITING" by (cases u; simp)+
    then show ?thesis using exec_state [OF assms(1) p(1)] exec_gone [OF assms(1) p(1)] p(2) assms(3) [OF o] f by auto
  qed
  moreover have "um_find (wb_conns w') fd \<noteq> Some p" if "u = Exchange p \<or> u = CloseFd p" for p fd
  proof -
    have "p < wb_created w" "um_find (wb_conns w) fd \<noteq> Some p" using assms(2) that by (auto simp: thread_ok_def)
    then show ?thesis using exec_conns [OF assms(1), of fd p] by auto
  qed
  moreover have "gone w' p" if "u = CloseFd p" for p
    using assms(2) that exec_gone [OF assms(1)] by (auto simp: thread_ok_def)
  ultimately show ?thesis unfolding thread_ok_def by blast
qed

lemma conns_bound: "web_ok w \<Longrightarrow> um_find (wb_conns w) fd = Some p \<Longrightarrow> p < wb_created w"
  unfolding web_ok_def by blast

lemma exec_mentions:
  assumes "exec A t w = Some (w', t', new)" "thread_ok w t" "web_ok w" "mentions t' = Some p"
  shows "p < wb_created w'"
  using assms
  by (cases t) (auto simp: thread_ok_def getConn_def web_defs split: option.split_asm if_split_asm prod.split_asm
    elim!: run_process_cases dest: conns_bound)

lemma exec_stage:
  assumes "exec A t w = Some (w', t', new)" "thread_ok w t" "owner t' = Some p"
  shows "st w' p = stage (wb_actor_model w') t' \<or> gone w' p"
  using assms
  by (cases t) (auto simp: thread_ok_def gone_def web_defs split: option.split_asm if_split_asm prod.split_asm
    elim!: run_process_cases dest!: tcp_read_keeps tcp_write_keeps)

lemma conns_inj: "web_ok w \<Longrightarrow> um_find (wb_conns w) a = Some p \<Longrightarrow> um_find (wb_conns w) b = Some p \<Longrightarrow> a = b"
  unfolding web_ok_def by metis

lemma exec_erased:
  assumes "exec A t w = Some (w', t', new)" "thread_ok w t" "web_ok w" "t' = Exchange p \<or> t' = CloseFd p"
  shows "um_find (wb_conns w') fd \<noteq> Some p"
  using assms
  by (cases t) (auto simp: thread_ok_def getConn_def umap_simps web_defs split: option.split_asm if_split_asm prod.split_asm
    elim!: run_process_cases dest: conns_inj [OF assms(3)])

lemma accept_web_ok:
  assumes "web_ok w" "fd \<notin> set (wb_open w)" "0 \<le> fd"
  shows "web_ok (accept_one w fd)"
proof -
  let ?w = "accept_one w fd" let ?n = "wb_created w"
  have n: "wb_created ?w = Suc ?n" "wb_open ?w = fd # wb_open w" "fd_of ?w ?n = fd" "wb_conns ?w = um_put fd ?n (wb_conns w)"
    by (simp_all add: web_defs)
  have old: "fd_of ?w p = fd_of w p" if "p < ?n" for p using that by (simp add: web_defs)
  have op: "fd_of w p \<noteq> -1 \<Longrightarrow> fd_of w p \<in> set (wb_open w)" if "p < ?n" for p
    using assms(1) that by (simp add: web_ok_def)
  have df: "fd_of w p = fd_of w q \<Longrightarrow> fd_of w p \<noteq> -1 \<Longrightarrow> p = q" if "p < ?n" "q < ?n" for p q
    using assms(1) that unfolding web_ok_def by blast
  have live: "gone ?w q \<or> fd_of ?w q \<noteq> -1" if "q < Suc ?n" for q
  proof (cases "q = ?n")
    case False
    then have "gone w q \<or> fd_of w q \<noteq> -1" using assms(1) that by (auto simp: web_ok_def)
    then show ?thesis using False by (simp add: gone_def web_defs)
  qed (use n(3) assms(3) in simp)
  show ?thesis unfolding web_ok_def n
  proof (intro conjI allI impI)
    fix f q assume q: "um_find (um_put fd ?n (wb_conns w)) f = Some q"
    then show "q < Suc ?n" "fd_of ?w q = f" "f \<noteq> -1" using assms(1,3) n(3) old
      by (auto simp: umap_simps web_ok_def less_Suc_eq split: if_split_asm)
  next
    fix q assume "q < Suc ?n" "fd_of ?w q \<noteq> -1"
    then show "fd_of ?w q \<in> set (fd # wb_open w)" using op [of q] old [of q] n(3) by (cases "q = ?n") auto
  next
    fix q r assume "q < Suc ?n" "r < Suc ?n" "fd_of ?w q = fd_of ?w r \<and> fd_of ?w q \<noteq> -1"
    then show "q = r" using op old n(3) df assms(2) less_Suc_eq by metis
  qed (use assms live in \<open>auto simp: web_ok_def\<close>)
qed

lemma close_web_ok:
  assumes "web_ok w" "p < wb_created w" "\<And>fd. um_find (wb_conns w) fd \<noteq> Some p" "fd_of w p \<noteq> -1"
  shows "web_ok (close_fd w p)"
proof -
  let ?w = "close_fd w p"
  have n: "wb_created ?w = wb_created w" "wb_open ?w = remove1 (fd_of w p) (wb_open w)" "wb_conns ?w = wb_conns w"
    "fd_of ?w p = -1"
    using assms(4) by (simp_all add: web_defs)
  have old: "fd_of ?w q = fd_of w q" if "q \<noteq> p" for q using that assms(4) by (simp add: web_defs)
  have df: "fd_of w q = fd_of w r \<Longrightarrow> fd_of w q \<noteq> -1 \<Longrightarrow> q = r" if "q < wb_created w" "r < wb_created w" for q r
    using assms(1) that unfolding web_ok_def by blast
  have op: "fd_of w q \<noteq> -1 \<Longrightarrow> fd_of w q \<in> set (wb_open w)" if "q < wb_created w" for q
    using assms(1) that by (simp add: web_ok_def)
  have live: "gone ?w q \<or> fd_of ?w q \<noteq> -1" if "q < wb_created w" for q
  proof (cases "q = p")
    case False
    then show ?thesis using assms(1) that by (auto simp: web_ok_def gone_def web_defs)
  qed (simp add: gone_def web_defs)
  show ?thesis unfolding web_ok_def n
  proof (intro conjI allI impI)
    fix f q assume q: "um_find (wb_conns w) f = Some q"
    then have "q \<noteq> p" using assms(3) by blast
    then show "q < wb_created w" "fd_of ?w q = f" "f \<noteq> -1" using q assms(1) old by (auto simp: web_ok_def)
  next
    fix q assume q: "q < wb_created w" "fd_of ?w q \<noteq> -1"
    then have "q \<noteq> p" using n(4) by blast
    then show "fd_of ?w q \<in> set (remove1 (fd_of w p) (wb_open w))"
      using q old [of q] op [of q] df [of q p] assms(2) in_set_remove1 [of "fd_of w q" "fd_of w p"] by metis
  next
    fix q r assume q: "q < wb_created w" "r < wb_created w" "fd_of ?w q = fd_of ?w r \<and> fd_of ?w q \<noteq> -1"
    then have "q \<noteq> p" "r \<noteq> p" using n(4) by auto
    then show "q = r" using q df [of q r] old by auto
  qed (use assms live in \<open>auto simp: web_ok_def\<close>)
qed

lemma exec_closing:
  assumes "exec A t w = Some (w', t', new)" "t' = CloseFd p"
  shows "gone w' p" "t = Exchange p" "\<not> gone w p"
  using assms
  by (cases t; auto simp: gone_def web_defs split: option.split_asm if_split_asm prod.split_asm elim!: run_process_cases)+

lemma exec_new:
  assumes "exec A t w = Some (w', t', new)" "thread_ok w t" "u \<in> set new"
  shows "thread_ok w' u"
  using assms
  by (cases t) (auto simp: thread_ok_def web_defs split: option.split_asm if_split_asm prod.split_asm elim!: run_process_cases)

lemma exec_web_ok:
  assumes "exec A t w = Some (w', t', new)" "thread_ok w t" "web_ok w"
  shows "web_ok w'"
proof -
  have "um_wf (wb_conns w)" using assms(3) by (simp add: web_ok_def)
  then have wf: "um_wf (wb_conns w')" using assms(1)
    by (cases t) (auto simp: web_defs split: option.split_asm if_split_asm prod.split_asm elim!: run_process_cases)
  show ?thesis using exec_open [OF assms(1)]
  proof (elim disjE exE conjE)
    fix fd assume "t = HandleAccept" "fd \<notin> set (wb_open w)" "0 \<le> fd" "w' = accept_one w fd"
    then show ?thesis using accept_web_ok [OF assms(3)] by blast
  next
    fix p assume t: "t = CloseFd p" and fd: "fd_of w p \<noteq> -1" and o: "wb_open w' = remove1 (fd_of w p) (wb_open w)"
    have w': "w' = close_fd w p" using assms(1) t by simp
    have p: "p < wb_created w" "um_find (wb_conns w) fd \<noteq> Some p" for fd using assms(2) t by (auto simp: thread_ok_def)
    show ?thesis unfolding w' by (rule close_web_ok [OF assms(3) p fd])
  next
    assume o: "wb_open w' = wb_open w"
    show ?thesis
    proof (cases "t = HandleAccept")
      case True
      then show ?thesis using assms(1,3) o by (auto split: option.split_asm if_split_asm simp: web_defs)
    next
      case False
      have c: "wb_created w' = wb_created w" using assms(1) False
        by (cases t) (auto simp: web_defs split: option.split_asm if_split_asm prod.split_asm elim!: run_process_cases)
      have fd: "fd_of w' q = fd_of w q \<or> (t = CloseFd q \<and> fd_of w' q = -1)" if "q < wb_created w" for q
        by (rule exec_fd [OF assms(1) that])
      have cn: "um_find (wb_conns w') f = Some q \<Longrightarrow> um_find (wb_conns w) f = Some q" for f q
        using exec_conns [OF assms(1), of f q] False by blast
      have tq: "um_find (wb_conns w) f \<noteq> Some q" "gone w q" if "t = CloseFd q" for f q
        using assms(2) that by (auto simp: thread_ok_def)
      show ?thesis unfolding web_ok_def c o
      proof (intro conjI allI impI)
        fix f q assume "um_find (wb_conns w') f = Some q"
        then have "um_find (wb_conns w) f = Some q" by (rule cn)
        then show "q < wb_created w" "fd_of w' q = f" "f \<noteq> -1" using assms(3) fd tq(1) unfolding web_ok_def by metis+
      next
        fix q assume "q < wb_created w" "fd_of w' q \<noteq> -1"
        then show "fd_of w' q \<in> set (wb_open w)" using assms(3) fd unfolding web_ok_def by metis
      next
        fix q assume q: "q < wb_created w"
        show "gone w' q \<or> fd_of w' q \<noteq> -1"
          using assms(3) fd [OF q] tq(2) [of q] exec_gone [OF assms(1) q] q unfolding web_ok_def by metis
      next
        fix q r assume "q < wb_created w" "r < wb_created w" "fd_of w' q = fd_of w' r \<and> fd_of w' q \<noteq> -1"
        then show "q = r" using assms(3) fd unfolding web_ok_def by metis
      qed (use assms(3) wf in \<open>auto simp: web_ok_def\<close>)
    qed
  qed
qed

subsection \<open>Every interleaving\<close>

definition sys_inv :: "system \<Rightarrow> bool" where
  "sys_inv s \<longleftrightarrow> web_ok (sy_web s) \<and> list_all (thread_ok (sy_web s)) (sy_threads s) \<and> distinct (owners (sy_threads s))"

lemma sys_inv_run:
  assumes "sys_inv s" "sy_threads s = as @ t # bs" "exec A t (sy_web s) = Some (w', t', new)"
  shows "sys_inv (s\<lparr>sy_web := w', sy_threads := as @ t' # bs @ new\<rparr>)"
proof -
  let ?w = "sy_web s"
  have web: "web_ok ?w" and t: "thread_ok ?w t" and rest: "\<And>u. u \<in> set as \<union> set bs \<Longrightarrow> thread_ok ?w u"
    using assms(1,2) by (auto simp: sys_inv_def list_all_iff)
  have d: "distinct (owners as @ owners (t # bs))" using assms(1,2) by (simp add: sys_inv_def)
  note f = exec_frame [OF assms(3)]
  have other: "owner t \<noteq> Some p" if u: "u \<in> set as \<union> set bs" "owner u = Some p" for u p
  proof
    assume o: "owner t = Some p"
    have "p \<in> set (owners as) \<union> set (owners bs)" using u by (auto simp: set_owners)
    then show False using d o by auto
  qed
  have "thread_ok w' u" if "u \<in> set as \<union> set bs" for u
    by (rule exec_keeps_thread [OF assms(3) rest [OF that]]) (use other [OF that] in blast)
  moreover have "thread_ok w' t'"
    unfolding thread_ok_def
    using exec_mentions [OF assms(3) t web] exec_stage [OF assms(3) t] exec_erased [OF assms(3) t web]
      exec_closing(1) [OF assms(3)] by blast
  moreover have "thread_ok w' u" if "u \<in> set new" for u by (rule exec_new [OF assms(3) t that])
  ultimately have "list_all (thread_ok w') (as @ t' # bs @ new)" by (auto simp: list_all_iff)
  moreover have "distinct (owners (as @ t' # bs @ new))"
  proof (cases "new = []")
    case True
    then show ?thesis using d f by (auto split: option.splits)
  next
    case False
    then obtain p fd where c: "t = Claim p fd" "st ?w p = IDLE" "owners new = [p]" using f by blast
    have "p \<notin> set (owners as) \<union> set (owners bs)"
    proof
      assume "p \<in> set (owners as) \<union> set (owners bs)"
      then obtain u where u: "u \<in> set as \<union> set bs" "owner u = Some p" by (auto simp: set_owners)
      then have "st ?w p = stage (wb_actor_model ?w) u \<or> gone ?w p" using rest [OF u(1)] by (auto simp: thread_ok_def)
      then show False using c(2) by (cases u) (auto simp: gone_def split: if_splits)
    qed
    moreover have "owner t' = None" using f c(1) by auto
    ultimately show ?thesis using d c(1,3) by auto
  qed
  ultimately show ?thesis using exec_web_ok [OF assms(3) t web] by (simp add: sys_inv_def)
qed

text \<open>The main thread takes the next piece of its round: nothing of a connection changes.\<close>

lemma sys_inv_main:
  assumes "sys_inv s" "sy_threads s = Idle # ts" "sy_threads s' = t # ts" "mentions t = None"
    and "wb_object (sy_web s') = wb_object (sy_web s)" "wb_conns (sy_web s') = wb_conns (sy_web s)"
    "wb_open (sy_web s') = wb_open (sy_web s)" "wb_created (sy_web s') = wb_created (sy_web s)"
    "wb_actor_model (sy_web s') = wb_actor_model (sy_web s)"
  shows "sys_inv s'"
proof -
  have o: "owner t = None" using assms(4) by (cases t) auto
  have e: "t \<noteq> Exchange p" "t \<noteq> CloseFd p" for p using assms(4) by auto
  show ?thesis using assms o e
    by (auto simp: sys_inv_def web_ok_def thread_ok_def gone_def tcp_of_def list_all_iff)
qed

lemma sys_inv_step:
  assumes "sys_inv s" "web_step J s s'"
  shows "sys_inv s'"
  using assms(2)
proof cases
  case (web_run as t bs A w' t' new)
  show ?thesis unfolding web_run(1) by (rule sys_inv_run [OF assms(1) web_run(2,4)])
next
  case (web_wait ts items now)
  show ?thesis by (rule sys_inv_main [OF assms(1) web_wait(2), where t = Idle]) (simp_all add: web_wait(1,2))
next
  case (web_accept ts more_todo)
  show ?thesis by (rule sys_inv_main [OF assms(1) web_accept(2), where t = HandleAccept]) (simp_all add: web_accept(1))
next
  case (web_event ts ev more_todo)
  show ?thesis by (rule sys_inv_main [OF assms(1) web_event(2), where t = "dispatch_event ev"])
    (simp_all add: web_event(1) dispatch_event_def)
next
  case (web_expired ts more_todo now)
  show ?thesis by (rule sys_inv_main [OF assms(1) web_expired(2), where t = Idle]) (simp_all add: web_expired(1,2))
next
  case (web_expiring ts now more_todo tm due)
  show ?thesis
    by (rule sys_inv_main [OF assms(1) web_expiring(2), where t = "case due of None \<Rightarrow> Idle | Some fd \<Rightarrow> CloseConn fd"])
      (simp_all add: web_expiring(1) split: option.split)
next
  case (web_after_callback ts fd more_todo)
  show ?thesis
    by (rule sys_inv_main [OF assms(1) web_after_callback(2), where t = Idle]) (simp_all add: web_after_callback(1,2))
qed

lemma sys_inv_start: "web_start actor_model timeout_ms sv s \<Longrightarrow> sys_inv s"
  by (simp add: web_start_def sys_inv_def web_ok_def thread_ok_def WebServer_new_def)

interpretation web: inductive_invariant "web_start actor_model timeout_ms sv" "web_step J" sys_inv
  by unfold_locales (auto intro: sys_inv_start sys_inv_step)

subsection \<open>The application under the threads\<close>

lemma exec_served:
  assumes "exec A t w = Some (w', t', new)" "svc_inv (sr_service (wb_server w))"
  shows "served (wb_server w) (wb_server w')"
proof (cases "\<exists>p fd cid. t = Process p fd cid")
  case True
  then obtain p fd cid where "run_process (an_env A) w p fd cid = Some (w', t')"
    using assms(1) by (auto split: option.splits)
  then obtain sv h c where w: "wb_server w' = sv" and sv: "sv = wb_server w \<or>
      (\<exists>r h'. http_process (an_env A) (co_http (wb_object w p)) (tc_received (tcp_of w p)) (wb_server w) = (Some r, h') \<and>
        ((\<exists>resp. r = Answered resp sv) \<or> (\<exists>e. r = Escaped e sv)))"
    by (rule run_process_cases) auto
  from sv show ?thesis unfolding w
    by (elim disjE exE conjE) (auto dest: request_served [OF assms(2)])
next
  case False
  then have "wb_server w' = wb_server w" using assms(1)
    by (cases t) (auto simp: web_defs split: option.split_asm if_split_asm prod.split_asm)
  then show ?thesis by simp
qed

definition safe_server :: "server \<Rightarrow> bool" where
  "safe_server sv \<longleftrightarrow> reachable sv_start sv_step (sr_service sv) \<and> vm_inv (sr_vehicles sv)"

lemma safe_served: "safe_server sv \<Longrightarrow> served sv sv' \<Longrightarrow> safe_server sv'"
  by (auto simp: safe_server_def served_def intro: reach_step)

lemma web_step_served:
  assumes "web_step J s s'" "safe_server (wb_server (sy_web s))"
  shows "safe_server (wb_server (sy_web s'))"
  using assms(1)
proof cases
  case (web_run as t bs A w' t' new)
  have "svc_inv (sr_service (wb_server (sy_web s)))" using assms(2) by (auto simp: safe_server_def intro: sv.inv_reachable)
  then show ?thesis using safe_served [OF assms(2) exec_served [OF web_run(4)]] web_run(1) by simp
qed (use assms(2) in simp_all)

lemma web_run_served:
  assumes "reachable (web_start actor_model timeout_ms sv) (web_step J) s" "safe_server sv"
  shows "safe_server (wb_server (sy_web s))"
  using assms
proof (induction rule: reachable.induct)
  case (reach_init s)
  then show ?case by (simp add: web_start_def WebServer_new_def)
qed (blast intro: web_step_served)

subsection \<open>Schedules\<close>

text \<open>One interleaving, as a program: which thread makes its next access with which answers.\<close>

datatype 'j choice = Run nat "'j answers" | Wait "todo list" int | Next int

fun sched_step :: "'j choice \<Rightarrow> system \<Rightarrow> system option" where
  "sched_step (Run i A) s = (if length (sy_threads s) \<le> i then None
     else case exec A (sy_threads s ! i) (sy_web s) of None \<Rightarrow> None
       | Some (w', t', new) \<Rightarrow> Some (s\<lparr>sy_web := w', sy_threads := take i (sy_threads s) @ t' # drop (Suc i) (sy_threads s) @ new\<rparr>))"
| "sched_step (Wait items now) s = (if sy_threads s \<noteq> [] \<and> hd (sy_threads s) = Idle \<and> sy_todo s = [] \<and> batch (sy_web s) items
     then Some (s\<lparr>sy_web := (sy_web s)\<lparr>wb_epoll := disarm items (wb_epoll (sy_web s)),
        wb_timer := fst (getNextTimeout (wb_timer (sy_web s)) now)\<rparr>, sy_todo := items @ [Expired]\<rparr>) else None)"
| "sched_step (Next now) s = (if sy_threads s = [] \<or> hd (sy_threads s) \<noteq> Idle then None
     else case sy_todo s of [] \<Rightarrow> None
       | Accept # xs \<Rightarrow> Some (s\<lparr>sy_threads := HandleAccept # tl (sy_threads s), sy_todo := xs\<rparr>)
       | Event ev # xs \<Rightarrow> Some (s\<lparr>sy_threads := dispatch_event ev # tl (sy_threads s), sy_todo := xs\<rparr>)
       | Expired # xs \<Rightarrow> Some (s\<lparr>sy_todo := Expiring now # xs\<rparr>)
       | Expiring started # xs \<Rightarrow> (case next_expired started (wb_timer (sy_web s)) of (tm, due) \<Rightarrow>
           Some (s\<lparr>sy_web := (sy_web s)\<lparr>wb_timer := tm\<rparr>,
             sy_threads := (case due of None \<Rightarrow> Idle | Some fd \<Rightarrow> CloseConn fd) # tl (sy_threads s),
             sy_todo := (case due of None \<Rightarrow> xs | Some fd \<Rightarrow> AfterCallback fd # Expiring started # xs)\<rparr>))
       | AfterCallback fd # xs \<Rightarrow>
           Some (s\<lparr>sy_web := (sy_web s)\<lparr>wb_timer := after_callback fd (wb_timer (sy_web s))\<rparr>, sy_todo := xs\<rparr>))"

fun sched :: "'j choice list \<Rightarrow> system \<Rightarrow> system option" where
  "sched [] s = Some s"
| "sched (ch # chs) s = (case sched_step ch s of None \<Rightarrow> None | Some s' \<Rightarrow> sched chs s')"

definition uses_json :: "'j json_lib \<Rightarrow> 'j choice \<Rightarrow> bool" where
  "uses_json J ch \<longleftrightarrow> (\<forall>i A. ch = Run i A \<longrightarrow> en_json (an_env A) = J)"

lemma sched_step_sound:
  assumes "sched_step ch s = Some s'" "uses_json J ch"
  shows "web_step J s s'"
proof (cases ch)
  case (Run i A)
  then have i: "i < length (sy_threads s)" using assms(1) by (simp split: if_split_asm)
  obtain w' t' new where e: "exec A (sy_threads s ! i) (sy_web s) = Some (w', t', new)"
    "s' = s\<lparr>sy_web := w', sy_threads := take i (sy_threads s) @ t' # drop (Suc i) (sy_threads s) @ new\<rparr>"
    using assms(1) Run i by (auto split: option.split_asm)
  show ?thesis unfolding e(2)
    by (rule web_run [OF id_take_nth_drop [OF i] _ e(1)]) (use assms(2) Run in \<open>simp add: uses_json_def\<close>)
next
  case (Wait items now)
  then obtain ts where "sy_threads s = Idle # ts" using assms(1) by (cases "sy_threads s") (auto split: if_split_asm)
  then show ?thesis using assms(1) Wait by (auto split: if_split_asm intro: web_wait)
next
  case (Next now)
  then obtain ts where ts: "sy_threads s = Idle # ts" using assms(1) by (cases "sy_threads s") (auto split: if_split_asm)
  obtain x xs where x: "sy_todo s = x # xs" using assms(1) Next by (cases "sy_todo s") (auto split: if_split_asm)
  show ?thesis
    using assms(1) Next ts x
    by (cases x) (auto split: if_split_asm prod.split_asm intro: web_accept web_event web_expired web_expiring web_after_callback)
qed

lemma sched_sound:
  "sched chs s = Some s' \<Longrightarrow> list_all (uses_json J) chs \<Longrightarrow> (web_step J)\<^sup>*\<^sup>* s s'"
proof (induction chs arbitrary: s)
  case (Cons ch chs)
  then obtain s1 where s1: "sched_step ch s = Some s1" "sched chs s1 = Some s'" by (auto split: option.split_asm)
  have "web_step J s s1" by (rule sched_step_sound [OF s1(1)]) (use Cons.prems(2) in simp)
  then show ?case using Cons.IH [OF s1(2)] Cons.prems(2) by (simp add: converse_rtranclp_into_rtranclp)
qed simp

lemma reach_star: "reachable init step s \<Longrightarrow> step\<^sup>*\<^sup>* s t \<Longrightarrow> reachable init step t"
  by (rotate_tac 1, induction rule: rtranclp.induct) (auto intro: reach_step)

subsection \<open>What holds in every interleaving\<close>

lemma distinct_count: "distinct (owners ts) \<Longrightarrow> length (filter (\<lambda>t. owner t = Some p) ts) \<le> 1"
proof (induction ts)
  case (Cons t ts)
  show ?case
  proof (cases "owner t = Some p")
    case True
    then have "p \<notin> set (owners ts)" using Cons.prems by simp
    then have "filter (\<lambda>t. owner t = Some p) ts = []" by (auto simp: set_owners filter_empty_conv)
    then show ?thesis using True by simp
  next
    case False
    then show ?thesis using Cons by (cases "owner t") auto
  qed
qed simp

lemma web_alone:
  assumes "web_ok w" "p < wb_created w" "q < wb_created w" "fd_of w q = fd_of w p" "fd_of w p \<noteq> -1"
  shows "q = p"
proof -
  have "\<forall>p < wb_created w. \<forall>q < wb_created w. fd_of w p = fd_of w q \<and> fd_of w p \<noteq> -1 \<longrightarrow> p = q"
    using assms(1) unfolding web_ok_def by (elim conjE)
  then show ?thesis using assms(2-5) by simp
qed

lemma web_table:
  assumes "web_ok w" "um_find (wb_conns w) fd = Some p"
  shows "p < wb_created w \<and> fd_of w p = fd \<and> fd \<noteq> -1 \<and> fd \<in> set (wb_open w)"
proof -
  have "\<forall>fd p. um_find (wb_conns w) fd = Some p \<longrightarrow> p < wb_created w \<and> fd_of w p = fd \<and> fd \<noteq> -1"
    using assms(1) unfolding web_ok_def by (elim conjE)
  moreover have "\<forall>p < wb_created w. fd_of w p \<noteq> -1 \<longrightarrow> fd_of w p \<in> set (wb_open w)"
    using assms(1) unfolding web_ok_def by (elim conjE)
  ultimately show ?thesis using assms(2) by metis
qed

text \<open>C4: a connection is worked on by one task at a time. In every interleaving of the main thread and the
  workers, in both modes, at most one task is queued or running for a connection, and as long as there is
  one the connection is in the state of that stage or closed, never idle or writing: the main thread
  neither queues a second task for it nor sends a response that is still being written.\<close>

theorem one_task_per_connection:
  assumes "reachable (web_start actor_model timeout_ms sv) (web_step J) s"
  shows "length (filter (\<lambda>t. owner t = Some p) (sy_threads s)) \<le> 1 \<and>
    (\<forall>t \<in> set (sy_threads s). owner t = Some p \<longrightarrow>
      (st (sy_web s) p = stage (wb_actor_model (sy_web s)) t \<or> gone (sy_web s) p) \<and>
      st (sy_web s) p \<noteq> IDLE \<and> st (sy_web s) p \<noteq> WRITING)"
proof (intro conjI ballI impI)
  have inv: "sys_inv s" by (rule web.inv_reachable [OF assms])
  then have "distinct (owners (sy_threads s))" by (simp add: sys_inv_def)
  then show "length (filter (\<lambda>t. owner t = Some p) (sy_threads s)) \<le> 1" by (rule distinct_count)
  fix t assume t: "t \<in> set (sy_threads s)" "owner t = Some p"
  then have "thread_ok (sy_web s) t" using inv by (simp add: sys_inv_def list_all_iff)
  then show "st (sy_web s) p = stage (wb_actor_model (sy_web s)) t \<or> gone (sy_web s) p" using t(2) by (simp add: thread_ok_def)
  then show "st (sy_web s) p \<noteq> IDLE" "st (sy_web s) p \<noteq> WRITING" using t(2) by (cases t; auto simp: gone_def split: if_splits)+
qed

text \<open>C18: descriptors are not mixed up. In every interleaving the descriptor under which a connection is
  found is open and belongs to it alone, and when a step closes a descriptor it is the one of a connection
  that has already left \<open>conns_\<close>, has been marked as closing, and is the only one that holds it: no
  descriptor is closed twice, and none that the kernel has meanwhile given to another client.\<close>

theorem descriptors_are_owned:
  assumes "reachable (web_start actor_model timeout_ms sv) (web_step J) s"
  shows "(\<forall>fd p. getConn (sy_web s) fd = Some p \<longrightarrow> fd_of (sy_web s) p = fd \<and> fd \<in> set (wb_open (sy_web s)) \<and>
      (\<forall>q < wb_created (sy_web s). q \<noteq> p \<longrightarrow> fd_of (sy_web s) q \<noteq> fd)) \<and>
    (\<forall>s' fd. web_step J s s' \<and> fd \<in> set (wb_open (sy_web s)) \<and> fd \<notin> set (wb_open (sy_web s')) \<longrightarrow>
      (\<exists>p < wb_created (sy_web s). fd_of (sy_web s) p = fd \<and> gone (sy_web s) p \<and> getConn (sy_web s) fd = None \<and>
        (\<forall>q < wb_created (sy_web s). q \<noteq> p \<longrightarrow> fd_of (sy_web s) q \<noteq> fd)))"
proof -
  let ?w = "sy_web s"
  have inv: "sys_inv s" by (rule web.inv_reachable [OF assms])
  then have web: "web_ok ?w" by (simp add: sys_inv_def)
  have alone: "q = p" if "p < wb_created ?w" "q < wb_created ?w" "fd_of ?w q = fd_of ?w p" "fd_of ?w p \<noteq> -1" for p q
    using that by (intro web_alone [OF web]) auto
  have tab: "p < wb_created ?w \<and> fd_of ?w p = fd \<and> fd \<noteq> -1 \<and> fd \<in> set (wb_open ?w)" if "getConn ?w fd = Some p" for fd p
    using web_table [OF web] that by (simp add: getConn_def)
  have closes: "\<exists>p < wb_created ?w. fd_of ?w p = fd \<and> gone ?w p \<and> getConn ?w fd = None \<and>
      (\<forall>q < wb_created ?w. q \<noteq> p \<longrightarrow> fd_of ?w q \<noteq> fd)"
    if step: "web_step J s s'" and fd: "fd \<in> set (wb_open ?w)" "fd \<notin> set (wb_open (sy_web s'))" for s' fd
    using step
  proof cases
    case (web_run as t bs A w' t' new)
    have t: "thread_ok ?w t" using inv web_run(2) by (simp add: sys_inv_def)
    have "wb_open w' \<noteq> wb_open ?w" "\<not> (\<exists>f. w' = accept_one ?w f)" using fd web_run(1) by (auto simp: web_defs)
    then obtain p where p: "t = CloseFd p" "fd_of ?w p \<noteq> -1" "wb_open w' = remove1 (fd_of ?w p) (wb_open ?w)"
      using exec_open [OF web_run(4)] by blast
    have "fd \<notin> set (remove1 (fd_of ?w p) (wb_open ?w))" using fd(2) p(3) web_run(1) by simp
    then have f: "fd_of ?w p = fd" using fd(1) by (metis in_set_remove1)
    have q: "p < wb_created ?w" "gone ?w p" "\<And>g. getConn ?w g \<noteq> Some p" using t p(1) by (auto simp: thread_ok_def getConn_def)
    have "getConn ?w fd = None"
    proof (cases "getConn ?w fd")
      case (Some r)
      then have "r = p" using alone [of p r] tab [OF Some] q(1) p(2) f by simp
      then show ?thesis using q(3) Some by blast
    qed
    then show ?thesis using f q(1,2) alone p(2) by blast
  qed (use fd in simp_all)
  show ?thesis using tab alone closes by blast
qed

text \<open>A connection that is marked as closed while its descriptor is open keeps it.\<close>

definition leaked :: "system \<Rightarrow> nat \<Rightarrow> bool" where
  "leaked s p \<longleftrightarrow> p < wb_created (sy_web s) \<and> gone (sy_web s) p \<and> fd_of (sy_web s) p \<noteq> -1 \<and> CloseFd p \<notin> set (sy_threads s)"

lemma leaked_run:
  assumes "leaked s p" "sy_threads s = as @ t # bs" "exec A t (sy_web s) = Some (w', t', new)"
  shows "leaked (s\<lparr>sy_web := w', sy_threads := as @ t' # bs @ new\<rparr>) p \<and> fd_of w' p = fd_of (sy_web s) p"
proof -
  have p: "p < wb_created (sy_web s)" "gone (sy_web s) p" "t \<noteq> CloseFd p" using assms(1,2) by (auto simp: leaked_def)
  have "CloseFd p \<notin> set new" using assms(3)
    by (cases t) (auto simp: web_defs split: option.split_asm if_split_asm prod.split_asm)
  moreover have "t' \<noteq> CloseFd p" using exec_closing(3) [OF assms(3)] p(2) by blast
  ultimately show ?thesis
    using exec_fd [OF assms(3) p(1)] exec_gone [OF assms(3) p(1,2)] exec_frame [OF assms(3)] assms(1,2) p(3)
    by (auto simp: leaked_def)
qed

lemma leaked_step:
  assumes "leaked s p" "web_step J s s'"
  shows "leaked s' p \<and> fd_of (sy_web s') p = fd_of (sy_web s) p"
  using assms(2)
proof cases
  case (web_run as t bs A w' t' new)
  show ?thesis using leaked_run [OF assms(1) web_run(2,4)] web_run(1) by simp
qed (use assms(1) in \<open>auto simp: leaked_def gone_def tcp_of_def dispatch_event_def split: option.split_asm\<close>)

lemma leaked_star: "(web_step J)\<^sup>*\<^sup>* s s' \<Longrightarrow> leaked s p \<Longrightarrow> leaked s' p \<and> fd_of (sy_web s') p = fd_of (sy_web s) p"
  by (induction rule: rtranclp.induct) (auto dest: leaked_step)

text \<open>C19: a connection that fails is never closed. When a read of the Proactor mode has failed (the client has
  closed, for instance), or a write, the connection is marked CLOSED before \<open>closeConncl\<close> runs;
  \<open>closeConn\<close> then takes it for closed already and returns. In no continuation of the program is the
  descriptor closed: each such client costs one descriptor for good.\<close>

theorem failed_connections_leak:
  assumes "reachable (web_start actor_model timeout_ms sv) (web_step J) s" "sy_threads s = as @ t # bs"
    and "t = ReadFailed p fd \<and> st (sy_web s) p = READING \<or> t = WriteFailed p fd \<and> st (sy_web s) p = WRITING"
    and "exec A t (sy_web s) = Some (w', t', new)"
    and "(web_step J)\<^sup>*\<^sup>* (s\<lparr>sy_web := w', sy_threads := as @ t' # bs @ new\<rparr>) s2"
  shows "fd_of (sy_web s2) p = fd_of (sy_web s) p \<and> fd_of (sy_web s) p \<in> set (wb_open (sy_web s2))"
proof -
  let ?w = "sy_web s" let ?s1 = "s\<lparr>sy_web := w', sy_threads := as @ t' # bs @ new\<rparr>"
  have inv: "sys_inv s" by (rule web.inv_reachable [OF assms(1)])
  have t: "thread_ok ?w t" and others: "\<And>u. u \<in> set (sy_threads s) \<Longrightarrow> thread_ok ?w u"
    using inv assms(2) by (auto simp: sys_inv_def list_all_iff)
  have "mentions t = Some p" using assms(3) by auto
  then have p: "p < wb_created ?w" using t by (simp add: thread_ok_def)
  have live: "\<not> gone ?w p" using assms(3) by (auto simp: gone_def)
  then have fd: "fd_of ?w p \<noteq> -1" using inv p unfolding sys_inv_def web_ok_def by blast
  have w': "wb_created w' = wb_created ?w \<and> gone w' p \<and> fd_of w' p = fd_of ?w p \<and> t' = CloseConn fd \<and> new = []"
    using assms(3,4) by (auto simp: web_defs gone_def)
  have "CloseFd p \<notin> set (sy_threads s)" using others live by (auto simp: thread_ok_def)
  then have "leaked ?s1 p" using w' p fd assms(2) by (simp add: leaked_def)
  from leaked_star [OF assms(5) this] have l: "leaked s2 p" "fd_of (sy_web s2) p = fd_of ?w p" using w' by auto
  have "sys_inv s2" using web.inv_star [OF assms(5)] sys_inv_run [OF inv assms(2,4)] by blast
  then have "web_ok (sy_web s2)" by (simp add: sys_inv_def)
  then have "\<forall>p < wb_created (sy_web s2). fd_of (sy_web s2) p \<noteq> -1 \<longrightarrow> fd_of (sy_web s2) p \<in> set (wb_open (sy_web s2))"
    unfolding web_ok_def by (elim conjE)
  then show ?thesis using l by (auto simp: leaked_def)
qed

subsection \<open>A client of the Proactor mode that closes\<close>

text \<open>The run accepts descriptor 7, hands the connection to a task and lets its read find the end of the stream.\<close>

definition demo_answers :: "rx list \<Rightarrow> int option \<Rightarrow> json_value answers" where
  "demo_answers rx fd = \<lparr>an_rx = rx, an_tx = [], an_now = 0, an_env = demo_environment, an_accept = fd, an_locked = True\<rparr>"

definition demo_accepted :: "json_value choice list" where
  "demo_accepted = [Wait [Accept] 0, Next 0, Run 0 (demo_answers [] (Some 7)), Run 0 (demo_answers [] None),
     Run 0 (demo_answers [] None), Next 0, Next 0]"

definition demo_connection :: "conn_state \<Rightarrow> bool \<Rightarrow> conn_object" where
  "demo_connection state eof = \<lparr>co_tcp = \<lparr>tc_fd = 7, tc_conn_id = 1, tc_received = [], tc_capacity = 4096, tc_response = None,
     tc_peer_closed_write = eof, tc_state = state\<rparr>, co_http = new_http_conn\<rparr>"

definition demo_node :: timer_node where
  "demo_node = \<lparr>tn_fd = 7, tn_id = 1, tn_expire = 60000000000, tn_deleted = False\<rparr>"

definition demo_web :: "server \<Rightarrow> conn_state \<Rightarrow> bool \<Rightarrow> (int, nat) umap \<Rightarrow> (int, interest) umap \<Rightarrow> web" where
  "demo_web sv state eof conns ep = (WebServer_new 1 60000 sv)\<lparr>wb_next_conn_id := 2, wb_created := 1,
     wb_object := (wb_object (WebServer_new 1 60000 sv))(0 := demo_connection state eof), wb_conns := conns, wb_epoll := ep,
     wb_timer := \<lparr>tm_heap = [demo_node], tm_idMap = [(7, 1)], tm_idGen = 1\<rparr>, wb_open := [7]\<rparr>"

lemmas sched_defs = batch_def may_happen_def disarm_def heap_top_def heap_pop_def scan_best_def valid_node_def
  next_expired.simps getNextTimeout.simps timer_add_def MS_def demo_answers_def

lemma demo_accept_run: "sched demo_accepted \<lparr>sy_web = WebServer_new 1 60000 sv, sy_threads = [Idle], sy_todo = []\<rparr> =
   Some \<lparr>sy_web = demo_web sv IDLE False [(7, 0)] [(7, ArmIn)], sy_threads = [Idle], sy_todo = []\<rparr>"
  by (simp add: demo_accepted_def sched_defs WebServer_new_def web_defs TimerManager_new_def TcpConn_new_def
     demo_web_def demo_connection_def demo_node_def INITIAL_READ_BUFFER_SIZE_def)

text \<open>The client has closed: the event, the claim of the connection, the read that fails.\<close>

definition demo_event :: epoll_event where
  "demo_event = \<lparr>ev_fd = 7, ev_err = False, ev_in = True, ev_out = False, ev_hup = False\<rparr>"

definition demo_failing :: "json_value choice list" where
  "demo_failing = [Wait [Event demo_event] 0, Next 0, Run 0 (demo_answers [] None), Run 0 (demo_answers [] None),
     Run 1 (demo_answers [] None), Run 1 (demo_answers [Data []] None)]"

lemma demo_fail_run: "sched demo_failing \<lparr>sy_web = demo_web sv IDLE False [(7, 0)] [(7, ArmIn)], sy_threads = [Idle], sy_todo = []\<rparr> =
   Some \<lparr>sy_web = demo_web sv READING True [(7, 0)] [(7, Disarmed)], sy_threads = [Idle, ReadFailed 0 7], sy_todo = [Expired]\<rparr>"
  by (simp add: demo_failing_def demo_event_def sched_defs WebServer_new_def web_defs getConn_def dispatch_event_def
     demo_web_def demo_connection_def demo_node_def tcp_read_def read_fuel_def grow_def)

definition demo_closing :: "json_value choice list" where
  "demo_closing = [Run 1 (demo_answers [] None), Run 1 (demo_answers [] None)]"

lemma demo_close_run: "sched demo_closing \<lparr>sy_web = demo_web sv CLOSED True [(7, 0)] [(7, Disarmed)],
     sy_threads = [Idle, CloseConn 7], sy_todo = [Expired]\<rparr> =
   Some \<lparr>sy_web = demo_web sv CLOSING True [] [], sy_threads = [Idle, Idle], sy_todo = [Expired]\<rparr>"
  by (simp add: demo_closing_def demo_event_def sched_defs WebServer_new_def web_defs getConn_def
     demo_web_def demo_connection_def demo_node_def)

lemma sched_append: "sched (xs @ ys) s = (case sched xs s of None \<Rightarrow> None | Some s' \<Rightarrow> sched ys s')"
  by (induction xs arbitrary: s) (simp_all split: option.split)

lemma demo_failed_reached:
  "reachable (web_start 1 60000 sv) (web_step (en_json demo_environment))
     \<lparr>sy_web = demo_web sv READING True [(7, 0)] [(7, Disarmed)], sy_threads = [Idle, ReadFailed 0 7], sy_todo = [Expired]\<rparr>"
proof (rule reach_star [OF reach_init])
  show "web_start 1 60000 sv \<lparr>sy_web = WebServer_new 1 60000 sv, sy_threads = [Idle], sy_todo = []\<rparr>"
    by (simp add: web_start_def)
  have j: "list_all (uses_json (en_json demo_environment)) (demo_accepted @ demo_failing)"
    by (simp add: uses_json_def demo_accepted_def demo_failing_def demo_answers_def)
  show "(web_step (en_json demo_environment))\<^sup>*\<^sup>* \<lparr>sy_web = WebServer_new 1 60000 sv, sy_threads = [Idle], sy_todo = []\<rparr>
      \<lparr>sy_web = demo_web sv READING True [(7, 0)] [(7, Disarmed)], sy_threads = [Idle, ReadFailed 0 7], sy_todo = [Expired]\<rparr>"
    by (rule sched_sound [OF _ j]) (simp add: sched_append demo_accept_run demo_fail_run)
qed

lemma one_task_per_connection_witness:
  "\<forall>sv. \<exists>s :: system. sy_threads s = [Idle, ReadFailed 0 7] \<and> length (filter (\<lambda>t. owner t = Some 0) (sy_threads s)) \<le> 1 \<and>
     st (sy_web s) 0 \<noteq> IDLE"
proof
  fix sv
  let ?s = "\<lparr>sy_web = demo_web sv READING True [(7, 0)] [(7, Disarmed)], sy_threads = [Idle, ReadFailed 0 7], sy_todo = [Expired]\<rparr>"
  have "ReadFailed 0 7 \<in> set (sy_threads ?s)" "owner (ReadFailed 0 7) = Some 0" "sy_threads ?s = [Idle, ReadFailed 0 7]" by simp_all
  then show "\<exists>s :: system. sy_threads s = [Idle, ReadFailed 0 7] \<and> length (filter (\<lambda>t. owner t = Some 0) (sy_threads s)) \<le> 1 \<and>
     st (sy_web s) 0 \<noteq> IDLE"
    using one_task_per_connection [OF demo_failed_reached [of sv], of 0] by blast
qed

lemma descriptors_are_owned_witness:
  "\<forall>sv. \<exists>w. getConn w 7 = Some 0 \<and> fd_of w 0 = 7 \<and> 7 \<in> set (wb_open w)"
proof
  fix sv
  have "getConn (demo_web sv READING True [(7, 0)] [(7, Disarmed)]) 7 = Some 0" by (simp add: getConn_def demo_web_def)
  then show "\<exists>w. getConn w 7 = Some 0 \<and> fd_of w 0 = 7 \<and> 7 \<in> set (wb_open w)"
    using descriptors_are_owned [OF demo_failed_reached [of sv]] by auto
qed

lemma failed_connections_leak_witness:
  "\<forall>sv. \<exists>s :: system. sy_threads s = [Idle, Idle] \<and> wb_conns (sy_web s) = [] \<and> wb_epoll (sy_web s) = [] \<and> fd_of (sy_web s) 0 = 7 \<and>
     7 \<in> set (wb_open (sy_web s))"
proof
  fix sv
  let ?s = "\<lparr>sy_web = demo_web sv READING True [(7, 0)] [(7, Disarmed)], sy_threads = [Idle, ReadFailed 0 7], sy_todo = [Expired]\<rparr>"
  let ?s2 = "\<lparr>sy_web = demo_web sv CLOSING True [] [], sy_threads = [Idle, Idle], sy_todo = [Expired]\<rparr>"
  let ?w = "demo_web sv CLOSED True [(7, 0)] [(7, Disarmed)]"
  have w': "exec (demo_answers [] None) (ReadFailed 0 7) (sy_web ?s) = Some (?w, CloseConn 7, [])"
    by (simp add: web_defs demo_web_def demo_connection_def WebServer_new_def)
  have "sched demo_closing (?s\<lparr>sy_web := ?w, sy_threads := [Idle] @ CloseConn 7 # [] @ []\<rparr>) = Some ?s2"
    using demo_close_run [of sv] by simp
  then have run: "(web_step (en_json demo_environment))\<^sup>*\<^sup>* (?s\<lparr>sy_web := ?w, sy_threads := [Idle] @ CloseConn 7 # [] @ []\<rparr>) ?s2"
    by (rule sched_sound) (simp add: uses_json_def demo_closing_def demo_answers_def)
  have fd: "fd_of (sy_web ?s) 0 = 7" and st: "st (sy_web ?s) 0 = READING"
    by (simp_all add: tcp_of_def demo_web_def demo_connection_def)
  have two: "sy_threads ?s2 = [Idle, Idle]" "wb_conns (sy_web ?s2) = []" "wb_epoll (sy_web ?s2) = []" by (simp_all add: demo_web_def)
  have "sy_threads ?s = [Idle] @ ReadFailed 0 7 # []" by simp
  from failed_connections_leak [OF demo_failed_reached this _ w' run, of 0 7] fd st
  have "fd_of (sy_web ?s2) 0 = 7" "7 \<in> set (wb_open (sy_web ?s2))" by simp_all
  then show "\<exists>s :: system. sy_threads s = [Idle, Idle] \<and> wb_conns (sy_web s) = [] \<and> wb_epoll (sy_web s) = [] \<and> fd_of (sy_web s) 0 = 7 \<and>
     7 \<in> set (wb_open (sy_web s))"
    using two by blast
qed

end
