(* ===== verification/Ledger.thy ===== *)
theory Ledger
  imports Prelude "HOL-Library.Multiset"
begin

text \<open>
  The interface of a pool that hands out numbered resources: \<open>places\<close> are all resources with the place they
  are in, \<open>created\<close> how many there have been. A component whose steps only move, add and close resources keeps
  each of them in exactly one place.
\<close>

locale ledger =
  fixes init :: "'s \<Rightarrow> bool" and step :: "'s \<Rightarrow> 's \<Rightarrow> bool"
    and places :: "'s \<Rightarrow> nat list" and created :: "'s \<Rightarrow> nat"
  assumes ledger_init: "init s \<Longrightarrow> mset (places s) = mset [0..<created s]"
    and ledger_step: "step s t \<Longrightarrow> mset (places t) + mset [0..<created s] = mset (places s) + mset [0..<created t]"
begin

lemma ledger_reachable: "reachable init step s \<Longrightarrow> mset (places s) = mset [0..<created s]"
proof (induction rule: reachable.induct)
  case (reach_step s t)
  then have "mset (places t) + mset [0..<created s] = mset [0..<created t] + mset [0..<created s]"
    using ledger_step [OF reach_step.hyps(2)] by (simp add: add.commute)
  then show ?case by (simp only: add_right_cancel)
qed (rule ledger_init)

lemma in_one_place:
  assumes "reachable init step s"
  shows "distinct (places s) \<and> set (places s) = {0..<created s}"
proof -
  note m = ledger_reachable [OF assms]
  have "distinct (places s)" using mset_eq_imp_distinct_iff [OF m] by simp
  moreover have "set (places s) = {0..<created s}" using mset_eq_setD [OF m] by simp
  ultimately show ?thesis by blast
qed

end

end
