(* ===== verification/DbPool.thy ===== *)
theory DbPool
  imports Ledger
begin

text \<open>
  \<open>DBConnectionPool.cpp\<close>: the pool of MySQL connections. A connection is the number of its creation; the model
  also records which ones have been handed to \<open>mysql_close\<close>. Every section under the mutex is one step;
  \<open>releaseConnection\<close> and \<open>init\<close> take it twice and connect in between, without it, so what they have opened
  and not yet added is part of the state of the system. The answers of the MySQL client are arguments.
\<close>

datatype connect_answer = NoMemory | Refused | Connected

record db_pool =
  bp_host :: string
  bp_user :: string
  bp_password :: string
  bp_dbname :: string
  bp_port :: int
  bp_maxConn :: int
  bp_curConn :: int
  bp_queue :: "nat list"
  bp_initialized :: bool
  bp_created :: nat
  bp_closed :: "nat list"

definition DBConnectionPool_new :: db_pool where
  "DBConnectionPool_new = \<lparr>bp_host = [], bp_user = [], bp_password = [], bp_dbname = [], bp_port = 0, bp_maxConn = 0,
     bp_curConn = 0, bp_queue = [], bp_initialized = False, bp_created = 0, bp_closed = []\<rparr>"

definition mysql_close :: "nat \<Rightarrow> db_pool \<Rightarrow> db_pool" where
  "mysql_close c P = P\<lparr>bp_closed := c # bp_closed P\<rparr>"

definition createConnection :: "connect_answer \<Rightarrow> db_pool \<Rightarrow> nat option \<times> db_pool" where
  "createConnection a P = (case a of NoMemory \<Rightarrow> (None, P)
     | Refused \<Rightarrow> (None, mysql_close (bp_created P) (P\<lparr>bp_created := bp_created P + 1\<rparr>))
     | Connected \<Rightarrow> (Some (bp_created P), P\<lparr>bp_created := bp_created P + 1\<rparr>))"

definition destroyPool :: "db_pool \<Rightarrow> db_pool" where
  "destroyPool P = (fold mysql_close (bp_queue P) (P\<lparr>bp_initialized := False\<rparr>))\<lparr>bp_queue := [], bp_curConn := 0\<rparr>"

text \<open>The connection loop of \<open>init\<close>: the connections so far, or none when one fails.\<close>

fun connect_loop :: "nat \<Rightarrow> (nat \<Rightarrow> connect_answer) \<Rightarrow> nat list \<Rightarrow> db_pool \<Rightarrow> nat list option \<times> db_pool" where
  "connect_loop 0 answer connected P = (Some connected, P)"
| "connect_loop (Suc n) answer connected P = (case createConnection (answer n) P of
     (None, P1) \<Rightarrow> (None, fold mysql_close connected P1)
   | (Some c, P1) \<Rightarrow> connect_loop n answer (connected @ [c]) P1)"

text \<open>\<open>init\<close> up to the end of \<open>destroyPool\<close> and the assignments (the result: whether it goes on), and its last
  section; \<open>pool_init\<close> is the call when no other thread comes in between.\<close>

definition init_begin :: "string \<Rightarrow> string \<Rightarrow> string \<Rightarrow> string \<Rightarrow> int \<Rightarrow> int \<Rightarrow> db_pool \<Rightarrow> bool \<times> db_pool" where
  "init_begin new_host new_user new_password new_dbname new_port max_conn P =
     (if new_host = [] \<or> new_user = [] \<or> new_dbname = [] \<or> new_port \<le> 0 \<or> new_port > 65535 \<or> max_conn \<le> 0 then (False, P)
      else (True, (destroyPool P)\<lparr>bp_host := new_host, bp_user := new_user, bp_password := new_password,
                  bp_dbname := new_dbname, bp_port := new_port, bp_maxConn := max_conn\<rparr>))"

definition init_finish :: "nat list \<Rightarrow> db_pool \<Rightarrow> db_pool" where
  "init_finish connected P = P\<lparr>bp_queue := bp_queue P @ connected, bp_curConn := int (length connected),
     bp_initialized := True\<rparr>"

definition pool_init :: "string \<Rightarrow> string \<Rightarrow> string \<Rightarrow> string \<Rightarrow> int \<Rightarrow> int \<Rightarrow> (nat \<Rightarrow> connect_answer) \<Rightarrow> db_pool \<Rightarrow> bool \<times> db_pool" where
  "pool_init new_host new_user new_password new_dbname new_port max_conn answer P =
     (case init_begin new_host new_user new_password new_dbname new_port max_conn P of
        (False, P1) \<Rightarrow> (False, P1)
      | (True, P1) \<Rightarrow> (case connect_loop (nat max_conn) answer [] P1 of
             (None, P2) \<Rightarrow> (False, P2)
           | (Some connected, P2) \<Rightarrow> (True, init_finish connected P2)))"

text \<open>\<open>None\<close>: the caller waits. \<open>Some None\<close>: the null pointer.\<close>

definition getConnection :: "db_pool \<Rightarrow> (nat option \<times> db_pool) option" where
  "getConnection P = (if bp_queue P = [] \<and> bp_initialized P then None
     else if \<not> bp_initialized P \<or> bp_queue P = [] then Some (None, P)
     else Some (Some (hd (bp_queue P)), P\<lparr>bp_queue := tl (bp_queue P)\<rparr>))"

text \<open>\<open>releaseConnection\<close> up to the first unlock (the result: whether a replacement is wanted), and from the new
  connection on.\<close>

definition release_first :: "nat \<Rightarrow> bool \<Rightarrow> db_pool \<Rightarrow> bool \<times> db_pool" where
  "release_first c healthy P =
     (let fewer = (\<lambda>P. if bp_curConn P > 0 then P\<lparr>bp_curConn := bp_curConn P - 1\<rparr> else P) in
      if \<not> bp_initialized P then (False, fewer (mysql_close c P))
      else if healthy then (False, P\<lparr>bp_queue := bp_queue P @ [c]\<rparr>)
      else (True, fewer (mysql_close c P)))"

definition release_replace :: "nat option \<Rightarrow> db_pool \<Rightarrow> db_pool" where
  "release_replace replacement P = (case replacement of None \<Rightarrow> P
     | Some c \<Rightarrow> if bp_initialized P then P\<lparr>bp_queue := bp_queue P @ [c], bp_curConn := bp_curConn P + 1\<rparr>
         else mysql_close c P)"

definition isInitialized :: "db_pool \<Rightarrow> bool" where
  "isInitialized P = bp_initialized P"

text \<open>
  The pool among its users: the connections that are lent out (\<open>DBConnectionPoolRAII\<close> returns each exactly
  once), the threads that are about to connect a replacement, the replacements that are not in the pool yet,
  and the running calls of \<open>init\<close> with the number of connections to open and those opened so far.
\<close>

record pool_system =
  ps_pool :: db_pool
  ps_borrowed :: "nat list"
  ps_replacing :: nat
  ps_fresh :: "nat option list"
  ps_opening :: "(nat \<times> nat list) list"

inductive pool_step :: "pool_system \<Rightarrow> pool_system \<Rightarrow> bool" where
  ps_init: "init_begin h u w d port n (ps_pool s) = (going_on, P) \<Longrightarrow>
    pool_step s (s\<lparr>ps_pool := P, ps_opening := (if going_on then [(nat n, [])] else []) @ ps_opening s\<rparr>)"
| ps_open: "ps_opening s = as @ (Suc n, cs) # bs \<Longrightarrow> createConnection a (ps_pool s) = (Some c, P) \<Longrightarrow>
    pool_step s (s\<lparr>ps_pool := P, ps_opening := as @ (n, cs @ [c]) # bs\<rparr>)"
| ps_give_up: "ps_opening s = as @ (Suc n, cs) # bs \<Longrightarrow> createConnection a (ps_pool s) = (None, P) \<Longrightarrow>
    pool_step s (s\<lparr>ps_pool := fold mysql_close cs P, ps_opening := as @ bs\<rparr>)"
| ps_ready: "ps_opening s = as @ (0, cs) # bs \<Longrightarrow>
    pool_step s (s\<lparr>ps_pool := init_finish cs (ps_pool s), ps_opening := as @ bs\<rparr>)"
| ps_get: "getConnection (ps_pool s) = Some (c, P) \<Longrightarrow>
    pool_step s (s\<lparr>ps_pool := P, ps_borrowed := (case c of None \<Rightarrow> ps_borrowed s | Some c \<Rightarrow> c # ps_borrowed s)\<rparr>)"
| ps_release: "ps_borrowed s = as @ c # bs \<Longrightarrow> release_first c healthy (ps_pool s) = (wanted, P) \<Longrightarrow>
    pool_step s (s\<lparr>ps_pool := P, ps_borrowed := as @ bs, ps_replacing := ps_replacing s + (if wanted then 1 else 0)\<rparr>)"
| ps_connect: "ps_replacing s = Suc n \<Longrightarrow> createConnection a (ps_pool s) = (c, P) \<Longrightarrow>
    pool_step s (s\<lparr>ps_pool := P, ps_replacing := n, ps_fresh := c # ps_fresh s\<rparr>)"
| ps_replace: "ps_fresh s = as @ c # bs \<Longrightarrow>
    pool_step s (s\<lparr>ps_pool := release_replace c (ps_pool s), ps_fresh := as @ bs\<rparr>)"
| ps_destroy: "pool_step s (s\<lparr>ps_pool := destroyPool (ps_pool s)\<rparr>)"

definition pool_start :: "pool_system \<Rightarrow> bool" where
  "pool_start s \<longleftrightarrow> s = \<lparr>ps_pool = DBConnectionPool_new, ps_borrowed = [], ps_replacing = 0, ps_fresh = [],
     ps_opening = []\<rparr>"

definition fresh_connections :: "pool_system \<Rightarrow> nat list" where
  "fresh_connections s = List.map_filter id (ps_fresh s)"

definition opened_connections :: "pool_system \<Rightarrow> nat list" where
  "opened_connections s = concat (map snd (ps_opening s))"

definition pool_places :: "pool_system \<Rightarrow> nat list" where
  "pool_places s = bp_queue (ps_pool s) @ ps_borrowed s @ fresh_connections s @ opened_connections s @
     bp_closed (ps_pool s)"

lemma fold_close [simp]: "bp_closed (fold mysql_close cs P) = rev cs @ bp_closed P" "bp_created (fold mysql_close cs P) = bp_created P"
  "bp_queue (fold mysql_close cs P) = bp_queue P" "bp_curConn (fold mysql_close cs P) = bp_curConn P"
  "bp_initialized (fold mysql_close cs P) = bp_initialized P" "bp_maxConn (fold mysql_close cs P) = bp_maxConn P"
  by (induction cs arbitrary: P) (simp_all add: mysql_close_def)

definition pool_mset :: "db_pool \<Rightarrow> nat multiset" where
  "pool_mset P = mset (bp_queue P) + mset (bp_closed P)"

definition born :: "db_pool \<Rightarrow> nat multiset" where
  "born P = mset [0..<bp_created P]"

definition held :: "nat option \<Rightarrow> nat multiset" where
  "held c = (case c of None \<Rightarrow> {#} | Some c \<Rightarrow> {#c#})"

lemma born_keep [simp]: "born (fold mysql_close cs P) = born P" "born (P\<lparr>bp_queue := q\<rparr>) = born P"
  "born (P\<lparr>bp_curConn := k\<rparr>) = born P" "born (P\<lparr>bp_initialized := b\<rparr>) = born P" "born (mysql_close c P) = born P"
  "born (destroyPool P) = born P"
  by (simp_all add: born_def destroyPool_def mysql_close_def)

lemma destroy_mset: "pool_mset (destroyPool P) = pool_mset P" "bp_created (destroyPool P) = bp_created P"
    "bp_queue (destroyPool P) = []"
  by (simp_all add: destroyPool_def pool_mset_def)

lemma born_next: "bp_created P' = Suc (bp_created P) \<Longrightarrow> born P' = add_mset (bp_created P) (born P)"
  by (simp add: born_def flip: mset_upt)

lemma create_mset: "createConnection a P = (c, P1) \<Longrightarrow>
    pool_mset P1 + born P + held c = pool_mset P + born P1 \<and> bp_queue P1 = bp_queue P"
  by (auto simp: createConnection_def mysql_close_def pool_mset_def held_def born_next [of _ P] split: connect_answer.split_asm)

lemma begin_mset: "init_begin h u w d port n P = (ok, P1) \<Longrightarrow> pool_mset P1 = pool_mset P \<and> born P1 = born P"
  using destroy_mset [of P] by (auto simp: init_begin_def pool_mset_def born_def split: if_split_asm)

text \<open>A call of \<open>init\<close> on its own is a run of these steps.\<close>

lemma opening_runs:
  "connect_loop n answer cs P = (r, P1) \<Longrightarrow> ps_pool s = P \<Longrightarrow> ps_opening s = (n, cs) # rest \<Longrightarrow>
   pool_step\<^sup>*\<^sup>* s (s\<lparr>ps_pool := (case r of None \<Rightarrow> P1 | Some cs \<Rightarrow> init_finish cs P1), ps_opening := rest\<rparr>)"
proof (induction n arbitrary: cs P s)
  case 0
  then show ?case using ps_ready [of s "[]" cs rest] by auto
next
  case (Suc n)
  obtain c P2 where c: "createConnection (answer n) P = (c, P2)" by fastforce
  show ?case
  proof (cases c)
    case None
    then show ?thesis using Suc.prems c ps_give_up [of s "[]" n cs rest "answer n" P2] by auto
  next
    case (Some k)
    let ?s = "s\<lparr>ps_pool := P2, ps_opening := (n, cs @ [k]) # rest\<rparr>"
    have "pool_step s ?s" using Suc.prems c Some ps_open [of s "[]" n cs rest "answer n" k P2] by simp
    moreover have "connect_loop n answer (cs @ [k]) P2 = (r, P1)" using Suc.prems(1) c Some by simp
    from Suc.IH [OF this, of ?s] have "pool_step\<^sup>*\<^sup>* ?s (s\<lparr>ps_pool := (case r of None \<Rightarrow> P1 | Some cs \<Rightarrow> init_finish cs P1),
        ps_opening := rest\<rparr>)" by simp
    ultimately show ?thesis by (rule converse_rtranclp_into_rtranclp)
  qed
qed

lemma pool_init_runs:
  assumes "pool_init h u w d port n answer (ps_pool s) = (ok, P)"
  shows "pool_step\<^sup>*\<^sup>* s (s\<lparr>ps_pool := P\<rparr>)"
proof -
  obtain going_on P1 where b: "init_begin h u w d port n (ps_pool s) = (going_on, P1)" by fastforce
  note st = ps_init [OF b]
  show ?thesis
  proof (cases going_on)
    case False
    then show ?thesis using assms b st by (auto simp: pool_init_def)
  next
    case True
    obtain r P2 where c: "connect_loop (nat n) answer [] P1 = (r, P2)" by fastforce
    let ?s = "s\<lparr>ps_pool := P1, ps_opening := (nat n, []) # ps_opening s\<rparr>"
    have "pool_step s ?s" using st True by simp
    moreover have "pool_step\<^sup>*\<^sup>* ?s (?s\<lparr>ps_pool := (case r of None \<Rightarrow> P2 | Some cs \<Rightarrow> init_finish cs P2),
        ps_opening := ps_opening s\<rparr>)" by (rule opening_runs [OF c]) simp_all
    moreover have "P = (case r of None \<Rightarrow> P2 | Some cs \<Rightarrow> init_finish cs P2)"
      using assms b c True by (auto simp: pool_init_def split: option.splits)
    moreover have "?s\<lparr>ps_pool := P, ps_opening := ps_opening s\<rparr> = s\<lparr>ps_pool := P\<rparr>" by simp
    ultimately show ?thesis by (metis converse_rtranclp_into_rtranclp)
  qed
qed

lemma fresh_simps [simp]: "List.map_filter id [] = []" "List.map_filter id (None # cs) = List.map_filter id cs"
  "List.map_filter id (Some c # cs) = c # List.map_filter id cs"
  "List.map_filter id (xs @ ys) = List.map_filter id xs @ List.map_filter id ys"
  by (simp_all add: List.map_filter_def)

lemma places_mset: "mset (pool_places s) = pool_mset (ps_pool s) + mset (ps_borrowed s) + mset (fresh_connections s) +
    mset (opened_connections s)"
  by (simp add: pool_places_def pool_mset_def ac_simps)

lemma pool_step_moves:
  assumes "pool_step s s'"
  shows "mset (pool_places s') + born (ps_pool s) = mset (pool_places s) + born (ps_pool s')"
  using assms
proof cases
  case (ps_init h u w d port n ok P)
  have "opened_connections s' = opened_connections s" by (simp add: ps_init(1) opened_connections_def)
  then show ?thesis using begin_mset [OF ps_init(2)]
    by (simp add: places_mset ps_init(1) fresh_connections_def ac_simps)
next
  case (ps_open as n cs bs a c P)
  have "mset (opened_connections s') = mset (opened_connections s) + {#c#}"
    by (simp add: ps_open(1,2) opened_connections_def)
  then show ?thesis using create_mset [OF ps_open(3)]
    by (simp add: places_mset ps_open(1) held_def fresh_connections_def ac_simps)
next
  case (ps_give_up as n cs bs a P)
  have "mset (opened_connections s) = mset (opened_connections s') + mset cs"
    by (simp add: ps_give_up(1,2) opened_connections_def)
  moreover have "pool_mset (fold mysql_close cs P) = pool_mset P + mset cs" by (simp add: pool_mset_def ac_simps)
  ultimately show ?thesis using create_mset [OF ps_give_up(3)]
    by (simp add: places_mset ps_give_up(1) held_def fresh_connections_def ac_simps)
next
  case (ps_ready as cs bs)
  then show ?thesis
    by (simp add: places_mset opened_connections_def fresh_connections_def init_finish_def pool_mset_def born_def)
next
  case (ps_get c P)
  then show ?thesis
    by (cases "bp_queue (ps_pool s)")
      (auto simp: places_mset pool_mset_def getConnection_def fresh_connections_def opened_connections_def split: if_split_asm)
next
  case (ps_release as c bs healthy wanted P)
  then show ?thesis
    by (auto simp: places_mset pool_mset_def release_first_def mysql_close_def born_def fresh_connections_def opened_connections_def Let_def
        split: if_split_asm)
next
  case (ps_connect n a c P)
  have "mset (fresh_connections s') = mset (fresh_connections s) + held c"
    by (cases c) (simp_all add: ps_connect(1) fresh_connections_def held_def)
  then show ?thesis using create_mset [OF ps_connect(3)]
    by (simp add: places_mset ps_connect(1) opened_connections_def ac_simps)
next
  case (ps_replace as c bs)
  then show ?thesis
    by (cases c) (auto simp: places_mset pool_mset_def release_replace_def mysql_close_def born_def fresh_connections_def
        opened_connections_def)
next
  case ps_destroy
  then show ?thesis using destroy_mset [of "ps_pool s"] by (simp add: places_mset fresh_connections_def opened_connections_def)
qed

interpretation pool: ledger pool_start pool_step pool_places "\<lambda>s. bp_created (ps_pool s)"
proof
  show "mset (pool_places s) = mset [0..<bp_created (ps_pool s)]" if "pool_start s" for s
    using that by (simp add: pool_start_def pool_places_def DBConnectionPool_new_def fresh_connections_def
        opened_connections_def)
qed (use pool_step_moves in \<open>simp add: born_def\<close>)

text \<open>C15: every connection is in one place. Whatever the threads borrow and return, however often the pool is
  initialised or destroyed meanwhile, and whatever MySQL answers: each connection ever opened is idle in the
  pool, lent to one user, about to be added by a replacement or by an \<open>init\<close> that still connects, or closed,
  and in only one of these. No connection is given to two users, none is used or closed after it was
  closed, and none is lost.\<close>

theorem connections_in_one_place:
  assumes "reachable pool_start pool_step s"
  shows "distinct (bp_queue (ps_pool s) @ ps_borrowed s @ fresh_connections s @ opened_connections s @ bp_closed (ps_pool s)) \<and>
    set (bp_queue (ps_pool s) @ ps_borrowed s @ fresh_connections s @ opened_connections s @ bp_closed (ps_pool s)) =
      {0..<bp_created (ps_pool s)}"
  using pool.in_one_place [OF assms] by (simp add: pool_places_def)

text \<open>A pool whose replacements have failed never recovers. When every connection has been closed because it was
  broken and could not be replaced at that moment, the pool still counts as initialised: every call of
  \<open>getConnection\<close> waits, and the only steps left are a new \<open>init\<close> and the destruction, which the
  program never calls while it serves. MySQL coming back does not help.\<close>

theorem drained_pool_blocks_for_good:
  assumes "bp_initialized (ps_pool s)" and "bp_queue (ps_pool s) = []" and "ps_borrowed s = []"
    and "ps_replacing s = 0" and "ps_fresh s = []" and "ps_opening s = []" and "pool_step s s'"
  shows "getConnection (ps_pool s) = None \<and>
    (ps_pool s' = destroyPool (ps_pool s) \<or> (\<exists>h u w d port n. ps_pool s' = snd (init_begin h u w d port n (ps_pool s))))"
proof
  show g: "getConnection (ps_pool s) = None" using assms(1,2) by (simp add: getConnection_def)
  from assms(7) show "ps_pool s' = destroyPool (ps_pool s) \<or>
      (\<exists>h u w d port n. ps_pool s' = snd (init_begin h u w d port n (ps_pool s)))"
  proof cases
    case (ps_init h u w d port n ok P)
    then have "ps_pool s' = snd (init_begin h u w d port n (ps_pool s))" by simp
    then show ?thesis by blast
  qed (use assms g in simp_all)
qed

text \<open>A pool of one connection: it breaks while it is lent out, and the server refuses the replacement.\<close>

definition demo_ready_pool :: db_pool where
  "demo_ready_pool = DBConnectionPool_new\<lparr>bp_host := ''db'', bp_user := ''u'', bp_dbname := ''d'', bp_port := 3306,
     bp_maxConn := 1, bp_curConn := 1, bp_queue := [0], bp_initialized := True, bp_created := 1\<rparr>"

definition demo_drained_pool :: db_pool where
  "demo_drained_pool = demo_ready_pool\<lparr>bp_queue := [], bp_curConn := 0, bp_created := 2, bp_closed := [1, 0]\<rparr>"

lemma pool_reach_star: "pool_step\<^sup>*\<^sup>* s t \<Longrightarrow> reachable pool_start pool_step s \<Longrightarrow> reachable pool_start pool_step t"
  by (induction rule: rtranclp_induct) (auto intro: reach_step)

lemma demo_drained: "reachable pool_start pool_step \<lparr>ps_pool = demo_drained_pool, ps_borrowed = [], ps_replacing = 0, ps_fresh = [], ps_opening = []\<rparr>"
proof -
  let ?s0 = "\<lparr>ps_pool = DBConnectionPool_new, ps_borrowed = [], ps_replacing = 0, ps_fresh = [], ps_opening = []\<rparr>"
  let ?s1 = "?s0\<lparr>ps_pool := demo_ready_pool\<rparr>"
  let ?s2 = "?s1\<lparr>ps_pool := demo_ready_pool\<lparr>bp_queue := []\<rparr>, ps_borrowed := [0]\<rparr>"
  let ?s3 = "?s1\<lparr>ps_pool := demo_ready_pool\<lparr>bp_queue := [], bp_curConn := 0, bp_closed := [0]\<rparr>, ps_borrowed := [], ps_replacing := 1\<rparr>"
  let ?s4 = "?s1\<lparr>ps_pool := demo_drained_pool, ps_borrowed := [], ps_replacing := 0, ps_fresh := [None]\<rparr>"
  note r = demo_ready_pool_def DBConnectionPool_new_def
  have i: "pool_init ''db'' ''u'' [] ''d'' 3306 1 (\<lambda>_. Connected) DBConnectionPool_new = (True, demo_ready_pool)"
    by (simp add: pool_init_def init_begin_def init_finish_def destroyPool_def createConnection_def r)
  have p1: "pool_step\<^sup>*\<^sup>* ?s0 ?s1" using pool_init_runs [of _ _ _ _ _ _ _ ?s0, OF _] i by fastforce
  have "getConnection demo_ready_pool = Some (Some 0, demo_ready_pool\<lparr>bp_queue := []\<rparr>)"
    by (simp add: getConnection_def r)
  then have p2: "pool_step ?s1 ?s2" using ps_get [of ?s1 "Some 0"] by simp
  have "release_first 0 False (demo_ready_pool\<lparr>bp_queue := []\<rparr>) =
      (True, demo_ready_pool\<lparr>bp_queue := [], bp_curConn := 0, bp_closed := [0]\<rparr>)"
    by (simp add: release_first_def mysql_close_def r)
  then have p3: "pool_step ?s2 ?s3" using ps_release [of ?s2 "[]" 0 "[]" False] by simp
  have "createConnection Refused (demo_ready_pool\<lparr>bp_queue := [], bp_curConn := 0, bp_closed := [0]\<rparr>) = (None, demo_drained_pool)"
    by (simp add: createConnection_def mysql_close_def r demo_drained_pool_def)
  then have p4: "pool_step ?s3 ?s4" using ps_connect [of ?s3 0 Refused None] by simp
  have p5: "pool_step ?s4 (?s4\<lparr>ps_fresh := []\<rparr>)" using ps_replace [of ?s4 "[]" None "[]"] by (simp add: release_replace_def)
  have "reachable pool_start pool_step ?s0" by (rule reach_init) (simp add: pool_start_def)
  from pool_reach_star [OF p1 this] have p0: "reachable pool_start pool_step ?s1" by simp
  show ?thesis using reach_step [OF reach_step [OF reach_step [OF reach_step [OF p0 p2] p3] p4] p5] by simp
qed

lemma connections_in_one_place_witness:
  "\<exists>s. reachable pool_start pool_step s \<and> bp_closed (ps_pool s) = [1, 0] \<and>
     distinct (bp_queue (ps_pool s) @ ps_borrowed s @ fresh_connections s @ opened_connections s @ bp_closed (ps_pool s))"
  using connections_in_one_place [OF demo_drained] demo_drained by (fastforce simp: demo_drained_pool_def)

lemma drained_pool_blocks_for_good_witness:
  "\<exists>s. reachable pool_start pool_step s \<and> bp_initialized (ps_pool s) \<and> getConnection (ps_pool s) = None"
proof -
  let ?s = "\<lparr>ps_pool = demo_drained_pool, ps_borrowed = [], ps_replacing = 0, ps_fresh = [], ps_opening = []\<rparr>"
  have "bp_initialized (ps_pool ?s)" "bp_queue (ps_pool ?s) = []"
    by (simp_all add: demo_drained_pool_def demo_ready_pool_def)
  with drained_pool_blocks_for_good [OF this _ _ _ _ ps_destroy] demo_drained show ?thesis by fastforce
qed

end
