(* ===== verification/Threads.thy ===== *)
theory Threads
  imports Prelude "HOL-Library.Multiset"
begin

text \<open>
  \<open>ThreadPool.cpp\<close>: the queue of tasks, the condition variable and the loop of the workers. A step is one
  section under the mutex, one notification or the execution of a task (a \<open>packaged_task\<close>, which keeps
  an exception in its future). A worker is ready to take the mutex, asleep in \<open>condition.wait\<close>, runs
  a task, or has returned; it wakes by a notification or spuriously. \<open>enqueue\<close> and \<open>shutdown\<close> notify after
  they have released the mutex, so notifications that are due are part of the state. The model also
  records which tasks were accepted, started (in this order) and finished.
\<close>

datatype 't worker = Ready | Asleep | Running 't | Returned

record 't thread_pool =
  tp_workers :: "'t worker list"
  tp_tasks :: "'t list"
  tp_stop :: bool
  tp_notify_one :: nat
  tp_notify_all :: bool
  tp_accepted :: "'t list"
  tp_started :: "'t list"
  tp_finished :: "'t list"

definition ThreadPool_new :: "nat \<Rightarrow> 't thread_pool" where
  "ThreadPool_new threadCount = \<lparr>tp_workers = replicate threadCount Ready, tp_tasks = [], tp_stop = False,
     tp_notify_one = 0, tp_notify_all = False, tp_accepted = [], tp_started = [], tp_finished = []\<rparr>"

text \<open>\<open>Inl\<close>: the exception.\<close>

definition tp_enqueue :: "'t \<Rightarrow> 't thread_pool \<Rightarrow> string + 't thread_pool" where
  "tp_enqueue task P = (if tp_stop P then Inl ''enqueue on stopped ThreadPool''
     else Inr (P\<lparr>tp_tasks := tp_tasks P @ [task], tp_notify_one := tp_notify_one P + 1,
       tp_accepted := tp_accepted P @ [task]\<rparr>))"

text \<open>One turn of a worker under the mutex: it waits, returns or takes the first task.\<close>

definition worker_turn :: "'t thread_pool \<Rightarrow> 't worker \<times> 't thread_pool" where
  "worker_turn P = (if \<not> (tp_stop P \<or> tp_tasks P \<noteq> []) then (Asleep, P)
     else if tp_stop P \<and> tp_tasks P = [] then (Returned, P)
     else (Running (hd (tp_tasks P)),
       P\<lparr>tp_tasks := tl (tp_tasks P), tp_started := tp_started P @ [hd (tp_tasks P)]\<rparr>))"

text \<open>The section of \<open>shutdown\<close> under the mutex. \<open>False\<close>: another call has been here and this one
  returns at once, without joining; \<open>True\<close>: it notifies, joins the workers and then returns.\<close>

definition tp_shutdown :: "'t thread_pool \<Rightarrow> bool \<times> 't thread_pool" where
  "tp_shutdown P = (if tp_stop P then (False, P) else (True, P\<lparr>tp_stop := True, tp_notify_all := True\<rparr>))"

definition wake :: "'t worker \<Rightarrow> 't worker" where
  "wake w = (case w of Asleep \<Rightarrow> Ready | _ \<Rightarrow> w)"

text \<open>The joining call of \<open>shutdown\<close> returns when every worker has returned.\<close>

definition tp_joined :: "'t thread_pool \<Rightarrow> bool" where
  "tp_joined P \<longleftrightarrow> tp_stop P \<and> (\<forall>w \<in> set (tp_workers P). w = Returned)"

text \<open>What the workers do by themselves, with the notifications that are due. \<open>notify_one\<close> wakes one
  sleeping worker, if there is one.\<close>

inductive tp_work :: "'t thread_pool \<Rightarrow> 't thread_pool \<Rightarrow> bool" where
  tpw_turn: "tp_workers P = as @ Ready # bs \<Longrightarrow> worker_turn P = (w, P') \<Longrightarrow>
    tp_work P (P'\<lparr>tp_workers := as @ w # bs\<rparr>)"
| tpw_finish: "tp_workers P = as @ Running task # bs \<Longrightarrow>
    tp_work P (P\<lparr>tp_workers := as @ Ready # bs, tp_finished := tp_finished P @ [task]\<rparr>)"
| tpw_notify: "tp_notify_one P = Suc k \<Longrightarrow> tp_workers P = as @ Asleep # bs \<Longrightarrow>
    tp_work P (P\<lparr>tp_notify_one := k, tp_workers := as @ Ready # bs\<rparr>)"
| tpw_notify_none: "tp_notify_one P = Suc k \<Longrightarrow> Asleep \<notin> set (tp_workers P) \<Longrightarrow>
    tp_work P (P\<lparr>tp_notify_one := k\<rparr>)"
| tpw_notify_all: "tp_notify_all P \<Longrightarrow>
    tp_work P (P\<lparr>tp_notify_all := False, tp_workers := map wake (tp_workers P)\<rparr>)"

inductive tp_step :: "'t thread_pool \<Rightarrow> 't thread_pool \<Rightarrow> bool" where
  tps_work: "tp_work P P' \<Longrightarrow> tp_step P P'"
| tps_enqueue: "tp_enqueue task P = Inr P' \<Longrightarrow> tp_step P P'"
| tps_shutdown: "tp_shutdown P = (joins, P') \<Longrightarrow> tp_step P P'"
| tps_spurious: "tp_workers P = as @ Asleep # bs \<Longrightarrow> tp_step P (P\<lparr>tp_workers := as @ Ready # bs\<rparr>)"

definition tp_start :: "nat \<Rightarrow> 't thread_pool \<Rightarrow> bool" where
  "tp_start n P \<longleftrightarrow> P = ThreadPool_new n"

fun running :: "'t worker \<Rightarrow> 't list" where
  "running (Running task) = [task]"
| "running _ = []"

text \<open>
  The last two conjuncts say that no wake-up is lost: while there are tasks, some worker is awake or a
  notification is due, and after the stop a worker sleeps only while the last notification is due.
\<close>

definition tp_inv :: "nat \<Rightarrow> 't thread_pool \<Rightarrow> bool" where
  "tp_inv n P \<longleftrightarrow> length (tp_workers P) = n \<and> tp_accepted P = tp_started P @ tp_tasks P \<and>
     mset (tp_started P) = mset (tp_finished P) + mset (concat (map running (tp_workers P))) \<and>
     (Returned \<in> set (tp_workers P) \<longrightarrow> tp_stop P \<and> tp_tasks P = []) \<and>
     (tp_tasks P \<noteq> [] \<longrightarrow> tp_notify_one P = 0 \<longrightarrow> n \<noteq> 0 \<longrightarrow> (\<exists>w \<in> set (tp_workers P). w \<noteq> Asleep)) \<and>
     (tp_stop P \<longrightarrow> Asleep \<in> set (tp_workers P) \<longrightarrow> tp_notify_all P)"

lemma wake_simps [simp]: "running (wake w) = running w" "wake w \<noteq> Asleep" "wake w = Returned \<longleftrightarrow> w = Returned"
  by (cases w; simp add: wake_def)+

lemma wake_sym [simp]: "Asleep \<noteq> wake w" "Returned = wake w \<longleftrightarrow> w = Returned"
  by (cases w; simp add: wake_def)+

lemma running_wake [simp]: "map (running \<circ> wake) ws = map running ws"
  by simp

lemma tp_inv_work: "tp_work P P' \<Longrightarrow> tp_inv n P \<Longrightarrow> tp_inv n P'"
proof (induction rule: tp_work.induct)
  case (tpw_turn P as bs w P')
  then show ?case by (auto simp: tp_inv_def worker_turn_def split: if_split_asm)
next
  case (tpw_notify_none P k)
  then show ?case by (cases "tp_workers P") (auto simp: tp_inv_def)
next
  case (tpw_notify_all P)
  have "\<exists>w \<in> set (map wake (tp_workers P)). w \<noteq> Asleep" if "length (tp_workers P) \<noteq> 0"
    using that by (cases "tp_workers P") auto
  then show ?case using tpw_notify_all by (auto simp: tp_inv_def image_iff)
qed (auto simp: tp_inv_def)

interpretation tp: inductive_invariant "tp_start n" tp_step "tp_inv n"
proof
  show "tp_inv n P" if "tp_start n P" for P
    using that by (auto simp: tp_start_def tp_inv_def ThreadPool_new_def)
  fix P P' assume "tp_inv n P" "tp_step P P'"
  from this(2,1) show "tp_inv n P'"
    by cases (auto simp: tp_inv_work, auto simp: tp_inv_def tp_enqueue_def tp_shutdown_def split: if_split_asm)
qed

text \<open>Every step of the workers uses up something: a bound for any run of them.\<close>

fun worker_work :: "'t worker \<Rightarrow> nat" where
  "worker_work (Running task) = 2"
| "worker_work Ready = 1"
| "worker_work _ = 0"

definition tp_measure :: "'t thread_pool \<Rightarrow> nat" where
  "tp_measure P = sum_list (map worker_work (tp_workers P)) + 2 * length (tp_tasks P) + 2 * tp_notify_one P +
     (if tp_notify_all P then length (tp_workers P) + 1 else 0)"

lemma wake_work: "sum_list (map (worker_work \<circ> wake) ws) \<le> sum_list (map worker_work ws) + length ws"
proof (induction ws)
  case (Cons w ws)
  then show ?case by (cases w) (simp_all add: wake_def)
qed simp

lemma tp_work_decreases: "tp_work P P' \<Longrightarrow> tp_measure P' < tp_measure P"
proof (induction rule: tp_work.induct)
  case (tpw_turn P as bs w P')
  then show ?case by (cases "tp_tasks P") (auto simp: tp_measure_def worker_turn_def split: if_split_asm)
next
  case (tpw_notify_all P)
  then show ?case using wake_work [of "tp_workers P"] by (simp add: tp_measure_def)
qed (simp_all add: tp_measure_def)

lemma tp_work_frame: "tp_work P P' \<Longrightarrow> tp_accepted P' = tp_accepted P \<and> tp_stop P' = tp_stop P"
  by (induction rule: tp_work.induct) (auto simp: worker_turn_def split: if_split_asm)

lemma tp_work_bounded: "(tp_work ^^ k) P P' \<Longrightarrow> k + tp_measure P' \<le> tp_measure P"
  by (induction k arbitrary: P') (auto dest!: tp_work_decreases, fastforce)

text \<open>When the workers can do nothing more, everything is done.\<close>

lemma tp_stuck:
  assumes inv: "tp_inv n P" and "0 < n" and stuck: "\<not> (\<exists>P'. tp_work P P')"
  shows "mset (tp_finished P) = mset (tp_accepted P) \<and> (tp_stop P \<longrightarrow> tp_joined P)"
proof -
  have no_all: "\<not> tp_notify_all P" using stuck tpw_notify_all by blast
  have no_one: "tp_notify_one P = 0"
  proof (cases "tp_notify_one P")
    case (Suc k)
    then show ?thesis using stuck tpw_notify tpw_notify_none by (metis in_set_conv_decomp)
  qed
  have idle: "w = Asleep \<or> w = Returned" if w: "w \<in> set (tp_workers P)" for w
  proof (cases w)
    case Ready
    then show ?thesis using stuck tpw_turn w by (metis in_set_conv_decomp prod.exhaust)
  next
    case (Running task)
    then show ?thesis using stuck tpw_finish w by (metis in_set_conv_decomp)
  qed auto
  have "tp_tasks P = []"
    using inv idle no_one \<open>0 < n\<close> by (auto simp: tp_inv_def)
  moreover have "concat (map running (tp_workers P)) = []" using idle by fastforce
  ultimately show ?thesis using inv idle no_all by (auto simp: tp_inv_def tp_joined_def)
qed

text \<open>C40: with at least one worker every accepted task runs exactly once. Tasks are started in the order in
  which they were accepted; a task that has been started is running or finished, never run twice; and
  when \<open>shutdown\<close> has joined its workers every task that was accepted has been finished, while a later
  \<open>enqueue\<close> throws. Progress: no wake-up is lost. From any reachable state every run of the workers
  and of the notifications that are due ends after a bounded number of steps, and it can only end
  with every accepted task finished and, after \<open>shutdown\<close>, with every worker joined. (A pool with
  \<open>thread_num\<close> 0 runs nothing; a second call of \<open>shutdown\<close> does not wait for the join.)\<close>

theorem every_task_runs_once:
  assumes "reachable (tp_start n) tp_step P" and "0 < n"
  shows "tp_accepted P = tp_started P @ tp_tasks P \<and>
    mset (tp_started P) = mset (tp_finished P) + mset (concat (map running (tp_workers P))) \<and>
    (tp_joined P \<longrightarrow> mset (tp_finished P) = mset (tp_accepted P) \<and> (\<forall>task. \<exists>e. tp_enqueue task P = Inl e)) \<and>
    (\<exists>bound. \<forall>k P'. (tp_work ^^ k) P P' \<longrightarrow> k \<le> bound \<and>
       ((\<exists>P''. tp_work P' P'') \<or>
        mset (tp_finished P') = mset (tp_accepted P') \<and> tp_accepted P' = tp_accepted P \<and>
        (tp_stop P \<longrightarrow> tp_joined P')))"
proof -
  have inv: "tp_inv n P" by (rule tp.inv_reachable [OF assms(1)])
  have "mset (tp_finished P) = mset (tp_accepted P) \<and> (\<forall>task. \<exists>e. tp_enqueue task P = Inl e)" if j: "tp_joined P"
  proof -
    have "Returned \<in> set (tp_workers P)" using j inv \<open>0 < n\<close>
      by (cases "tp_workers P") (auto simp: tp_joined_def tp_inv_def)
    then have "tp_tasks P = []" using inv by (simp add: tp_inv_def)
    moreover have "concat (map running (tp_workers P)) = []" using j by (auto simp: tp_joined_def)
    ultimately show ?thesis using inv j by (simp add: tp_inv_def tp_enqueue_def tp_joined_def)
  qed
  moreover have "k \<le> tp_measure P \<and> ((\<exists>P''. tp_work P' P'') \<or>
        mset (tp_finished P') = mset (tp_accepted P') \<and> tp_accepted P' = tp_accepted P \<and>
        (tp_stop P \<longrightarrow> tp_joined P'))" if run: "(tp_work ^^ k) P P'" for k P'
  proof -
    have "tp_inv n P' \<and> tp_accepted P' = tp_accepted P \<and> tp_stop P' = tp_stop P"
      using run by (induction k arbitrary: P') (auto simp: inv tp_inv_work tp_work_frame)
    then show ?thesis using tp_work_bounded [OF run] tp_stuck [OF _ \<open>0 < n\<close>] by fastforce
  qed
  ultimately show ?thesis using inv by (auto simp: tp_inv_def intro!: exI [of _ "tp_measure P"])
qed

lemma every_task_runs_once_witness:
  "\<exists>P P'. tp_accepted P = [5 :: nat] \<and> tp_stop P \<and> tp_work\<^sup>*\<^sup>* P P' \<and> tp_joined P' \<and> mset (tp_finished P') = {#5#}"
proof -
  let ?a = "(ThreadPool_new 1)\<lparr>tp_tasks := [5 :: nat], tp_notify_one := 1, tp_accepted := [5]\<rparr>"
  let ?b = "?a\<lparr>tp_stop := True, tp_notify_all := True\<rparr>"
  have p0: "reachable (tp_start 1) tp_step (ThreadPool_new 1)" by (rule reach_init) (simp add: tp_start_def)
  have p1: "tp_step (ThreadPool_new 1) ?a" by (rule tps_enqueue [of 5]) (simp add: tp_enqueue_def ThreadPool_new_def)
  have p2: "tp_step ?a ?b" using tps_shutdown [of ?a True ?b] by (simp add: tp_shutdown_def ThreadPool_new_def)
  have reach: "reachable (tp_start 1) tp_step ?b" by (rule reach_step [OF reach_step [OF p0 p1] p2])
  note all = every_task_runs_once [OF reach zero_less_one, THEN conjunct2, THEN conjunct2, THEN conjunct2]
  obtain bound where bound: "\<And>k P'. (tp_work ^^ k) ?b P' \<Longrightarrow> k \<le> bound \<and> ((\<exists>P''. tp_work P' P'') \<or>
        mset (tp_finished P') = mset (tp_accepted P') \<and> tp_accepted P' = tp_accepted ?b \<and>
        (tp_stop ?b \<longrightarrow> tp_joined P'))" using all by blast
  have "\<exists>P'. tp_work\<^sup>*\<^sup>* ?b P' \<and> \<not> (\<exists>P''. tp_work P' P'')"
  proof (rule ccontr)
    assume "\<not> ?thesis"
    then have more: "\<And>P'. tp_work\<^sup>*\<^sup>* ?b P' \<Longrightarrow> \<exists>P''. tp_work P' P''" by blast
    have "\<exists>P'. (tp_work ^^ k) ?b P'" for k
    proof (induction k)
      case (Suc k)
      then obtain P' where P': "(tp_work ^^ k) ?b P'" by blast
      then obtain P'' where "tp_work P' P''" using more relpowp_imp_rtranclp by metis
      with P' show ?case by (meson relpowp_Suc_I)
    qed simp
    then obtain P' where "(tp_work ^^ Suc bound) ?b P'" by blast
    from bound [OF this] show False by simp
  qed
  then obtain P' where P': "tp_work\<^sup>*\<^sup>* ?b P'" "\<not> (\<exists>P''. tp_work P' P'')" by blast
  then obtain k where "(tp_work ^^ k) ?b P'" using rtranclp_imp_relpowp by metis
  from bound [OF this] P'(2) have "mset (tp_finished P') = mset (tp_accepted P') \<and> tp_accepted P' = [5] \<and> tp_joined P'"
    by simp
  moreover have "tp_accepted ?b = [5]" "tp_stop ?b" by simp_all
  ultimately show ?thesis using P'(1) by (intro exI [of _ ?b] exI [of _ P']) simp
qed

end
