(* ===== verification/Redis.thy ===== *)
theory Redis
  imports Ledger Persist Api
begin

text \<open>
  \<open>RedisCache.cpp\<close>: the pool of Redis connections and the commands over it. hiredis is a parameter: what it answers,
  as a function of the state of the Redis server (of type \<open>'r\<close>), which it may change. A connection
  (\<open>redisContext*\<close>) is the number of its creation; \<open>ri_freed\<close> records those given to \<open>redisFree\<close>. A format of
  hiredis is the list of its words. \<open>ri_compiled\<close> says whether the program was built with ENABLE_REDIS.
\<close>

datatype redis_reply = ReplyString string | ReplyNil | ReplyError string | ReplyOther

datatype context_answer = NoContext | BrokenContext | ReadyContext

text \<open>A reply is \<open>None\<close> for the null pointer; \<open>hi_err\<close> is the error field of a connection.\<close>

record 'r hiredis =
  hi_connect :: "'r \<Rightarrow> string \<Rightarrow> int \<Rightarrow> int \<times> int \<Rightarrow> context_answer"
  hi_set_timeout :: "'r \<Rightarrow> int \<times> int \<Rightarrow> bool"
  hi_command :: "'r \<Rightarrow> nat \<Rightarrow> string list \<Rightarrow> redis_reply option \<times> 'r"
  hi_append :: "'r \<Rightarrow> nat \<Rightarrow> string list \<Rightarrow> bool \<times> 'r"
  hi_get_reply :: "'r \<Rightarrow> nat \<Rightarrow> redis_reply option \<times> 'r"
  hi_err :: "'r \<Rightarrow> nat \<Rightarrow> bool"

record 'r redis_cache =
  ri_host :: string
  ri_password :: string
  ri_key_prefix :: string
  ri_port :: int
  ri_database :: int
  ri_pool_size :: int
  ri_connect_timeout_ms :: int
  ri_command_timeout_ms :: int
  ri_default_ttl_ms :: int
  ri_enabled :: bool
  ri_hits :: u64
  ri_misses :: u64
  ri_writes :: u64
  ri_errors :: u64
  ri_bypasses :: u64
  ri_available :: "nat list"
  ri_compiled :: bool
  ri_created :: nat
  ri_freed :: "nat list"
  ri_server :: 'r

definition RedisCache_new :: "bool \<Rightarrow> 'r \<Rightarrow> 'r redis_cache" where
  "RedisCache_new compiled server = \<lparr>ri_host = [], ri_password = [], ri_key_prefix = [], ri_port = 6379, ri_database = 0,
     ri_pool_size = 0, ri_connect_timeout_ms = 100, ri_command_timeout_ms = 20, ri_default_ttl_ms = 250,
     ri_enabled = False, ri_hits = 0, ri_misses = 0, ri_writes = 0, ri_errors = 0, ri_bypasses = 0,
     ri_available = [], ri_compiled = compiled, ri_created = 0, ri_freed = [], ri_server = server\<rparr>"

definition toTimeval :: "int \<Rightarrow> int \<times> int" where
  "toTimeval ms = (if ms \<ge> 0 then (ms div 1000, (ms mod 1000) * 1000)
     else (- ((- ms) div 1000), - (((- ms) mod 1000) * 1000)))"

definition replyOk :: "redis_reply option \<Rightarrow> bool" where
  "replyOk reply = (case reply of None \<Rightarrow> False | Some (ReplyError _) \<Rightarrow> False | Some _ \<Rightarrow> True)"

definition int_text :: "int \<Rightarrow> string" where
  "int_text i = (if i < 0 then CHR ''-'' # nat_digits (nat (- i)) else nat_digits (nat i))"

definition redisFree :: "nat \<Rightarrow> 'r redis_cache \<Rightarrow> 'r redis_cache" where
  "redisFree c C = C\<lparr>ri_freed := c # ri_freed C\<rparr>"

definition redisCommand :: "'r hiredis \<Rightarrow> nat \<Rightarrow> string list \<Rightarrow> 'r redis_cache \<Rightarrow> redis_reply option \<times> 'r redis_cache" where
  "redisCommand H c words C = (case hi_command H (ri_server C) c words of (reply, r) \<Rightarrow> (reply, C\<lparr>ri_server := r\<rparr>))"

definition context_err :: "'r hiredis \<Rightarrow> nat \<Rightarrow> 'r redis_cache \<Rightarrow> bool" where
  "context_err H c C = hi_err H (ri_server C) c"

text \<open>The two commands that may follow the connection.\<close>

definition authenticate :: "'r hiredis \<Rightarrow> nat \<Rightarrow> 'r redis_cache \<Rightarrow> bool \<times> 'r redis_cache" where
  "authenticate H c C = (if ri_password C = [] then (True, C)
     else case redisCommand H c [''AUTH'', ri_password C] C of (reply, C1) \<Rightarrow> (replyOk reply, C1))"

definition select_database :: "'r hiredis \<Rightarrow> nat \<Rightarrow> 'r redis_cache \<Rightarrow> bool \<times> 'r redis_cache" where
  "select_database H c C = (if ri_database C = 0 then (True, C)
     else case redisCommand H c [''SELECT'', int_text (ri_database C)] C of (reply, C1) \<Rightarrow> (replyOk reply, C1))"

definition connectOne :: "'r hiredis \<Rightarrow> 'r redis_cache \<Rightarrow> nat option \<times> 'r redis_cache" where
  "connectOne H C =
     (let c = ri_created C; C1 = C\<lparr>ri_created := c + 1\<rparr> in
      case hi_connect H (ri_server C) (ri_host C) (ri_port C) (toTimeval (ri_connect_timeout_ms C)) of
        NoContext \<Rightarrow> (None, C)
      | BrokenContext \<Rightarrow> (None, redisFree c C1)
      | ReadyContext \<Rightarrow>
          if \<not> hi_set_timeout H (ri_server C) (toTimeval (ri_command_timeout_ms C)) then (None, redisFree c C1)
          else (case authenticate H c C1 of (ok, C2) \<Rightarrow>
            if \<not> ok then (None, redisFree c C2)
            else (case select_database H c C2 of (ok, C3) \<Rightarrow> if \<not> ok then (None, redisFree c C3) else (Some c, C3))))"

definition ri_acquire :: "'r redis_cache \<Rightarrow> nat option \<times> 'r redis_cache" where
  "ri_acquire C = (if \<not> ri_enabled C \<or> ri_available C = [] then (None, C\<lparr>ri_bypasses := ri_bypasses C + 1\<rparr>)
     else (Some (hd (ri_available C)), C\<lparr>ri_available := tl (ri_available C)\<rparr>))"

text \<open>\<open>release\<close>: the part before the mutex is taken, and the part under it.\<close>

definition ri_repair :: "'r hiredis \<Rightarrow> nat \<Rightarrow> bool \<Rightarrow> 'r redis_cache \<Rightarrow> nat option \<times> 'r redis_cache" where
  "ri_repair H c healthy C = (if \<not> healthy \<or> context_err H c C
     then (case connectOne H (redisFree c C) of
         (None, C1) \<Rightarrow> (None, C1\<lparr>ri_errors := ri_errors C1 + 1\<rparr>) | (Some c1, C1) \<Rightarrow> (Some c1, C1))
     else (Some c, C))"

definition ri_put_back :: "nat option \<Rightarrow> 'r redis_cache \<Rightarrow> 'r redis_cache" where
  "ri_put_back c C = (case c of None \<Rightarrow> C
     | Some c \<Rightarrow> if ri_enabled C then C\<lparr>ri_available := ri_available C @ [c]\<rparr> else redisFree c C)"

definition ri_release :: "'r hiredis \<Rightarrow> nat \<Rightarrow> bool \<Rightarrow> 'r redis_cache \<Rightarrow> 'r redis_cache" where
  "ri_release H c healthy C = (case ri_repair H c healthy C of (c1, C1) \<Rightarrow> ri_put_back c1 C1)"

definition closeAllLocked :: "'r redis_cache \<Rightarrow> 'r redis_cache" where
  "closeAllLocked C = (fold redisFree (ri_available C) C)\<lparr>ri_available := []\<rparr>"

definition fullKey :: "'r redis_cache \<Rightarrow> string \<Rightarrow> string" where
  "fullKey C key = ri_key_prefix C @ key"

definition ri_shutdown :: "'r redis_cache \<Rightarrow> 'r redis_cache" where
  "ri_shutdown C = (let C1 = C\<lparr>ri_enabled := False\<rparr> in if ri_compiled C1 then closeAllLocked C1 else C1)"

fun connect_some :: "'r hiredis \<Rightarrow> nat \<Rightarrow> nat list \<Rightarrow> 'r redis_cache \<Rightarrow> nat list \<times> 'r redis_cache" where
  "connect_some H 0 opened C = (opened, C)"
| "connect_some H (Suc n) opened C = (case connectOne H C of
     (None, C1) \<Rightarrow> connect_some H n opened C1 | (Some c, C1) \<Rightarrow> connect_some H n (opened @ [c]) C1)"

definition ri_init :: "'r hiredis \<Rightarrow> string \<Rightarrow> int \<Rightarrow> string \<Rightarrow> int \<Rightarrow> int \<Rightarrow> int \<Rightarrow> int \<Rightarrow> int \<Rightarrow> string \<Rightarrow> 'r redis_cache \<Rightarrow>
    bool \<times> 'r redis_cache" where
  "ri_init H host port password database pool_size connect_timeout_ms command_timeout_ms default_ttl_ms key_prefix C =
     (let C1 = ri_shutdown C in
      if host = [] \<or> port \<le> 0 \<or> port > 65535 \<or> database < 0 \<or> pool_size \<le> 0 \<or> connect_timeout_ms \<le> 0 \<or>
         command_timeout_ms \<le> 0 \<or> default_ttl_ms \<le> 0 then (False, C1)
      else let C2 = C1\<lparr>ri_host := host, ri_port := port, ri_password := password, ri_database := database,
               ri_pool_size := pool_size, ri_connect_timeout_ms := connect_timeout_ms,
               ri_command_timeout_ms := command_timeout_ms, ri_default_ttl_ms := default_ttl_ms, ri_key_prefix := key_prefix\<rparr>
        in if \<not> ri_compiled C2 then (False, C2)
           else case connect_some H (nat pool_size) [] C2 of (opened, C3) \<Rightarrow>
             if opened = [] then (False, C3)
             else (True, C3\<lparr>ri_available := ri_available C3 @ opened, ri_enabled := True\<rparr>))"

definition ri_isEnabled :: "'r redis_cache \<Rightarrow> bool" where
  "ri_isEnabled C = ri_enabled C"

definition ri_isCompiledWithRedis :: "'r redis_cache \<Rightarrow> bool" where
  "ri_isCompiledWithRedis C = ri_compiled C"

subsection \<open>The commands\<close>

definition bypass :: "'r redis_cache \<Rightarrow> 'r redis_cache" where
  "bypass C = C\<lparr>ri_bypasses := ri_bypasses C + 1\<rparr>"

definition count_error :: "'r redis_cache \<Rightarrow> 'r redis_cache" where
  "count_error C = C\<lparr>ri_errors := ri_errors C + 1\<rparr>"

definition count_write :: "bool \<Rightarrow> 'r redis_cache \<Rightarrow> 'r redis_cache" where
  "count_write ok C = (if ok then C\<lparr>ri_writes := ri_writes C + 1\<rparr> else count_error C)"

definition ri_get :: "'r hiredis \<Rightarrow> string \<Rightarrow> 'r redis_cache \<Rightarrow> string option \<times> 'r redis_cache" where
  "ri_get H key C = (if \<not> ri_compiled C then (None, bypass C)
     else case ri_acquire C of (None, C1) \<Rightarrow> (None, C1)
     | (Some c, C1) \<Rightarrow> (case redisCommand H c [''GET'', fullKey C1 key] C1 of (reply, C2) \<Rightarrow>
         let healthy = (reply \<noteq> None \<and> \<not> context_err H c C2) in
         (case reply of
            Some (ReplyString v) \<Rightarrow> (Some v, ri_release H c healthy (C2\<lparr>ri_hits := ri_hits C2 + 1\<rparr>))
          | Some ReplyNil \<Rightarrow> (None, ri_release H c healthy (C2\<lparr>ri_misses := ri_misses C2 + 1\<rparr>))
          | _ \<Rightarrow> (None, ri_release H c False (count_error C2)))))"

text \<open>A command that only has to succeed: the three setters and the removals differ in the words and in
  whether a success is counted.\<close>

definition acknowledged :: "'r hiredis \<Rightarrow> bool \<Rightarrow> (('r redis_cache) \<Rightarrow> string list) \<Rightarrow> 'r redis_cache \<Rightarrow> bool \<times> 'r redis_cache" where
  "acknowledged H counts words C = (if \<not> ri_compiled C then (False, bypass C)
     else case ri_acquire C of (None, C1) \<Rightarrow> (False, C1)
     | (Some c, C1) \<Rightarrow> (case redisCommand H c (words C1) C1 of (reply, C2) \<Rightarrow>
         let ok = (replyOk reply \<and> \<not> context_err H c C2);
             C3 = (if counts then count_write ok C2 else if ok then C2 else count_error C2)
         in (ok, ri_release H c ok C3)))"

definition ri_set :: "'r hiredis \<Rightarrow> string \<Rightarrow> string \<Rightarrow> int \<Rightarrow> 'r redis_cache \<Rightarrow> bool \<times> 'r redis_cache" where
  "ri_set H key value ttl_ms = acknowledged H True
     (\<lambda>C. [''SET'', fullKey C key, value, ''PX'', int_text (if ttl_ms > 0 then ttl_ms else ri_default_ttl_ms C)])"

definition ri_setPersistent :: "'r hiredis \<Rightarrow> string \<Rightarrow> string \<Rightarrow> 'r redis_cache \<Rightarrow> bool \<times> 'r redis_cache" where
  "ri_setPersistent H key value = acknowledged H True (\<lambda>C. [''SET'', fullKey C key, value])"

definition ri_remove :: "'r hiredis \<Rightarrow> string \<Rightarrow> 'r redis_cache \<Rightarrow> bool \<times> 'r redis_cache" where
  "ri_remove H key = acknowledged H False (\<lambda>C. [''DEL'', fullKey C key])"

text \<open>A null pointer among the keys is \<open>None\<close>.\<close>

definition ri_remove_all :: "'r hiredis \<Rightarrow> string option list \<Rightarrow> 'r redis_cache \<Rightarrow> 'r redis_cache" where
  "ri_remove_all H keys C = (if \<not> ri_compiled C then bypass C
     else case ri_acquire C of (None, C1) \<Rightarrow> C1
     | (Some c, C1) \<Rightarrow> (let arguments = ''DEL'' # map (fullKey C1) (List.map_filter id keys) in
         if length arguments = 1 then ri_release H c True C1
         else (case redisCommand H c arguments C1 of (reply, C2) \<Rightarrow>
           let ok = (replyOk reply \<and> \<not> context_err H c C2)
           in ri_release H c ok (if ok then C2 else count_error C2))))"

definition ri_appendStream :: "'r hiredis \<Rightarrow> string \<Rightarrow> string \<Rightarrow> string \<Rightarrow> string \<Rightarrow> nat \<Rightarrow> 'r redis_cache \<Rightarrow>
    string option \<times> 'r redis_cache" where
  "ri_appendStream H stream event_type aggregate_id payload approximate_max_len C = (if \<not> ri_compiled C then (None, bypass C)
     else if approximate_max_len = 0 then (None, count_error C)
     else case ri_acquire C of (None, C1) \<Rightarrow> (None, C1)
     | (Some c, C1) \<Rightarrow> (case redisCommand H c [''XADD'', fullKey C1 stream, ''MAXLEN'', ''~'', nat_digits approximate_max_len,
           ''*'', ''event_type'', event_type, ''aggregate_id'', aggregate_id, ''payload'', payload] C1 of (reply, C2) \<Rightarrow>
         (case reply of
            Some (ReplyString event_id) \<Rightarrow>
              let ok = (\<not> context_err H c C2) in
              (if ok then Some event_id else None, ri_release H c ok (count_write ok C2))
          | _ \<Rightarrow> (None, ri_release H c False (count_error C2)))))"

text \<open>The pipeline: commands are appended until one is refused, then their replies are read.\<close>

fun append_commands :: "'r hiredis \<Rightarrow> nat \<Rightarrow> string list list \<Rightarrow> 'r redis_cache \<Rightarrow> bool \<times> 'r redis_cache" where
  "append_commands H c [] C = (True, C)"
| "append_commands H c (words # rest) C = (case hi_append H (ri_server C) c words of
     (ok, r) \<Rightarrow> let C1 = C\<lparr>ri_server := r\<rparr> in if ok then append_commands H c rest C1 else (False, C1))"

fun read_replies :: "'r hiredis \<Rightarrow> nat \<Rightarrow> nat \<Rightarrow> 'r redis_cache \<Rightarrow> bool \<times> 'r redis_cache" where
  "read_replies H c 0 C = (True, C)"
| "read_replies H c (Suc n) C = (case hi_get_reply H (ri_server C) c of (reply, r) \<Rightarrow>
     let C1 = C\<lparr>ri_server := r\<rparr> in
     case reply of None \<Rightarrow> (False, C1) | Some (ReplyError _) \<Rightarrow> (False, C1) | Some _ \<Rightarrow> read_replies H c n C1)"

definition sorted_set_commands :: "string \<Rightarrow> (double \<times> string) list \<Rightarrow> int \<Rightarrow> string list list" where
  "sorted_set_commands full_key scored_members ttl_ms =
     [[''MULTI''], [''DEL'', full_key]] @
     map (\<lambda>item. [''ZADD'', full_key, fmt_general 17 (fst item), snd item]) scored_members @
     (if scored_members = [] then [] else [[''PEXPIRE'', full_key, int_text ttl_ms]]) @ [[''EXEC'']]"

definition ri_replaceSortedSet :: "'r hiredis \<Rightarrow> string \<Rightarrow> (double \<times> string) list \<Rightarrow> int \<Rightarrow> 'r redis_cache \<Rightarrow> bool \<times> 'r redis_cache" where
  "ri_replaceSortedSet H key scored_members ttl_ms C = (if \<not> ri_compiled C then (False, bypass C)
     else if ttl_ms \<le> 0 then (False, count_error C)
     else case ri_acquire C of (None, C1) \<Rightarrow> (False, C1)
     | (Some c, C1) \<Rightarrow> (case append_commands H c (sorted_set_commands (fullKey C1 key) scored_members ttl_ms) C1 of (sent, C2) \<Rightarrow>
         let reply_count = 3 + length scored_members + (if scored_members = [] then 0 else 1);
             (answered, C3) = (if sent then read_replies H c reply_count C2 else (False, C2));
             ok = (answered \<and> \<not> context_err H c C3)
         in (ok, ri_release H c ok (count_write ok C3))))"

definition ri_stats :: "'r redis_cache \<Rightarrow> redis_cache_stats" where
  "ri_stats C = \<lparr>rcs_hits = ri_hits C, rcs_misses = ri_misses C, rcs_writes = ri_writes C, rcs_errors = ri_errors C,
     rcs_bypasses = ri_bypasses C\<rparr>"

subsection \<open>The connections among the threads\<close>

text \<open>\<open>rs_lent\<close>: the connections that operations hold. Between acquiring and giving back an operation talks to the
  server and counts; whatever that changes, it does not touch the pool.\<close>

record 'r redis_system =
  rs_cache :: "'r redis_cache"
  rs_lent :: "nat list"

inductive redis_step :: "'r hiredis \<Rightarrow> 'r redis_system \<Rightarrow> 'r redis_system \<Rightarrow> bool" for H where
  rs_init: "redis_step H s (s\<lparr>rs_cache := snd (ri_init H h p w d n ct mt ttl pre (rs_cache s))\<rparr>)"
| rs_shutdown: "redis_step H s (s\<lparr>rs_cache := ri_shutdown (rs_cache s)\<rparr>)"
| rs_acquire: "ri_acquire (rs_cache s) = (c, C) \<Longrightarrow>
    redis_step H s (s\<lparr>rs_cache := C, rs_lent := (case c of None \<Rightarrow> rs_lent s | Some c \<Rightarrow> c # rs_lent s)\<rparr>)"
| rs_talk: "redis_step H s (s\<lparr>rs_cache := (rs_cache s)\<lparr>ri_server := r, ri_hits := n1, ri_misses := n2, ri_writes := n3,
    ri_errors := n4, ri_bypasses := n5\<rparr>\<rparr>)"
| rs_repair: "rs_lent s = as @ c # bs \<Longrightarrow> ri_repair H c healthy (rs_cache s) = (c1, C) \<Longrightarrow>
    redis_step H s (s\<lparr>rs_cache := C, rs_lent := as @ (case c1 of None \<Rightarrow> [] | Some c1 \<Rightarrow> [c1]) @ bs\<rparr>)"
| rs_put_back: "rs_lent s = as @ c # bs \<Longrightarrow>
    redis_step H s (s\<lparr>rs_cache := ri_put_back (Some c) (rs_cache s), rs_lent := as @ bs\<rparr>)"

definition redis_start :: "'r redis_system \<Rightarrow> bool" where
  "redis_start s \<longleftrightarrow> (\<exists>compiled server. s = \<lparr>rs_cache = RedisCache_new compiled server, rs_lent = []\<rparr>)"

definition redis_places :: "'r redis_system \<Rightarrow> nat list" where
  "redis_places s = ri_available (rs_cache s) @ rs_lent s @ ri_freed (rs_cache s)"

definition ri_mset :: "'r redis_cache \<Rightarrow> nat multiset" where
  "ri_mset C = mset (ri_available C) + mset (ri_freed C)"

definition ri_born :: "'r redis_cache \<Rightarrow> nat multiset" where
  "ri_born C = mset [0..<ri_created C]"

definition lent_mset :: "nat option \<Rightarrow> nat multiset" where
  "lent_mset c = (case c of None \<Rightarrow> {#} | Some c \<Rightarrow> {#c#})"

lemma ri_born_next: "ri_created C' = Suc (ri_created C) \<Longrightarrow> ri_born C' = add_mset (ri_created C) (ri_born C)"
  by (simp add: ri_born_def flip: mset_upt)

lemma fold_free [simp]: "ri_freed (fold redisFree cs C) = rev cs @ ri_freed C" "ri_created (fold redisFree cs C) = ri_created C"
  "ri_available (fold redisFree cs C) = ri_available C"
  by (induction cs arbitrary: C) (simp_all add: redisFree_def)

lemma redisCommand_frame: "redisCommand H c words C = (reply, C1) \<Longrightarrow> C1 = C\<lparr>ri_server := ri_server C1\<rparr>"
  by (auto simp: redisCommand_def split: prod.split_asm)

lemma login_frame: "authenticate H c C = (ok, C1) \<Longrightarrow> C1 = C\<lparr>ri_server := ri_server C1\<rparr>"
  "select_database H c C = (ok, C1) \<Longrightarrow> C1 = C\<lparr>ri_server := ri_server C1\<rparr>"
  by (auto simp: authenticate_def select_database_def dest: redisCommand_frame split: if_split_asm prod.split_asm)

lemma connectOne_mset:
  assumes "connectOne H C = (c, C1)"
  shows "ri_mset C1 + ri_born C + lent_mset c = ri_mset C + ri_born C1 \<and> ri_available C1 = ri_available C"
proof -
  let ?C = "C\<lparr>ri_created := ri_created C + 1\<rparr>"
  obtain ok1 C2 where a: "authenticate H (ri_created C) ?C = (ok1, C2)" by fastforce
  obtain ok2 C3 where b: "select_database H (ri_created C) C2 = (ok2, C3)" by fastforce
  obtain r2 where c2: "C2 = ?C\<lparr>ri_server := r2\<rparr>" using login_frame(1) [OF a] by blast
  obtain r3 where c3: "C3 = C2\<lparr>ri_server := r3\<rparr>" using login_frame(2) [OF b] by blast
  have f: "ri_created C2 = Suc (ri_created C)" "ri_freed C2 = ri_freed C" "ri_available C2 = ri_available C"
    "ri_created C3 = Suc (ri_created C)" "ri_freed C3 = ri_freed C" "ri_available C3 = ri_available C"
    by (simp_all add: c2 c3)
  show ?thesis using assms a b f
    by (auto simp: connectOne_def Let_def ri_mset_def lent_mset_def redisFree_def ri_born_next [of _ C]
        split: context_answer.split_asm if_split_asm)
qed

lemma connect_some_mset: "connect_some H n cs C = (cs', C1) \<Longrightarrow>
    ri_mset C1 + ri_born C + mset cs' = ri_mset C + ri_born C1 + mset cs \<and> ri_available C1 = ri_available C"
proof (induction n arbitrary: cs C)
  case (Suc n)
  obtain c C2 where c: "connectOne H C = (c, C2)" by fastforce
  note m = connectOne_mset [OF c]
  let ?cs = "cs @ (case c of None \<Rightarrow> [] | Some k \<Rightarrow> [k])"
  have "connect_some H n ?cs C2 = (cs', C1)" using Suc.prems c by (cases c) simp_all
  from Suc.IH [OF this] have i: "ri_mset C1 + ri_born C2 + mset cs' = ri_mset C2 + ri_born C1 + mset ?cs"
    and q: "ri_available C1 = ri_available C2" by simp_all
  have e: "mset ?cs = mset cs + lent_mset c" by (cases c) (simp_all add: lent_mset_def)
  have "ri_mset C1 + ri_born C + mset cs' = ri_mset C + ri_born C1 + mset cs"
  proof (rule multiset_eqI)
    fix x
    show "count (ri_mset C1 + ri_born C + mset cs') x = count (ri_mset C + ri_born C1 + mset cs) x"
      using arg_cong [OF i [unfolded e], of "\<lambda>M. count M x"] arg_cong [OF conjunct1 [OF m], of "\<lambda>M. count M x"]
      by (simp only: count_union)
  qed
  then show ?case using q m by simp
qed simp

lemma ri_shutdown_mset: "ri_mset (ri_shutdown C) = ri_mset C" "ri_created (ri_shutdown C) = ri_created C"
  by (simp_all add: ri_shutdown_def closeAllLocked_def ri_mset_def Let_def)

lemma ri_init_mset:
  assumes "ri_init H h p w d n ct mt ttl pre C = (ok, C1)"
  shows "ri_mset C1 + ri_born C = ri_mset C + ri_born C1"
proof -
  define C0 where "C0 = (ri_shutdown C)\<lparr>ri_host := h, ri_port := p, ri_password := w, ri_database := d, ri_pool_size := n,
    ri_connect_timeout_ms := ct, ri_command_timeout_ms := mt, ri_default_ttl_ms := ttl, ri_key_prefix := pre\<rparr>"
  obtain cs C2 where c: "connect_some H (nat n) [] C0 = (cs, C2)" by fastforce
  have s: "ri_mset C0 = ri_mset C" "ri_born C0 = ri_born C" "ri_mset (ri_shutdown C) = ri_mset C" "ri_born (ri_shutdown C) = ri_born C"
    using ri_shutdown_mset [of C] by (simp_all add: ri_mset_def ri_born_def C0_def)
  have "snd (ri_init H h p w d n ct mt ttl pre C) \<in> {ri_shutdown C, C0, C2\<lparr>ri_available := ri_available C2 @ cs, ri_enabled := True\<rparr>} \<or>
      snd (ri_init H h p w d n ct mt ttl pre C) = C2 \<and> cs = []"
    by (simp add: ri_init_def Let_def c flip: C0_def)
  then consider "C1 = ri_shutdown C" | "C1 = C0" | "C1 = C2" "cs = []"
    | "C1 = C2\<lparr>ri_available := ri_available C2 @ cs, ri_enabled := True\<rparr>"
    unfolding assms by auto
  then show ?thesis
  proof cases
    case 4
    then have "ri_mset C1 = ri_mset C2 + mset cs" "ri_born C1 = ri_born C2" by (simp_all add: ri_mset_def ri_born_def)
    then show ?thesis using connect_some_mset [OF c] s by (simp add: ac_simps)
  qed (use connect_some_mset [OF c] s in \<open>simp_all add: ac_simps\<close>)
qed

lemma ri_repair_mset:
  assumes "ri_repair H c healthy C = (c1, C1)"
  shows "ri_mset C1 + ri_born C + lent_mset c1 = ri_mset C + ri_born C1 + {#c#}"
proof (cases "\<not> healthy \<or> context_err H c C")
  case True
  obtain k C2 where k: "connectOne H (redisFree c C) = (k, C2)" by fastforce
  have "ri_mset (redisFree c C) = ri_mset C + {#c#}" "ri_born (redisFree c C) = ri_born C"
    by (simp_all add: ri_mset_def redisFree_def ri_born_def)
  moreover have "c1 = k" "ri_mset C1 = ri_mset C2" "ri_born C1 = ri_born C2"
    using assms True k by (auto simp: ri_repair_def ri_mset_def ri_born_def split: option.split_asm)
  ultimately show ?thesis using connectOne_mset [OF k] by (simp add: ac_simps)
next
  case False
  then have "c1 = Some c" "C1 = C" using assms by (auto simp: ri_repair_def)
  then show ?thesis by (simp add: lent_mset_def)
qed

lemma redis_step_moves:
  assumes "redis_step H s s'"
  shows "mset (redis_places s') + ri_born (rs_cache s) = mset (redis_places s) + ri_born (rs_cache s')"
proof -
  have pl: "mset (redis_places t) = ri_mset (rs_cache t) + mset (rs_lent t)" for t :: "'a redis_system"
    by (simp add: redis_places_def ri_mset_def ac_simps)
  from assms show ?thesis
  proof cases
    case (rs_init h p w d n ct mt ttl pre)
    obtain ok C1 where "ri_init H h p w d n ct mt ttl pre (rs_cache s) = (ok, C1)" by fastforce
    with ri_init_mset [OF this] show ?thesis by (simp add: pl rs_init ac_simps)
  next
    case rs_shutdown
    then show ?thesis using ri_shutdown_mset [of "rs_cache s"] by (simp add: pl ri_born_def)
  next
    case (rs_acquire c C)
    then show ?thesis
      by (cases "ri_available (rs_cache s)") (auto simp: pl ri_acquire_def ri_mset_def ri_born_def split: if_split_asm)
  next
    case (rs_talk r n1 n2 n3 n4 n5)
    then show ?thesis by (simp add: pl ri_mset_def ri_born_def)
  next
    case (rs_repair as c bs healthy c1 C)
    have "mset (rs_lent s') = mset as + mset bs + lent_mset c1" by (cases c1) (simp_all add: rs_repair(1) lent_mset_def)
    then show ?thesis using ri_repair_mset [OF rs_repair(3)] rs_repair(1,2) by (simp add: pl ac_simps)
  next
    case (rs_put_back as c bs)
    then show ?thesis by (auto simp: pl ri_put_back_def ri_mset_def redisFree_def ri_born_def)
  qed
qed

interpretation redis: ledger redis_start "redis_step H" redis_places "\<lambda>s. ri_created (rs_cache s)"
proof
  show "mset (redis_places s) = mset [0..<ri_created (rs_cache s)]" if "redis_start s" for s :: "'a redis_system"
    using that by (auto simp: redis_start_def redis_places_def RedisCache_new_def)
qed (use redis_step_moves in \<open>simp add: ri_born_def\<close>)

text \<open>The same conservation for this pool: no connection is used by two operations, used after it was freed, or lost.\<close>

lemma redis_connections_in_one_place:
  "reachable redis_start (redis_step H) s \<Longrightarrow> distinct (redis_places s) \<and> set (redis_places s) = {0..<ri_created (rs_cache s)}"
  by (rule redis.in_one_place)

subsection \<open>What the commands say\<close>

text \<open>
  What Redis documents of the commands that are used for strings: \<open>view\<close> is what a state of the server holds under
  each key in the database of the cache's configuration. Every connection of the cache has selected that
  database before it is used (\<open>connectOne\<close>; otherwise it is closed again), so one view serves them all, and
  \<open>SELECT\<close> itself changes no key. Entries may expire at any time. A write may have been done although its
  reply was lost.
\<close>

definition redis_laws :: "'r hiredis \<Rightarrow> ('r \<Rightarrow> string \<Rightarrow> string option) \<Rightarrow> bool" where
  "redis_laws H view \<longleftrightarrow> (\<forall>r c reply r'.
     (\<forall>k. hi_command H r c [''GET'', k] = (reply, r') \<longrightarrow>
        view r' \<subseteq>\<^sub>m view r \<and> (\<forall>v. reply = Some (ReplyString v) \<longrightarrow> view r k = Some v)) \<and>
     (\<forall>k v opts. hi_command H r c (''SET'' # k # v # opts) = (reply, r') \<longrightarrow>
        view r' \<subseteq>\<^sub>m (view r)(k \<mapsto> v) \<or> view r' \<subseteq>\<^sub>m view r \<and> \<not> replyOk reply) \<and>
     (\<forall>ks. hi_command H r c (''DEL'' # ks) = (reply, r') \<longrightarrow>
        view r' \<subseteq>\<^sub>m view r \<and> (replyOk reply \<longrightarrow> (\<forall>k \<in> set ks. view r' k = None))) \<and>
     (\<forall>p. hi_command H r c [''AUTH'', p] = (reply, r') \<longrightarrow> view r' \<subseteq>\<^sub>m view r) \<and>
     (\<forall>n. hi_command H r c [''SELECT'', n] = (reply, r') \<longrightarrow> view r' \<subseteq>\<^sub>m view r))"

lemma redis_lawsD:
  assumes "redis_laws H view"
  shows "hi_command H r c [''GET'', k] = (reply, r') \<Longrightarrow> view r' \<subseteq>\<^sub>m view r"
    and "hi_command H r c [''GET'', k] = (Some (ReplyString v), r') \<Longrightarrow> view r k = Some v"
    and "hi_command H r c (''SET'' # k # v # opts) = (reply, r') \<Longrightarrow>
      view r' \<subseteq>\<^sub>m (view r)(k \<mapsto> v) \<or> view r' \<subseteq>\<^sub>m view r"
    and "hi_command H r c (''DEL'' # ks) = (reply, r') \<Longrightarrow> view r' \<subseteq>\<^sub>m view r"
    and "hi_command H r c (''DEL'' # ks) = (reply, r') \<Longrightarrow> replyOk reply \<Longrightarrow> k \<in> set ks \<Longrightarrow> view r' k = None"
    and "hi_command H r c [''AUTH'', p] = (reply, r') \<Longrightarrow> view r' \<subseteq>\<^sub>m view r"
    and "hi_command H r c [''SELECT'', p] = (reply, r') \<Longrightarrow> view r' \<subseteq>\<^sub>m view r"
  using assms unfolding redis_laws_def by blast+

text \<open>A step that writes nothing.\<close>

definition quiet :: "('r \<Rightarrow> string \<Rightarrow> string option) \<Rightarrow> 'r redis_cache \<Rightarrow> 'r redis_cache \<Rightarrow> bool" where
  "quiet view C C' \<longleftrightarrow> ri_key_prefix C' = ri_key_prefix C \<and> view (ri_server C') \<subseteq>\<^sub>m view (ri_server C)"

lemma quiet_trans: "quiet view A B \<Longrightarrow> quiet view B C \<Longrightarrow> quiet view A C"
  by (auto simp: quiet_def intro: map_le_trans)

lemma quiet_same [simp]: "ri_key_prefix C' = ri_key_prefix C \<Longrightarrow> ri_server C' = ri_server C \<Longrightarrow> quiet view C C'"
  by (simp add: quiet_def)

lemma quiet_connect:
  assumes "redis_laws H view" "connectOne H C = (c, C1)"
  shows "quiet view C C1"
proof -
  let ?C = "C\<lparr>ri_created := ri_created C + 1\<rparr>"
  obtain ok1 C2 where a: "authenticate H (ri_created C) ?C = (ok1, C2)" by fastforce
  obtain ok2 C3 where b: "select_database H (ri_created C) C2 = (ok2, C3)" by fastforce
  have q2: "quiet view C C2" using a redis_lawsD(6) [OF assms(1)]
    by (auto simp: authenticate_def redisCommand_def quiet_def split: if_split_asm prod.split_asm)
  have "quiet view C2 C3" using b redis_lawsD(7) [OF assms(1)]
    by (auto simp: select_database_def redisCommand_def quiet_def split: if_split_asm prod.split_asm)
  then have q3: "quiet view C C3" using q2 quiet_trans by blast
  have free: "quiet view D (redisFree c D)" for c D by (simp add: redisFree_def)
  show ?thesis using assms(2) a b q2 q3 free
    by (auto simp: connectOne_def Let_def redisFree_def quiet_def split: context_answer.split_asm if_split_asm)
qed

lemma quiet_release:
  assumes "redis_laws H view"
  shows "quiet view C (ri_release H c healthy C)"
proof -
  obtain c1 C1 where r: "ri_repair H c healthy C = (c1, C1)" by fastforce
  have "quiet view C C1"
  proof (cases "\<not> healthy \<or> context_err H c C")
    case True
    obtain k C2 where k: "connectOne H (redisFree c C) = (k, C2)" by fastforce
    have "quiet view C (redisFree c C)" by (simp add: redisFree_def)
    then have "quiet view C C2" using quiet_connect [OF assms k] quiet_trans by blast
    then show ?thesis using r True k by (auto simp: ri_repair_def quiet_def split: option.split_asm)
  qed (use r in \<open>simp add: ri_repair_def\<close>)
  moreover have "quiet view C1 (ri_put_back c1 C1)" by (auto simp: ri_put_back_def redisFree_def split: option.split)
  ultimately show ?thesis using r quiet_trans by (auto simp: ri_release_def)
qed

lemma acquire_frame: "ri_acquire C = (c, C1) \<Longrightarrow> ri_server C1 = ri_server C \<and> ri_key_prefix C1 = ri_key_prefix C"
  by (auto simp: ri_acquire_def split: if_split_asm)

lemma get_truthful:
  assumes "redis_laws H view" "ri_get H key C = (Some v, C')"
  shows "view (ri_server C) (fullKey C key) = Some v"
proof -
  obtain c C1 where a: "ri_acquire C = (Some c, C1)" using assms(2)
    by (auto simp: ri_get_def split: if_split_asm prod.split_asm option.split_asm)
  obtain reply r where h: "hi_command H (ri_server C1) c [''GET'', fullKey C1 key] = (reply, r)" by fastforce
  have "reply = Some (ReplyString v)" using assms(2) a h
    by (auto simp: ri_get_def redisCommand_def Let_def split: if_split_asm option.split_asm redis_reply.split_asm)
  then show ?thesis using redisCommand_def redis_lawsD(2) [OF assms(1)] h acquire_frame [OF a] by (simp add: fullKey_def)
qed

lemma acknowledged_cases:
  assumes "redis_laws H view" "acknowledged H counts words C = (ok, C')"
  shows "(\<not> ok \<and> quiet view C C') \<or> (\<exists>c C1 C2 reply. ri_server C1 = ri_server C \<and> ri_key_prefix C1 = ri_key_prefix C \<and>
    ri_default_ttl_ms C1 = ri_default_ttl_ms C \<and>
    redisCommand H c (words C1) C1 = (reply, C2) \<and> (ok \<longrightarrow> replyOk reply) \<and> quiet view C2 C')"
proof (cases "ri_compiled C \<and> fst (ri_acquire C) \<noteq> None")
  case True
  then obtain c C1 where a: "ri_acquire C = (Some c, C1)" by (cases "ri_acquire C") auto
  obtain reply C2 where r: "redisCommand H c (words C1) C1 = (reply, C2)" by fastforce
  let ?ok = "replyOk reply \<and> \<not> context_err H c C2"
  let ?C3 = "if counts then count_write ?ok C2 else if ?ok then C2 else count_error C2"
  have e: "ok = ?ok" "C' = ri_release H c ?ok ?C3"
    using assms(2) True a r by (auto simp: acknowledged_def Let_def)
  have "quiet view C2 ?C3" by (simp add: count_write_def count_error_def)
  then have "quiet view C2 C'" using e(2) quiet_release [OF assms(1)] quiet_trans by metis
  moreover have "ri_default_ttl_ms C1 = ri_default_ttl_ms C" using a by (auto simp: ri_acquire_def split: if_split_asm)
  ultimately show ?thesis using acquire_frame [OF a] r e(1) by blast
next
  case False
  then show ?thesis using assms(2) acquire_frame [of C]
    by (cases "ri_acquire C") (auto simp: acknowledged_def bypass_def split: option.split_asm if_split_asm)
qed

lemma map_le_find: "m \<subseteq>\<^sub>m m' \<Longrightarrow> m k = Some x \<Longrightarrow> m' k = Some x"
  unfolding map_le_def by (metis domI)

lemma set_truthful:
  assumes "redis_laws H view" "ri_set H key value ttl C = (ok, C')"
  shows "ri_key_prefix C' = ri_key_prefix C \<and>
    (view (ri_server C') k = Some x \<longrightarrow> view (ri_server C) k = Some x \<or> k = fullKey C key \<and> x = value)"
  using acknowledged_cases [OF assms(1) assms(2) [unfolded ri_set_def]]
proof (elim disjE conjE exE)
  assume "quiet view C C'"
  then show ?thesis by (auto simp: quiet_def dest: map_le_find)
next
  fix c C1 C2 reply
  assume r: "redisCommand H c [''SET'', fullKey C1 key, value, ''PX'', int_text (if 0 < ttl then ttl else ri_default_ttl_ms C1)] C1 = (reply, C2)"
    and s: "ri_server C1 = ri_server C" "ri_key_prefix C1 = ri_key_prefix C" and q: "quiet view C2 C'"
  obtain r' where h: "hi_command H (ri_server C1) c (''SET'' # fullKey C1 key # value # [''PX'', int_text (if 0 < ttl then ttl else ri_default_ttl_ms C1)]) = (reply, r')"
    and c2: "C2 = C1\<lparr>ri_server := r'\<rparr>" using r by (auto simp: redisCommand_def split: prod.split_asm)
  have "view r' \<subseteq>\<^sub>m (view (ri_server C))(fullKey C key \<mapsto> value) \<or> view r' \<subseteq>\<^sub>m view (ri_server C)"
    using redis_lawsD(3) [OF assms(1) h] s by (simp add: fullKey_def)
  moreover have "view (ri_server C') \<subseteq>\<^sub>m view r'" "ri_key_prefix C' = ri_key_prefix C" using q c2 s by (simp_all add: quiet_def)
  ultimately show ?thesis
    using map_le_find [of "view (ri_server C')" "view r'" k x] map_le_find [of "view r'" "view (ri_server C)" k x]
      map_le_find [of "view r'" "(view (ri_server C))(fullKey C key \<mapsto> value)" k x]
    by (auto split: if_split_asm)
qed

lemma remove_truthful:
  assumes "redis_laws H view" "ri_remove H key C = (True, C')"
  shows "ri_key_prefix C' = ri_key_prefix C \<and> view (ri_server C') (fullKey C key) = None"
  using acknowledged_cases [OF assms(1) assms(2) [unfolded ri_remove_def]]
proof (elim disjE conjE exE)
  fix c C1 C2 reply
  assume r: "redisCommand H c [''DEL'', fullKey C1 key] C1 = (reply, C2)" and ok: "True \<longrightarrow> replyOk reply"
    and s: "ri_server C1 = ri_server C" "ri_key_prefix C1 = ri_key_prefix C" and q: "quiet view C2 C'"
  obtain r' where h: "hi_command H (ri_server C1) c (''DEL'' # [fullKey C1 key]) = (reply, r')"
    and c2: "C2 = C1\<lparr>ri_server := r'\<rparr>" using r by (auto simp: redisCommand_def split: prod.split_asm)
  have "view r' (fullKey C key) = None" using redis_lawsD(5) [OF assms(1) h] ok s by (simp add: fullKey_def)
  moreover have "view (ri_server C') \<subseteq>\<^sub>m view r'" "ri_key_prefix C' = ri_key_prefix C" using q c2 s by (simp_all add: quiet_def)
  ultimately show ?thesis by (metis domIff map_le_def)
qed simp

text \<open>C17: the response cache does not make up answers. Against a server that keeps to the documented meaning of
  GET, SET and DEL, whatever connections break and whatever replies get lost: a value that \<open>get\<close> returns is
  the one stored under the prefixed key; \<open>set\<close> stores at most the given value under that key and nothing
  under any other; and after a \<open>remove\<close> that returns true, \<open>get\<close> answers nothing for that key.\<close>

theorem redis_cache_is_truthful:
  assumes "redis_laws H view"
  shows "(\<forall>key v C'. ri_get H key C = (Some v, C') \<longrightarrow> view (ri_server C) (fullKey C key) = Some v) \<and>
    (\<forall>key value ttl ok C' k x. ri_set H key value ttl C = (ok, C') \<and> view (ri_server C') k = Some x \<longrightarrow>
      view (ri_server C) k = Some x \<or> k = fullKey C key \<and> x = value) \<and>
    (\<forall>key C' v C''. ri_remove H key C = (True, C') \<longrightarrow> ri_get H key C' \<noteq> (Some v, C''))"
proof (intro conjI allI impI notI)
  fix key C' v C'' assume r: "ri_remove H key C = (True, C')" and g: "ri_get H key C' = (Some v, C'')"
  have "view (ri_server C') (fullKey C' key) = Some v" by (rule get_truthful [OF assms g])
  then show False using remove_truthful [OF assms r] by (simp add: fullKey_def)
qed (use get_truthful [OF assms] set_truthful [OF assms] in blast)+

text \<open>A server for examples: a map; every command answers.\<close>

definition demo_redis_command :: "(string \<Rightarrow> string option) \<Rightarrow> nat \<Rightarrow> string list \<Rightarrow> redis_reply option \<times> (string \<Rightarrow> string option)" where
  "demo_redis_command r c words = (case words of
       cmd # k # rest \<Rightarrow>
         if cmd = ''GET'' then (Some (case r k of None \<Rightarrow> ReplyNil | Some v \<Rightarrow> ReplyString v), r)
         else if cmd = ''SET'' then (case rest of [] \<Rightarrow> (Some (ReplyError ''ERR''), r) | v # _ \<Rightarrow> (Some ReplyOther, r(k \<mapsto> v)))
         else if cmd = ''DEL'' then (Some ReplyOther, \<lambda>k'. if k' \<in> set (k # rest) then None else r k')
         else (Some ReplyOther, r)
     | _ \<Rightarrow> (Some (ReplyError ''ERR''), r))"

definition demo_hiredis :: "(string \<Rightarrow> string option) hiredis" where
  "demo_hiredis = \<lparr>hi_connect = (\<lambda>_ _ _ _. ReadyContext), hi_set_timeout = (\<lambda>_ _. True), hi_command = demo_redis_command,
     hi_append = (\<lambda>r _ _. (True, r)), hi_get_reply = (\<lambda>r _. (Some ReplyOther, r)), hi_err = (\<lambda>_ _. False)\<rparr>"

lemma demo_redis_laws: "redis_laws demo_hiredis (\<lambda>r. r)"
  by (auto simp: redis_laws_def demo_hiredis_def demo_redis_command_def map_le_def dom_def replyOk_def
      split: option.split_asm list.split_asm if_split_asm)

lemma redis_cache_is_truthful_witness:
  "\<exists>C C1 C2. ri_init demo_hiredis ''cache'' 6379 [] 0 2 100 20 250 ''http:'' (RedisCache_new True (\<lambda>_. None)) = (True, C) \<and>
     ri_set demo_hiredis ''trains'' ''[]'' 0 C = (True, C1) \<and> ri_get demo_hiredis ''trains'' C1 = (Some ''[]'', C2) \<and>
     ri_server C1 ''http:trains'' = Some ''[]''"
proof -
  define C :: "(string \<Rightarrow> string option) redis_cache" where "C = (RedisCache_new True (\<lambda>_. None))\<lparr>ri_host := ''cache'', ri_pool_size := 2, ri_key_prefix := ''http:'',
    ri_available := [0, 1], ri_enabled := True, ri_created := 2\<rparr>"
  define C1 where "C1 = C\<lparr>ri_available := [1, 0], ri_writes := 1, ri_server := [''http:trains'' \<mapsto> ''[]'']\<rparr>"
  define C2 where "C2 = C1\<lparr>ri_available := [0, 1], ri_hits := 1\<rparr>"
  note defs = RedisCache_new_def demo_hiredis_def demo_redis_command_def redisCommand_def context_err_def fullKey_def
    ri_acquire_def ri_release_def ri_repair_def ri_put_back_def count_write_def replyOk_def
  have i: "ri_init demo_hiredis ''cache'' 6379 [] 0 2 100 20 250 ''http:'' (RedisCache_new True (\<lambda>_. None)) = (True, C)"
    by (simp add: ri_init_def ri_shutdown_def closeAllLocked_def connectOne_def authenticate_def select_database_def
        numeral_2_eq_2 C_def defs)
  have s: "ri_set demo_hiredis ''trains'' ''[]'' 0 C = (True, C1)"
    by (simp add: ri_set_def acknowledged_def C1_def C_def defs)
  have g: "ri_get demo_hiredis ''trains'' C1 = (Some ''[]'', C2)"
    by (simp add: ri_get_def C2_def C1_def C_def defs)
  have "ri_server C1 (fullKey C1 ''trains'') = Some ''[]''"
    using redis_cache_is_truthful [OF demo_redis_laws, of C1] g by blast
  moreover have "fullKey C1 ''trains'' = ''http:trains''" by (simp add: fullKey_def C1_def C_def)
  ultimately show ?thesis using i s g by metis
qed

end
