(* ===== verification/Log.thy ===== *)
theory Log
  imports Prelude Text
begin

text \<open>
  \<open>Logger.cpp\<close>: the levels, the queue of the background writer and the rotation by lines. The calendar is an
  argument. What has been written is the list of lines, each with the number of the file it went to (0 is the
  file of \<open>init\<close>, then \<open>fileIndex_\<close>); the console gets the same lines. Opening a file succeeds.
\<close>

datatype log_level = LDEBUG | LINFO | LWARN | LERROR

fun level_rank :: "log_level \<Rightarrow> nat" where
  "level_rank LDEBUG = 0"
| "level_rank LINFO = 1"
| "level_rank LWARN = 2"
| "level_rank LERROR = 3"

record logger =
  lg_queue :: "string list"
  lg_running :: bool
  lg_lineCount :: nat
  lg_fileIndex :: nat
  lg_maxLines :: nat
  lg_minimumLevel :: log_level
  lg_asyncEnabled :: bool
  lg_directory :: string
  lg_file :: "string option"
  lg_written :: "(nat \<times> string) list"
  lg_accepted :: "string list"

definition Logger_new :: logger where
  "Logger_new = \<lparr>lg_queue = [], lg_running = True, lg_lineCount = 0, lg_fileIndex = 0, lg_maxLines = 100000,
     lg_minimumLevel = LINFO, lg_asyncEnabled = True, lg_directory = ''./logs'', lg_file = None, lg_written = [], lg_accepted = []\<rparr>"

definition logger_init :: "nat \<Rightarrow> string \<Rightarrow> log_level \<Rightarrow> bool \<Rightarrow> string \<Rightarrow> logger \<Rightarrow> logger" where
  "logger_init maxLines directory minimumLevel async date L = (let d = (if directory = [] then ''./logs'' else directory) in
     L\<lparr>lg_directory := d, lg_maxLines := maxLines, lg_minimumLevel := minimumLevel, lg_asyncEnabled := async,
       lg_file := Some (d @ ''/'' @ date @ ''.log'')\<rparr>)"

definition rotateFile :: "string \<Rightarrow> logger \<Rightarrow> logger" where
  "rotateFile date L = (let i = lg_fileIndex L + 1 in
     L\<lparr>lg_fileIndex := i, lg_file := Some (lg_directory L @ ''/'' @ date @ ''.log.'' @ nat_digits i), lg_lineCount := 0\<rparr>)"

fun levelToString :: "log_level \<Rightarrow> string" where
  "levelToString LDEBUG = ''[DEBUG]''"
| "levelToString LINFO = ''[INFO ]''"
| "levelToString LWARN = ''[WARN ]''"
| "levelToString LERROR = ''[ERROR]''"

definition log_line :: "string \<Rightarrow> log_level \<Rightarrow> string \<Rightarrow> string" where
  "log_line time level message = time @ '' '' @ levelToString level @ '' '' @ message @ [CHR 0x0A]"

text \<open>One line into the open file, and the rotation.\<close>

definition write_line :: "string \<Rightarrow> string \<Rightarrow> logger \<Rightarrow> logger" where
  "write_line date msg L =
     (let L1 = L\<lparr>lg_written := lg_written L @ (if lg_file L = None then [] else [(lg_fileIndex L, msg)]),
                 lg_lineCount := lg_lineCount L + 1\<rparr>
      in if lg_lineCount L1 \<ge> lg_maxLines L1 then rotateFile date L1 else L1)"

definition logger_log :: "string \<Rightarrow> string \<Rightarrow> log_level \<Rightarrow> string \<Rightarrow> logger \<Rightarrow> logger" where
  "logger_log date time level message L =
     (if level_rank level < level_rank (lg_minimumLevel L) then L
      else let msg = log_line time level message; L1 = L\<lparr>lg_accepted := lg_accepted L @ [msg]\<rparr> in
        if \<not> lg_asyncEnabled L1 then write_line date msg L1 else L1\<lparr>lg_queue := lg_queue L1 @ [msg]\<rparr>)"

text \<open>One turn of the background writer: \<open>None\<close>, it waits; the flag says whether it goes on.\<close>

definition asyncWrite :: "string \<Rightarrow> logger \<Rightarrow> (bool \<times> logger) option" where
  "asyncWrite date L =
     (if \<not> (lg_queue L \<noteq> [] \<or> \<not> lg_running L) then None
      else if \<not> lg_running L \<and> lg_queue L = [] then Some (False, L)
      else Some (True, (fold (write_line date) (lg_queue L) L)\<lparr>lg_queue := []\<rparr>))"

definition logger_stop :: "logger \<Rightarrow> logger" where
  "logger_stop L = L\<lparr>lg_running := False\<rparr>"

inductive log_step :: "logger \<Rightarrow> logger \<Rightarrow> bool" where
  ls_log: "log_step L (logger_log date time level message L)"
| ls_write: "asyncWrite date L = Some (b, L') \<Longrightarrow> log_step L L'"
| ls_stop: "log_step L (logger_stop L)"

definition log_start :: "nat \<Rightarrow> bool \<Rightarrow> logger \<Rightarrow> bool" where
  "log_start maxLines async L \<longleftrightarrow> 0 < maxLines \<and> (\<exists>directory level date. L = logger_init maxLines directory level async date Logger_new)"

definition log_inv :: "logger \<Rightarrow> bool" where
  "log_inv L \<longleftrightarrow> lg_file L \<noteq> None \<and> lg_lineCount L < lg_maxLines L \<and>
     length (filter (\<lambda>x. fst x = lg_fileIndex L) (lg_written L)) = lg_lineCount L \<and>
     (\<forall>g. length (filter (\<lambda>x. fst x = g) (lg_written L)) \<le> lg_maxLines L) \<and>
     (\<forall>x \<in> set (lg_written L). fst x \<le> lg_fileIndex L)"

lemma write_line_inv:
  assumes "log_inv L"
  shows "log_inv (write_line date msg L)" "map snd (lg_written (write_line date msg L)) = map snd (lg_written L) @ [msg]"
    "lg_accepted (write_line date msg L) = lg_accepted L" "lg_queue (write_line date msg L) = lg_queue L"
    "lg_asyncEnabled (write_line date msg L) = lg_asyncEnabled L"
proof -
  have new: "filter (\<lambda>x. fst x = Suc (lg_fileIndex L)) (lg_written L) = []"
    using assms by (fastforce simp: log_inv_def filter_empty_conv)
  have "length (filter (\<lambda>x. fst x = g) (lg_written L @ [(lg_fileIndex L, msg)])) \<le> lg_maxLines L" for g
    using assms by (cases "g = lg_fileIndex L") (auto simp: log_inv_def)
  then show "log_inv (write_line date msg L)"
    using assms new by (auto simp: log_inv_def write_line_def rotateFile_def Let_def le_SucI)
qed (use assms in \<open>auto simp: write_line_def rotateFile_def log_inv_def Let_def\<close>)

lemma write_lines_inv:
  assumes "log_inv L"
  shows "log_inv (fold (write_line date) msgs L) \<and>
    map snd (lg_written (fold (write_line date) msgs L)) = map snd (lg_written L) @ msgs \<and>
    lg_accepted (fold (write_line date) msgs L) = lg_accepted L \<and>
    lg_asyncEnabled (fold (write_line date) msgs L) = lg_asyncEnabled L"
  using assms by (induction msgs arbitrary: L) (simp_all add: write_line_inv)

definition log_all :: "logger \<Rightarrow> bool" where
  "log_all L \<longleftrightarrow> log_inv L \<and> map snd (lg_written L) @ lg_queue L = lg_accepted L \<and> (\<not> lg_asyncEnabled L \<longrightarrow> lg_queue L = [])"

interpretation log: inductive_invariant "log_start maxLines async" log_step log_all
proof
  show "log_all L" if "log_start maxLines async L" for L
    using that by (auto simp: log_start_def logger_init_def Logger_new_def log_all_def log_inv_def Let_def)
  fix L L' assume all: "log_all L" and step: "log_step L L'"
  from step show "log_all L'"
  proof cases
    case (ls_log date time level message)
    let ?m = "log_line time level message" let ?L = "L\<lparr>lg_accepted := lg_accepted L @ [?m]\<rparr>"
    have "log_inv ?L" using all by (simp add: log_all_def log_inv_def)
    then show ?thesis using all write_line_inv [of ?L date ?m]
      by (auto simp: ls_log logger_log_def log_all_def Let_def) (auto simp: log_inv_def)
  next
    case (ls_write date b)
    then show ?thesis using all write_lines_inv [of L date "lg_queue L"]
      by (auto simp: asyncWrite_def log_all_def split: if_split_asm) (auto simp: log_inv_def)
  qed (use all in \<open>simp add: logger_stop_def log_all_def log_inv_def\<close>)
qed

text \<open>
  No line is lost, doubled or reordered: what was accepted is what has been written followed by the queue, and no
  file gets more than \<open>maxLines_\<close> lines.
\<close>

lemma log_keeps_every_line:
  assumes "reachable (log_start maxLines async) log_step L"
  shows "map snd (lg_written L) @ lg_queue L = lg_accepted L \<and>
    (\<forall>g. length (filter (\<lambda>x. fst x = g) (lg_written L)) \<le> lg_maxLines L)"
  using log.inv_reachable [OF assms] by (simp add: log_all_def log_inv_def)

end
