(* ===== verification/Spec2Isabelle.thy ===== *)
theory Spec2Isabelle
  imports Prelude Double Text UnionFind Reservation Policy Manager Monitor Geometry Corridors Analyzer Registry Planner Builder Service ServiceSafety Transport Http Json Vehicles Codec Persist Recovery Api ApiSafety Config VehicleStore Startup Timer WebServer Ledger DbPool Threads Redis Log
begin

text \<open>
  This library verifies the dispatch server of the route planning system (src/server, C++). The server receives
  the lines and the positions of the trains of a city simulation over HTTP, finds out where lines share a track
  or cross, and decides which waiting train may enter next.

  \<^bold>\<open>The program.\<close> \<open>main\<close> reads a configuration, starts the dispatch service, loads what MySQL and Redis have kept,
  and runs the event loop of \<open>WebServer\<close>: the main thread waits for events of the connections, a thread pool
  reads and processes requests, \<open>HttpConn\<close> routes every request to a handler. The handlers work on
  \<open>RailwayDispatchService\<close>, which composes \<open>TrainMonitor\<close> (the latest telemetry), \<open>LineTopologyRegistry\<close> with
  \<open>LineRouteAnalyzer\<close> (routes, shared corridors, crossings), \<open>DispatchCandidateBuilder\<close> (who waits for a corridor),
  \<open>AffectedLinePlanner\<close> (the rolling order of arrivals), \<open>DispatchManager\<close> (occupancy, one pending release per
  corridor), which asks \<open>DynamicPriorityPolicy\<close> and \<open>IntersectionReservationManager\<close>, and
  \<open>DispatchPersistence\<close>, which stores every cycle in one transaction before its commands become visible.

  \<^bold>\<open>Conventions.\<close> A class is a \<open>record\<close>; a method is a function that returns the new record, a C++ reference
  parameter included. \<open>uint64_t\<close> is \<open>u64 = 64 word\<close>, \<open>int\<close> is \<open>i32\<close> read with \<open>sint\<close>, \<open>double\<close> is the datatype of
  theory \<open>Double\<close> (IEEE binary64, rounding to nearest even, NaN and infinities; the sign of zero is dropped).
  An \<open>unordered_map\<close> is an association list with distinct keys, whose order stands for the unspecified
  order of iteration. An exception is \<open>Inl\<close> with its message; undefined behaviour of the source (a conversion
  out of range, an index out of bounds) is \<open>None\<close> or an explicit outcome. A method that holds its mutex from
  beginning to end is one step.

  \<^bold>\<open>Theories and what they model.\<close>
  \<^item> \<open>Prelude\<close> (integers, \<open>std::min\<close>, maps, stable sorting, scans for the best element, reachability), \<open>Double\<close>
    and \<open>Text\<close> (numbers as text and back): what all parts share.
  \<^item> \<open>Reservation\<close>: IntersectionReservationManager.cpp. \<open>canReserve\<close> decides the declarative \<open>reservable\<close>; bookings
    are all or nothing; in a reachable state no two conflicting movements are booked; the clearing time is kept.
  \<^item> \<open>Policy\<close>: DispatchPolicy.h and DynamicPriorityPolicy.cpp. When a train is released, in which order, and why
    nobody starves.
  \<^item> \<open>Manager\<close>: DispatchManager.cpp, composed from the two. Capacity, the pending flag, the interlock of the two
    directions of a track, the life cycle of a release, the bound of the fairness credit (stated of the service).
  \<^item> \<open>Monitor\<close>: TrainMonitor.cpp.
  \<^item> \<open>UnionFind\<close>, \<open>Geometry\<close>, \<open>Corridors\<close>, \<open>Analyzer\<close>: LineRouteAnalyzer.cpp. The disjoint-set forest with path
    compression implements the equivalence it is built from; the spatial grid hides no pair of segments that
    come near each other; joining corridors ends, is exhaustive, and loses no shared stretch; the filter keeps
    exactly the long groups; every crossing that is reported protects both ways.
  \<^item> \<open>Registry\<close>: LineTopologyRegistry.cpp. Which uploads and restores are refused, and that they then change nothing;
    the indices agree with the analysis.
  \<^item> \<open>Planner\<close>: AffectedLinePlanner.cpp. The distance along a line, the scoring window, the ranks.
  \<^item> \<open>Builder\<close>: DispatchCandidateBuilder.cpp (its copies of the helpers of the planner are those of \<open>Planner\<close>).
  \<^item> \<open>Service\<close>, \<open>ServiceSafety\<close>: RailwayDispatchService.cpp. One relation \<open>sv_step\<close> over all public methods, its
    invariant, and the guarantees from telemetry to acknowledgement.
  \<^item> \<open>Transport\<close>: Response.cpp, TcpConn.cpp. Sending in pieces, reading into the growing buffer, the states of a
    connection. \<open>Http\<close>: the protocol half of HttpConn.cpp (parsing, static files, response headers).
  \<^item> \<open>Json\<close>, \<open>Codec\<close>, \<open>Api\<close>, \<open>ApiSafety\<close>: the application half of HttpConn.cpp, every route and handler.
  \<^item> \<open>Vehicles\<close>, \<open>VehicleStore\<close>: VehicleState.h, VehicleManager.cpp. \<open>Persist\<close>, \<open>Recovery\<close>: DispatchPersistence.cpp.
    A cycle is stored all or not at all; what is stored is recovered, from the SQL texts to the read rows.
  \<^item> \<open>Config\<close>, \<open>Startup\<close>: Config.cpp and main.cpp, from the file to the state in which the loop starts.
  \<^item> \<open>Timer\<close>: TimerManager.cpp. \<open>Threads\<close>: ThreadPool.cpp, with its condition variable; no wake-up is lost.
    \<open>WebServer\<close>: WebServer.cpp, Epoller.cpp, as an interleaving of the main thread and the workers, one access to
    shared state per step; the callbacks of \<open>handleExpired\<close> run one after the other between its iterations.
  \<^item> \<open>DbPool\<close>: DBConnectionPool.cpp. \<open>Redis\<close>: RedisCache.cpp. \<open>Log\<close>: Logger.cpp.
  \<^item> This theory composes \<open>main\<close>, the threads of the server and the dispatch service.

  \<^bold>\<open>Interfaces.\<close> Each is a locale with an interpretation on the code's model: \<open>keyed_store\<close> (maps: insert, erase,
  look up), \<open>inductive_invariant\<close> (a relation and what it keeps; interpreted for the reservations, the manager, the
  monitor, the registry, the service, the thread pool, the web server and the logger), \<open>scan_order\<close> (a loop that
  keeps the best element; the two comparisons of the policy and the timers), \<open>rounding_mode\<close> (monotone rounding
  that is exact on integers), \<open>dispatch_policy\<close> (what \<open>DispatchManager\<close> relies on), \<open>reservation_service\<close> (what a
  booking promises), \<open>sendable\<close> (a response as a cursor over its bytes), and \<open>ledger\<close> (a pool in which nothing
  is in two places; the MySQL and the Redis pool).

  \<^bold>\<open>Loops, bounds and fuel.\<close> \<open>uf_root\<close> and \<open>distance_loop\<close> are \<open>partial_function (option)\<close>: following parents
  ends for every forest that the code builds (\<open>uf_root_total\<close>), and walking to a corridor entry is proved to return
  for a train before it (\<open>distance_way\<close> and the lemmas before it). The joining of corridors, the ranking and the loops of the timers are total with a
  measure. \<open>read_loop\<close> has fuel \<open>read_fuel\<close>, the number of answers and bytes of \<open>recv\<close> plus one: every turn uses up
  an answer or a byte, and \<open>read_loop_returns\<close> shows that it suffices. The theorem of the timers is for fewer than
  \<open>2 ^ 64\<close> operations, the range of the version counter. \<open>double\<close> arithmetic is exact where a lemma says so, otherwise the lemmas use
  that rounding is monotone.

  \<^bold>\<open>Parameters.\<close> \<open>std::acos\<close>; the JSON library (\<open>json_lib\<close>, with \<open>json_laws\<close>: what was built can be read); the YAML
  library and \<open>getopt\<close>; MySQL (\<open>mysql\<close>, with \<open>mysql_tx\<close>: a transaction shows nothing before its commit, a failed statement has
  no effect and may end the transaction, a commit that is answered with an error has an unknown outcome; and, for the
  recovery, \<open>writes_documented\<close> and \<open>reads_documented\<close>: what the SQL texts of the program mean, each written out);
  hiredis and Redis (\<open>redis_laws\<close>, one view of the database that all connections of the cache have selected); the clock, \<open>accept\<close>, \<open>recv\<close>, \<open>writev\<close>, \<open>epoll_wait\<close>, \<open>stat\<close>, \<open>open\<close>, \<open>mmap\<close> as the
  answers that a step is given. Each set of laws has a concrete instance in a witness.

  \<^bold>\<open>Not modelled.\<close> Of \<open>WebServer\<close>, the creation of the listening socket and the destructor: calls of the system
  in a row. A run that reaches undefined behaviour of the source (the outcome \<open>Broken\<close> of a request) has no further
  step, so nothing is said of what follows. Of \<open>main\<close>, the signal handlers, the setup of the logger and what is printed. Log messages in all
  components. The comparison of several earliest timers is by insertion, where \<open>std::priority_queue\<close> leaves it open.
  A request is one step of the web server, because the service and the vehicles hold their mutexes and a request
  changes the service at most once; the cache of responses between two requests is an input. In the Proactor mode
  the source uses the timers from several threads without a lock; the model lets these calls not overlap, which
  the source does not guarantee. Test programs under server/tests and \<open>threadpool_test\<close>, the C# client inside the
  game (src/cities-skylines-mod), the pages, SQL and scripts are outside this development.
\<close>

subsection \<open>The whole process\<close>

text \<open>C1: the running process is safe. From the start of \<open>main\<close>, whatever the configuration file, the command
  line and the stored data say, through every interleaving of the main thread, the workers, the clients
  and the clock: the dispatch service is in a reachable state, so that every command that waits for its train
  owns its track (its resource is pending and within its capacity, the opposite direction is neither
  occupied nor pending, no other command is for the same track), and every vehicle is filed under its id.\<close>

theorem running_process_is_safe:
  assumes "new_railway_service = Inr s0"
    and "main_start J Y acos M R exists_file executable_config opts pool_ok s0 db wall = Serving c sv p"
    and "reachable (web_start (sint (cs_actor_model (cf_server c))) (cs_timeout_ms (cf_server c)) sv) (web_step J) sy"
    and "s = sr_service (wb_server (sy_web sy))"
  shows "reachable sv_start sv_step s \<and> vm_inv (sr_vehicles (wb_server (sy_web sy))) \<and>
    (\<forall>t d. um_find (sv_commands s) t = Some d \<longrightarrow> dd_train_id d = t \<and>
      (\<exists>co. corridorState (sv_dispatch s) (dd_corridor_resource_id d) = Some co \<and>
        co_command_pending co \<and> co_occupancy co \<le> co_capacity co \<and>
        no_opposing (corridorState (sv_dispatch s)) (dd_corridor_resource_id d) (co_corridor_id co) \<and>
        (\<forall>t' d' co'. t' \<noteq> t \<longrightarrow> um_find (sv_commands s) t' = Some d' \<longrightarrow>
           corridorState (sv_dispatch s) (dd_corridor_resource_id d') = Some co' \<longrightarrow>
           co_corridor_id co' \<noteq> co_corridor_id co)))"
proof -
  have "safe_server sv" using main_start_safe [OF assms(1,2)] by (simp add: safe_server_def)
  then have safe: "reachable sv_start sv_step s \<and> vm_inv (sr_vehicles (wb_server (sy_web sy)))"
    using web_run_served [OF assms(3)] assms(4) by (simp add: safe_server_def)
  then have "svc_inv s" using sv.inv_reachable by blast
  then show ?thesis using safe command_owns_track by blast
qed

lemma memory_start:
  assumes "new_railway_service = Inr s"
  shows "\<exists>sv. main_start demo_json demo_yaml demo_acos demo_start_mysql \<lparr>rd_enabled = False, rd_answer = (\<lambda>_. True)\<rparr>
     (\<lambda>_. False) [] [] True s [] 1000 = Serving default_config sv (new_persistence [])"
proof -
  obtain s1 where s1: "configure s (railwayDispatchServiceConfig default_config) = Done () s1"
    using checked_configures [OF default_checked default_finite] by blast
  have "main_config demo_yaml (\<lambda>_. False) [] [] = Some (Inr default_config)"
    by (simp add: main_config_def choose_config_def)
  then show ?thesis using s1
    by (simp add: main_start_def start_vehicles_def start_storage_def)
      (simp add: default_config_def)
qed

lemma running_process_is_safe_witness:
  "\<exists>sy :: system. sy_threads sy = [Idle] \<and> reachable sv_start sv_step (sr_service (wb_server (sy_web sy)))"
proof -
  obtain s where s: "new_railway_service = Inr s"
    using default_components by (auto simp: new_railway_service_def default_service_config_def)
  obtain sv where m: "main_start demo_json demo_yaml demo_acos demo_start_mysql \<lparr>rd_enabled = False, rd_answer = (\<lambda>_. True)\<rparr>
     (\<lambda>_. False) [] [] True s [] 1000 = Serving default_config sv (new_persistence [])"
    using memory_start [OF s] by blast
  let ?sy = "\<lparr>sy_web = WebServer_new (sint (cs_actor_model (cf_server default_config)))
    (cs_timeout_ms (cf_server default_config)) sv, sy_threads = [Idle], sy_todo = []\<rparr>"
  have "reachable (web_start (sint (cs_actor_model (cf_server default_config))) (cs_timeout_ms (cf_server default_config)) sv)
    (web_step demo_json) ?sy" by (rule reach_init) (simp add: web_start_def)
  from running_process_is_safe [OF s m this refl] show ?thesis by - (rule exI [of _ ?sy], simp)
qed

end
